(* ===== verification/Prelude.thy ===== *)
theory Prelude
  imports Complex_Main "HOL-Library.List_Lexorder" "HOL-Library.Char_ord" "HOL-Library.Product_Lexorder"
begin

text \<open>
  Shared vocabulary of the development: the type names of the model, the string operations of
  JavaScript and Lua that the sources use (splitting, joining, decimal printing and reading of
  numbers), and the generic lemmas on lists, maps and strings that the component theories rely on.

  Keys, identifiers and stored values are HOL strings. Numbers that the sources keep as integers
  (timestamps, scores, counts) are \<open>int\<close> or \<open>nat\<close>; a number that may have a fraction is a
  \<open>rat\<close>, and where the program rounds to a double the rounding is an argument of the model.
\<close>

type_synonym key = string
type_synonym time = int

named_theorems script_defs \<open>definitions of the atomic Lua scripts\<close>
named_theorems key_defs \<open>definitions of the key producers\<close>
named_theorems view_simps \<open>what a server command does to the observable keyspace\<close>

text \<open>The types of a runtime environment, which the queues' messages carry.\<close>

datatype environment_type = PRODUCTION | STAGING | DEVELOPMENT | PREVIEW

subsection \<open>Splitting and joining strings\<close>

text \<open>JavaScript's \<open>s.split(c)\<close> for a one-character separator.\<close>

fun split_on :: "char \<Rightarrow> string \<Rightarrow> string list" where
  "split_on c [] = [[]]"
| "split_on c (x # xs) =
     (if x = c then [] # split_on c xs
      else (x # hd (split_on c xs)) # tl (split_on c xs))"

text \<open>JavaScript's \<open>parts.join(sep)\<close>.\<close>

fun join_with :: "string \<Rightarrow> string list \<Rightarrow> string" where
  "join_with sep [] = []"
| "join_with sep [p] = p"
| "join_with sep (p # q # ps) = p @ sep @ join_with sep (q # ps)"

abbreviation colon :: char where "colon \<equiv> CHR '':''"

abbreviation colon_free :: "string \<Rightarrow> bool" where
  "colon_free s \<equiv> colon \<notin> set s"

lemma split_on_nonempty [simp]: "split_on c s \<noteq> []"
  by (cases s) auto

lemma split_on_free [simp]: "c \<notin> set s \<Longrightarrow> split_on c s = [s]"
  by (induction s) auto

lemma split_on_append_free:
  "c \<notin> set a \<Longrightarrow> split_on c (a @ b) = (a @ hd (split_on c b)) # tl (split_on c b)"
  by (induction a) auto

lemma split_on_append_sep: "split_on c (a @ c # b) = split_on c a @ split_on c b"
proof (induction a)
  case Nil
  show ?case by simp
next
  case (Cons x a)
  then show ?case by (cases "split_on c a") auto
qed

lemma split_on_prefix: "c \<notin> set a \<Longrightarrow> split_on c (a @ c # b) = a # split_on c b"
  by (simp add: split_on_append_sep)

lemma split_on_join:
  "ps \<noteq> [] \<Longrightarrow> split_on c (join_with [c] ps) = concat (map (split_on c) ps)"
proof (induction "[c]" ps rule: join_with.induct)
  case (3 p q ps)
  then show ?case by (simp add: split_on_append_sep)
qed auto

lemma join_split_on [simp]: "join_with [c] (split_on c s) = s"
proof (induction s)
  case (Cons x s)
  obtain p ps where ps: "split_on c s = p # ps"
    by (cases "split_on c s") auto
  with Cons show ?case by (cases ps) auto
qed simp

lemma split_on_inject [simp]: "split_on c s = split_on c t \<longleftrightarrow> s = t"
  by (metis join_split_on)

lemma split_on_parts_free: "p \<in> set (split_on c s) \<Longrightarrow> c \<notin> set p"
proof (induction s arbitrary: p)
  case (Cons x s)
  then show ?case
    by (cases "split_on c s") (auto split: if_splits)
qed simp

lemma join_with_append:
  "ps \<noteq> [] \<Longrightarrow> qs \<noteq> [] \<Longrightarrow> join_with sep (ps @ qs) = join_with sep ps @ sep @ join_with sep qs"
proof (induction sep ps rule: join_with.induct)
  case (2 sep p)
  then show ?case by (cases qs) auto
qed auto

subsection \<open>Decimal numbers\<close>

text \<open>JavaScript's \<open>String(n)\<close> on integers.\<close>

definition digit_char :: "nat \<Rightarrow> char" where
  "digit_char d = char_of (48 + d)"

fun nat_to_string :: "nat \<Rightarrow> string" where
  "nat_to_string n =
     (if n < 10 then [digit_char n] else nat_to_string (n div 10) @ [digit_char (n mod 10)])"

declare nat_to_string.simps [simp del]

definition int_to_string :: "int \<Rightarrow> string" where
  "int_to_string i = (if i < 0 then CHR ''-'' # nat_to_string (nat (- i)) else nat_to_string (nat i))"

text \<open>Reading a decimal number: an optional sign, digits, and an optional fraction. \<open>None\<close> is Lua's
  \<open>nil\<close> (and JavaScript's \<open>NaN\<close>). Exponents and hexadecimal numerals, which the program never
  writes, are not read.\<close>

definition digit_of :: "char \<Rightarrow> nat option" where
  "digit_of c = (let n = of_char c :: nat in if 48 \<le> n \<and> n \<le> 57 then Some (n - 48) else None)"

fun digits_value :: "nat \<Rightarrow> string \<Rightarrow> nat option" where
  "digits_value acc [] = Some acc"
| "digits_value acc (c # cs) =
     (case digit_of c of None \<Rightarrow> None | Some d \<Rightarrow> digits_value (10 * acc + d) cs)"

definition read_digits :: "string \<Rightarrow> nat option" where
  "read_digits s = (if s = [] then None else digits_value 0 s)"

definition unsigned_value :: "string \<Rightarrow> rat option" where
  "unsigned_value s =
     (case split_on (CHR ''.'') s of
        [w] \<Rightarrow> map_option of_nat (read_digits w)
      | [w, f] \<Rightarrow>
          (case (read_digits w, read_digits f) of
             (Some a, Some b) \<Rightarrow> Some (of_nat a + of_nat b / 10 ^ length f)
           | _ \<Rightarrow> None)
      | _ \<Rightarrow> None)"

definition decimal_value :: "string \<Rightarrow> rat option" where
  "decimal_value s =
     (case s of
        c # cs \<Rightarrow> if c = CHR ''-'' then map_option uminus (unsigned_value cs) else unsigned_value s
      | [] \<Rightarrow> None)"

lemma of_char_digit_char [simp]: "d < 10 \<Longrightarrow> of_char (digit_char d) = (48 + d :: nat)"
  by (simp add: digit_char_def)

lemma digit_of_digit_char [simp]: "d < 10 \<Longrightarrow> digit_of (digit_char d) = Some d"
  by (simp add: digit_of_def Let_def)

lemma digits_value_append:
  "digits_value acc (xs @ ys) =
     (case digits_value acc xs of None \<Rightarrow> None | Some a \<Rightarrow> digits_value a ys)"
  by (induction acc xs rule: digits_value.induct) (auto split: option.splits)

lemma nat_to_string_nonempty [simp]: "nat_to_string n \<noteq> []"
  by (subst nat_to_string.simps) simp

lemma digits_value_nat_to_string: "digits_value 0 (nat_to_string n) = Some n"
proof (induction n rule: nat_to_string.induct)
  case (1 n)
  then show ?case
    by (subst nat_to_string.simps) (auto simp: digits_value_append)
qed

lemma read_digits_nat_to_string [simp]: "read_digits (nat_to_string n) = Some n"
  by (simp add: read_digits_def digits_value_nat_to_string)

lemma digit_char_chars: "d < 10 \<Longrightarrow> digit_char d \<in> set ''0123456789''"
proof -
  assume "d < 10"
  then have "d = 0 \<or> d = 1 \<or> d = 2 \<or> d = 3 \<or> d = 4 \<or> d = 5 \<or> d = 6 \<or> d = 7 \<or> d = 8 \<or> d = 9"
    by arith
  then show ?thesis by (elim disjE) (simp_all add: digit_char_def char_of_def bit_0)
qed

lemma nat_to_string_chars: "set (nat_to_string n) \<subseteq> set ''0123456789''"
proof (induction n rule: nat_to_string.induct)
  case (1 n)
  show ?case
  proof (cases "n < 10")
    case True
    then show ?thesis
      using digit_char_chars [of n] by (subst nat_to_string.simps) simp
  next
    case False
    then show ?thesis
      using "1" digit_char_chars [of "n mod 10"] by (subst nat_to_string.simps) simp
  qed
qed

lemma nat_to_string_no_dot: "CHR ''.'' \<notin> set (nat_to_string n)"
  and nat_to_string_no_minus: "CHR ''-'' \<notin> set (nat_to_string n)"
  and nat_to_string_colon_free [simp]: "colon_free (nat_to_string n)"
  using nat_to_string_chars [of n] by auto

lemma unsigned_value_nat_to_string [simp]: "unsigned_value (nat_to_string n) = Some (of_nat n)"
  by (simp add: unsigned_value_def nat_to_string_no_dot)

lemma decimal_value_int_to_string [simp]: "decimal_value (int_to_string i) = Some (of_int i)"
proof (cases "i < 0")
  case True
  then show ?thesis by (simp add: decimal_value_def int_to_string_def)
next
  case False
  obtain c cs where c: "nat_to_string (nat i) = c # cs"
    by (cases "nat_to_string (nat i)") auto
  then have "c \<noteq> CHR ''-''" using nat_to_string_no_minus [of "nat i"] by auto
  then have "decimal_value (nat_to_string (nat i)) = unsigned_value (nat_to_string (nat i))"
    by (simp add: decimal_value_def c)
  with False show ?thesis by (simp add: int_to_string_def)
qed

lemma nat_to_string_inject [simp]: "nat_to_string m = nat_to_string n \<longleftrightarrow> m = n"
  by (metis read_digits_nat_to_string option.inject)

lemma int_to_string_inject [simp]: "int_to_string m = int_to_string n \<longleftrightarrow> m = n"
  by (metis decimal_value_int_to_string of_int_eq_iff option.inject)

lemma int_to_string_colon_free [simp]: "colon_free (int_to_string i)"
  by (simp add: int_to_string_def)

text \<open>JavaScript's \<open>parseInt(s, 10)\<close>: white space, a sign, then as many digits as there are; \<open>None\<close> is
  \<open>NaN\<close>.\<close>

definition leading_digits :: "string \<Rightarrow> string" where
  "leading_digits s = takeWhile (\<lambda>c. digit_of c \<noteq> None) s"

definition parse_int :: "string \<Rightarrow> int option" where
  "parse_int s =
     (case dropWhile (\<lambda>c. c \<in> {CHR '' '', CHR 0x09, CHR 0x0A, CHR 0x0B, CHR 0x0C, CHR 0x0D, CHR 0xA0}) s of
        c # cs \<Rightarrow>
          if c = CHR ''-'' then map_option (\<lambda>n. - int n) (read_digits (leading_digits cs))
          else if c = CHR ''+'' then map_option int (read_digits (leading_digits cs))
          else map_option int (read_digits (leading_digits (c # cs)))
      | [] \<Rightarrow> None)"

lemma nat_to_string_digits: "\<forall>c \<in> set (nat_to_string n). digit_of c \<noteq> None"
proof (induction n rule: nat_to_string.induct)
  case (1 n)
  then show ?case by (subst nat_to_string.simps) auto
qed

lemma leading_digits_nat_to_string [simp]: "leading_digits (nat_to_string n) = nat_to_string n"
  using nat_to_string_digits [of n] by (simp add: leading_digits_def)

lemma nat_to_string_head:
  obtains c cs where "nat_to_string n = c # cs" and "c \<in> set ''0123456789''"
  using nat_to_string_chars [of n] by (cases "nat_to_string n") auto

lemma parse_int_int_to_string [simp]: "parse_int (int_to_string i) = Some i"
proof (cases "i < 0")
  case True
  then show ?thesis by (simp add: int_to_string_def parse_int_def)
next
  case False
  obtain c cs where c: "nat_to_string (nat i) = c # cs" "c \<in> set ''0123456789''" by (rule nat_to_string_head)
  have "read_digits (leading_digits (c # cs)) = Some (nat i)"
    using c(1) leading_digits_nat_to_string [of "nat i"] read_digits_nat_to_string [of "nat i"] by simp
  moreover have "c \<notin> {CHR '' '', CHR 0x09, CHR 0x0A, CHR 0x0B, CHR 0x0C, CHR 0x0D, CHR 0xA0}" "c \<noteq> CHR ''-''" "c \<noteq> CHR ''+''"
    using c(2) by auto
  ultimately show ?thesis using False c(1) by (simp add: int_to_string_def parse_int_def)
qed

subsection \<open>Rounding to doubles\<close>

text \<open>What the code relies on of rounding to a double: it is monotone and keeps small integers.\<close>

definition rounds_doubles :: "(rat \<Rightarrow> rat) \<Rightarrow> bool" where
  "rounds_doubles fl \<longleftrightarrow> mono fl \<and> (\<forall>i::int. \<bar>i\<bar> \<le> 2 ^ 53 \<longrightarrow> fl (of_int i) = of_int i)"

lemma rounds_doubles_floor:
  assumes "rounds_doubles fl" and "of_int i \<le> q" and "\<bar>i\<bar> \<le> 2 ^ 53"
  shows "i \<le> \<lfloor>fl q\<rfloor>"
proof -
  have "fl (of_int i) \<le> fl q"
    using assms(1,2) by (simp add: rounds_doubles_def monoD)
  then have "of_int i \<le> fl q"
    using assms(1,3) by (simp add: rounds_doubles_def)
  then show ?thesis by (simp add: le_floor_iff)
qed

lemma rounds_doubles_id: "rounds_doubles (\<lambda>q. q)"
  by (simp add: rounds_doubles_def mono_def)

lemma rounds_doubles_int: "rounds_doubles fl \<Longrightarrow> \<bar>i\<bar> \<le> 2 ^ 53 \<Longrightarrow> fl (of_int i) = of_int i"
  by (simp add: rounds_doubles_def)

end
