(* ===== verification/Redis_Interface.thy ===== *)
theory Redis_Interface
  imports Prelude
begin

text \<open>
  The Redis server is a service outside the repository, so it is a parameter of the model: a record
  of the commands the sources call, over a keyspace of any type \<open>'s\<close>. What the program relies on is
  the locale \<open>redis_server\<close>: each command is described by its documented effect on the observable
  keyspace (\<open>rview\<close>, which is built from reading commands only). The scripts the program registers
  with \<open>defineCommand\<close> run atomically, so a script is a function on the keyspace.

  One keyspace holds values of several kinds. A command against a key that holds another kind of
  value is refused by the server; the views below keep the kinds apart, which is the program's own
  discipline (every key it builds is used for one kind of value).

  The second half is a reference server, \<open>mem_redis\<close>, an executable in-memory keyspace; its
  interpretation discharges every law, so that no law is contradictory and every script can be run.
\<close>

record 's redis =
  rGET :: "key \<Rightarrow> 's \<Rightarrow> string option"
  rSET :: "key \<Rightarrow> string \<Rightarrow> 's \<Rightarrow> 's"
  rSETEX :: "key \<Rightarrow> string \<Rightarrow> nat \<Rightarrow> 's \<Rightarrow> 's"
  rINCR :: "key \<Rightarrow> 's \<Rightarrow> int option \<times> 's"
  rEXISTS :: "key \<Rightarrow> 's \<Rightarrow> bool"
  rDEL :: "key \<Rightarrow> 's \<Rightarrow> 's"
  zADD :: "key \<Rightarrow> int \<Rightarrow> string \<Rightarrow> 's \<Rightarrow> 's"
  zADDNX :: "key \<Rightarrow> int \<Rightarrow> string \<Rightarrow> 's \<Rightarrow> 's"
  zADDXX :: "key \<Rightarrow> int \<Rightarrow> string \<Rightarrow> 's \<Rightarrow> 's"
  zREM :: "key \<Rightarrow> string \<Rightarrow> 's \<Rightarrow> 's"
  zSCORE :: "key \<Rightarrow> string \<Rightarrow> 's \<Rightarrow> int option"
  zCARD :: "key \<Rightarrow> 's \<Rightarrow> nat"
  zRANGE :: "key \<Rightarrow> int \<Rightarrow> int \<Rightarrow> 's \<Rightarrow> (string \<times> int) list"
  zRANGEBYSCORE :: "key \<Rightarrow> int \<Rightarrow> nat \<Rightarrow> 's \<Rightarrow> (string \<times> int) list"
  zCOUNT :: "key \<Rightarrow> int \<Rightarrow> 's \<Rightarrow> nat"
  sADD :: "key \<Rightarrow> string \<Rightarrow> 's \<Rightarrow> 's"
  sREM :: "key \<Rightarrow> string \<Rightarrow> 's \<Rightarrow> 's"
  sISMEMBER :: "key \<Rightarrow> string \<Rightarrow> 's \<Rightarrow> bool"
  sCARD :: "key \<Rightarrow> 's \<Rightarrow> nat"
  sMEMBERS :: "key \<Rightarrow> 's \<Rightarrow> string list"
  lRPUSH :: "key \<Rightarrow> string \<Rightarrow> 's \<Rightarrow> 's"
  lLPOP :: "key \<Rightarrow> 's \<Rightarrow> string option \<times> 's"
  lLEN :: "key \<Rightarrow> 's \<Rightarrow> nat"
  lREM :: "key \<Rightarrow> string \<Rightarrow> 's \<Rightarrow> 's"
  lRANGE :: "key \<Rightarrow> 's \<Rightarrow> string list"
  hGET :: "key \<Rightarrow> string \<Rightarrow> 's \<Rightarrow> string option"
  hSET :: "key \<Rightarrow> string \<Rightarrow> string \<Rightarrow> 's \<Rightarrow> 's"
  hSETNX :: "key \<Rightarrow> string \<Rightarrow> string \<Rightarrow> 's \<Rightarrow> bool \<times> 's"
  hDEL :: "key \<Rightarrow> string \<Rightarrow> 's \<Rightarrow> 's"
  hINCRBYFLOAT :: "key \<Rightarrow> string \<Rightarrow> int \<Rightarrow> 's \<Rightarrow> string option \<times> 's"

text \<open>
  \<open>zRANGE k i j\<close> is \<open>ZRANGE k i j WITHSCORES\<close>; \<open>zRANGEBYSCORE k hi n\<close> is
  \<open>ZRANGEBYSCORE k -inf hi WITHSCORES LIMIT 0 n\<close>; \<open>zCOUNT k hi\<close> is \<open>ZCOUNT k -inf hi\<close>;
  \<open>rSETEX k v n\<close> is \<open>SET k v EX n\<close>: the value, until it expires, which is a later deletion of the key;
  \<open>rINCR k\<close> adds one to the whole number at \<open>k\<close>, 0 when there is none (\<open>None\<close>: the value is not a number);
  \<open>lREM k v\<close> is \<open>LREM k 0 v\<close> (all occurrences); \<open>lRANGE k\<close> is \<open>LRANGE k 0 -1\<close>;
  \<open>hINCRBYFLOAT k f i\<close> adds the whole number \<open>i\<close> to a field (\<open>None\<close>: the field is not a number).
\<close>

text \<open>A field that holds a whole number; a missing one counts as 0.\<close>

definition whole_field :: "string option \<Rightarrow> int option" where
  "whole_field v =
     (case v of
        None \<Rightarrow> Some 0
      | Some s \<Rightarrow> (case decimal_value s of Some x \<Rightarrow> if x = of_int \<lfloor>x\<rfloor> then Some \<lfloor>x\<rfloor> else None | None \<Rightarrow> None))"

lemma whole_field_simps [simp]: "whole_field None = Some 0" "whole_field (Some (int_to_string i)) = Some i"
  by (simp_all add: whole_field_def)

record view =
  v_str :: "key \<Rightarrow> string option"
  v_zset :: "key \<Rightarrow> string \<Rightarrow> int option"
  v_set :: "key \<Rightarrow> string set"
  v_list :: "key \<Rightarrow> string list"
  v_hash :: "key \<Rightarrow> string \<Rightarrow> string option"

definition rview :: "'s redis \<Rightarrow> 's \<Rightarrow> view" where
  "rview R s =
     \<lparr>v_str = (\<lambda>k. rGET R k s),
      v_zset = (\<lambda>k m. zSCORE R k m s),
      v_set = (\<lambda>k. {m. sISMEMBER R k m s}),
      v_list = (\<lambda>k. lRANGE R k s),
      v_hash = (\<lambda>k f. hGET R k f s)\<rparr>"

text \<open>A sorted set lists its members by increasing score, equal scores by the members' order.\<close>

definition zsorted :: "(string \<Rightarrow> int option) \<Rightarrow> (string \<times> int) list" where
  "zsorted z = map prod.swap (sorted_list_of_set {(sc, m). z m = Some sc})"

text \<open>Redis range indices: negative ones count from the end, the stop index is included.\<close>

definition redis_slice :: "int \<Rightarrow> int \<Rightarrow> 'a list \<Rightarrow> 'a list" where
  "redis_slice i j xs =
     (let n = int (length xs);
          a = (if i < 0 then max 0 (n + i) else i);
          b = (if j < 0 then n + j else j)
      in take (nat (b + 1 - a)) (drop (nat a) xs))"

locale redis_server =
  fixes R :: "'s redis"
  assumes rSET_view: "rview R (rSET R k v s) = (rview R s)\<lparr>v_str := (v_str (rview R s))(k := Some v)\<rparr>"
    and rSETEX_view: "rview R (rSETEX R k v n s) = rview R (rSET R k v s)"
    and rINCR_result: "v_str (rview R s) k = None \<and> x = 0 \<or> v_str (rview R s) k = Some (int_to_string x) \<Longrightarrow>
      fst (rINCR R k s) = Some (x + 1)"
    and rINCR_view: "v_str (rview R s) k = None \<and> x = 0 \<or> v_str (rview R s) k = Some (int_to_string x) \<Longrightarrow>
      rview R (snd (rINCR R k s)) = rview R (rSET R k (int_to_string (x + 1)) s)"
    and rINCR_key: "rview R (snd (rINCR R k s)) = rview R s \<or> (\<exists>v. rview R (snd (rINCR R k s)) = rview R (rSET R k v s))"
    and rEXISTS_view: "rEXISTS R k s \<longleftrightarrow> v_str (rview R s) k \<noteq> None \<or> v_zset (rview R s) k \<noteq> Map.empty
      \<or> v_set (rview R s) k \<noteq> {} \<or> v_list (rview R s) k \<noteq> [] \<or> v_hash (rview R s) k \<noteq> Map.empty"
    and rDEL_view: "rview R (rDEL R k s) =
      \<lparr>v_str = (v_str (rview R s))(k := None), v_zset = (v_zset (rview R s))(k := Map.empty),
       v_set = (v_set (rview R s))(k := {}), v_list = (v_list (rview R s))(k := []),
       v_hash = (v_hash (rview R s))(k := Map.empty)\<rparr>"
    and zADD_view: "rview R (zADD R k sc m s) = (rview R s)\<lparr>v_zset := (v_zset (rview R s))
      (k := (v_zset (rview R s) k)(m := Some sc))\<rparr>"
    and zADDNX_view: "rview R (zADDNX R k sc m s) =
      (if v_zset (rview R s) k m = None then rview R (zADD R k sc m s) else rview R s)"
    and zADDXX_view: "rview R (zADDXX R k sc m s) =
      (if v_zset (rview R s) k m = None then rview R s else rview R (zADD R k sc m s))"
    and zREM_view: "rview R (zREM R k m s) = (rview R s)\<lparr>v_zset := (v_zset (rview R s))
      (k := (v_zset (rview R s) k)(m := None))\<rparr>"
    and zset_finite: "finite (dom (v_zset (rview R s) k))"
    and zCARD_view: "zCARD R k s = card (dom (v_zset (rview R s) k))"
    and zRANGE_view: "zRANGE R k i j s = redis_slice i j (zsorted (v_zset (rview R s) k))"
    and zRANGEBYSCORE_view: "zRANGEBYSCORE R k hi n s =
      take n (filter (\<lambda>(m, sc). sc \<le> hi) (zsorted (v_zset (rview R s) k)))"
    and zCOUNT_view: "zCOUNT R k hi s = card {m. \<exists>sc. v_zset (rview R s) k m = Some sc \<and> sc \<le> hi}"
    and sADD_view: "rview R (sADD R k m s) = (rview R s)\<lparr>v_set := (v_set (rview R s))
      (k := insert m (v_set (rview R s) k))\<rparr>"
    and sREM_view: "rview R (sREM R k m s) = (rview R s)\<lparr>v_set := (v_set (rview R s))
      (k := v_set (rview R s) k - {m})\<rparr>"
    and set_finite: "finite (v_set (rview R s) k)"
    and sCARD_view: "sCARD R k s = card (v_set (rview R s) k)"
    and sMEMBERS_view: "set (sMEMBERS R k s) = v_set (rview R s) k"
    and lRPUSH_view: "rview R (lRPUSH R k v s) = (rview R s)\<lparr>v_list := (v_list (rview R s))
      (k := v_list (rview R s) k @ [v])\<rparr>"
    and lLPOP_result: "fst (lLPOP R k s) =
      (case v_list (rview R s) k of [] \<Rightarrow> None | x # xs \<Rightarrow> Some x)"
    and lLPOP_view: "rview R (snd (lLPOP R k s)) = (rview R s)\<lparr>v_list := (v_list (rview R s))
      (k := tl (v_list (rview R s) k))\<rparr>"
    and lLEN_view: "lLEN R k s = length (v_list (rview R s) k)"
    and lREM_view: "rview R (lREM R k v s) = (rview R s)\<lparr>v_list := (v_list (rview R s))
      (k := filter (\<lambda>x. x \<noteq> v) (v_list (rview R s) k))\<rparr>"
    and hSET_view: "rview R (hSET R k f v s) = (rview R s)\<lparr>v_hash := (v_hash (rview R s))
      (k := (v_hash (rview R s) k)(f := Some v))\<rparr>"
    and hSETNX_result: "fst (hSETNX R k f v s) \<longleftrightarrow> v_hash (rview R s) k f = None"
    and hSETNX_view: "rview R (snd (hSETNX R k f v s)) =
      (if v_hash (rview R s) k f = None then rview R (hSET R k f v s) else rview R s)"
    and hINCRBYFLOAT_result: "whole_field (v_hash (rview R s) k f) = Some x \<Longrightarrow>
      fst (hINCRBYFLOAT R k f i s) = Some (int_to_string (x + i))"
    and hINCRBYFLOAT_view: "whole_field (v_hash (rview R s) k f) = Some x \<Longrightarrow>
      rview R (snd (hINCRBYFLOAT R k f i s)) = rview R (hSET R k f (int_to_string (x + i)) s)"
    and hINCRBYFLOAT_field: "rview R (snd (hINCRBYFLOAT R k f i s)) = rview R s
      \<or> (\<exists>v. rview R (snd (hINCRBYFLOAT R k f i s)) = rview R (hSET R k f v s))"
    and hDEL_view: "rview R (hDEL R k f s) = (rview R s)\<lparr>v_hash := (v_hash (rview R s))
      (k := (v_hash (rview R s) k)(f := None))\<rparr>"
begin

text \<open>Reading commands are the components of the view.\<close>

lemma read_views [view_simps]:
  "rGET R k s = v_str (rview R s) k"
  "zSCORE R k m s = v_zset (rview R s) k m"
  "sISMEMBER R k m s \<longleftrightarrow> m \<in> v_set (rview R s) k"
  "lRANGE R k s = v_list (rview R s) k"
  "hGET R k f s = v_hash (rview R s) k f"
  by (simp_all add: rview_def)

lemmas write_views [view_simps] =
  rSET_view rSETEX_view rDEL_view zADD_view zADDNX_view zADDXX_view zREM_view sADD_view sREM_view
  lRPUSH_view lLPOP_view lREM_view hSET_view hSETNX_view hDEL_view

lemmas query_views [view_simps] =
  zCARD_view zRANGE_view zRANGEBYSCORE_view sCARD_view lLPOP_result lLEN_view rEXISTS_view hSETNX_result

end

subsection \<open>Facts about the order of a sorted set\<close>

lemma finite_zgraph:
  assumes "finite (dom z)"
  shows "finite {(sc, m). z m = Some (sc :: int)}"
proof -
  have "{(sc, m). z m = Some sc} \<subseteq> (\<lambda>m. (the (z m), m)) ` dom z"
    by (force simp: image_iff)
  then show ?thesis using assms by (rule finite_surj [rotated])
qed

lemma set_zsorted: "finite (dom z) \<Longrightarrow> set (zsorted z) = {(m, sc). z m = Some sc}"
  by (auto simp: zsorted_def finite_zgraph image_iff)

lemma distinct_zsorted: "distinct (zsorted z)"
  by (simp add: zsorted_def distinct_map)

lemma distinct_fst_zsorted: "finite (dom z) \<Longrightarrow> distinct (map fst (zsorted z))"
  by (subst distinct_map) (auto simp: distinct_zsorted set_zsorted inj_on_def)

lemma zsorted_empty_iff: "finite (dom z) \<Longrightarrow> zsorted z = [] \<longleftrightarrow> z = Map.empty"
proof -
  assume fin: "finite (dom z)"
  have "zsorted z = [] \<longleftrightarrow> {(m, sc). z m = Some sc} = {}"
    using set_zsorted [OF fin] by (metis set_empty)
  also have "\<dots> \<longleftrightarrow> z = Map.empty"
    by (auto simp: fun_eq_iff)
  finally show ?thesis .
qed

lemma zsorted_scores_sorted: "sorted (map snd (zsorted z))"
proof -
  have "sorted_wrt (\<lambda>x y. fst x \<le> fst y) (sorted_list_of_set {(sc, m). z m = Some sc})"
    by (rule sorted_wrt_mono_rel [OF _ sorted_sorted_list_of_set])
      (auto simp: less_eq_prod_def)
  then have "sorted (map fst (sorted_list_of_set {(sc, m). z m = Some sc}))"
    by (simp add: sorted_map)
  moreover have "snd \<circ> prod.swap = (fst :: int \<times> string \<Rightarrow> int)"
    by (simp add: fun_eq_iff)
  ultimately show ?thesis by (simp add: zsorted_def)
qed

text \<open>The earliest entry of a sorted set: what \<open>ZRANGE k 0 0 WITHSCORES\<close> returns.\<close>

definition min_score :: "(string \<Rightarrow> int option) \<Rightarrow> int option" where
  "min_score z = (if z = Map.empty then None else Some (Min (ran z)))"

lemma min_score_none_iff [simp]: "min_score z = None \<longleftrightarrow> z = Map.empty"
  by (simp add: min_score_def)

lemma redis_slice_first: "redis_slice 0 0 xs = take 1 xs"
  by (simp add: redis_slice_def)

lemma ran_zsorted: "finite (dom z) \<Longrightarrow> ran z = snd ` set (zsorted z)"
  by (auto simp: set_zsorted ran_def image_iff)

lemma earliest_entry:
  assumes fin: "finite (dom z)"
  shows "map_option snd (case redis_slice 0 0 (zsorted z) of [] \<Rightarrow> None | x # xs \<Rightarrow> Some x) = min_score z"
proof (cases "zsorted z")
  case Nil
  then have "z = Map.empty" using zsorted_empty_iff [OF fin] by simp
  with Nil show ?thesis by (simp add: redis_slice_first min_score_def)
next
  case (Cons x xs)
  have "sorted (snd x # map snd xs)"
    using zsorted_scores_sorted [of z] by (simp add: Cons)
  then have "Min (ran z) = snd x"
    by (auto simp: ran_zsorted [OF fin] Cons intro!: Min_eqI)
  moreover have "z \<noteq> Map.empty"
    using zsorted_empty_iff [OF fin] Cons by simp
  ultimately show ?thesis by (simp add: redis_slice_first Cons min_score_def)
qed

subsection \<open>A reference server\<close>

record store =
  st_str :: "key \<Rightarrow> string option"
  st_zset :: "key \<Rightarrow> (string \<times> int) list"
  st_set :: "key \<Rightarrow> string list"
  st_list :: "key \<Rightarrow> string list"
  st_hash :: "key \<Rightarrow> (string \<times> string) list"

definition empty_store :: store where
  "empty_store = \<lparr>st_str = (\<lambda>_. None), st_zset = (\<lambda>_. []), st_set = (\<lambda>_. []), st_list = (\<lambda>_. []),
     st_hash = (\<lambda>_. [])\<rparr>"

definition entries_sorted :: "(string \<times> int) list \<Rightarrow> (string \<times> int) list" where
  "entries_sorted l = map prod.swap (sort (map (\<lambda>m. (the (map_of l m), m)) (remdups (map fst l))))"

definition m_zadd :: "key \<Rightarrow> int \<Rightarrow> string \<Rightarrow> store \<Rightarrow> store" where
  "m_zadd k sc m s = s\<lparr>st_zset := (st_zset s)(k := (m, sc) # filter (\<lambda>e. fst e \<noteq> m) (st_zset s k))\<rparr>"

text \<open>One function per command, so that the record below is small when it is evaluated.\<close>

definition m_get :: "key \<Rightarrow> store \<Rightarrow> string option" where
  "m_get k s = st_str s k"

definition m_set :: "key \<Rightarrow> string \<Rightarrow> store \<Rightarrow> store" where
  "m_set k v s = s\<lparr>st_str := (st_str s)(k := Some v)\<rparr>"

definition m_setex :: "key \<Rightarrow> string \<Rightarrow> nat \<Rightarrow> store \<Rightarrow> store" where
  "m_setex k v n s = s\<lparr>st_str := (st_str s)(k := Some v)\<rparr>"

definition m_incr :: "key \<Rightarrow> store \<Rightarrow> int option \<times> store" where
  "m_incr k s = (case whole_field (st_str s k) of None \<Rightarrow> (None, s)
     | Some n \<Rightarrow> (Some (n + 1), s\<lparr>st_str := (st_str s)(k := Some (int_to_string (n + 1)))\<rparr>))"

definition m_exists :: "key \<Rightarrow> store \<Rightarrow> bool" where
  "m_exists k s = (st_str s k \<noteq> None \<or> st_zset s k \<noteq> [] \<or> st_set s k \<noteq> [] \<or> st_list s k \<noteq> [] \<or> st_hash s k \<noteq> [])"

definition m_del :: "key \<Rightarrow> store \<Rightarrow> store" where
  "m_del k s = \<lparr>st_str = (st_str s)(k := None), st_zset = (st_zset s)(k := []),
     st_set = (st_set s)(k := []), st_list = (st_list s)(k := []), st_hash = (st_hash s)(k := [])\<rparr>"

definition m_zaddnx :: "key \<Rightarrow> int \<Rightarrow> string \<Rightarrow> store \<Rightarrow> store" where
  "m_zaddnx k sc m s = (if map_of (st_zset s k) m = None then m_zadd k sc m s else s)"

definition m_zaddxx :: "key \<Rightarrow> int \<Rightarrow> string \<Rightarrow> store \<Rightarrow> store" where
  "m_zaddxx k sc m s = (if map_of (st_zset s k) m = None then s else m_zadd k sc m s)"

definition m_zrem :: "key \<Rightarrow> string \<Rightarrow> store \<Rightarrow> store" where
  "m_zrem k m s = s\<lparr>st_zset := (st_zset s)(k := filter (\<lambda>e. fst e \<noteq> m) (st_zset s k))\<rparr>"

definition m_zscore :: "key \<Rightarrow> string \<Rightarrow> store \<Rightarrow> int option" where
  "m_zscore k m s = map_of (st_zset s k) m"

definition m_zcard :: "key \<Rightarrow> store \<Rightarrow> nat" where
  "m_zcard k s = length (entries_sorted (st_zset s k))"

definition m_zrange :: "key \<Rightarrow> int \<Rightarrow> int \<Rightarrow> store \<Rightarrow> (string \<times> int) list" where
  "m_zrange k i j s = redis_slice i j (entries_sorted (st_zset s k))"

definition m_zrangebyscore :: "key \<Rightarrow> int \<Rightarrow> nat \<Rightarrow> store \<Rightarrow> (string \<times> int) list" where
  "m_zrangebyscore k hi n s = take n (filter (\<lambda>(m, sc). sc \<le> hi) (entries_sorted (st_zset s k)))"

definition m_zcount :: "key \<Rightarrow> int \<Rightarrow> store \<Rightarrow> nat" where
  "m_zcount k hi s = length (filter (\<lambda>(m, sc). sc \<le> hi) (entries_sorted (st_zset s k)))"

definition m_sadd :: "key \<Rightarrow> string \<Rightarrow> store \<Rightarrow> store" where
  "m_sadd k m s = s\<lparr>st_set := (st_set s)(k := List.insert m (st_set s k))\<rparr>"

definition m_srem :: "key \<Rightarrow> string \<Rightarrow> store \<Rightarrow> store" where
  "m_srem k m s = s\<lparr>st_set := (st_set s)(k := removeAll m (st_set s k))\<rparr>"

definition m_sismember :: "key \<Rightarrow> string \<Rightarrow> store \<Rightarrow> bool" where
  "m_sismember k m s = (m \<in> set (st_set s k))"

definition m_scard :: "key \<Rightarrow> store \<Rightarrow> nat" where
  "m_scard k s = length (remdups (st_set s k))"

definition m_smembers :: "key \<Rightarrow> store \<Rightarrow> string list" where
  "m_smembers k s = remdups (st_set s k)"

definition m_rpush :: "key \<Rightarrow> string \<Rightarrow> store \<Rightarrow> store" where
  "m_rpush k v s = s\<lparr>st_list := (st_list s)(k := st_list s k @ [v])\<rparr>"

definition m_lpop :: "key \<Rightarrow> store \<Rightarrow> string option \<times> store" where
  "m_lpop k s = (case st_list s k of [] \<Rightarrow> (None, s)
     | x # xs \<Rightarrow> (Some x, s\<lparr>st_list := (st_list s)(k := xs)\<rparr>))"

definition m_llen :: "key \<Rightarrow> store \<Rightarrow> nat" where
  "m_llen k s = length (st_list s k)"

definition m_lrem :: "key \<Rightarrow> string \<Rightarrow> store \<Rightarrow> store" where
  "m_lrem k v s = s\<lparr>st_list := (st_list s)(k := filter (\<lambda>x. x \<noteq> v) (st_list s k))\<rparr>"

definition m_lrange :: "key \<Rightarrow> store \<Rightarrow> string list" where
  "m_lrange k s = st_list s k"

definition m_hget :: "key \<Rightarrow> string \<Rightarrow> store \<Rightarrow> string option" where
  "m_hget k f s = map_of (st_hash s k) f"

definition m_hset :: "key \<Rightarrow> string \<Rightarrow> string \<Rightarrow> store \<Rightarrow> store" where
  "m_hset k f v s = s\<lparr>st_hash := (st_hash s)(k := (f, v) # filter (\<lambda>e. fst e \<noteq> f) (st_hash s k))\<rparr>"

definition m_hsetnx :: "key \<Rightarrow> string \<Rightarrow> string \<Rightarrow> store \<Rightarrow> bool \<times> store" where
  "m_hsetnx k f v s = (if map_of (st_hash s k) f = None then (True, m_hset k f v s) else (False, s))"

definition m_hdel :: "key \<Rightarrow> string \<Rightarrow> store \<Rightarrow> store" where
  "m_hdel k f s = s\<lparr>st_hash := (st_hash s)(k := filter (\<lambda>e. fst e \<noteq> f) (st_hash s k))\<rparr>"

definition m_hincrbyfloat :: "key \<Rightarrow> string \<Rightarrow> int \<Rightarrow> store \<Rightarrow> string option \<times> store" where
  "m_hincrbyfloat k f i s = (case whole_field (map_of (st_hash s k) f) of None \<Rightarrow> (None, s)
     | Some n \<Rightarrow> (Some (int_to_string (n + i)), m_hset k f (int_to_string (n + i)) s))"

definition mem_redis :: "store redis" where
  "mem_redis =
     \<lparr>rGET = m_get, rSET = m_set, rSETEX = m_setex, rINCR = m_incr, rEXISTS = m_exists,
      rDEL = m_del, zADD = m_zadd, zADDNX = m_zaddnx, zADDXX = m_zaddxx, zREM = m_zrem,
      zSCORE = m_zscore, zCARD = m_zcard, zRANGE = m_zrange, zRANGEBYSCORE = m_zrangebyscore, zCOUNT = m_zcount,
      sADD = m_sadd, sREM = m_srem, sISMEMBER = m_sismember, sCARD = m_scard, sMEMBERS = m_smembers,
      lRPUSH = m_rpush, lLPOP = m_lpop, lLEN = m_llen, lREM = m_lrem, lRANGE = m_lrange,
      hGET = m_hget, hSET = m_hset, hSETNX = m_hsetnx, hDEL = m_hdel, hINCRBYFLOAT = m_hincrbyfloat\<rparr>"

lemmas mem_redis_defs = mem_redis_def m_get_def m_set_def m_setex_def m_incr_def m_exists_def m_del_def
  m_zaddnx_def m_zaddxx_def m_zrem_def m_zscore_def m_zcard_def
  m_zrange_def m_zrangebyscore_def m_zcount_def m_sadd_def m_srem_def m_sismember_def
  m_scard_def m_smembers_def m_rpush_def m_lpop_def m_llen_def m_lrem_def
  m_lrange_def m_hget_def m_hset_def m_hsetnx_def m_hdel_def m_hincrbyfloat_def

lemma entries_sorted_zsorted: "entries_sorted l = zsorted (map_of l)"
proof -
  let ?xs = "map (\<lambda>m. (the (map_of l m), m)) (remdups (map fst l))"
  have graph: "set ?xs = {(sc, m). map_of l m = Some sc}"
  proof -
    have dom: "set (map fst l) = dom (map_of l)"
      by (simp add: dom_map_of_conv_image_fst)
    have "set ?xs = (\<lambda>m. (the (map_of l m), m)) ` dom (map_of l)"
      using dom by simp
    also have "\<dots> = {(sc, m). map_of l m = Some sc}"
      by force
    finally show ?thesis .
  qed
  have "distinct ?xs" by (simp add: distinct_map inj_on_def)
  then have "sort ?xs = sort (remdups ?xs)"
    by (simp only: distinct_remdups_id)
  also have "\<dots> = sorted_list_of_set (set ?xs)"
    by (simp only: sorted_list_of_set_sort_remdups)
  finally have "sort ?xs = sorted_list_of_set {(sc, m). map_of l m = Some sc}"
    by (simp only: graph)
  then show ?thesis by (simp add: entries_sorted_def zsorted_def)
qed

lemma map_of_filter_neq: "map_of (filter (\<lambda>e. fst e \<noteq> m) l) = (map_of l)(m := None)"
  by (induction l) (auto simp: fun_eq_iff)

lemma length_zsorted: "finite (dom z) \<Longrightarrow> length (zsorted z) = card (dom z)"
proof -
  assume fin: "finite (dom z)"
  have "length (zsorted z) = card (set (map fst (zsorted z)))"
    using distinct_card [OF distinct_fst_zsorted [OF fin]] by simp
  also have "set (map fst (zsorted z)) = dom z"
    by (auto simp: set_zsorted [OF fin] image_iff)
  finally show ?thesis .
qed

lemma length_zsorted_le:
  assumes fin: "finite (dom z)"
  shows "length (filter (\<lambda>(m, sc). sc \<le> hi) (zsorted z)) = card {m. \<exists>sc. z m = Some sc \<and> sc \<le> hi}"
proof -
  let ?l = "filter (\<lambda>(m, sc). sc \<le> hi) (zsorted z)"
  have "distinct (map fst ?l)"
    using distinct_fst_zsorted [OF fin] by (rule distinct_map_filter)
  then have "length ?l = card (set (map fst ?l))"
    using distinct_card by fastforce
  also have "set (map fst ?l) = {m. \<exists>sc. z m = Some sc \<and> sc \<le> hi}"
    by (auto simp: set_zsorted [OF fin] image_iff)
  finally show ?thesis .
qed

lemma map_of_empty_iff: "map_of l = Map.empty \<longleftrightarrow> l = []"
  by (cases l) auto

interpretation mem: redis_server mem_redis
  by unfold_locales
    (auto simp: map_of_empty_iff [unfolded fun_eq_iff] mem_redis_defs rview_def m_zadd_def map_of_filter_neq entries_sorted_zsorted fun_eq_iff
      finite_dom_map_of length_zsorted length_zsorted_le length_remdups_card_conv
      split: list.splits option.splits)

end
