(* ===== verification/Run_Queue_Scripts.thy ===== *)
theory Run_Queue_Scripts
  imports Redis_Interface
begin

text \<open>
  The Lua scripts that the run queue registers with Redis
  (\<open>#registerCommands\<close> in \<open>internal-packages/run-engine/src/run-queue/index.ts\<close>), one definition each,
  with the scripts' own names for their keys and arguments. A script runs atomically: it is a function
  on the keyspace. A script that can fail on a value it reads returns \<open>Inl LuaError\<close> and leaves the
  keyspace as it was at that point; none of these fails after its first write.

  Each script comes with its effect on the observable keyspace (the \<open>_view\<close> lemmas), proved once in
  the context of the server's laws.
\<close>

datatype rq_error = TypeError | LuaError | SyntaxError

subsection \<open>The scripts\<close>

text \<open>The block \<open>Rebalance the parent queues\<close> that closes every script which changes a queue.\<close>

definition rebalance :: "'s redis \<Rightarrow> key \<Rightarrow> key \<Rightarrow> string \<Rightarrow> 's \<Rightarrow> 's" where [script_defs]:
  "rebalance R masterQueueKey queueKey queueName s =
     (case zRANGE R queueKey 0 0 s of
        [] \<Rightarrow> zREM R masterQueueKey queueName s
      | (_, score) # _ \<Rightarrow> zADD R masterQueueKey score queueName s)"

text \<open>The four removals that release a message's concurrency.\<close>

definition releaseConcurrency :: "'s redis \<Rightarrow> key \<Rightarrow> key \<Rightarrow> key \<Rightarrow> key \<Rightarrow> string \<Rightarrow> 's \<Rightarrow> 's" where [script_defs]:
  "releaseConcurrency R queueCurrentConcurrencyKey envCurrentConcurrencyKey queueCurrentDequeuedKey
     envCurrentDequeuedKey messageId s =
     (let s = sREM R queueCurrentConcurrencyKey messageId s;
          s = sREM R envCurrentConcurrencyKey messageId s;
          s = sREM R queueCurrentDequeuedKey messageId s
      in sREM R envCurrentDequeuedKey messageId s)"

definition clearMessageFromConcurrencySets_script ::
    "'s redis \<Rightarrow> key \<Rightarrow> key \<Rightarrow> key \<Rightarrow> key \<Rightarrow> string \<Rightarrow> 's \<Rightarrow> 's" where [script_defs]:
  "clearMessageFromConcurrencySets_script R queueCurrentConcurrencyKey envCurrentConcurrencyKey
     queueCurrentDequeuedKey envCurrentDequeuedKey messageId s =
     (let s = sREM R queueCurrentConcurrencyKey messageId s;
          s = sREM R envCurrentConcurrencyKey messageId s;
          s = sREM R queueCurrentDequeuedKey messageId s
      in sREM R envCurrentDequeuedKey messageId s)"

fun migrateLegacyMasterQueues :: "'s redis \<Rightarrow> key \<Rightarrow> string \<Rightarrow> string list \<Rightarrow> 's \<Rightarrow> 's" where
  "migrateLegacyMasterQueues R masterQueueKey keyPrefix [] s = s"
| "migrateLegacyMasterQueues R masterQueueKey keyPrefix (queueName # queueNames) s =
     (let queueKey = keyPrefix @ queueName
      in migrateLegacyMasterQueues R masterQueueKey keyPrefix queueNames
           (rebalance R masterQueueKey queueKey queueName s))"

definition enqueueMessage_script ::
    "'s redis \<Rightarrow> key \<Rightarrow> key \<Rightarrow> key \<Rightarrow> key \<Rightarrow> key \<Rightarrow> key \<Rightarrow> key \<Rightarrow> key \<Rightarrow>
     string \<Rightarrow> string \<Rightarrow> string \<Rightarrow> int \<Rightarrow> 's \<Rightarrow> 's" where [script_defs]:
  "enqueueMessage_script R masterQueueKey queueKey messageKey queueCurrentConcurrencyKey
     envCurrentConcurrencyKey queueCurrentDequeuedKey envCurrentDequeuedKey envQueueKey
     queueName messageId messageData messageScore s =
     (let s = rSET R messageKey messageData s;
          s = zADD R queueKey messageScore messageId s;
          s = zADD R envQueueKey messageScore messageId s;
          s = rebalance R masterQueueKey queueKey queueName s;
          s = sREM R queueCurrentConcurrencyKey messageId s;
          s = sREM R envCurrentConcurrencyKey messageId s;
          s = sREM R queueCurrentDequeuedKey messageId s
      in sREM R envCurrentDequeuedKey messageId s)"

text \<open>\<open>tonumber(v or default)\<close>: Lua numbers are doubles, so the decimal value is rounded by \<open>fl\<close>.\<close>

definition tonumber :: "(rat \<Rightarrow> rat) \<Rightarrow> string \<Rightarrow> rat option" where
  "tonumber fl v = map_option fl (decimal_value v)"

definition or_default :: "string option \<Rightarrow> string \<Rightarrow> string" where
  "or_default v d = (case v of None \<Rightarrow> d | Some x \<Rightarrow> x)"

text \<open>The loop of the dequeue script over the (message, score) pairs it has selected.\<close>

fun dequeue_loop :: "'s redis \<Rightarrow> key \<Rightarrow> key \<Rightarrow> key \<Rightarrow> key \<Rightarrow> key \<Rightarrow> (string \<times> int) list \<Rightarrow> 's \<Rightarrow>
    (string \<times> int \<times> string) list \<times> 's" where
  "dequeue_loop R queueKey queueCurrentConcurrencyKey envCurrentConcurrencyKey messageKeyPrefix
     envQueueKey [] s = ([], s)"
| "dequeue_loop R queueKey queueCurrentConcurrencyKey envCurrentConcurrencyKey messageKeyPrefix
     envQueueKey ((messageId, messageScore) # messages) s =
     (case rGET R (messageKeyPrefix @ messageId) s of
        None \<Rightarrow> dequeue_loop R queueKey queueCurrentConcurrencyKey envCurrentConcurrencyKey
                 messageKeyPrefix envQueueKey messages s
      | Some messagePayload \<Rightarrow>
          (let s = zREM R queueKey messageId s;
               s = zREM R envQueueKey messageId s;
               s = sADD R queueCurrentConcurrencyKey messageId s;
               s = sADD R envCurrentConcurrencyKey messageId s;
               (results, s) = dequeue_loop R queueKey queueCurrentConcurrencyKey
                 envCurrentConcurrencyKey messageKeyPrefix envQueueKey messages s
           in ((messageId, messageScore, messagePayload) # results, s)))"

text \<open>How many messages the limits allow. \<open>Inl\<close> is a Lua error (arithmetic on \<open>nil\<close>, or a count
  that Redis does not accept as an integer); \<open>Inr None\<close> is the early \<open>return nil\<close>.\<close>

definition dequeue_capacity ::
    "(rat \<Rightarrow> rat) \<Rightarrow> int \<Rightarrow> int \<Rightarrow> string \<Rightarrow> string \<Rightarrow> string \<Rightarrow> int \<Rightarrow> rq_error + nat option" where
  "dequeue_capacity fl envCurrentConcurrency queueCurrentConcurrency envLimit burstFactor queueLimit maxCount =
     (case (tonumber fl envLimit, tonumber fl burstFactor) of
        (Some envConcurrencyLimit, Some envConcurrencyLimitBurstFactor) \<Rightarrow>
          (let envConcurrencyLimitWithBurstFactor = \<lfloor>fl (envConcurrencyLimit * envConcurrencyLimitBurstFactor)\<rfloor>
           in if envCurrentConcurrency \<ge> envConcurrencyLimitWithBurstFactor then Inr None
              else case tonumber fl queueLimit of
                None \<Rightarrow> Inl LuaError
              | Some ql \<Rightarrow>
                  (let totalQueueConcurrencyLimit = min ql envConcurrencyLimit
                   in if of_int queueCurrentConcurrency \<ge> totalQueueConcurrencyLimit then Inr None
                      else
                        (let envAvailableCapacity = envConcurrencyLimitWithBurstFactor - envCurrentConcurrency;
                             queueAvailableCapacity = fl (totalQueueConcurrencyLimit - of_int queueCurrentConcurrency);
                             actualMaxCount = min (of_int maxCount)
                               (min (of_int envAvailableCapacity) queueAvailableCapacity)
                         in if actualMaxCount \<le> 0 then Inr None
                            else if actualMaxCount = of_int \<lfloor>actualMaxCount\<rfloor>
                            then Inr (Some (nat \<lfloor>actualMaxCount\<rfloor>))
                            else Inl LuaError)))
      | _ \<Rightarrow> Inl LuaError)"

definition dequeueMessagesFromQueue_script ::
    "(rat \<Rightarrow> rat) \<Rightarrow> 's redis \<Rightarrow> key \<Rightarrow> key \<Rightarrow> key \<Rightarrow> key \<Rightarrow> key \<Rightarrow> key \<Rightarrow> key \<Rightarrow> key \<Rightarrow> key \<Rightarrow>
     string \<Rightarrow> int \<Rightarrow> string \<Rightarrow> string \<Rightarrow> int \<Rightarrow> 's \<Rightarrow>
     rq_error + (string \<times> int \<times> string) list option \<times> 's" where [script_defs]:
  "dequeueMessagesFromQueue_script fl R queueKey queueConcurrencyLimitKey envConcurrencyLimitKey
     envConcurrencyLimitBurstFactorKey queueCurrentConcurrencyKey envCurrentConcurrencyKey
     messageKeyPrefix envQueueKey masterQueueKey queueName currentTime defaultEnvConcurrencyLimit
     defaultEnvConcurrencyBurstFactor maxCount s =
     (case dequeue_capacity fl (int (sCARD R envCurrentConcurrencyKey s))
        (int (sCARD R queueCurrentConcurrencyKey s))
        (or_default (rGET R envConcurrencyLimitKey s) defaultEnvConcurrencyLimit)
        (or_default (rGET R envConcurrencyLimitBurstFactorKey s) defaultEnvConcurrencyBurstFactor)
        (or_default (rGET R queueConcurrencyLimitKey s) ''1000000'') maxCount of
        Inl e \<Rightarrow> Inl e
      | Inr None \<Rightarrow> Inr (None, s)
      | Inr (Some actualMaxCount) \<Rightarrow>
          (let messages = zRANGEBYSCORE R queueKey currentTime actualMaxCount s
           in if messages = [] then Inr (None, s)
              else
                (let (results, s) = dequeue_loop R queueKey queueCurrentConcurrencyKey
                       envCurrentConcurrencyKey messageKeyPrefix envQueueKey messages s
                 in Inr (Some results, rebalance R masterQueueKey queueKey queueName s))))"

definition dequeueMessageFromWorkerQueueNonBlocking ::
    "'s redis \<Rightarrow> key \<Rightarrow> 's \<Rightarrow> (string \<times> nat) option \<times> 's" where [script_defs]:
  "dequeueMessageFromWorkerQueueNonBlocking R workerQueueKey s =
     (case lLPOP R workerQueueKey s of
        (None, s) \<Rightarrow> (None, s)
      | (Some messageId, s) \<Rightarrow> (Some (messageId, lLEN R workerQueueKey s), s))"

text \<open>\<open>string.match(queue, "(.+):queue:")\<close>: the longest non-empty prefix that \<open>:queue:\<close> follows.\<close>

fun env_match :: "string \<Rightarrow> string \<Rightarrow> string option" where
  "env_match pre [] = None"
| "env_match pre (x # xs) =
     (case env_match (pre @ [x]) xs of
        Some r \<Rightarrow> Some r
      | None \<Rightarrow> if pre \<noteq> [] \<and> take 7 (x # xs) = '':queue:'' then Some pre else None)"

text \<open>\<open>cjson_decode\<close> is the server's JSON decoder, read at the two fields the script uses.\<close>

definition dequeueMessageFromKey_script ::
    "(string \<Rightarrow> (string \<times> string) option) \<Rightarrow> 's redis \<Rightarrow> key \<Rightarrow> string \<Rightarrow> 's \<Rightarrow>
     rq_error + string option \<times> 's" where [script_defs]:
  "dequeueMessageFromKey_script cjson_decode R messageKey keyPrefix s =
     (case rGET R messageKey s of
        None \<Rightarrow> Inr (None, s)
      | Some message \<Rightarrow>
          (case cjson_decode message of
             None \<Rightarrow> Inl LuaError
           | Some (queue, runId) \<Rightarrow>
               (case env_match [] queue of
                  None \<Rightarrow> Inl LuaError
                | Some envPrefix \<Rightarrow>
                    (let queueCurrentDequeuedKey = keyPrefix @ queue @ '':currentDequeued'';
                         envCurrentDequeuedKey = keyPrefix @ envPrefix @ '':currentDequeued'';
                         s = sADD R queueCurrentDequeuedKey runId s;
                         s = sADD R envCurrentDequeuedKey runId s
                     in Inr (Some message, s)))))"

definition acknowledgeMessage_script ::
    "'s redis \<Rightarrow> key \<Rightarrow> key \<Rightarrow> key \<Rightarrow> key \<Rightarrow> key \<Rightarrow> key \<Rightarrow> key \<Rightarrow> key \<Rightarrow> key \<Rightarrow>
     string \<Rightarrow> string \<Rightarrow> string \<Rightarrow> string \<Rightarrow> 's \<Rightarrow> 's" where [script_defs]:
  "acknowledgeMessage_script R masterQueueKey messageKey messageQueueKey queueCurrentConcurrencyKey
     envCurrentConcurrencyKey queueCurrentDequeuedKey envCurrentDequeuedKey envQueueKey workerQueueKey
     messageId messageQueueName messageKeyValue removeFromWorkerQueue s =
     (let s = rDEL R messageKey s;
          s = zREM R messageQueueKey messageId s;
          s = zREM R envQueueKey messageId s;
          s = rebalance R masterQueueKey messageQueueKey messageQueueName s;
          s = sREM R queueCurrentConcurrencyKey messageId s;
          s = sREM R envCurrentConcurrencyKey messageId s;
          s = sREM R queueCurrentDequeuedKey messageId s;
          s = sREM R envCurrentDequeuedKey messageId s
      in if removeFromWorkerQueue = ''1'' then lREM R workerQueueKey messageKeyValue s else s)"

definition nackMessage_script ::
    "'s redis \<Rightarrow> key \<Rightarrow> key \<Rightarrow> key \<Rightarrow> key \<Rightarrow> key \<Rightarrow> key \<Rightarrow> key \<Rightarrow> key \<Rightarrow>
     string \<Rightarrow> string \<Rightarrow> string \<Rightarrow> int \<Rightarrow> 's \<Rightarrow> 's" where [script_defs]:
  "nackMessage_script R masterQueueKey messageKey messageQueueKey queueCurrentConcurrencyKey
     envCurrentConcurrencyKey queueCurrentDequeuedKey envCurrentDequeuedKey envQueueKey
     messageId messageQueueName messageData messageScore s =
     (let s = rSET R messageKey messageData s;
          s = sREM R queueCurrentConcurrencyKey messageId s;
          s = sREM R envCurrentConcurrencyKey messageId s;
          s = sREM R queueCurrentDequeuedKey messageId s;
          s = sREM R envCurrentDequeuedKey messageId s;
          s = zADD R messageQueueKey messageScore messageId s;
          s = zADD R envQueueKey messageScore messageId s
      in rebalance R masterQueueKey messageQueueKey messageQueueName s)"

text \<open>\<open>now\<close> is the first component of \<open>TIME\<close>: the server's clock in seconds.\<close>

definition moveToDeadLetterQueue_script ::
    "int \<Rightarrow> 's redis \<Rightarrow> key \<Rightarrow> key \<Rightarrow> key \<Rightarrow> key \<Rightarrow> key \<Rightarrow> key \<Rightarrow> key \<Rightarrow> key \<Rightarrow> key \<Rightarrow>
     string \<Rightarrow> string \<Rightarrow> 's \<Rightarrow> 's" where [script_defs]:
  "moveToDeadLetterQueue_script now R masterQueueKey messageKey messageQueue queueCurrentConcurrencyKey
     envCurrentConcurrencyKey queueCurrentDequeuedKey envCurrentDequeuedKey envQueueKey deadLetterQueueKey
     messageId messageQueueName s =
     (let s = zREM R messageQueue messageId s;
          s = zREM R envQueueKey messageId s;
          s = rebalance R masterQueueKey messageQueue messageQueueName s;
          s = zADD R deadLetterQueueKey now messageId s;
          s = sREM R queueCurrentConcurrencyKey messageId s;
          s = sREM R envCurrentConcurrencyKey messageId s;
          s = sREM R queueCurrentDequeuedKey messageId s
      in sREM R envCurrentDequeuedKey messageId s)"

definition updateEnvironmentConcurrencyLimits ::
    "'s redis \<Rightarrow> key \<Rightarrow> key \<Rightarrow> string \<Rightarrow> string \<Rightarrow> 's \<Rightarrow> 's" where [script_defs]:
  "updateEnvironmentConcurrencyLimits R envConcurrencyLimitKey envConcurrencyLimitBurstFactorKey
     envConcurrencyLimit envConcurrencyLimitBurstFactor s =
     (let s = rSET R envConcurrencyLimitKey envConcurrencyLimit s
      in rSET R envConcurrencyLimitBurstFactorKey envConcurrencyLimitBurstFactor s)"

fun markCompletedRunsForAck_loop :: "'s redis \<Rightarrow> key \<Rightarrow> int \<Rightarrow> (string \<times> string) list \<Rightarrow> 's \<Rightarrow> 's" where
  "markCompletedRunsForAck_loop R markedForAckKey currentTime [] s = s"
| "markCompletedRunsForAck_loop R markedForAckKey currentTime ((orgId, messageId) # rest) s =
     markCompletedRunsForAck_loop R markedForAckKey currentTime rest
       (zADD R markedForAckKey currentTime (orgId @ '':'' @ messageId) s)"

definition markCompletedRunsForAck :: "int \<Rightarrow> 's redis \<Rightarrow> key \<Rightarrow> (string \<times> string) list \<Rightarrow> 's \<Rightarrow> nat \<times> 's" where
  "markCompletedRunsForAck now R markedForAckKey pairs s =
     (length pairs, markCompletedRunsForAck_loop R markedForAckKey (now * 1000) pairs s)"

text \<open>Splitting \<open>orgId:messageId\<close> at the first colon; \<open>None\<close> when there is no colon.\<close>

definition parse_marked :: "string \<Rightarrow> (string \<times> string) option" where
  "parse_marked v =
     (if colon_free v then None
      else Some (takeWhile (\<lambda>c. c \<noteq> colon) v, tl (dropWhile (\<lambda>c. c \<noteq> colon) v)))"

fun remove_all :: "'s redis \<Rightarrow> key \<Rightarrow> string list \<Rightarrow> 's \<Rightarrow> 's" where
  "remove_all R k [] s = s"
| "remove_all R k (m # ms) s = remove_all R k ms (zREM R k m s)"

definition getMarkedRunsForAck :: "'s redis \<Rightarrow> key \<Rightarrow> nat \<Rightarrow> 's \<Rightarrow> (string \<times> string \<times> int) list \<times> 's" where
  "getMarkedRunsForAck R markedForAckKey maxCount s =
     (let markedRuns = zRANGE R markedForAckKey 0 (int maxCount - 1) s;
          results = List.map_filter
            (\<lambda>(v, score). map_option (\<lambda>(orgId, messageId). (orgId, messageId, score)) (parse_marked v)) markedRuns
      in if results = [] then (results, s)
         else (results, remove_all R markedForAckKey (map fst markedRuns) s))"

subsection \<open>Effect on the observable keyspace\<close>

definition v_rebalance :: "key \<Rightarrow> key \<Rightarrow> string \<Rightarrow> view \<Rightarrow> view" where
  "v_rebalance masterQueueKey queueKey queueName v =
     v\<lparr>v_zset := (v_zset v)(masterQueueKey :=
        (v_zset v masterQueueKey)(queueName := min_score (v_zset v queueKey)))\<rparr>"

definition v_release :: "key set \<Rightarrow> string \<Rightarrow> view \<Rightarrow> view" where
  "v_release K m v = v\<lparr>v_set := (\<lambda>k. if k \<in> K then v_set v k - {m} else v_set v k)\<rparr>"

lemma v_release_simps [simp]:
  "v_str (v_release K m v) = v_str v" "v_zset (v_release K m v) = v_zset v"
  "v_list (v_release K m v) = v_list v" "v_hash (v_release K m v) = v_hash v"
  "v_set (v_release K m v) k = (if k \<in> K then v_set v k - {m} else v_set v k)"
  by (simp_all add: v_release_def)

lemma v_rebalance_simps [simp]:
  "v_str (v_rebalance mk qk n v) = v_str v" "v_set (v_rebalance mk qk n v) = v_set v"
  "v_list (v_rebalance mk qk n v) = v_list v" "v_hash (v_rebalance mk qk n v) = v_hash v"
  "v_zset (v_rebalance mk qk n v) k =
     (if k = mk then (v_zset v mk)(n := min_score (v_zset v qk)) else v_zset v k)"
  by (simp_all add: v_rebalance_def)

text \<open>The messages of a selection that the loop takes: those whose payload is stored.\<close>

definition taken :: "(key \<Rightarrow> string option) \<Rightarrow> key \<Rightarrow> (string \<times> int) list \<Rightarrow> string set" where
  "taken strs messageKeyPrefix messages = {m \<in> fst ` set messages. strs (messageKeyPrefix @ m) \<noteq> None}"

definition selected :: "(key \<Rightarrow> string option) \<Rightarrow> key \<Rightarrow> (string \<times> int) list \<Rightarrow> (string \<times> int \<times> string) list" where
  "selected strs messageKeyPrefix messages =
     map (\<lambda>(m, sc). (m, sc, the (strs (messageKeyPrefix @ m))))
       (filter (\<lambda>(m, sc). strs (messageKeyPrefix @ m) \<noteq> None) messages)"

definition v_take :: "key \<Rightarrow> key \<Rightarrow> key \<Rightarrow> key \<Rightarrow> string set \<Rightarrow> view \<Rightarrow> view" where
  "v_take queueKey envQueueKey queueCurrentConcurrencyKey envCurrentConcurrencyKey T v =
     v\<lparr>v_zset := (\<lambda>k. if k = queueKey \<or> k = envQueueKey then v_zset v k |` (- T) else v_zset v k),
       v_set := (\<lambda>k. if k = queueCurrentConcurrencyKey \<or> k = envCurrentConcurrencyKey
          then v_set v k \<union> T else v_set v k)\<rparr>"

lemma v_take_simps [simp]:
  "v_str (v_take qk ek qc ec T v) = v_str v" "v_list (v_take qk ek qc ec T v) = v_list v"
  "v_hash (v_take qk ek qc ec T v) = v_hash v"
  "v_zset (v_take qk ek qc ec T v) k = (if k = qk \<or> k = ek then v_zset v k |` (- T) else v_zset v k)"
  "v_set (v_take qk ek qc ec T v) k = (if k = qc \<or> k = ec then v_set v k \<union> T else v_set v k)"
  by (simp_all add: v_take_def)

lemma v_take_empty [simp]: "v_take qk ek qc ec {} v = v"
  by (simp add: v_take_def restrict_map_def fun_eq_iff)

lemma map_drop_one: "z(m := None) = z |` (- {m})"
  by (auto simp: fun_eq_iff restrict_map_def)

lemma finite_taken [simp]: "finite (taken strs mp ms)"
  by (simp add: taken_def)

lemma card_taken: "card (taken strs mp ms) \<le> length ms"
proof -
  have "card (taken strs mp ms) \<le> card (fst ` set ms)"
    by (rule card_mono) (auto simp: taken_def)
  also have "\<dots> \<le> length ms"
    by (metis card_length length_map list.set_map)
  finally show ?thesis .
qed

lemma view_eqI:
  assumes "v_str v = v_str w" "v_zset v = v_zset w" "v_set v = v_set w" "v_list v = v_list w" "v_hash v = v_hash w"
  shows "v = (w :: view)"
  using assms by (cases v; cases w) simp

text \<open>The same idempotent change at two keys, one after the other, whether or not the keys differ.\<close>

definition upd2 :: "'k \<Rightarrow> 'k \<Rightarrow> ('v \<Rightarrow> 'v) \<Rightarrow> ('k \<Rightarrow> 'v) \<Rightarrow> 'k \<Rightarrow> 'v" where
  "upd2 k1 k2 f g = (\<lambda>k. if k = k1 \<or> k = k2 then f (g k) else g k)"

lemma upd2_apply [simp]: "upd2 k1 k2 f g k = (if k = k1 \<or> k = k2 then f (g k) else g k)"
  by (simp add: upd2_def)

context redis_server
begin

lemma rebalance_view [view_simps]:
  "rview R (rebalance R mk qk n s) = v_rebalance mk qk n (rview R s)"
proof -
  have "map_option snd (case zRANGE R qk 0 0 s of [] \<Rightarrow> None | x # xs \<Rightarrow> Some x) =
      min_score (v_zset (rview R s) qk)"
    unfolding zRANGE_view by (rule earliest_entry [OF zset_finite])
  then show ?thesis
    by (cases "zRANGE R qk 0 0 s") (auto simp: rebalance_def zADD_view zREM_view v_rebalance_def
        split: prod.split)
qed

lemma release_views [view_simps]:
  "rview R (releaseConcurrency R k1 k2 k3 k4 m s) = v_release {k1, k2, k3, k4} m (rview R s)"
  "rview R (clearMessageFromConcurrencySets_script R k1 k2 k3 k4 m s) = v_release {k1, k2, k3, k4} m (rview R s)"
  by (rule view_eqI;
      auto simp: releaseConcurrency_def clearMessageFromConcurrencySets_script_def Let_def sREM_view fun_eq_iff)+

lemma enqueue_view:
  "rview R (enqueueMessage_script R mq qk mk qc ec qd ed ek n m d sc s) =
     v_release {qc, ec, qd, ed} m (v_rebalance mq qk n
       ((rview R s)\<lparr>v_str := (v_str (rview R s))(mk := Some d),
          v_zset := upd2 qk ek (\<lambda>z. z(m := Some sc)) (v_zset (rview R s))\<rparr>))"
  by (intro view_eqI) (auto simp: enqueueMessage_script_def Let_def view_simps fun_eq_iff)

lemma acknowledge_view:
  "rview R (acknowledgeMessage_script R mq mk qk qc ec qd ed ek wk m n kv flag s) =
     (let v = v_release {qc, ec, qd, ed} m (v_rebalance mq qk n
       ((rview R (rDEL R mk s))\<lparr>
          v_zset := upd2 qk ek (\<lambda>z. z(m := None)) (v_zset (rview R (rDEL R mk s)))\<rparr>))
      in if flag = ''1'' then v\<lparr>v_list := (v_list v)(wk := filter (\<lambda>x. x \<noteq> kv) (v_list v wk))\<rparr> else v)"
  by (intro view_eqI)
      (auto simp: acknowledgeMessage_script_def Let_def zREM_view sREM_view rebalance_view lREM_view fun_eq_iff)

lemma nack_view:
  "rview R (nackMessage_script R mq mk qk qc ec qd ed ek m n d sc s) =
     v_rebalance mq qk n (v_release {qc, ec, qd, ed} m
       ((rview R s)\<lparr>v_str := (v_str (rview R s))(mk := Some d),
          v_zset := upd2 qk ek (\<lambda>z. z(m := Some sc)) (v_zset (rview R s))\<rparr>))"
  by (intro view_eqI) (auto simp: nackMessage_script_def Let_def view_simps fun_eq_iff)

lemma dead_letter_view:
  "rview R (moveToDeadLetterQueue_script now R mq mk qk qc ec qd ed ek dk m n s) =
     (let v = v_rebalance mq qk n
       ((rview R s)\<lparr>v_zset := upd2 qk ek (\<lambda>z. z(m := None)) (v_zset (rview R s))\<rparr>)
      in v_release {qc, ec, qd, ed} m (v\<lparr>v_zset := (v_zset v)(dk := (v_zset v dk)(m := Some now))\<rparr>))"
  by (intro view_eqI) (auto simp: moveToDeadLetterQueue_script_def Let_def view_simps fun_eq_iff)

lemma take_one_view:
  "v_take qk ek qc ec T (rview R (sADD R ec m (sADD R qc m (zREM R ek m (zREM R qk m s))))) =
     v_take qk ek qc ec (insert m T) (rview R s)"
  by (rule view_eqI) (auto simp: view_simps fun_eq_iff restrict_map_def)

lemma dequeue_loop_view:
  assumes "dequeue_loop R qk qc ec mp ek ms s = (results, s')"
  shows "rview R s' = v_take qk ek qc ec (taken (v_str (rview R s)) mp ms) (rview R s)
    \<and> results = selected (v_str (rview R s)) mp ms"
  using assms
proof (induction ms arbitrary: s results)
  case Nil
  then show ?case by (auto simp: taken_def selected_def)
next
  case (Cons x ms)
  obtain m sc where x: "x = (m, sc)" by (cases x)
  show ?case
  proof (cases "v_str (rview R s) (mp @ m)")
    case None
    then have "taken (v_str (rview R s)) mp (x # ms) = taken (v_str (rview R s)) mp ms"
      by (auto simp: taken_def x)
    with None Cons.IH [of s results] Cons.prems show ?thesis
      by (simp add: x read_views selected_def)
  next
    case (Some p)
    let ?s = "sADD R ec m (sADD R qc m (zREM R ek m (zREM R qk m s)))"
    have strs: "v_str (rview R ?s) = v_str (rview R s)" by (simp add: view_simps)
    obtain rs where rs: "dequeue_loop R qk qc ec mp ek ms ?s = (rs, s')" "results = (m, sc, p) # rs"
      using Cons.prems Some by (auto simp: x view_simps Let_def split: prod.splits)
    have "taken (v_str (rview R s)) mp (x # ms) = insert m (taken (v_str (rview R s)) mp ms)"
      using Some by (auto simp: taken_def x)
    with Cons.IH [OF rs(1)] rs(2) Some show ?thesis
      by (simp add: x strs take_one_view selected_def)
  qed
qed

lemma dequeue_script_view:
  assumes "dequeueMessagesFromQueue_script fl R qk ql el eb qc ec mp ek mq n now dl db mc s = Inr (res, s')"
  shows "(res = None \<and> s' = s) \<or>
    (\<exists>c ms. dequeue_capacity fl (int (sCARD R ec s)) (int (sCARD R qc s)) (or_default (v_str (rview R s) el) dl)
        (or_default (v_str (rview R s) eb) db) (or_default (v_str (rview R s) ql) ''1000000'') mc = Inr (Some c)
      \<and> ms = take c (filter (\<lambda>(m, sc). sc \<le> now) (zsorted (v_zset (rview R s) qk))) \<and> ms \<noteq> []
      \<and> res = Some (selected (v_str (rview R s)) mp ms)
      \<and> rview R s' = v_rebalance mq qk n (v_take qk ek qc ec (taken (v_str (rview R s)) mp ms) (rview R s)))"
  using assms
  by (auto simp: dequeueMessagesFromQueue_script_def read_views zRANGEBYSCORE_view rebalance_view Let_def
      dest: dequeue_loop_view split: sum.splits option.splits if_splits prod.splits)

lemma dequeue_script_cases:
  assumes "dequeueMessagesFromQueue_script fl R qk ql el eb qc ec mp ek mq n now dl db mc s = Inr (res, s')"
  obtains "res = None" and "s' = s"
  | c ms where "dequeue_capacity fl (int (sCARD R ec s)) (int (sCARD R qc s)) (or_default (rGET R el s) dl)
        (or_default (rGET R eb s) db) (or_default (rGET R ql s) ''1000000'') mc = Inr (Some c)"
      and "ms = take c (filter (\<lambda>(m, sc). sc \<le> now) (zsorted (v_zset (rview R s) qk)))"
      and "ms \<noteq> []" and "res = Some (selected (v_str (rview R s)) mp ms)"
      and "rview R s' = v_rebalance mq qk n (v_take qk ek qc ec (taken (v_str (rview R s)) mp ms) (rview R s))"
  using dequeue_script_view [OF assms] unfolding read_views by blast

end

subsection \<open>Capacity\<close>

lemma dequeue_capacity_bounds:
  assumes "dequeue_capacity fl ecur qcur (int_to_string E) b (int_to_string Q) mc = Inr (Some c)"
    and fl: "rounds_doubles fl" and "\<bar>E\<bar> \<le> 2 ^ 53" and "\<bar>Q\<bar> \<le> 2 ^ 53" and "0 \<le> qcur"
  obtains B where "tonumber fl b = Some B" and "0 < c" and "int c \<le> mc"
    and "ecur + int c \<le> \<lfloor>fl (of_int E * B)\<rfloor>" and "qcur + int c \<le> min Q E"
proof -
  have E: "tonumber fl (int_to_string E) = Some (of_int E)"
    and Q: "tonumber fl (int_to_string Q) = Some (of_int Q)"
    using assms(3,4) fl by (simp_all add: tonumber_def rounds_doubles_int)
  obtain B where B: "tonumber fl b = Some B"
    using assms(1) by (cases "tonumber fl b") (auto simp: dequeue_capacity_def E)
  let ?L = "\<lfloor>fl (of_int E * B)\<rfloor>" and ?M = "min Q E"
  have M: "min (of_int Q) (of_int E) = (of_int ?M :: rat)" by (simp add: of_int_min)
  let ?a = "min (of_int mc) (min (of_int (?L - ecur)) (fl (of_int ?M - of_int qcur)))"
  have eq: "(if ?L \<le> ecur then Inr None
      else if (of_int ?M :: rat) \<le> of_int qcur then Inr None
      else if ?a \<le> 0 then Inr None
      else if ?a = of_int \<lfloor>?a\<rfloor> then Inr (Some (nat \<lfloor>?a\<rfloor>)) else Inl LuaError) = (Inr (Some c) :: rq_error + nat option)"
    using assms(1) by (simp only: dequeue_capacity_def E Q B Let_def prod.case option.case M)
  then have lt: "ecur < ?L" "(of_int ?M :: rat) > of_int qcur" by (auto split: if_splits simp: not_le)
  then have lt': "qcur < ?M" by simp
  then have "\<bar>?M - qcur\<bar> \<le> 2 ^ 53" using assms(3-5) by linarith
  then have d: "fl (of_int ?M - of_int qcur) = of_int (?M - qcur)"
    using rounds_doubles_int [OF fl, of "?M - qcur"] by simp
  have a: "?a = of_int (min mc (min (?L - ecur) (?M - qcur)))"
    unfolding d by (simp add: of_int_min)
  have "0 < min mc (min (?L - ecur) (?M - qcur)) \<and> c = nat (min mc (min (?L - ecur) (?M - qcur)))"
    using eq lt lt' unfolding a by (auto split: if_splits)
  then have "0 < c \<and> int c = min mc (min (?L - ecur) (?M - qcur))" by auto
  then show ?thesis using B by (intro that [OF B]) linarith+
qed

lemma card_union_taken:
  assumes "finite A" and "length ms \<le> c"
  shows "card (A \<union> taken strs mp ms) \<le> card A + c"
  using card_Un_le [of A "taken strs mp ms"] card_taken [of strs mp ms] assms(2) by linarith

lemma length_selected: "length (selected strs mp ms) \<le> length ms"
  by (simp add: selected_def)

subsection \<open>Properties\<close>

text \<open>C3. Concurrency limits: whatever the keyspace, a dequeue never takes a queue's concurrency set
  above the smaller of the queue's and the environment's limit, nor the environment's set above the
  environment's limit with its burst factor (a set that is already above its limit does not grow),
  and it returns at most \<open>maxCount\<close> messages.\<close>

theorem dequeue_respects_limits:
  assumes R: "redis_server R" and fl: "rounds_doubles fl"
    and run: "dequeueMessagesFromQueue_script fl R qk ql el eb qc ec mp ek mq n now dl db mc s = Inr (res, s')"
    and E: "or_default (rGET R el s) dl = int_to_string E" "\<bar>E\<bar> \<le> 2 ^ 53"
    and Q: "or_default (rGET R ql s) ''1000000'' = int_to_string Q" "\<bar>Q\<bar> \<le> 2 ^ 53"
    and B: "tonumber fl (or_default (rGET R eb s) db) = Some B"
  shows "sCARD R qc s' \<le> max (sCARD R qc s) (nat (min Q E))
    \<and> sCARD R ec s' \<le> max (sCARD R ec s) (nat \<lfloor>fl (of_int E * B)\<rfloor>)
    \<and> (\<forall>rs. res = Some rs \<longrightarrow> int (length rs) \<le> mc)"
proof (rule redis_server.dequeue_script_cases [OF R run])
  assume "res = None" and "s' = s"
  then show ?thesis by simp
next
  fix c ms
  assume some: "dequeue_capacity fl (int (sCARD R ec s)) (int (sCARD R qc s)) (or_default (rGET R el s) dl)
        (or_default (rGET R eb s) db) (or_default (rGET R ql s) ''1000000'') mc = Inr (Some c)"
    "ms = take c (filter (\<lambda>(m, sc). sc \<le> now) (zsorted (v_zset (rview R s) qk)))"
    "ms \<noteq> []" "res = Some (selected (v_str (rview R s)) mp ms)"
    "rview R s' = v_rebalance mq qk n (v_take qk ek qc ec (taken (v_str (rview R s)) mp ms) (rview R s))"
  note fin = redis_server.set_finite [OF R]
  have c: "dequeue_capacity fl (int (sCARD R ec s)) (int (sCARD R qc s)) (int_to_string E)
        (or_default (rGET R eb s) db) (int_to_string Q) mc = Inr (Some c)"
    using some(1) by (simp add: E(1) Q(1))
  have ms: "length ms \<le> c" using some(2) by simp
  obtain B' where "tonumber fl (or_default (rGET R eb s) db) = Some B'" and mc: "int c \<le> mc"
      and "int (sCARD R ec s) + int c \<le> \<lfloor>fl (of_int E * B')\<rfloor>" and q: "int (sCARD R qc s) + int c \<le> min Q E"
    by (rule dequeue_capacity_bounds [OF c fl E(2) Q(2)]) auto
  with B have e: "int (sCARD R ec s) + int c \<le> \<lfloor>fl (of_int E * B)\<rfloor>" by simp
  have grow: "sCARD R k s' \<le> sCARD R k s + c" for k
    using card_union_taken [OF fin ms] by (auto simp: redis_server.sCARD_view [OF R] some(5))
  show ?thesis
    using grow [of qc] grow [of ec] q e mc length_selected [of "v_str (rview R s)" mp ms] ms some(4) by auto
qed

text \<open>A keyspace with one message ready and no limits stored, for the witnesses.\<close>

definition one_message_store :: store where
  "one_message_store = zADD mem_redis ''eq'' 5 ''run_1'' (zADD mem_redis ''q'' 5 ''run_1''
     (rSET mem_redis ''m:run_1'' ''payload'' empty_store))"

lemmas mem_eval = mem_redis_defs m_zadd_def empty_store_def entries_sorted_def redis_slice_def
  one_message_store_def or_default_def tonumber_def

lemma one_message_reads:
  "rGET mem_redis k one_message_store = (if k = ''m:run_1'' then Some ''payload'' else None)"
  "sCARD mem_redis k one_message_store = 0"
  "zRANGEBYSCORE mem_redis ''q'' 10 (Suc 0) one_message_store = [(''run_1'', 5)]"
  by (simp_all add: mem_eval)

lemma default_limit: "decimal_value ''1000000'' = Some (of_int 1000000)"
  by (simp add: decimal_value_def unsigned_value_def read_digits_def digit_of_def)

theorem dequeue_respects_limits_witness:
  "\<exists>s'. dequeueMessagesFromQueue_script (\<lambda>q. q) mem_redis ''q'' ''ql'' ''el'' ''eb'' ''qc'' ''ec'' ''m:'' ''eq'' ''mq'' ''q''
       10 (int_to_string 1) (int_to_string 1) 10 one_message_store = Inr (Some [(''run_1'', 5, ''payload'')], s')
     \<and> sCARD mem_redis ''qc'' s' \<le> max 0 (nat (min 1000000 1))"
proof -
  let ?run = "dequeueMessagesFromQueue_script (\<lambda>q. q) mem_redis ''q'' ''ql'' ''el'' ''eb'' ''qc'' ''ec'' ''m:'' ''eq'' ''mq'' ''q''
       10 (int_to_string 1) (int_to_string 1) 10 one_message_store"
  have dflt: "''1000000'' = int_to_string 1000000"
    by (simp add: int_to_string_def nat_to_string.simps digit_char_def char_of_def bit_0)
  obtain s' where run: "?run = Inr (Some [(''run_1'', 5, ''payload'')], s')"
    by (simp add: dequeueMessagesFromQueue_script_def one_message_reads dequeue_capacity_def tonumber_def
        or_default_def default_limit Let_def split: prod.splits)
  have "sCARD mem_redis ''qc'' s' \<le> max (sCARD mem_redis ''qc'' one_message_store) (nat (min 1000000 1))"
    using dequeue_respects_limits [OF mem.redis_server_axioms rounds_doubles_id run, of 1 1000000 1] dflt
    by (simp add: one_message_reads or_default_def tonumber_def)
  with run show ?thesis by (auto simp: one_message_reads)
qed

lemma sorted_take_le_drop:
  assumes "sorted (map f xs)" and "x \<in> set (take n xs)" and "y \<in> set (drop n xs)"
  shows "f x \<le> f y"
proof -
  have "sorted (map f (take n xs) @ map f (drop n xs))"
    using assms(1) by (simp flip: map_append)
  then show ?thesis using assms(2,3) by (simp add: sorted_append)
qed

text \<open>C4. A dequeue takes the earliest due messages first: what it returns is in order of score, due,
  with the stored payload, out of the queue and in both concurrency sets; and no message with a payload
  that is left in the queue is earlier than one that was taken.\<close>

theorem dequeue_earliest_first:
  assumes R: "redis_server R" and "mq \<noteq> qk"
    and run: "dequeueMessagesFromQueue_script fl R qk ql el eb qc ec mp ek mq n now dl db mc s = Inr (Some rs, s')"
  shows "sorted (map (\<lambda>(m, sc, p). sc) rs)
    \<and> (\<forall>(m, sc, p) \<in> set rs. sc \<le> now \<and> zSCORE R qk m s = Some sc \<and> rGET R (mp @ m) s = Some p
        \<and> zSCORE R qk m s' = None \<and> sISMEMBER R qc m s' \<and> sISMEMBER R ec m s')
    \<and> (\<forall>y sc'. zSCORE R qk y s' = Some sc' \<and> rGET R (mp @ y) s \<noteq> None \<longrightarrow> (\<forall>(m, sc, p) \<in> set rs. sc \<le> sc'))"
proof (rule redis_server.dequeue_script_cases [OF R run])
  assume "Some rs = None" then show ?thesis by simp
next
  fix c ms
  let ?z = "v_zset (rview R s) qk" and ?str = "v_str (rview R s)"
  let ?due = "filter (\<lambda>(m, sc). sc \<le> now) (zsorted ?z)"
  assume ms: "ms = take c ?due" and "Some rs = Some (selected ?str mp ms)"
    and v: "rview R s' = v_rebalance mq qk n (v_take qk ek qc ec (taken ?str mp ms) (rview R s))"
  then have rs: "rs = selected ?str mp ms" by simp
  note reads = redis_server.read_views [OF R] and fin = redis_server.zset_finite [OF R]
  have due: "sorted (map snd ?due)" using zsorted_scores_sorted by (rule sorted_filter)
  then have "sorted (map snd (filter (\<lambda>(m, sc). ?str (mp @ m) \<noteq> None) ms))"
    unfolding ms by (intro sorted_filter) (simp add: sorted_wrt_take flip: take_map)
  then have sorted: "sorted (map (\<lambda>(m, sc, p). sc) rs)"
    by (simp add: rs selected_def comp_def case_prod_beta)
  have in_rs: "(m, sc) \<in> set ms \<and> ?str (mp @ m) = Some p" if "(m, sc, p) \<in> set rs" for m sc p
    using that by (auto simp: rs selected_def)
  have in_ms: "sc \<le> now \<and> ?z m = Some sc" if "(m, sc) \<in> set ms" for m sc
    using that set_zsorted [OF fin] by (auto simp: ms dest: in_set_takeD)
  have taken: "m \<in> taken ?str mp ms" if "(m, sc) \<in> set ms" "?str (mp @ m) \<noteq> None" for m sc
    using that by (force simp: taken_def)
  have "\<forall>(m, sc, p) \<in> set rs. sc \<le> now \<and> zSCORE R qk m s = Some sc \<and> rGET R (mp @ m) s = Some p
        \<and> zSCORE R qk m s' = None \<and> sISMEMBER R qc m s' \<and> sISMEMBER R ec m s'"
    using in_rs in_ms taken assms(2) by (fastforce simp: reads v)
  moreover have "sc \<le> sc'" if y: "zSCORE R qk y s' = Some sc'" "rGET R (mp @ y) s \<noteq> None" and "(m, sc, p) \<in> set rs" for y sc' m sc p
  proof (cases "sc' \<le> now")
    case True
    have "?z y = Some sc'" "y \<notin> taken ?str mp ms"
      using y(1) assms(2) by (auto simp: reads v restrict_map_def split: if_splits)
    then have "(y, sc') \<in> set ?due" "(y, sc') \<notin> set ms"
      using True set_zsorted [OF fin] taken [of y sc'] y(2) by (auto simp: reads)
    then have "(y, sc') \<in> set (drop c ?due)"
      using append_take_drop_id [of c ?due] unfolding ms by (metis UnE set_append)
    then show ?thesis
      using sorted_take_le_drop [OF due, of "(m, sc)" c "(y, sc')"] in_rs [OF that(3)] by (simp add: ms)
  qed (use in_rs [OF that(3)] in_ms in fastforce)
  ultimately show ?thesis using sorted by blast
qed

theorem dequeue_earliest_first_witness:
  "\<exists>s'. zSCORE mem_redis ''q'' ''run_1'' s' = None \<and> sISMEMBER mem_redis ''ec'' ''run_1'' s'"
proof -
  obtain s' where "dequeueMessagesFromQueue_script (\<lambda>q. q) mem_redis ''q'' ''ql'' ''el'' ''eb'' ''qc'' ''ec'' ''m:'' ''eq'' ''mq'' ''q''
       10 (int_to_string 1) (int_to_string 1) 10 one_message_store = Inr (Some [(''run_1'', 5, ''payload'')], s')"
    by (simp add: dequeueMessagesFromQueue_script_def one_message_reads dequeue_capacity_def tonumber_def
        or_default_def default_limit Let_def split: prod.splits)
  from dequeue_earliest_first [OF mem.redis_server_axioms _ this] show ?thesis by auto
qed

end
