(* ===== verification/Jump_Hash.thy ===== *)
theory Jump_Hash
  imports Prelude "HOL-Library.Word"
begin

text \<open>
  The consistent hash that assigns environments to master queue shards
  (\<open>packages/core/src/v3/serverOnly/jumpHash.ts\<close>).

  SHA-256 (\<open>node:crypto\<close>) is the argument \<open>sha\<close>, from the UTF-8 text of the key to its digest.
  The loop keeps its key as an unbounded integer, as the code's \<open>BigInt\<close> does. The one division of
  doubles is an exact rational quotient followed by a rounding \<open>fl\<close>, an argument of the model; its
  numerator, a small integer times a power of two, is exact. The loop runs on fuel, and
  \<open>jump_loop_returns\<close> shows that the fuel given always suffices.
\<close>

subsection \<open>The hash\<close>

text \<open>\<open>None\<close> is the \<open>RangeError\<close> that \<open>BigInt(NaN)\<close> throws on fewer than eight bytes.\<close>

fun bytesToBigInt :: "8 word list \<Rightarrow> int option" where
  "bytesToBigInt (b0 # b1 # b2 # b3 # b4 # b5 # b6 # b7 # rest) =
     (let hi = uint b0 * 2 ^ 24 + uint b1 * 2 ^ 16 + uint b2 * 2 ^ 8 + uint b3;
          lo = uint b4 * 2 ^ 24 + uint b5 * 2 ^ 16 + uint b6 * 2 ^ 8 + uint b7
      in Some (push_bit 32 hi + lo))"
| "bytesToBigInt bs = None"

definition jump_key :: "int \<Rightarrow> int" where
  "jump_key k = (k * 2862933555777941757) mod 2 ^ 64 + 1"

definition jump_next :: "(rat \<Rightarrow> rat) \<Rightarrow> int \<Rightarrow> int \<Rightarrow> int" where
  "jump_next fl b k = \<lfloor>fl (of_int ((b + 1) * 2 ^ 31) / of_int (drop_bit 33 k + 1))\<rfloor>"

fun jump_loop :: "nat \<Rightarrow> (rat \<Rightarrow> rat) \<Rightarrow> int \<Rightarrow> int \<Rightarrow> int \<Rightarrow> int \<Rightarrow> int option" where
  "jump_loop 0 fl k b j n = None"
| "jump_loop (Suc fuel) fl k b j n =
     (if j < n then
        (let k' = jump_key k in jump_loop fuel fl k' j (jump_next fl j k') n)
      else Some b)"

definition jump_fuel :: "int \<Rightarrow> nat" where
  "jump_fuel n = 2 * nat n + 2"

definition jumpConsistentHash :: "(rat \<Rightarrow> rat) \<Rightarrow> 8 word list \<Rightarrow> int \<Rightarrow> int option" where
  "jumpConsistentHash fl key numBuckets =
     (case bytesToBigInt key of
        None \<Rightarrow> None
      | Some k \<Rightarrow> jump_loop (jump_fuel numBuckets) fl k (-1) 0 numBuckets)"

definition jumpHash :: "(rat \<Rightarrow> rat) \<Rightarrow> (string \<Rightarrow> 8 word list) \<Rightarrow> string \<Rightarrow> int \<Rightarrow> int option" where
  "jumpHash fl sha key buckets = jumpConsistentHash fl (take 32 (sha key)) buckets"

subsection \<open>Progress of the loop\<close>

lemma jump_key_range: "1 \<le> jump_key k" "jump_key k \<le> 2 ^ 64"
proof -
  show "1 \<le> jump_key k" by (simp add: jump_key_def)
  have "(k * 2862933555777941757) mod 2 ^ 64 < (2 ^ 64 :: int)" by (rule pos_mod_bound) simp
  then show "jump_key k \<le> 2 ^ 64" by (simp add: jump_key_def)
qed

lemma jump_next_progress:
  assumes fl: "rounds_doubles fl" and b: "0 \<le> b" "b < 2 ^ 31" and k: "1 \<le> k" "k \<le> 2 ^ 64"
  shows "b \<le> jump_next fl b k" and "k \<noteq> 2 ^ 64 \<Longrightarrow> b + 1 \<le> jump_next fl b k"
proof -
  define d where "d = drop_bit 33 k + 1"
  have d: "d = k div 2 ^ 33 + 1" by (simp add: d_def drop_bit_eq_div)
  have dpos: "1 \<le> d" using k by (simp add: d)
  have "k div 2 ^ 33 \<le> 2 ^ 64 div (2 ^ 33 :: int)" using k(2) by (intro zdiv_mono1) simp_all
  then have dmax: "d \<le> 2 ^ 31 + 1" by (simp add: d)
  have quot: "of_int i \<le> (of_int ((b + 1) * 2 ^ 31) / of_int d :: rat)"
    if "i * d \<le> (b + 1) * 2 ^ 31" for i
  proof -
    have "(of_int (i * d) :: rat) \<le> of_int ((b + 1) * 2 ^ 31)"
      using that by (simp only: of_int_le_iff)
    with dpos show ?thesis by (simp add: pos_le_divide_eq)
  qed
  have "b * d \<le> b * (2 ^ 31 + 1)" using dmax b by (intro mult_left_mono) simp_all
  also have "\<dots> \<le> (b + 1) * 2 ^ 31" using b by (simp add: algebra_simps)
  finally have "of_int b \<le> (of_int ((b + 1) * 2 ^ 31) / of_int d :: rat)" by (rule quot)
  then show "b \<le> jump_next fl b k"
    unfolding jump_next_def d_def [symmetric]
    by (rule rounds_doubles_floor [OF fl]) (use b in simp)
  show "b + 1 \<le> jump_next fl b k" if "k \<noteq> 2 ^ 64"
  proof -
    have "k \<le> 2 ^ 64 - 1" using k that by simp
    then have "k div 2 ^ 33 \<le> (2 ^ 64 - 1) div (2 ^ 33 :: int)" by (intro zdiv_mono1) simp_all
    then have "d \<le> 2 ^ 31" by (simp add: d)
    then have "(b + 1) * d \<le> (b + 1) * 2 ^ 31" using b by (intro mult_left_mono) simp_all
    then have "of_int (b + 1) \<le> (of_int ((b + 1) * 2 ^ 31) / of_int d :: rat)" by (rule quot)
    then show ?thesis
      unfolding jump_next_def d_def [symmetric]
      by (rule rounds_doubles_floor [OF fl]) (use b in simp)
  qed
qed

text \<open>Each round makes progress, except where the key reaches \<open>2 ^ 64\<close>; the round after that does.\<close>

definition jump_measure :: "int \<Rightarrow> int \<Rightarrow> int \<Rightarrow> nat" where
  "jump_measure n k j = 2 * nat (n - j) + (if k = 2 ^ 64 then 0 else 1)"

lemma jump_measure_decreases:
  assumes "rounds_doubles fl" and "0 \<le> j" "j < n" "n \<le> 2 ^ 31"
  shows "jump_measure n (jump_key k) (jump_next fl j (jump_key k)) < jump_measure n k j"
proof -
  have le: "j \<le> jump_next fl j (jump_key k)"
    and lt: "jump_key k \<noteq> 2 ^ 64 \<Longrightarrow> j + 1 \<le> jump_next fl j (jump_key k)"
    using jump_next_progress [OF assms(1,2) _ jump_key_range] assms(3,4) by simp_all
  show ?thesis
  proof (cases "k = 2 ^ 64")
    case True
    then have "jump_key k = 1" by (simp add: jump_key_def)
    with True le lt assms show ?thesis by (simp add: jump_measure_def)
  next
    case False
    with le lt assms show ?thesis by (auto simp: jump_measure_def)
  qed
qed

lemma jump_loop_terminates:
  assumes "rounds_doubles fl" and "n \<le> 2 ^ 31" and "0 \<le> j" and "jump_measure n k j < fuel"
  shows "\<exists>r. jump_loop fuel fl k b j n = Some r"
  using assms(3,4)
proof (induction fuel arbitrary: k b j)
  case 0
  then show ?case by simp
next
  case (Suc fuel)
  show ?case
  proof (cases "j < n")
    case True
    let ?k = "jump_key k" and ?j = "jump_next fl j (jump_key k)"
    have "jump_measure n ?k ?j < fuel"
      using jump_measure_decreases [OF assms(1) Suc.prems(1) True assms(2), of k] Suc.prems(2) by simp
    moreover have "j \<le> ?j"
      using jump_next_progress(1) [OF assms(1) Suc.prems(1) _ jump_key_range] True assms(2) by simp
    ultimately have "\<exists>r. jump_loop fuel fl ?k j ?j n = Some r"
      using Suc.IH [of ?j ?k j] Suc.prems(1) by simp
    with True show ?thesis by (simp add: Let_def)
  qed simp
qed

lemma jump_loop_result:
  assumes "rounds_doubles fl" and "n \<le> 2 ^ 31" and "jump_loop fuel fl k b j n = Some r"
    and "0 \<le> j" and "b < n"
  shows "r < n \<and> (if j < n then j \<le> r else r = b)"
  using assms(3-5)
proof (induction fuel arbitrary: k b j)
  case 0
  then show ?case by simp
next
  case (Suc fuel)
  show ?case
  proof (cases "j < n")
    case True
    let ?k = "jump_key k" and ?j = "jump_next fl j (jump_key k)"
    have j: "j \<le> ?j"
      using jump_next_progress(1) [OF assms(1) Suc.prems(2) _ jump_key_range] True assms(2) by simp
    have "jump_loop fuel fl ?k j ?j n = Some r"
      using Suc.prems(1) True by (simp add: Let_def)
    from Suc.IH [OF this] j Suc.prems(2) True show ?thesis by (auto split: if_splits)
  qed (use Suc.prems in auto)
qed

lemma jump_loop_consistent:
  assumes fl: "rounds_doubles fl" and n: "n + 1 \<le> 2 ^ 31"
    and "jump_loop f1 fl k b j n = Some r1" and "jump_loop f2 fl k b j (n + 1) = Some r2"
    and "0 \<le> j"
  shows "r2 = r1 \<or> r2 = n"
  using assms(3-5)
proof (induction f1 arbitrary: f2 k b j)
  case 0
  then show ?case by simp
next
  case (Suc f1)
  let ?k = "jump_key k" and ?j = "jump_next fl j (jump_key k)"
  obtain f where f: "f2 = Suc f" using Suc.prems(2) by (cases f2) auto
  have j: "j \<le> ?j" if "j < n + 1"
    using jump_next_progress(1) [OF fl Suc.prems(3) _ jump_key_range] that n by simp
  consider "j < n" | "j = n" | "n + 1 \<le> j" by linarith
  then show ?case
  proof cases
    case 1
    then have "jump_loop f1 fl ?k j ?j n = Some r1" "jump_loop f fl ?k j ?j (n + 1) = Some r2"
      using Suc.prems(1,2) by (simp_all add: f Let_def)
    then show ?thesis using Suc.IH j Suc.prems(3) 1 by fastforce
  next
    case 2
    then have "jump_loop f fl ?k n ?j (n + 1) = Some r2"
      using Suc.prems(2) by (simp add: f Let_def)
    from jump_loop_result [OF fl n this] j 2 Suc.prems(3) show ?thesis by (auto split: if_splits)
  next
    case 3
    then show ?thesis using Suc.prems(1,2) by (simp add: f)
  qed
qed

lemma jump_fuel_enough: "0 \<le> n \<Longrightarrow> jump_measure n k 0 < jump_fuel n"
  by (simp add: jump_measure_def jump_fuel_def)

lemma bytesToBigInt_some: "8 \<le> length bs \<Longrightarrow> \<exists>k. bytesToBigInt bs = Some k"
proof -
  assume "8 \<le> length bs"
  then have "length bs = 8 + (length bs - 8)" by simp
  then obtain b0 b1 b2 b3 b4 b5 b6 b7 rest where
    "bs = b0 # b1 # b2 # b3 # b4 # b5 # b6 # b7 # rest"
    by (auto simp: length_Suc_conv numeral_eq_Suc)
  then show ?thesis by (simp add: Let_def)
qed

subsection \<open>Properties\<close>

lemma jumpHash_answers:
  assumes "rounds_doubles fl" and "8 \<le> length (sha key)" and "0 < n" and "n \<le> 2 ^ 31"
  shows "\<exists>b. jumpHash fl sha key n = Some b \<and> 0 \<le> b \<and> b < n"
proof -
  obtain k where k: "bytesToBigInt (take 32 (sha key)) = Some k"
    using bytesToBigInt_some [of "take 32 (sha key)"] assms(2) by auto
  obtain r where r: "jump_loop (jump_fuel n) fl k (-1) 0 n = Some r"
    using jump_loop_terminates [OF assms(1,4) _ jump_fuel_enough] assms(3) by (metis less_imp_le order_refl)
  from jump_loop_result [OF assms(1,4) r] assms(3) have "r < n" "0 \<le> r" by simp_all
  then show ?thesis by (simp add: jumpHash_def jumpConsistentHash_def k r)
qed

text \<open>The shard hash is total and in range: for a digest of at least eight bytes and between 1
  and 2^31 buckets the loop returns (with the fuel given) a bucket of \<open>[0, buckets)\<close>.\<close>

theorem jumpHash_in_range:
  assumes "rounds_doubles fl" and "8 \<le> length (sha key)" and "0 < n" and "n \<le> 2 ^ 31"
  shows "\<exists>b. jumpHash fl sha key n = Some b \<and> 0 \<le> b \<and> b < n"
  using assms by (rule jumpHash_answers)

theorem jumpHash_in_range_witness:
  "\<exists>b. jumpHash (\<lambda>q. q) (\<lambda>_. replicate 32 7) ''env_1'' 5 = Some b \<and> 0 \<le> b \<and> b < 5"
  by (rule jumpHash_in_range) (simp_all add: rounds_doubles_def mono_def)

text \<open>C33. Consistent hashing: adding one shard either leaves an environment on its shard or moves it
  to the new shard; no environment moves between old shards.\<close>

theorem jumpHash_consistent:
  assumes "rounds_doubles fl" and "8 \<le> length (sha key)" and "0 < n" and "n + 1 \<le> 2 ^ 31"
  shows "jumpHash fl sha key (n + 1) = jumpHash fl sha key n \<or> jumpHash fl sha key (n + 1) = Some n"
proof -
  obtain k where k: "bytesToBigInt (take 32 (sha key)) = Some k"
    using bytesToBigInt_some [of "take 32 (sha key)"] assms(2) by auto
  obtain r1 where r1: "jump_loop (jump_fuel n) fl k (-1) 0 n = Some r1"
    using jump_loop_terminates [OF assms(1) _ order_refl jump_fuel_enough, of n k] assms(3,4) by auto
  obtain r2 where r2: "jump_loop (jump_fuel (n + 1)) fl k (-1) 0 (n + 1) = Some r2"
    using jump_loop_terminates [OF assms(1,4) order_refl jump_fuel_enough, of k] assms(3) by auto
  have "r2 = r1 \<or> r2 = n"
    by (rule jump_loop_consistent [OF assms(1,4) r1 r2]) simp
  then show ?thesis by (auto simp: jumpHash_def jumpConsistentHash_def k r1 r2)
qed

theorem jumpHash_consistent_witness:
  "jumpHash (\<lambda>q. q) (\<lambda>_. replicate 32 7) ''env_1'' (5 + 1) = jumpHash (\<lambda>q. q) (\<lambda>_. replicate 32 7) ''env_1'' 5
   \<or> jumpHash (\<lambda>q. q) (\<lambda>_. replicate 32 7) ''env_1'' (5 + 1) = Some 5"
  by (rule jumpHash_consistent) (simp_all add: rounds_doubles_def mono_def)

end
