(* ===== verification/Run_Queue_Keys.thy ===== *)
theory Run_Queue_Keys
  imports Jump_Hash "HOL-Library.Monad_Syntax"
begin

text \<open>
  The key producer of the run queue (\<open>internal-packages/run-engine/src/run-queue/keyProducer.ts\<close>):
  every Redis key of the run queue is built from, or read back out of, these functions.

  The overloads that take an environment and those that take an \<open>EnvDescriptor\<close> build the same
  string from the same three identifiers, so each pair is one function on \<open>rq_env\<close>. An operation that
  throws (\<open>parts[1]\<close> of a queue with no colon) returns \<open>None\<close>; an identifier that is
  \<open>undefined\<close> prints as JavaScript prints it.
\<close>

record rq_env =
  env_id :: string
  project_id :: string
  organization_id :: string

record queue_descriptor =
  d_orgId :: string
  d_projectId :: "string option"
  d_envId :: "string option"
  d_queue :: "string option"
  d_concurrencyKey :: "string option"

subsection \<open>Sections\<close>

definition envKeySection :: "string \<Rightarrow> string" where [key_defs]: "envKeySection envId = ''env:'' @ envId"

definition projKeySection :: "string \<Rightarrow> string" where [key_defs]: "projKeySection projId = ''proj:'' @ projId"

definition orgKeySection :: "string \<Rightarrow> string" where [key_defs]: "orgKeySection orgId = ''{org:'' @ orgId @ ''}''"

definition queueSection :: "string \<Rightarrow> string" where [key_defs]: "queueSection queue = ''queue:'' @ queue"

definition concurrencyKeySection :: "string \<Rightarrow> string" where [key_defs]:
  "concurrencyKeySection concurrencyKey = ''ck:'' @ concurrencyKey"

text \<open>A concurrency key counts as given only when it is truthy: present and not the empty string.\<close>

fun given :: "string option \<Rightarrow> string option" where
  "given (Some (c # cs)) = Some (c # cs)"
| "given _ = None"

subsection \<open>Keys from an environment\<close>

definition queueKey :: "rq_env \<Rightarrow> string \<Rightarrow> string option \<Rightarrow> key" where [key_defs]:
  "queueKey env queue concurrencyKey =
     join_with '':'' ([orgKeySection (organization_id env), projKeySection (project_id env),
        envKeySection (env_id env), queueSection queue] @
        (case given concurrencyKey of None \<Rightarrow> [] | Some c \<Rightarrow> [concurrencyKeySection c]))"

definition env_key :: "rq_env \<Rightarrow> string \<Rightarrow> key" where [key_defs]:
  "env_key env part = join_with '':'' [orgKeySection (organization_id env),
     projKeySection (project_id env), envKeySection (env_id env), part]"

definition envConcurrencyLimitKey :: "rq_env \<Rightarrow> key" where [key_defs]:
  "envConcurrencyLimitKey env = env_key env ''concurrency''"

definition envConcurrencyLimitBurstFactorKey :: "rq_env \<Rightarrow> key" where [key_defs]:
  "envConcurrencyLimitBurstFactorKey env = env_key env ''concurrencyBurstFactor''"

definition envCurrentConcurrencyKey :: "rq_env \<Rightarrow> key" where [key_defs]:
  "envCurrentConcurrencyKey env = env_key env ''currentConcurrency''"

definition envCurrentDequeuedKey :: "rq_env \<Rightarrow> key" where [key_defs]:
  "envCurrentDequeuedKey env = env_key env ''currentDequeued''"

definition deadLetterQueueKey :: "rq_env \<Rightarrow> key" where [key_defs]:
  "deadLetterQueueKey env = env_key env ''deadLetter''"

definition envQueueKey :: "rq_env \<Rightarrow> key" where [key_defs]:
  "envQueueKey env = join_with '':'' [orgKeySection (organization_id env), envKeySection (env_id env)]"

definition queueConcurrencyLimitKey :: "rq_env \<Rightarrow> string \<Rightarrow> key" where [key_defs]:
  "queueConcurrencyLimitKey env queue = join_with '':'' [queueKey env queue None, ''concurrency'']"

definition queueCurrentConcurrencyKey :: "rq_env \<Rightarrow> string \<Rightarrow> string option \<Rightarrow> key" where [key_defs]:
  "queueCurrentConcurrencyKey env queue concurrencyKey =
     join_with '':'' [queueKey env queue concurrencyKey, ''currentConcurrency'']"

definition queueCurrentDequeuedKey :: "rq_env \<Rightarrow> string \<Rightarrow> string option \<Rightarrow> key" where [key_defs]:
  "queueCurrentDequeuedKey env queue concurrencyKey =
     join_with '':'' [queueKey env queue concurrencyKey, ''currentDequeued'']"

definition messageKey :: "string \<Rightarrow> string \<Rightarrow> key" where [key_defs]:
  "messageKey orgId messageId =
     join_with '':'' (filter (\<lambda>p. p \<noteq> []) [orgKeySection orgId, ''message:'' @ messageId])"

definition workerQueueKey :: "string \<Rightarrow> key" where [key_defs]:
  "workerQueueKey workerQueue = join_with '':'' [''workerQueue'', workerQueue]"

definition markedForAckKey :: key where [key_defs]: "markedForAckKey = ''markedForAck''"

definition legacyMasterQueueKey :: "string \<Rightarrow> key" where "legacyMasterQueueKey masterQueueName = masterQueueName"

definition masterQueueKeyForShard :: "int \<Rightarrow> key" where [key_defs]:
  "masterQueueKeyForShard shard = join_with '':'' [''masterQueue'', ''shard'', int_to_string shard]"

text \<open>The shard of an environment: \<open>jumpHash\<close> over the shard count. \<open>hash\<close> stands for
  \<open>jumpHash fl sha\<close>, the hash of the previous theory with its two arguments.\<close>

definition masterQueueShardForEnvironment :: "(string \<Rightarrow> int \<Rightarrow> int option) \<Rightarrow> string \<Rightarrow> int \<Rightarrow> int option" where
  "masterQueueShardForEnvironment hash envId shardCount = hash envId shardCount"

definition masterQueueKeyForEnvironment :: "(string \<Rightarrow> int \<Rightarrow> int option) \<Rightarrow> string \<Rightarrow> int \<Rightarrow> key option" where
  "masterQueueKeyForEnvironment hash envId shardCount =
     map_option masterQueueKeyForShard (masterQueueShardForEnvironment hash envId shardCount)"

subsection \<open>Keys read back out of a queue key\<close>

text \<open>\<open>parts[i]\<close>: \<open>None\<close> is \<open>undefined\<close>.\<close>

definition js_nth :: "'a list \<Rightarrow> nat \<Rightarrow> 'a option" where
  "js_nth xs i = (if i < length xs then Some (xs ! i) else None)"

definition js_str :: "string option \<Rightarrow> string" where
  "js_str v = (case v of None \<Rightarrow> ''undefined'' | Some s \<Rightarrow> s)"

definition descriptorFromQueue :: "key \<Rightarrow> queue_descriptor option" where
  "descriptorFromQueue queue =
     (let parts = split_on colon queue in
      do {
        org \<leftarrow> js_nth parts 1;
        Some \<lparr>d_orgId = remove1 (CHR ''}'') (remove1 (CHR ''{'') org), d_projectId = js_nth parts 3,
          d_envId = js_nth parts 5, d_queue = js_nth parts 7, d_concurrencyKey = js_nth parts 9\<rparr>
      })"

text \<open>The descriptor's identifiers as the template strings print them.\<close>

definition descriptor_env :: "queue_descriptor \<Rightarrow> rq_env" where
  "descriptor_env d = \<lparr>env_id = js_str (d_envId d), project_id = js_str (d_projectId d),
     organization_id = d_orgId d\<rparr>"

definition env_from_queue :: "key \<Rightarrow> rq_env option" where
  "env_from_queue queue = map_option descriptor_env (descriptorFromQueue queue)"

definition envQueueKeyFromQueue :: "key \<Rightarrow> key option" where
  "envQueueKeyFromQueue queue = map_option envQueueKey (env_from_queue queue)"

definition envConcurrencyLimitKeyFromQueue :: "key \<Rightarrow> key option" where
  "envConcurrencyLimitKeyFromQueue queue = map_option envConcurrencyLimitKey (env_from_queue queue)"

definition envConcurrencyLimitBurstFactorKeyFromQueue :: "key \<Rightarrow> key option" where
  "envConcurrencyLimitBurstFactorKeyFromQueue queue =
     map_option envConcurrencyLimitBurstFactorKey (env_from_queue queue)"

definition envCurrentConcurrencyKeyFromQueue :: "key \<Rightarrow> key option" where
  "envCurrentConcurrencyKeyFromQueue queue = map_option envCurrentConcurrencyKey (env_from_queue queue)"

definition envCurrentDequeuedKeyFromQueue :: "key \<Rightarrow> key option" where
  "envCurrentDequeuedKeyFromQueue queue = map_option envCurrentDequeuedKey (env_from_queue queue)"

definition deadLetterQueueKeyFromQueue :: "key \<Rightarrow> key option" where
  "deadLetterQueueKeyFromQueue queue = map_option deadLetterQueueKey (env_from_queue queue)"

definition messageKeyPrefixFromQueue :: "key \<Rightarrow> key option" where
  "messageKeyPrefixFromQueue queue =
     map_option (\<lambda>d. orgKeySection (d_orgId d) @ '':message:'') (descriptorFromQueue queue)"

definition orgIdFromQueue :: "key \<Rightarrow> string option" where
  "orgIdFromQueue queue = map_option d_orgId (descriptorFromQueue queue)"

definition envIdFromQueue :: "key \<Rightarrow> string option" where
  "envIdFromQueue queue = Option.bind (descriptorFromQueue queue) d_envId"

definition projectIdFromQueue :: "key \<Rightarrow> string option" where
  "projectIdFromQueue queue = Option.bind (descriptorFromQueue queue) d_projectId"

text \<open>\<open>queue.replace(/:ck:.+$/, "")\<close>: the leftmost \<open>:ck:\<close> after which at least one character and no
  line break follows is dropped with everything after it.\<close>

fun strip_ck :: "string \<Rightarrow> string" where
  "strip_ck [] = []"
| "strip_ck (x # xs) =
     (if take 4 (x # xs) = '':ck:'' \<and> drop 4 (x # xs) \<noteq> [] \<and>
         CHR 0x0A \<notin> set (drop 4 (x # xs)) \<and> CHR 0x0D \<notin> set (drop 4 (x # xs))
      then [] else x # strip_ck xs)"

definition queueConcurrencyLimitKeyFromQueue :: "key \<Rightarrow> key" where
  "queueConcurrencyLimitKeyFromQueue queue = strip_ck queue @ '':concurrency''"

definition queueCurrentConcurrencyKeyFromQueue :: "key \<Rightarrow> key" where
  "queueCurrentConcurrencyKeyFromQueue queue = queue @ '':currentConcurrency''"

definition queueCurrentDequeuedKeyFromQueue :: "key \<Rightarrow> key" where
  "queueCurrentDequeuedKeyFromQueue queue = queue @ '':currentDequeued''"

subsection \<open>Shape of the keys\<close>

text \<open>Identifiers the platform generates or sanitises: no colon, no brace.\<close>

definition plain_id :: "string \<Rightarrow> bool" where
  "plain_id s \<longleftrightarrow> colon_free s \<and> CHR ''{'' \<notin> set s \<and> CHR ''}'' \<notin> set s"

definition plain_env :: "rq_env \<Rightarrow> bool" where
  "plain_env env \<longleftrightarrow> plain_id (env_id env) \<and> plain_id (project_id env) \<and> plain_id (organization_id env)"

lemma plain_envD:
  assumes "plain_env env"
  shows "colon_free (env_id env)" "colon_free (project_id env)" "colon_free (organization_id env)"
    "CHR ''{'' \<notin> set (organization_id env)" "CHR ''}'' \<notin> set (organization_id env)"
  using assms by (auto simp: plain_env_def plain_id_def)

lemma given_cases: "given ck = None \<or> (\<exists>c cs. given ck = Some (c # cs) \<and> ck = Some (c # cs))"
  by (cases ck rule: given.cases) auto

lemma given_idem [simp]: "given (given ck) = given ck"
  by (cases ck rule: given.cases) auto

definition env_parts :: "rq_env \<Rightarrow> string list" where
  "env_parts env = [''{org'', organization_id env @ ''}'', ''proj'', project_id env, ''env'', env_id env]"

definition ck_parts :: "string option \<Rightarrow> string list" where
  "ck_parts ck = (case given ck of None \<Rightarrow> [] | Some c \<Rightarrow> ''ck'' # split_on colon c)"

lemma split_sections:
  "split_on colon (envKeySection e) = ''env'' # split_on colon e"
  "split_on colon (projKeySection p) = ''proj'' # split_on colon p"
  "split_on colon (queueSection q) = ''queue'' # split_on colon q"
  "split_on colon (concurrencyKeySection c) = ''ck'' # split_on colon c"
  "split_on colon (orgKeySection orgId) = ''{org'' # split_on colon (orgId @ ''}'')"
  using split_on_prefix [of colon "''env''" e] split_on_prefix [of colon "''proj''" p]
    split_on_prefix [of colon "''queue''" q] split_on_prefix [of colon "''ck''" c]
    split_on_prefix [of colon "''{org''" "orgId @ ''}''"]
  by (simp_all add: envKeySection_def projKeySection_def queueSection_def concurrencyKeySection_def
      orgKeySection_def del: split_on.simps)

lemma split_env_key:
  assumes "plain_env env" and "colon_free part"
  shows "split_on colon (env_key env part) = env_parts env @ [part]"
  using plain_envD [OF assms(1)] assms(2)
  by (simp add: env_key_def split_on_join split_sections env_parts_def del: join_with.simps)

lemma split_queueKey:
  assumes "plain_env env" and "colon_free queue"
  shows "split_on colon (queueKey env queue ck) = env_parts env @ [''queue'', queue] @ ck_parts ck"
  using plain_envD [OF assms(1)] assms(2)
  by (cases "given ck")
    (simp_all add: queueKey_def split_on_join split_sections env_parts_def ck_parts_def
      del: join_with.simps)

lemma split_queue_suffix:
  assumes "plain_env env" and "colon_free queue" and "colon_free part"
  shows "split_on colon (queueKey env queue ck @ '':'' @ part) =
    env_parts env @ [''queue'', queue] @ ck_parts ck @ [part]"
  using split_queueKey [OF assms(1,2), of ck] assms(3) by (simp add: split_on_append_sep)

lemma env_parts_inject: "env_parts env = env_parts env' \<longleftrightarrow> env = env'"
  by (cases env; cases env') (auto simp: env_parts_def)

lemma ck_parts_inject: "ck_parts ck = ck_parts ck' \<longleftrightarrow> given ck = given ck'"
  by (auto simp: ck_parts_def split: option.splits)

lemma env_parts_append_inject:
  "env_parts env @ xs = env_parts env' @ ys \<longleftrightarrow> env = env' \<and> xs = ys"
  by (cases env; cases env') (auto simp: env_parts_def)

lemma js_nth_parts:
  "js_nth (env_parts env @ xs) (Suc 0) = Some (organization_id env @ ''}'')"
  "js_nth (env_parts env @ xs) 3 = Some (project_id env)"
  "js_nth (env_parts env @ xs) 5 = Some (env_id env)"
  "js_nth (env_parts env @ q # x # xs) 7 = Some x"
  "js_nth (env_parts env @ q # x # c # xs) 9 = js_nth xs 0"
  by (simp_all add: js_nth_def env_parts_def numeral_eq_Suc)

lemma descriptorFromQueue_queueKey:
  assumes "plain_env env" and "colon_free queue"
  shows "descriptorFromQueue (queueKey env queue ck) =
    Some \<lparr>d_orgId = organization_id env, d_projectId = Some (project_id env), d_envId = Some (env_id env),
      d_queue = Some queue, d_concurrencyKey = map_option (\<lambda>c. hd (split_on colon c)) (given ck)\<rparr>"
proof (cases "given ck")
  case None
  have "js_nth (env_parts env @ [''queue'', queue]) 9 = None"
    by (simp add: js_nth_def env_parts_def)
  then show ?thesis
    using plain_envD [OF assms(1)] None
    by (simp add: descriptorFromQueue_def Let_def split_queueKey [OF assms] ck_parts_def js_nth_parts
        remove1_append)
next
  case (Some c)
  have "js_nth (split_on colon c) 0 = Some (hd (split_on colon c))"
    by (simp add: js_nth_def hd_conv_nth)
  then show ?thesis
    using plain_envD [OF assms(1)] Some
    by (simp add: descriptorFromQueue_def Let_def split_queueKey [OF assms] ck_parts_def js_nth_parts
        remove1_append del: split_on.simps)
qed

lemma env_from_queueKey:
  assumes "plain_env env" and "colon_free queue"
  shows "env_from_queue (queueKey env queue ck) = Some env"
  by (simp add: env_from_queue_def descriptorFromQueue_queueKey [OF assms] descriptor_env_def js_str_def)

lemma keys_from_queueKey:
  assumes "plain_env env" and "colon_free queue"
  shows "envQueueKeyFromQueue (queueKey env queue ck) = Some (envQueueKey env)"
    "envConcurrencyLimitKeyFromQueue (queueKey env queue ck) = Some (envConcurrencyLimitKey env)"
    "envConcurrencyLimitBurstFactorKeyFromQueue (queueKey env queue ck) =
       Some (envConcurrencyLimitBurstFactorKey env)"
    "envCurrentConcurrencyKeyFromQueue (queueKey env queue ck) = Some (envCurrentConcurrencyKey env)"
    "envCurrentDequeuedKeyFromQueue (queueKey env queue ck) = Some (envCurrentDequeuedKey env)"
    "deadLetterQueueKeyFromQueue (queueKey env queue ck) = Some (deadLetterQueueKey env)"
    "messageKeyPrefixFromQueue (queueKey env queue ck) =
       Some (orgKeySection (organization_id env) @ '':message:'')"
  by (simp_all add: envQueueKeyFromQueue_def envConcurrencyLimitKeyFromQueue_def
      envConcurrencyLimitBurstFactorKeyFromQueue_def envCurrentConcurrencyKeyFromQueue_def
      envCurrentDequeuedKeyFromQueue_def deadLetterQueueKeyFromQueue_def messageKeyPrefixFromQueue_def
      env_from_queueKey [OF assms] descriptorFromQueue_queueKey [OF assms])

lemma messageKey_unfold: "messageKey orgId messageId = orgKeySection orgId @ '':message:'' @ messageId"
  by (simp add: messageKey_def orgKeySection_def)

lemma messageKey_inject [simp]: "messageKey orgId m = messageKey orgId m' \<longleftrightarrow> m = m'"
  by (simp add: messageKey_unfold)

lemma queue_suffix_keys:
  "queueCurrentConcurrencyKeyFromQueue (queueKey env queue ck) = queueCurrentConcurrencyKey env queue ck"
  "queueCurrentDequeuedKeyFromQueue (queueKey env queue ck) = queueCurrentDequeuedKey env queue ck"
  by (simp_all add: queueCurrentConcurrencyKeyFromQueue_def queueCurrentDequeuedKeyFromQueue_def
      queueCurrentConcurrencyKey_def queueCurrentDequeuedKey_def)

subsection \<open>The limit key of a queue\<close>

lemma strip_ck_free: "colon_free a \<Longrightarrow> strip_ck (a @ r) = a @ strip_ck r"
  by (induction a) auto

lemma strip_ck_part:
  assumes "colon_free p" and "p \<noteq> ''ck''" and "r = [] \<or> hd r = colon"
  shows "strip_ck (colon # p @ r) = colon # p @ strip_ck r"
proof -
  have "take 4 (colon # p @ r) \<noteq> '':ck:''"
  proof (cases p)
    case Nil
    then show ?thesis using assms(3) by (cases r) auto
  next
    case (Cons a p')
    show ?thesis
    proof (cases p')
      case Nil
      then show ?thesis using Cons assms(3) by (cases r) auto
    next
      case (Cons b p'')
      then show ?thesis using \<open>p = a # p'\<close> assms by (cases p''; cases r) auto
    qed
  qed
  then show ?thesis using strip_ck_free [OF assms(1)] by simp
qed

lemma strip_ck_hit:
  assumes "c \<noteq> []" and "CHR 0x0A \<notin> set c" and "CHR 0x0D \<notin> set c"
  shows "strip_ck ('':ck:'' @ c) = []"
  using assms by simp

lemma strip_ck_parts:
  assumes "\<forall>p \<in> set ps. colon_free p \<and> p \<noteq> ''ck''" and "r = [] \<or> hd r = colon"
  shows "strip_ck (concat (map ((#) colon) ps) @ r) = concat (map ((#) colon) ps) @ strip_ck r"
  using assms(1)
proof (induction ps)
  case (Cons p ps)
  have "concat (map ((#) colon) ps) @ r = [] \<or> hd (concat (map ((#) colon) ps) @ r) = colon"
    using assms(2) by (cases ps) auto
  then show ?case
    using Cons strip_ck_part [of p "concat (map ((#) colon) ps) @ r"] by (simp del: strip_ck.simps)
qed simp

lemma queueKey_flat:
  "queueKey env queue ck = ''{org'' @ concat (map ((#) colon) (tl (env_parts env) @ [''queue'', queue])) @
     (case given ck of None \<Rightarrow> [] | Some c \<Rightarrow> '':ck:'' @ c)"
  by (simp add: key_defs env_parts_def split: option.split)

lemma strip_ck_queueKey:
  assumes "plain_env env" and "colon_free queue"
    and "project_id env \<noteq> ''ck''" "env_id env \<noteq> ''ck''" "queue \<noteq> ''ck''"
    and "\<forall>c. given ck = Some c \<longrightarrow> CHR 0x0A \<notin> set c \<and> CHR 0x0D \<notin> set c"
  shows "strip_ck (queueKey env queue ck) = queueKey env queue None"
proof -
  let ?r = "case given ck of None \<Rightarrow> [] | Some c \<Rightarrow> '':ck:'' @ c"
  let ?ps = "tl (env_parts env) @ [''queue'', queue]"
  have tail: "strip_ck ?r = []" "?r = [] \<or> hd ?r = colon"
    using assms(6) given_cases [of ck] by (auto split: option.splits)
  have "\<forall>p \<in> set ?ps. colon_free p \<and> p \<noteq> ''ck''"
    using assms plain_envD [OF assms(1)] by (auto simp: env_parts_def append_eq_Cons_conv)
  from strip_ck_parts [OF this tail(2)] tail(1)
  have "strip_ck (concat (map ((#) colon) ?ps) @ ?r) = concat (map ((#) colon) ?ps)" by simp
  moreover have "strip_ck (queueKey env queue ck) = ''{org'' @ strip_ck (concat (map ((#) colon) ?ps) @ ?r)"
    unfolding queueKey_flat by (rule strip_ck_free) simp
  ultimately show ?thesis by (simp add: queueKey_flat [of env queue None])
qed

subsection \<open>Properties\<close>

text \<open>The descriptor of a queue key gives back the identifiers it was built from, with and
  without a concurrency key, for identifiers without colons and braces and a concurrency key without
  colons.\<close>

theorem descriptorFromQueue_roundtrip:
  assumes "plain_env env" and "colon_free queue" and "\<forall>c. ck = Some c \<longrightarrow> colon_free c"
  shows "descriptorFromQueue (queueKey env queue ck) =
    Some \<lparr>d_orgId = organization_id env, d_projectId = Some (project_id env), d_envId = Some (env_id env),
      d_queue = Some queue, d_concurrencyKey = given ck\<rparr>"
proof (cases "given ck")
  case None
  then show ?thesis by (simp add: descriptorFromQueue_queueKey [OF assms(1,2)])
next
  case (Some c)
  then have "colon_free c" using assms(3) given_cases [of ck] by auto
  then show ?thesis using Some by (simp add: descriptorFromQueue_queueKey [OF assms(1,2)])
qed

definition demo_env :: rq_env where
  "demo_env = \<lparr>env_id = ''e1'', project_id = ''p1'', organization_id = ''o1''\<rparr>"

lemma plain_demo_env: "plain_env demo_env"
  by (simp add: demo_env_def plain_env_def plain_id_def)

theorem descriptorFromQueue_roundtrip_witness:
  "descriptorFromQueue (queueKey demo_env ''emails'' (Some ''user1'')) =
    Some \<lparr>d_orgId = ''o1'', d_projectId = Some ''p1'', d_envId = Some ''e1'', d_queue = Some ''emails'',
      d_concurrencyKey = Some ''user1''\<rparr>"
  using descriptorFromQueue_roundtrip [OF plain_demo_env, of "''emails''" "Some ''user1''"]
  by (simp add: demo_env_def)





text \<open>The limit key of a queue that is named \<open>ck\<close> and used with a concurrency key is not the key
  the limit is stored under: the pattern that strips the concurrency key matches the queue's name.\<close>

theorem limit_key_of_queue_named_ck:
  "queueConcurrencyLimitKeyFromQueue (queueKey demo_env ''ck'' (Some ''user1'')) \<noteq>
     queueConcurrencyLimitKey demo_env ''ck''"
  by (simp add: demo_env_def key_defs queueConcurrencyLimitKeyFromQueue_def)

end
