(* ===== verification/Retries.thy ===== *)
theory Retries
  imports Prelude
begin

text \<open>
  Exponential backoff (\<open>calculateNextRetryDelay\<close> in \<open>packages/core/src/v3/utils/retries.ts\<close>), used by the
  run queue, the run engine and the tasks themselves.

  Arithmetic on doubles is exact rational arithmetic rounded by \<open>fl\<close>; \<open>Math.pow\<close>, whose accuracy the
  language leaves open, is the argument \<open>pow\<close>; \<open>Math.random()\<close> is the argument \<open>rnd\<close>.
\<close>

record retry_options =
  maxAttempts :: "int option"
  factor :: "rat option"
  minTimeoutInMs :: "rat option"
  maxTimeoutInMs :: "rat option"
  randomize :: "bool option"

definition with_default :: "'a option \<Rightarrow> 'a \<Rightarrow> 'a" where
  "with_default v d = (case v of None \<Rightarrow> d | Some x \<Rightarrow> x)"

lemma with_default_simps [simp]: "with_default None d = d" "with_default (Some x) d = x"
  by (simp_all add: with_default_def)

text \<open>\<open>defaultRetryOptions\<close> of the same file.\<close>

definition defaultRetryOptions :: retry_options where
  "defaultRetryOptions = \<lparr>maxAttempts = Some 3, factor = Some 2, minTimeoutInMs = Some 1000,
     maxTimeoutInMs = Some 60000, randomize = Some True\<rparr>"

text \<open>\<open>{ ...defaultRetryOptions, ...options }\<close>.\<close>

definition merge_options :: "retry_options \<Rightarrow> retry_options \<Rightarrow> retry_options" where
  "merge_options d opts =
     \<lparr>maxAttempts = (case maxAttempts opts of None \<Rightarrow> maxAttempts d | x \<Rightarrow> x),
      factor = (case factor opts of None \<Rightarrow> factor d | x \<Rightarrow> x),
      minTimeoutInMs = (case minTimeoutInMs opts of None \<Rightarrow> minTimeoutInMs d | x \<Rightarrow> x),
      maxTimeoutInMs = (case maxTimeoutInMs opts of None \<Rightarrow> maxTimeoutInMs d | x \<Rightarrow> x),
      randomize = (case randomize opts of None \<Rightarrow> randomize d | x \<Rightarrow> x)\<rparr>"

text \<open>\<open>Math.round\<close>: to the nearest integer, halves upwards.\<close>

definition js_round :: "rat \<Rightarrow> int" where
  "js_round x = \<lfloor>x + 1 / 2\<rfloor>"

definition calculateNextRetryDelay ::
    "(rat \<Rightarrow> rat) \<Rightarrow> (rat \<Rightarrow> int \<Rightarrow> rat) \<Rightarrow> retry_options \<Rightarrow> int \<Rightarrow> rat \<Rightarrow> int option" where
  "calculateNextRetryDelay fl pow options attempt rnd =
     (let opts = merge_options defaultRetryOptions options in
      if attempt \<ge> the (maxAttempts opts) then None
      else
        (let random = (if the (randomize opts) then fl (rnd + 1) else 1);
             timeout = min (the (maxTimeoutInMs opts))
               (fl (fl (random * the (minTimeoutInMs opts)) * pow (the (factor opts)) (attempt - 1)))
         in Some (js_round timeout)))"

subsection \<open>Properties\<close>

text \<open>What the code relies on of \<open>Math.pow\<close> for a growing backoff.\<close>

definition pow_grows :: "(rat \<Rightarrow> int \<Rightarrow> rat) \<Rightarrow> bool" where
  "pow_grows pow \<longleftrightarrow> (\<forall>f n. 1 \<le> f \<longrightarrow> 0 \<le> n \<longrightarrow> 1 \<le> pow f n)"

lemma js_round_mono: "x \<le> y \<Longrightarrow> js_round x \<le> js_round y"
  by (simp add: js_round_def floor_mono)

lemma js_round_int [simp]: "js_round (of_int i) = i"
proof -
  have "of_int i \<le> of_int i + (1 / 2 :: rat)" "of_int i + (1 / 2 :: rat) < of_int i + 1" by simp_all
  then show ?thesis unfolding js_round_def by (rule floor_unique)
qed

text \<open>The unrounded timeout is at least the minimum timeout.\<close>

lemma timeout_lower:
  assumes fl: "rounds_doubles fl" and pow: "1 \<le> p" and r: "1 \<le> r" and m: "0 \<le> m" "m \<le> 2 ^ 53"
  shows "of_int m \<le> fl (fl (r * of_int m) * p)"
proof -
  have fm: "fl (of_int m) = of_int m" using rounds_doubles_int [OF fl, of m] m by simp
  have mono: "x \<le> y \<Longrightarrow> fl x \<le> fl y" for x y using fl by (simp add: rounds_doubles_def monoD)
  have "of_int m \<le> r * of_int m" using r m by (simp add: mult_le_cancel_right1)
  then have a: "of_int m \<le> fl (r * of_int m)" using mono fm by metis
  have "0 \<le> fl (r * of_int m)" using a m by (meson of_int_0_le_iff order_trans)
  then have "fl (r * of_int m) \<le> fl (r * of_int m) * p" using pow by (simp add: mult_le_cancel_left1)
  with a have "of_int m \<le> fl (r * of_int m) * p" by simp
  then show ?thesis using mono fm by metis
qed

text \<open>Backoff bounds: no delay once the attempts are used up; otherwise a delay that is never
  above the maximum timeout and, for a growth factor of at least one, never below the minimum.\<close>

theorem calculateNextRetryDelay_bounds:
  assumes fl: "rounds_doubles fl" and pow: "pow_grows pow" and rnd: "0 \<le> rnd"
    and opts: "options = \<lparr>maxAttempts = Some a, factor = Some f, minTimeoutInMs = Some (of_int lo),
      maxTimeoutInMs = Some (of_int hi), randomize = rz\<rparr>"
    and "1 \<le> f" and "0 \<le> lo" and "lo \<le> hi" and "hi \<le> 2 ^ 53" and "1 \<le> attempt"
  shows "case calculateNextRetryDelay fl pow options attempt rnd of
      None \<Rightarrow> attempt \<ge> a
    | Some delay \<Rightarrow> attempt < a \<and> lo \<le> delay \<and> delay \<le> hi"
proof (cases "attempt \<ge> a")
  case True
  then show ?thesis by (simp add: calculateNextRetryDelay_def merge_options_def opts)
next
  case False
  define r where "r = (if with_default rz True then fl (rnd + 1) else 1)"
  have mono: "x \<le> y \<Longrightarrow> fl x \<le> fl y" for x y using fl by (simp add: rounds_doubles_def monoD)
  have "fl 1 \<le> fl (rnd + 1)" using rnd by (intro mono) simp
  then have r: "1 \<le> r" using rounds_doubles_int [OF fl, of 1] by (simp add: r_def)
  define t where "t = fl (fl (r * of_int lo) * pow f (attempt - 1))"
  have "1 \<le> pow f (attempt - 1)" using pow assms(5,9) by (simp add: pow_grows_def)
  then have "of_int lo \<le> t" unfolding t_def using timeout_lower [OF fl _ r] assms(6-8) by simp
  then have "of_int lo \<le> min (of_int hi) t" "min (of_int hi) t \<le> of_int hi" using assms(7) by simp_all
  then have "lo \<le> js_round (min (of_int hi) t)" "js_round (min (of_int hi) t) \<le> hi"
    using js_round_mono js_round_int by metis+
  moreover have "calculateNextRetryDelay fl pow options attempt rnd = Some (js_round (min (of_int hi) t))"
    using False by (cases rz) (simp_all add: calculateNextRetryDelay_def merge_options_def opts Let_def
        t_def r_def defaultRetryOptions_def)
  ultimately show ?thesis using False by simp
qed

theorem calculateNextRetryDelay_bounds_witness:
  "case calculateNextRetryDelay (\<lambda>q. q) (\<lambda>f n. f ^ nat n) \<lparr>maxAttempts = Some 12, factor = Some 2,
      minTimeoutInMs = Some (of_int 1000), maxTimeoutInMs = Some (of_int 3600000), randomize = Some False\<rparr> 3 0 of
      None \<Rightarrow> (3::int) \<ge> 12 | Some delay \<Rightarrow> 3 < (12::int) \<and> 1000 \<le> delay \<and> delay \<le> 3600000"
  by (rule calculateNextRetryDelay_bounds [where f = 2])
    (simp_all add: rounds_doubles_id pow_grows_def)

end
