(* ===== verification/Run_Queue.thy ===== *)
theory Run_Queue
  imports Run_Queue_Scripts Run_Queue_Keys Retries
begin

text \<open>
  The \<open>RunQueue\<close> class (\<open>internal-packages/run-engine/src/run-queue/index.ts\<close>) and the worker queue
  resolver (\<open>workerQueueResolver.ts\<close>): the public operations that the run engine calls, composed of the
  scripts of \<open>Run_Queue_Scripts\<close> and the keys of \<open>Run_Queue_Keys\<close> the way the class composes them.

  What the class reads from outside is in the record \<open>rq_deps\<close>: the Redis server, the JSON codec
  (\<open>JSON.stringify\<close>, \<open>JSON.parse\<close>, the schema check, and the server's \<open>cjson.decode\<close>), the shard hash,
  the rounding of doubles, \<open>Math.pow\<close>, and the \<open>enqueueOnce\<close> of the background worker. Its options are
  the record \<open>rq_options\<close>. Clock readings, random numbers and the server's \<open>TIME\<close> are arguments.
  ioredis puts \<open>keyPrefix\<close> before every key of a command and of a script (\<open>pk\<close>); script arguments are
  passed as they are. Logging and tracing have no effect on the state and are left out.
\<close>

subsection \<open>Messages\<close>

record input_payload =
  p_runId :: string
  p_taskIdentifier :: string
  p_orgId :: string
  p_projectId :: string
  p_environmentId :: string
  p_environmentType :: environment_type
  p_queue :: string
  p_concurrencyKey :: "string option"
  p_timestamp :: int
  p_attempt :: int

text \<open>\<open>OutputPayloadV1\<close> carries \<open>masterQueues\<close>, \<open>OutputPayloadV2\<close> carries \<open>workerQueue\<close>.\<close>

datatype payload_version = V1 "string list" | V2 string

record output_payload = input_payload +
  p_version :: payload_version

record worker_queue_overrides =
  o_environmentId :: "(string \<times> string) list option"
  o_projectId :: "(string \<times> string) list option"
  o_orgId :: "(string \<times> string) list option"
  o_workerQueue :: "(string \<times> string) list option"

datatype queue_cooloff_state = Normal nat | Cooloff time

record rq_options =
  keyPrefix :: string
  shardCount :: int
  defaultEnvConcurrency :: int
  defaultEnvConcurrencyBurstFactor :: string
  processWorkerQueueDebounceMs :: "int option"
  masterQueueCooloffCountThreshold :: "nat option"
  masterQueueCooloffPeriodMs :: "int option"
  retryOptions :: retry_options
  overrides :: "worker_queue_overrides option"

record ('s, 'w) rq_deps =
  srv :: "'s redis"
  stringify :: "output_payload \<Rightarrow> string"
  json_parse :: "string \<Rightarrow> output_payload option"
  schema_ok :: "string \<Rightarrow> bool"
  cjson_decode :: "string \<Rightarrow> (string \<times> string) option"
  shard_hash :: "string \<Rightarrow> int \<Rightarrow> int option"
  fl :: "rat \<Rightarrow> rat"
  pow :: "rat \<Rightarrow> int \<Rightarrow> rat"
  enqueue_once :: "string \<Rightarrow> key \<Rightarrow> string \<Rightarrow> time \<Rightarrow> 'w \<Rightarrow> 'w"

text \<open>The state: the queue's keyspace, the background worker's queue, and the cool-off map.\<close>

record ('s, 'w) rq_state =
  rq_redis :: 's
  rq_worker :: 'w
  rq_cooloff :: "key \<Rightarrow> queue_cooloff_state option"

definition pk :: "rq_options \<Rightarrow> key \<Rightarrow> key" where
  "pk opts k = keyPrefix opts @ k"

definition defaultRetrySettings :: retry_options where
  "defaultRetrySettings = \<lparr>maxAttempts = Some 12, factor = Some 2, minTimeoutInMs = Some 1000,
     maxTimeoutInMs = Some 3600000, randomize = Some True\<rparr>"

subsection \<open>The worker queue of a message\<close>

text \<open>\<open>record?.[id]\<close> where the entry counts only when it is truthy.\<close>

definition override_for :: "(string \<times> string) list option \<Rightarrow> string \<Rightarrow> string option" where
  "override_for m k = Option.bind m (\<lambda>l. given (map_of l k))"

definition getOverride :: "worker_queue_overrides option \<Rightarrow> output_payload \<Rightarrow> string \<Rightarrow> string option" where
  "getOverride ov message workerQueue =
     (case ov of None \<Rightarrow> None
      | Some o' \<Rightarrow>
          (case override_for (o_environmentId o') (p_environmentId message) of Some q \<Rightarrow> Some q
           | None \<Rightarrow>
          (case override_for (o_projectId o') (p_projectId message) of Some q \<Rightarrow> Some q
           | None \<Rightarrow>
          (case override_for (o_orgId o') (p_orgId message) of Some q \<Rightarrow> Some q
           | None \<Rightarrow> override_for (o_workerQueue o') workerQueue))))"

text \<open>\<open>None\<close> is \<open>undefined\<close>: a version 1 message with no master queue.\<close>

definition getWorkerQueueFromMessage :: "rq_options \<Rightarrow> output_payload \<Rightarrow> string option" where
  "getWorkerQueueFromMessage opts message =
     (case p_version message of
        V2 workerQueue \<Rightarrow>
          (case getOverride (overrides opts) message workerQueue of
             Some q \<Rightarrow> Some q
           | None \<Rightarrow> Some workerQueue)
      | V1 masterQueues \<Rightarrow>
          if p_environmentType message = DEVELOPMENT then Some (p_environmentId message)
          else js_nth masterQueues 0)"

text \<open>\<open>[part, undefined].join(":")\<close> joins with the empty string.\<close>

definition workerQueueKeyOf :: "string option \<Rightarrow> key" where
  "workerQueueKeyOf q = workerQueueKey (case q of None \<Rightarrow> [] | Some w \<Rightarrow> w)"

subsection \<open>Reading and enqueueing\<close>

definition readMessage :: "('s, 'w) rq_deps \<Rightarrow> rq_options \<Rightarrow> string \<Rightarrow> string \<Rightarrow> 's \<Rightarrow> output_payload option" where
  "readMessage d opts orgId messageId s =
     Option.bind (rGET (srv d) (pk opts (messageKey orgId messageId)) s) (json_parse d)"

text \<open>The keys a script about one message receives, in the order the calls compute them; a key
  producer that throws stops the call.\<close>

record message_keys =
  k_master :: key
  k_message :: key
  k_queue :: key
  k_queueCC :: key
  k_envCC :: key
  k_queueCD :: key
  k_envCD :: key
  k_envQueue :: key
  k_deadLetter :: key

definition messageKeys :: "('s, 'w) rq_deps \<Rightarrow> rq_options \<Rightarrow> output_payload \<Rightarrow> message_keys option" where
  "messageKeys d opts message =
     do {
       let q = p_queue message;
       envCC \<leftarrow> envCurrentConcurrencyKeyFromQueue q;
       envCD \<leftarrow> envCurrentDequeuedKeyFromQueue q;
       envQ \<leftarrow> envQueueKeyFromQueue q;
       dlq \<leftarrow> deadLetterQueueKeyFromQueue q;
       master \<leftarrow> masterQueueKeyForEnvironment (shard_hash d) (p_environmentId message) (shardCount opts);
       Some \<lparr>k_master = pk opts master,
         k_message = pk opts (messageKey (p_orgId message) (p_runId message)),
         k_queue = pk opts q,
         k_queueCC = pk opts (queueCurrentConcurrencyKeyFromQueue q),
         k_envCC = pk opts envCC,
         k_queueCD = pk opts (queueCurrentDequeuedKeyFromQueue q),
         k_envCD = pk opts envCD,
         k_envQueue = pk opts envQ,
         k_deadLetter = pk opts dlq\<rparr>
     }"

definition callEnqueueMessage :: "('s, 'w) rq_deps \<Rightarrow> rq_options \<Rightarrow> output_payload \<Rightarrow> 's \<Rightarrow> rq_error + 's" where
  "callEnqueueMessage d opts message s =
     (case messageKeys d opts message of
        None \<Rightarrow> Inl TypeError
      | Some k \<Rightarrow> Inr (enqueueMessage_script (srv d) (k_master k) (k_queue k) (k_message k) (k_queueCC k)
          (k_envCC k) (k_queueCD k) (k_envCD k) (k_envQueue k)
          (p_queue message) (p_runId message) (stringify d message) (p_timestamp message) s))"

text \<open>The debounced job that moves a queue's messages on to the worker queues.\<close>

definition scheduleProcessing ::
    "('s, 'w) rq_deps \<Rightarrow> rq_options \<Rightarrow> bool \<Rightarrow> time \<Rightarrow> key \<Rightarrow> string \<Rightarrow> ('s, 'w) rq_state \<Rightarrow> ('s, 'w) rq_state" where
  "scheduleProcessing d opts skip now q envId st =
     (if skip then st
      else st\<lparr>rq_worker := enqueue_once d q q envId
             (now + with_default (processWorkerQueueDebounceMs opts) 500) (rq_worker st)\<rparr>)"

definition output_of :: "input_payload \<Rightarrow> key \<Rightarrow> string \<Rightarrow> output_payload" where
  "output_of message q workerQueue =
     \<lparr>p_runId = p_runId message, p_taskIdentifier = p_taskIdentifier message, p_orgId = p_orgId message,
      p_projectId = p_projectId message, p_environmentId = p_environmentId message,
      p_environmentType = p_environmentType message, p_queue = q, p_concurrencyKey = p_concurrencyKey message,
      p_timestamp = p_timestamp message, p_attempt = 0, p_version = V2 workerQueue\<rparr>"

definition enqueueMessage ::
    "('s, 'w) rq_deps \<Rightarrow> rq_options \<Rightarrow> time \<Rightarrow> rq_env \<Rightarrow> input_payload \<Rightarrow> string \<Rightarrow> bool \<Rightarrow>
     ('s, 'w) rq_state \<Rightarrow> rq_error + ('s, 'w) rq_state" where
  "enqueueMessage d opts now env message workerQueue skipDequeueProcessing st =
     (let q = queueKey env (p_queue message) (p_concurrencyKey message);
          messagePayload = output_of message q workerQueue;
          st = scheduleProcessing d opts skipDequeueProcessing now q (env_id env) st
      in case callEnqueueMessage d opts messagePayload (rq_redis st) of
           Inl e \<Rightarrow> Inl e
         | Inr s \<Rightarrow> Inr (st\<lparr>rq_redis := s\<rparr>))"

subsection \<open>From the queues to the worker queues\<close>

record dequeued_message =
  m_messageId :: string
  m_messageScore :: int
  m_message :: output_payload

text \<open>Parsing the flat result of the dequeue script: \<open>JSON.parse\<close> throws on text that is not JSON, a
  message that does not fit the schema is skipped.\<close>

fun parse_results :: "('s, 'w) rq_deps \<Rightarrow> (string \<times> int \<times> string) list \<Rightarrow> rq_error + dequeued_message list" where
  "parse_results d [] = Inr []"
| "parse_results d ((messageId, messageScore, rawMessage) # rest) =
     (case json_parse d rawMessage of
        None \<Rightarrow> Inl SyntaxError
      | Some message \<Rightarrow>
          (case parse_results d rest of
             Inl e \<Rightarrow> Inl e
           | Inr ms \<Rightarrow>
               Inr (if schema_ok d rawMessage
                    then \<lparr>m_messageId = messageId, m_messageScore = messageScore, m_message = message\<rparr> # ms
                    else ms)))"

text \<open>The keyspace is returned beside the outcome: a parse error is thrown after the script has run.\<close>

definition callDequeueMessagesFromQueue ::
    "('s, 'w) rq_deps \<Rightarrow> rq_options \<Rightarrow> time \<Rightarrow> key \<Rightarrow> int \<Rightarrow> int \<Rightarrow> 's \<Rightarrow>
     (rq_error + dequeued_message list) \<times> 's" where
  "callDequeueMessagesFromQueue d opts now messageQueue shard maxCount s =
     (case (envConcurrencyLimitKeyFromQueue messageQueue, envConcurrencyLimitBurstFactorKeyFromQueue messageQueue,
            envCurrentConcurrencyKeyFromQueue messageQueue, messageKeyPrefixFromQueue messageQueue,
            envQueueKeyFromQueue messageQueue) of
        (Some envLimit, Some envBurst, Some envCC, Some mprefix, Some envQ) \<Rightarrow>
          (case dequeueMessagesFromQueue_script (fl d) (srv d) (pk opts messageQueue)
             (pk opts (queueConcurrencyLimitKeyFromQueue messageQueue)) (pk opts envLimit) (pk opts envBurst)
             (pk opts (queueCurrentConcurrencyKeyFromQueue messageQueue)) (pk opts envCC) (pk opts mprefix)
             (pk opts envQ) (pk opts (masterQueueKeyForShard shard)) messageQueue now
             (int_to_string (defaultEnvConcurrency opts)) (defaultEnvConcurrencyBurstFactor opts) maxCount s of
             Inl e \<Rightarrow> (Inl e, s)
           | Inr (None, s) \<Rightarrow> (Inr [], s)
           | Inr (Some result, s) \<Rightarrow> (parse_results d result, s))
      | _ \<Rightarrow> (Inl TypeError, s))"

fun enqueueMessagesToWorkerQueues :: "('s, 'w) rq_deps \<Rightarrow> rq_options \<Rightarrow> dequeued_message list \<Rightarrow> 's \<Rightarrow> 's" where
  "enqueueMessagesToWorkerQueues d opts [] s = s"
| "enqueueMessagesToWorkerQueues d opts (message # messages) s =
     (let workerQueue = workerQueueKeyOf (getWorkerQueueFromMessage opts (m_message message));
          messageKeyValue = messageKey (p_orgId (m_message message)) (m_messageId message)
      in enqueueMessagesToWorkerQueues d opts messages (lRPUSH (srv d) (pk opts workerQueue) messageKeyValue s))"

text \<open>The job the background worker runs: ten messages at a time, again while a full batch came back.
  The recursion runs on fuel; \<open>None\<close> is running out of it.\<close>

fun processQueueForWorkerQueue ::
    "nat \<Rightarrow> ('s, 'w) rq_deps \<Rightarrow> rq_options \<Rightarrow> time \<Rightarrow> key \<Rightarrow> string \<Rightarrow> 's \<Rightarrow> ((rq_error + unit) \<times> 's) option" where
  "processQueueForWorkerQueue 0 d opts now q environmentId s = None"
| "processQueueForWorkerQueue (Suc fuel) d opts now q environmentId s =
     (case masterQueueShardForEnvironment (shard_hash d) environmentId (shardCount opts) of
        None \<Rightarrow> Some (Inl TypeError, s)
      | Some shard \<Rightarrow>
          (case callDequeueMessagesFromQueue d opts now q shard 10 s of
             (Inl e, s) \<Rightarrow> Some (Inl e, s)
           | (Inr messages, s) \<Rightarrow>
               if messages = [] then Some (Inr (), s)
               else
                 (let s = enqueueMessagesToWorkerQueues d opts messages s
                  in if length messages = 10
                     then processQueueForWorkerQueue fuel d opts now q environmentId s
                     else Some (Inr (), s))))"

subsection \<open>The master queue consumer and its cool-off\<close>

text \<open>One queue of a shard pass.\<close>

definition processShardQueue ::
    "('s, 'w) rq_deps \<Rightarrow> rq_options \<Rightarrow> time \<Rightarrow> int \<Rightarrow> int \<Rightarrow> key \<Rightarrow> ('s, 'w) rq_state \<Rightarrow> ('s, 'w) rq_state" where
  "processShardQueue d opts now shard maxCount q st =
     (let cooloffState = with_default (rq_cooloff st q) (Normal 0) in
      case cooloffState of
        Cooloff expiresAt \<Rightarrow>
          if expiresAt > now then st
          else
            (let st = st\<lparr>rq_cooloff := (rq_cooloff st)(q := None)\<rparr> in
             case callDequeueMessagesFromQueue d opts now q shard maxCount (rq_redis st) of
               (Inl e, s) \<Rightarrow> st\<lparr>rq_redis := s\<rparr>
             | (Inr messages, s) \<Rightarrow>
                 if messages = [] then st\<lparr>rq_redis := s\<rparr>
                 else st\<lparr>rq_redis := enqueueMessagesToWorkerQueues d opts messages s\<rparr>)
      | Normal consecutiveFailures \<Rightarrow>
          (case callDequeueMessagesFromQueue d opts now q shard maxCount (rq_redis st) of
             (Inl e, s) \<Rightarrow> st\<lparr>rq_redis := s\<rparr>
           | (Inr messages, s) \<Rightarrow>
               if messages = [] then
                 (let cooloffCountThreshold = max 1 (with_default (masterQueueCooloffCountThreshold opts) 10) in
                  if consecutiveFailures \<ge> cooloffCountThreshold
                  then st\<lparr>rq_redis := s, rq_cooloff := (rq_cooloff st)(q :=
                         Some (Cooloff (now + with_default (masterQueueCooloffPeriodMs opts) 10000)))\<rparr>
                  else st\<lparr>rq_redis := s, rq_cooloff := (rq_cooloff st)(q := Some (Normal (consecutiveFailures + 1)))\<rparr>)
               else st\<lparr>rq_redis := enqueueMessagesToWorkerQueues d opts messages s\<rparr>))"

text \<open>A pass over the environments and queues the selection strategy has chosen.\<close>

definition processMasterQueueShard ::
    "('s, 'w) rq_deps \<Rightarrow> rq_options \<Rightarrow> time \<Rightarrow> int \<Rightarrow> int \<Rightarrow> (string \<times> key list) list \<Rightarrow>
     ('s, 'w) rq_state \<Rightarrow> ('s, 'w) rq_state" where
  "processMasterQueueShard d opts now shard maxCount envQueues st =
     fold (\<lambda>(envId, queues). fold (processShardQueue d opts now shard maxCount) queues) envQueues st"

subsection \<open>Taking a message off a worker queue\<close>

definition dequeueMessageFromKey ::
    "('s, 'w) rq_deps \<Rightarrow> rq_options \<Rightarrow> key \<Rightarrow> 's \<Rightarrow> rq_error + output_payload option \<times> 's" where
  "dequeueMessageFromKey d opts mkey s =
     (case dequeueMessageFromKey_script (cjson_decode d) (srv d) (pk opts mkey) (keyPrefix opts) s of
        Inl e \<Rightarrow> Inl e
      | Inr (None, s) \<Rightarrow> Inr (None, s)
      | Inr (Some rawMessage, s) \<Rightarrow> Inr (json_parse d rawMessage, s))"

text \<open>A blocking pop that times out and a non-blocking pop of an empty list both give nothing.\<close>

definition dequeueMessageFromWorkerQueue ::
    "('s, 'w) rq_deps \<Rightarrow> rq_options \<Rightarrow> string \<Rightarrow> 's \<Rightarrow> (rq_error + dequeued_message option) \<times> 's" where
  "dequeueMessageFromWorkerQueue d opts workerQueue s =
     (case dequeueMessageFromWorkerQueueNonBlocking (srv d) (pk opts (workerQueueKey workerQueue)) s of
        (None, s) \<Rightarrow> (Inr None, s)
      | (Some (mkey, workerQueueLength), s) \<Rightarrow>
          (case dequeueMessageFromKey d opts mkey s of
             Inl e \<Rightarrow> (Inl e, s)
           | Inr (None, s) \<Rightarrow> (Inr None, s)
           | Inr (Some message, s) \<Rightarrow>
               (Inr (Some \<lparr>m_messageId = p_runId message, m_messageScore = p_timestamp message,
                 m_message = message\<rparr>), s)))"

subsection \<open>Acknowledging and returning a message\<close>

definition callAcknowledgeMessage ::
    "('s, 'w) rq_deps \<Rightarrow> rq_options \<Rightarrow> output_payload \<Rightarrow> bool \<Rightarrow> 's \<Rightarrow> rq_error + 's" where
  "callAcknowledgeMessage d opts message removeFromWorkerQueue s =
     (case messageKeys d opts message of
        None \<Rightarrow> Inl TypeError
      | Some k \<Rightarrow>
          Inr (acknowledgeMessage_script (srv d) (k_master k) (k_message k) (k_queue k) (k_queueCC k) (k_envCC k)
            (k_queueCD k) (k_envCD k) (k_envQueue k)
            (pk opts (workerQueueKeyOf (getWorkerQueueFromMessage opts message)))
            (p_runId message) (p_queue message) (messageKey (p_orgId message) (p_runId message))
            (if removeFromWorkerQueue then ''1'' else ''0'') s))"

definition acknowledgeMessage ::
    "('s, 'w) rq_deps \<Rightarrow> rq_options \<Rightarrow> time \<Rightarrow> string \<Rightarrow> string \<Rightarrow> bool \<Rightarrow> bool \<Rightarrow>
     ('s, 'w) rq_state \<Rightarrow> rq_error + ('s, 'w) rq_state" where
  "acknowledgeMessage d opts now orgId messageId skipDequeueProcessing removeFromWorkerQueue st =
     (case readMessage d opts orgId messageId (rq_redis st) of
        None \<Rightarrow> Inr st
      | Some message \<Rightarrow>
          (let st = scheduleProcessing d opts skipDequeueProcessing now (p_queue message) (p_environmentId message) st
           in case callAcknowledgeMessage d opts message removeFromWorkerQueue (rq_redis st) of
                Inl e \<Rightarrow> Inl e
              | Inr s \<Rightarrow> Inr (st\<lparr>rq_redis := s\<rparr>)))"

definition callNackMessage ::
    "('s, 'w) rq_deps \<Rightarrow> rq_options \<Rightarrow> time \<Rightarrow> rat \<Rightarrow> output_payload \<Rightarrow> time option \<Rightarrow> 's \<Rightarrow> rq_error + 's" where
  "callNackMessage d opts now rnd message retryAt s =
     (case messageKeys d opts message of
        None \<Rightarrow> Inl TypeError
      | Some k \<Rightarrow>
          (let nextRetryDelay = calculateNextRetryDelay (fl d) (pow d) (retryOptions opts) (p_attempt message) rnd;
               messageScore = (case retryAt of
                   Some t \<Rightarrow> t
                 | None \<Rightarrow> (case nextRetryDelay of
                     Some delay \<Rightarrow> if delay = 0 then now else now + delay
                   | None \<Rightarrow> now))
           in Inr (nackMessage_script (srv d) (k_master k) (k_message k) (k_queue k) (k_queueCC k) (k_envCC k)
             (k_queueCD k) (k_envCD k) (k_envQueue k)
             (p_runId message) (p_queue message) (stringify d message) messageScore s)))"

definition callMoveToDeadLetterQueue ::
    "('s, 'w) rq_deps \<Rightarrow> rq_options \<Rightarrow> int \<Rightarrow> output_payload \<Rightarrow> 's \<Rightarrow> rq_error + 's" where
  "callMoveToDeadLetterQueue d opts serverSeconds message s =
     (case messageKeys d opts message of
        None \<Rightarrow> Inl TypeError
      | Some k \<Rightarrow>
          Inr (moveToDeadLetterQueue_script serverSeconds (srv d) (k_master k) (k_message k) (k_queue k) (k_queueCC k)
            (k_envCC k) (k_queueCD k) (k_envCD k) (k_envQueue k) (k_deadLetter k)
            (p_runId message) (p_queue message) s))"

text \<open>The result: \<open>None\<close> is \<open>undefined\<close> (no such message), \<open>Some False\<close> a message moved to the dead
  letter queue, \<open>Some True\<close> a message queued again.\<close>

definition nackMessage ::
    "('s, 'w) rq_deps \<Rightarrow> rq_options \<Rightarrow> time \<Rightarrow> int \<Rightarrow> rat \<Rightarrow> string \<Rightarrow> string \<Rightarrow> time option \<Rightarrow> bool \<Rightarrow> bool \<Rightarrow>
     ('s, 'w) rq_state \<Rightarrow> rq_error + bool option \<times> ('s, 'w) rq_state" where
  "nackMessage d opts now serverSeconds rnd orgId messageId retryAt incrementAttemptCount skipDequeueProcessing st =
     (let maxA = with_default (maxAttempts (retryOptions opts)) (the (maxAttempts defaultRetrySettings)) in
      case readMessage d opts orgId messageId (rq_redis st) of
        None \<Rightarrow> Inr (None, st)
      | Some message0 \<Rightarrow>
          (let message = (if incrementAttemptCount then message0\<lparr>p_attempt := p_attempt message0 + 1\<rparr> else message0) in
           if incrementAttemptCount \<and> p_attempt message \<ge> maxA then
             (case callMoveToDeadLetterQueue d opts serverSeconds message (rq_redis st) of
                Inl e \<Rightarrow> Inl e
              | Inr s \<Rightarrow> Inr (Some False, st\<lparr>rq_redis := s\<rparr>))
           else
             (let st = scheduleProcessing d opts skipDequeueProcessing now (p_queue message) (p_environmentId message) st
              in case callNackMessage d opts now rnd message retryAt (rq_redis st) of
                   Inl e \<Rightarrow> Inl e
                 | Inr s \<Rightarrow> Inr (Some True, st\<lparr>rq_redis := s\<rparr>))))"

definition releaseAllConcurrency ::
    "('s, 'w) rq_deps \<Rightarrow> rq_options \<Rightarrow> string \<Rightarrow> string \<Rightarrow> 's \<Rightarrow> rq_error + 's" where
  "releaseAllConcurrency d opts orgId messageId s =
     (case readMessage d opts orgId messageId s of
        None \<Rightarrow> Inr s
      | Some message \<Rightarrow>
          (case (envCurrentConcurrencyKeyFromQueue (p_queue message), envCurrentDequeuedKeyFromQueue (p_queue message)) of
             (Some envCC, Some envCD) \<Rightarrow>
               Inr (releaseConcurrency (srv d) (pk opts (queueCurrentConcurrencyKeyFromQueue (p_queue message)))
                 (pk opts envCC) (pk opts (queueCurrentDequeuedKeyFromQueue (p_queue message))) (pk opts envCD) messageId s)
           | _ \<Rightarrow> Inl TypeError))"

definition clearMessageFromConcurrencySets ::
    "('s, 'w) rq_deps \<Rightarrow> rq_options \<Rightarrow> string \<Rightarrow> string \<Rightarrow> rq_env \<Rightarrow> 's \<Rightarrow> 's" where
  "clearMessageFromConcurrencySets d opts runId queue env s =
     clearMessageFromConcurrencySets_script (srv d) (pk opts (queueCurrentConcurrencyKey env queue None))
       (pk opts (envCurrentConcurrencyKey env)) (pk opts (queueCurrentDequeuedKey env queue None))
       (pk opts (envCurrentDequeuedKey env)) runId s"

subsection \<open>Redriving a dead message\<close>

text \<open>The fields of the published message have been checked to be strings. The stored message is put back
  with \<open>enqueueMessage\<close>, whose input takes the stored message's fields.\<close>

definition handleRedriveMessage ::
    "('s, 'w) rq_deps \<Rightarrow> rq_options \<Rightarrow> time \<Rightarrow> string \<Rightarrow> string \<Rightarrow> string \<Rightarrow> string \<Rightarrow>
     ('s, 'w) rq_state \<Rightarrow> rq_error + ('s, 'w) rq_state" where
  "handleRedriveMessage d opts now runId envId projectId orgId st =
     (case readMessage d opts orgId runId (rq_redis st) of
        None \<Rightarrow> Inr st
      | Some data \<Rightarrow>
          (let env = \<lparr>env_id = p_environmentId data, project_id = p_projectId data, organization_id = p_orgId data\<rparr>;
               message = \<lparr>p_runId = p_runId data, p_taskIdentifier = p_taskIdentifier data, p_orgId = p_orgId data,
                 p_projectId = p_projectId data, p_environmentId = p_environmentId data,
                 p_environmentType = p_environmentType data, p_queue = p_queue data,
                 p_concurrencyKey = p_concurrencyKey data, p_timestamp = p_timestamp data, p_attempt = 0\<rparr>
           in case enqueueMessage d opts now env message
                  (case getWorkerQueueFromMessage opts data of None \<Rightarrow> [] | Some w \<Rightarrow> w) False st of
                Inl e \<Rightarrow> Inl e
              | Inr st \<Rightarrow>
                  Inr (st\<lparr>rq_redis := zREM (srv d) (pk opts (deadLetterQueueKey
                     \<lparr>env_id = envId, project_id = projectId, organization_id = orgId\<rparr>)) runId (rq_redis st)\<rparr>)))"

subsection \<open>Limits\<close>

definition updateQueueConcurrencyLimits ::
    "('s, 'w) rq_deps \<Rightarrow> rq_options \<Rightarrow> rq_env \<Rightarrow> string \<Rightarrow> int \<Rightarrow> 's \<Rightarrow> 's" where
  "updateQueueConcurrencyLimits d opts env queue concurrency s =
     rSET (srv d) (pk opts (queueConcurrencyLimitKey env queue)) (int_to_string concurrency) s"

definition removeQueueConcurrencyLimits :: "('s, 'w) rq_deps \<Rightarrow> rq_options \<Rightarrow> rq_env \<Rightarrow> string \<Rightarrow> 's \<Rightarrow> 's" where
  "removeQueueConcurrencyLimits d opts env queue s = rDEL (srv d) (pk opts (queueConcurrencyLimitKey env queue)) s"

text \<open>\<open>Number(result)\<close>; \<open>Some None\<close> is \<open>NaN\<close>, \<open>None\<close> is \<open>undefined\<close>.\<close>

definition getQueueConcurrencyLimit ::
    "('s, 'w) rq_deps \<Rightarrow> rq_options \<Rightarrow> rq_env \<Rightarrow> string \<Rightarrow> 's \<Rightarrow> rat option option" where
  "getQueueConcurrencyLimit d opts env queue s =
     map_option (tonumber (fl d)) (given (rGET (srv d) (pk opts (queueConcurrencyLimitKey env queue)) s))"

definition updateEnvConcurrencyLimits ::
    "('s, 'w) rq_deps \<Rightarrow> rq_options \<Rightarrow> rq_env \<Rightarrow> int \<Rightarrow> string \<Rightarrow> 's \<Rightarrow> 's" where
  "updateEnvConcurrencyLimits d opts env maximumConcurrencyLimit concurrencyLimitBurstFactor s =
     updateEnvironmentConcurrencyLimits (srv d) (pk opts (envConcurrencyLimitKey env))
       (pk opts (envConcurrencyLimitBurstFactorKey env)) (int_to_string maximumConcurrencyLimit)
       concurrencyLimitBurstFactor s"

definition getEnvConcurrencyLimit :: "('s, 'w) rq_deps \<Rightarrow> rq_options \<Rightarrow> rq_env \<Rightarrow> 's \<Rightarrow> rat option" where
  "getEnvConcurrencyLimit d opts env s =
     (case given (rGET (srv d) (pk opts (envConcurrencyLimitKey env)) s) of
        None \<Rightarrow> Some (of_int (defaultEnvConcurrency opts))
      | Some result \<Rightarrow> tonumber (fl d) result)"

definition getEnvConcurrencyBurstFactor :: "('s, 'w) rq_deps \<Rightarrow> rq_options \<Rightarrow> rq_env \<Rightarrow> 's \<Rightarrow> rat option" where
  "getEnvConcurrencyBurstFactor d opts env s =
     (case given (rGET (srv d) (pk opts (envConcurrencyLimitBurstFactorKey env)) s) of
        None \<Rightarrow> tonumber (fl d) (defaultEnvConcurrencyBurstFactor opts)
      | Some result \<Rightarrow> tonumber (fl d) result)"

definition getEnvConcurrencyLimitWithBurstFactor :: "('s, 'w) rq_deps \<Rightarrow> rq_options \<Rightarrow> rq_env \<Rightarrow> 's \<Rightarrow> int option" where
  "getEnvConcurrencyLimitWithBurstFactor d opts env s =
     do {
       burstFactor \<leftarrow> getEnvConcurrencyBurstFactor d opts env s;
       limit \<leftarrow> getEnvConcurrencyLimit d opts env s;
       Some \<lfloor>fl d (limit * burstFactor)\<rfloor>
     }"

subsection \<open>The concurrency sweeper\<close>

text \<open>\<open>callback\<close> is the engine's check of which runs are complete; \<open>None\<close> when no sweeper is configured.
  The runs marked by one call share the clock reading \<open>now\<close>.\<close>

fun markRunsForAck :: "('s, 'w) rq_deps \<Rightarrow> rq_options \<Rightarrow> time \<Rightarrow> (string \<times> string) list \<Rightarrow> 's \<Rightarrow> 's" where
  "markRunsForAck d opts now [] s = s"
| "markRunsForAck d opts now ((runId, orgId) # runs) s =
     markRunsForAck d opts now runs (zADD (srv d) (pk opts markedForAckKey) now (orgId @ '':'' @ runId) s)"

definition processCurrentConcurrencyRunIds ::
    "('s, 'w) rq_deps \<Rightarrow> rq_options \<Rightarrow> (string list \<Rightarrow> (string \<times> string) list) option \<Rightarrow> time \<Rightarrow> string list \<Rightarrow> 's \<Rightarrow> 's" where
  "processCurrentConcurrencyRunIds d opts callback now runIds s =
     (case callback of
        None \<Rightarrow> s
      | Some cb \<Rightarrow> (let completedRuns = cb runIds in if completedRuns = [] then s else markRunsForAck d opts now completedRuns s))"

definition processMarkedRun ::
    "('s, 'w) rq_deps \<Rightarrow> rq_options \<Rightarrow> time \<Rightarrow> string \<Rightarrow> string \<Rightarrow> ('s, 'w) rq_state \<Rightarrow> rq_error + ('s, 'w) rq_state" where
  "processMarkedRun d opts now orgId messageId st = acknowledgeMessage d opts now orgId messageId True False st"

text \<open>One batch of at most a hundred marked runs; an error in one run is logged and the next is tried.\<close>

definition processMarkedBatch :: "('s, 'w) rq_deps \<Rightarrow> rq_options \<Rightarrow> time \<Rightarrow> ('s, 'w) rq_state \<Rightarrow> ('s, 'w) rq_state" where
  "processMarkedBatch d opts now st =
     (let (results, s) = getMarkedRunsForAck (srv d) (pk opts markedForAckKey) 100 (rq_redis st)
      in fold (\<lambda>(orgId, messageId, score) st.
           case processMarkedRun d opts now orgId messageId st of Inl e \<Rightarrow> st | Inr st' \<Rightarrow> st')
         results (st\<lparr>rq_redis := s\<rparr>))"

subsection \<open>Migration of the legacy master queues\<close>

definition queues_of_master ::
    "('s, 'w) rq_deps \<Rightarrow> rq_options \<Rightarrow> key list \<Rightarrow> (key \<times> key list) list option" where
  "queues_of_master d opts queueNames =
     fold (\<lambda>queueName acc. do {
         groups \<leftarrow> acc;
         d' \<leftarrow> descriptorFromQueue queueName;
         master \<leftarrow> masterQueueKeyForEnvironment (shard_hash d) (js_str (d_envId d')) (shardCount opts);
         Some (case map_of groups master of
             None \<Rightarrow> groups @ [(master, [queueName])]
           | Some _ \<Rightarrow> map (\<lambda>(k, qs). if k = master then (k, qs @ [queueName]) else (k, qs)) groups)
       }) queueNames (Some [])"

definition migrateLegacyMasterQueue ::
    "('s, 'w) rq_deps \<Rightarrow> rq_options \<Rightarrow> string \<Rightarrow> 's \<Rightarrow> rq_error + 's" where
  "migrateLegacyMasterQueue d opts legacyMasterQueue s =
     (let queueNames = map fst (zRANGE (srv d) (pk opts (legacyMasterQueueKey legacyMasterQueue)) 0 (-1) s) in
      case queues_of_master d opts queueNames of
        None \<Rightarrow> Inl TypeError
      | Some groups \<Rightarrow>
          Inr (fold (\<lambda>(master, queues). migrateLegacyMasterQueues (srv d) (pk opts master) (keyPrefix opts) queues) groups s))"

end
