(* ===== verification/Field_Codec.thy ===== *)
theory Field_Codec
  imports Prelude
begin

text \<open>
  An executable serialisation of lists of strings, each preceded by its length, and of optional strings
  and integers. The instances of the JSON codecs in the interpretations are built on it.
\<close>

subsection \<open>Lists of strings\<close>

definition put_field :: "string \<Rightarrow> string" where
  "put_field s = replicate (length s) (CHR ''1'') @ CHR '','' # s"

definition put_fields :: "string list \<Rightarrow> string" where
  "put_fields fs = concat (map put_field fs)"

function get_fields :: "string \<Rightarrow> string list" where
  "get_fields s =
     (let n = length (takeWhile (\<lambda>c. c = CHR ''1'') s); rest = drop (Suc n) s
      in if s = [] then [] else take n rest # get_fields (drop n rest))"
  by pat_completeness auto
termination by (relation "measure length") auto

declare get_fields.simps [simp del]

lemma takeWhile_replicate_append:
  "takeWhile (\<lambda>c. c = x) (replicate n x @ y # ys) = (if x = y then replicate n x @ takeWhile (\<lambda>c. c = x) (y # ys) else replicate n x)"
  by (induction n) auto

lemma get_put_fields [simp]: "get_fields (put_fields fs) = fs"
proof (induction fs)
  case Nil
  show ?case by (subst get_fields.simps) (simp add: put_fields_def)
next
  case (Cons f fs)
  have "put_fields (f # fs) = replicate (length f) (CHR ''1'') @ CHR '','' # f @ put_fields fs"
    by (simp add: put_fields_def put_field_def)
  then show ?case
    using Cons by (subst get_fields.simps) (simp add: takeWhile_replicate_append)
qed

definition option_string :: "string option \<Rightarrow> string" where
  "option_string v = (case v of None \<Rightarrow> [] | Some s \<Rightarrow> CHR ''='' # s)"

definition string_option :: "string \<Rightarrow> string option" where
  "string_option s = (case s of [] \<Rightarrow> None | c # cs \<Rightarrow> Some cs)"

definition int_of_string :: "string \<Rightarrow> int option" where
  "int_of_string s = map_option floor (decimal_value s)"

lemma string_option_string [simp]: "string_option (option_string v) = v"
  by (cases v) (simp_all add: string_option_def option_string_def)

lemma int_of_string_string [simp]: "int_of_string (int_to_string i) = Some i"
  by (simp add: int_of_string_def)

definition type_string :: "environment_type \<Rightarrow> string" where
  "type_string t = (case t of PRODUCTION \<Rightarrow> ''PRODUCTION'' | STAGING \<Rightarrow> ''STAGING''
     | DEVELOPMENT \<Rightarrow> ''DEVELOPMENT'' | PREVIEW \<Rightarrow> ''PREVIEW'')"

definition string_type :: "string \<Rightarrow> environment_type option" where
  "string_type s = (if s = ''PRODUCTION'' then Some PRODUCTION else if s = ''STAGING'' then Some STAGING
     else if s = ''DEVELOPMENT'' then Some DEVELOPMENT else if s = ''PREVIEW'' then Some PREVIEW else None)"

definition bool_string :: "bool \<Rightarrow> string" where
  "bool_string b = (if b then ''true'' else ''false'')"

definition string_bool :: "string \<Rightarrow> bool" where
  "string_bool s = (s = ''true'')"

lemma string_type_string [simp]: "string_type (type_string t) = Some t"
  by (cases t) (simp_all add: string_type_def type_string_def)

lemma string_bool_string [simp]: "string_bool (bool_string b) = b"
  by (simp add: string_bool_def bool_string_def)

end
