(* ===== verification/Payload_Codec.thy ===== *)
theory Payload_Codec
  imports Run_Queue Field_Codec
begin

text \<open>
  An executable codec of run queue messages that satisfies what the program relies on of
  \<open>JSON.stringify\<close>, \<open>JSON.parse\<close> and \<open>cjson.decode\<close>: what was written is read back. A message is
  written as the list of its fields, each preceded by its length; the reader inverts that. It serves as
  the instance of the codec laws in the interpretations and witnesses.
\<close>

subsection \<open>Messages\<close>

fun version_fields :: "payload_version \<Rightarrow> string list" where
  "version_fields (V1 ms) = ''1'' # ms"
| "version_fields (V2 w) = [''2'', w]"

fun fields_version :: "string list \<Rightarrow> payload_version option" where
  "fields_version (v # ws) = (if v = ''1'' then Some (V1 ws) else case ws of [w] \<Rightarrow> Some (V2 w) | _ \<Rightarrow> None)"
| "fields_version [] = None"

definition put_payload :: "output_payload \<Rightarrow> string" where
  "put_payload p = put_fields ([p_runId p, p_taskIdentifier p, p_orgId p, p_projectId p, p_environmentId p,
     type_string (p_environmentType p), p_queue p, option_string (p_concurrencyKey p),
     int_to_string (p_timestamp p), int_to_string (p_attempt p)] @ version_fields (p_version p))"

fun fields_payload :: "string list \<Rightarrow> output_payload option" where
  "fields_payload (run # task # org # proj # env # ty # q # ck # ts # att # vs) =
     do {
       t \<leftarrow> string_type ty;
       timestamp \<leftarrow> int_of_string ts;
       attempt \<leftarrow> int_of_string att;
       v \<leftarrow> fields_version vs;
       Some \<lparr>p_runId = run, p_taskIdentifier = task, p_orgId = org, p_projectId = proj, p_environmentId = env,
         p_environmentType = t, p_queue = q, p_concurrencyKey = string_option ck, p_timestamp = timestamp,
         p_attempt = attempt, p_version = v\<rparr>
     }"
| "fields_payload _ = None"

definition get_payload :: "string \<Rightarrow> output_payload option" where
  "get_payload s = fields_payload (get_fields s)"

lemma fields_version_fields [simp]: "fields_version (version_fields w) = Some w"
  by (cases w) simp_all

theorem get_put_payload [simp]: "get_payload (put_payload p) = Some p"
  by (cases p) (simp add: get_payload_def put_payload_def)

definition get_queue_and_run :: "string \<Rightarrow> (string \<times> string) option" where
  "get_queue_and_run s = map_option (\<lambda>p. (p_queue p, p_runId p)) (get_payload s)"

end
