(* ===== verification/Run_Queue_Refs.thy ===== *)
theory Run_Queue_Refs
  imports Payload_Codec
begin

text \<open>
  References to queues (an environment, a queue name and a concurrency key) and the separation of the
  run queue's keys: which of the keys that the scripts write to can be equal. It is what allows the
  effect of a script on one queue to be told apart from every other queue, concurrency set and message.
\<close>

subsection \<open>Queue references and the separation of keys\<close>

record qref =
  r_env :: rq_env
  r_queue :: string
  r_ck :: "string option"

definition wf_qref :: "qref \<Rightarrow> bool" where
  "wf_qref r \<longleftrightarrow> plain_env (r_env r) \<and> colon_free (r_queue r) \<and> given (r_ck r) = r_ck r"

definition qkey :: "qref \<Rightarrow> key" where
  "qkey r = queueKey (r_env r) (r_queue r) (r_ck r)"

abbreviation qcc :: "qref \<Rightarrow> key" where "qcc r \<equiv> qkey r @ '':currentConcurrency''"
abbreviation qcd :: "qref \<Rightarrow> key" where "qcd r \<equiv> qkey r @ '':currentDequeued''"

lemma qkey_inject: "wf_qref r \<Longrightarrow> wf_qref r' \<Longrightarrow> qkey r = qkey r' \<longleftrightarrow> r = r'"
proof -
  assume wf: "wf_qref r" "wf_qref r'"
  have "env_parts (r_env r) @ [''queue'', r_queue r] @ ck_parts (r_ck r) =
      env_parts (r_env r') @ [''queue'', r_queue r'] @ ck_parts (r_ck r') \<longleftrightarrow> r = r'"
    using wf by (cases r; cases r') (auto simp: env_parts_append_inject ck_parts_inject wf_qref_def)
  then show ?thesis
    using wf split_queueKey [of "r_env r" "r_queue r" "r_ck r"]
      split_queueKey [of "r_env r'" "r_queue r'" "r_ck r'"]
    unfolding qkey_def wf_qref_def by (metis split_on_inject)
qed

text \<open>Every key is told apart by its parts.\<close>

lemma split_qkey:
  "wf_qref r \<Longrightarrow> split_on colon (qkey r) = env_parts (r_env r) @ [''queue'', r_queue r] @ ck_parts (r_ck r)"
  by (simp add: qkey_def wf_qref_def split_queueKey)

lemma split_envQueueKey:
  "plain_env env \<Longrightarrow> split_on colon (envQueueKey env) = [''{org'', organization_id env @ ''}'', ''env'', env_id env]"
  using plain_envD [of env]
  by (simp add: envQueueKey_def split_on_join split_sections del: join_with.simps)

lemma split_masterQueueKey: "split_on colon (masterQueueKeyForShard n) = [''masterQueue'', ''shard'', int_to_string n]"
  by (simp add: masterQueueKeyForShard_def split_on_join del: join_with.simps)

lemma split_messageKey:
  "colon_free o' \<Longrightarrow> split_on colon (messageKey o' m) = [''{org'', o' @ ''}'', ''message''] @ split_on colon m"
proof -
  assume free: "colon_free o'"
  have "split_on colon (''message:'' @ m) = ''message'' # split_on colon m"
    using split_on_prefix [of colon "''message''" m] by simp
  then have "split_on colon (orgKeySection o' @ colon # (''message:'' @ m)) =
      split_on colon (orgKeySection o') @ ''message'' # split_on colon m"
    by (simp only: split_on_append_sep)
  then show ?thesis using free by (simp add: messageKey_unfold split_sections del: split_on.simps)
qed

lemma split_env_keys:
  assumes "plain_env env"
  shows "split_on colon (envCurrentConcurrencyKey env) = env_parts env @ [''currentConcurrency'']"
    "split_on colon (envCurrentDequeuedKey env) = env_parts env @ [''currentDequeued'']"
    "split_on colon (deadLetterQueueKey env) = env_parts env @ [''deadLetter'']"
  using assms by (simp_all add: envCurrentConcurrencyKey_def envCurrentDequeuedKey_def deadLetterQueueKey_def
      split_env_key)

lemma split_qkey_suffix:
  assumes "wf_qref r"
  shows "split_on colon (qcc r) = env_parts (r_env r) @ [''queue'', r_queue r] @ ck_parts (r_ck r) @ [''currentConcurrency'']"
    "split_on colon (qcd r) = env_parts (r_env r) @ [''queue'', r_queue r] @ ck_parts (r_ck r) @ [''currentDequeued'']"
  using assms split_queue_suffix [of "r_env r" "r_queue r" "''currentConcurrency''" "r_ck r"]
    split_queue_suffix [of "r_env r" "r_queue r" "''currentDequeued''" "r_ck r"]
  by (simp_all add: qkey_def wf_qref_def)

lemma key_parts_neq: "split_on colon a \<noteq> split_on colon b \<Longrightarrow> a \<noteq> b"
  by auto

lemma suffix_neq: "a @ ''currentDequeued'' \<noteq> b @ ''currentConcurrency''"
proof
  assume "a @ ''currentDequeued'' = b @ ''currentConcurrency''"
  then have "last (a @ ''currentDequeued'') = last (b @ ''currentConcurrency'')" by (rule arg_cong)
  then show False by simp
qed

text \<open>Keys of sorted sets.\<close>

lemma zset_keys_separate:
  assumes "wf_qref r" and "plain_env env" and "plain_env env'"
  shows "qkey r \<noteq> envQueueKey env" "qkey r \<noteq> masterQueueKeyForShard n" "envQueueKey env \<noteq> masterQueueKeyForShard n"
    "deadLetterQueueKey env \<noteq> qkey r" "deadLetterQueueKey env \<noteq> envQueueKey env'"
    "deadLetterQueueKey env \<noteq> masterQueueKeyForShard n"
  using assms
  by (intro key_parts_neq, simp add: split_qkey split_envQueueKey split_masterQueueKey split_env_keys env_parts_def)+

text \<open>Keys of sets.\<close>

lemma set_keys_separate:
  assumes "wf_qref r" and "wf_qref r'" and "plain_env env" and "plain_env env'"
  shows "qcc r \<noteq> envCurrentConcurrencyKey env" "qcc r \<noteq> envCurrentDequeuedKey env"
    "qcd r \<noteq> envCurrentConcurrencyKey env" "qcc r \<noteq> qcd r'"
    "envCurrentConcurrencyKey env \<noteq> envCurrentDequeuedKey env'"
    "envCurrentConcurrencyKey env = envCurrentConcurrencyKey env' \<longleftrightarrow> env = env'"
    "qcc r = qcc r' \<longleftrightarrow> r = r'"
proof -
  show "qcc r \<noteq> envCurrentConcurrencyKey env" "qcc r \<noteq> envCurrentDequeuedKey env"
    "qcd r \<noteq> envCurrentConcurrencyKey env"
    using assms by (intro key_parts_neq, simp add: split_qkey_suffix split_env_keys env_parts_def)+
  show "qcc r \<noteq> qcd r'"
    using suffix_neq [of "qkey r' @ '':''" "qkey r @ '':''"] by auto
  show "envCurrentConcurrencyKey env \<noteq> envCurrentDequeuedKey env'"
    using assms by (intro key_parts_neq) (simp add: split_env_keys env_parts_def)
  show "envCurrentConcurrencyKey env = envCurrentConcurrencyKey env' \<longleftrightarrow> env = env'"
    using assms split_env_keys(1) env_parts_append_inject by metis
  show "qcc r = qcc r' \<longleftrightarrow> r = r'" using qkey_inject assms(1,2) by simp
qed

text \<open>The key of a message is none of the others.\<close>

lemma int_to_string_not_message: "int_to_string n \<noteq> ''message''"
proof
  assume "int_to_string n = ''message''"
  then show False
    using decimal_value_int_to_string [of n]
    by (auto simp: decimal_value_def unsigned_value_def read_digits_def digit_of_def)
qed

lemma message_key_separate:
  assumes "colon_free o'" and "wf_qref r" and "plain_env env"
  shows "messageKey o' m \<noteq> qkey r" "messageKey o' m \<noteq> envQueueKey env" "messageKey o' m \<noteq> masterQueueKeyForShard n"
    "messageKey o' m \<noteq> qcc r" "messageKey o' m \<noteq> envCurrentConcurrencyKey env"
  using assms int_to_string_not_message [of n]
  by (intro key_parts_neq, simp add: split_messageKey split_qkey split_envQueueKey split_masterQueueKey
      split_qkey_suffix split_env_keys env_parts_def del: split_on.simps)+

lemma messageKey_inject2:
  assumes "colon_free o1" and "colon_free o2" and "messageKey o1 m1 = messageKey o2 m2"
  shows "o1 = o2 \<and> m1 = m2"
proof -
  have "[''{org'', o1 @ ''}'', ''message''] @ split_on colon m1 = [''{org'', o2 @ ''}'', ''message''] @ split_on colon m2"
    unfolding split_messageKey [OF assms(1), symmetric] split_messageKey [OF assms(2), symmetric] assms(3) ..
  then show ?thesis by (simp del: split_on.simps)
qed

lemma pk_inject [simp]: "pk opts a = pk opts b \<longleftrightarrow> a = b"
  by (simp add: pk_def)

lemma pk_append: "pk opts (a @ b) = pk opts a @ b"
  by (simp add: pk_def)

end
