(* ===== verification/Run_Queue_Invariant.thy ===== *)
theory Run_Queue_Invariant
  imports Run_Queue_Refs
begin

text \<open>
  The invariant of the run queue over its whole life: which messages are queued, which hold concurrency,
  and how the environment queue, the concurrency sets, the stored payloads and the master queue agree
  with each other. It is stated on the observable keyspace.

  A run belongs to one queue for its whole life: \<open>home\<close> gives the queue of each run. The effect of
  the scripts on the keyspace is one of three changes at the keys of a queue: a message is put (back)
  into its queue, leaves it for good, or some of its messages are taken to hold concurrency.
\<close>

subsection \<open>What is observed of a queue\<close>

text \<open>The master queue of a queue, by the shard of its environment.\<close>

definition masterOf :: "('s, 'w) rq_deps \<Rightarrow> rq_options \<Rightarrow> qref \<Rightarrow> key" where
  "masterOf d opts r = masterQueueKeyForShard (the (shard_hash d (env_id (r_env r)) (shardCount opts)))"

abbreviation queued :: "rq_options \<Rightarrow> view \<Rightarrow> qref \<Rightarrow> string \<Rightarrow> int option" where
  "queued opts v r \<equiv> v_zset v (pk opts (qkey r))"

abbreviation env_queued :: "rq_options \<Rightarrow> view \<Rightarrow> rq_env \<Rightarrow> string \<Rightarrow> int option" where
  "env_queued opts v env \<equiv> v_zset v (pk opts (envQueueKey env))"

abbreviation running :: "rq_options \<Rightarrow> view \<Rightarrow> qref \<Rightarrow> string set" where
  "running opts v r \<equiv> v_set v (pk opts (qcc r))"

abbreviation env_running :: "rq_options \<Rightarrow> view \<Rightarrow> rq_env \<Rightarrow> string set" where
  "env_running opts v env \<equiv> v_set v (pk opts (envCurrentConcurrencyKey env))"

abbreviation stored :: "rq_options \<Rightarrow> view \<Rightarrow> string \<Rightarrow> string \<Rightarrow> string option" where
  "stored opts v orgId m \<equiv> v_str v (pk opts (messageKey orgId m))"

abbreviation org_of :: "qref \<Rightarrow> string" where
  "org_of r \<equiv> organization_id (r_env r)"

subsection \<open>The three changes\<close>

text \<open>The concurrency keys of a queue.\<close>

definition cc_keys :: "rq_options \<Rightarrow> qref \<Rightarrow> key set" where
  "cc_keys opts r = {pk opts (qcc r), pk opts (envCurrentConcurrencyKey (r_env r)),
     pk opts (qcd r), pk opts (envCurrentDequeuedKey (r_env r))}"

definition v_put :: "('s, 'w) rq_deps \<Rightarrow> rq_options \<Rightarrow> qref \<Rightarrow> string \<Rightarrow> string \<Rightarrow> int \<Rightarrow> view \<Rightarrow> view" where
  "v_put d opts r m payload sc v =
     v_release (cc_keys opts r) m (v_rebalance (pk opts (masterOf d opts r)) (pk opts (qkey r)) (qkey r)
       (v\<lparr>v_str := (v_str v)(pk opts (messageKey (org_of r) m) := Some payload),
          v_zset := upd2 (pk opts (qkey r)) (pk opts (envQueueKey (r_env r))) (\<lambda>z. z(m := Some sc)) (v_zset v)\<rparr>))"

definition v_leave :: "('s, 'w) rq_deps \<Rightarrow> rq_options \<Rightarrow> qref \<Rightarrow> string \<Rightarrow> view \<Rightarrow> view" where
  "v_leave d opts r m v =
     v_release (cc_keys opts r) m (v_rebalance (pk opts (masterOf d opts r)) (pk opts (qkey r)) (qkey r)
       (v\<lparr>v_zset := upd2 (pk opts (qkey r)) (pk opts (envQueueKey (r_env r))) (\<lambda>z. z(m := None)) (v_zset v)\<rparr>))"

definition v_hold :: "('s, 'w) rq_deps \<Rightarrow> rq_options \<Rightarrow> qref \<Rightarrow> string set \<Rightarrow> view \<Rightarrow> view" where
  "v_hold d opts r T v =
     v_rebalance (pk opts (masterOf d opts r)) (pk opts (qkey r)) (qkey r)
       (v_take (pk opts (qkey r)) (pk opts (envQueueKey (r_env r))) (pk opts (qcc r))
          (pk opts (envCurrentConcurrencyKey (r_env r))) T v)"

lemma envQueueKey_inject:
  assumes "plain_env env" and "plain_env env'"
  shows "envQueueKey env = envQueueKey env' \<longleftrightarrow>
    organization_id env = organization_id env' \<and> env_id env = env_id env'"
proof -
  have "split_on colon (envQueueKey env) = split_on colon (envQueueKey env') \<longleftrightarrow>
      organization_id env = organization_id env' \<and> env_id env = env_id env'"
    unfolding split_envQueueKey [OF assms(1)] split_envQueueKey [OF assms(2)] by auto
  then show ?thesis by simp
qed

lemma wf_qref_env [simp, intro]: "wf_qref r \<Longrightarrow> plain_env (r_env r)"
  by (simp add: wf_qref_def)

lemma org_colon_free [simp, intro]: "plain_env env \<Longrightarrow> colon_free (organization_id env)"
  by (rule plain_envD)

text \<open>What each change leaves at every key the invariant speaks of.\<close>

lemmas separate = zset_keys_separate set_keys_separate message_key_separate
  zset_keys_separate [symmetric] set_keys_separate(1-5) [symmetric] message_key_separate [symmetric]


lemma put_lookups:
  assumes "wf_qref r" and "wf_qref r'" and "plain_env env"
  shows "queued opts (v_put d opts r m p sc v) r' = (if r' = r then (queued opts v r)(m := Some sc) else queued opts v r')"
    "env_queued opts (v_put d opts r m p sc v) env =
       (if envQueueKey env = envQueueKey (r_env r) then (env_queued opts v env)(m := Some sc) else env_queued opts v env)"
    "v_zset (v_put d opts r m p sc v) (pk opts (masterOf d opts r')) (qkey r') =
       (if r' = r then min_score ((queued opts v r)(m := Some sc)) else v_zset v (pk opts (masterOf d opts r')) (qkey r'))"
    "running opts (v_put d opts r m p sc v) r' = (if r' = r then running opts v r - {m} else running opts v r')"
    "env_running opts (v_put d opts r m p sc v) env =
       (if env = r_env r then env_running opts v env - {m} else env_running opts v env)"
    "v_str (v_put d opts r m p sc v) = (v_str v)(pk opts (messageKey (org_of r) m) := Some p)"
  using assms by (auto simp: v_put_def cc_keys_def masterOf_def separate qkey_inject)

lemma put_stored:
  assumes "wf_qref r" and "colon_free orgId"
  shows "stored opts (v_put d opts r m p sc v) orgId x =
    (if orgId = org_of r \<and> x = m then Some p else stored opts v orgId x)"
  using messageKey_inject2 [OF assms(2) org_colon_free [OF wf_qref_env [OF assms(1)]], of x m]
    put_lookups(6) [OF assms(1,1) wf_qref_env [OF assms(1)], of d opts m p sc v]
  by (auto simp: fun_upd_def)

lemma leave_lookups:
  assumes "wf_qref r" and "wf_qref r'" and "plain_env env"
  shows "queued opts (v_leave d opts r m v) r' = (if r' = r then (queued opts v r)(m := None) else queued opts v r')"
    "env_queued opts (v_leave d opts r m v) env =
       (if envQueueKey env = envQueueKey (r_env r) then (env_queued opts v env)(m := None) else env_queued opts v env)"
    "v_zset (v_leave d opts r m v) (pk opts (masterOf d opts r')) (qkey r') =
       (if r' = r then min_score ((queued opts v r)(m := None)) else v_zset v (pk opts (masterOf d opts r')) (qkey r'))"
    "running opts (v_leave d opts r m v) r' = (if r' = r then running opts v r - {m} else running opts v r')"
    "env_running opts (v_leave d opts r m v) env =
       (if env = r_env r then env_running opts v env - {m} else env_running opts v env)"
    "v_str (v_leave d opts r m v) = v_str v"
  using assms by (auto simp: v_leave_def cc_keys_def masterOf_def separate qkey_inject)

lemma hold_lookups:
  assumes "wf_qref r" and "wf_qref r'" and "plain_env env"
  shows "queued opts (v_hold d opts r T v) r' = (if r' = r then queued opts v r |` (- T) else queued opts v r')"
    "env_queued opts (v_hold d opts r T v) env =
       (if envQueueKey env = envQueueKey (r_env r) then env_queued opts v env |` (- T) else env_queued opts v env)"
    "v_zset (v_hold d opts r T v) (pk opts (masterOf d opts r')) (qkey r') =
       (if r' = r then min_score (queued opts v r |` (- T)) else v_zset v (pk opts (masterOf d opts r')) (qkey r'))"
    "running opts (v_hold d opts r T v) r' = (if r' = r then running opts v r \<union> T else running opts v r')"
    "env_running opts (v_hold d opts r T v) env =
       (if env = r_env r then env_running opts v env \<union> T else env_running opts v env)"
    "v_str (v_hold d opts r T v) = v_str v"
  using assms by (auto simp: v_hold_def masterOf_def separate qkey_inject)

lemma release_lookups:
  assumes "wf_qref r" and "wf_qref r'" and "plain_env env"
  shows "running opts (v_release (cc_keys opts r) m v) r' = (if r' = r then running opts v r' - {m} else running opts v r')"
    "env_running opts (v_release (cc_keys opts r) m v) env =
       (if env = r_env r then env_running opts v env - {m} else env_running opts v env)"
  using assms by (auto simp: cc_keys_def separate qkey_inject)

subsection \<open>The invariant\<close>

text \<open>The stored payload of a message: it names the message's own queue, organisation and environment.\<close>

definition payload_of :: "(string \<Rightarrow> qref) \<Rightarrow> string \<Rightarrow> output_payload \<Rightarrow> bool" where
  "payload_of home m p \<longleftrightarrow> p_runId p = m \<and> p_queue p = qkey (home m) \<and> p_orgId p = org_of (home m)
     \<and> p_environmentId p = env_id (r_env (home m))"

text \<open>
  \<^item> a queue and its concurrency set hold only their own messages;
  \<^item> a message that holds concurrency is not queued;
  \<^item> the environment queue lists exactly the queued messages of its environment, with their scores;
  \<^item> the environment's concurrency set is the union of those of its queues;
  \<^item> a stored payload is the payload of its message, and every queued or running message has one;
  \<^item> the master queue's entry of a queue is the score of the queue's earliest message.
\<close>

definition inv_queue :: "rq_options \<Rightarrow> (string \<Rightarrow> qref) \<Rightarrow> view \<Rightarrow> qref \<Rightarrow> string \<Rightarrow> bool" where
  "inv_queue opts home v r m \<longleftrightarrow>
     (queued opts v r m \<noteq> None \<longrightarrow> home m = r) \<and> (m \<in> running opts v r \<longrightarrow> home m = r)
     \<and> \<not> (queued opts v r m \<noteq> None \<and> m \<in> running opts v r)"

definition inv_env :: "rq_options \<Rightarrow> (string \<Rightarrow> qref) \<Rightarrow> view \<Rightarrow> rq_env \<Rightarrow> string \<Rightarrow> bool" where
  "inv_env opts home v env m \<longleftrightarrow>
     env_queued opts v env m = (if envQueueKey env = envQueueKey (r_env (home m)) then queued opts v (home m) m else None)
     \<and> (m \<in> env_running opts v env \<longleftrightarrow> env = r_env (home m) \<and> m \<in> running opts v (home m))"

definition inv_stored :: "('s, 'w) rq_deps \<Rightarrow> rq_options \<Rightarrow> (string \<Rightarrow> qref) \<Rightarrow> view \<Rightarrow> string \<Rightarrow> string \<Rightarrow> bool" where
  "inv_stored d opts home v orgId m \<longleftrightarrow>
     (case stored opts v orgId m of None \<Rightarrow> True
      | Some str \<Rightarrow> orgId = org_of (home m) \<and> (\<exists>p. str = stringify d p \<and> payload_of home m p))"

definition inv_payload :: "rq_options \<Rightarrow> (string \<Rightarrow> qref) \<Rightarrow> view \<Rightarrow> string \<Rightarrow> bool" where
  "inv_payload opts home v m \<longleftrightarrow>
     (queued opts v (home m) m \<noteq> None \<or> m \<in> running opts v (home m) \<longrightarrow> stored opts v (org_of (home m)) m \<noteq> None)"

definition inv_master :: "('s, 'w) rq_deps \<Rightarrow> rq_options \<Rightarrow> view \<Rightarrow> qref \<Rightarrow> bool" where
  "inv_master d opts v r \<longleftrightarrow> v_zset v (pk opts (masterOf d opts r)) (qkey r) = min_score (queued opts v r)"

definition rq_inv :: "('s, 'w) rq_deps \<Rightarrow> rq_options \<Rightarrow> (string \<Rightarrow> qref) \<Rightarrow> view \<Rightarrow> bool" where
  "rq_inv d opts home v \<longleftrightarrow>
     (\<forall>r m. wf_qref r \<longrightarrow> inv_queue opts home v r m)
     \<and> (\<forall>env m. plain_env env \<longrightarrow> inv_env opts home v env m)
     \<and> (\<forall>m. inv_payload opts home v m)
     \<and> (\<forall>orgId m. colon_free orgId \<longrightarrow> inv_stored d opts home v orgId m)
     \<and> (\<forall>r. wf_qref r \<longrightarrow> inv_master d opts v r)"

lemmas inv_defs = inv_queue_def inv_env_def inv_stored_def inv_payload_def inv_master_def

lemma rq_invI:
  assumes "\<And>r m. wf_qref r \<Longrightarrow> inv_queue opts home v r m" "\<And>env m. plain_env env \<Longrightarrow> inv_env opts home v env m"
    "\<And>m. inv_payload opts home v m" "\<And>orgId m. colon_free orgId \<Longrightarrow> inv_stored d opts home v orgId m"
    "\<And>r. wf_qref r \<Longrightarrow> inv_master d opts v r"
  shows "rq_inv d opts home v"
  using assms by (simp add: rq_inv_def)

lemma rq_invD:
  assumes "rq_inv d opts home v"
  shows "wf_qref r \<Longrightarrow> inv_queue opts home v r m" "plain_env env \<Longrightarrow> inv_env opts home v env m"
    "inv_payload opts home v m" "colon_free orgId \<Longrightarrow> inv_stored d opts home v orgId m"
    "wf_qref r \<Longrightarrow> inv_master d opts v r"
  using assms by (simp_all add: rq_inv_def)

text \<open>The invariant looks at the keyspace only through these keys.\<close>

lemma rq_inv_cong:
  assumes "\<And>r. wf_qref r \<Longrightarrow> queued opts v' r = queued opts v r \<and> running opts v' r = running opts v r
      \<and> v_zset v' (pk opts (masterOf d opts r)) (qkey r) = v_zset v (pk opts (masterOf d opts r)) (qkey r)"
    and "\<And>env. plain_env env \<Longrightarrow> env_queued opts v' env = env_queued opts v env \<and> env_running opts v' env = env_running opts v env"
    and "\<And>orgId m. colon_free orgId \<Longrightarrow> stored opts v' orgId m = stored opts v orgId m"
    and "\<And>m. wf_qref (home m)"
  shows "rq_inv d opts home v' \<longleftrightarrow> rq_inv d opts home v"
  using assms by (simp add: rq_inv_def inv_defs)

lemma put_preserves:
  assumes inv: "rq_inv d opts home v" and wf: "\<And>x. wf_qref (home x)" and p: "payload_of home m p"
  shows "rq_inv d opts home (v_put d opts (home m) m (stringify d p) sc v)"
proof (rule rq_invI)
  fix r x
  assume r: "wf_qref r"
  show "inv_queue opts home (v_put d opts (home m) m (stringify d p) sc v) r x"
    using rq_invD(1) [OF inv r, of x] unfolding inv_queue_def put_lookups(1,4) [OF wf r wf_qref_env [OF r]] by auto
next
  fix env x
  assume env: "plain_env env"
  show "inv_env opts home (v_put d opts (home m) m (stringify d p) sc v) env x"
    using rq_invD(2) [OF inv env, of x] unfolding inv_env_def put_lookups(1,2,4,5) [OF wf wf env]
    by (cases "x = m"; cases "home x = home m"; cases "env = r_env (home m)";
        cases "envQueueKey env = envQueueKey (r_env (home m))") (simp_all split del: if_split cong del: if_weak_cong)
next
  fix x
  show "inv_payload opts home (v_put d opts (home m) m (stringify d p) sc v) x"
    using rq_invD(3) [OF inv, of x]
    by (cases "x = m"; cases "home x = home m")
      (simp_all add: inv_payload_def put_lookups(1,4) [OF wf wf wf_qref_env [OF wf]] put_stored [OF wf] wf)
next
  fix orgId x
  assume orgId: "colon_free (orgId :: string)"
  show "inv_stored d opts home (v_put d opts (home m) m (stringify d p) sc v) orgId x"
    using rq_invD(4) [OF inv orgId, of x] p by (auto simp: inv_stored_def put_stored [OF wf orgId])
next
  fix r
  assume r: "wf_qref r"
  show "inv_master d opts (v_put d opts (home m) m (stringify d p) sc v) r"
    using rq_invD(5) [OF inv r] unfolding inv_master_def put_lookups [OF wf r wf_qref_env [OF r]] by auto
qed

lemma leave_preserves:
  assumes inv: "rq_inv d opts home v" and wf: "\<And>x. wf_qref (home x)"
  shows "rq_inv d opts home (v_leave d opts (home m) m v)"
proof (rule rq_invI)
  fix r x
  assume r: "wf_qref r"
  show "inv_queue opts home (v_leave d opts (home m) m v) r x"
    using rq_invD(1) [OF inv r, of x] unfolding inv_queue_def leave_lookups(1,4) [OF wf r wf_qref_env [OF r]] by auto
next
  fix env x
  assume env: "plain_env env"
  show "inv_env opts home (v_leave d opts (home m) m v) env x"
    using rq_invD(2) [OF inv env, of x] unfolding inv_env_def leave_lookups(1,2,4,5) [OF wf wf env]
    by (cases "x = m"; cases "home x = home m"; cases "env = r_env (home m)";
        cases "envQueueKey env = envQueueKey (r_env (home m))") (simp_all split del: if_split cong del: if_weak_cong)
next
  fix x
  show "inv_payload opts home (v_leave d opts (home m) m v) x"
    using rq_invD(3) [OF inv, of x]
    by (cases "x = m"; cases "home x = home m")
      (simp_all add: inv_payload_def leave_lookups [OF wf wf wf_qref_env [OF wf]])
next
  fix orgId x
  assume orgId: "colon_free (orgId :: string)"
  show "inv_stored d opts home (v_leave d opts (home m) m v) orgId x"
    using rq_invD(4) [OF inv orgId, of x]
    by (simp add: inv_stored_def leave_lookups(6) [OF wf wf wf_qref_env [OF wf]])
next
  fix r
  assume r: "wf_qref r"
  show "inv_master d opts (v_leave d opts (home m) m v) r"
    using rq_invD(5) [OF inv r] unfolding inv_master_def leave_lookups [OF wf r wf_qref_env [OF r]] by auto
qed

lemma hold_preserves:
  assumes inv: "rq_inv d opts home v" and wf: "\<And>x. wf_qref (home x)" and r: "wf_qref r"
    and T: "\<And>x. x \<in> T \<Longrightarrow> queued opts v r x \<noteq> None \<and> stored opts v (org_of r) x \<noteq> None"
  shows "rq_inv d opts home (v_hold d opts r T v)"
proof (rule rq_invI)
  have home: "home x = r" if "x \<in> T" for x
    using T [OF that] rq_invD(1) [OF inv r, of x] by (simp add: inv_queue_def)
  fix r' x
  assume r': "wf_qref r'"
  show "inv_queue opts home (v_hold d opts r T v) r' x"
    using rq_invD(1) [OF inv r', of x] home [of x]
    unfolding inv_queue_def hold_lookups(1,4) [OF r r' wf_qref_env [OF r']] by (auto simp: restrict_map_def)
next
  have home: "home x = r" if "x \<in> T" for x
    using T [OF that] rq_invD(1) [OF inv r, of x] by (simp add: inv_queue_def)
  fix env x
  assume env: "plain_env env"
  show "inv_env opts home (v_hold d opts r T v) env x"
    using rq_invD(2) [OF inv env, of x] home [of x]
    unfolding inv_env_def hold_lookups(1,2,4,5) [OF r wf env]
    by (cases "x \<in> T"; cases "home x = r"; cases "env = r_env r"; cases "envQueueKey env = envQueueKey (r_env r)")
      (simp_all split del: if_split cong del: if_weak_cong)
next
  have home: "home x = r" if "x \<in> T" for x
    using T [OF that] rq_invD(1) [OF inv r, of x] by (simp add: inv_queue_def)
  fix x
  show "inv_payload opts home (v_hold d opts r T v) x"
    using rq_invD(3) [OF inv, of x] T [of x] home [of x]
    by (cases "x \<in> T"; cases "home x = r")
      (simp_all add: inv_payload_def hold_lookups [OF r wf wf_qref_env [OF wf]]
        hold_lookups [OF r r wf_qref_env [OF r]])
next
  fix orgId x
  assume orgId: "colon_free (orgId :: string)"
  show "inv_stored d opts home (v_hold d opts r T v) orgId x"
    using rq_invD(4) [OF inv orgId, of x]
    by (simp add: inv_stored_def hold_lookups(6) [OF r r wf_qref_env [OF r]])
next
  fix r'
  assume r': "wf_qref r'"
  show "inv_master d opts (v_hold d opts r T v) r'"
    using rq_invD(5) [OF inv r'] unfolding inv_master_def hold_lookups [OF r r' wf_qref_env [OF r']] by auto
qed

subsection \<open>The operations at the keys of a message's queue\<close>

text \<open>
  What the operations rely on: the server's laws, a codec that reads back what was written, a shard
  hash that answers, and well-formed queue references.
\<close>

locale run_queue = redis_server "srv d" for d :: "('s, 'w) rq_deps" +
  fixes opts :: rq_options and home :: "string \<Rightarrow> qref"
  assumes parse_stringify: "json_parse d (stringify d p) = Some p"
    and hash_answers: "\<exists>n. shard_hash d e (shardCount opts) = Some n"
    and wf_home: "wf_qref (home m)"
begin

lemma master_key: "masterQueueKeyForEnvironment (shard_hash d) (env_id (r_env r)) (shardCount opts) = Some (masterOf d opts r)"
  using hash_answers [of "env_id (r_env r)"]
  by (auto simp: masterQueueKeyForEnvironment_def masterQueueShardForEnvironment_def masterOf_def)

lemma keys_of_qkey:
  assumes "wf_qref r"
  shows "envQueueKeyFromQueue (qkey r) = Some (envQueueKey (r_env r))"
    "envConcurrencyLimitKeyFromQueue (qkey r) = Some (envConcurrencyLimitKey (r_env r))"
    "envConcurrencyLimitBurstFactorKeyFromQueue (qkey r) = Some (envConcurrencyLimitBurstFactorKey (r_env r))"
    "envCurrentConcurrencyKeyFromQueue (qkey r) = Some (envCurrentConcurrencyKey (r_env r))"
    "envCurrentDequeuedKeyFromQueue (qkey r) = Some (envCurrentDequeuedKey (r_env r))"
    "deadLetterQueueKeyFromQueue (qkey r) = Some (deadLetterQueueKey (r_env r))"
    "messageKeyPrefixFromQueue (qkey r) = Some (orgKeySection (org_of r) @ '':message:'')"
  using assms by (simp_all add: qkey_def wf_qref_def keys_from_queueKey)

lemma messageKeys_home:
  assumes "payload_of home m p"
  shows "messageKeys d opts p = Some \<lparr>k_master = pk opts (masterOf d opts (home m)),
    k_message = pk opts (messageKey (org_of (home m)) m), k_queue = pk opts (qkey (home m)),
    k_queueCC = pk opts (qcc (home m)), k_envCC = pk opts (envCurrentConcurrencyKey (r_env (home m))),
    k_queueCD = pk opts (qcd (home m)), k_envCD = pk opts (envCurrentDequeuedKey (r_env (home m))),
    k_envQueue = pk opts (envQueueKey (r_env (home m))), k_deadLetter = pk opts (deadLetterQueueKey (r_env (home m)))\<rparr>"
  using assms
  by (simp add: messageKeys_def payload_of_def keys_of_qkey [OF wf_home] master_key Let_def
      queueCurrentConcurrencyKeyFromQueue_def queueCurrentDequeuedKeyFromQueue_def)

abbreviation view_of :: "'s \<Rightarrow> view" where "view_of s \<equiv> rview (srv d) s"

lemma callEnqueue_put:
  assumes "payload_of home m p"
  obtains s' where "callEnqueueMessage d opts p s = Inr s'"
    and "view_of s' = v_put d opts (home m) m (stringify d p) (p_timestamp p) (view_of s)"
  using assms
  by (simp add: callEnqueueMessage_def messageKeys_home enqueue_view v_put_def cc_keys_def payload_of_def)

lemma callNack_put:
  assumes "payload_of home m p"
  obtains s' sc where "callNackMessage d opts now rnd p retryAt s = Inr s'"
    and "view_of s' = v_put d opts (home m) m (stringify d p) sc (view_of s)"
    and "\<forall>t. retryAt = Some t \<longrightarrow> sc = t"
proof -
  have comm: "v_rebalance a b c (v_release K x v) = v_release K x (v_rebalance a b c v)" for a b c K x v
    by (rule view_eqI) (simp_all add: fun_eq_iff)
  show thesis
    using assms that
    by (simp add: callNackMessage_def messageKeys_home nack_view comm v_put_def cc_keys_def payload_of_def
        Let_def split: option.split)
qed

lemma callDeadLetter_leave:
  assumes "payload_of home m p"
  obtains s' where "callMoveToDeadLetterQueue d opts now p s = Inr s'"
    and "view_of s' = (v_leave d opts (home m) m (view_of s))\<lparr>v_zset :=
      (v_zset (v_leave d opts (home m) m (view_of s)))(pk opts (deadLetterQueueKey (r_env (home m))) :=
        (v_zset (v_leave d opts (home m) m (view_of s)) (pk opts (deadLetterQueueKey (r_env (home m)))))(m := Some now))\<rparr>"
proof -
  have "v_release K x (v\<lparr>v_zset := f\<rparr>) = (v_release K x v)\<lparr>v_zset := f\<rparr>" for K x v f
    by (rule view_eqI) (simp_all add: fun_eq_iff)
  then show thesis
    using assms that
    by (simp add: callMoveToDeadLetterQueue_def messageKeys_home dead_letter_view v_leave_def cc_keys_def
        payload_of_def Let_def)
qed

lemma readMessage_payload:
  assumes "rq_inv d opts home (view_of s)" and "colon_free orgId" and "readMessage d opts orgId m s = Some p"
  shows "payload_of home m p \<and> orgId = org_of (home m) \<and> stored opts (view_of s) (org_of (home m)) m = Some (stringify d p)"
  using rq_invD(4) [OF assms(1,2), of m] assms(3)
  by (auto simp: inv_stored_def readMessage_def read_views parse_stringify split: option.splits bind_splits)

text \<open>An acknowledged message leaves its queue and its payload is deleted.\<close>

lemma callAck_leave:
  assumes "payload_of home m p"
  obtains s' where "callAcknowledgeMessage d opts p flag s = Inr s'"
    and "v_zset (view_of s') = v_zset (v_leave d opts (home m) m (view_of (rDEL (srv d) (pk opts (messageKey (org_of (home m)) m)) s)))"
    and "v_set (view_of s') = v_set (v_leave d opts (home m) m (view_of (rDEL (srv d) (pk opts (messageKey (org_of (home m)) m)) s)))"
    and "v_str (view_of s') = (v_str (view_of s))(pk opts (messageKey (org_of (home m)) m) := None)"
  using assms that
  by (simp add: callAcknowledgeMessage_def messageKeys_home acknowledge_view v_leave_def cc_keys_def payload_of_def
      Let_def rDEL_view)

text \<open>Deleting a message key changes nothing else the invariant looks at.\<close>

lemma del_message_lookups:
  assumes "colon_free orgId" and "wf_qref r" and "plain_env env"
  shows "queued opts (view_of (rDEL (srv d) (pk opts (messageKey orgId m)) s)) r = queued opts (view_of s) r"
    "env_queued opts (view_of (rDEL (srv d) (pk opts (messageKey orgId m)) s)) env = env_queued opts (view_of s) env"
    "running opts (view_of (rDEL (srv d) (pk opts (messageKey orgId m)) s)) r = running opts (view_of s) r"
    "env_running opts (view_of (rDEL (srv d) (pk opts (messageKey orgId m)) s)) env = env_running opts (view_of s) env"
    "v_zset (view_of (rDEL (srv d) (pk opts (messageKey orgId m)) s)) (pk opts (masterOf d opts r)) =
       v_zset (view_of s) (pk opts (masterOf d opts r))"
  using message_key_separate [OF assms, of m] message_key_separate [OF assms, of m, symmetric]
  by (simp_all add: rDEL_view masterOf_def)

text \<open>The messages a dequeue takes are queued in that queue, due, and have a payload.\<close>

lemma callDequeue_hold:
  assumes r: "wf_qref r"
    and run: "callDequeueMessagesFromQueue d opts now (qkey r) (the (shard_hash d (env_id (r_env r)) (shardCount opts))) mc s = (res, s')"
  obtains "view_of s' = view_of s" and "\<And>ms. res = Inr ms \<Longrightarrow> ms = []"
  | T where "view_of s' = v_hold d opts r T (view_of s)"
      and "\<And>x. x \<in> T \<Longrightarrow> (\<exists>sc \<le> now. queued opts (view_of s) r x = Some sc) \<and> stored opts (view_of s) (org_of r) x \<noteq> None"
      and "T = {} \<Longrightarrow> res = Inr []"
proof -
  let ?q = "pk opts (qkey r)" and ?mp = "pk opts (orgKeySection (org_of r) @ '':message:'')"
  let ?run = "dequeueMessagesFromQueue_script (fl d) (srv d) ?q (pk opts (queueConcurrencyLimitKeyFromQueue (qkey r)))
      (pk opts (envConcurrencyLimitKey (r_env r))) (pk opts (envConcurrencyLimitBurstFactorKey (r_env r)))
      (pk opts (qcc r)) (pk opts (envCurrentConcurrencyKey (r_env r))) ?mp (pk opts (envQueueKey (r_env r)))
      (pk opts (masterOf d opts r)) (qkey r) now (int_to_string (defaultEnvConcurrency opts))
      (defaultEnvConcurrencyBurstFactor opts) mc s"
  have split: "(case ?run of Inl e \<Rightarrow> (Inl e, s) | Inr (None, s) \<Rightarrow> (Inr [], s)
      | Inr (Some result, s) \<Rightarrow> (parse_results d result, s)) = (res, s')"
    using run by (simp add: callDequeueMessagesFromQueue_def keys_of_qkey [OF r] masterOf_def
        queueCurrentConcurrencyKeyFromQueue_def)
  show thesis
  proof (cases ?run)
    case (Inl e)
    then show thesis using split by (intro that(1)) auto
  next
    case (Inr out)
    obtain raw s1 where out: "out = (raw, s1)" by (cases out)
    have s1: "s1 = s'" using split Inr out by (auto split: option.splits)
    have view: "(raw = None \<and> s' = s) \<or> (\<exists>c ms. ms = take c (filter (\<lambda>(m, sc). sc \<le> now) (zsorted (queued opts (view_of s) r))) \<and>
        raw = Some (selected (v_str (view_of s)) ?mp ms) \<and>
        view_of s' = v_hold d opts r (taken (v_str (view_of s)) ?mp ms) (view_of s))"
      using dequeue_script_view [OF Inr [unfolded out s1]] unfolding v_hold_def by blast
    show thesis
    proof (cases raw)
      case None
      then show thesis using view split Inr out by (intro that(1)) auto
    next
      case (Some result)
      then obtain c ms where ms: "ms = take c (filter (\<lambda>(m, sc). sc \<le> now) (zsorted (queued opts (view_of s) r)))"
        and result: "result = selected (v_str (view_of s)) ?mp ms"
        and v: "view_of s' = v_hold d opts r (taken (v_str (view_of s)) ?mp ms) (view_of s)"
        using view by auto
      show thesis
      proof (rule that(2) [OF v])
        fix x assume "x \<in> taken (v_str (view_of s)) ?mp ms"
        then obtain sc where "(x, sc) \<in> set ms" and str: "v_str (view_of s) (?mp @ x) \<noteq> None"
          by (auto simp: taken_def)
        then have "(x, sc) \<in> set (zsorted (queued opts (view_of s) r))" and "sc \<le> now"
          using ms by (auto dest: in_set_takeD)
        then have "queued opts (view_of s) r x = Some sc" by (simp add: set_zsorted [OF zset_finite])
        with \<open>sc \<le> now\<close> str show "(\<exists>sc \<le> now. queued opts (view_of s) r x = Some sc) \<and> stored opts (view_of s) (org_of r) x \<noteq> None"
          by (simp add: messageKey_unfold pk_def)
      next
        assume "taken (v_str (view_of s)) ?mp ms = {}"
        then have "result = []" by (auto simp: result selected_def taken_def filter_empty_conv)
        then show "res = Inr []" using split Inr out Some by simp
      qed
    qed
  qed
qed

subsection \<open>Every change keeps the invariant\<close>

lemma inv_of_parts:
  assumes "v_zset v' = v_zset v" and "v_set v' = v_set v" and "v_str v' = v_str v"
  shows "rq_inv d opts home v' \<longleftrightarrow> rq_inv d opts home v"
  by (rule rq_inv_cong) (simp_all add: assms wf_home)

lemma ack_preserves:
  assumes inv: "rq_inv d opts home (view_of s)"
    and z: "v_zset v' = v_zset (v_leave d opts (home m) m (view_of (rDEL (srv d) (pk opts (messageKey (org_of (home m)) m)) s)))"
    and st: "v_set v' = v_set (v_leave d opts (home m) m (view_of (rDEL (srv d) (pk opts (messageKey (org_of (home m)) m)) s)))"
    and str: "v_str v' = (v_str (view_of s))(pk opts (messageKey (org_of (home m)) m) := None)"
  shows "rq_inv d opts home v'"
proof (rule rq_invI)
  let ?w = "v_leave d opts (home m) m (view_of s)"
  have inv': "rq_inv d opts home ?w" by (rule leave_preserves [OF inv wf_home])
  have org: "colon_free (org_of (home m))" using wf_home by simp
  have q: "queued opts v' r = queued opts ?w r" "running opts v' r = running opts ?w r"
    "v_zset v' (pk opts (masterOf d opts r)) (qkey r) = v_zset ?w (pk opts (masterOf d opts r)) (qkey r)" if "wf_qref r" for r
    unfolding z st using that wf_home
    by (simp_all add: leave_lookups [OF wf_home that wf_qref_env [OF that]]
        del_message_lookups [OF org that wf_qref_env [OF that]]
        del_message_lookups [OF org wf_home wf_qref_env [OF wf_home]])
  have e: "env_queued opts v' env = env_queued opts ?w env" "env_running opts v' env = env_running opts ?w env" if "plain_env env" for env
    unfolding z st using that wf_home
    by (simp_all add: leave_lookups [OF wf_home wf_home that] del_message_lookups [OF org wf_home that]
        del_message_lookups [OF org wf_home wf_qref_env [OF wf_home]])
  have st: "stored opts v' orgId x = (if orgId = org_of (home m) \<and> x = m then None else stored opts ?w orgId x)" if "colon_free orgId" for orgId x
    using messageKey_inject2 [OF that org, of x m]
    by (auto simp: str leave_lookups(6) [OF wf_home wf_home wf_qref_env [OF wf_home]])
  show "inv_queue opts home v' r x" if "wf_qref r" for r x
    using rq_invD(1) [OF inv' that, of x] by (simp add: inv_queue_def q that)
  show "inv_env opts home v' env x" if "plain_env env" for env x
    using rq_invD(2) [OF inv' that, of x] by (simp add: inv_env_def q e that wf_home)
  show "inv_stored d opts home v' orgId x" if "colon_free orgId" for orgId x
    using rq_invD(4) [OF inv' that, of x] by (simp add: inv_stored_def st that)
  show "inv_master d opts v' r" if "wf_qref r" for r
    using rq_invD(5) [OF inv' that] by (simp add: inv_master_def q that)
  show "inv_payload opts home v' x" for x
    using rq_invD(3) [OF inv', of x]
    by (cases "x = m") (simp_all add: inv_payload_def q wf_home st leave_lookups [OF wf_home wf_home wf_qref_env [OF wf_home]])
qed

lemma dead_letter_preserves:
  assumes "rq_inv d opts home v"
  shows "rq_inv d opts home (v\<lparr>v_zset := (v_zset v)(pk opts (deadLetterQueueKey (r_env (home m))) := z)\<rparr>)"
proof -
  let ?k = "deadLetterQueueKey (r_env (home m))"
  have plain: "plain_env (r_env (home m))" using wf_home by simp
  have "qkey r \<noteq> ?k" "masterOf d opts r \<noteq> ?k" if "wf_qref r" for r
    using zset_keys_separate(4,6) [OF that plain plain, symmetric] by (simp_all add: masterOf_def)
  moreover have "envQueueKey env \<noteq> ?k" if "plain_env env" for env
    using zset_keys_separate(5) [OF wf_home plain that, symmetric] .
  ultimately have "rq_inv d opts home (v\<lparr>v_zset := (v_zset v)(pk opts ?k := z)\<rparr>) \<longleftrightarrow> rq_inv d opts home v"
    by (intro rq_inv_cong) (simp_all add: wf_home)
  then show ?thesis using assms by simp
qed

lemma release_preserves:
  assumes inv: "rq_inv d opts home v"
  shows "rq_inv d opts home (v_release (cc_keys opts (home m)) m v)"
proof (rule rq_invI)
  let ?w = "v_release (cc_keys opts (home m)) m v"
  note q = release_lookups(1) [OF wf_home _ wf_qref_env [OF wf_home]]
  note e = release_lookups(2) [OF wf_home wf_home]
  show "inv_queue opts home ?w r x" if "wf_qref r" for r x
    using rq_invD(1) [OF inv that, of x] unfolding inv_queue_def q [OF that] by auto
  show "inv_env opts home ?w env x" if "plain_env env" for env x
    using rq_invD(2) [OF inv that, of x] unfolding inv_env_def q [OF wf_home] e [OF that]
    by (cases "x = m"; cases "home x = home m"; cases "env = r_env (home m)") simp_all
  show "inv_stored d opts home ?w orgId x" if "colon_free orgId" for orgId x
    using rq_invD(4) [OF inv that, of x] by (simp add: inv_stored_def)
  show "inv_master d opts ?w r" if "wf_qref r" for r
    using rq_invD(5) [OF inv that] by (simp add: inv_master_def)
  show "inv_payload opts home ?w x" for x
    using rq_invD(3) [OF inv, of x] unfolding inv_payload_def q [OF wf_home] by auto
qed

end

end
