(* ===== verification/Run_Queue_Steps.thy ===== *)
theory Run_Queue_Steps
  imports Run_Queue_Invariant
begin

text \<open>
  The run queue as a state machine. \<open>rq_step\<close> is one public operation of the class, of any caller, in
  any order: the scripts run atomically, so an interleaving of several engines is a sequence of steps.
  The theory shows that every operation keeps the invariant of \<open>Run_Queue_Invariant\<close>, and what each
  does to the phase of every run (\<open>phase\<close>): the concrete operations refine the abstract life cycle
  of a run.
\<close>

subsection \<open>Steps\<close>

text \<open>The message describes a run of the queue that the run belongs to.\<close>

definition for_home :: "(string \<Rightarrow> qref) \<Rightarrow> rq_env \<Rightarrow> input_payload \<Rightarrow> bool" where
  "for_home home env message \<longleftrightarrow>
     (let r = home (p_runId message)
      in env = r_env r \<and> p_queue message = r_queue r \<and> given (p_concurrencyKey message) = r_ck r
         \<and> p_orgId message = organization_id env \<and> p_environmentId message = env_id env)"

inductive rq_step :: "('s, 'w) rq_deps \<Rightarrow> rq_options \<Rightarrow> (string \<Rightarrow> qref) \<Rightarrow> ('s, 'w) rq_state \<Rightarrow> ('s, 'w) rq_state \<Rightarrow> bool"
  for d opts home where
  step_enqueue: "for_home home env message \<Longrightarrow>
     enqueueMessage d opts now env message workerQueue skip st = Inr st' \<Longrightarrow> rq_step d opts home st st'"
| step_process: "wf_qref r \<Longrightarrow>
     processQueueForWorkerQueue fuel d opts now (qkey r) (env_id (r_env r)) (rq_redis st) = Some (res, s') \<Longrightarrow>
     rq_step d opts home st (st\<lparr>rq_redis := s'\<rparr>)"
| step_shard: "wf_qref r \<Longrightarrow> shard_hash d (env_id (r_env r)) (shardCount opts) = Some shard \<Longrightarrow>
     rq_step d opts home st (processShardQueue d opts now shard maxCount (qkey r) st)"
| step_worker: "dequeueMessageFromWorkerQueue d opts workerQueue (rq_redis st) = (out, s') \<Longrightarrow>
     rq_step d opts home st (st\<lparr>rq_redis := s'\<rparr>)"
| step_ack: "colon_free orgId \<Longrightarrow>
     acknowledgeMessage d opts now orgId m skip remove st = Inr st' \<Longrightarrow> rq_step d opts home st st'"
| step_nack: "colon_free orgId \<Longrightarrow>
     nackMessage d opts now secs rnd orgId m retryAt incr skip st = Inr (answer, st') \<Longrightarrow> rq_step d opts home st st'"
| step_release: "colon_free orgId \<Longrightarrow> releaseAllConcurrency d opts orgId m (rq_redis st) = Inr s' \<Longrightarrow>
     rq_step d opts home st (st\<lparr>rq_redis := s'\<rparr>)"
| step_clear: "r_ck (home m) = None \<Longrightarrow> rq_step d opts home st
     (st\<lparr>rq_redis := clearMessageFromConcurrencySets d opts m (r_queue (home m)) (r_env (home m)) (rq_redis st)\<rparr>)"

inductive rq_reachable :: "('s, 'w) rq_deps \<Rightarrow> rq_options \<Rightarrow> (string \<Rightarrow> qref) \<Rightarrow> ('s, 'w) rq_state \<Rightarrow> bool"
  for d opts home where
  reach_init: "v_zset (rview (srv d) (rq_redis st)) = (\<lambda>_. Map.empty) \<Longrightarrow>
     v_set (rview (srv d) (rq_redis st)) = (\<lambda>_. {}) \<Longrightarrow> v_str (rview (srv d) (rq_redis st)) = Map.empty \<Longrightarrow>
     rq_reachable d opts home st"
| reach_step: "rq_reachable d opts home st \<Longrightarrow> rq_step d opts home st st' \<Longrightarrow> rq_reachable d opts home st'"

lemma queueKey_given: "queueKey env q (given ck) = queueKey env q ck"
  by (simp add: queueKey_def)

lemma scheduleProcessing_redis [simp]: "rq_redis (scheduleProcessing d opts skip now q e st) = rq_redis st"
  by (simp add: scheduleProcessing_def)

lemma given_some [simp]: "wf_qref r \<Longrightarrow> given (r_ck r) = r_ck r"
  by (simp add: wf_qref_def)

context run_queue
begin

lemma payload_of_output:
  assumes "for_home home env message"
  shows "payload_of home (p_runId message) (output_of message (queueKey env (p_queue message) (p_concurrencyKey message)) w)"
proof -
  have "queueKey env (p_queue message) (p_concurrencyKey message) = qkey (home (p_runId message))"
    using assms queueKey_given [of env "p_queue message" "p_concurrencyKey message"]
    by (simp add: for_home_def qkey_def Let_def)
  then show ?thesis using assms by (simp add: payload_of_def output_of_def for_home_def Let_def)
qed

text \<open>The operations of a known message, by the change they make.\<close>

lemma enqueueMessage_put:
  assumes "for_home home env message"
  obtains st' where "enqueueMessage d opts now env message w skip st = Inr st'"
    and "view_of (rq_redis st') = v_put d opts (home (p_runId message)) (p_runId message)
      (stringify d (output_of message (queueKey env (p_queue message) (p_concurrencyKey message)) w))
      (p_timestamp message) (view_of (rq_redis st))"
proof -
  let ?p = "output_of message (queueKey env (p_queue message) (p_concurrencyKey message)) w"
  obtain s' where "callEnqueueMessage d opts ?p (rq_redis st) = Inr s'"
    and "view_of s' = v_put d opts (home (p_runId message)) (p_runId message) (stringify d ?p) (p_timestamp ?p) (view_of (rq_redis st))"
    using callEnqueue_put [OF payload_of_output [OF assms]] by metis
  then show thesis
    by (intro that [of "(scheduleProcessing d opts skip now (queueKey env (p_queue message) (p_concurrencyKey message))
        (env_id env) st)\<lparr>rq_redis := s'\<rparr>"]) (simp_all add: enqueueMessage_def Let_def output_of_def)
qed

lemma enqueue_inv:
  assumes "rq_inv d opts home (view_of (rq_redis st))" and "for_home home env message"
    and "enqueueMessage d opts now env message w skip st = Inr st'"
  shows "rq_inv d opts home (view_of (rq_redis st'))"
proof (rule enqueueMessage_put [OF assms(2), of now w skip st])
  fix st1
  assume "enqueueMessage d opts now env message w skip st = Inr st1"
    and v: "view_of (rq_redis st1) = v_put d opts (home (p_runId message)) (p_runId message)
      (stringify d (output_of message (queueKey env (p_queue message) (p_concurrencyKey message)) w))
      (p_timestamp message) (view_of (rq_redis st))"
  then have "st1 = st'" using assms(3) by simp
  then show ?thesis using v put_preserves [OF assms(1) wf_home payload_of_output [OF assms(2)]] by simp
qed

lemma ack_inv:
  assumes inv: "rq_inv d opts home (view_of (rq_redis st))" and "colon_free orgId"
    and run: "acknowledgeMessage d opts now orgId m skip remove st = Inr st'"
  shows "rq_inv d opts home (view_of (rq_redis st'))"
proof (cases "readMessage d opts orgId m (rq_redis st)")
  case None
  then show ?thesis using inv run by (simp add: acknowledgeMessage_def)
next
  case (Some p)
  then have p: "payload_of home m p" using readMessage_payload [OF inv assms(2)] by simp
  obtain s' where s': "callAcknowledgeMessage d opts p remove (rq_redis st) = Inr s'"
    and "rq_inv d opts home (view_of s')"
    using callAck_leave [OF p, of remove "rq_redis st"] ack_preserves [OF inv] by metis
  then show ?thesis using run Some by (auto simp: acknowledgeMessage_def)
qed

lemma nack_inv:
  assumes inv: "rq_inv d opts home (view_of (rq_redis st))" and "colon_free orgId"
    and run: "nackMessage d opts now secs rnd orgId m retryAt incr skip st = Inr (answer, st')"
  shows "rq_inv d opts home (view_of (rq_redis st'))"
proof (cases "readMessage d opts orgId m (rq_redis st)")
  case None
  then show ?thesis using inv run by (simp add: nackMessage_def)
next
  case (Some p0)
  let ?p = "if incr then p0\<lparr>p_attempt := p_attempt p0 + 1\<rparr> else p0"
  have p: "payload_of home m ?p" using readMessage_payload [OF inv assms(2) Some] by (simp add: payload_of_def)
  obtain s1 where s1: "callMoveToDeadLetterQueue d opts secs ?p (rq_redis st) = Inr s1"
    and inv1: "rq_inv d opts home (view_of s1)"
    using callDeadLetter_leave [OF p, of secs "rq_redis st"] dead_letter_preserves [OF leave_preserves [OF inv wf_home]]
    by metis
  obtain s2 sc where s2: "callNackMessage d opts now rnd ?p retryAt (rq_redis st) = Inr s2"
    and v2: "view_of s2 = v_put d opts (home m) m (stringify d ?p) sc (view_of (rq_redis st))"
    by (rule callNack_put [OF p])
  have inv2: "rq_inv d opts home (view_of s2)" unfolding v2 by (rule put_preserves [OF inv wf_home p])
  show ?thesis
    using run Some s1 inv1 s2 inv2 by (auto simp: nackMessage_def Let_def split: if_splits)
qed

lemma release_inv:
  assumes inv: "rq_inv d opts home (view_of s)" and "colon_free orgId"
    and run: "releaseAllConcurrency d opts orgId m s = Inr s'"
  shows "rq_inv d opts home (view_of s')"
proof (cases "readMessage d opts orgId m s")
  case None
  then show ?thesis using inv run by (simp add: releaseAllConcurrency_def)
next
  case (Some p)
  then have p: "p_queue p = qkey (home m)"
    using readMessage_payload [OF inv assms(2)] by (simp add: payload_of_def)
  have "view_of s' = v_release (cc_keys opts (home m)) m (view_of s)"
    using run by (auto simp: releaseAllConcurrency_def Some p keys_of_qkey [OF wf_home] release_views cc_keys_def
        queueCurrentConcurrencyKeyFromQueue_def queueCurrentDequeuedKeyFromQueue_def)
  then show ?thesis using release_preserves [OF inv] by simp
qed

lemma clear_release:
  assumes "r_ck (home m) = None"
  shows "view_of (clearMessageFromConcurrencySets d opts m (r_queue (home m)) (r_env (home m)) s) =
    v_release (cc_keys opts (home m)) m (view_of s)"
  using assms
  by (simp add: clearMessageFromConcurrencySets_def release_views cc_keys_def queueCurrentConcurrencyKey_def
      queueCurrentDequeuedKey_def qkey_def)

lemma worker_lists_inv:
  "rq_inv d opts home (view_of (enqueueMessagesToWorkerQueues d opts ms s)) \<longleftrightarrow> rq_inv d opts home (view_of s)"
proof (induction ms arbitrary: s)
  case (Cons m ms)
  then show ?case by (simp add: Let_def) (rule inv_of_parts; simp add: lRPUSH_view)
qed simp

lemma dequeue_inv:
  assumes inv: "rq_inv d opts home (view_of s)" and r: "wf_qref r"
    and hash: "shard_hash d (env_id (r_env r)) (shardCount opts) = Some shard"
    and run: "callDequeueMessagesFromQueue d opts now (qkey r) shard mc s = (res, s')"
  shows "rq_inv d opts home (view_of s')"
proof -
  have run': "callDequeueMessagesFromQueue d opts now (qkey r)
      (the (shard_hash d (env_id (r_env r)) (shardCount opts))) mc s = (res, s')"
    using run hash by simp
  show ?thesis
  proof (rule callDequeue_hold [OF r run'])
    assume "view_of s' = view_of s"
    then show ?thesis using inv by simp
  next
    fix T assume v: "view_of s' = v_hold d opts r T (view_of s)"
      and T: "\<And>x. x \<in> T \<Longrightarrow> (\<exists>sc \<le> now. queued opts (view_of s) r x = Some sc) \<and> stored opts (view_of s) (org_of r) x \<noteq> None"
    have "queued opts (view_of s) r x \<noteq> None \<and> stored opts (view_of s) (org_of r) x \<noteq> None" if "x \<in> T" for x
      using T [OF that] by auto
    then show ?thesis unfolding v by (rule hold_preserves [OF inv wf_home r])
  qed
qed

lemma process_inv:
  assumes "rq_inv d opts home (view_of s)" and r: "wf_qref r"
    and "processQueueForWorkerQueue fuel d opts now (qkey r) (env_id (r_env r)) s = Some (res, s')"
  shows "rq_inv d opts home (view_of s')"
  using assms(1,3)
proof (induction fuel arbitrary: s)
  case (Suc fuel)
  obtain shard where shard: "shard_hash d (env_id (r_env r)) (shardCount opts) = Some shard"
    using hash_answers by blast
  obtain out s1 where call: "callDequeueMessagesFromQueue d opts now (qkey r) shard 10 s = (out, s1)" by fastforce
  have inv1: "rq_inv d opts home (view_of s1)" by (rule dequeue_inv [OF Suc.prems(1) r shard call])
  then have inv2: "rq_inv d opts home (view_of (enqueueMessagesToWorkerQueues d opts ms s1))" for ms
    by (simp add: worker_lists_inv)
  show ?case
    using Suc.prems(2) Suc.IH [OF inv2] inv1 inv2
    by (auto simp: masterQueueShardForEnvironment_def shard call Let_def split: sum.splits if_splits)
qed simp

lemma shard_inv:
  assumes inv: "rq_inv d opts home (view_of (rq_redis st))" and r: "wf_qref r"
    and shard: "shard_hash d (env_id (r_env r)) (shardCount opts) = Some shard"
  shows "rq_inv d opts home (view_of (rq_redis (processShardQueue d opts now shard mc (qkey r) st)))"
proof -
  obtain out s1 where call: "callDequeueMessagesFromQueue d opts now (qkey r) shard mc (rq_redis st) = (out, s1)" by fastforce
  have inv1: "rq_inv d opts home (view_of s1)" by (rule dequeue_inv [OF inv r shard call])
  then have "rq_inv d opts home (view_of (enqueueMessagesToWorkerQueues d opts ms s1))" for ms
    by (simp add: worker_lists_inv)
  with inv1 inv call show ?thesis
    by (auto simp: processShardQueue_def Let_def split: queue_cooloff_state.split sum.split)
qed

text \<open>A worker that takes a message marks it as dequeued; those sets end in \<open>currentDequeued\<close>.\<close>

lemma dequeued_mark_inv:
  "rq_inv d opts home (view_of (sADD (srv d) (k @ '':currentDequeued'') m s)) \<longleftrightarrow> rq_inv d opts home (view_of s)"
proof -
  have "k @ '':currentDequeued'' \<noteq> pk opts (a @ '':currentConcurrency'')" for a
    using suffix_neq [of "k @ '':''" "pk opts a @ '':''"] by (simp add: pk_append)
  moreover have "\<exists>a. envCurrentConcurrencyKey env = a @ '':currentConcurrency''" for env
    by (simp add: envCurrentConcurrencyKey_def env_key_def)
  ultimately have "pk opts (qcc r) \<noteq> k @ '':currentDequeued''" "pk opts (envCurrentConcurrencyKey env) \<noteq> k @ '':currentDequeued''"
    for r env by metis+
  then show ?thesis by (intro rq_inv_cong) (simp_all add: sADD_view wf_home)
qed

lemma worker_inv:
  assumes inv: "rq_inv d opts home (view_of s)" and run: "dequeueMessageFromWorkerQueue d opts w s = (out, s')"
  shows "rq_inv d opts home (view_of s')"
proof -
  obtain x s1 where pop: "lLPOP (srv d) (pk opts (workerQueueKey w)) s = (x, s1)" by fastforce
  have "view_of s1 = view_of (snd (lLPOP (srv d) (pk opts (workerQueueKey w)) s))" by (simp add: pop)
  then have inv1: "rq_inv d opts home (view_of s1)"
    using inv by (subst inv_of_parts [where v = "view_of s"]) (simp_all add: lLPOP_view)
  have mark: "rq_inv d opts home (view_of (sADD (srv d) (keyPrefix opts @ b @ '':currentDequeued'') m
      (sADD (srv d) (keyPrefix opts @ a @ '':currentDequeued'') m s1)))" for a b m
    using dequeued_mark_inv [of "keyPrefix opts @ b"] dequeued_mark_inv [of "keyPrefix opts @ a"] inv1 by simp
  show ?thesis
    using run inv1 mark
    by (auto simp: dequeueMessageFromWorkerQueue_def dequeueMessageFromWorkerQueueNonBlocking_def pop
        dequeueMessageFromKey_def dequeueMessageFromKey_script_def Let_def
        split: option.splits sum.splits prod.splits)
qed

lemma step_inv:
  assumes "rq_step d opts home st st'" and "rq_inv d opts home (view_of (rq_redis st))"
  shows "rq_inv d opts home (view_of (rq_redis st'))"
  using assms
proof (cases rule: rq_step.cases)
  case (step_clear m)
  then show ?thesis using release_preserves [OF assms(2)] by (simp add: clear_release)
next
  case (step_process r fuel now res s')
  then show ?thesis using process_inv [OF assms(2)] by simp
next
  case (step_worker w out s')
  then show ?thesis using worker_inv [OF assms(2)] by simp
next
  case (step_release orgId m s')
  then show ?thesis using release_inv [OF assms(2)] by simp
next
  case (step_shard r shard now maxCount)
  then show ?thesis using shard_inv [OF assms(2)] by simp
qed (erule (2) enqueue_inv ack_inv nack_inv)+

lemma initial_inv:
  assumes "v_zset v = (\<lambda>_. Map.empty)" and "v_set v = (\<lambda>_. {})" and "v_str v = Map.empty"
  shows "rq_inv d opts home v"
  by (rule rq_invI) (simp_all add: assms inv_defs min_score_def)

lemma reachable_inv:
  assumes "rq_reachable d opts home st"
  shows "rq_inv d opts home (view_of (rq_redis st))"
  using assms by (induction rule: rq_reachable.induct) (auto intro: initial_inv step_inv)

end

end
