(* ===== verification/Run_Queue_Life.thy ===== *)
theory Run_Queue_Life
  imports Run_Queue_Steps
begin

text \<open>
  The life cycle of a run in the queue, as callers see it: absent, waiting with a score, running (it
  holds concurrency), or parked (stored but neither queued nor running: released, or in the dead letter
  queue). Each operation of the class is shown to be exactly one change of this abstract state, and the
  properties of the operations follow.
\<close>

subsection \<open>Phases\<close>

datatype run_phase = Absent | Waiting int | Running | Parked

fun phase_of :: "string option \<Rightarrow> int option \<Rightarrow> bool \<Rightarrow> run_phase" where
  "phase_of None _ _ = Absent"
| "phase_of (Some _) (Some sc) _ = Waiting sc"
| "phase_of (Some _) None holds = (if holds then Running else Parked)"

definition phase :: "('s, 'w) rq_deps \<Rightarrow> rq_options \<Rightarrow> (string \<Rightarrow> qref) \<Rightarrow> 's \<Rightarrow> string \<Rightarrow> run_phase" where
  "phase d opts home s m =
     phase_of (stored opts (rview (srv d) s) (org_of (home m)) m) (queued opts (rview (srv d) s) (home m) m)
       (m \<in> running opts (rview (srv d) s) (home m))"

lemma phase_of_release: "phase_of str q False = (if phase_of str q h = Running then Parked else phase_of str q h)"
  by (cases "(str, q, h)" rule: phase_of.cases) auto

lemma phase_of_parked: "str \<noteq> None \<Longrightarrow> phase_of str None False = Parked"
  by (cases str) auto

lemma phase_of_running: "str \<noteq> None \<Longrightarrow> phase_of str None True = Running"
  by (cases str) auto

lemma phase_cong:
  assumes "stored opts (rview (srv d) s') (org_of (home m)) m = stored opts (rview (srv d) s) (org_of (home m)) m"
    and "queued opts (rview (srv d) s') (home m) m = queued opts (rview (srv d) s) (home m) m"
    and "m \<in> running opts (rview (srv d) s') (home m) \<longleftrightarrow> m \<in> running opts (rview (srv d) s) (home m)"
  shows "phase d opts home s' m = phase d opts home s m"
  using assms by (simp add: phase_def)

text \<open>The abstract machine: a run starts only when it waits and is due, and only a stored run is queued
  again, parked or released.\<close>

inductive life_step :: "(string \<Rightarrow> qref) \<Rightarrow> (string \<Rightarrow> run_phase) \<Rightarrow> (string \<Rightarrow> run_phase) \<Rightarrow> bool" for home where
  life_submit: "life_step home P (P(m := Waiting sc))"
| life_start: "(\<And>x. x \<in> T \<Longrightarrow> home x = r \<and> (\<exists>sc \<le> now. P x = Waiting sc)) \<Longrightarrow>
     life_step home P (\<lambda>x. if x \<in> T then Running else P x)"
| life_finish: "P m \<noteq> Absent \<Longrightarrow> life_step home P (P(m := Absent))"
| life_retry: "P m \<noteq> Absent \<Longrightarrow> life_step home P (P(m := Waiting sc))"
| life_dead: "P m \<noteq> Absent \<Longrightarrow> life_step home P (P(m := Parked))"
| life_release: "P m = Running \<Longrightarrow> life_step home P (P(m := Parked))"

abbreviation life_steps :: "(string \<Rightarrow> qref) \<Rightarrow> (string \<Rightarrow> run_phase) \<Rightarrow> (string \<Rightarrow> run_phase) \<Rightarrow> bool" where
  "life_steps home \<equiv> (life_step home)\<^sup>*\<^sup>*"

context run_queue
begin

lemma phase_put:
  assumes "view_of s' = v_put d opts (home m) m p sc (view_of s)"
  shows "phase d opts home s' = (phase d opts home s)(m := Waiting sc)"
proof
  fix x
  note look = put_lookups(1,4) [OF wf_home wf_home wf_qref_env [OF wf_home]]
    put_stored [OF wf_home org_colon_free [OF wf_qref_env [OF wf_home]]]
  show "phase d opts home s' x = ((phase d opts home s)(m := Waiting sc)) x"
    by (cases "x = m"; cases "home x = home m") (simp_all add: phase_def assms look)
qed

lemma phase_leave:
  assumes "\<And>x. queued opts (view_of s') (home x) = queued opts (v_leave d opts (home m) m (view_of s)) (home x)"
    and "\<And>x. running opts (view_of s') (home x) = running opts (v_leave d opts (home m) m (view_of s)) (home x)"
    and "v_str (view_of s') = v_str (view_of s)" and "stored opts (view_of s) (org_of (home m)) m \<noteq> None"
  shows "phase d opts home s' = (phase d opts home s)(m := Parked)"
proof
  fix x
  note look = leave_lookups(1,4) [OF wf_home wf_home wf_qref_env [OF wf_home]]
  show "phase d opts home s' x = ((phase d opts home s)(m := Parked)) x"
    using assms(4) by (cases "x = m"; cases "home x = home m") (simp_all add: phase_def assms(1-3) look phase_of_parked)
qed

lemma phase_hold:
  assumes "rq_inv d opts home (view_of s)" and r: "wf_qref r" and "view_of s' = v_hold d opts r T (view_of s)"
    and T: "\<And>x. x \<in> T \<Longrightarrow> queued opts (view_of s) r x \<noteq> None \<and> stored opts (view_of s) (org_of r) x \<noteq> None"
  shows "phase d opts home s' = (\<lambda>x. if x \<in> T then Running else phase d opts home s x)"
proof
  fix x
  have home: "home x = r" if "x \<in> T"
    using T [OF that] rq_invD(1) [OF assms(1) r, of x] by (simp add: inv_queue_def)
  note look = hold_lookups(1,4,6) [OF r wf_home wf_qref_env [OF wf_home]]
    hold_lookups(1,4,6) [OF r r wf_qref_env [OF r]]
  show "phase d opts home s' x = (if x \<in> T then Running else phase d opts home s x)"
    using home T [of x] by (cases "x \<in> T"; cases "home x = r") (simp_all add: phase_def assms(3) look phase_of_running)
qed

lemma phase_release:
  assumes "view_of s' = v_release (cc_keys opts (home m)) m (view_of s)"
  shows "phase d opts home s' = (phase d opts home s)(m := (if phase d opts home s m = Running then Parked else phase d opts home s m))"
proof
  fix x
  note look = release_lookups(1) [OF wf_home wf_home wf_qref_env [OF wf_home]]
  show "phase d opts home s' x = ((phase d opts home s)(m := (if phase d opts home s m = Running then Parked else phase d opts home s m))) x"
    using phase_of_release [of "stored opts (view_of s) (org_of (home m)) m" "queued opts (view_of s) (home m) m"
        "m \<in> running opts (view_of s) (home m)"]
    by (cases "x = m"; cases "home x = home m") (simp_all add: phase_def assms look del: v_release_simps(5))
qed

subsection \<open>The operations on phases\<close>

lemma phase_absent_iff: "phase d opts home s m = Absent \<longleftrightarrow> stored opts (view_of s) (org_of (home m)) m = None"
  by (cases "(stored opts (view_of s) (org_of (home m)) m, queued opts (view_of s) (home m) m, m \<in> running opts (view_of s) (home m))"
      rule: phase_of.cases) (auto simp: phase_def)

lemma readMessage_none:
  assumes "rq_inv d opts home (view_of s)"
  shows "readMessage d opts (org_of (home m)) m s = None \<longleftrightarrow> phase d opts home s m = Absent"
  using rq_invD(4) [OF assms, of "org_of (home m)" m] wf_home
  by (auto simp: phase_absent_iff inv_stored_def readMessage_def read_views parse_stringify split: option.splits)

lemma readMessage_present:
  assumes "rq_inv d opts home (view_of s)" and "colon_free orgId" and "readMessage d opts orgId m s = Some p"
  shows "phase d opts home s m \<noteq> Absent"
  using readMessage_payload [OF assms] by (simp add: phase_absent_iff)

lemma phase_ack:
  assumes "rq_inv d opts home (view_of s)"
    and z: "v_zset (view_of s') = v_zset (v_leave d opts (home m) m (view_of (rDEL (srv d) (pk opts (messageKey (org_of (home m)) m)) s)))"
    and st: "v_set (view_of s') = v_set (v_leave d opts (home m) m (view_of (rDEL (srv d) (pk opts (messageKey (org_of (home m)) m)) s)))"
    and str: "v_str (view_of s') = (v_str (view_of s))(pk opts (messageKey (org_of (home m)) m) := None)"
  shows "phase d opts home s' = (phase d opts home s)(m := Absent)"
proof
  fix x
  have org: "colon_free (org_of (home y))" for y using wf_home by simp
  note look = leave_lookups(1,4) [OF wf_home wf_home wf_qref_env [OF wf_home]]
    del_message_lookups [OF org wf_home wf_qref_env [OF wf_home]]
  have str': "stored opts (view_of s') (org_of (home x)) x =
      (if x = m then None else stored opts (view_of s) (org_of (home x)) x)"
    using messageKey_inject2 [OF org org, of x x m m] by (auto simp: str)
  show "phase d opts home s' x = ((phase d opts home s)(m := Absent)) x"
    using str' by (cases "x = m"; cases "home x = home m") (simp_all add: phase_def z st look)
qed

lemma acknowledge_phase:
  assumes inv: "rq_inv d opts home (view_of (rq_redis st))"
  shows "\<exists>st'. acknowledgeMessage d opts now (org_of (home m)) m skip remove st = Inr st'
    \<and> phase d opts home (rq_redis st') = (phase d opts home (rq_redis st))(m := Absent)"
proof (cases "readMessage d opts (org_of (home m)) m (rq_redis st)")
  case None
  then show ?thesis using readMessage_none [OF inv, of m] by (simp add: acknowledgeMessage_def fun_upd_idem)
next
  case (Some p)
  then have p: "payload_of home m p"
    using readMessage_payload [OF inv org_colon_free [OF wf_qref_env [OF wf_home]]] by blast
  obtain s' where "callAcknowledgeMessage d opts p remove (rq_redis st) = Inr s'"
    and "phase d opts home s' = (phase d opts home (rq_redis st))(m := Absent)"
    using callAck_leave [OF p, of remove "rq_redis st"] phase_ack [OF inv] by metis
  then show ?thesis using Some by (simp add: acknowledgeMessage_def)
qed

lemma dead_letter_phase:
  assumes inv: "rq_inv d opts home (view_of s)" and p: "payload_of home m p" and "phase d opts home s m \<noteq> Absent"
  obtains s' where "callMoveToDeadLetterQueue d opts secs p s = Inr s'"
    and "phase d opts home s' = (phase d opts home s)(m := Parked)"
    and "zSCORE (srv d) (pk opts (deadLetterQueueKey (r_env (home m)))) m s' = Some secs"
proof (rule callDeadLetter_leave [OF p, of secs s])
  fix s'
  let ?k = "deadLetterQueueKey (r_env (home m))"
  assume s': "callMoveToDeadLetterQueue d opts secs p s = Inr s'"
    "view_of s' = (v_leave d opts (home m) m (view_of s))\<lparr>v_zset := (v_zset (v_leave d opts (home m) m (view_of s)))(pk opts ?k :=
        (v_zset (v_leave d opts (home m) m (view_of s)) (pk opts ?k))(m := Some secs))\<rparr>"
  have plain: "plain_env (r_env (home y))" for y using wf_home by simp
  have "phase d opts home s' = (phase d opts home s)(m := Parked)"
    by (rule phase_leave)
      (use assms(3) zset_keys_separate(4) [OF wf_home plain plain, symmetric] in
        \<open>simp_all add: s'(2) phase_absent_iff leave_lookups(6) [OF wf_home wf_home plain]\<close>)
  moreover have "zSCORE (srv d) (pk opts ?k) m s' = Some secs" by (simp add: read_views s'(2))
  ultimately show thesis using s'(1) that by blast
qed

text \<open>Returning a message: queued again with the attempt counted, or to the dead letter queue.\<close>

lemma nack_phase:
  assumes inv: "rq_inv d opts home (view_of (rq_redis st))" and orgId: "colon_free orgId"
    and read: "readMessage d opts orgId m (rq_redis st) = Some p0"
    and p: "p = (if incr then p0\<lparr>p_attempt := p_attempt p0 + 1\<rparr> else p0)"
  shows "(incr \<and> with_default (maxAttempts (retryOptions opts)) (the (maxAttempts defaultRetrySettings)) \<le> p_attempt p \<longrightarrow>
      (\<exists>st'. nackMessage d opts now secs rnd orgId m retryAt incr skip st = Inr (Some False, st')
        \<and> phase d opts home (rq_redis st') = (phase d opts home (rq_redis st))(m := Parked)
        \<and> zSCORE (srv d) (pk opts (deadLetterQueueKey (r_env (home m)))) m (rq_redis st') = Some secs))
    \<and> (\<not> (incr \<and> with_default (maxAttempts (retryOptions opts)) (the (maxAttempts defaultRetrySettings)) \<le> p_attempt p) \<longrightarrow>
      (\<exists>st' sc. nackMessage d opts now secs rnd orgId m retryAt incr skip st = Inr (Some True, st')
        \<and> phase d opts home (rq_redis st') = (phase d opts home (rq_redis st))(m := Waiting sc)
        \<and> (\<forall>t. retryAt = Some t \<longrightarrow> sc = t)
        \<and> readMessage d opts orgId m (rq_redis st') = Some p))" (is "(?dead \<longrightarrow> ?D) \<and> (\<not> ?dead \<longrightarrow> ?R)")
proof -
  have home0: "payload_of home m p0" "orgId = org_of (home m)"
    using readMessage_payload [OF inv orgId read] by auto
  have pl: "payload_of home m p" using home0 by (simp add: p payload_of_def)
  have present: "phase d opts home (rq_redis st) m \<noteq> Absent" by (rule readMessage_present [OF inv orgId read])
  obtain s1 where s1: "callMoveToDeadLetterQueue d opts secs p (rq_redis st) = Inr s1"
      "phase d opts home s1 = (phase d opts home (rq_redis st))(m := Parked)"
      "zSCORE (srv d) (pk opts (deadLetterQueueKey (r_env (home m)))) m s1 = Some secs"
    by (rule dead_letter_phase [OF inv pl present])
  obtain s2 sc where s2: "callNackMessage d opts now rnd p retryAt (rq_redis st) = Inr s2"
      "view_of s2 = v_put d opts (home m) m (stringify d p) sc (view_of (rq_redis st))"
      "\<forall>t. retryAt = Some t \<longrightarrow> sc = t"
    by (rule callNack_put [OF pl])
  have "readMessage d opts orgId m s2 = Some p"
    by (simp add: readMessage_def read_views s2(2) home0(2) parse_stringify
        put_stored [OF wf_home org_colon_free [OF wf_qref_env [OF wf_home]]])
  then have "\<not> ?dead \<longrightarrow> ?R"
    using s2 phase_put [OF s2(2)] read p by (auto simp: nackMessage_def Let_def)
  moreover have "?dead \<longrightarrow> ?D"
    using s1 read p by (auto simp: nackMessage_def Let_def)
  ultimately show ?thesis by blast
qed

lemma dequeue_life:
  assumes inv: "rq_inv d opts home (view_of s)" and r: "wf_qref r"
    and hash: "shard_hash d (env_id (r_env r)) (shardCount opts) = Some shard"
    and run: "callDequeueMessagesFromQueue d opts now (qkey r) shard mc s = (res, s')"
  shows "life_steps home (phase d opts home s) (phase d opts home s')"
proof -
  have run': "callDequeueMessagesFromQueue d opts now (qkey r)
      (the (shard_hash d (env_id (r_env r)) (shardCount opts))) mc s = (res, s')"
    using run hash by simp
  show ?thesis
  proof (rule callDequeue_hold [OF r run'])
    assume "view_of s' = view_of s"
    then have "phase d opts home s' = phase d opts home s" by (simp add: phase_def fun_eq_iff)
    then show ?thesis by simp
  next
    fix T assume v: "view_of s' = v_hold d opts r T (view_of s)"
      and T: "\<And>x. x \<in> T \<Longrightarrow> (\<exists>sc \<le> now. queued opts (view_of s) r x = Some sc) \<and> stored opts (view_of s) (org_of r) x \<noteq> None"
    have T': "queued opts (view_of s) r x \<noteq> None \<and> stored opts (view_of s) (org_of r) x \<noteq> None" if "x \<in> T" for x
      using T [OF that] by auto
    have "home x = r \<and> (\<exists>sc \<le> now. phase d opts home s x = Waiting sc)" if x: "x \<in> T" for x
    proof -
      obtain sc where sc: "sc \<le> now" "queued opts (view_of s) r x = Some sc" using T [OF x] by blast
      then have "home x = r" using rq_invD(1) [OF inv r, of x] by (simp add: inv_queue_def)
      moreover obtain str where "stored opts (view_of s) (org_of r) x = Some str" using T' [OF x] by blast
      ultimately show ?thesis using sc by (simp add: phase_def)
    qed
    then have "life_step home (phase d opts home s) (\<lambda>x. if x \<in> T then Running else phase d opts home s x)"
      by (rule life_start)
    moreover have "phase d opts home s' = (\<lambda>x. if x \<in> T then Running else phase d opts home s x)"
      by (rule phase_hold [OF inv r v T'])
    ultimately show ?thesis by simp
  qed
qed

lemma worker_lists_phase:
  "phase d opts home (enqueueMessagesToWorkerQueues d opts ms s) = phase d opts home s"
proof (induction ms arbitrary: s)
  case (Cons m ms)
  have "phase d opts home (lRPUSH (srv d) k x s) = phase d opts home s" for k x
    by (simp add: phase_def lRPUSH_view fun_eq_iff)
  then show ?case using Cons by (simp add: Let_def)
qed simp

lemma process_life:
  assumes "rq_inv d opts home (view_of s)" and r: "wf_qref r"
    and "processQueueForWorkerQueue fuel d opts now (qkey r) (env_id (r_env r)) s = Some (res, s')"
  shows "life_steps home (phase d opts home s) (phase d opts home s')"
  using assms(1,3)
proof (induction fuel arbitrary: s)
  case (Suc fuel)
  obtain shard where shard: "shard_hash d (env_id (r_env r)) (shardCount opts) = Some shard"
    using hash_answers by blast
  obtain out s1 where call: "callDequeueMessagesFromQueue d opts now (qkey r) shard 10 s = (out, s1)" by fastforce
  have life: "life_steps home (phase d opts home s) (phase d opts home s1)"
    by (rule dequeue_life [OF Suc.prems(1) r shard call])
  have inv: "rq_inv d opts home (view_of (enqueueMessagesToWorkerQueues d opts ms s1))" for ms
    using dequeue_inv [OF Suc.prems(1) r shard call] by (simp add: worker_lists_inv)
  have more: "life_steps home (phase d opts home s) (phase d opts home s2)"
    if "life_steps home (phase d opts home (enqueueMessagesToWorkerQueues d opts ms s1)) (phase d opts home s2)" for ms s2
    using life that by (simp add: worker_lists_phase)
  show ?case
    using Suc.prems(2) Suc.IH [OF inv, THEN more] life
    by (auto simp: masterQueueShardForEnvironment_def shard call Let_def worker_lists_phase split: sum.splits if_splits)
qed simp

lemma shard_life:
  assumes inv: "rq_inv d opts home (view_of (rq_redis st))" and r: "wf_qref r"
    and shard: "shard_hash d (env_id (r_env r)) (shardCount opts) = Some shard"
  shows "life_steps home (phase d opts home (rq_redis st))
    (phase d opts home (rq_redis (processShardQueue d opts now shard mc (qkey r) st)))"
proof -
  obtain out s1 where call: "callDequeueMessagesFromQueue d opts now (qkey r) shard mc (rq_redis st) = (out, s1)" by fastforce
  show ?thesis
    using dequeue_life [OF inv r shard call] call
    by (auto simp: processShardQueue_def Let_def worker_lists_phase split: queue_cooloff_state.split sum.split)
qed

text \<open>A worker's dequeue touches no queue and no \<open>currentConcurrency\<close> set.\<close>

lemma worker_phase:
  assumes run: "dequeueMessageFromWorkerQueue d opts w s = (out, s')"
  shows "phase d opts home s' = phase d opts home s"
proof -
  obtain x s1 where pop: "lLPOP (srv d) (pk opts (workerQueueKey w)) s = (x, s1)" by fastforce
  have "view_of s1 = view_of (snd (lLPOP (srv d) (pk opts (workerQueueKey w)) s))" by (simp add: pop)
  then have ph1: "phase d opts home s1 = phase d opts home s" by (simp add: phase_def lLPOP_view fun_eq_iff)
  have "pk opts (qcc r) \<noteq> keyPrefix opts @ a @ '':currentDequeued''" for r a
    using suffix_neq [of "keyPrefix opts @ a @ '':''" "pk opts (qkey r) @ '':''"] by (auto simp: pk_append)
  then have "phase d opts home (sADD (srv d) (keyPrefix opts @ a @ '':currentDequeued'') m t) = phase d opts home t" for a m t
    by (simp add: phase_def sADD_view fun_eq_iff)
  then show ?thesis
    using run ph1
    by (auto simp: dequeueMessageFromWorkerQueue_def dequeueMessageFromWorkerQueueNonBlocking_def pop
        dequeueMessageFromKey_def dequeueMessageFromKey_script_def Let_def
        split: option.splits sum.splits prod.splits)
qed

lemma enqueue_phase:
  assumes "for_home home env message"
  obtains st' where "enqueueMessage d opts now env message w skip st = Inr st'"
    and "phase d opts home (rq_redis st') = (phase d opts home (rq_redis st))(p_runId message := Waiting (p_timestamp message))"
    and "readMessage d opts (p_orgId message) (p_runId message) (rq_redis st') =
      Some (output_of message (queueKey env (p_queue message) (p_concurrencyKey message)) w)"
proof (rule enqueueMessage_put [OF assms, of now w skip st])
  fix st'
  let ?p = "output_of message (queueKey env (p_queue message) (p_concurrencyKey message)) w"
  assume st': "enqueueMessage d opts now env message w skip st = Inr st'"
    "view_of (rq_redis st') = v_put d opts (home (p_runId message)) (p_runId message) (stringify d ?p)
      (p_timestamp message) (view_of (rq_redis st))"
  have org: "p_orgId message = org_of (home (p_runId message))" using assms by (simp add: for_home_def Let_def)
  have "readMessage d opts (p_orgId message) (p_runId message) (rq_redis st') = Some ?p"
    by (simp add: readMessage_def read_views st'(2) org parse_stringify
        put_stored [OF wf_home org_colon_free [OF wf_qref_env [OF wf_home]]])
  then show thesis using that st'(1) phase_put [OF st'(2)] by blast
qed

lemma release_life:
  assumes inv: "rq_inv d opts home (view_of s)" and "view_of s' = v_release (cc_keys opts (home m)) m (view_of s)"
  shows "life_steps home (phase d opts home s) (phase d opts home s')"
  using life_release [of "phase d opts home s" m home]
  by (cases "phase d opts home s m = Running") (simp_all add: phase_release [OF assms(2)] r_into_rtranclp)

lemma releaseAllConcurrency_view:
  assumes inv: "rq_inv d opts home (view_of s)" and "colon_free orgId"
    and run: "releaseAllConcurrency d opts orgId m s = Inr s'"
  shows "s' = s \<or> view_of s' = v_release (cc_keys opts (home m)) m (view_of s)"
proof (cases "readMessage d opts orgId m s")
  case None
  then show ?thesis using run by (simp add: releaseAllConcurrency_def)
next
  case (Some p)
  then have p: "p_queue p = qkey (home m)"
    using readMessage_payload [OF inv assms(2)] by (simp add: payload_of_def)
  then show ?thesis
    using run by (auto simp: releaseAllConcurrency_def Some p keys_of_qkey [OF wf_home] release_views cc_keys_def
        queueCurrentConcurrencyKeyFromQueue_def queueCurrentDequeuedKeyFromQueue_def)
qed

lemma ack_life:
  assumes inv: "rq_inv d opts home (view_of (rq_redis st))" and orgId: "colon_free orgId"
    and run: "acknowledgeMessage d opts now orgId m skip remove st = Inr st'"
  shows "life_steps home (phase d opts home (rq_redis st)) (phase d opts home (rq_redis st'))"
proof (cases "readMessage d opts orgId m (rq_redis st)")
  case None
  then show ?thesis using run by (simp add: acknowledgeMessage_def)
next
  case (Some p)
  then have "orgId = org_of (home m)" "phase d opts home (rq_redis st) m \<noteq> Absent"
    using readMessage_payload [OF inv orgId Some] readMessage_present [OF inv orgId Some] by auto
  then show ?thesis
    using acknowledge_phase [OF inv, of now m skip remove] run life_finish [of "phase d opts home (rq_redis st)" m home]
    by auto
qed

lemma nack_life:
  assumes inv: "rq_inv d opts home (view_of (rq_redis st))" and orgId: "colon_free orgId"
    and run: "nackMessage d opts now secs rnd orgId m retryAt incr skip st = Inr (answer, st')"
  shows "life_steps home (phase d opts home (rq_redis st)) (phase d opts home (rq_redis st'))"
proof (cases "readMessage d opts orgId m (rq_redis st)")
  case None
  then show ?thesis using run by (simp add: nackMessage_def Let_def)
next
  case (Some p)
  have P: "phase d opts home (rq_redis st) m \<noteq> Absent" by (rule readMessage_present [OF inv orgId Some])
  from nack_phase [OF inv orgId Some refl, of incr now secs rnd retryAt skip] run
  have "phase d opts home (rq_redis st') = (phase d opts home (rq_redis st))(m := Parked)
    \<or> (\<exists>sc. phase d opts home (rq_redis st') = (phase d opts home (rq_redis st))(m := Waiting sc))" by auto
  then show ?thesis using life_dead [of "phase d opts home (rq_redis st)" m home, OF P]
      life_retry [of "phase d opts home (rq_redis st)" m home, OF P] by (auto intro: r_into_rtranclp)
qed

lemma step_life:
  assumes "rq_step d opts home st st'" and inv: "rq_inv d opts home (view_of (rq_redis st))"
  shows "life_steps home (phase d opts home (rq_redis st)) (phase d opts home (rq_redis st'))"
  using assms(1)
proof (cases rule: rq_step.cases)
  case (step_enqueue env message now w skip)
  then have "phase d opts home (rq_redis st') = (phase d opts home (rq_redis st))(p_runId message := Waiting (p_timestamp message))"
    using enqueue_phase [of env message now w skip st] by (metis sum.inject(2))
  then show ?thesis using life_submit by (metis r_into_rtranclp)
next
  case (step_process r fuel now res s')
  then show ?thesis using process_life [OF inv] by simp
next
  case (step_shard r shard now maxCount)
  then show ?thesis using shard_life [OF inv] by simp
next
  case (step_worker w out s')
  then show ?thesis using worker_phase by simp
next
  case (step_release orgId m s')
  then show ?thesis using releaseAllConcurrency_view [OF inv] release_life [OF inv] by fastforce
next
  case (step_clear m)
  then show ?thesis using release_life [OF inv clear_release] by simp
qed (erule (1) ack_life [OF inv] nack_life [OF inv])+

end

end
