(* ===== verification/Run_Queue_Properties.thy ===== *)
theory Run_Queue_Properties
  imports Run_Queue_Life
begin

text \<open>
  What the run queue promises its callers, stated over the operations of \<open>Run_Queue\<close> for any Redis
  server, codec, shard hash and assignment of runs to queues that satisfy the laws of \<open>run_queue\<close>. The
  laws are satisfied by the reference server, the executable codec and the jump hash; the witnesses
  run on that instance.
\<close>

subsection \<open>An instance\<close>

type_synonym demo_state = "(store, (key \<times> time) list) rq_state"

definition demo_deps :: "(store, (key \<times> time) list) rq_deps" where
  "demo_deps = \<lparr>srv = mem_redis, stringify = put_payload, json_parse = get_payload,
     schema_ok = (\<lambda>s. get_payload s \<noteq> None), cjson_decode = get_queue_and_run,
     shard_hash = jumpHash (\<lambda>q. q) (\<lambda>_. replicate 32 7), fl = (\<lambda>q. q), pow = (\<lambda>b n. b ^ nat n),
     enqueue_once = (\<lambda>jobId q envId availableAt w. (jobId, availableAt) # w)\<rparr>"

definition demo_opts :: rq_options where
  "demo_opts = \<lparr>keyPrefix = ''rq:'', shardCount = 2, defaultEnvConcurrency = 10,
     defaultEnvConcurrencyBurstFactor = ''1'', processWorkerQueueDebounceMs = None,
     masterQueueCooloffCountThreshold = None, masterQueueCooloffPeriodMs = None,
     retryOptions = defaultRetrySettings, overrides = None\<rparr>"

definition demo_home :: "string \<Rightarrow> qref" where
  "demo_home m = \<lparr>r_env = demo_env, r_queue = ''emails'', r_ck = (if m = ''run_k'' then Some ''user1'' else None)\<rparr>"

definition demo_message :: "string \<Rightarrow> input_payload" where
  "demo_message m = \<lparr>p_runId = m, p_taskIdentifier = ''send-email'', p_orgId = ''o1'', p_projectId = ''p1'',
     p_environmentId = ''e1'', p_environmentType = PRODUCTION, p_queue = ''emails'',
     p_concurrencyKey = r_ck (demo_home m), p_timestamp = 5, p_attempt = 0\<rparr>"

definition demo_start :: demo_state where
  "demo_start = \<lparr>rq_redis = empty_store, rq_worker = [], rq_cooloff = Map.empty\<rparr>"

interpretation demo: run_queue demo_deps demo_opts demo_home
proof -
  have "\<exists>n. jumpHash (\<lambda>q. q) (\<lambda>_. replicate 32 7) e 2 = Some n" for e
    using jumpHash_answers [of "\<lambda>q. q" "\<lambda>_. replicate 32 7" e 2] rounds_doubles_id by auto
  moreover have "wf_qref (demo_home m)" for m
    using plain_demo_env by (simp add: demo_home_def wf_qref_def)
  ultimately show "run_queue demo_deps demo_opts demo_home"
    using mem.redis_server_axioms
    by (simp add: run_queue_def run_queue_axioms_def demo_deps_def demo_opts_def)
qed

lemma demo_for_home: "for_home demo_home demo_env (demo_message m)"
  by (simp add: for_home_def demo_message_def demo_home_def demo_env_def)

lemma demo_start_reachable: "rq_reachable demo_deps demo_opts demo_home demo_start"
  by (rule reach_init) (simp_all add: demo_start_def demo_deps_def rview_def mem_redis_defs empty_store_def fun_eq_iff)

lemma demo_enqueued:
  obtains st where "enqueueMessage demo_deps demo_opts 0 demo_env (demo_message m) ''us'' True demo_start = Inr st"
    and "rq_reachable demo_deps demo_opts demo_home st"
    and "phase demo_deps demo_opts demo_home (rq_redis st) m = Waiting 5"
proof (rule demo.enqueue_phase [OF demo_for_home [of m], of 0 "''us''" True demo_start])
  fix st
  assume st: "enqueueMessage demo_deps demo_opts 0 demo_env (demo_message m) ''us'' True demo_start = Inr st"
    "phase demo_deps demo_opts demo_home (rq_redis st) = (phase demo_deps demo_opts demo_home (rq_redis demo_start))
      (p_runId (demo_message m) := Waiting (p_timestamp (demo_message m)))"
  have "rq_reachable demo_deps demo_opts demo_home st"
    using demo_start_reachable step_enqueue [OF demo_for_home st(1)] by (rule reach_step)
  then show thesis using that [OF st(1)] st(2) by (simp add: demo_message_def)
qed

lemma reachable_rq_inv:
  assumes "run_queue d opts home" and "rq_reachable d opts home st"
  shows "rq_inv d opts home (rview (srv d) (rq_redis st))"
  by (rule run_queue.reachable_inv [OF assms])

subsection \<open>Properties\<close>





text \<open>C7. An enqueued run is waiting with its timestamp as its score, whatever it was before, and its
  message reads back with the attempt count reset, the full queue key and the worker queue; the other
  runs are as they were.\<close>

theorem enqueueMessage_reads_back:
  assumes "run_queue d opts home" and "for_home home env message"
  shows "\<exists>st'. enqueueMessage d opts now env message w skip st = Inr st'
    \<and> phase d opts home (rq_redis st') = (phase d opts home (rq_redis st))(p_runId message := Waiting (p_timestamp message))
    \<and> readMessage d opts (p_orgId message) (p_runId message) (rq_redis st') =
        Some (output_of message (queueKey env (p_queue message) (p_concurrencyKey message)) w)"
  by (rule run_queue.enqueue_phase [OF assms, of now w skip st]) blast

theorem enqueueMessage_reads_back_witness:
  "\<exists>st'. enqueueMessage demo_deps demo_opts 0 demo_env (demo_message ''run_1'') ''us'' True demo_start = Inr st'
     \<and> readMessage demo_deps demo_opts ''o1'' ''run_1'' (rq_redis st') =
         Some (output_of (demo_message ''run_1'') (queueKey demo_env ''emails'' None) ''us'')"
  using enqueueMessage_reads_back [OF demo.run_queue_axioms demo_for_home [of "''run_1''"], of 0 "''us''" True demo_start]
  by (auto simp: demo_message_def demo_home_def)



text \<open>C5. Returning a stored run: when the attempt is counted and reaches the maximum the run goes to its
  environment's dead letter queue and is parked; otherwise it waits again, at the requested time if one
  was given, and its message reads back with the new attempt count. No other run changes.\<close>

theorem nackMessage_retries_or_dead_letters:
  assumes "run_queue d opts home" and "rq_reachable d opts home st" and "colon_free orgId"
    and "readMessage d opts orgId m (rq_redis st) = Some p0"
    and "p = (if incr then p0\<lparr>p_attempt := p_attempt p0 + 1\<rparr> else p0)"
    and "maxA = with_default (maxAttempts (retryOptions opts)) (the (maxAttempts defaultRetrySettings))"
  shows "if incr \<and> maxA \<le> p_attempt p
    then \<exists>st'. nackMessage d opts now secs rnd orgId m retryAt incr skip st = Inr (Some False, st')
        \<and> phase d opts home (rq_redis st') = (phase d opts home (rq_redis st))(m := Parked)
        \<and> zSCORE (srv d) (pk opts (deadLetterQueueKey (r_env (home m)))) m (rq_redis st') = Some secs
    else \<exists>st' sc. nackMessage d opts now secs rnd orgId m retryAt incr skip st = Inr (Some True, st')
        \<and> phase d opts home (rq_redis st') = (phase d opts home (rq_redis st))(m := Waiting sc)
        \<and> (\<forall>t. retryAt = Some t \<longrightarrow> sc = t)
        \<and> readMessage d opts orgId m (rq_redis st') = Some p"
  using run_queue.nack_phase [OF assms(1) reachable_rq_inv [OF assms(1,2)] assms(3,4,5), of now secs rnd retryAt skip]
  unfolding assms(6) by simp

theorem nackMessage_retries_or_dead_letters_witness:
  "\<exists>st st'. phase demo_deps demo_opts demo_home (rq_redis st) ''run_1'' = Waiting 5
     \<and> nackMessage demo_deps demo_opts 9 0 0 ''o1'' ''run_1'' (Some 77) True True st = Inr (Some True, st')
     \<and> phase demo_deps demo_opts demo_home (rq_redis st') ''run_1'' = Waiting 77"
proof -
  let ?p = "output_of (demo_message ''run_1'') (queueKey demo_env ''emails'' None) ''us''"
  obtain st where st: "enqueueMessage demo_deps demo_opts 0 demo_env (demo_message ''run_1'') ''us'' True demo_start = Inr st"
    "rq_reachable demo_deps demo_opts demo_home st" "phase demo_deps demo_opts demo_home (rq_redis st) ''run_1'' = Waiting 5"
    by (rule demo_enqueued)
  have "readMessage demo_deps demo_opts ''o1'' ''run_1'' (rq_redis st) = Some ?p"
    by (rule demo.enqueue_phase [OF demo_for_home [of "''run_1''"], of 0 "''us''" True demo_start])
      (use st(1) in \<open>auto simp: demo_message_def demo_home_def\<close>)
  from nackMessage_retries_or_dead_letters [OF demo.run_queue_axioms st(2) _ this refl refl, of True 9 0 0 "Some 77" True] st(3)
  show ?thesis by (auto simp: demo_opts_def defaultRetrySettings_def with_default_def output_of_def)
qed

subsection \<open>Termination of the queue processor\<close>

lemma dequeue_shrinks:
  assumes rq: "run_queue d opts home" and r: "wf_qref r"
    and shard: "shard_hash d (env_id (r_env r)) (shardCount opts) = Some shard"
    and run: "callDequeueMessagesFromQueue d opts now (qkey r) shard mc s = (Inr ms, s')" and "ms \<noteq> []"
  shows "card (dom (queued opts (rview (srv d) s') r)) < card (dom (queued opts (rview (srv d) s) r))"
proof -
  have run': "callDequeueMessagesFromQueue d opts now (qkey r)
      (the (shard_hash d (env_id (r_env r)) (shardCount opts))) mc s = (Inr ms, s')"
    using run shard by simp
  note R = run_queue.axioms(1) [OF rq]
  show ?thesis
  proof (rule run_queue.callDequeue_hold [OF rq r run'])
    assume "\<And>x. Inr ms = Inr x \<Longrightarrow> x = []"
    then show ?thesis using assms(5) by blast
  next
    fix T
    assume v: "rview (srv d) s' = v_hold d opts r T (rview (srv d) s)"
      and T: "\<And>x. x \<in> T \<Longrightarrow> (\<exists>sc \<le> now. queued opts (rview (srv d) s) r x = Some sc)
        \<and> stored opts (rview (srv d) s) (org_of r) x \<noteq> None"
      and "T = {} \<Longrightarrow> Inr ms = Inr []"
    then obtain x where x: "x \<in> T" using assms(5) by blast
    have "queued opts (rview (srv d) s') r = queued opts (rview (srv d) s) r |` (- T)"
      by (simp add: v hold_lookups(1) [OF r r wf_qref_env [OF r]])
    then have "dom (queued opts (rview (srv d) s') r) = dom (queued opts (rview (srv d) s) r) - T" by auto
    moreover have "x \<in> dom (queued opts (rview (srv d) s) r)" using T [OF x] by auto
    ultimately have "dom (queued opts (rview (srv d) s') r) \<subset> dom (queued opts (rview (srv d) s) r)" using x by auto
    then show ?thesis using redis_server.zset_finite [OF R] by (rule psubset_card_mono [rotated])
  qed
qed

lemma worker_lists_zset:
  assumes "redis_server (srv d)"
  shows "v_zset (rview (srv d) (enqueueMessagesToWorkerQueues d opts ms s)) = v_zset (rview (srv d) s)"
  by (induction ms arbitrary: s) (simp_all add: Let_def redis_server.lRPUSH_view [OF assms])

text \<open>C8. The queue processor terminates: with more fuel than the queue has messages it returns, since
  every batch it goes on after has taken messages out of the queue.\<close>

theorem processQueueForWorkerQueue_terminates:
  assumes rq: "run_queue d opts home" and r: "wf_qref r"
    and "zCARD (srv d) (pk opts (qkey r)) s < fuel"
  shows "\<exists>out. processQueueForWorkerQueue fuel d opts now (qkey r) (env_id (r_env r)) s = Some out"
  using assms(3)
proof (induction fuel arbitrary: s)
  case (Suc fuel)
  note R = run_queue.axioms(1) [OF rq]
  obtain shard where shard: "shard_hash d (env_id (r_env r)) (shardCount opts) = Some shard"
    using run_queue.hash_answers [OF rq] by blast
  obtain out s1 where call: "callDequeueMessagesFromQueue d opts now (qkey r) shard 10 s = (out, s1)" by fastforce
  have "zCARD (srv d) (pk opts (qkey r)) (enqueueMessagesToWorkerQueues d opts ms s1) < fuel" if "out = Inr ms" "ms \<noteq> []" for ms
    using dequeue_shrinks [OF rq r shard] call that Suc.prems
    by (fastforce simp: redis_server.zCARD_view [OF R] worker_lists_zset [OF R])
  then show ?case
    using Suc.IH by (auto simp: masterQueueShardForEnvironment_def shard call Let_def split: sum.split)
qed simp

theorem processQueueForWorkerQueue_terminates_witness:
  "\<exists>out. processQueueForWorkerQueue 1 demo_deps demo_opts 9 (qkey (demo_home ''run_1'')) ''e1'' empty_store = Some out"
proof -
  have "zCARD (srv demo_deps) (pk demo_opts (qkey (demo_home ''run_1''))) empty_store < 1"
    by (simp add: demo_deps_def mem_redis_defs empty_store_def entries_sorted_def)
  from processQueueForWorkerQueue_terminates [OF demo.run_queue_axioms demo.wf_home this] show ?thesis
    by (simp add: demo_home_def demo_env_def)
qed

subsection \<open>Limits\<close>

lemma nat_to_string_not_empty: "nat_to_string n \<noteq> []"
  by (subst nat_to_string.simps) simp

lemma given_int_to_string [simp]: "given (Some (int_to_string i)) = Some (int_to_string i)"
  using nat_to_string_not_empty by (cases "int_to_string i") (auto simp: int_to_string_def split: if_splits)

text \<open>A queue's limit reads back as it was set, and reads as not set once it is removed; setting it
  leaves the limits of all other queues as they were.\<close>

theorem queue_limit_roundtrip:
  assumes R: "redis_server (srv d)" and fl: "rounds_doubles (fl d)" and "\<bar>n\<bar> \<le> 2 ^ 53"
    and "plain_env env" "plain_env env'" "colon_free q" "colon_free q'"
  shows "getQueueConcurrencyLimit d opts env q (updateQueueConcurrencyLimits d opts env q n s) = Some (Some (of_int n))
    \<and> getQueueConcurrencyLimit d opts env q (removeQueueConcurrencyLimits d opts env q s) = None
    \<and> ((env, q) \<noteq> (env', q') \<longrightarrow>
        getQueueConcurrencyLimit d opts env' q' (updateQueueConcurrencyLimits d opts env q n s) =
          getQueueConcurrencyLimit d opts env' q' s)"
proof -
  have "queueConcurrencyLimitKey env' q' \<noteq> queueConcurrencyLimitKey env q" if "(env, q) \<noteq> (env', q')"
    using that qkey_inject [of "\<lparr>r_env = env, r_queue = q, r_ck = None\<rparr>" "\<lparr>r_env = env', r_queue = q', r_ck = None\<rparr>"] assms(4-7)
    by (auto simp: queueConcurrencyLimitKey_def qkey_def wf_qref_def)
  then show ?thesis
    by (auto simp: getQueueConcurrencyLimit_def updateQueueConcurrencyLimits_def removeQueueConcurrencyLimits_def
        redis_server.read_views [OF R] redis_server.rSET_view [OF R] redis_server.rDEL_view [OF R]
        tonumber_def rounds_doubles_int [OF fl assms(3)])
qed

theorem queue_limit_roundtrip_witness:
  "getQueueConcurrencyLimit demo_deps demo_opts demo_env ''emails''
     (updateQueueConcurrencyLimits demo_deps demo_opts demo_env ''emails'' 7 empty_store) = Some (Some 7)"
  using queue_limit_roundtrip [of demo_deps 7 demo_env demo_env "''emails''" "''emails''" demo_opts empty_store]
    mem.redis_server_axioms rounds_doubles_id plain_demo_env by (simp add: demo_deps_def)

text \<open>The limit that a dequeue enforces on an environment is the one the API reports: after the
  environment's limit and burst factor are set, the burst limit read back is the floor of their product.\<close>

theorem env_limit_roundtrip:
  assumes R: "redis_server (srv d)" and fl: "rounds_doubles (fl d)" and "\<bar>n\<bar> \<le> 2 ^ 53"
    and "tonumber (fl d) b = Some B" and "b \<noteq> []"
  shows "getEnvConcurrencyLimit d opts env (updateEnvConcurrencyLimits d opts env n b s) = Some (of_int n)
    \<and> getEnvConcurrencyLimitWithBurstFactor d opts env (updateEnvConcurrencyLimits d opts env n b s) =
        Some \<lfloor>fl d (of_int n * B)\<rfloor>"
proof -
  have neq: "envConcurrencyLimitKey env \<noteq> envConcurrencyLimitBurstFactorKey env"
    by (simp add: envConcurrencyLimitKey_def envConcurrencyLimitBurstFactorKey_def env_key_def)
  have "given (Some b) = Some b" using assms(5) by (cases b) auto
  with neq show ?thesis
    using assms(4)
    by (auto simp: getEnvConcurrencyLimit_def getEnvConcurrencyLimitWithBurstFactor_def getEnvConcurrencyBurstFactor_def
        updateEnvConcurrencyLimits_def updateEnvironmentConcurrencyLimits_def Let_def
        redis_server.read_views [OF R] redis_server.rSET_view [OF R] tonumber_def rounds_doubles_int [OF fl assms(3)])
qed

theorem env_limit_roundtrip_witness:
  "getEnvConcurrencyLimitWithBurstFactor demo_deps demo_opts demo_env
     (updateEnvConcurrencyLimits demo_deps demo_opts demo_env 5 ''2.5'' empty_store) = Some 12"
proof -
  have "tonumber (fl demo_deps) ''2.5'' = Some (5 / 2)"
    by (simp add: demo_deps_def tonumber_def decimal_value_def unsigned_value_def read_digits_def digit_of_def)
  from env_limit_roundtrip [OF _ _ _ this, of 5 demo_opts demo_env empty_store] show ?thesis
    using mem.redis_server_axioms rounds_doubles_id by (simp add: demo_deps_def floor_eq_iff)
qed

subsection \<open>Where the code departs from what it means to do\<close>

text \<open>Clearing a run that has a concurrency key from the concurrency sets releases the environment's
  slot but not the slot of the run's own queue: the call derives the queue's set without the concurrency
  key, so a run of a keyed queue that held concurrency still holds it.\<close>

theorem clear_keeps_keyed_concurrency:
  assumes rq: "run_queue d opts home" and ck: "r_ck (home m) \<noteq> None"
    and held: "m \<in> running opts (rview (srv d) s) (home m)"
  shows "m \<in> running opts (rview (srv d) (clearMessageFromConcurrencySets d opts m (r_queue (home m)) (r_env (home m)) s)) (home m)
    \<and> m \<notin> env_running opts (rview (srv d) (clearMessageFromConcurrencySets d opts m (r_queue (home m)) (r_env (home m)) s)) (r_env (home m))"
proof -
  let ?r = "\<lparr>r_env = r_env (home m), r_queue = r_queue (home m), r_ck = None\<rparr>"
  have wf: "wf_qref (home m)" by (rule run_queue.wf_home [OF rq])
  then have wf': "wf_qref ?r" unfolding wf_qref_def by simp
  have neq: "home m \<noteq> ?r"
  proof
    assume "home m = ?r"
    then have "r_ck (home m) = r_ck ?r" by (rule arg_cong)
    also have "r_ck ?r = None" by simp
    finally show False using ck by contradiction
  qed
  have view: "rview (srv d) (clearMessageFromConcurrencySets d opts m (r_queue (home m)) (r_env (home m)) s) =
      v_release (cc_keys opts ?r) m (rview (srv d) s)"
    by (simp add: clearMessageFromConcurrencySets_def redis_server.release_views [OF run_queue.axioms(1) [OF rq]]
        cc_keys_def queueCurrentConcurrencyKey_def queueCurrentDequeuedKey_def qkey_def)
  show ?thesis
    unfolding view release_lookups [OF wf' wf wf_qref_env [OF wf]] using held neq by simp
qed

theorem clear_keeps_keyed_concurrency_witness:
  "\<exists>s. ''run_k'' \<in> running demo_opts (rview (srv demo_deps)
     (clearMessageFromConcurrencySets demo_deps demo_opts ''run_k'' ''emails'' demo_env s)) (demo_home ''run_k'')"
proof -
  let ?s = "sADD mem_redis (pk demo_opts (qcc (demo_home ''run_k''))) ''run_k'' empty_store"
  have "''run_k'' \<in> running demo_opts (rview (srv demo_deps) ?s) (demo_home ''run_k'')"
    by (simp add: demo_deps_def mem.sADD_view)
  from clear_keeps_keyed_concurrency [OF demo.run_queue_axioms _ this] show ?thesis
    by (auto simp: demo_home_def)
qed

lemma callEnqueue_stores:
  assumes R: "redis_server (srv d)" and json: "\<And>p. json_parse d (stringify d p) = Some p"
    and "callEnqueueMessage d opts p s = Inr s'"
  shows "readMessage d opts (p_orgId p) (p_runId p) s' = Some p"
  using assms(3)
  by (auto simp: callEnqueueMessage_def messageKeys_def Let_def readMessage_def json redis_server.read_views [OF R]
      redis_server.enqueue_view [OF R] split: option.splits bind_splits)

lemma queueKey_answers: "env_from_queue (queueKey env q ck) \<noteq> None"
proof -
  have "queueKey env q ck = ''{org'' @ colon # tl (concat (map ((#) colon) (tl (env_parts env) @ [''queue'', q]))) @
      (case given ck of None \<Rightarrow> [] | Some c \<Rightarrow> '':ck:'' @ c)"
    unfolding queueKey_flat by (simp add: env_parts_def)
  then obtain a b where "queueKey env q ck = a @ colon # b" by blast
  then have "split_on colon (queueKey env q ck) = split_on colon a @ split_on colon b"
    by (simp add: split_on_append_sep)
  moreover have "split_on colon a \<noteq> []" "split_on colon b \<noteq> []" by simp_all
  ultimately have "1 < length (split_on colon (queueKey env q ck))"
    by (cases "split_on colon a"; cases "split_on colon b") (simp_all del: split_on.simps)
  then show ?thesis by (simp add: env_from_queue_def descriptorFromQueue_def js_nth_def Let_def)
qed

text \<open>Redriving a dead run does not put it back into its queue: the stored message carries the full
  queue key, which the enqueue takes for a queue name and builds a key from again. The run's message then
  names another queue than its own.\<close>

theorem redrive_changes_queue:
  assumes rq: "run_queue d opts home" and "rq_reachable d opts home st"
    and read: "readMessage d opts (org_of (home m)) m (rq_redis st) = Some data"
  shows "\<exists>st' p'. handleRedriveMessage d opts now m envId projId (org_of (home m)) st = Inr st'
    \<and> readMessage d opts (org_of (home m)) m (rq_redis st') = Some p' \<and> p_queue p' \<noteq> qkey (home m)"
proof -
  note R = run_queue.axioms(1) [OF rq] and wf = run_queue.wf_home [OF rq]
  have pl: "p_runId data = m" "p_queue data = qkey (home m)" "p_orgId data = org_of (home m)"
    using run_queue.readMessage_payload [OF rq reachable_rq_inv [OF assms(1,2)] org_colon_free [OF wf_qref_env [OF wf]] read]
    by (auto simp: payload_of_def)
  let ?env = "\<lparr>env_id = p_environmentId data, project_id = p_projectId data, organization_id = p_orgId data\<rparr>"
  let ?q = "queueKey ?env (qkey (home m)) (p_concurrencyKey data)"
  have "length (qkey (home m)) < length ?q" by (simp add: key_defs split: option.split)
  then have neq: "?q \<noteq> qkey (home m)" by auto
  obtain n where "shard_hash d (p_environmentId data) (shardCount opts) = Some n"
    using run_queue.hash_answers [OF rq] by blast
  then have "callEnqueueMessage d opts p s \<noteq> Inl e" if "p_queue p = ?q" "p_environmentId p = p_environmentId data" for p s e
    using that queueKey_answers [of ?env "qkey (home m)" "p_concurrencyKey data"]
    by (auto simp: callEnqueueMessage_def messageKeys_def envCurrentConcurrencyKeyFromQueue_def
        envCurrentDequeuedKeyFromQueue_def envQueueKeyFromQueue_def deadLetterQueueKeyFromQueue_def
        masterQueueKeyForEnvironment_def masterQueueShardForEnvironment_def Let_def)
  then have call: "\<exists>s'. callEnqueueMessage d opts p s = Inr s'" if "p_queue p = ?q" "p_environmentId p = p_environmentId data" for p s
    using that by (cases "callEnqueueMessage d opts p s") auto
  let ?w = "case getWorkerQueueFromMessage opts data of None \<Rightarrow> [] | Some w \<Rightarrow> w"
  let ?st = "scheduleProcessing d opts False now ?q (p_environmentId data) st"
  let ?msg = "\<lparr>p_runId = p_runId data, p_taskIdentifier = p_taskIdentifier data, p_orgId = p_orgId data,
      p_projectId = p_projectId data, p_environmentId = p_environmentId data, p_environmentType = p_environmentType data,
      p_queue = p_queue data, p_concurrencyKey = p_concurrencyKey data, p_timestamp = p_timestamp data, p_attempt = 0\<rparr>"
  let ?p = "output_of ?msg ?q ?w"
  obtain s' where s': "callEnqueueMessage d opts ?p (rq_redis st) = Inr s'"
    using call [of ?p "rq_redis st"] by (auto simp: output_of_def)
  let ?del = "zREM (srv d) (pk opts (deadLetterQueueKey \<lparr>env_id = envId, project_id = projId, organization_id = org_of (home m)\<rparr>)) m s'"
  have redrive: "handleRedriveMessage d opts now m envId projId (org_of (home m)) st = Inr (?st\<lparr>rq_redis := ?del\<rparr>)"
    using s' by (simp add: handleRedriveMessage_def read enqueueMessage_def Let_def pl)
  have "readMessage d opts (p_orgId ?p) (p_runId ?p) s' = Some ?p"
    by (rule callEnqueue_stores [OF R run_queue.parse_stringify [OF rq] s'])
  then have "readMessage d opts (org_of (home m)) m ?del = Some ?p"
    by (simp add: readMessage_def redis_server.read_views [OF R] redis_server.zREM_view [OF R] output_of_def pl)
  then show ?thesis using redrive neq by (auto simp: output_of_def)
qed

theorem redrive_changes_queue_witness:
  "\<exists>(st :: demo_state) st' p'. handleRedriveMessage demo_deps demo_opts 9 ''run_1'' ''e1'' ''p1'' ''o1'' st = Inr st'
     \<and> readMessage demo_deps demo_opts ''o1'' ''run_1'' (rq_redis st') = Some p'
     \<and> p_queue p' \<noteq> qkey (demo_home ''run_1'')"
proof -
  obtain st where st: "rq_reachable demo_deps demo_opts demo_home st"
    "phase demo_deps demo_opts demo_home (rq_redis st) ''run_1'' = Waiting 5" by (rule demo_enqueued)
  have "readMessage demo_deps demo_opts (org_of (demo_home ''run_1'')) ''run_1'' (rq_redis st) \<noteq> None"
    using demo.readMessage_none [OF reachable_rq_inv [OF demo.run_queue_axioms st(1)], of "''run_1''"] st(2) by simp
  then obtain data where "readMessage demo_deps demo_opts (org_of (demo_home ''run_1'')) ''run_1'' (rq_redis st) = Some data"
    by blast
  from redrive_changes_queue [OF demo.run_queue_axioms st(1) this, of 9 "''e1''" "''p1''"]
  show ?thesis by (auto simp: demo_home_def demo_env_def)
qed

text \<open>A queue's failure count survives a success: only a dequeue that returns nothing changes the
  count of a queue that is not put aside; one that does return messages leaves it as it was. So the count
  that starts the cool-off is of all failures, not of consecutive ones.\<close>

theorem cooloff_count_survives_success:
  assumes "rq_cooloff st q = Some (Normal n)"
  shows "rq_cooloff (processShardQueue d opts now shard mc q st) q =
    (case fst (callDequeueMessagesFromQueue d opts now q shard mc (rq_redis st)) of
       Inr [] \<Rightarrow> Some (if n < max 1 (with_default (masterQueueCooloffCountThreshold opts) 10) then Normal (n + 1)
          else Cooloff (now + with_default (masterQueueCooloffPeriodMs opts) 10000))
     | Inr (m # ms) \<Rightarrow> Some (Normal n)
     | Inl e \<Rightarrow> Some (Normal n))"
  using assms
  by (auto simp: processShardQueue_def with_default_def Let_def split: prod.split sum.split list.split)

theorem cooloff_count_survives_success_witness:
  "\<exists>st :: demo_state. rq_cooloff st ''q'' = Some (Normal 3) \<and>
     rq_cooloff (processShardQueue demo_deps demo_opts 9 0 10 ''q'' st) ''q'' \<in> {Some (Normal 3), Some (Normal 4)}"
proof -
  let ?st = "demo_start\<lparr>rq_cooloff := [''q'' \<mapsto> Normal 3]\<rparr>"
  have "rq_cooloff ?st ''q'' = Some (Normal 3)" by simp
  from cooloff_count_survives_success [OF this, of demo_deps demo_opts 9 0 10]
  have "rq_cooloff (processShardQueue demo_deps demo_opts 9 0 10 ''q'' ?st) ''q'' \<in> {Some (Normal 3), Some (Normal 4)}"
    by (simp add: demo_opts_def with_default_def split: sum.splits list.splits)
  then show ?thesis by (intro exI [of _ ?st]) simp
qed

subsection \<open>The cool-off of queues\<close>

definition cooloff_bound :: "rq_options \<Rightarrow> nat" where
  "cooloff_bound opts = max 1 (with_default (masterQueueCooloffCountThreshold opts) 10)"

definition cooloff_ok :: "rq_options \<Rightarrow> time \<Rightarrow> (key \<Rightarrow> queue_cooloff_state option) \<Rightarrow> bool" where
  "cooloff_ok opts now c \<longleftrightarrow> (\<forall>q. case c q of None \<Rightarrow> True
     | Some (Normal n) \<Rightarrow> n \<le> cooloff_bound opts
     | Some (Cooloff t) \<Rightarrow> t \<le> now + with_default (masterQueueCooloffPeriodMs opts) 10000)"

lemma processShardQueue_cooloff_ok:
  assumes "cooloff_ok opts now (rq_cooloff st)"
  shows "cooloff_ok opts now (rq_cooloff (processShardQueue d opts now shard mc q st))"
proof -
  have q: "case rq_cooloff st q of None \<Rightarrow> True | Some (Normal n) \<Rightarrow> n \<le> cooloff_bound opts
      | Some (Cooloff t) \<Rightarrow> t \<le> now + with_default (masterQueueCooloffPeriodMs opts) 10000"
    using assms by (simp add: cooloff_ok_def)
  have upd: "cooloff_ok opts now ((rq_cooloff st)(q := x))"
    if "case x of None \<Rightarrow> True | Some (Normal n) \<Rightarrow> n \<le> cooloff_bound opts
      | Some (Cooloff t) \<Rightarrow> t \<le> now + with_default (masterQueueCooloffPeriodMs opts) 10000" for x
    using assms that by (simp add: cooloff_ok_def)
  show ?thesis
    using assms q
    by (auto simp: processShardQueue_def Let_def with_default_def cooloff_bound_def not_le intro!: upd
        split: queue_cooloff_state.splits option.splits sum.splits prod.splits if_splits)
qed

text \<open>The cool-off state stays bounded: through any pass over a master queue shard a failure count
  never exceeds the threshold and no queue is put aside for longer than the cool-off period.\<close>

theorem cooloff_bounded:
  assumes "cooloff_ok opts now (rq_cooloff st)"
  shows "cooloff_ok opts now (rq_cooloff (processMasterQueueShard d opts now shard mc envQueues st))"
proof -
  have queues: "cooloff_ok opts now (rq_cooloff (fold (processShardQueue d opts now shard mc) qs st))"
    if "cooloff_ok opts now (rq_cooloff st)" for qs st
    using that by (induction qs arbitrary: st) (simp_all add: processShardQueue_cooloff_ok)
  show ?thesis
    unfolding processMasterQueueShard_def using assms
    by (induction envQueues arbitrary: st) (auto simp: queues)
qed

theorem cooloff_bounded_witness:
  "cooloff_ok demo_opts 9 (rq_cooloff (processMasterQueueShard demo_deps demo_opts 9 0 10
     [(''e1'', [qkey (demo_home ''run_1'')])] demo_start))"
  by (rule cooloff_bounded) (simp add: cooloff_ok_def demo_start_def)

subsection \<open>Marked runs\<close>

lemma parse_marked_join: "colon_free orgId \<Longrightarrow> parse_marked (orgId @ '':'' @ runId) = Some (orgId, runId)"
  by (induction orgId) (auto simp: parse_marked_def)

lemma markRunsForAck_view:
  assumes R: "redis_server (srv d)"
  shows "v_zset (rview (srv d) (markRunsForAck d opts now runs s)) (pk opts markedForAckKey) =
    (\<lambda>v. if v \<in> (\<lambda>(runId, orgId). orgId @ '':'' @ runId) ` set runs then Some now
         else v_zset (rview (srv d) s) (pk opts markedForAckKey) v)"
  by (induction runs arbitrary: s) (auto simp: redis_server.zADD_view [OF R] fun_eq_iff)

lemma remove_all_view:
  assumes R: "redis_server R"
  shows "v_zset (rview R (remove_all R k ms s)) k = v_zset (rview R s) k |` (- set ms)"
  by (induction ms arbitrary: s)
    (auto simp: redis_server.zREM_view [OF R] fun_eq_iff restrict_map_def)

text \<open>The sweeper's hand-over: runs marked for acknowledgement come back from the next batch with
  their organisation and run ids, each once and no others, and are no longer marked afterwards.\<close>

theorem marked_runs_roundtrip:
  assumes R: "redis_server (srv d)" and "\<forall>(runId, orgId) \<in> set runs. colon_free orgId"
    and empty: "v_zset (rview (srv d) s) (pk opts markedForAckKey) = Map.empty" and "length runs \<le> mc" and "runs \<noteq> []"
    and get: "getMarkedRunsForAck (srv d) (pk opts markedForAckKey) mc (markRunsForAck d opts now runs s) = (results, s')"
  shows "set results = (\<lambda>(runId, orgId). (orgId, runId, now)) ` set runs \<and> distinct results
    \<and> v_zset (rview (srv d) s') (pk opts markedForAckKey) = Map.empty"
proof -
  let ?k = "pk opts markedForAckKey" and ?s = "markRunsForAck d opts now runs s"
  let ?z = "v_zset (rview (srv d) ?s) ?k" and ?name = "\<lambda>(runId, orgId). orgId @ '':'' @ (runId :: string)"
  note fin = redis_server.zset_finite [OF R]
  have z: "?z = (\<lambda>v. if v \<in> ?name ` set runs then Some now else None)"
    by (simp add: markRunsForAck_view [OF R] empty cong: if_cong)
  then have dom: "dom ?z = ?name ` set runs" by (auto split: if_splits)
  have "length (zsorted ?z) \<le> mc"
    using length_zsorted [OF fin, of ?s ?k] card_image_le [of "set runs" ?name] card_length [of runs] assms(4) dom by simp
  then have all: "zRANGE (srv d) ?k 0 (int mc - 1) ?s = zsorted ?z"
    using assms(4,5) by (cases mc) (auto simp: redis_server.zRANGE_view [OF R] redis_slice_def Let_def)
  let ?f = "\<lambda>(v, score). map_option (\<lambda>(orgId, messageId). (orgId, messageId, score)) (parse_marked v)"
  let ?r = "List.map_filter ?f (zsorted ?z)"
  have entries: "set (zsorted ?z) = (\<lambda>(runId, orgId). (orgId @ '':'' @ runId, now)) ` set runs"
  proof -
    have "set (zsorted ?z) = {(v, sc). ?z v = Some sc}" by (rule set_zsorted [OF fin])
    also have "\<dots> = (\<lambda>(runId, orgId). (orgId @ '':'' @ runId, now)) ` set runs"
      unfolding z by (auto split: if_splits)
    finally show ?thesis .
  qed
  have f: "?f (orgId @ '':'' @ runId, now) = Some (orgId, runId, now)" if "(runId, orgId) \<in> set runs" for runId orgId
  proof -
    have "parse_marked (orgId @ '':'' @ runId) = Some (orgId, runId)"
      using that assms(2) by (intro parse_marked_join) auto
    then show ?thesis by (simp only: prod.case option.map(2))
  qed
  have "?f e \<noteq> None" if "e \<in> set (zsorted ?z)" for e
    using that f unfolding entries by fastforce
  then have r: "?r = map (the \<circ> ?f) (zsorted ?z)"
    by (simp add: map_filter_def)
  have g: "(the \<circ> ?f) (case x of (runId, orgId) \<Rightarrow> (orgId @ '':'' @ runId, now)) = (case x of (runId, orgId) \<Rightarrow> (orgId, runId, now))"
    if "x \<in> set runs" for x
  proof -
    obtain runId orgId where x: "x = (runId, orgId)" by (cases x)
    show ?thesis using f [of runId orgId] that by (simp add: x)
  qed
  then have "(the \<circ> ?f) ` set (zsorted ?z) = (\<lambda>(runId, orgId). (orgId, runId, now)) ` set runs"
    unfolding entries image_image by (rule image_cong [OF refl])
  then have res: "set ?r = (\<lambda>(runId, orgId). (orgId, runId, now)) ` set runs"
    unfolding r set_map .
  have "inj_on (the \<circ> ?f) (set (zsorted ?z))"
    unfolding entries inj_on_def ball_simps(9) using g by (metis (no_types, lifting) case_prod_beta prod.inject prod_eq_iff)
  then have "distinct ?r"
    unfolding r by (simp only: distinct_map distinct_zsorted simp_thms)
  moreover have "results = ?r" "s' = remove_all (srv d) ?k (map fst (zsorted ?z)) ?s"
    using get assms(5) res by (auto simp: getMarkedRunsForAck_def all Let_def split: if_splits)
  moreover have "?z |` (- set (map fst (zsorted ?z))) = Map.empty"
    by (auto simp: fun_eq_iff restrict_map_def set_zsorted [OF fin] image_iff)
  ultimately show ?thesis using res by (simp add: remove_all_view [OF R])
qed

theorem marked_runs_roundtrip_witness:
  "set (fst (getMarkedRunsForAck mem_redis (pk demo_opts markedForAckKey) 100
     (markRunsForAck demo_deps demo_opts 9 [(''run_1'', ''o1''), (''run_2'', ''o1'')] empty_store))) =
   {(''o1'', ''run_1'', 9), (''o1'', ''run_2'', 9)}"
proof -
  let ?out = "getMarkedRunsForAck (srv demo_deps) (pk demo_opts markedForAckKey) 100
     (markRunsForAck demo_deps demo_opts 9 [(''run_1'', ''o1''), (''run_2'', ''o1'')] empty_store)"
  have "v_zset (rview (srv demo_deps) empty_store) (pk demo_opts markedForAckKey) = Map.empty"
    by (simp add: demo_deps_def rview_def mem_redis_defs empty_store_def fun_eq_iff)
  then have "set (fst ?out) = (\<lambda>(runId, orgId). (orgId, runId, 9)) ` set [(''run_1'', ''o1''), (''run_2'', ''o1'')]"
    using marked_runs_roundtrip [OF demo.redis_server_axioms, of "[(''run_1'', ''o1''), (''run_2'', ''o1'')]" empty_store demo_opts 100 9
        "fst ?out" "snd ?out"] by simp
  then show ?thesis by (simp add: demo_deps_def insert_commute)
qed

end
