(* ===== verification/Simple_Queue.thy ===== *)
theory Simple_Queue
  imports Redis_Interface
begin

text \<open>
  The job queue of the background workers (\<open>packages/redis-worker/src/queue.ts\<close>): a sorted set of job
  ids by the time they become available, a hash of the serialised jobs, and the same pair for the dead
  letter queue. A dequeued job stays in the queue, invisible until its visibility timeout, and is
  removed by its acknowledgement.

  The scripts come first, then the methods of the class. A script that fails half way (a job that is
  not JSON) keeps what it has written: Redis does not roll back, so the keyspace is returned beside the
  outcome. The clock readings, the generated ids (\<open>nanoid\<close>) and the server's \<open>TIME\<close>, in milliseconds as
  the scripts compute it, are arguments.
\<close>

text \<open>A job as it is serialised. \<open>j_item\<close> is the payload's own JSON text.\<close>

record job_data =
  j_job :: "string option"
  j_item :: string
  j_visibilityTimeoutMs :: int
  j_attempt :: "int option"
  j_deduplicationKey :: "string option"
  j_errorMessage :: "string option"

record queue_item =
  i_id :: string
  i_job :: string
  i_item :: string
  i_visibilityTimeoutMs :: int
  i_attempt :: int
  i_timestamp :: "int option"
  i_deduplicationKey :: "string option"

datatype sq_error = ScriptError | ParseError | OperationFailed | MissingId | NoVisibilityTimeout

text \<open>
  The server, the client's key prefix, \<open>JSON.stringify\<close> and \<open>JSON.parse\<close>, the server's \<open>cjson\<close>, and the
  schemas of the jobs (\<open>None\<close>: no schema for the job, or the payload does not fit it).
\<close>

record 's sq_deps =
  q_srv :: "'s redis"
  q_prefix :: key
  q_stringify :: "job_data \<Rightarrow> string"
  q_parse :: "string \<Rightarrow> job_data option"
  lua_decode :: "string \<Rightarrow> job_data option"
  lua_encode :: "job_data \<Rightarrow> string"
  q_schema :: "string \<Rightarrow> string \<Rightarrow> string option"

subsection \<open>Scripts\<close>

definition enqueueItem :: "'s redis \<Rightarrow> key \<Rightarrow> key \<Rightarrow> string \<Rightarrow> int \<Rightarrow> string \<Rightarrow> 's \<Rightarrow> int \<times> 's" where
  "enqueueItem R queue items id' score serializedItem s =
     (let s = zADD R queue score id' s;
          s = hSET R items id' serializedItem s
      in (1, s))"

definition enqueueItemWithCancellationKey ::
    "'s redis \<Rightarrow> key \<Rightarrow> key \<Rightarrow> key \<Rightarrow> string \<Rightarrow> int \<Rightarrow> string \<Rightarrow> 's \<Rightarrow> int \<times> 's" where
  "enqueueItemWithCancellationKey R queue items cancellationKey id' score serializedItem s =
     (if rEXISTS R cancellationKey s then (1, s)
      else
        (let s = zADD R queue score id' s;
             s = hSET R items id' serializedItem s
         in (1, s)))"

fun dequeueItems_loop ::
    "'s sq_deps \<Rightarrow> key \<Rightarrow> key \<Rightarrow> int \<Rightarrow> (string \<times> int) list \<Rightarrow> 's \<Rightarrow> (sq_error + (string \<times> string \<times> int) list) \<times> 's" where
  "dequeueItems_loop d queue items now [] s = (Inr [], s)"
| "dequeueItems_loop d queue items now ((id', score) # rest) s =
     (if score > now then (Inr [], s)
      else case hGET (q_srv d) items id' s of
        Some serializedItem \<Rightarrow>
          (case lua_decode d serializedItem of
             None \<Rightarrow> (Inl ScriptError, s)
           | Some item \<Rightarrow>
               (let invisibleUntil = now + j_visibilityTimeoutMs item;
                    s = zADD (q_srv d) queue invisibleUntil id' s
                in case dequeueItems_loop d queue items now rest s of
                     (Inl e, s) \<Rightarrow> (Inl e, s)
                   | (Inr dequeued, s) \<Rightarrow> (Inr ((id', serializedItem, score) # dequeued), s)))
      | None \<Rightarrow> dequeueItems_loop d queue items now rest (zREM (q_srv d) queue id' s))"

definition dequeueItems ::
    "'s sq_deps \<Rightarrow> key \<Rightarrow> key \<Rightarrow> int \<Rightarrow> nat \<Rightarrow> 's \<Rightarrow> (sq_error + (string \<times> string \<times> int) list) \<times> 's" where
  "dequeueItems d queue items now count s =
     (let result = zRANGEBYSCORE (q_srv d) queue now count s
      in if result = [] then (Inr [], s) else dequeueItems_loop d queue items now result s)"

definition getJob_script :: "'s redis \<Rightarrow> key \<Rightarrow> key \<Rightarrow> string \<Rightarrow> 's \<Rightarrow> (string \<times> int option \<times> string) option" where
  "getJob_script R queue items jobId s =
     (case hGET R items jobId s of
        None \<Rightarrow> None
      | Some serializedItem \<Rightarrow> Some (jobId, zSCORE R queue jobId s, serializedItem))"

definition ackItem :: "'s sq_deps \<Rightarrow> key \<Rightarrow> key \<Rightarrow> string \<Rightarrow> string \<Rightarrow> 's \<Rightarrow> int \<times> 's" where
  "ackItem d queueKey itemsKey id' deduplicationKey s =
     (case hGET (q_srv d) itemsKey id' s of
        None \<Rightarrow> (- 1, s)
      | Some item \<Rightarrow>
          if deduplicationKey \<noteq> [] \<and>
             (case lua_decode d item of
                None \<Rightarrow> False
              | Some parsed \<Rightarrow> j_deduplicationKey parsed \<noteq> None \<and> j_deduplicationKey parsed \<noteq> Some deduplicationKey)
          then (0, s)
          else
            (let s = zREM (q_srv d) queueKey id' s;
                 s = hDEL (q_srv d) itemsKey id' s
             in (1, s)))"

definition moveToDeadLetterQueue_item ::
    "'s sq_deps \<Rightarrow> int \<Rightarrow> key \<Rightarrow> key \<Rightarrow> key \<Rightarrow> key \<Rightarrow> string \<Rightarrow> string \<Rightarrow> 's \<Rightarrow> (sq_error + int) \<times> 's" where
  "moveToDeadLetterQueue_item d now queue items dlq dlqItems id' errorMessage s =
     (case hGET (q_srv d) items id' s of
        None \<Rightarrow> (Inr 0, s)
      | Some item \<Rightarrow>
          (case lua_decode d item of
             None \<Rightarrow> (Inl ScriptError, s)
           | Some parsedItem \<Rightarrow>
               (let parsedItem = parsedItem\<lparr>j_errorMessage := Some errorMessage\<rparr>;
                    s = zREM (q_srv d) queue id' s;
                    s = hDEL (q_srv d) items id' s;
                    s = zADD (q_srv d) dlq now id' s;
                    s = hSET (q_srv d) dlqItems id' (lua_encode d parsedItem) s
                in (Inr 1, s))))"

definition redriveFromDeadLetterQueue_item ::
    "'s sq_deps \<Rightarrow> int \<Rightarrow> key \<Rightarrow> key \<Rightarrow> key \<Rightarrow> key \<Rightarrow> string \<Rightarrow> 's \<Rightarrow> (sq_error + int) \<times> 's" where
  "redriveFromDeadLetterQueue_item d now queue items dlq dlqItems id' s =
     (case hGET (q_srv d) dlqItems id' s of
        None \<Rightarrow> (Inr 0, s)
      | Some item \<Rightarrow>
          (case lua_decode d item of
             None \<Rightarrow> (Inl ScriptError, s)
           | Some parsedItem \<Rightarrow>
               (let parsedItem = parsedItem\<lparr>j_errorMessage := None\<rparr>;
                    s = zREM (q_srv d) dlq id' s;
                    s = hDEL (q_srv d) dlqItems id' s;
                    s = zADD (q_srv d) queue now id' s;
                    s = hSET (q_srv d) items id' (lua_encode d parsedItem) s
                in (Inr 1, s))))"

definition enqueueItemOnce :: "'s redis \<Rightarrow> key \<Rightarrow> key \<Rightarrow> string \<Rightarrow> int \<Rightarrow> string \<Rightarrow> 's \<Rightarrow> int \<times> 's" where
  "enqueueItemOnce R queue items id' score serializedItem s =
     (case hSETNX R items id' serializedItem s of
        (True, s) \<Rightarrow> (1, zADDNX R queue score id' s)
      | (False, s) \<Rightarrow> (0, s))"

subsection \<open>The class\<close>

abbreviation kQueue :: "'s sq_deps \<Rightarrow> key" where "kQueue d \<equiv> q_prefix d @ ''queue''"
abbreviation kItems :: "'s sq_deps \<Rightarrow> key" where "kItems d \<equiv> q_prefix d @ ''items''"
abbreviation kDlq :: "'s sq_deps \<Rightarrow> key" where "kDlq d \<equiv> q_prefix d @ ''dlq''"
abbreviation kDlqItems :: "'s sq_deps \<Rightarrow> key" where "kDlqItems d \<equiv> q_prefix d @ ''dlq:items''"
abbreviation kCancel :: "'s sq_deps \<Rightarrow> string \<Rightarrow> key" where "kCancel d c \<equiv> q_prefix d @ ''cancellationKey:'' @ c"

definition sq_cancel :: "'s sq_deps \<Rightarrow> string \<Rightarrow> 's \<Rightarrow> 's" where
  "sq_cancel d cancellationKey s = rSETEX (q_srv d) (kCancel d cancellationKey) ''1'' (60 * 60 * 24) s"

definition serialized :: "'s sq_deps \<Rightarrow> string \<Rightarrow> string \<Rightarrow> int \<Rightarrow> int option \<Rightarrow> string \<Rightarrow> string" where
  "serialized d job item visibilityTimeoutMs attempt deduplicationKey =
     q_stringify d \<lparr>j_job = Some job, j_item = item, j_visibilityTimeoutMs = visibilityTimeoutMs, j_attempt = attempt,
       j_deduplicationKey = Some deduplicationKey, j_errorMessage = None\<rparr>"

text \<open>\<open>nano\<close> is the generated deduplication key, \<open>fresh\<close> the id generated when none was given. A
  cancellation key counts as given when it is not the empty string.\<close>

definition sq_enqueue ::
    "'s sq_deps \<Rightarrow> int \<Rightarrow> string \<Rightarrow> string \<Rightarrow> string option \<Rightarrow> string \<Rightarrow> string \<Rightarrow> int option \<Rightarrow> int option \<Rightarrow> int \<Rightarrow>
     string option \<Rightarrow> 's \<Rightarrow> (sq_error + unit) \<times> 's" where
  "sq_enqueue d now nano fresh id' job item attempt availableAt visibilityTimeoutMs cancellationKey s =
     (let score = (case availableAt of Some t \<Rightarrow> t | None \<Rightarrow> now);
          serializedItem = serialized d job item visibilityTimeoutMs attempt nano;
          theId = (case id' of Some i \<Rightarrow> i | None \<Rightarrow> fresh);
          (result, s) = (case cancellationKey of
             Some (c # cs) \<Rightarrow> enqueueItemWithCancellationKey (q_srv d) (kQueue d) (kItems d) (kCancel d (c # cs))
               theId score serializedItem s
           | _ \<Rightarrow> enqueueItem (q_srv d) (kQueue d) (kItems d) theId score serializedItem s)
      in if result \<noteq> 1 then (Inl OperationFailed, s) else (Inr (), s))"

definition sq_enqueueOnce ::
    "'s sq_deps \<Rightarrow> int \<Rightarrow> string \<Rightarrow> string \<Rightarrow> string \<Rightarrow> string \<Rightarrow> int option \<Rightarrow> int option \<Rightarrow> int \<Rightarrow> 's \<Rightarrow> (sq_error + bool) \<times> 's" where
  "sq_enqueueOnce d now nano id' job item attempt availableAt visibilityTimeoutMs s =
     (if id' = [] then (Inl MissingId, s)
      else
        (let score = (case availableAt of Some t \<Rightarrow> t | None \<Rightarrow> now);
             serializedItem = serialized d job item visibilityTimeoutMs attempt nano;
             (result, s) = enqueueItemOnce (q_srv d) (kQueue d) (kItems d) id' score serializedItem s
         in (Inr (result = 1), s)))"

text \<open>Parsing the dequeued jobs: text that is not JSON throws; a job without a name, without a schema or
  with a payload that does not fit is skipped.\<close>

fun parse_items :: "'s sq_deps \<Rightarrow> (string \<times> string \<times> int) list \<Rightarrow> sq_error + queue_item list" where
  "parse_items d [] = Inr []"
| "parse_items d ((id', serializedItem, score) # rest) =
     (case q_parse d serializedItem of
        None \<Rightarrow> Inl ParseError
      | Some parsedItem \<Rightarrow>
          (case parse_items d rest of
             Inl e \<Rightarrow> Inl e
           | Inr dequeuedItems \<Rightarrow>
               (case j_job parsedItem of
                  None \<Rightarrow> Inr dequeuedItems
                | Some job \<Rightarrow>
                    (case q_schema d job (j_item parsedItem) of
                       None \<Rightarrow> Inr dequeuedItems
                     | Some validated \<Rightarrow>
                         Inr (\<lparr>i_id = id', i_job = job, i_item = validated,
                           i_visibilityTimeoutMs = j_visibilityTimeoutMs parsedItem,
                           i_attempt = (case j_attempt parsedItem of None \<Rightarrow> 0 | Some a \<Rightarrow> a),
                           i_timestamp = Some score, i_deduplicationKey = j_deduplicationKey parsedItem\<rparr>
                           # dequeuedItems)))))"

definition sq_dequeue :: "'s sq_deps \<Rightarrow> int \<Rightarrow> nat \<Rightarrow> 's \<Rightarrow> (sq_error + queue_item list) \<times> 's" where
  "sq_dequeue d now count s =
     (case dequeueItems d (kQueue d) (kItems d) now count s of
        (Inl e, s) \<Rightarrow> (Inl e, s)
      | (Inr results, s) \<Rightarrow> (if results = [] then Inr [] else parse_items d results, s))"

definition sq_ack :: "'s sq_deps \<Rightarrow> string \<Rightarrow> string option \<Rightarrow> 's \<Rightarrow> 's" where
  "sq_ack d id' deduplicationKey s =
     snd (ackItem d (kQueue d) (kItems d) id' (case deduplicationKey of None \<Rightarrow> [] | Some k \<Rightarrow> k) s)"

definition sq_reschedule :: "'s sq_deps \<Rightarrow> string \<Rightarrow> int \<Rightarrow> 's \<Rightarrow> 's" where
  "sq_reschedule d id' availableAt s = zADDXX (q_srv d) (kQueue d) availableAt id' s"

definition sq_size :: "'s sq_deps \<Rightarrow> int \<Rightarrow> bool \<Rightarrow> 's \<Rightarrow> nat" where
  "sq_size d now includeFuture s =
     (if includeFuture then zCARD (q_srv d) (kQueue d) s else zCOUNT (q_srv d) (kQueue d) now s)"

definition sq_getJob :: "'s sq_deps \<Rightarrow> string \<Rightarrow> 's \<Rightarrow> sq_error + (queue_item option)" where
  "sq_getJob d id' s =
     (case getJob_script (q_srv d) (kQueue d) (kItems d) id' s of
        None \<Rightarrow> Inr None
      | Some (_, score, serializedItem) \<Rightarrow>
          (case q_parse d serializedItem of
             None \<Rightarrow> Inl ParseError
           | Some item \<Rightarrow>
               Inr (Some \<lparr>i_id = id', i_job = (case j_job item of None \<Rightarrow> [] | Some j \<Rightarrow> j), i_item = j_item item,
                 i_visibilityTimeoutMs = j_visibilityTimeoutMs item,
                 i_attempt = (case j_attempt item of None \<Rightarrow> 0 | Some a \<Rightarrow> a),
                 i_timestamp = score, i_deduplicationKey = j_deduplicationKey item\<rparr>)))"

definition sq_moveToDeadLetterQueue :: "'s sq_deps \<Rightarrow> int \<Rightarrow> string \<Rightarrow> string \<Rightarrow> 's \<Rightarrow> (sq_error + unit) \<times> 's" where
  "sq_moveToDeadLetterQueue d serverTime id' errorMessage s =
     (case moveToDeadLetterQueue_item d serverTime (kQueue d) (kItems d) (kDlq d) (kDlqItems d) id' errorMessage s of
        (Inl e, s) \<Rightarrow> (Inl e, s)
      | (Inr result, s) \<Rightarrow> if result \<noteq> 1 then (Inl OperationFailed, s) else (Inr (), s))"

definition sq_sizeOfDeadLetterQueue :: "'s sq_deps \<Rightarrow> 's \<Rightarrow> nat" where
  "sq_sizeOfDeadLetterQueue d s = zCARD (q_srv d) (kDlq d) s"

definition sq_redriveFromDeadLetterQueue :: "'s sq_deps \<Rightarrow> int \<Rightarrow> string \<Rightarrow> 's \<Rightarrow> (sq_error + unit) \<times> 's" where
  "sq_redriveFromDeadLetterQueue d serverTime id' s =
     (case redriveFromDeadLetterQueue_item d serverTime (kQueue d) (kItems d) (kDlq d) (kDlqItems d) id' s of
        (Inl e, s) \<Rightarrow> (Inl e, s)
      | (Inr result, s) \<Rightarrow> if result \<noteq> 1 then (Inl OperationFailed, s) else (Inr (), s))"

end
