(* ===== verification/Redis_Worker.thy ===== *)
theory Redis_Worker
  imports Simple_Queue Retries
begin

text \<open>
  The background worker (\<open>packages/redis-worker/src/worker.ts\<close>) on the job queue of \<open>Simple_Queue\<close>: how jobs
  are enqueued from the catalog, how a dequeued job is processed (acknowledged, retried with backoff or
  moved to the dead letter queue), how cron jobs schedule their next run, and how much a worker loop
  dequeues. The outcome of a handler is an argument: \<open>Inr\<close> when it returned, \<open>Inl\<close> its error message. The
  cron parser is a parameter. Logging, tracing, metrics and shutdown are left out.
\<close>

record catalog_item =
  c_visibilityTimeoutMs :: int
  c_retry :: "retry_options option"
  c_cron :: "string option"
  c_jitterInMs :: "rat option"

record 's worker_deps =
  w_queue :: "'s sq_deps"
  w_catalog :: "string \<Rightarrow> catalog_item option"
  w_handlers :: "string \<Rightarrow> bool"
  w_cron_next :: "string \<Rightarrow> int option \<Rightarrow> int \<Rightarrow> int"
  w_cron_item :: "int \<Rightarrow> int option \<Rightarrow> string \<Rightarrow> string"
  w_item_timestamp :: "string \<Rightarrow> int"
  w_fl :: "rat \<Rightarrow> rat"
  w_pow :: "rat \<Rightarrow> int \<Rightarrow> rat"

text \<open>
  \<open>w_cron_next cron last now\<close> is \<open>parseExpression(cron, {currentDate: last}).next()\<close>, which counts from
  the current time when no date is given; \<open>w_cron_item\<close> is the payload of a cron job and
  \<open>w_item_timestamp\<close> its \<open>timestamp\<close> field.
\<close>

definition workerRetrySettings :: retry_options where
  "workerRetrySettings = \<lparr>maxAttempts = Some 12, factor = Some 2, minTimeoutInMs = Some 1000,
     maxTimeoutInMs = Some 3600000, randomize = Some True\<rparr>"

text \<open>A catalog entry without retry options.\<close>

definition no_retry :: retry_options where
  "no_retry = \<lparr>maxAttempts = None, factor = None, minTimeoutInMs = None, maxTimeoutInMs = None, randomize = None\<rparr>"

subsection \<open>Enqueueing from the catalog\<close>

text \<open>\<open>visibilityTimeoutMs ?? this.options.catalog[job]?.visibilityTimeoutMs\<close>, refused when absent or 0.\<close>

definition job_timeout :: "'s worker_deps \<Rightarrow> string \<Rightarrow> int option \<Rightarrow> int option" where
  "job_timeout w job visibilityTimeoutMs =
     (let timeout = (case visibilityTimeoutMs of Some t \<Rightarrow> Some t
          | None \<Rightarrow> map_option c_visibilityTimeoutMs (w_catalog w job))
      in if timeout = Some 0 then None else timeout)"

definition worker_enqueue ::
    "'s worker_deps \<Rightarrow> int \<Rightarrow> string \<Rightarrow> string \<Rightarrow> string option \<Rightarrow> string \<Rightarrow> string \<Rightarrow> int option \<Rightarrow> int option \<Rightarrow>
     string option \<Rightarrow> 's \<Rightarrow> (sq_error + unit) \<times> 's" where
  "worker_enqueue w now nano fresh id' job payload visibilityTimeoutMs availableAt cancellationKey s =
     (case job_timeout w job visibilityTimeoutMs of
        None \<Rightarrow> (Inl NoVisibilityTimeout, s)
      | Some timeout \<Rightarrow>
          sq_enqueue (w_queue w) now nano fresh id' job payload None availableAt timeout cancellationKey s)"

definition worker_enqueueOnce ::
    "'s worker_deps \<Rightarrow> int \<Rightarrow> string \<Rightarrow> string \<Rightarrow> string \<Rightarrow> string \<Rightarrow> int option \<Rightarrow> int option \<Rightarrow> 's \<Rightarrow>
     (sq_error + bool) \<times> 's" where
  "worker_enqueueOnce w now nano id' job payload visibilityTimeoutMs availableAt s =
     (case job_timeout w job visibilityTimeoutMs of
        None \<Rightarrow> (Inl NoVisibilityTimeout, s)
      | Some timeout \<Rightarrow> sq_enqueueOnce (w_queue w) now nano id' job payload None availableAt timeout s)"

subsection \<open>Cron jobs\<close>

text \<open>\<open>clock\<close> lists the successive readings of the current time; the recursion ends at the first one that
  the computed date is not before. \<open>None\<close>: no reading left.\<close>

fun calculateNextScheduledAt :: "'s worker_deps \<Rightarrow> string \<Rightarrow> int option \<Rightarrow> int list \<Rightarrow> int option" where
  "calculateNextScheduledAt w cron lastTimestamp [] = None"
| "calculateNextScheduledAt w cron lastTimestamp (now # clock) =
     (let scheduledAt = w_cron_next w cron lastTimestamp now
      in if scheduledAt < now then calculateNextScheduledAt w cron None clock else Some scheduledAt)"

text \<open>The calendar date of a number of days since 1 January 1970 (proleptic Gregorian calendar), by
  eras of 400 years that start on 1 March; the month counts from January.\<close>

definition civil_from_days :: "int \<Rightarrow> int \<times> int \<times> int" where
  "civil_from_days days =
     (let z = days + 719468;
          era = z div 146097;
          doe = z mod 146097;
          yoe = (doe - doe div 1460 + doe div 36524 - doe div 146096) div 365;
          doy = doe - (365 * yoe + yoe div 4 - yoe div 100);
          mp = (5 * doy + 2) div 153;
          day = doy - (153 * mp + 2) div 5 + 1;
          month = (if mp < 10 then mp + 3 else mp - 9);
          year = yoe + era * 400 + (if month \<le> 2 then 1 else 0)
      in (year, month, day))"

text \<open>\<open>getUTCMonth\<close> counts from 0.\<close>

definition timestampIdentifier :: "int \<Rightarrow> string" where
  "timestampIdentifier timestamp =
     (let (year, month, day) = civil_from_days (timestamp div 86400000);
          rest = timestamp mod 86400000;
          hour = rest div 3600000;
          minute = rest mod 3600000 div 60000;
          second = rest mod 60000 div 1000
      in join_with ''-'' [int_to_string year, int_to_string (month - 1), int_to_string day, int_to_string hour,
           int_to_string minute, int_to_string second])"

text \<open>\<open>new Date(x)\<close> drops the fraction of a millisecond.\<close>

definition date_of :: "rat \<Rightarrow> int" where
  "date_of x = (if x < 0 then \<lceil>x\<rceil> else \<lfloor>x\<rfloor>)"

text \<open>\<open>None\<close>: the recursion ran out of clock readings.\<close>

definition enqueueCronJob ::
    "'s worker_deps \<Rightarrow> int list \<Rightarrow> int \<Rightarrow> string \<Rightarrow> rat \<Rightarrow> string \<Rightarrow> string \<Rightarrow> rat option \<Rightarrow> int option \<Rightarrow> 's \<Rightarrow>
     ((sq_error + bool) \<times> 's) option" where
  "enqueueCronJob w clock now nano rnd cron job jitter lastTimestamp s =
     (case calculateNextScheduledAt w cron lastTimestamp clock of
        None \<Rightarrow> None
      | Some scheduledAt \<Rightarrow>
          (let identifier = join_with '':'' [job, timestampIdentifier scheduledAt];
               appliedJitter = (case jitter of
                   Some j \<Rightarrow> w_fl w (w_fl w (rnd * j) - w_fl w (j / 2))
                 | None \<Rightarrow> 0);
               availableAt = date_of (w_fl w (of_int scheduledAt + appliedJitter))
           in Some (worker_enqueueOnce w now nano identifier job (w_cron_item w scheduledAt lastTimestamp cron)
                None (Some availableAt) s)))"

definition rescheduleCronJob ::
    "'s worker_deps \<Rightarrow> int list \<Rightarrow> int \<Rightarrow> string \<Rightarrow> rat \<Rightarrow> string \<Rightarrow> catalog_item \<Rightarrow> string \<Rightarrow> 's \<Rightarrow>
     ((sq_error + bool) \<times> 's) option" where
  "rescheduleCronJob w clock now nano rnd job catalogItem item s =
     (case c_cron catalogItem of
        None \<Rightarrow> Some (Inr False, s)
      | Some cron \<Rightarrow> enqueueCronJob w clock now nano rnd cron job (c_jitterInMs catalogItem) (Some (w_item_timestamp w item)) s)"

subsection \<open>Processing a job\<close>

text \<open>The catch branch: another attempt after a delay, or the dead letter queue. An error in it is logged
  and the job is left to its visibility timeout, so the keyspace of that moment is the result.\<close>

definition requeue_failed ::
    "'s worker_deps \<Rightarrow> int list \<Rightarrow> int \<Rightarrow> int \<Rightarrow> string \<Rightarrow> rat \<Rightarrow> catalog_item \<Rightarrow> queue_item \<Rightarrow> string \<Rightarrow> 's \<Rightarrow> 's option" where
  "requeue_failed w clock now serverTime nano rnd catalogItem q errorMessage s =
     (let newAttempt = i_attempt q + 1;
          retrySettings = merge_options workerRetrySettings (case c_retry catalogItem of
            Some r \<Rightarrow> r
          | None \<Rightarrow> no_retry);
          retryDelay = calculateNextRetryDelay (w_fl w) (w_pow w) retrySettings newAttempt rnd
      in if retryDelay = None \<or> retryDelay = Some 0 then
           (case sq_moveToDeadLetterQueue (w_queue w) serverTime (i_id q) errorMessage s of
              (Inl e, s) \<Rightarrow> Some s
            | (Inr u, s) \<Rightarrow> map_option snd (rescheduleCronJob w clock now nano rnd (i_job q) catalogItem (i_item q) s))
         else
           Some (snd (sq_enqueue (w_queue w) now nano [] (Some (i_id q)) (i_job q) (i_item q) (Some newAttempt)
             (Some (now + the retryDelay)) (i_visibilityTimeoutMs q) None s)))"

definition processItem ::
    "'s worker_deps \<Rightarrow> int list \<Rightarrow> int \<Rightarrow> int \<Rightarrow> string \<Rightarrow> rat \<Rightarrow> (string + unit) \<Rightarrow> (sq_error \<Rightarrow> string) \<Rightarrow> queue_item \<Rightarrow> 's \<Rightarrow> 's option" where
  "processItem w clock now serverTime nano rnd outcome message q s =
     (if \<not> w_handlers w (i_job q) then Some s
      else case w_catalog w (i_job q) of
        None \<Rightarrow> Some s
      | Some catalogItem \<Rightarrow>
          (case outcome of
             Inl errorMessage \<Rightarrow> requeue_failed w clock now serverTime nano rnd catalogItem q errorMessage s
           | Inr u \<Rightarrow>
               (let s = sq_ack (w_queue w) (i_id q) (i_deduplicationKey q) s
                in case rescheduleCronJob w clock now nano rnd (i_job q) catalogItem (i_item q) s of
                     None \<Rightarrow> None
                   | Some (Inl e, s) \<Rightarrow> requeue_failed w clock now serverTime nano rnd catalogItem q (message e) s
                   | Some (Inr b, s) \<Rightarrow> Some s)))"

text \<open>How many jobs one pass of a worker loop asks for, given the limiter's active and pending counts;
  \<open>None\<close>: the worker is at capacity and waits.\<close>

definition loop_task_count :: "int \<Rightarrow> int \<Rightarrow> int \<Rightarrow> int \<Rightarrow> int option" where
  "loop_task_count limit taskCount active pending =
     (if active + pending \<ge> limit then None else Some (min taskCount (limit - active - pending)))"

end
