(* ===== verification/Simple_Queue_Properties.thy ===== *)
theory Simple_Queue_Properties
  imports Simple_Queue Field_Codec
begin

text \<open>
  The job queue's invariant (every queued id has a job and every job is queued, for the queue and for
  the dead letter queue), proved to be kept by every operation, and what the operations promise: a job
  stays until it is acknowledged, is hidden for its visibility timeout, is enqueued at most once with
  \<open>enqueueOnce\<close>, survives the acknowledgement of an older version of itself, and comes back from the
  dead letter queue.
\<close>

subsection \<open>The invariant\<close>

text \<open>A serialised job that the scripts and the class both read, and read alike but for the payload's text.\<close>

definition readable :: "'s sq_deps \<Rightarrow> string option \<Rightarrow> bool" where
  "readable d ser \<longleftrightarrow> (case ser of None \<Rightarrow> True
     | Some x \<Rightarrow> (\<exists>j item. lua_decode d x = Some j \<and> q_parse d x = Some (j\<lparr>j_item := item\<rparr>)))"

definition sq_inv :: "'s sq_deps \<Rightarrow> view \<Rightarrow> bool" where
  "sq_inv d v \<longleftrightarrow> (\<forall>i. v_zset v (kQueue d) i = None \<longleftrightarrow> v_hash v (kItems d) i = None)
     \<and> (\<forall>i. v_zset v (kDlq d) i = None \<longleftrightarrow> v_hash v (kDlqItems d) i = None)
     \<and> (\<forall>i. readable d (v_hash v (kItems d) i)) \<and> (\<forall>i. readable d (v_hash v (kDlqItems d) i))"

text \<open>The visibility timeout of a stored job.\<close>

definition timeout_of :: "'s sq_deps \<Rightarrow> (string \<Rightarrow> string option) \<Rightarrow> string \<Rightarrow> int" where
  "timeout_of d items i = j_visibilityTimeoutMs (the (lua_decode d (the (items i))))"

inductive sq_step :: "'s sq_deps \<Rightarrow> 's \<Rightarrow> 's \<Rightarrow> bool" for d where
  sq_step_enqueue: "sq_enqueue d now nano fresh i job item attempt availableAt vt ck s = (out, s') \<Longrightarrow> sq_step d s s'"
| sq_step_once: "sq_enqueueOnce d now nano i job item attempt availableAt vt s = (ans, s') \<Longrightarrow> sq_step d s s'"
| sq_step_dequeue: "sq_dequeue d now count s = (got, s') \<Longrightarrow> sq_step d s s'"
| sq_step_ack: "sq_step d s (sq_ack d i dk s)"
| sq_step_reschedule: "sq_step d s (sq_reschedule d i t s)"
| sq_step_dead: "sq_moveToDeadLetterQueue d now i msg s = (out, s') \<Longrightarrow> sq_step d s s'"
| sq_step_redrive: "sq_redriveFromDeadLetterQueue d now i s = (out, s') \<Longrightarrow> sq_step d s s'"
| sq_step_cancel: "sq_step d s (sq_cancel d c s)"
| sq_step_expire: "sq_step d s (rDEL (q_srv d) (kCancel d c) s)"

inductive sq_reachable :: "'s sq_deps \<Rightarrow> 's \<Rightarrow> bool" for d where
  sq_init: "v_zset (rview (q_srv d) s) = (\<lambda>_. Map.empty) \<Longrightarrow> v_hash (rview (q_srv d) s) = (\<lambda>_. Map.empty) \<Longrightarrow>
     sq_reachable d s"
| sq_next: "sq_reachable d s \<Longrightarrow> sq_step d s s' \<Longrightarrow> sq_reachable d s'"

text \<open>What the queue relies on of the two JSON codecs: each reads what was written, except that a payload
  may change its text when the server's codec writes it back (an empty array comes back as an object).\<close>

locale simple_queue = redis_server "q_srv d" for d :: "'s sq_deps" +
  assumes parse_stringify: "q_parse d (q_stringify d j) = Some j"
    and decode_stringify: "lua_decode d (q_stringify d j) = Some j"
    and parse_encode: "\<exists>item. q_parse d (lua_encode d j) = Some (j\<lparr>j_item := item\<rparr>)"
    and decode_encode: "\<exists>item. lua_decode d (lua_encode d j) = Some (j\<lparr>j_item := item\<rparr>)"
begin

abbreviation sq_view :: "'s \<Rightarrow> view" where "sq_view s \<equiv> rview (q_srv d) s"

lemma readable_written [simp]: "readable d (Some (q_stringify d j))" "readable d (Some (lua_encode d j))"
proof -
  show "readable d (Some (q_stringify d j))"
    using exI [of "\<lambda>item. j = j\<lparr>j_item := item\<rparr>" "j_item j"]
    by (simp add: readable_def decode_stringify parse_stringify)
  obtain i1 i2 where "lua_decode d (lua_encode d j) = Some (j\<lparr>j_item := i1\<rparr>)" "q_parse d (lua_encode d j) = Some (j\<lparr>j_item := i2\<rparr>)"
    using decode_encode parse_encode by metis
  then show "readable d (Some (lua_encode d j))"
    by (simp add: readable_def) (metis)
qed

lemma readable_none [simp]: "readable d None"
  by (simp add: readable_def)

lemma enqueueItem_view:
  "sq_view (snd (enqueueItem (q_srv d) qk ik i sc ser s)) =
     (sq_view s)\<lparr>v_zset := (v_zset (sq_view s))(qk := (v_zset (sq_view s) qk)(i \<mapsto> sc)),
       v_hash := (v_hash (sq_view s))(ik := (v_hash (sq_view s) ik)(i \<mapsto> ser))\<rparr>"
  by (simp add: enqueueItem_def Let_def view_simps)

lemma enqueue_step:
  assumes "sq_enqueue d now nano fresh i job item attempt availableAt vt ck s = (out, s')"
  obtains "sq_view s' = sq_view s"
  | "sq_view s' = sq_view (snd (enqueueItem (q_srv d) (kQueue d) (kItems d) (case i of Some x \<Rightarrow> x | None \<Rightarrow> fresh)
        (case availableAt of Some t \<Rightarrow> t | None \<Rightarrow> now) (serialized d job item vt attempt nano) s))"
  using assms
  by (auto simp: sq_enqueue_def enqueueItem_def enqueueItemWithCancellationKey_def Let_def
      split: if_splits option.splits list.splits)

lemma put_inv:
  assumes "sq_inv d v"
  shows "sq_inv d (v\<lparr>v_zset := (v_zset v)(kQueue d := (v_zset v (kQueue d))(i \<mapsto> sc)),
       v_hash := (v_hash v)(kItems d := (v_hash v (kItems d))(i \<mapsto> q_stringify d j))\<rparr>)"
  using assms by (simp add: sq_inv_def)

lemma enqueue_inv:
  assumes "sq_inv d (sq_view s)" and "sq_enqueue d now nano fresh i job item attempt availableAt vt ck s = (out, s')"
  shows "sq_inv d (sq_view s')"
  by (rule enqueue_step [OF assms(2)]) (simp_all add: assms(1) enqueueItem_view serialized_def put_inv)

lemma enqueueItemOnce_view:
  "sq_view (snd (enqueueItemOnce (q_srv d) qk ik i sc ser s)) =
     (if v_hash (sq_view s) ik i = None
      then (sq_view s)\<lparr>v_zset := (v_zset (sq_view s))(qk := (v_zset (sq_view s) qk)
             (i := Some (case v_zset (sq_view s) qk i of None \<Rightarrow> sc | Some old \<Rightarrow> old))),
           v_hash := (v_hash (sq_view s))(ik := (v_hash (sq_view s) ik)(i \<mapsto> ser))\<rparr>
      else sq_view s)"
  "fst (enqueueItemOnce (q_srv d) qk ik i sc ser s) = (if v_hash (sq_view s) ik i = None then 1 else 0)"
proof -
  obtain b t where bt: "hSETNX (q_srv d) ik i ser s = (b, t)" by fastforce
  have b: "b \<longleftrightarrow> v_hash (sq_view s) ik i = None" using hSETNX_result [of ik i ser s] by (simp add: bt)
  have t: "sq_view t = (if v_hash (sq_view s) ik i = None then sq_view (hSET (q_srv d) ik i ser s) else sq_view s)"
    using hSETNX_view [of ik i ser s] by (simp add: bt)
  show "fst (enqueueItemOnce (q_srv d) qk ik i sc ser s) = (if v_hash (sq_view s) ik i = None then 1 else 0)"
    using b by (simp add: enqueueItemOnce_def bt split: bool.split)
  show "sq_view (snd (enqueueItemOnce (q_srv d) qk ik i sc ser s)) =
     (if v_hash (sq_view s) ik i = None
      then (sq_view s)\<lparr>v_zset := (v_zset (sq_view s))(qk := (v_zset (sq_view s) qk)
             (i := Some (case v_zset (sq_view s) qk i of None \<Rightarrow> sc | Some old \<Rightarrow> old))),
           v_hash := (v_hash (sq_view s))(ik := (v_hash (sq_view s) ik)(i \<mapsto> ser))\<rparr>
      else sq_view s)"
    using b t
    by (auto simp: enqueueItemOnce_def bt zADDNX_view zADD_view hSET_view fun_upd_idem split: bool.split option.split)
qed

lemma once_inv:
  assumes "sq_inv d (sq_view s)" and "sq_enqueueOnce d now nano i job item attempt availableAt vt s = (ans, s')"
  shows "sq_inv d (sq_view s')"
proof -
  have "s' = s \<or> s' = snd (enqueueItemOnce (q_srv d) (kQueue d) (kItems d) i (case availableAt of Some t \<Rightarrow> t | None \<Rightarrow> now)
      (serialized d job item vt attempt nano) s)"
    using assms(2) by (auto simp: sq_enqueueOnce_def Let_def split: if_splits prod.splits)
  then show ?thesis
    using assms(1) by (auto simp: enqueueItemOnce_view serialized_def put_inv)
qed

text \<open>The dequeue loop over jobs that are all there and due.\<close>

lemma dequeue_loop_effect:
  assumes "\<forall>(i, sc) \<in> set rs. sc \<le> now \<and> (\<exists>ser. v_hash (sq_view s) ik i = Some ser \<and> lua_decode d ser \<noteq> None)"
  shows "\<exists>s'. dequeueItems_loop d qk ik now rs s =
      (Inr (map (\<lambda>(i, sc). (i, the (v_hash (sq_view s) ik i), sc)) rs), s')
    \<and> sq_view s' = (sq_view s)\<lparr>v_zset := (v_zset (sq_view s))(qk := (\<lambda>i. if i \<in> fst ` set rs
        then Some (now + timeout_of d (v_hash (sq_view s) ik) i) else v_zset (sq_view s) qk i))\<rparr>"
  using assms
proof (induction rs arbitrary: s)
  case Nil
  then show ?case by simp
next
  case (Cons x rs)
  obtain i sc where x: "x = (i, sc)" by (cases x)
  obtain ser j where ser: "v_hash (sq_view s) ik i = Some ser" "lua_decode d ser = Some j" "sc \<le> now"
    using Cons.prems by (auto simp: x)
  let ?s = "zADD (q_srv d) qk (now + j_visibilityTimeoutMs j) i s"
  have hash: "v_hash (sq_view ?s) = v_hash (sq_view s)" by (simp add: zADD_view)
  obtain s' where s': "dequeueItems_loop d qk ik now rs ?s = (Inr (map (\<lambda>(i, sc). (i, the (v_hash (sq_view s) ik i), sc)) rs), s')"
    and v: "sq_view s' = (sq_view ?s)\<lparr>v_zset := (v_zset (sq_view ?s))(qk := (\<lambda>i. if i \<in> fst ` set rs
        then Some (now + timeout_of d (v_hash (sq_view s) ik) i) else v_zset (sq_view ?s) qk i))\<rparr>"
  proof -
    have prem: "\<forall>(i, sc) \<in> set rs. sc \<le> now \<and> (\<exists>ser. v_hash (sq_view ?s) ik i = Some ser \<and> lua_decode d ser \<noteq> None)"
      using Cons.prems by (simp add: hash)
    show ?thesis using Cons.IH [OF prem] unfolding hash by (elim exE conjE) (rule that)
  qed
  have "timeout_of d (v_hash (sq_view s) ik) i = j_visibilityTimeoutMs j" by (simp add: timeout_of_def ser)
  then have "sq_view s' = (sq_view s)\<lparr>v_zset := (v_zset (sq_view s))(qk := (\<lambda>i. if i \<in> fst ` set (x # rs)
        then Some (now + timeout_of d (v_hash (sq_view s) ik) i) else v_zset (sq_view s) qk i))\<rparr>"
    unfolding v by (auto simp: x zADD_view fun_eq_iff)
  then show ?case using ser s' by (simp add: x read_views fun_upd_def)
qed

text \<open>A dequeue on an intact queue: it takes the earliest due jobs, hides each until its timeout, and
  changes nothing else.\<close>

lemma dequeueItems_effect:
  assumes "sq_inv d (sq_view s)"
    and rs: "rs = take count (filter (\<lambda>(i, sc). sc \<le> now) (zsorted (v_zset (sq_view s) (kQueue d))))"
  shows "\<exists>s'. dequeueItems d (kQueue d) (kItems d) now count s =
      (Inr (map (\<lambda>(i, sc). (i, the (v_hash (sq_view s) (kItems d) i), sc)) rs), s')
    \<and> sq_view s' = (sq_view s)\<lparr>v_zset := (v_zset (sq_view s))(kQueue d := (\<lambda>i. if i \<in> fst ` set rs
        then Some (now + timeout_of d (v_hash (sq_view s) (kItems d)) i) else v_zset (sq_view s) (kQueue d) i))\<rparr>"
proof -
  have "\<exists>ser. v_hash (sq_view s) (kItems d) i = Some ser \<and> lua_decode d ser \<noteq> None" if "v_zset (sq_view s) (kQueue d) i = Some sc" for i sc
  proof -
    have "v_hash (sq_view s) (kItems d) i \<noteq> None" using that assms(1) unfolding sq_inv_def by (metis option.distinct(1))
    then obtain ser where ser: "v_hash (sq_view s) (kItems d) i = Some ser" by auto
    have "readable d (v_hash (sq_view s) (kItems d) i)" using assms(1) by (simp add: sq_inv_def)
    then show ?thesis by (auto simp: ser readable_def)
  qed
  then have "\<forall>(i, sc) \<in> set rs. sc \<le> now \<and> (\<exists>ser. v_hash (sq_view s) (kItems d) i = Some ser \<and> lua_decode d ser \<noteq> None)"
    using set_zsorted [OF zset_finite] by (auto simp: rs dest!: in_set_takeD)
  note loop = dequeue_loop_effect [OF this]
  show ?thesis
  proof (cases "rs = []")
    case True
    then have "dequeueItems d (kQueue d) (kItems d) now count s = (Inr [], s)"
      by (simp add: dequeueItems_def zRANGEBYSCORE_view rs [symmetric])
    then show ?thesis using True by (simp add: fun_upd_idem)
  next
    case False
    then show ?thesis using loop [of "kQueue d"] by (simp add: dequeueItems_def zRANGEBYSCORE_view rs [symmetric])
  qed
qed

lemma dequeue_inv:
  assumes inv: "sq_inv d (sq_view s)" and run: "sq_dequeue d now count s = (got, s')"
  shows "sq_inv d (sq_view s')"
proof -
  obtain rs where rs: "rs = take count (filter (\<lambda>(i, sc). sc \<le> now) (zsorted (v_zset (sq_view s) (kQueue d))))" by blast
  obtain s1 where s1: "dequeueItems d (kQueue d) (kItems d) now count s =
      (Inr (map (\<lambda>(i, sc). (i, the (v_hash (sq_view s) (kItems d) i), sc)) rs), s1)"
    "sq_view s1 = (sq_view s)\<lparr>v_zset := (v_zset (sq_view s))(kQueue d := (\<lambda>i. if i \<in> fst ` set rs
        then Some (now + timeout_of d (v_hash (sq_view s) (kItems d)) i) else v_zset (sq_view s) (kQueue d) i))\<rparr>"
    using dequeueItems_effect [OF inv rs] by blast
  have "s' = s1" using run by (auto simp: sq_dequeue_def s1(1) split: if_splits)
  moreover have "\<exists>y. v_zset (sq_view s) (kQueue d) i = Some y" if "(i, sc) \<in> set rs" for i sc
    using that set_zsorted [OF zset_finite] by (force simp: rs dest!: in_set_takeD)
  then have "(if i \<in> fst ` set rs then Some (now + timeout_of d (v_hash (sq_view s) (kItems d)) i)
      else v_zset (sq_view s) (kQueue d) i) = None \<longleftrightarrow> v_zset (sq_view s) (kQueue d) i = None" for i
    by force
  ultimately show ?thesis using inv by (simp add: sq_inv_def s1(2))
qed

lemma ack_inv:
  assumes "sq_inv d (sq_view s)"
  shows "sq_inv d (sq_view (sq_ack d i dk s))"
  using assms by (auto simp: sq_ack_def ackItem_def view_simps sq_inv_def Let_def split: option.split)

lemma reschedule_inv:
  assumes "sq_inv d (sq_view s)"
  shows "sq_inv d (sq_view (sq_reschedule d i t s))"
  using assms by (auto simp: sq_reschedule_def view_simps sq_inv_def)

lemma dead_inv:
  assumes "sq_inv d (sq_view s)" and "sq_moveToDeadLetterQueue d now i msg s = (out, s')"
  shows "sq_inv d (sq_view s')"
  using assms
  by (auto simp: sq_moveToDeadLetterQueue_def moveToDeadLetterQueue_item_def view_simps sq_inv_def Let_def
      split: option.splits if_splits)

lemma redrive_inv:
  assumes "sq_inv d (sq_view s)" and "sq_redriveFromDeadLetterQueue d now i s = (out, s')"
  shows "sq_inv d (sq_view s')"
  using assms
  by (auto simp: sq_redriveFromDeadLetterQueue_def redriveFromDeadLetterQueue_item_def view_simps sq_inv_def Let_def
      split: option.splits if_splits)

lemma cancel_inv:
  assumes "sq_inv d (sq_view s)"
  shows "sq_inv d (sq_view (sq_cancel d c s))" "sq_inv d (sq_view (rDEL (q_srv d) (kCancel d c) s))"
  using assms by (auto simp: sq_cancel_def view_simps sq_inv_def)

lemma reachable_sq_inv: "sq_reachable d s \<Longrightarrow> sq_inv d (sq_view s)"
proof (induction rule: sq_reachable.induct)
  case (sq_next s s')
  show ?case
    using sq_next.IH
    by (cases rule: sq_step.cases [OF sq_next.hyps(2)])
      (auto intro: enqueue_inv once_inv dequeue_inv ack_inv reschedule_inv dead_inv redrive_inv cancel_inv cancel_inv(2) [simplified])
qed (simp add: sq_inv_def)

subsection \<open>What the operations promise\<close>

lemma parse_items_got:
  assumes "\<forall>(i, ser, sc) \<in> set rs. readable d (Some ser)"
  shows "\<exists>got. parse_items d rs = Inr got \<and> length got \<le> length rs
    \<and> (\<forall>q \<in> set got. \<exists>ser sc. (i_id q, ser, sc) \<in> set rs \<and> i_timestamp q = Some sc
        \<and> i_visibilityTimeoutMs q = j_visibilityTimeoutMs (the (lua_decode d ser)))"
  using assms
proof (induction rs)
  case (Cons x rs)
  obtain i ser sc where x: "x = (i, ser, sc)" by (cases x)
  obtain got where got: "parse_items d rs = Inr got" "length got \<le> length rs"
    "\<forall>q \<in> set got. \<exists>ser sc. (i_id q, ser, sc) \<in> set rs \<and> i_timestamp q = Some sc
        \<and> i_visibilityTimeoutMs q = j_visibilityTimeoutMs (the (lua_decode d ser))"
    using Cons by auto
  obtain j item where "lua_decode d ser = Some j" "q_parse d ser = Some (j\<lparr>j_item := item\<rparr>)"
    using Cons.prems by (auto simp: x readable_def)
  then show ?case
    using got by (auto simp: x split: option.split) blast+
qed simp

lemma dequeue_hides:
  assumes inv: "sq_inv d (sq_view s)"
  shows "\<exists>got s'. sq_dequeue d now count s = (Inr got, s') \<and> length got \<le> count
    \<and> (\<forall>q \<in> set got. (\<exists>t \<le> now. i_timestamp q = Some t)
        \<and> zSCORE (q_srv d) (kQueue d) (i_id q) s' = Some (now + i_visibilityTimeoutMs q))
    \<and> (\<forall>i. hGET (q_srv d) (kItems d) i s' = hGET (q_srv d) (kItems d) i s)
    \<and> (\<forall>i. zSCORE (q_srv d) (kQueue d) i s' \<noteq> zSCORE (q_srv d) (kQueue d) i s \<longrightarrow>
        (\<exists>t \<le> now. zSCORE (q_srv d) (kQueue d) i s = Some t))"
proof -
  obtain rs where rs: "rs = take count (filter (\<lambda>(i, sc). sc \<le> now) (zsorted (v_zset (sq_view s) (kQueue d))))" by blast
  let ?items = "v_hash (sq_view s) (kItems d)"
  let ?out = "map (\<lambda>(i, sc). (i, the (?items i), sc)) rs"
  obtain s1 where s1: "dequeueItems d (kQueue d) (kItems d) now count s = (Inr ?out, s1)"
    "sq_view s1 = (sq_view s)\<lparr>v_zset := (v_zset (sq_view s))(kQueue d := (\<lambda>i. if i \<in> fst ` set rs
        then Some (now + timeout_of d ?items i) else v_zset (sq_view s) (kQueue d) i))\<rparr>"
    using dequeueItems_effect [OF inv rs] by blast
  have due: "sc \<le> now \<and> v_zset (sq_view s) (kQueue d) i = Some sc" if "(i, sc) \<in> set rs" for i sc
    using that set_zsorted [OF zset_finite] by (force simp: rs dest!: in_set_takeD)
  have item: "readable d (Some (the (?items i)))" if "(i, sc) \<in> set rs" for i sc
  proof -
    have "?items i \<noteq> None" using due [OF that] inv unfolding sq_inv_def by (metis option.distinct(1))
    moreover have "readable d (?items i)" using inv by (simp add: sq_inv_def)
    ultimately show ?thesis by auto
  qed
  then have "\<forall>(i, ser, sc) \<in> set ?out. readable d (Some ser)" by auto
  then obtain got where got: "parse_items d ?out = Inr got" "length got \<le> length ?out"
    "\<forall>q \<in> set got. \<exists>ser sc. (i_id q, ser, sc) \<in> set ?out \<and> i_timestamp q = Some sc
        \<and> i_visibilityTimeoutMs q = j_visibilityTimeoutMs (the (lua_decode d ser))"
    using parse_items_got by blast
  have deq: "sq_dequeue d now count s = (Inr got, s1)"
    using got(1) by (auto simp: sq_dequeue_def s1(1))
  have len: "length got \<le> count" using got(2) by (simp add: rs)
  have "(\<exists>t \<le> now. i_timestamp q = Some t)
      \<and> zSCORE (q_srv d) (kQueue d) (i_id q) s1 = Some (now + i_visibilityTimeoutMs q)" if q: "q \<in> set got" for q
  proof -
    obtain sc where sc: "(i_id q, sc) \<in> set rs" "i_timestamp q = Some sc"
      "i_visibilityTimeoutMs q = j_visibilityTimeoutMs (the (lua_decode d (the (?items (i_id q)))))"
      using got(3) q by auto
    then have "i_id q \<in> fst ` set rs" by force
    then show ?thesis using sc due [OF sc(1)] by (simp add: read_views s1(2) timeout_of_def)
  qed
  moreover have "\<exists>t \<le> now. zSCORE (q_srv d) (kQueue d) i s = Some t"
    if "zSCORE (q_srv d) (kQueue d) i s1 \<noteq> zSCORE (q_srv d) (kQueue d) i s" for i
    using that due by (auto simp: read_views s1(2) split: if_splits)
  ultimately show ?thesis using deq len by (auto simp: read_views s1(2))
qed

end

subsection \<open>An instance\<close>

definition put_job :: "job_data \<Rightarrow> string" where
  "put_job j = put_fields [option_string (j_job j), j_item j, int_to_string (j_visibilityTimeoutMs j),
     option_string (map_option int_to_string (j_attempt j)), option_string (j_deduplicationKey j),
     option_string (j_errorMessage j)]"

definition get_job :: "string \<Rightarrow> job_data option" where
  "get_job s = (case get_fields s of
     [job, item, vt, attempt, dk, err] \<Rightarrow>
       Some \<lparr>j_job = string_option job, j_item = item, j_visibilityTimeoutMs = the (int_of_string vt),
         j_attempt = map_option (the \<circ> int_of_string) (string_option attempt),
         j_deduplicationKey = string_option dk, j_errorMessage = string_option err\<rparr>
   | _ \<Rightarrow> None)"

lemma get_put_job [simp]: "get_job (put_job j) = Some j"
  by (cases j) (simp add: get_job_def put_job_def option.map_comp comp_def option.map_ident)

definition demo_queue :: "store sq_deps" where
  "demo_queue = \<lparr>q_srv = mem_redis, q_prefix = ''{queue:engine:}'', q_stringify = put_job, q_parse = get_job,
     lua_decode = get_job, lua_encode = put_job, q_schema = (\<lambda>job item. Some item)\<rparr>"

lemma job_same_item: "\<exists>item. j = (j :: job_data)\<lparr>j_item := item\<rparr>"
  by (intro exI [of _ "j_item j"]) simp

interpretation demo_q: simple_queue demo_queue
  using mem.redis_server_axioms job_same_item
  by (simp add: simple_queue_def simple_queue_axioms_def demo_queue_def)

lemma demo_queue_reachable: "sq_reachable demo_queue empty_store"
  by (rule sq_init) (simp_all add: demo_queue_def rview_def mem_redis_defs empty_store_def fun_eq_iff)

lemma simple_queue_inv:
  assumes "simple_queue d" and "sq_reachable d s"
  shows "sq_inv d (rview (q_srv d) s)"
  by (rule simple_queue.reachable_sq_inv [OF assms])

subsection \<open>Properties\<close>

text \<open>C36. The job queue is intact in every state its operations reach, in any order: an id is queued
  exactly when its job is stored, likewise for the dead letter queue, and every stored job can be read
  by the scripts and by the class.\<close>

theorem job_queue_invariant:
  assumes "simple_queue d" and "sq_reachable d s"
  shows "sq_inv d (rview (q_srv d) s)"
  by (rule simple_queue_inv [OF assms])

theorem job_queue_invariant_witness:
  "\<exists>s. sq_size demo_queue 0 True s = 1 \<and> sq_inv demo_queue (rview (q_srv demo_queue) s)"
proof -
  let ?run = "sq_enqueue demo_queue 5 ''n1'' [] (Some ''job_1'') ''mail'' ''{}'' None None 30 None empty_store"
  obtain out s where run: "?run = (out, s)" by fastforce
  then have s: "s = snd ?run" by simp
  have "sq_reachable demo_queue s" by (rule sq_next [OF demo_queue_reachable sq_step_enqueue [OF run]])
  moreover have "sq_size demo_queue 0 True s = 1"
    by (simp add: s sq_enqueue_def enqueueItem_def sq_size_def demo_queue_def mem_redis_defs m_zadd_def empty_store_def
        entries_sorted_def Let_def)
  ultimately show ?thesis using job_queue_invariant [OF demo_q.simple_queue_axioms] by blast
qed

text \<open>C37. At-least-once delivery: in a reachable state a dequeue never fails; it returns at most the
  requested number of due jobs, each hidden from then on until its visibility timeout; no job is removed,
  and only jobs that were due are touched.\<close>

theorem dequeue_hides_and_keeps:
  assumes "simple_queue d" and "sq_reachable d s"
  shows "\<exists>got s'. sq_dequeue d now count s = (Inr got, s') \<and> length got \<le> count
    \<and> (\<forall>q \<in> set got. (\<exists>t \<le> now. i_timestamp q = Some t)
        \<and> zSCORE (q_srv d) (kQueue d) (i_id q) s' = Some (now + i_visibilityTimeoutMs q))
    \<and> (\<forall>i. hGET (q_srv d) (kItems d) i s' = hGET (q_srv d) (kItems d) i s)
    \<and> (\<forall>i. zSCORE (q_srv d) (kQueue d) i s' \<noteq> zSCORE (q_srv d) (kQueue d) i s \<longrightarrow>
        (\<exists>t \<le> now. zSCORE (q_srv d) (kQueue d) i s = Some t))"
  by (rule simple_queue.dequeue_hides [OF assms(1) simple_queue_inv [OF assms]])

theorem dequeue_hides_and_keeps_witness:
  "\<exists>got s'. sq_dequeue demo_queue 9 3 empty_store = (Inr got, s') \<and> length got \<le> 3"
  using dequeue_hides_and_keeps [OF demo_q.simple_queue_axioms demo_queue_reachable, of 9 3] by blast

text \<open>C38. An acknowledgement removes only the version of a job it was given for: after a job is enqueued
  again under its id, the acknowledgement of the older version changes nothing, and that of the new
  version removes the job from the queue and the hash.\<close>

theorem ack_keeps_newer_version:
  assumes sq: "simple_queue d" and "k \<noteq> []" and "nano \<noteq> []"
    and enq: "sq_enqueue d now nano fresh (Some i) job item attempt availableAt vt None s = (Inr (), s1)"
  shows "rview (q_srv d) (sq_ack d i (Some k) s1) =
      (if k = nano then rview (q_srv d) (zREM (q_srv d) (kQueue d) i (hDEL (q_srv d) (kItems d) i s1))
       else rview (q_srv d) s1)
    \<and> hGET (q_srv d) (kItems d) i (sq_ack d i (Some nano) s1) = None
    \<and> zSCORE (q_srv d) (kQueue d) i (sq_ack d i (Some nano) s1) = None"
proof -
  note R = simple_queue.axioms(1) [OF sq]
  have "hGET (q_srv d) (kItems d) i s1 = Some (serialized d job item vt attempt nano)"
    using enq by (auto simp: sq_enqueue_def enqueueItem_def Let_def redis_server.read_views [OF R] redis_server.hSET_view [OF R])
  moreover have "\<exists>j. lua_decode d (serialized d job item vt attempt nano) = Some j \<and> j_deduplicationKey j = Some nano"
    by (simp add: serialized_def simple_queue.decode_stringify [OF sq])
  ultimately show ?thesis
    using assms(2,3)
    by (auto simp: sq_ack_def ackItem_def Let_def redis_server.read_views [OF R] redis_server.zREM_view [OF R] redis_server.hDEL_view [OF R])
qed

lemma demo_enqueue:
  obtains s1 where "sq_enqueue demo_queue 5 ''n2'' [] (Some ''job_1'') ''mail'' ''{}'' None None 30 None empty_store = (Inr (), s1)"
  by (simp add: sq_enqueue_def enqueueItem_def Let_def)

theorem ack_keeps_newer_version_witness:
  "\<exists>s1. rview (q_srv demo_queue) (sq_ack demo_queue ''job_1'' (Some ''n1'') s1) = rview (q_srv demo_queue) s1
     \<and> hGET (q_srv demo_queue) (kItems demo_queue) ''job_1'' (sq_ack demo_queue ''job_1'' (Some ''n2'') s1) = None"
proof -
  obtain s1 where "sq_enqueue demo_queue 5 ''n2'' [] (Some ''job_1'') ''mail'' ''{}'' None None 30 None empty_store = (Inr (), s1)"
    by (rule demo_enqueue)
  from ack_keeps_newer_version [OF demo_q.simple_queue_axioms _ _ this, of "''n1''"] show ?thesis by auto
qed

text \<open>\<open>enqueueOnce\<close> enqueues at most once: it answers whether the job was new, and while a job of that
  id is stored a further call answers false and changes nothing.\<close>

theorem enqueueOnce_idempotent:
  assumes sq: "simple_queue d" and "i \<noteq> []"
    and once: "sq_enqueueOnce d now nano i job item attempt availableAt vt s = (out, s1)"
  shows "out = Inr (hGET (q_srv d) (kItems d) i s = None)
    \<and> hGET (q_srv d) (kItems d) i s1 \<noteq> None
    \<and> (\<exists>s2. sq_enqueueOnce d now' nano' i job' item' attempt' availableAt' vt' s1 = (Inr False, s2)
        \<and> rview (q_srv d) s2 = rview (q_srv d) s1)"
proof -
  note R = simple_queue.axioms(1) [OF sq] and once_view = simple_queue.enqueueItemOnce_view [OF sq]
  let ?call = "\<lambda>now nano job item attempt availableAt vt. enqueueItemOnce (q_srv d) (kQueue d) (kItems d) i
      (case availableAt of Some t \<Rightarrow> t | None \<Rightarrow> now) (serialized d job item vt attempt nano)"
  have step: "sq_enqueueOnce d now nano i job item attempt availableAt vt s =
      (Inr (fst (?call now nano job item attempt availableAt vt s) = 1), snd (?call now nano job item attempt availableAt vt s))"
    for now nano job item attempt availableAt vt s
    using assms(2) by (simp add: sq_enqueueOnce_def Let_def case_prod_beta)
  have "v_hash (rview (q_srv d) s1) (kItems d) i \<noteq> None"
    using once by (auto simp: step once_view)
  then show ?thesis
    using once by (auto simp: step once_view redis_server.read_views [OF R] split: if_splits)
qed

theorem enqueueOnce_idempotent_witness:
  "\<exists>s1 s2. sq_enqueueOnce demo_queue 5 ''n1'' ''q'' ''process'' ''{}'' None None 30 empty_store = (Inr True, s1)
     \<and> sq_enqueueOnce demo_queue 6 ''n2'' ''q'' ''process'' ''{}'' None None 30 s1 = (Inr False, s2)"
proof -
  obtain out s1 where once: "sq_enqueueOnce demo_queue 5 ''n1'' ''q'' ''process'' ''{}'' None None 30 empty_store = (out, s1)" by fastforce
  have "hGET (q_srv demo_queue) (kItems demo_queue) ''q'' empty_store = None"
    by (simp add: demo_queue_def mem_redis_defs empty_store_def)
  then show ?thesis
    using enqueueOnce_idempotent [OF demo_q.simple_queue_axioms _ once, of 6 "''n2''" "''process''" "''{}''" None None 30] once by auto
qed

text \<open>A dead job can be brought back: moving a stored job to the dead letter queue takes it out of the
  queue, and redriving it stores it again, available at once, with its job, timeout, attempt count and
  deduplication key as they were.\<close>

theorem dead_letter_roundtrip:
  assumes sq: "simple_queue d" and "sq_reachable d s"
    and job: "sq_getJob d i s = Inr (Some q)"
  shows "\<exists>s1 s2 item. sq_moveToDeadLetterQueue d t1 i msg s = (Inr (), s1) \<and> sq_getJob d i s1 = Inr None
    \<and> sq_redriveFromDeadLetterQueue d t2 i s1 = (Inr (), s2)
    \<and> sq_getJob d i s2 = Inr (Some (q\<lparr>i_item := item, i_timestamp := Some t2\<rparr>))"
proof -
  note R = simple_queue.axioms(1) [OF sq] and inv = simple_queue_inv [OF sq assms(2)]
  note views = redis_server.read_views [OF R] redis_server.zADD_view [OF R] redis_server.zREM_view [OF R]
    redis_server.hSET_view [OF R] redis_server.hDEL_view [OF R]
  obtain ser where ser: "v_hash (rview (q_srv d) s) (kItems d) i = Some ser"
    using job by (auto simp: sq_getJob_def getJob_script_def views split: option.splits)
  have "readable d (Some ser)" using inv by (metis ser sq_inv_def)
  then obtain j item where j: "lua_decode d ser = Some j" "q_parse d ser = Some (j\<lparr>j_item := item\<rparr>)"
    by (auto simp: readable_def)
  obtain item1 where j1: "lua_decode d (lua_encode d (j\<lparr>j_errorMessage := Some msg\<rparr>)) = Some (j\<lparr>j_errorMessage := Some msg, j_item := item1\<rparr>)"
    using simple_queue.decode_encode [OF sq] by blast
  obtain item2 where j2: "q_parse d (lua_encode d (j\<lparr>j_item := item1, j_errorMessage := None\<rparr>)) =
      Some (j\<lparr>j_item := item1, j_errorMessage := None, j_item := item2\<rparr>)"
    using simple_queue.parse_encode [OF sq] by blast
  let ?s1 = "snd (sq_moveToDeadLetterQueue d t1 i msg s)"
  have s1: "sq_moveToDeadLetterQueue d t1 i msg s = (Inr (), ?s1)"
    "v_hash (rview (q_srv d) ?s1) (kItems d) i = None"
    "v_hash (rview (q_srv d) ?s1) (kDlqItems d) i = Some (lua_encode d (j\<lparr>j_errorMessage := Some msg\<rparr>))"
    by (simp_all add: sq_moveToDeadLetterQueue_def moveToDeadLetterQueue_item_def Let_def views ser j)
  let ?s2 = "snd (sq_redriveFromDeadLetterQueue d t2 i ?s1)"
  have s2: "sq_redriveFromDeadLetterQueue d t2 i ?s1 = (Inr (), ?s2)"
    "v_hash (rview (q_srv d) ?s2) (kItems d) i = Some (lua_encode d (j\<lparr>j_item := item1, j_errorMessage := None\<rparr>))"
    "v_zset (rview (q_srv d) ?s2) (kQueue d) i = Some t2"
    by (simp_all add: sq_redriveFromDeadLetterQueue_def redriveFromDeadLetterQueue_item_def Let_def views s1(3) j1)
  have "sq_getJob d i ?s1 = Inr None" by (simp add: sq_getJob_def getJob_script_def views s1(2))
  moreover have "sq_getJob d i ?s2 = Inr (Some (q\<lparr>i_item := item2, i_timestamp := Some t2\<rparr>))"
    using job by (auto simp: sq_getJob_def getJob_script_def views ser j s2(2,3) j2)
  ultimately show ?thesis using s1(1) s2(1) by blast
qed

theorem dead_letter_roundtrip_witness:
  "\<exists>s s1 s2 q item. sq_getJob demo_queue ''job_1'' s = Inr (Some q)
     \<and> sq_moveToDeadLetterQueue demo_queue 7 ''job_1'' ''boom'' s = (Inr (), s1)
     \<and> sq_redriveFromDeadLetterQueue demo_queue 8 ''job_1'' s1 = (Inr (), s2)
     \<and> sq_getJob demo_queue ''job_1'' s2 = Inr (Some (q\<lparr>i_item := item, i_timestamp := Some 8\<rparr>))"
proof -
  obtain s where s: "sq_enqueue demo_queue 5 ''n2'' [] (Some ''job_1'') ''mail'' ''{}'' None None 30 None empty_store = (Inr (), s)"
    by (rule demo_enqueue)
  have "\<exists>q. sq_getJob demo_queue ''job_1'' s = Inr (Some q)"
    using s by (auto simp: sq_getJob_def getJob_script_def sq_enqueue_def enqueueItem_def Let_def demo_q.read_views
        demo_q.hSET_view serialized_def demo_q.parse_stringify)
  then obtain q where q: "sq_getJob demo_queue ''job_1'' s = Inr (Some q)" by blast
  show ?thesis
    using dead_letter_roundtrip [OF demo_q.simple_queue_axioms sq_next [OF demo_queue_reachable sq_step_enqueue [OF s]] q, of 7 "''boom''" 8] q
    by blast
qed

end
