(* ===== verification/Redis_Worker_Properties.thy ===== *)
theory Redis_Worker_Properties
  imports Redis_Worker Simple_Queue_Properties
begin

text \<open>
  What the background worker does with a job: it is acknowledged when its handler returned, and after
  a failure it comes back with the attempt counted, after the backoff, or goes to the dead letter queue
  when its attempts are used up. Also the scheduling of cron jobs, the bound of the backoff and of what
  a worker loop asks for, and what happens when a job is replaced while an older version of it runs.
\<close>

text \<open>The settings a failed job is retried with, and its next delay.\<close>

definition job_delay :: "'s worker_deps \<Rightarrow> catalog_item \<Rightarrow> queue_item \<Rightarrow> rat \<Rightarrow> int option" where
  "job_delay w c q rnd = calculateNextRetryDelay (w_fl w) (w_pow w)
     (merge_options workerRetrySettings (case c_retry c of Some r \<Rightarrow> r | None \<Rightarrow> no_retry)) (i_attempt q + 1) rnd"

context simple_queue
begin

lemma enqueue_getJob:
  "sq_getJob d i (snd (sq_enqueue d now nano fresh (Some i) job item attempt availableAt vt None s)) =
     Inr (Some \<lparr>i_id = i, i_job = job, i_item = item, i_visibilityTimeoutMs = vt,
       i_attempt = (case attempt of None \<Rightarrow> 0 | Some a \<Rightarrow> a),
       i_timestamp = Some (case availableAt of Some t \<Rightarrow> t | None \<Rightarrow> now), i_deduplicationKey = Some nano\<rparr>)"
  by (simp add: sq_getJob_def getJob_script_def sq_enqueue_def enqueueItem_def Let_def view_simps serialized_def
      parse_stringify)

lemma dead_letter_effect:
  assumes "v_hash (sq_view s) (kItems d) i \<noteq> None" and "sq_inv d (sq_view s)"
  shows "\<exists>s'. sq_moveToDeadLetterQueue d t i msg s = (Inr (), s') \<and> sq_getJob d i s' = Inr None
    \<and> zSCORE (q_srv d) (kDlq d) i s' = Some t"
proof -
  obtain ser where ser: "v_hash (sq_view s) (kItems d) i = Some ser" using assms(1) by blast
  have "readable d (Some ser)" using assms(2) by (metis ser sq_inv_def)
  then obtain j where "lua_decode d ser = Some j" by (auto simp: readable_def)
  then show ?thesis
    by (simp add: sq_moveToDeadLetterQueue_def moveToDeadLetterQueue_item_def sq_getJob_def getJob_script_def Let_def
        view_simps ser)
qed

end

lemma processItem_failure_unfold:
  assumes "w_handlers w (i_job q)" and "w_catalog w (i_job q) = Some c" and "c_cron c = None"
  shows "processItem w clock now t nano rnd (Inl msg) message q s =
    (if job_delay w c q rnd = None \<or> job_delay w c q rnd = Some 0
     then Some (snd (sq_moveToDeadLetterQueue (w_queue w) t (i_id q) msg s))
     else Some (snd (sq_enqueue (w_queue w) now nano [] (Some (i_id q)) (i_job q) (i_item q) (Some (i_attempt q + 1))
       (Some (now + the (job_delay w c q rnd))) (i_visibilityTimeoutMs q) None s)))"
  using assms
  by (auto simp: processItem_def requeue_failed_def job_delay_def Let_def rescheduleCronJob_def
      split: prod.split sum.split)

subsection \<open>Properties\<close>

text \<open>C39. A failed job is not lost: in a reachable state a stored job whose handler failed is stored again
  under its id with the attempt counted and available after the backoff, or, when the backoff gives no
  further attempt, is out of the queue and in the dead letter queue.\<close>

theorem failed_job_retried_or_dead:
  assumes sq: "simple_queue (w_queue w)" and "sq_reachable (w_queue w) s"
    and job: "w_handlers w (i_job q)" "w_catalog w (i_job q) = Some c" "c_cron c = None"
    and stored: "hGET (q_srv (w_queue w)) (kItems (w_queue w)) (i_id q) s \<noteq> None"
    and run: "processItem w clock now t nano rnd (Inl msg) message q s = Some s'"
  shows "if job_delay w c q rnd \<in> {None, Some 0}
    then sq_getJob (w_queue w) (i_id q) s' = Inr None
      \<and> zSCORE (q_srv (w_queue w)) (kDlq (w_queue w)) (i_id q) s' = Some t
    else sq_getJob (w_queue w) (i_id q) s' = Inr (Some \<lparr>i_id = i_id q, i_job = i_job q, i_item = i_item q,
        i_visibilityTimeoutMs = i_visibilityTimeoutMs q, i_attempt = i_attempt q + 1,
        i_timestamp = Some (now + the (job_delay w c q rnd)), i_deduplicationKey = Some nano\<rparr>)"
proof -
  have "v_hash (rview (q_srv (w_queue w)) s) (kItems (w_queue w)) (i_id q) \<noteq> None"
    using stored by (simp add: redis_server.read_views [OF simple_queue.axioms(1) [OF sq]])
  note dead = simple_queue.dead_letter_effect [OF sq this simple_queue_inv [OF assms(1,2)], of t msg]
  then show ?thesis
    using run processItem_failure_unfold [OF job, of clock now t nano rnd msg message s]
      simple_queue.enqueue_getJob [OF sq] by auto
qed

definition demo_worker :: "store worker_deps" where
  "demo_worker = \<lparr>w_queue = demo_queue, w_catalog = (\<lambda>_. Some \<lparr>c_visibilityTimeoutMs = 30, c_retry = None, c_cron = None, c_jitterInMs = None\<rparr>),
     w_handlers = (\<lambda>_. True), w_cron_next = (\<lambda>cron lastT now. now + 60000), w_cron_item = (\<lambda>t l c. c),
     w_item_timestamp = (\<lambda>_. 0), w_fl = (\<lambda>x. x), w_pow = (\<lambda>b n. b ^ nat n)\<rparr>"

definition demo_item :: queue_item where
  "demo_item = \<lparr>i_id = ''job_1'', i_job = ''mail'', i_item = ''{}'', i_visibilityTimeoutMs = 30, i_attempt = 0,
     i_timestamp = Some 5, i_deduplicationKey = Some ''n2''\<rparr>"

lemma demo_job_stored:
  assumes "sq_enqueue demo_queue 5 ''n2'' [] (Some ''job_1'') ''mail'' ''{}'' None None 30 None empty_store = (Inr (), s)"
  shows "hGET (q_srv demo_queue) (kItems demo_queue) ''job_1'' s \<noteq> None"
  using assms by (auto simp: sq_enqueue_def enqueueItem_def Let_def demo_q.read_views demo_q.hSET_view)

theorem failed_job_retried_or_dead_witness:
  "\<exists>s s'. processItem demo_worker [9] 9 9 ''n3'' 0 (Inl ''boom'') (\<lambda>_. []) demo_item s = Some s'
     \<and> sq_getJob demo_queue ''job_1'' s' = Inr (Some (demo_item\<lparr>i_attempt := 1, i_timestamp := Some 1009, i_deduplicationKey := Some ''n3''\<rparr>))"
proof -
  obtain s where s: "sq_enqueue demo_queue 5 ''n2'' [] (Some ''job_1'') ''mail'' ''{}'' None None 30 None empty_store = (Inr (), s)"
    by (rule demo_enqueue)
  have reach: "sq_reachable demo_queue s" by (rule sq_next [OF demo_queue_reachable sq_step_enqueue [OF s]])
  let ?c = "\<lparr>c_visibilityTimeoutMs = 30, c_retry = None, c_cron = None, c_jitterInMs = None\<rparr>"
  have delay: "job_delay demo_worker ?c demo_item 0 = Some 1000"
    by (simp add: job_delay_def demo_worker_def demo_item_def calculateNextRetryDelay_def merge_options_def
        workerRetrySettings_def no_retry_def Let_def js_round_def floor_eq_iff)
  obtain s' where s': "processItem demo_worker [9] 9 9 ''n3'' 0 (Inl ''boom'') (\<lambda>_. []) demo_item s = Some s'"
    using processItem_failure_unfold [of demo_worker demo_item ?c "[9]" 9 9 "''n3''" 0 "''boom''" "\<lambda>_. []" s] delay
    by (simp add: demo_worker_def)
  show ?thesis
    using failed_job_retried_or_dead [of demo_worker s demo_item ?c "[9]" 9 9 "''n3''" 0 "''boom''" "\<lambda>_. []" s']
      demo_q.simple_queue_axioms reach demo_job_stored [OF s] s' delay
    by (auto simp: demo_worker_def demo_item_def)
qed

text \<open>A failed job overwrites a newer version of itself: when a job is enqueued again under its id while
  an older version runs, and that older version then fails with attempts left, the stored job is the old
  payload again; the newer one is gone.\<close>

theorem failed_job_overwrites_newer:
  assumes sq: "simple_queue (w_queue w)"
    and job: "w_handlers w (i_job q)" "w_catalog w (i_job q) = Some c" "c_cron c = None"
    and delay: "job_delay w c q rnd = Some delay" "delay \<noteq> 0"
    and newer: "sq_enqueue (w_queue w) now1 nano1 [] (Some (i_id q)) (i_job q) newItem None None vt None s = (Inr (), s1)"
  shows "\<exists>s' q'. processItem w clock now t nano rnd (Inl msg) message q s1 = Some s'
    \<and> sq_getJob (w_queue w) (i_id q) s' = Inr (Some q') \<and> i_item q' = i_item q"
  using processItem_failure_unfold [OF job, of clock now t nano rnd msg message s1] delay
    simple_queue.enqueue_getJob [OF sq] by auto

theorem failed_job_overwrites_newer_witness:
  "\<exists>s1 s' q'. sq_enqueue demo_queue 7 ''n9'' [] (Some ''job_1'') ''mail'' ''{new}'' None None 30 None empty_store = (Inr (), s1)
     \<and> processItem demo_worker [9] 9 9 ''n3'' 0 (Inl ''boom'') (\<lambda>_. []) demo_item s1 = Some s'
     \<and> sq_getJob demo_queue ''job_1'' s' = Inr (Some q') \<and> i_item q' = ''{}''"
proof -
  obtain s1 where s1: "sq_enqueue demo_queue 7 ''n9'' [] (Some ''job_1'') ''mail'' ''{new}'' None None 30 None empty_store = (Inr (), s1)"
    by (simp add: sq_enqueue_def enqueueItem_def Let_def)
  let ?c = "\<lparr>c_visibilityTimeoutMs = 30, c_retry = None, c_cron = None, c_jitterInMs = None\<rparr>"
  have delay: "job_delay demo_worker ?c demo_item 0 = Some 1000"
    by (simp add: job_delay_def demo_worker_def demo_item_def calculateNextRetryDelay_def merge_options_def
        workerRetrySettings_def no_retry_def Let_def js_round_def floor_eq_iff)
  show ?thesis
    using failed_job_overwrites_newer [of demo_worker demo_item ?c 0 1000 7 "''n9''" "''{new}''" 30 empty_store s1 "[9]" 9 9 "''n3''" "''boom''" "\<lambda>_. []"]
      demo_q.simple_queue_axioms s1 delay by (auto simp: demo_worker_def demo_item_def)
qed

text \<open>A worker loop never takes on more than its limit: what it asks for is positive and, with the jobs
  it already has, stays within the concurrency limit.\<close>

theorem loop_task_count_within_limit:
  assumes "loop_task_count limit taskCount active pending = Some n" and "0 < taskCount"
  shows "0 < n \<and> n \<le> taskCount \<and> active + pending + n \<le> limit"
  using assms by (auto simp: loop_task_count_def split: if_splits)

theorem loop_task_count_within_limit_witness: "loop_task_count 100 10 90 8 = Some 2 \<and> 90 + 8 + (2 :: int) \<le> 100"
  using loop_task_count_within_limit [of 100 10 90 8 2] by (simp add: loop_task_count_def)

text \<open>A cron job's next run is never in the past: given that the parser's next date after the current
  time is not before it, two clock readings are enough, and the date is not before the reading it was
  computed at.\<close>

theorem calculateNextScheduledAt_not_past:
  assumes "\<forall>now. now \<le> w_cron_next w cron None now"
  shows "\<exists>t. calculateNextScheduledAt w cron lastTimestamp (now1 # now2 # clock) = Some t
    \<and> (now1 \<le> t \<or> now2 \<le> t)
    \<and> (lastTimestamp = None \<longrightarrow> now1 \<le> t)"
  using assms [rule_format, of now1] assms [rule_format, of now2]
  by (cases lastTimestamp) (auto simp: Let_def not_less)

theorem calculateNextScheduledAt_not_past_witness:
  "\<exists>t. calculateNextScheduledAt demo_worker ''* * * * *'' (Some 0) [5, 6] = Some t \<and> (5 \<le> t \<or> 6 \<le> t)"
  using calculateNextScheduledAt_not_past [of demo_worker "''* * * * *''" "Some 0" 5 6 "[]"]
  by (auto simp: demo_worker_def)

end
