(* ===== verification/Fair_Selection.thy ===== *)
theory Fair_Selection
  imports Run_Queue_Keys Run_Queue_Scripts Retries "HOL-Library.Multiset"
begin

text \<open>
  The fair queue selection strategy
  (\<open>internal-packages/run-engine/src/run-queue/fairQueueSelectionStrategy.ts\<close>): from the master queue of a
  shard it takes a snapshot of the queues that are due and of the environments with free concurrency,
  and orders environments and queues at random with configurable biases.

  The random generator is a parameter \<open>rng\<close> on an explicit generator state. Arithmetic on doubles is
  rounded by \<open>fl\<close>; a number that is \<open>NaN\<close> (an age of 0 divided by a maximal age of 0, a limit that is
  not a number) is \<open>None\<close>, and comparisons with it are false. No division here is of a positive number by 0: ages
  are at most the maximal age, and a limit above the current concurrency is positive. A JavaScript object used as a map by environment id is an association
  list in the order of insertion, which is the order of its keys (the ids are not numerals). The cache of
  the environments' limits is a package of its own: what it answers is the parameter \<open>cached_limit\<close>.
\<close>

record biases =
  concurrencyLimitBias :: rat
  availableCapacityBias :: rat
  queueAgeRandomization :: rat

record fair_queue =
  fq_id :: key
  fq_age :: int
  fq_org :: string
  fq_env :: string
  fq_project :: string

record fair_concurrency =
  fc_current :: rat
  fc_limit :: "rat option"

record fair_snapshot =
  fs_envs :: "(string \<times> fair_concurrency) list"
  fs_queues :: "fair_queue list"

record ('s, 'g) fair_deps =
  f_srv :: "'s redis"
  f_prefix :: key
  f_fl :: "rat \<Rightarrow> rat"
  f_pow2 :: "rat \<Rightarrow> rat"
  f_rng :: "'g \<Rightarrow> rat \<times> 'g"
  f_cached_limit :: "key \<Rightarrow> 's \<Rightarrow> rat option"
  f_defaultEnvConcurrencyLimit :: rat
  f_parentQueueLimit :: nat
  f_biases :: "biases option"
  f_reuseSnapshotCount :: "nat option"
  f_maximumEnvCount :: "nat option"

text \<open>The state of the strategy: the generator and the snapshots kept for reuse.\<close>

record 'g fair_state =
  fst_rng :: 'g
  fst_reused :: "key \<Rightarrow> (fair_snapshot \<times> nat) option"

definition emptyFairQueueSnapshot :: fair_snapshot where
  "emptyFairQueueSnapshot = \<lparr>fs_envs = [], fs_queues = []\<rparr>"

definition defaultBiases :: biases where
  "defaultBiases = \<lparr>concurrencyLimitBias = 0, availableCapacityBias = 0, queueAgeRandomization = 0\<rparr>"

subsection \<open>Weighted choice\<close>

fun nan_add :: "(rat \<Rightarrow> rat) \<Rightarrow> rat option \<Rightarrow> rat option \<Rightarrow> rat option" where
  "nan_add fl (Some a) (Some b) = Some (fl (a + b))"
| "nan_add fl _ _ = None"

fun nan_sub :: "(rat \<Rightarrow> rat) \<Rightarrow> rat option \<Rightarrow> rat option \<Rightarrow> rat option" where
  "nan_sub fl (Some a) (Some b) = Some (fl (a - b))"
| "nan_sub fl _ _ = None"

fun nan_div :: "(rat \<Rightarrow> rat) \<Rightarrow> rat option \<Rightarrow> rat option \<Rightarrow> rat option" where
  "nan_div fl (Some a) (Some b) = (if b = 0 then None else Some (fl (a / b)))"
| "nan_div fl _ _ = None"

text \<open>\<open>Math.max\<close> of a list that is not empty: \<open>NaN\<close> when one of the numbers is.\<close>

fun nan_max :: "rat option list \<Rightarrow> rat option" where
  "nan_max [] = None"
| "nan_max [x] = x"
| "nan_max (x # xs) = (case (x, nan_max xs) of (Some a, Some b) \<Rightarrow> Some (max a b) | _ \<Rightarrow> None)"

definition total_weight :: "(rat \<Rightarrow> rat) \<Rightarrow> ('a \<times> rat option) list \<Rightarrow> rat option" where
  "total_weight fl items = fold (\<lambda>item s. nan_add fl s (snd item)) items (Some 0)"

text \<open>\<open>while (random > 0 && index < items.length) { random -= items[index].weight; index++; }\<close>\<close>

fun pick_loop :: "(rat \<Rightarrow> rat) \<Rightarrow> rat option \<Rightarrow> ('a \<times> rat option) list \<Rightarrow> nat \<Rightarrow> nat" where
  "pick_loop fl random [] index = index"
| "pick_loop fl random (item # items) index =
     (case random of
        None \<Rightarrow> index
      | Some r \<Rightarrow> if r > 0 then pick_loop fl (nan_sub fl random (snd item)) items (index + 1) else index)"

text \<open>\<open>Math.max(0, index - 1)\<close> after the loop.\<close>

definition pick_index :: "(rat \<Rightarrow> rat) \<Rightarrow> rat option \<Rightarrow> ('a \<times> rat option) list \<Rightarrow> nat" where
  "pick_index fl random items = pick_loop fl random items 0 - 1"

definition remove_at :: "nat \<Rightarrow> 'a list \<Rightarrow> 'a list" where
  "remove_at i xs = take i xs @ drop (Suc i) xs"

lemma length_remove_at: "i < length xs \<Longrightarrow> length (remove_at i xs) = length xs - 1"
  by (simp add: remove_at_def)

lemma pick_loop_le: "pick_loop fl random items index \<le> index + length items"
proof (induction items arbitrary: random index)
  case (Cons a items)
  show ?case using Cons [of "nan_sub fl random (snd a)" "index + 1"] by (auto split: option.split)
qed simp

lemma pick_index_less: "items \<noteq> [] \<Longrightarrow> pick_index fl random items < length items"
  using pick_loop_le [of fl random items 0] by (cases items) (auto simp: pick_index_def)

text \<open>\<open>this._rng() * totalWeight\<close>\<close>

definition random_below :: "(rat \<Rightarrow> rat) \<Rightarrow> rat \<Rightarrow> rat option \<Rightarrow> rat option" where
  "random_below fl r totalWeight = map_option (\<lambda>t. fl (r * t)) totalWeight"

text \<open>The environments' shuffle: the total weight is computed once and not reduced as items are taken.\<close>

function weightedShuffle_loop ::
    "(rat \<Rightarrow> rat) \<Rightarrow> ('g \<Rightarrow> rat \<times> 'g) \<Rightarrow> rat option \<Rightarrow> ('a \<times> rat option) list \<Rightarrow> 'g \<Rightarrow> 'a list \<times> 'g" where
  "weightedShuffle_loop fl rng totalWeight items g =
     (if items = [] then ([], g)
      else
        (let (r, g) = rng g;
             index = pick_index fl (random_below fl r totalWeight) items;
             (result, g) = weightedShuffle_loop fl rng totalWeight (remove_at index items) g
         in (fst (items ! index) # result, g)))"
  by pat_completeness auto
termination
  by (relation "measure (\<lambda>(fl, rng, t, items, g). length items)")
    (auto simp: length_remove_at pick_index_less)

declare weightedShuffle_loop.simps [simp del]

definition weightedShuffle :: "('s, 'g) fair_deps \<Rightarrow> (string \<times> rat option) list \<Rightarrow> 'g \<Rightarrow> string list \<times> 'g" where
  "weightedShuffle d weightedItems g =
     weightedShuffle_loop (f_fl d) (f_rng d) (total_weight (f_fl d) weightedItems) weightedItems g"

text \<open>The choice with a shrinking total, at most \<open>n\<close> items: the order of queues (all of them) and the
  selection of environments.\<close>

fun weighted_take ::
    "nat \<Rightarrow> (rat \<Rightarrow> rat) \<Rightarrow> ('g \<Rightarrow> rat \<times> 'g) \<Rightarrow> rat option \<Rightarrow> ('a \<times> rat option) list \<Rightarrow> 'g \<Rightarrow> 'a list \<times> 'g" where
  "weighted_take 0 fl rng totalWeight items g = ([], g)"
| "weighted_take (Suc n) fl rng totalWeight items g =
     (if items = [] then ([], g)
      else
        (let (r, g) = rng g;
             index = pick_index fl (random_below fl r totalWeight) items;
             (result, g) = weighted_take n fl rng (nan_sub fl totalWeight (snd (items ! index))) (remove_at index items) g
         in (fst (items ! index) # result, g)))"

text \<open>The Fisher-Yates shuffle; writing beyond the end would extend the array, which \<open>list_update\<close> does
  not: the index is shown to be in range.\<close>

definition swap_at :: "nat \<Rightarrow> nat \<Rightarrow> 'a list \<Rightarrow> 'a list" where
  "swap_at i j xs = xs[i := xs ! j, j := xs ! i]"

fun shuffle_loop :: "(rat \<Rightarrow> rat) \<Rightarrow> ('g \<Rightarrow> rat \<times> 'g) \<Rightarrow> nat \<Rightarrow> 'a list \<Rightarrow> 'g \<Rightarrow> 'a list \<times> 'g" where
  "shuffle_loop fl rng 0 newArray g = (newArray, g)"
| "shuffle_loop fl rng (Suc currentIndex) newArray g =
     (let (r, g) = rng g;
          randomIndex = nat \<lfloor>fl (r * of_nat (Suc currentIndex))\<rfloor>
      in shuffle_loop fl rng currentIndex (swap_at currentIndex randomIndex newArray) g)"

definition fair_shuffle :: "('s, 'g) fair_deps \<Rightarrow> 'a list \<Rightarrow> 'g \<Rightarrow> 'a list \<times> 'g" where
  "fair_shuffle d array g = shuffle_loop (f_fl d) (f_rng d) (length array) array g"

subsection \<open>Ordering\<close>

text \<open>Grouping by environment, in the order of first occurrence.\<close>

definition group_step :: "(string \<times> fair_queue list) list \<Rightarrow> fair_queue \<Rightarrow> (string \<times> fair_queue list) list" where
  "group_step acc q =
     (case map_of acc (fq_env q) of
        None \<Rightarrow> acc @ [(fq_env q, [q])]
      | Some _ \<Rightarrow> map (\<lambda>(e, qs). if e = fq_env q then (e, qs @ [q]) else (e, qs)) acc)"

definition group_by_env :: "fair_queue list \<Rightarrow> (string \<times> fair_queue list) list" where
  "group_by_env queues = fold (\<lambda>q acc. group_step acc q) queues []"

definition weightedRandomQueueOrder :: "('s, 'g) fair_deps \<Rightarrow> fair_queue list \<Rightarrow> 'g \<Rightarrow> fair_queue list \<times> 'g" where
  "weightedRandomQueueOrder d queues g =
     (if length queues \<le> 1 then (queues, g)
      else
        (let b = with_default (f_biases d) defaultBiases in
         if queueAgeRandomization b = 0 then (sort_key (\<lambda>q. - fq_age q) queues, g)
         else
           (let maxAge = nan_max (map (\<lambda>q. Some (of_int (fq_age q))) queues);
                weightedQueues = map (\<lambda>q. (q, map_option (\<lambda>normalizedAge.
                    f_fl d (1 + f_fl d (normalizedAge * queueAgeRandomization b)))
                  (nan_div (f_fl d) (Some (of_int (fq_age q))) maxAge))) queues
            in weighted_take (length queues) (f_fl d) (f_rng d) (total_weight (f_fl d) weightedQueues) weightedQueues g)))"

text \<open>One environment of \<open>#orderQueuesByEnvs\<close> after the other.\<close>

fun orderQueuesByEnvs :: "('s, 'g) fair_deps \<Rightarrow> string list \<Rightarrow> fair_queue list \<Rightarrow> 'g \<Rightarrow> (string \<times> key list) list \<times> 'g" where
  "orderQueuesByEnvs d [] queues g = ([], g)"
| "orderQueuesByEnvs d (envId # envs) queues g =
     (case map_of (group_by_env queues) envId of
        None \<Rightarrow> orderQueuesByEnvs d envs queues g
      | Some envQueues \<Rightarrow>
          (let (orderedQueues, g) = weightedRandomQueueOrder d envQueues g;
               (rest, g) = orderQueuesByEnvs d envs queues g
           in if orderedQueues = [] then (rest, g)
              else ((envId, map fq_id orderedQueues) # rest, g)))"

fun nan_mul :: "(rat \<Rightarrow> rat) \<Rightarrow> rat option \<Rightarrow> rat option \<Rightarrow> rat option" where
  "nan_mul fl (Some a) (Some b) = Some (fl (a * b))"
| "nan_mul fl _ _ = None"

definition env_weight :: "('s, 'g) fair_deps \<Rightarrow> biases \<Rightarrow> rat option \<Rightarrow> fair_concurrency \<Rightarrow> rat option" where
  "env_weight d b maxLimit c =
     (let weight = Some 1;
          weight = (if concurrencyLimitBias b > 0
            then nan_mul (f_fl d) weight (map_option (\<lambda>normalizedLimit.
                f_fl d (1 + f_pow2 d (f_fl d (normalizedLimit * concurrencyLimitBias b))))
              (nan_div (f_fl d) (fc_limit c) maxLimit))
            else weight);
          weight = (if availableCapacityBias b > 0
            then nan_mul (f_fl d) weight (map_option (\<lambda>usedCapacityPercentage.
                f_fl d (1 + f_pow2 d (f_fl d (f_fl d (1 - usedCapacityPercentage) * availableCapacityBias b))))
              (nan_div (f_fl d) (Some (fc_current c)) (fc_limit c)))
            else weight)
      in weight)"

definition shuffleQueuesByEnv :: "('s, 'g) fair_deps \<Rightarrow> fair_snapshot \<Rightarrow> 'g \<Rightarrow> (string \<times> key list) list \<times> 'g" where
  "shuffleQueuesByEnv d snapshot g =
     (let envs = map fst (fs_envs snapshot);
          b = with_default (f_biases d) defaultBiases
      in if concurrencyLimitBias b = 0 \<and> availableCapacityBias b = 0 then
           (let (shuffledEnvs, g) = fair_shuffle d envs g
            in orderQueuesByEnvs d shuffledEnvs (fs_queues snapshot) g)
         else
           (let maxLimit = nan_max (map (fc_limit \<circ> snd) (fs_envs snapshot));
                weightedEnvs = map (\<lambda>(envId, c). (envId, env_weight d b maxLimit c)) (fs_envs snapshot);
                (shuffledEnvs, g) = weightedShuffle d weightedEnvs g
            in orderQueuesByEnvs d shuffledEnvs (fs_queues snapshot) g))"

subsection \<open>The snapshot\<close>

definition fpk :: "('s, 'g) fair_deps \<Rightarrow> key \<Rightarrow> key" where
  "fpk d k = f_prefix d @ k"

text \<open>An identifier that is missing from a queue key is \<open>undefined\<close> and prints as such.\<close>

definition allChildQueuesByScore :: "('s, 'g) fair_deps \<Rightarrow> key \<Rightarrow> time \<Rightarrow> 's \<Rightarrow> fair_queue list" where
  "allChildQueuesByScore d parentQueue now s =
     map (\<lambda>(q, score). \<lparr>fq_id = q, fq_age = now - score, fq_org = js_str (orgIdFromQueue q),
         fq_env = js_str (envIdFromQueue q), fq_project = js_str (projectIdFromQueue q)\<rparr>)
       (zRANGEBYSCORE (f_srv d) (fpk d parentQueue) now (f_parentQueueLimit d) s)"

definition selectTopEnvs :: "('s, 'g) fair_deps \<Rightarrow> fair_queue list \<Rightarrow> nat \<Rightarrow> 'g \<Rightarrow> string list \<times> 'g" where
  "selectTopEnvs d queues maximumEnvCount g =
     (let groups = group_by_env queues;
          averages = map (\<lambda>(e, qs). (e, f_fl d (of_int (sum_list (map fq_age qs)) / of_nat (length qs)))) groups;
          maxAge = nan_max (map (Some \<circ> snd) averages);
          weightedEnvs = map (\<lambda>(e, a). (e, nan_div (f_fl d) (Some a) maxAge)) averages
      in weighted_take maximumEnvCount (f_fl d) (f_rng d) (total_weight (f_fl d) weightedEnvs) weightedEnvs g)"

definition fair_env :: "fair_queue \<Rightarrow> rq_env" where
  "fair_env q = \<lparr>env_id = fq_env q, project_id = fq_project q, organization_id = fq_org q\<rparr>"

text \<open>\<open>Number(value)\<close> of a stored number; \<open>None\<close> would be \<open>NaN\<close>.\<close>

definition fair_burst :: "('s, 'g) fair_deps \<Rightarrow> rq_env \<Rightarrow> 's \<Rightarrow> rat option" where
  "fair_burst d env s =
     (case rGET (f_srv d) (fpk d (envConcurrencyLimitBurstFactorKey env)) s of
        Some result \<Rightarrow> tonumber (f_fl d) result
      | None \<Rightarrow> Some 1)"

definition getEnvConcurrency :: "('s, 'g) fair_deps \<Rightarrow> rq_env \<Rightarrow> 's \<Rightarrow> fair_concurrency" where
  "getEnvConcurrency d env s =
     (let limitValue = with_default (f_cached_limit d (envConcurrencyLimitKey env) s) (f_defaultEnvConcurrencyLimit d)
      in \<lparr>fc_current = of_nat (sCARD (f_srv d) (fpk d (envCurrentConcurrencyKey env)) s),
          fc_limit = map_option (\<lambda>limitBurstFactor. of_int \<lfloor>f_fl d (limitValue * limitBurstFactor)\<rfloor>) (fair_burst d env s)\<rparr>)"

text \<open>\<open>env.concurrency.current >= env.concurrency.limit\<close>\<close>

definition at_full :: "fair_concurrency \<Rightarrow> bool" where
  "at_full c = (case fc_limit c of None \<Rightarrow> False | Some limit \<Rightarrow> fc_current c \<ge> limit)"

text \<open>Environments in the order of first occurrence, each described by its last queue.\<close>

definition env_descriptors :: "fair_queue list \<Rightarrow> (string \<times> rq_env) list" where
  "env_descriptors queues = map (\<lambda>(e, qs). (e, fair_env (last qs))) (group_by_env queues)"

definition build_snapshot :: "('s, 'g) fair_deps \<Rightarrow> fair_queue list \<Rightarrow> 's \<Rightarrow> fair_snapshot" where
  "build_snapshot d queues s =
     (let envs = map (\<lambda>(e, env). (e, getEnvConcurrency d env s)) (env_descriptors queues);
          full = map fst (filter (\<lambda>(e, c). at_full c) envs)
      in \<lparr>fs_envs = filter (\<lambda>(e, c). e \<notin> set full) envs,
          fs_queues = filter (\<lambda>q. fq_env q \<notin> set full) queues\<rparr>)"

text \<open>The selection of environments, where \<open>maximumEnvCount\<close> is given and positive.\<close>

definition limit_envs :: "('s, 'g) fair_deps \<Rightarrow> fair_queue list \<Rightarrow> 'g \<Rightarrow> fair_queue list \<times> 'g" where
  "limit_envs d queues g =
     (case f_maximumEnvCount d of
        Some (Suc n) \<Rightarrow>
          (let (selected, g) = selectTopEnvs d queues (Suc n) g
           in (filter (\<lambda>q. fq_env q \<in> set selected) queues, g))
      | _ \<Rightarrow> (queues, g))"

definition fresh_snapshot :: "('s, 'g) fair_deps \<Rightarrow> key \<Rightarrow> time \<Rightarrow> 's \<Rightarrow> 'g \<Rightarrow> (fair_snapshot option) \<times> 'g" where
  "fresh_snapshot d parentQueue now s g =
     (let queues = allChildQueuesByScore d parentQueue now s in
      if queues = [] then (None, g)
      else
        (let (queues, g) = limit_envs d queues g
         in (Some (build_snapshot d queues s), g)))"

definition createQueueSnapshot ::
    "('s, 'g) fair_deps \<Rightarrow> key \<Rightarrow> string \<Rightarrow> time \<Rightarrow> 's \<Rightarrow> 'g fair_state \<Rightarrow> fair_snapshot \<times> 'g fair_state" where
  "createQueueSnapshot d parentQueue consumerId now s st =
     (let reuse = (case f_reuseSnapshotCount d of Some n \<Rightarrow> n | None \<Rightarrow> 0);
          k = parentQueue @ '':'' @ consumerId;
          kept = (if reuse > 0 then fst_reused st k else None)
      in case kept of
           Some (snapshot, reuseCount) \<Rightarrow>
             if reuseCount < reuse then
               (snapshot, st\<lparr>fst_reused := (fst_reused st)(k := Some (snapshot, reuseCount + 1))\<rparr>)
             else
               (let st = st\<lparr>fst_reused := (fst_reused st)(k := None)\<rparr>;
                    (fresh, g) = fresh_snapshot d parentQueue now s (fst_rng st)
                in case fresh of
                     None \<Rightarrow> (emptyFairQueueSnapshot, st\<lparr>fst_rng := g\<rparr>)
                   | Some snapshot \<Rightarrow> (snapshot, st\<lparr>fst_rng := g, fst_reused := (fst_reused st)(k := Some (snapshot, 0))\<rparr>))
         | None \<Rightarrow>
             (let (fresh, g) = fresh_snapshot d parentQueue now s (fst_rng st)
              in case fresh of
                   None \<Rightarrow> (emptyFairQueueSnapshot, st\<lparr>fst_rng := g\<rparr>)
                 | Some snapshot \<Rightarrow>
                     (snapshot, st\<lparr>fst_rng := g, fst_reused := (if reuse > 0
                        then (fst_reused st)(k := Some (snapshot, 0)) else fst_reused st)\<rparr>)))"

definition distributeFairQueuesFromParentQueue ::
    "('s, 'g) fair_deps \<Rightarrow> key \<Rightarrow> string \<Rightarrow> time \<Rightarrow> 's \<Rightarrow> 'g fair_state \<Rightarrow> (string \<times> key list) list \<times> 'g fair_state" where
  "distributeFairQueuesFromParentQueue d parentQueue consumerId now s st =
     (let (snapshot, st) = createQueueSnapshot d parentQueue consumerId now s st
      in if fs_queues snapshot = [] then ([], st)
         else
           (let (envQueues, g) = shuffleQueuesByEnv d snapshot (fst_rng st)
            in (envQueues, st\<lparr>fst_rng := g\<rparr>)))"

end
