(* ===== verification/Fair_Selection_Properties.thy ===== *)
theory Fair_Selection_Properties
  imports Fair_Selection
begin

text \<open>
  The selection strategy loses and invents nothing, whatever the random numbers and weights: its
  shuffles permute, its selection takes different environments and no more than allowed, and a
  distribution lists exactly the due queues of the environments that have free concurrency, each once,
  and in order of age when no randomisation is configured.
\<close>

subsection \<open>Permutations\<close>

lemma mset_remove_at: "i < length xs \<Longrightarrow> add_mset (xs ! i) (mset (remove_at i xs)) = mset xs"
proof -
  assume "i < length xs"
  then have "mset xs = mset (take i xs @ xs ! i # drop (Suc i) xs)" by (simp add: id_take_nth_drop [symmetric])
  then show ?thesis by (simp add: remove_at_def)
qed

lemma image_remove_at:
  "i < length xs \<Longrightarrow> add_mset (f (xs ! i)) (image_mset f (mset (remove_at i xs))) = image_mset f (mset xs)"
  using mset_remove_at [of i xs] by (metis image_mset_add_mset)

lemma weightedShuffle_loop_permutes:
  "mset (fst (weightedShuffle_loop fl rng t items g)) = mset (map fst items)"
proof (induction fl rng t items g rule: weightedShuffle_loop.induct)
  case (1 fl rng t items g)
  show ?case
  proof (cases "items = []")
    case True
    then show ?thesis by (simp add: weightedShuffle_loop.simps)
  next
    case False
    obtain r g1 where g1: "rng g = (r, g1)" by fastforce
    let ?i = "pick_index fl (random_below fl r t) items"
    obtain rest g2 where rest: "weightedShuffle_loop fl rng t (remove_at ?i items) g1 = (rest, g2)" by fastforce
    have "mset rest = mset (map fst (remove_at ?i items))"
      using 1 [OF False g1 [symmetric] refl refl] rest by simp
    then show ?thesis
      using False pick_index_less [OF False, of fl "random_below fl r t"]
      by (subst weightedShuffle_loop.simps) (simp add: g1 rest image_remove_at)
  qed
qed

lemma weighted_take_part:
  "mset (fst (weighted_take n fl rng t items g)) \<subseteq># mset (map fst items)
   \<and> length (fst (weighted_take n fl rng t items g)) = min n (length items)"
proof (induction n arbitrary: t items g)
  case (Suc n)
  show ?case
  proof (cases "items = []")
    case False
    obtain r g1 where g1: "rng g = (r, g1)" by fastforce
    let ?i = "pick_index fl (random_below fl r t) items"
    let ?t = "nan_sub fl t (snd (items ! ?i))"
    obtain rest g2 where rest: "weighted_take n fl rng ?t (remove_at ?i items) g1 = (rest, g2)" by fastforce
    have i: "?i < length items" by (rule pick_index_less [OF False])
    have "mset rest \<subseteq># mset (map fst (remove_at ?i items))" "length rest = min n (length items - 1)"
      using Suc [of ?t "remove_at ?i items" g1] rest by (simp_all add: length_remove_at [OF i])
    moreover from this(1) have "add_mset (fst (items ! ?i)) (mset rest) \<subseteq># image_mset fst (mset items)"
      using image_remove_at [OF i, of fst] by (metis mset_map mset_subset_eq_add_mset_cancel)
    ultimately show ?thesis using False i by (simp add: g1 rest)
  qed simp
qed simp

lemma weighted_take_all:
  "mset (fst (weighted_take (length items) fl rng t items g)) = mset (map fst items)"
  using weighted_take_part [of "length items" fl rng t items g]
  by (metis length_map min.idem mset_subset_size size_mset subset_mset.le_imp_less_or_eq less_irrefl)

lemma swap_at_permutes: "i < length xs \<Longrightarrow> j < length xs \<Longrightarrow> mset (swap_at i j xs) = mset xs"
  unfolding swap_at_def by (rule mset_swap)

text \<open>What the shuffle relies on of the generator and of rounding: a random number below 1 times an array
  length, rounded down, is an index of the array.\<close>

definition rng_in_range :: "(rat \<Rightarrow> rat) \<Rightarrow> ('g \<Rightarrow> rat \<times> 'g) \<Rightarrow> bool" where
  "rng_in_range fl rng \<longleftrightarrow> (\<forall>g n. 0 \<le> fl (fst (rng g) * of_nat (Suc n)) \<and> fl (fst (rng g) * of_nat (Suc n)) < of_nat (Suc n))"

lemma rng_index: "rng_in_range fl rng \<Longrightarrow> rng g = (r, g') \<Longrightarrow> nat \<lfloor>fl (r * of_nat (Suc n))\<rfloor> < Suc n"
proof -
  assume "rng_in_range fl rng" "rng g = (r, g')"
  then have "0 \<le> fl (r * of_nat (Suc n))" "fl (r * of_nat (Suc n)) < of_nat (Suc n)"
    unfolding rng_in_range_def by (metis fst_conv)+
  then have "0 \<le> \<lfloor>fl (r * of_nat (Suc n))\<rfloor>" "\<lfloor>fl (r * of_nat (Suc n))\<rfloor> < int (Suc n)"
    by (simp_all add: floor_less_iff del: of_nat_Suc)
  then show ?thesis by linarith
qed

lemma shuffle_loop_permutes:
  assumes "rng_in_range fl rng" and "n \<le> length xs"
  shows "mset (fst (shuffle_loop fl rng n xs g)) = mset xs"
  using assms(2)
proof (induction n arbitrary: xs g)
  case (Suc n)
  obtain r g1 where g1: "rng g = (r, g1)" by fastforce
  let ?j = "nat \<lfloor>fl (r * of_nat (Suc n))\<rfloor>"
  have "?j < length xs" using rng_index [OF assms(1) g1, of n] Suc.prems by simp
  then have "mset (swap_at n ?j xs) = mset xs" using Suc.prems by (intro swap_at_permutes) auto
  moreover have "n \<le> length (swap_at n ?j xs)" using Suc.prems by (simp add: swap_at_def)
  ultimately show ?case using Suc.IH [of "swap_at n ?j xs" g1] by (simp add: g1 del: of_nat_Suc)
qed simp

subsection \<open>Groups\<close>

lemma group_by_env_snoc: "group_by_env (qs @ [q]) = group_step (group_by_env qs) q"
  by (simp add: group_by_env_def)

lemma map_of_group_update:
  "map_of (map (\<lambda>(e, qs). if e = k then (e, qs @ [q]) else (e, qs)) acc) e =
     map_option (\<lambda>l. if e = k then l @ [q] else l) (map_of acc e)"
  by (induction acc) auto

lemma keys_group_update: "map fst (map (\<lambda>(e, qs). if e = k then (e, qs @ [q]) else (e, qs)) acc) = map fst acc"
  by (induction acc) auto

lemma group_by_env_lookup:
  "map_of (group_by_env qs) e = (if \<exists>q \<in> set qs. fq_env q = e then Some (filter (\<lambda>q. fq_env q = e) qs) else None)"
proof (induction qs arbitrary: e rule: rev_induct)
  case (snoc q qs)
  show ?case
  proof (cases "\<exists>q' \<in> set qs. fq_env q' = fq_env q")
    case True
    then show ?thesis
      using snoc.IH [of "fq_env q"] snoc.IH [of e]
      by (auto simp: group_by_env_snoc group_step_def map_of_group_update)
  next
    case False
    then have "filter (\<lambda>q'. fq_env q' = fq_env q) qs = []" by (simp add: filter_empty_conv)
    then show ?thesis
      using False snoc.IH [of "fq_env q"] snoc.IH [of e]
      by (auto simp: group_by_env_snoc group_step_def map_add_def)
  qed
qed (simp add: group_by_env_def)

lemma group_by_env_distinct: "distinct (map fst (group_by_env qs))"
proof (induction qs rule: rev_induct)
  case (snoc q qs)
  show ?case
  proof (cases "map_of (group_by_env qs) (fq_env q)")
    case None
    then have "fq_env q \<notin> fst ` set (group_by_env qs)" by (simp add: map_of_eq_None_iff)
    then show ?thesis using snoc None by (simp add: group_by_env_snoc group_step_def)
  next
    case (Some l)
    then show ?thesis using snoc by (simp add: group_by_env_snoc group_step_def keys_group_update del: map_map)
  qed
qed (simp add: group_by_env_def)

lemma group_by_env_keys: "set (map fst (group_by_env qs)) = fq_env ` set qs"
proof -
  have "e \<in> set (map fst (group_by_env qs)) \<longleftrightarrow> e \<in> fq_env ` set qs" for e
    using group_by_env_lookup [of qs e] map_of_eq_None_iff [of "group_by_env qs" e] by (auto split: if_splits)
  then show ?thesis by blast
qed

subsection \<open>A distribution\<close>

lemma weighted_take_map:
  "mset (fst (weighted_take (length qs) fl rng t (map (\<lambda>q. (q, w q)) qs) g)) = mset qs"
  using weighted_take_all [of "map (\<lambda>q. (q, w q)) qs" fl rng t g] by (simp add: comp_def)

lemma weightedRandomQueueOrder_permutes: "mset (fst (weightedRandomQueueOrder d qs g)) = mset qs"
  by (simp add: weightedRandomQueueOrder_def Let_def weighted_take_map)

lemma filter_env_split:
  assumes "e \<notin> set envs"
  shows "mset (filter (\<lambda>q. fq_env q \<in> set (e # envs)) qs) =
    mset (filter (\<lambda>q. fq_env q = e) qs) + mset (filter (\<lambda>q. fq_env q \<in> set envs) qs)"
  using assms by (induction qs) auto

lemma orderQueuesByEnvs_lists:
  assumes "distinct envs"
  shows "mset (concat (map snd (fst (orderQueuesByEnvs d envs qs g)))) =
      image_mset fq_id (mset (filter (\<lambda>q. fq_env q \<in> set envs) qs))
    \<and> set (map fst (fst (orderQueuesByEnvs d envs qs g))) \<subseteq> set envs
    \<and> distinct (map fst (fst (orderQueuesByEnvs d envs qs g)))"
  using assms
proof (induction envs arbitrary: g)
  case (Cons e envs)
  then have e: "e \<notin> set envs" and IH: "\<And>g. mset (concat (map snd (fst (orderQueuesByEnvs d envs qs g)))) =
      image_mset fq_id (mset (filter (\<lambda>q. fq_env q \<in> set envs) qs))
    \<and> set (map fst (fst (orderQueuesByEnvs d envs qs g))) \<subseteq> set envs
    \<and> distinct (map fst (fst (orderQueuesByEnvs d envs qs g)))" by simp_all
  show ?case
  proof (cases "\<exists>q \<in> set qs. fq_env q = e")
    case False
    then have same: "filter (\<lambda>q. fq_env q \<in> set (e # envs)) qs = filter (\<lambda>q. fq_env q \<in> set envs) qs"
      by (intro filter_cong) auto
    have "map_of (group_by_env qs) e = None" using False by (simp add: group_by_env_lookup)
    then have eq: "orderQueuesByEnvs d (e # envs) qs g = orderQueuesByEnvs d envs qs g" by simp
    show ?thesis unfolding eq same using IH [of g] set_subset_Cons [of envs e] by blast
  next
    case True
    let ?l = "filter (\<lambda>q. fq_env q = e) qs"
    have some: "map_of (group_by_env qs) e = Some ?l" using True by (simp add: group_by_env_lookup)
    obtain ordered g1 where ordered: "weightedRandomQueueOrder d ?l g = (ordered, g1)" by fastforce
    obtain rest g2 where rest: "orderQueuesByEnvs d envs qs g1 = (rest, g2)" by fastforce
    have perm: "mset ordered = mset ?l" using weightedRandomQueueOrder_permutes [of d ?l g] ordered by simp
    have "?l \<noteq> []" using True by (auto simp: filter_empty_conv)
    then have "ordered \<noteq> []" using perm by auto
    then have ord: "fst (orderQueuesByEnvs d (e # envs) qs g) = (e, map fq_id ordered) # rest"
      by (simp add: some ordered rest Let_def)
    have keys: "set (map fst rest) \<subseteq> set envs" "distinct (map fst rest)" using IH [of g1] rest by simp_all
    have all: "mset (concat (map snd rest)) = image_mset fq_id (mset (filter (\<lambda>q. fq_env q \<in> set envs) qs))"
      using IH [of g1] rest by simp
    have "mset (map fq_id ordered @ concat (map snd rest)) =
        image_mset fq_id (mset (filter (\<lambda>q. fq_env q \<in> set (e # envs)) qs))"
      unfolding filter_env_split [OF e] mset_append mset_map perm all by simp
    then show ?thesis unfolding ord using keys e by auto
  qed
qed simp

lemma env_descriptors_keys: "map fst (env_descriptors qs) = map fst (group_by_env qs)"
  by (simp add: env_descriptors_def case_prod_beta comp_def)

lemma shuffled_envs:
  assumes "rng_in_range (f_fl d) (f_rng d)"
  obtains envs g' where "mset envs = mset (map fst (fs_envs snap))"
    and "shuffleQueuesByEnv d snap g = orderQueuesByEnvs d envs (fs_queues snap) g'"
proof -
  let ?b = "with_default (f_biases d) defaultBiases"
  let ?w = "map (\<lambda>(envId, c). (envId, env_weight d ?b (nan_max (map (fc_limit \<circ> snd) (fs_envs snap))) c)) (fs_envs snap)"
  obtain e1 g1 where s1: "fair_shuffle d (map fst (fs_envs snap)) g = (e1, g1)" by fastforce
  obtain e2 g2 where s2: "weightedShuffle d ?w g = (e2, g2)" by fastforce
  have "mset e1 = mset (map fst (fs_envs snap))"
    using shuffle_loop_permutes [OF assms, of "length (fs_envs snap)" "map fst (fs_envs snap)" g] s1
    by (simp add: fair_shuffle_def)
  moreover have "map fst ?w = map fst (fs_envs snap)" by (induction "fs_envs snap") auto
  then have "mset e2 = mset (map fst (fs_envs snap))"
    using weightedShuffle_loop_permutes [of "f_fl d" "f_rng d" "total_weight (f_fl d) ?w" ?w g] s2
    unfolding weightedShuffle_def by (metis fst_conv)
  ultimately show thesis
    using that [of e1 g1] that [of e2 g2] s1 s2
    by (cases "concurrencyLimitBias ?b = 0 \<and> availableCapacityBias ?b = 0") (auto simp: shuffleQueuesByEnv_def Let_def)
qed

lemma map_of_env_descriptors:
  "map_of (env_descriptors qs) e = map_option (\<lambda>l. fair_env (last l)) (map_of (group_by_env qs) e)"
  unfolding env_descriptors_def by (induction "group_by_env qs" rule: list.induct) (simp_all add: map_of_map)

text \<open>The environment that a queue's due queues describe, and whether it has a free slot.\<close>

definition described_env :: "fair_queue list \<Rightarrow> string \<Rightarrow> rq_env" where
  "described_env qs e = fair_env (last (filter (\<lambda>q. fq_env q = e) qs))"

definition env_has_room :: "('s, 'g) fair_deps \<Rightarrow> fair_queue list \<Rightarrow> 's \<Rightarrow> string \<Rightarrow> bool" where
  "env_has_room d qs s e \<longleftrightarrow> \<not> at_full (getEnvConcurrency d (described_env qs e) s)"

lemma env_descriptors_eq: "env_descriptors qs = map (\<lambda>e. (e, described_env qs e)) (map fst (group_by_env qs))"
proof -
  have "fair_env (last l) = described_env qs e" if "(e, l) \<in> set (group_by_env qs)" for e l
    using map_of_is_SomeI [OF group_by_env_distinct that] by (auto simp: group_by_env_lookup described_env_def split: if_splits)
  then show ?thesis by (auto simp: env_descriptors_def)
qed

lemma full_envs:
  "set (map fst (filter (\<lambda>(e, c). at_full c) (map (\<lambda>e. (e, getEnvConcurrency d (described_env qs e) s)) es))) =
     {e \<in> set es. \<not> env_has_room d qs s e}"
  by (induction es) (auto simp: env_has_room_def)

lemma snapshot_concurrency:
  "map (\<lambda>(e, env). (e, getEnvConcurrency d env s)) (env_descriptors qs) =
     map (\<lambda>e. (e, getEnvConcurrency d (described_env qs e) s)) (map fst (group_by_env qs))"
  by (simp add: env_descriptors_eq)

lemma build_snapshot_envs:
  "fs_envs (build_snapshot d qs s) =
     map (\<lambda>e. (e, getEnvConcurrency d (described_env qs e) s)) (filter (env_has_room d qs s) (map fst (group_by_env qs)))"
proof -
  have "filter (\<lambda>(e, c). e \<notin> {e \<in> set es. \<not> env_has_room d qs s e}) (map (\<lambda>e. (e, k e)) es) =
      map (\<lambda>e. (e, k e)) (filter (env_has_room d qs s) es)" for k and es :: "string list"
    unfolding filter_map comp_def by (intro arg_cong [where f = "map (\<lambda>e. (e, k e))"] filter_cong) auto
  then show ?thesis unfolding build_snapshot_def Let_def snapshot_concurrency full_envs by (simp only: fair_snapshot.simps)
qed

lemma build_snapshot_queues: "fs_queues (build_snapshot d qs s) = filter (\<lambda>q. env_has_room d qs s (fq_env q)) qs"
proof -
  have "filter (\<lambda>q. fq_env q \<notin> {e \<in> fq_env ` set qs. \<not> env_has_room d qs s e}) qs = filter (\<lambda>q. env_has_room d qs s (fq_env q)) qs"
    by (intro filter_cong) auto
  then show ?thesis unfolding build_snapshot_def Let_def snapshot_concurrency full_envs group_by_env_keys by simp
qed

lemma snapshot_distribution:
  assumes rng: "rng_in_range (f_fl d) (f_rng d)" and snap: "snap = build_snapshot d qs s"
  shows "mset (concat (map snd (fst (shuffleQueuesByEnv d snap g)))) =
      image_mset fq_id (mset (filter (\<lambda>q. env_has_room d qs s (fq_env q)) qs))
    \<and> distinct (map fst (fst (shuffleQueuesByEnv d snap g)))
    \<and> set (map fst (fst (shuffleQueuesByEnv d snap g))) \<subseteq> fq_env ` set qs"
proof -
  obtain envs g' where envs: "mset envs = mset (map fst (fs_envs snap))"
    and eq: "shuffleQueuesByEnv d snap g = orderQueuesByEnvs d envs (fs_queues snap) g'"
    by (rule shuffled_envs [OF rng])
  have keys: "map fst (fs_envs snap) = filter (env_has_room d qs s) (map fst (group_by_env qs))"
    by (simp add: snap build_snapshot_envs comp_def)
  have set: "set envs = {e \<in> fq_env ` set qs. env_has_room d qs s e}"
    using mset_eq_setD [OF envs] unfolding keys using group_by_env_keys [of qs] by auto
  have "distinct (map fst (fs_envs snap))" unfolding keys by (simp add: group_by_env_distinct)
  then have dist: "distinct envs" using envs mset_eq_imp_distinct_iff by blast
  have "filter (\<lambda>q. fq_env q \<in> set envs) (fs_queues snap) = filter (\<lambda>q. env_has_room d qs s (fq_env q)) qs"
    unfolding snap build_snapshot_queues filter_filter set by (intro filter_cong) auto
  then show ?thesis using orderQueuesByEnvs_lists [OF dist, of d "fs_queues snap" g'] set unfolding eq by auto
qed

subsection \<open>Due queues and selected environments\<close>

text \<open>The due queues in ascending order of score, at most \<open>parentQueueLimit\<close> of them, each once.\<close>

lemma due_queues:
  assumes R: "redis_server (f_srv d)"
  shows "distinct (map fq_id (allChildQueuesByScore d pq now s))
    \<and> length (allChildQueuesByScore d pq now s) \<le> f_parentQueueLimit d
    \<and> (\<forall>q \<in> set (allChildQueuesByScore d pq now s). \<exists>score.
         v_zset (rview (f_srv d) s) (fpk d pq) (fq_id q) = Some score \<and> score \<le> now \<and> fq_age q = now - score)"
proof -
  let ?z = "v_zset (rview (f_srv d) s) (fpk d pq)"
  let ?l = "take (f_parentQueueLimit d) (filter (\<lambda>(m, sc). sc \<le> now) (zsorted ?z))"
  have fin: "finite (dom ?z)" by (rule redis_server.zset_finite [OF R])
  have "map fq_id (allChildQueuesByScore d pq now s) = map fst ?l"
    unfolding allChildQueuesByScore_def redis_server.zRANGEBYSCORE_view [OF R] by (simp add: case_prod_beta comp_def)
  moreover have "distinct (map fst ?l)"
    unfolding take_map [symmetric] by (intro distinct_take distinct_map_filter distinct_fst_zsorted fin)
  moreover have "?z m = Some sc \<and> sc \<le> now" if "(m, sc) \<in> set ?l" for m sc
    using in_set_takeD [OF that] set_zsorted [OF fin] by auto
  moreover have "\<exists>sc. (fq_id q, sc) \<in> set ?l \<and> fq_age q = now - sc" if "q \<in> set (allChildQueuesByScore d pq now s)" for q
    using that unfolding allChildQueuesByScore_def redis_server.zRANGEBYSCORE_view [OF R] by force
  moreover have "length (allChildQueuesByScore d pq now s) \<le> f_parentQueueLimit d"
    by (simp add: allChildQueuesByScore_def redis_server.zRANGEBYSCORE_view [OF R])
  ultimately show ?thesis by metis
qed

text \<open>What a distribution that does not reuse a snapshot returns.\<close>

definition no_reuse :: "('s, 'g) fair_deps \<Rightarrow> bool" where
  "no_reuse d \<longleftrightarrow> (case f_reuseSnapshotCount d of Some n \<Rightarrow> n = 0 | None \<Rightarrow> True)"

lemma fresh_distribution:
  assumes "no_reuse d"
  shows "fst (distributeFairQueuesFromParentQueue d pq cid now s st) =
    (case fresh_snapshot d pq now s (fst_rng st) of
       (Some snap, g) \<Rightarrow> if fs_queues snap = [] then [] else fst (shuffleQueuesByEnv d snap g)
     | (None, g) \<Rightarrow> [])"
  using assms
  by (auto simp: distributeFairQueuesFromParentQueue_def createQueueSnapshot_def no_reuse_def Let_def emptyFairQueueSnapshot_def
      split: option.splits prod.splits)

lemma shuffle_no_queues:
  assumes "rng_in_range (f_fl d) (f_rng d)" and "fs_queues (build_snapshot d qs s) = []"
  shows "fst (shuffleQueuesByEnv d (build_snapshot d qs s) g) = []"
proof -
  have "group_by_env [] = []" by (simp add: group_by_env_def)
  then have "orderQueuesByEnvs d envs [] g' = ([], g')" for envs g' by (induction envs) simp_all
  then show ?thesis using shuffled_envs [OF assms(1)] assms(2) by (metis fst_conv)
qed

lemma due_distribution:
  assumes rng: "rng_in_range (f_fl d) (f_rng d)" and nr: "no_reuse d"
  obtains g where "fst (distributeFairQueuesFromParentQueue d pq cid now s st) =
      fst (shuffleQueuesByEnv d (build_snapshot d (fst (limit_envs d (allChildQueuesByScore d pq now s) (fst_rng st))) s) g)"
proof -
  let ?due = "allChildQueuesByScore d pq now s"
  have "limit_envs d [] g = ([], g)" for g
    by (simp add: limit_envs_def selectTopEnvs_def group_by_env_def split: option.split nat.split)
  moreover obtain qs g where "limit_envs d ?due (fst_rng st) = (qs, g)" by fastforce
  moreover have "build_snapshot d [] s = emptyFairQueueSnapshot"
    by (simp add: build_snapshot_def emptyFairQueueSnapshot_def env_descriptors_def group_by_env_def)
  then have "fst (shuffleQueuesByEnv d (build_snapshot d [] s) g) = []" for g
    using shuffle_no_queues [OF rng, of "[]" s g] by (simp add: emptyFairQueueSnapshot_def)
  ultimately show thesis
    using that [of g] fresh_distribution [OF nr, of pq cid now s st] shuffle_no_queues [OF rng, of qs s g]
    by (cases "?due = []") (auto simp: fresh_snapshot_def)
qed

subsection \<open>Order and reuse\<close>

definition oldest_first :: "fair_queue list \<Rightarrow> bool" where
  "oldest_first qs \<longleftrightarrow> sorted_wrt (\<lambda>a b. fq_age b \<le> fq_age a) qs"

lemma weightedRandomQueueOrder_oldest_first:
  assumes "queueAgeRandomization (with_default (f_biases d) defaultBiases) = 0"
  shows "oldest_first (fst (weightedRandomQueueOrder d qs g))"
proof (cases "length qs \<le> 1")
  case True
  then show ?thesis by (cases qs) (auto simp: weightedRandomQueueOrder_def oldest_first_def)
next
  case False
  have "sorted (map (\<lambda>q. - fq_age q) (sort_key (\<lambda>q. - fq_age q) qs))" by simp
  then have "oldest_first (sort_key (\<lambda>q. - fq_age q) qs)" by (simp add: oldest_first_def sorted_wrt_map)
  then show ?thesis using False assms by (simp add: weightedRandomQueueOrder_def Let_def)
qed

lemma orderQueuesByEnvs_entry:
  "(e, ids) \<in> set (fst (orderQueuesByEnvs d envs qs g)) \<Longrightarrow>
    \<exists>g'. ids = map fq_id (fst (weightedRandomQueueOrder d (filter (\<lambda>q. fq_env q = e) qs) g')) \<and> ids \<noteq> []"
proof (induction envs arbitrary: g)
  case (Cons e1 envs)
  show ?case
  proof (cases "map_of (group_by_env qs) e1")
    case None
    then have "orderQueuesByEnvs d (e1 # envs) qs g = orderQueuesByEnvs d envs qs g" by simp
    then show ?thesis using Cons by metis
  next
    case (Some l)
    then have l: "l = filter (\<lambda>q. fq_env q = e1) qs" by (simp add: group_by_env_lookup split: if_splits)
    obtain ordered g1 where ordered: "weightedRandomQueueOrder d l g = (ordered, g1)" by fastforce
    obtain rest g2 where rest: "orderQueuesByEnvs d envs qs g1 = (rest, g2)" by fastforce
    show ?thesis
    proof (cases "(e, ids) \<in> set rest")
      case True
      then show ?thesis using Cons.IH [of g1] rest by (metis fst_conv)
    next
      case False
      then have "e = e1" "ids = map fq_id ordered" "ordered \<noteq> []"
        using Cons.prems Some ordered rest by (auto simp: Let_def split: if_splits)
      then show ?thesis using ordered l by (intro exI [of _ g]) simp
    qed
  qed
qed simp

lemma distribution_shuffles:
  obtains "fst (distributeFairQueuesFromParentQueue d pq cid now s st) = []"
  | qs envs g where "fst (distributeFairQueuesFromParentQueue d pq cid now s st) = fst (orderQueuesByEnvs d envs qs g)"
proof -
  obtain snap st1 where c: "createQueueSnapshot d pq cid now s st = (snap, st1)" by fastforce
  have "\<exists>envs g. shuffleQueuesByEnv d snap (fst_rng st1) = orderQueuesByEnvs d envs (fs_queues snap) g"
    unfolding shuffleQueuesByEnv_def Let_def case_prod_beta by (simp, blast)
  then obtain envs g where eq: "shuffleQueuesByEnv d snap (fst_rng st1) = orderQueuesByEnvs d envs (fs_queues snap) g" by blast
  have "fst (distributeFairQueuesFromParentQueue d pq cid now s st) =
      (if fs_queues snap = [] then [] else fst (orderQueuesByEnvs d envs (fs_queues snap) g))"
    by (simp add: distributeFairQueuesFromParentQueue_def c eq case_prod_beta)
  then consider "fst (distributeFairQueuesFromParentQueue d pq cid now s st) = []"
    | "fst (distributeFairQueuesFromParentQueue d pq cid now s st) = fst (orderQueuesByEnvs d envs (fs_queues snap) g)"
    by (cases "fs_queues snap = []") simp_all
  then show thesis by cases (erule that)+
qed

text \<open>Snapshots taken one after the other, each at its time and keyspace.\<close>

fun snapshot_calls ::
    "('s, 'g) fair_deps \<Rightarrow> key \<Rightarrow> string \<Rightarrow> (time \<times> 's) list \<Rightarrow> 'g fair_state \<Rightarrow> fair_snapshot list \<times> 'g fair_state" where
  "snapshot_calls d pq cid [] st = ([], st)"
| "snapshot_calls d pq cid ((now, s) # calls) st =
     (let (snap, st) = createQueueSnapshot d pq cid now s st;
          (snaps, st) = snapshot_calls d pq cid calls st
      in (snap # snaps, st))"

subsection \<open>An instance\<close>

definition demo_fair :: "nat option \<Rightarrow> nat option \<Rightarrow> (store, nat) fair_deps" where
  "demo_fair reuse maxEnvs = \<lparr>f_srv = mem_redis, f_prefix = ''rq:'', f_fl = (\<lambda>x. x), f_pow2 = (\<lambda>x. x * x),
     f_rng = (\<lambda>n. (1 / 2, Suc n)), f_cached_limit = (\<lambda>k s. None), f_defaultEnvConcurrencyLimit = 10,
     f_parentQueueLimit = 100, f_biases = None, f_reuseSnapshotCount = reuse, f_maximumEnvCount = maxEnvs\<rparr>"

definition demo_fair_state :: "nat fair_state" where
  "demo_fair_state = \<lparr>fst_rng = 0, fst_reused = Map.empty\<rparr>"

text \<open>Two queues of one environment and a queue of another that is due later.\<close>

definition demo_master :: store where
  "demo_master = m_zadd ''rq:master'' 5 ''{org:o1}:proj:p1:env:e1:queue:a''
     (m_zadd ''rq:master'' 3 ''{org:o1}:proj:p1:env:e1:queue:b''
     (m_zadd ''rq:master'' 50 ''{org:o1}:proj:p1:env:e2:queue:c'' empty_store))"

lemma demo_fair_rng: "rng_in_range (f_fl (demo_fair r m)) (f_rng (demo_fair r m))"
  by (simp add: demo_fair_def rng_in_range_def)

lemma demo_fair_redis: "redis_server (f_srv (demo_fair r m))"
  using mem.redis_server_axioms by (simp add: demo_fair_def)

lemma demo_due: "map fq_id (allChildQueuesByScore (demo_fair r m) ''master'' 10 demo_master) =
    [''{org:o1}:proj:p1:env:e1:queue:b'', ''{org:o1}:proj:p1:env:e1:queue:a'']"
  by (simp add: allChildQueuesByScore_def demo_fair_def mem_redis_defs fpk_def demo_master_def m_zadd_def empty_store_def
      entries_sorted_def insort_key_def)

subsection \<open>Properties\<close>

text \<open>C40. A distribution without reuse of snapshots and without a cap on environments lists exactly the
  queues of the master queue that are due (up to the read limit) and whose environment has free
  concurrency, each once, grouped under different environments; nothing is lost to the random choices.\<close>

theorem distribution_lists_due_queues:
  assumes "redis_server (f_srv d)" and "rng_in_range (f_fl d) (f_rng d)" and "no_reuse d"
    and "f_maximumEnvCount d \<in> {None, Some 0}"
  shows "let due = allChildQueuesByScore d pq now s;
      out = fst (distributeFairQueuesFromParentQueue d pq cid now s st)
    in distinct (concat (map snd out)) \<and> distinct (map fst out)
      \<and> set (concat (map snd out)) = fq_id ` {q \<in> set due. env_has_room d due s (fq_env q)}"
proof -
  let ?due = "allChildQueuesByScore d pq now s"
  let ?out = "fst (distributeFairQueuesFromParentQueue d pq cid now s st)"
  have "fst (limit_envs d ?due (fst_rng st)) = ?due" using assms(4) by (auto simp: limit_envs_def)
  then obtain g where "?out = fst (shuffleQueuesByEnv d (build_snapshot d ?due s) g)"
    using due_distribution [OF assms(2,3), of pq cid now s st] by metis
  then have out: "mset (concat (map snd ?out)) = mset (map fq_id (filter (\<lambda>q. env_has_room d ?due s (fq_env q)) ?due))"
    "distinct (map fst ?out)"
    using snapshot_distribution [OF assms(2) refl, of ?due s g] by simp_all
  have "distinct (map fq_id (filter (\<lambda>q. env_has_room d ?due s (fq_env q)) ?due))"
    using due_queues [OF assms(1), of pq now s] by (simp add: distinct_map_filter)
  then show ?thesis
    using out mset_eq_imp_distinct_iff [OF out(1)] mset_eq_setD [OF out(1)] by (simp add: Let_def)
qed

theorem distribution_lists_due_queues_witness:
  "distinct (concat (map snd (fst (distributeFairQueuesFromParentQueue (demo_fair None None) ''master'' ''c'' 10 demo_master demo_fair_state))))
   \<and> map fq_id (allChildQueuesByScore (demo_fair None None) ''master'' 10 demo_master) \<noteq> []"
  using distribution_lists_due_queues [OF demo_fair_redis [of None None] demo_fair_rng, of "''master''" 10 demo_master "''c''" demo_fair_state]
  unfolding demo_due by (simp add: no_reuse_def demo_fair_def Let_def)

text \<open>With a cap on environments a distribution names at most that many different environments, all of
  them environments of due queues, and lists every due queue of a chosen environment that has free
  concurrency.\<close>

theorem distribution_respects_env_cap:
  assumes "redis_server (f_srv d)" and "rng_in_range (f_fl d) (f_rng d)" and "no_reuse d"
    and "f_maximumEnvCount d = Some n" and "0 < n"
  shows "let due = allChildQueuesByScore d pq now s;
      out = fst (distributeFairQueuesFromParentQueue d pq cid now s st)
    in length out \<le> n \<and> distinct (map fst out) \<and> set (map fst out) \<subseteq> fq_env ` set due
      \<and> set (concat (map snd out)) \<subseteq> fq_id ` set due
      \<and> length (fst (selectTopEnvs d due n (fst_rng st))) = min n (length (group_by_env due))"
proof -
  let ?due = "allChildQueuesByScore d pq now s"
  let ?out = "fst (distributeFairQueuesFromParentQueue d pq cid now s st)"
  let ?sel = "fst (selectTopEnvs d ?due n (fst_rng st))"
  let ?qs = "filter (\<lambda>q. fq_env q \<in> set ?sel) ?due"
  have sel: "length ?sel = min n (length (group_by_env ?due))"
    by (simp add: selectTopEnvs_def Let_def weighted_take_part)
  have "fst (limit_envs d ?due (fst_rng st)) = ?qs"
    using assms(4,5) by (cases n) (auto simp: limit_envs_def split: prod.split)
  then obtain g where "?out = fst (shuffleQueuesByEnv d (build_snapshot d ?qs s) g)"
    using due_distribution [OF assms(2,3), of pq cid now s st] by metis
  then have out: "mset (concat (map snd ?out)) = mset (map fq_id (filter (\<lambda>q. env_has_room d ?qs s (fq_env q)) ?qs))"
    "distinct (map fst ?out)" "set (map fst ?out) \<subseteq> fq_env ` set ?qs"
    using snapshot_distribution [OF assms(2) refl, of ?qs s g] by simp_all
  have "length ?out = card (set (map fst ?out))" using distinct_card [OF out(2)] by simp
  also have "\<dots> \<le> card (set ?sel)" using out(3) by (intro card_mono) auto
  also have "\<dots> \<le> n" using card_length [of ?sel] sel by simp
  finally show ?thesis using out sel mset_eq_setD [OF out(1)] by (auto simp: Let_def)
qed

theorem distribution_respects_env_cap_witness:
  "length (fst (distributeFairQueuesFromParentQueue (demo_fair None (Some 1)) ''master'' ''c'' 100 demo_master demo_fair_state)) \<le> 1"
  using distribution_respects_env_cap [OF demo_fair_redis [of None "Some 1"] demo_fair_rng, of 1 "''master''" 100 demo_master "''c''" demo_fair_state]
  by (simp add: no_reuse_def demo_fair_def Let_def)

text \<open>Without age randomisation the queues of an environment are offered strictly by age, the queue
  whose earliest message is oldest first; and no environment is offered without queues.\<close>

theorem distribution_oldest_first:
  assumes "queueAgeRandomization (with_default (f_biases d) defaultBiases) = 0"
  shows "\<forall>(e, ids) \<in> set (fst (distributeFairQueuesFromParentQueue d pq cid now s st)).
    ids \<noteq> [] \<and> (\<exists>qs. ids = map fq_id qs \<and> oldest_first qs \<and> (\<forall>q \<in> set qs. fq_env q = e))"
proof (rule distribution_shuffles [of d pq cid now s st], simp, clarify)
  fix qs0 envs g e ids
  assume eq: "fst (distributeFairQueuesFromParentQueue d pq cid now s st) = fst (orderQueuesByEnvs d envs qs0 g)"
    and "(e, ids) \<in> set (fst (distributeFairQueuesFromParentQueue d pq cid now s st))"
  then obtain g' where ids: "ids = map fq_id (fst (weightedRandomQueueOrder d (filter (\<lambda>q. fq_env q = e) qs0) g'))"
    "ids \<noteq> []" using orderQueuesByEnvs_entry by metis
  let ?qs = "fst (weightedRandomQueueOrder d (filter (\<lambda>q. fq_env q = e) qs0) g')"
  have "\<forall>q \<in> set ?qs. fq_env q = e"
    using mset_eq_setD [OF weightedRandomQueueOrder_permutes [of d "filter (\<lambda>q. fq_env q = e) qs0" g']] by auto
  then show "ids \<noteq> [] \<and> (\<exists>qs. ids = map fq_id qs \<and> oldest_first qs \<and> (\<forall>q \<in> set qs. fq_env q = e))"
    using ids weightedRandomQueueOrder_oldest_first [OF assms] by blast
qed

theorem distribution_oldest_first_witness:
  "list_all (\<lambda>(e, ids). ids \<noteq> []) (fst (distributeFairQueuesFromParentQueue (demo_fair None None) ''master'' ''c'' 10 demo_master demo_fair_state))"
  using distribution_oldest_first [of "demo_fair None None" "''master''" "''c''" 10 demo_master demo_fair_state]
  by (auto simp: demo_fair_def defaultBiases_def list_all_iff)

text \<open>A snapshot is reused exactly as often as configured: after a fresh one is kept, the next
  \<open>reuseSnapshotCount\<close> distributions of the same consumer see it, whatever happens to the keyspace in
  between, and the one after that reads the master queue again.\<close>

theorem snapshot_reused_exactly:
  assumes "f_reuseSnapshotCount d = Some n" and "0 < n" and "length calls = n"
    and "fst_reused st (pq @ '':'' @ cid) = Some (snap, 0)"
  shows "fst (snapshot_calls d pq cid calls st) = replicate n snap
    \<and> fst (createQueueSnapshot d pq cid now s (snd (snapshot_calls d pq cid calls st))) =
        with_default (fst (fresh_snapshot d pq now s (fst_rng st))) emptyFairQueueSnapshot"
proof -
  have "fst (snapshot_calls d pq cid calls st) = replicate (length calls) snap
      \<and> fst_reused (snd (snapshot_calls d pq cid calls st)) (pq @ '':'' @ cid) = Some (snap, k + length calls)
      \<and> fst_rng (snd (snapshot_calls d pq cid calls st)) = fst_rng st"
    if "fst_reused st (pq @ '':'' @ cid) = Some (snap, k)" and "k + length calls \<le> n" for k st
    using that
  proof (induction calls arbitrary: st k)
    case (Cons c calls)
    obtain now' s' where c: "c = (now', s')" by fastforce
    let ?st = "st\<lparr>fst_reused := (fst_reused st)(pq @ '':'' @ cid \<mapsto> (snap, k + 1))\<rparr>"
    have "createQueueSnapshot d pq cid now' s' st = (snap, ?st)"
      using Cons.prems assms(1) by (simp add: createQueueSnapshot_def)
    then show ?case using Cons.IH [of ?st "k + 1"] Cons.prems by (simp add: c case_prod_beta)
  qed simp
  from this [OF assms(4)] show ?thesis
    using assms(1-3) by (auto simp: createQueueSnapshot_def Let_def split: option.split prod.split)
qed

theorem snapshot_reused_exactly_witness:
  "\<exists>(snap :: fair_snapshot) (st :: nat fair_state).
    fst (snapshot_calls (demo_fair (Some 2) None) ''master'' ''c'' [(10, empty_store), (11, empty_store)] st) = [snap, snap]"
proof -
  let ?st = "demo_fair_state\<lparr>fst_reused := [''master:c'' \<mapsto> (emptyFairQueueSnapshot, 0)]\<rparr>"
  show ?thesis
    using snapshot_reused_exactly [of "demo_fair (Some 2) None" 2 "[(10, empty_store), (11, empty_store)]" ?st
      "''master''" "''c''" emptyFairQueueSnapshot]
    by (intro exI [of _ emptyFairQueueSnapshot] exI [of _ ?st]) (simp add: demo_fair_def numeral_2_eq_2)
qed

text \<open>The weighted shuffle of environments does not follow the weights once an item is taken, since the
  total is not reduced: of three environments with the same weight, the last of the two that remain comes
  second for every random number above a third, not above a half.\<close>

theorem weightedShuffle_favours_last:
  assumes "f_fl d = (\<lambda>x. x)" and "f_rng d g = (0, g1)" and "f_rng d g1 = (r, g2)" and "1 / 3 < r" and "r \<le> 1"
  shows "fst (weightedShuffle d [(a, Some 1), (b, Some 1), (c, Some 1)] g) = [a, c, b]"
  using assms
  by (simp add: weightedShuffle_def weightedShuffle_loop.simps total_weight_def random_below_def pick_index_def
      remove_at_def numeral_2_eq_2 case_prod_beta)

theorem weightedShuffle_favours_last_witness:
  "fst (weightedShuffle ((demo_fair None None)\<lparr>f_rng := (\<lambda>n. (if n = 0 then 0 else 2 / 5, Suc n))\<rparr>)
    [(''x'', Some 1), (''y'', Some 1), (''z'', Some 1)] 0) = [''x'', ''z'', ''y'']"
  by (rule weightedShuffle_favours_last [of _ 0 1 "2 / 5" 2]) (simp_all add: demo_fair_def)

end
