(* ===== verification/Fair_Queue_Keys.thy ===== *)
theory Fair_Queue_Keys
  imports Prelude
begin

text \<open>
  The keys of the fair queue package (\<open>packages/redis-worker/src/fair-queue/keyProducer.ts\<close>): the default
  producer and the one with callbacks, which overrides the two extraction methods. The separator is one
  character, as in the default.
\<close>

record fair_keys =
  k_prefix :: string
  k_separator :: char
  tenantExtractor :: "(string \<Rightarrow> string) option"
  groupExtractor :: "(string \<Rightarrow> string \<Rightarrow> string) option"

definition defaultFairKeys :: fair_keys where
  "defaultFairKeys = \<lparr>k_prefix = ''fq'', k_separator = colon, tenantExtractor = None, groupExtractor = None\<rparr>"

definition buildKey :: "fair_keys \<Rightarrow> string list \<Rightarrow> key" where
  "buildKey ks parts = join_with [k_separator ks] (k_prefix ks # parts)"

definition fk_masterQueueKey :: "fair_keys \<Rightarrow> int \<Rightarrow> key" where
  "fk_masterQueueKey ks shardId = buildKey ks [''master'', int_to_string shardId]"

definition fk_queueKey :: "fair_keys \<Rightarrow> string \<Rightarrow> key" where
  "fk_queueKey ks queueId = buildKey ks [''queue'', queueId]"

definition fk_queueItemsKey :: "fair_keys \<Rightarrow> string \<Rightarrow> key" where
  "fk_queueItemsKey ks queueId = buildKey ks [''queue'', queueId, ''items'']"

definition fk_concurrencyKey :: "fair_keys \<Rightarrow> string \<Rightarrow> string \<Rightarrow> key" where
  "fk_concurrencyKey ks groupName groupId = buildKey ks [''concurrency'', groupName, groupId]"

definition fk_inflightKey :: "fair_keys \<Rightarrow> int \<Rightarrow> key" where
  "fk_inflightKey ks shardId = buildKey ks [''inflight'', int_to_string shardId]"

definition fk_inflightDataKey :: "fair_keys \<Rightarrow> int \<Rightarrow> key" where
  "fk_inflightDataKey ks shardId = buildKey ks [''inflight'', int_to_string shardId, ''data'']"

definition fk_workerQueueKey :: "fair_keys \<Rightarrow> string \<Rightarrow> key" where
  "fk_workerQueueKey ks consumerId = buildKey ks [''worker'', consumerId]"

definition fk_deadLetterQueueKey :: "fair_keys \<Rightarrow> string \<Rightarrow> key" where
  "fk_deadLetterQueueKey ks tenantId = buildKey ks [''dlq'', tenantId]"

definition fk_deadLetterQueueDataKey :: "fair_keys \<Rightarrow> string \<Rightarrow> key" where
  "fk_deadLetterQueueDataKey ks tenantId = buildKey ks [''dlq'', tenantId, ''data'']"

lemmas fair_key_defs =
  buildKey_def fk_masterQueueKey_def fk_queueKey_def fk_queueItemsKey_def fk_concurrencyKey_def fk_inflightKey_def
  fk_inflightDataKey_def fk_workerQueueKey_def fk_deadLetterQueueKey_def fk_deadLetterQueueDataKey_def

text \<open>\<open>parts[1]\<close> must not be empty.\<close>

definition extractTenantId :: "fair_keys \<Rightarrow> string \<Rightarrow> string" where
  "extractTenantId ks queueId =
     (case tenantExtractor ks of
        Some f \<Rightarrow> f queueId
      | None \<Rightarrow>
          (case split_on (k_separator ks) queueId of
             p0 # p1 # rest \<Rightarrow> if p0 = ''tenant'' \<and> p1 \<noteq> [] then p1 else p0
           | p0 # rest \<Rightarrow> p0
           | [] \<Rightarrow> []))"

text \<open>The loop over adjacent parts.\<close>

fun group_after :: "string \<Rightarrow> string list \<Rightarrow> string" where
  "group_after groupName (p # p' # ps) =
     (if p = groupName \<and> p' \<noteq> [] then p' else group_after groupName (p' # ps))"
| "group_after groupName _ = []"

definition extractGroupId :: "fair_keys \<Rightarrow> string \<Rightarrow> string \<Rightarrow> string" where
  "extractGroupId ks groupName queueId =
     (case groupExtractor ks of
        Some f \<Rightarrow> f groupName queueId
      | None \<Rightarrow> group_after groupName (split_on (k_separator ks) queueId))"

subsection \<open>Separation\<close>

text \<open>Keys of one kind are different for different arguments, and keys of the kinds that are used for the
  same kind of value never meet.\<close>

lemma fair_zset_keys_inject [simp]:
  "fk_queueKey ks q = fk_queueKey ks q' \<longleftrightarrow> q = q'"
  "fk_masterQueueKey ks i = fk_masterQueueKey ks j \<longleftrightarrow> i = j"
  "fk_inflightKey ks i = fk_inflightKey ks j \<longleftrightarrow> i = j"
  "fk_deadLetterQueueKey ks t = fk_deadLetterQueueKey ks t' \<longleftrightarrow> t = t'"
  by (simp_all add: fair_key_defs)

lemma fair_hash_keys_inject [simp]:
  "fk_queueItemsKey ks q = fk_queueItemsKey ks q' \<longleftrightarrow> q = q'"
  "fk_inflightDataKey ks i = fk_inflightDataKey ks j \<longleftrightarrow> i = j"
  "fk_deadLetterQueueDataKey ks t = fk_deadLetterQueueDataKey ks t' \<longleftrightarrow> t = t'"
  by (simp_all add: fair_key_defs)

lemma fair_zset_keys_apart [simp]:
  "fk_queueKey ks q \<noteq> fk_masterQueueKey ks i" "fk_queueKey ks q \<noteq> fk_inflightKey ks i"
  "fk_queueKey ks q \<noteq> fk_deadLetterQueueKey ks t" "fk_masterQueueKey ks i \<noteq> fk_inflightKey ks j"
  "fk_masterQueueKey ks i \<noteq> fk_deadLetterQueueKey ks t" "fk_inflightKey ks i \<noteq> fk_deadLetterQueueKey ks t"
  by (simp_all add: fair_key_defs)

lemma fair_hash_keys_apart [simp]:
  "fk_queueItemsKey ks q \<noteq> fk_inflightDataKey ks i" "fk_queueItemsKey ks q \<noteq> fk_deadLetterQueueDataKey ks t"
  "fk_inflightDataKey ks i \<noteq> fk_deadLetterQueueDataKey ks t"
  by (simp_all add: fair_key_defs)

lemmas fair_keys_apart [simp] =
  fair_zset_keys_apart [symmetric] fair_hash_keys_apart [symmetric]

lemma join_cons: "ps \<noteq> [] \<Longrightarrow> join_with sep (p # ps) = p @ sep @ join_with sep ps"
  by (cases ps) auto

lemma append_sep_eq:
  assumes "c \<notin> set a" and "c \<notin> set b" and "a @ c # x = b @ c # y"
  shows "a = b \<and> x = y"
  using assms
proof (induction a arbitrary: b)
  case Nil
  then show ?case by (cases b) auto
next
  case (Cons h a)
  then show ?case by (cases b) auto
qed

text \<open>Concurrency keys are different for group names without the separator.\<close>

lemma concurrencyKey_inject:
  assumes "k_separator ks \<notin> set g" and "k_separator ks \<notin> set g'"
  shows "fk_concurrencyKey ks g i = fk_concurrencyKey ks g' i' \<longleftrightarrow> g = g' \<and> i = i'"
  using append_sep_eq [OF assms] by (auto simp: fair_key_defs)

text \<open>A queue id of the documented form gives back its tenant.\<close>

lemma extractTenantId_tenant:
  assumes "tenantExtractor ks = None" and "k_separator ks \<notin> set ''tenant''" and "k_separator ks \<notin> set t" and "t \<noteq> []"
  shows "extractTenantId ks (''tenant'' @ k_separator ks # t @ k_separator ks # rest) = t"
proof -
  have "split_on (k_separator ks) (''tenant'' @ k_separator ks # (t @ k_separator ks # rest)) =
      ''tenant'' # t # split_on (k_separator ks) rest"
    using split_on_prefix [OF assms(2), of "t @ k_separator ks # rest"] split_on_prefix [OF assms(3), of rest] by (simp only:)
  then show ?thesis using assms(1,4) by (simp only: extractTenantId_def option.case list.case) simp
qed

end
