(* ===== verification/Fair_Queue_Retry.thy ===== *)
theory Fair_Queue_Retry
  imports Retries
begin

text \<open>
  The retry strategies of the fair queue (\<open>packages/redis-worker/src/fair-queue/retry.ts\<close>). \<open>None\<close> sends a
  message to the dead letter queue. The rounding of doubles, \<open>Math.pow\<close> and the random number that the
  exponential strategy draws are arguments.
\<close>

datatype retry_strategy =
  ExponentialBackoffRetry retry_options
| FixedDelayRetry int int
| LinearBackoffRetry int int "int option"
| NoRetry
| ImmediateRetry int
| CustomRetry int "int \<Rightarrow> int option"

text \<open>The options that the exponential strategy keeps.\<close>

definition exponential_options :: "retry_options \<Rightarrow> retry_options" where
  "exponential_options options =
     \<lparr>maxAttempts = Some (with_default (maxAttempts options) 12), factor = Some (with_default (factor options) 2),
      minTimeoutInMs = Some (with_default (minTimeoutInMs options) 1000),
      maxTimeoutInMs = Some (with_default (maxTimeoutInMs options) 3600000),
      randomize = Some (with_default (randomize options) True)\<rparr>"

fun strategy_maxAttempts :: "retry_strategy \<Rightarrow> int" where
  "strategy_maxAttempts (ExponentialBackoffRetry options) = with_default (maxAttempts options) 12"
| "strategy_maxAttempts (FixedDelayRetry m delayMs) = m"
| "strategy_maxAttempts (LinearBackoffRetry m baseDelayMs maxDelayMs) = m"
| "strategy_maxAttempts NoRetry = 1"
| "strategy_maxAttempts (ImmediateRetry m) = m"
| "strategy_maxAttempts (CustomRetry m calculateDelay) = m"

fun getNextDelay :: "(rat \<Rightarrow> rat) \<Rightarrow> (rat \<Rightarrow> int \<Rightarrow> rat) \<Rightarrow> rat \<Rightarrow> retry_strategy \<Rightarrow> int \<Rightarrow> int option" where
  "getNextDelay fl pow rnd (ExponentialBackoffRetry options) attempt =
     (if attempt \<ge> with_default (maxAttempts options) 12 then None
      else calculateNextRetryDelay fl pow (exponential_options options) attempt rnd)"
| "getNextDelay fl pow rnd (FixedDelayRetry m delayMs) attempt = (if attempt \<ge> m then None else Some delayMs)"
| "getNextDelay fl pow rnd (LinearBackoffRetry m baseDelayMs maxDelayMs) attempt =
     (if attempt \<ge> m then None
      else Some (min (baseDelayMs * attempt) (with_default maxDelayMs (baseDelayMs * m))))"
| "getNextDelay fl pow rnd NoRetry attempt = None"
| "getNextDelay fl pow rnd (ImmediateRetry m) attempt = (if attempt \<ge> m then None else Some 0)"
| "getNextDelay fl pow rnd (CustomRetry m calculateDelay) attempt = (if attempt \<ge> m then None else calculateDelay attempt)"

lemma exponential_retries:
  "attempt < with_default (maxAttempts options) 12 \<Longrightarrow>
    \<exists>delay. getNextDelay fl pow rnd (ExponentialBackoffRetry options) attempt = Some delay"
  by (simp add: calculateNextRetryDelay_def exponential_options_def merge_options_def Let_def)

text \<open>No strategy retries from its last attempt on.\<close>

lemma getNextDelay_stops: "strategy_maxAttempts strategy \<le> attempt \<Longrightarrow> getNextDelay fl pow rnd strategy attempt = None"
  by (cases strategy) auto

end
