(* ===== verification/Fair_Queue_Managers.thy ===== *)
theory Fair_Queue_Managers
  imports Redis_Interface Fair_Queue_Keys Fair_Queue_Retry Jump_Hash
begin

text \<open>
  The managers of the fair queue package (\<open>packages/redis-worker/src/fair-queue\<close>): the sharded master
  queue (\<open>masterQueue.ts\<close>), the concurrency groups (\<open>concurrency.ts\<close>), the visibility of messages in
  flight (\<open>visibility.ts\<close>) and the worker queues (\<open>workerQueue.ts\<close>). Scripts are functions on the keyspace,
  methods that read the clock take the reading as an argument, and the prefix that the client adds to
  every key is explicit.

  Timestamps, deadlines and limits are integers. The concurrency groups' callbacks are functions of the
  configuration; a rejected callback is not modelled. The \<open>sha256\<close> digest is a parameter; it has 32
  bytes, so that the shard hash always answers and the default in \<open>shard_for\<close> is not used.
\<close>

record queue_ref =
  qd_id :: string
  qd_tenantId :: string
  qd_metadata :: "(string \<times> string) list"

record stored_message =
  sm_id :: string
  sm_queueId :: string
  sm_tenantId :: string
  sm_payload :: string
  sm_timestamp :: time
  sm_attempt :: int
  sm_workerQueue :: "string option"
  sm_metadata :: "(string \<times> string) list option"

record dead_letter_message =
  dl_id :: string
  dl_queueId :: string
  dl_tenantId :: string
  dl_payload :: string
  dl_deadLetteredAt :: time
  dl_attempts :: int
  dl_lastError :: "string option"
  dl_originalTimestamp :: time

record inflight_message =
  im_messageId :: string
  im_queueId :: string
  im_payload :: stored_message
  im_deadline :: time
  im_consumerId :: string

record reclaimed_message =
  rm_messageId :: string
  rm_queueId :: string
  rm_tenantId :: string
  rm_metadata :: "(string \<times> string) list option"

record concurrency_group =
  g_name :: string
  g_extractGroupId :: "queue_ref \<Rightarrow> string"
  g_getLimit :: "string \<Rightarrow> int"
  g_defaultLimit :: int

record concurrency_state =
  cs_groupName :: string
  cs_groupId :: string
  cs_current :: int
  cs_limit :: int

datatype fair_error = ValidationFailed | InvalidJSON | ScriptFailed | UnknownGroup string

text \<open>The configuration and the parameters: the server, the client's prefix, the key producer, rounding,
  \<open>Math.pow\<close>, the digest, the two JSON codecs, and whether a payload passes validation.\<close>

record 's fq_deps =
  d_srv :: "'s redis"
  d_prefix :: key
  d_keys :: fair_keys
  d_fl :: "rat \<Rightarrow> rat"
  d_pow :: "rat \<Rightarrow> int \<Rightarrow> rat"
  d_sha :: "string \<Rightarrow> 8 word list"
  d_stringify :: "stored_message \<Rightarrow> string"
  d_parse :: "string \<Rightarrow> stored_message option"
  d_dlqStringify :: "dead_letter_message \<Rightarrow> string"
  d_dlqParse :: "string \<Rightarrow> dead_letter_message option"
  d_accepts :: "string \<Rightarrow> bool"
  d_groups :: "concurrency_group list"
  d_retryStrategy :: "retry_strategy option"
  d_deadLetterQueueEnabled :: bool
  d_shardCount :: int
  d_visibilityTimeoutMs :: int
  d_heartbeatIntervalMs :: int
  d_batchClaimSize :: int
  d_cooloffEnabled :: bool
  d_cooloffThreshold :: int
  d_cooloffPeriodMs :: int
  d_maxCooloffStatesSize :: int
  d_workerQueueResolver :: "stored_message \<Rightarrow> string"

definition rk :: "'s fq_deps \<Rightarrow> key \<Rightarrow> key" where
  "rk d k = d_prefix d @ k"

abbreviation kMaster :: "'s fq_deps \<Rightarrow> int \<Rightarrow> key" where "kMaster d i \<equiv> rk d (fk_masterQueueKey (d_keys d) i)"
abbreviation kQ :: "'s fq_deps \<Rightarrow> string \<Rightarrow> key" where "kQ d q \<equiv> rk d (fk_queueKey (d_keys d) q)"
abbreviation kQItems :: "'s fq_deps \<Rightarrow> string \<Rightarrow> key" where "kQItems d q \<equiv> rk d (fk_queueItemsKey (d_keys d) q)"
abbreviation kInflight :: "'s fq_deps \<Rightarrow> int \<Rightarrow> key" where "kInflight d i \<equiv> rk d (fk_inflightKey (d_keys d) i)"
abbreviation kInflightData :: "'s fq_deps \<Rightarrow> int \<Rightarrow> key" where "kInflightData d i \<equiv> rk d (fk_inflightDataKey (d_keys d) i)"
abbreviation kDead :: "'s fq_deps \<Rightarrow> string \<Rightarrow> key" where "kDead d t \<equiv> rk d (fk_deadLetterQueueKey (d_keys d) t)"
abbreviation kDeadData :: "'s fq_deps \<Rightarrow> string \<Rightarrow> key" where "kDeadData d t \<equiv> rk d (fk_deadLetterQueueDataKey (d_keys d) t)"
abbreviation kGroup :: "'s fq_deps \<Rightarrow> string \<Rightarrow> string \<Rightarrow> key" where "kGroup d g i \<equiv> rk d (fk_concurrencyKey (d_keys d) g i)"
abbreviation kWorker :: "'s fq_deps \<Rightarrow> string \<Rightarrow> key" where "kWorker d w \<equiv> rk d (fk_workerQueueKey (d_keys d) w)"

lemma rk_inject [simp]: "rk d k = rk d k' \<longleftrightarrow> k = k'"
  by (simp add: rk_def)

definition shard_for :: "'s fq_deps \<Rightarrow> string \<Rightarrow> int \<Rightarrow> int" where
  "shard_for d queueId shardCount = with_default (jumpHash (d_fl d) (d_sha d) queueId shardCount) 0"

subsection \<open>The master queue\<close>

definition getShardForQueue :: "'s fq_deps \<Rightarrow> string \<Rightarrow> int" where
  "getShardForQueue d queueId = shard_for d queueId (max 1 (d_shardCount d))"

definition addQueue :: "'s fq_deps \<Rightarrow> string \<Rightarrow> time \<Rightarrow> 's \<Rightarrow> 's" where
  "addQueue d queueId oldestMessageTimestamp s =
     zADD (d_srv d) (kMaster d (getShardForQueue d queueId)) oldestMessageTimestamp queueId s"

definition updateQueueScore :: "'s fq_deps \<Rightarrow> string \<Rightarrow> time \<Rightarrow> 's \<Rightarrow> 's" where
  "updateQueueScore d queueId newOldestTimestamp s =
     zADD (d_srv d) (kMaster d (getShardForQueue d queueId)) newOldestTimestamp queueId s"

definition removeQueue :: "'s fq_deps \<Rightarrow> string \<Rightarrow> 's \<Rightarrow> 's" where
  "removeQueue d queueId s = zREM (d_srv d) (kMaster d (getShardForQueue d queueId)) queueId s"

text \<open>Queue, score and tenant; an empty queue id is skipped.\<close>

definition getQueuesFromShard :: "'s fq_deps \<Rightarrow> int \<Rightarrow> nat \<Rightarrow> time \<Rightarrow> 's \<Rightarrow> (string \<times> time \<times> string) list" where
  "getQueuesFromShard d shardId limit score s =
     map (\<lambda>(q, sc). (q, sc, extractTenantId (d_keys d) q))
       (filter (\<lambda>(q, sc). q \<noteq> []) (zRANGEBYSCORE (d_srv d) (kMaster d shardId) score limit s))"

definition getShardQueueCount :: "'s fq_deps \<Rightarrow> int \<Rightarrow> 's \<Rightarrow> nat" where
  "getShardQueueCount d shardId s = zCARD (d_srv d) (kMaster d shardId) s"

definition getTotalQueueCount :: "'s fq_deps \<Rightarrow> 's \<Rightarrow> nat" where
  "getTotalQueueCount d s =
     sum_list (map (\<lambda>i. getShardQueueCount d i s) (map int [0..<nat (max 1 (d_shardCount d))]))"

definition addQueueIfNotEmpty_script :: "'s redis \<Rightarrow> key \<Rightarrow> key \<Rightarrow> string \<Rightarrow> 's \<Rightarrow> int \<times> 's" where
  "addQueueIfNotEmpty_script R masterKey queueKey queueId s =
     (if zCARD R queueKey s = 0 then (0, s)
      else
        (case zRANGE R queueKey 0 0 s of
           [] \<Rightarrow> (0, s)
         | (_, score) # _ \<Rightarrow> (1, zADD R masterKey score queueId s)))"

definition removeQueueIfEmpty_script :: "'s redis \<Rightarrow> key \<Rightarrow> key \<Rightarrow> string \<Rightarrow> 's \<Rightarrow> int \<times> 's" where
  "removeQueueIfEmpty_script R masterKey queueKey queueId s =
     (if zCARD R queueKey s > 0 then (0, s) else (1, zREM R masterKey queueId s))"

definition addQueueIfNotEmpty :: "'s fq_deps \<Rightarrow> string \<Rightarrow> key \<Rightarrow> 's \<Rightarrow> bool \<times> 's" where
  "addQueueIfNotEmpty d queueId queueKey s =
     (let (result, s) = addQueueIfNotEmpty_script (d_srv d) (kMaster d (getShardForQueue d queueId)) (rk d queueKey) queueId s
      in (result = 1, s))"

definition removeQueueIfEmpty :: "'s fq_deps \<Rightarrow> string \<Rightarrow> key \<Rightarrow> 's \<Rightarrow> bool \<times> 's" where
  "removeQueueIfEmpty d queueId queueKey s =
     (let (result, s) = removeQueueIfEmpty_script (d_srv d) (kMaster d (getShardForQueue d queueId)) (rk d queueKey) queueId s
      in (result = 1, s))"

subsection \<open>Concurrency\<close>

text \<open>\<open>groupsByName\<close>: the last group of a name.\<close>

definition groupsByName :: "'s fq_deps \<Rightarrow> string \<Rightarrow> concurrency_group option" where
  "groupsByName d = map_of (rev (map (\<lambda>g. (g_name g, g)) (d_groups d)))"

text \<open>\<open>limit || group.defaultLimit\<close>\<close>

definition group_limit :: "concurrency_group \<Rightarrow> string \<Rightarrow> int" where
  "group_limit g groupId = (if g_getLimit g groupId = 0 then g_defaultLimit g else g_getLimit g groupId)"

definition getCurrentConcurrency :: "'s fq_deps \<Rightarrow> string \<Rightarrow> string \<Rightarrow> 's \<Rightarrow> int" where
  "getCurrentConcurrency d groupName groupId s = int (sCARD (d_srv d) (kGroup d groupName groupId) s)"

definition getConcurrencyLimit :: "'s fq_deps \<Rightarrow> string \<Rightarrow> string \<Rightarrow> fair_error + int" where
  "getConcurrencyLimit d groupName groupId =
     (case groupsByName d groupName of
        None \<Rightarrow> Inl (UnknownGroup groupName)
      | Some g \<Rightarrow> Inr (group_limit g groupId))"

definition isAtCapacity :: "'s fq_deps \<Rightarrow> string \<Rightarrow> string \<Rightarrow> 's \<Rightarrow> fair_error + bool" where
  "isAtCapacity d groupName groupId s =
     (case getConcurrencyLimit d groupName groupId of
        Inl e \<Rightarrow> Inl e
      | Inr limit \<Rightarrow> Inr (getCurrentConcurrency d groupName groupId s \<ge> limit))"

definition getState :: "'s fq_deps \<Rightarrow> string \<Rightarrow> string \<Rightarrow> 's \<Rightarrow> fair_error + concurrency_state" where
  "getState d groupName groupId s =
     (case getConcurrencyLimit d groupName groupId of
        Inl e \<Rightarrow> Inl e
      | Inr limit \<Rightarrow> Inr \<lparr>cs_groupName = groupName, cs_groupId = groupId,
          cs_current = getCurrentConcurrency d groupName groupId s, cs_limit = limit\<rparr>)"

text \<open>The first group at capacity, if any.\<close>

fun canProcess_loop :: "'s fq_deps \<Rightarrow> concurrency_group list \<Rightarrow> queue_ref \<Rightarrow> 's \<Rightarrow> fair_error + concurrency_state option" where
  "canProcess_loop d [] queue s = Inr None"
| "canProcess_loop d (g # gs) queue s =
     (let groupId = g_extractGroupId g queue
      in case isAtCapacity d (g_name g) groupId s of
           Inl e \<Rightarrow> Inl e
         | Inr True \<Rightarrow> (case getState d (g_name g) groupId s of Inl e \<Rightarrow> Inl e | Inr st \<Rightarrow> Inr (Some st))
         | Inr False \<Rightarrow> canProcess_loop d gs queue s)"

definition canProcess :: "'s fq_deps \<Rightarrow> queue_ref \<Rightarrow> 's \<Rightarrow> fair_error + concurrency_state option" where
  "canProcess d queue s = canProcess_loop d (d_groups d) queue s"

definition reserveConcurrency_script :: "'s redis \<Rightarrow> (key \<times> int) list \<Rightarrow> string \<Rightarrow> 's \<Rightarrow> int \<times> 's" where
  "reserveConcurrency_script R keysAndLimits messageId s =
     (if \<exists>(k, limit) \<in> set keysAndLimits. int (sCARD R k s) \<ge> limit then (0, s)
      else (1, fold (\<lambda>(k, limit) s. sADD R k messageId s) keysAndLimits s))"

definition reserve :: "'s fq_deps \<Rightarrow> queue_ref \<Rightarrow> string \<Rightarrow> 's \<Rightarrow> bool \<times> 's" where
  "reserve d queue messageId s =
     (let groupData = map (\<lambda>g. let groupId = g_extractGroupId g queue
            in (kGroup d (g_name g) groupId, group_limit g groupId)) (d_groups d);
          (result, s) = reserveConcurrency_script (d_srv d) groupData messageId s
      in (result = 1, s))"

definition release_concurrency :: "'s fq_deps \<Rightarrow> queue_ref \<Rightarrow> string \<Rightarrow> 's \<Rightarrow> 's" where
  "release_concurrency d queue messageId s =
     fold (\<lambda>g s. sREM (d_srv d) (kGroup d (g_name g) (g_extractGroupId g queue)) messageId s) (d_groups d) s"

definition releaseBatch_concurrency :: "'s fq_deps \<Rightarrow> (queue_ref \<times> string) list \<Rightarrow> 's \<Rightarrow> 's" where
  "releaseBatch_concurrency d messages s = fold (\<lambda>(queue, messageId) s. release_concurrency d queue messageId s) messages s"

definition getAvailableCapacity :: "'s fq_deps \<Rightarrow> queue_ref \<Rightarrow> 's \<Rightarrow> int" where
  "getAvailableCapacity d queue s =
     (case map (\<lambda>g. let groupId = g_extractGroupId g queue
              in max 0 (group_limit g groupId - int (sCARD (d_srv d) (kGroup d (g_name g) groupId) s))) (d_groups d) of
        [] \<Rightarrow> 0
      | c # cs \<Rightarrow> fold min cs c)"

definition getActiveMessages :: "'s fq_deps \<Rightarrow> string \<Rightarrow> string \<Rightarrow> 's \<Rightarrow> string list" where
  "getActiveMessages d groupName groupId s = sMEMBERS (d_srv d) (kGroup d groupName groupId) s"

definition clearGroup :: "'s fq_deps \<Rightarrow> string \<Rightarrow> string \<Rightarrow> 's \<Rightarrow> 's" where
  "clearGroup d groupName groupId s = rDEL (d_srv d) (kGroup d groupName groupId) s"

subsection \<open>Visibility\<close>

definition makeMember :: "string \<Rightarrow> string \<Rightarrow> string" where
  "makeMember messageId queueId = messageId @ colon # queueId"

text \<open>\<open>indexOf(":")\<close> and the two substrings.\<close>

definition parseMember :: "string \<Rightarrow> string \<times> string" where
  "parseMember member =
     (if colon_free member then (member, [])
      else (takeWhile (\<lambda>c. c \<noteq> colon) member, tl (dropWhile (\<lambda>c. c \<noteq> colon) member)))"

definition v_getShardForQueue :: "'s fq_deps \<Rightarrow> string \<Rightarrow> int" where
  "v_getShardForQueue d queueId = shard_for d queueId (d_shardCount d)"

text \<open>What the scripts share: the master queue gets the score of the queue's oldest message.\<close>

definition update_master :: "'s redis \<Rightarrow> key \<Rightarrow> key \<Rightarrow> string \<Rightarrow> 's \<Rightarrow> 's" where
  "update_master R queueKey masterQueueKey queueId s =
     (case zRANGE R queueKey 0 0 s of
        [] \<Rightarrow> s
      | (_, oldest) # _ \<Rightarrow> zADD R masterQueueKey oldest queueId s)"

definition claim_one :: "'s redis \<Rightarrow> key \<Rightarrow> key \<Rightarrow> key \<Rightarrow> key \<Rightarrow> string \<Rightarrow> time \<Rightarrow> string \<Rightarrow> string \<Rightarrow> 's \<Rightarrow> 's" where
  "claim_one R queueKey queueItemsKey inflightKey inflightDataKey queueId deadline messageId payload s =
     (let s = zREM R queueKey messageId s;
          s = hDEL R queueItemsKey messageId s;
          s = zADD R inflightKey deadline (makeMember messageId queueId) s
      in hSET R inflightDataKey messageId payload s)"

definition claimMessage_script ::
    "'s redis \<Rightarrow> key \<Rightarrow> key \<Rightarrow> key \<Rightarrow> key \<Rightarrow> string \<Rightarrow> time \<Rightarrow> 's \<Rightarrow> (string \<times> string) option \<times> 's" where
  "claimMessage_script R queueKey queueItemsKey inflightKey inflightDataKey queueId deadline s =
     (case zRANGE R queueKey 0 0 s of
        [] \<Rightarrow> (None, s)
      | (messageId, _) # _ \<Rightarrow>
          (case hGET R queueItemsKey messageId s of
             None \<Rightarrow> (None, zREM R queueKey messageId s)
           | Some payload \<Rightarrow>
               (Some (messageId, payload),
                claim_one R queueKey queueItemsKey inflightKey inflightDataKey queueId deadline messageId payload s)))"

fun claimBatch_loop ::
    "'s redis \<Rightarrow> key \<Rightarrow> key \<Rightarrow> key \<Rightarrow> key \<Rightarrow> string \<Rightarrow> time \<Rightarrow> string list \<Rightarrow> 's \<Rightarrow> (string \<times> string) list \<times> 's" where
  "claimBatch_loop R queueKey queueItemsKey inflightKey inflightDataKey queueId deadline [] s = ([], s)"
| "claimBatch_loop R queueKey queueItemsKey inflightKey inflightDataKey queueId deadline (messageId # items) s =
     (case hGET R queueItemsKey messageId s of
        Some payload \<Rightarrow>
          (let s = claim_one R queueKey queueItemsKey inflightKey inflightDataKey queueId deadline messageId payload s;
               (results, s) = claimBatch_loop R queueKey queueItemsKey inflightKey inflightDataKey queueId deadline items s
           in ((messageId, payload) # results, s))
      | None \<Rightarrow> claimBatch_loop R queueKey queueItemsKey inflightKey inflightDataKey queueId deadline items
          (zREM R queueKey messageId s))"

definition claimMessageBatch_script ::
    "'s redis \<Rightarrow> key \<Rightarrow> key \<Rightarrow> key \<Rightarrow> key \<Rightarrow> string \<Rightarrow> time \<Rightarrow> int \<Rightarrow> 's \<Rightarrow> (string \<times> string) list \<times> 's" where
  "claimMessageBatch_script R queueKey queueItemsKey inflightKey inflightDataKey queueId deadline maxCount s =
     claimBatch_loop R queueKey queueItemsKey inflightKey inflightDataKey queueId deadline
       (map fst (zRANGE R queueKey 0 (maxCount - 1) s)) s"

definition releaseMessage_script ::
    "'s redis \<Rightarrow> key \<Rightarrow> key \<Rightarrow> key \<Rightarrow> key \<Rightarrow> key \<Rightarrow> string \<Rightarrow> string \<Rightarrow> time \<Rightarrow> string \<Rightarrow> 's \<Rightarrow> int \<times> 's" where
  "releaseMessage_script R inflightKey inflightDataKey queueKey queueItemsKey masterQueueKey member messageId score queueId s =
     (case hGET R inflightDataKey messageId s of
        None \<Rightarrow> (0, s)
      | Some payload \<Rightarrow>
          (let s = zREM R inflightKey member s;
               s = hDEL R inflightDataKey messageId s;
               s = zADD R queueKey score messageId s;
               s = hSET R queueItemsKey messageId payload s
           in (1, update_master R queueKey masterQueueKey queueId s)))"

fun releaseBatch_loop ::
    "'s redis \<Rightarrow> key \<Rightarrow> key \<Rightarrow> key \<Rightarrow> key \<Rightarrow> time \<Rightarrow> (string \<times> string) list \<Rightarrow> 's \<Rightarrow> nat \<times> 's" where
  "releaseBatch_loop R inflightKey inflightDataKey queueKey queueItemsKey score [] s = (0, s)"
| "releaseBatch_loop R inflightKey inflightDataKey queueKey queueItemsKey score ((member, messageId) # rest) s =
     (case hGET R inflightDataKey messageId s of
        Some payload \<Rightarrow>
          (let s = zREM R inflightKey member s;
               s = hDEL R inflightDataKey messageId s;
               s = zADD R queueKey score messageId s;
               s = hSET R queueItemsKey messageId payload s;
               (releasedCount, s) = releaseBatch_loop R inflightKey inflightDataKey queueKey queueItemsKey score rest s
           in (Suc releasedCount, s))
      | None \<Rightarrow> releaseBatch_loop R inflightKey inflightDataKey queueKey queueItemsKey score rest s)"

definition releaseMessageBatch_script ::
    "'s redis \<Rightarrow> key \<Rightarrow> key \<Rightarrow> key \<Rightarrow> key \<Rightarrow> key \<Rightarrow> time \<Rightarrow> string \<Rightarrow> (string \<times> string) list \<Rightarrow> 's \<Rightarrow> nat \<times> 's" where
  "releaseMessageBatch_script R inflightKey inflightDataKey queueKey queueItemsKey masterQueueKey score queueId membersAndIds s =
     (let (releasedCount, s) = releaseBatch_loop R inflightKey inflightDataKey queueKey queueItemsKey score membersAndIds s
      in (releasedCount, if releasedCount > 0 then update_master R queueKey masterQueueKey queueId s else s))"

definition heartbeatMessage_script :: "'s redis \<Rightarrow> key \<Rightarrow> string \<Rightarrow> time \<Rightarrow> 's \<Rightarrow> int \<times> 's" where
  "heartbeatMessage_script R inflightKey member newDeadline s =
     (case zSCORE R inflightKey member s of
        None \<Rightarrow> (0, s)
      | Some _ \<Rightarrow> (1, zADDXX R inflightKey newDeadline member s))"

definition removeFromInflight :: "'s fq_deps \<Rightarrow> int \<Rightarrow> string \<Rightarrow> string \<Rightarrow> 's \<Rightarrow> 's" where
  "removeFromInflight d shardId messageId queueId s =
     (let s = zREM (d_srv d) (kInflight d shardId) (makeMember messageId queueId) s
      in hDEL (d_srv d) (kInflightData d shardId) messageId s)"

definition claim :: "'s fq_deps \<Rightarrow> time \<Rightarrow> string \<Rightarrow> string \<Rightarrow> int option \<Rightarrow> 's \<Rightarrow> inflight_message option \<times> 's" where
  "claim d now queueId consumerId timeoutMs s =
     (let deadline = now + with_default timeoutMs (d_visibilityTimeoutMs d);
          shardId = v_getShardForQueue d queueId
      in case claimMessage_script (d_srv d) (kQ d queueId) (kQItems d queueId) (kInflight d shardId)
             (kInflightData d shardId) queueId deadline s of
           (None, s) \<Rightarrow> (None, s)
         | (Some (messageId, payloadJson), s) \<Rightarrow>
             (case d_parse d payloadJson of
                Some payload \<Rightarrow> (Some \<lparr>im_messageId = messageId, im_queueId = queueId, im_payload = payload,
                  im_deadline = deadline, im_consumerId = consumerId\<rparr>, s)
              | None \<Rightarrow> (None, removeFromInflight d shardId messageId queueId s)))"

text \<open>The loop over the claimed messages: one that cannot be parsed is dropped.\<close>

fun parse_claimed ::
    "'s fq_deps \<Rightarrow> int \<Rightarrow> string \<Rightarrow> string \<Rightarrow> time \<Rightarrow> (string \<times> string) list \<Rightarrow> 's \<Rightarrow> inflight_message list \<times> 's" where
  "parse_claimed d shardId queueId consumerId deadline [] s = ([], s)"
| "parse_claimed d shardId queueId consumerId deadline ((messageId, payloadJson) # result) s =
     (if messageId = [] \<or> payloadJson = [] then parse_claimed d shardId queueId consumerId deadline result s
      else case d_parse d payloadJson of
             Some payload \<Rightarrow>
               (let (messages, s) = parse_claimed d shardId queueId consumerId deadline result s
                in (\<lparr>im_messageId = messageId, im_queueId = queueId, im_payload = payload,
                      im_deadline = deadline, im_consumerId = consumerId\<rparr> # messages, s))
           | None \<Rightarrow> parse_claimed d shardId queueId consumerId deadline result (removeFromInflight d shardId messageId queueId s))"

definition claimBatch ::
    "'s fq_deps \<Rightarrow> time \<Rightarrow> string \<Rightarrow> string \<Rightarrow> int \<Rightarrow> int option \<Rightarrow> 's \<Rightarrow> inflight_message list \<times> 's" where
  "claimBatch d now queueId consumerId maxCount timeoutMs s =
     (let deadline = now + with_default timeoutMs (d_visibilityTimeoutMs d);
          shardId = v_getShardForQueue d queueId;
          (result, s) = claimMessageBatch_script (d_srv d) (kQ d queueId) (kQItems d queueId) (kInflight d shardId)
            (kInflightData d shardId) queueId deadline maxCount s
      in parse_claimed d shardId queueId consumerId deadline result s)"

definition heartbeat :: "'s fq_deps \<Rightarrow> time \<Rightarrow> string \<Rightarrow> string \<Rightarrow> int \<Rightarrow> 's \<Rightarrow> bool \<times> 's" where
  "heartbeat d now messageId queueId extendMs s =
     (let (result, s) = heartbeatMessage_script (d_srv d) (kInflight d (v_getShardForQueue d queueId))
            (makeMember messageId queueId) (now + extendMs) s
      in (result = 1, s))"

definition complete :: "'s fq_deps \<Rightarrow> string \<Rightarrow> string \<Rightarrow> 's \<Rightarrow> 's" where
  "complete d messageId queueId s = removeFromInflight d (v_getShardForQueue d queueId) messageId queueId s"

text \<open>The master queue key is the caller's.\<close>

definition v_release :: "'s fq_deps \<Rightarrow> time \<Rightarrow> string \<Rightarrow> string \<Rightarrow> key \<Rightarrow> time option \<Rightarrow> 's \<Rightarrow> 's" where
  "v_release d now messageId queueId masterQueueKey score s =
     (let shardId = v_getShardForQueue d queueId
      in snd (releaseMessage_script (d_srv d) (kInflight d shardId) (kInflightData d shardId) (kQ d queueId)
           (kQItems d queueId) masterQueueKey (makeMember messageId queueId) messageId (with_default score now) queueId s))"

definition v_releaseBatch :: "'s fq_deps \<Rightarrow> time \<Rightarrow> string list \<Rightarrow> string \<Rightarrow> key \<Rightarrow> time option \<Rightarrow> 's \<Rightarrow> 's" where
  "v_releaseBatch d now messageIds queueId masterQueueKey score s =
     (if messageIds = [] then s
      else
        (let shardId = v_getShardForQueue d queueId
         in snd (releaseMessageBatch_script (d_srv d) (kInflight d shardId) (kInflightData d shardId) (kQ d queueId)
              (kQItems d queueId) masterQueueKey (with_default score now) queueId
              (map (\<lambda>m. (makeMember m queueId, m)) messageIds) s)))"

text \<open>The loop of \<open>reclaimTimedOut\<close>; the keys of a queue come from the caller.\<close>

fun reclaim_loop ::
    "'s fq_deps \<Rightarrow> int \<Rightarrow> time \<Rightarrow> (string \<Rightarrow> key) \<Rightarrow> string list \<Rightarrow> 's \<Rightarrow> reclaimed_message list \<times> 's" where
  "reclaim_loop d shardId now masterKeyOf [] s = ([], s)"
| "reclaim_loop d shardId now masterKeyOf (member # timedOut) s =
     (if member = [] then reclaim_loop d shardId now masterKeyOf timedOut s
      else
        (let (messageId, queueId) = parseMember member;
             dataJson = hGET (d_srv d) (kInflightData d shardId) messageId s;
             storedMessage = (case dataJson of None \<Rightarrow> None | Some j \<Rightarrow> if j = [] then None else d_parse d j);
             score = (case storedMessage of None \<Rightarrow> now | Some m \<Rightarrow> sm_timestamp m);
             s = snd (releaseMessage_script (d_srv d) (kInflight d shardId) (kInflightData d shardId) (kQ d queueId)
               (kQItems d queueId) (masterKeyOf queueId) member messageId score queueId s);
             (reclaimed, s) = reclaim_loop d shardId now masterKeyOf timedOut s
         in (\<lparr>rm_messageId = messageId, rm_queueId = queueId,
               rm_tenantId = (case storedMessage of Some m \<Rightarrow> sm_tenantId m | None \<Rightarrow> extractTenantId (d_keys d) queueId),
               rm_metadata = (case storedMessage of Some m \<Rightarrow> sm_metadata m | None \<Rightarrow> Some [])\<rparr> # reclaimed, s)))"

definition reclaimTimedOut :: "'s fq_deps \<Rightarrow> int \<Rightarrow> time \<Rightarrow> (string \<Rightarrow> key) \<Rightarrow> 's \<Rightarrow> reclaimed_message list \<times> 's" where
  "reclaimTimedOut d shardId now masterKeyOf s =
     reclaim_loop d shardId now masterKeyOf (map fst (zRANGEBYSCORE (d_srv d) (kInflight d shardId) now 100 s)) s"

definition getInflightMessages :: "'s fq_deps \<Rightarrow> int \<Rightarrow> 's \<Rightarrow> (string \<times> string \<times> time) list" where
  "getInflightMessages d shardId s =
     map (\<lambda>(member, deadline). let (messageId, queueId) = parseMember member in (messageId, queueId, deadline))
       (filter (\<lambda>(member, deadline). member \<noteq> []) (zRANGE (d_srv d) (kInflight d shardId) 0 (- 1) s))"

definition getInflightCount :: "'s fq_deps \<Rightarrow> int \<Rightarrow> 's \<Rightarrow> nat" where
  "getInflightCount d shardId s = zCARD (d_srv d) (kInflight d shardId) s"

definition getTotalInflightCount :: "'s fq_deps \<Rightarrow> 's \<Rightarrow> nat" where
  "getTotalInflightCount d s = sum_list (map (\<lambda>i. getInflightCount d i s) (map int [0..<nat (d_shardCount d)]))"

subsection \<open>Worker queues\<close>

definition worker_push :: "'s fq_deps \<Rightarrow> string \<Rightarrow> string \<Rightarrow> 's \<Rightarrow> 's" where
  "worker_push d workerQueueId messageKey s = lRPUSH (d_srv d) (kWorker d workerQueueId) messageKey s"

definition worker_pushBatch :: "'s fq_deps \<Rightarrow> string \<Rightarrow> string list \<Rightarrow> 's \<Rightarrow> 's" where
  "worker_pushBatch d workerQueueId messageKeys s =
     fold (\<lambda>k s. lRPUSH (d_srv d) (kWorker d workerQueueId) k s) messageKeys s"

definition popWithLength_script :: "'s redis \<Rightarrow> key \<Rightarrow> 's \<Rightarrow> (string \<times> nat) option \<times> 's" where
  "popWithLength_script R workerQueueKey s =
     (case lLPOP R workerQueueKey s of
        (None, s) \<Rightarrow> (None, s)
      | (Some messageKey, s) \<Rightarrow> (Some (messageKey, lLEN R workerQueueKey s), s))"

definition worker_pop :: "'s fq_deps \<Rightarrow> string \<Rightarrow> 's \<Rightarrow> (string \<times> nat) option \<times> 's" where
  "worker_pop d workerQueueId s = popWithLength_script (d_srv d) (kWorker d workerQueueId) s"

definition worker_getLength :: "'s fq_deps \<Rightarrow> string \<Rightarrow> 's \<Rightarrow> nat" where
  "worker_getLength d workerQueueId s = lLEN (d_srv d) (kWorker d workerQueueId) s"

definition worker_peek :: "'s fq_deps \<Rightarrow> string \<Rightarrow> 's \<Rightarrow> string list" where
  "worker_peek d workerQueueId s = lRANGE (d_srv d) (kWorker d workerQueueId) s"

definition worker_remove :: "'s fq_deps \<Rightarrow> string \<Rightarrow> string \<Rightarrow> 's \<Rightarrow> 's" where
  "worker_remove d workerQueueId messageKey s = lREM (d_srv d) (kWorker d workerQueueId) messageKey s"

definition worker_clear :: "'s fq_deps \<Rightarrow> string \<Rightarrow> 's \<Rightarrow> 's" where
  "worker_clear d workerQueueId s = rDEL (d_srv d) (kWorker d workerQueueId) s"

end
