(* ===== verification/Fair_Queue.thy ===== *)
theory Fair_Queue
  imports Fair_Queue_Managers
begin

text \<open>
  The orchestrator of the fair queue package (\<open>packages/redis-worker/src/fair-queue/index.ts\<close>): messages are
  enqueued into queues, the shard pass claims them into the in-flight set and pushes them to worker
  queues, and external consumers complete, release or fail them; messages whose visibility runs out are
  reclaimed.

  An operation takes one reading of the clock. Errors that the code throws are values; the state reached
  when an error is thrown is returned with it, since Redis and the in-memory caches keep what was
  written. The scheduler is a pluggable object: its two methods work on the keyspace and a state of
  their own. Waiting for the global rate limiter changes no state and is not modelled; the interval
  loops around the shard pass and the reclaim pass are not either.
\<close>

datatype cooloff_state = CooloffNormal int | CooloffUntil time

type_synonym tenant_queues = "string \<times> string list"

record ('s, 'c) fair_scheduler =
  selectQueues :: "time \<Rightarrow> key \<Rightarrow> string \<Rightarrow> 's \<times> 'c \<Rightarrow> (fair_error + tenant_queues list) \<times> 's \<times> 'c"
  recordProcessedBatch :: "string \<Rightarrow> string \<Rightarrow> nat \<Rightarrow> 's \<times> 'c \<Rightarrow> 's \<times> 'c"

record ('s, 'c) fq_state =
  fqs_redis :: 's
  fqs_sched :: 'c
  fqs_descriptors :: "string \<Rightarrow> queue_ref option"
  fqs_cooloff :: "(string \<times> cooloff_state) list"

record enqueue_options =
  eo_queueId :: string
  eo_tenantId :: string
  eo_payload :: string
  eo_messageId :: "string option"
  eo_timestamp :: "time option"
  eo_metadata :: "(string \<times> string) list option"

record batch_message =
  bm_payload :: string
  bm_messageId :: "string option"
  bm_timestamp :: "time option"

record enqueue_batch_options =
  bo_queueId :: string
  bo_tenantId :: string
  bo_messages :: "batch_message list"
  bo_metadata :: "(string \<times> string) list option"

subsection \<open>Scripts\<close>

definition enqueueMessageAtomic ::
    "'s redis \<Rightarrow> key \<Rightarrow> key \<Rightarrow> key \<Rightarrow> string \<Rightarrow> string \<Rightarrow> time \<Rightarrow> string \<Rightarrow> 's \<Rightarrow> 's" where
  "enqueueMessageAtomic R queueKey queueItemsKey masterQueueKey queueId messageId timestamp payload s =
     (let s = zADD R queueKey timestamp messageId s;
          s = hSET R queueItemsKey messageId payload s
      in update_master R queueKey masterQueueKey queueId s)"

definition enqueueBatchAtomic ::
    "'s redis \<Rightarrow> key \<Rightarrow> key \<Rightarrow> key \<Rightarrow> string \<Rightarrow> (string \<times> time \<times> string) list \<Rightarrow> 's \<Rightarrow> 's" where
  "enqueueBatchAtomic R queueKey queueItemsKey masterQueueKey queueId args s =
     (let s = fold (\<lambda>(messageId, timestamp, payload) s. hSET R queueItemsKey messageId payload
            (zADD R queueKey timestamp messageId s)) args s
      in update_master R queueKey masterQueueKey queueId s)"

definition updateMasterQueueIfEmpty :: "'s redis \<Rightarrow> key \<Rightarrow> key \<Rightarrow> string \<Rightarrow> 's \<Rightarrow> int \<times> 's" where
  "updateMasterQueueIfEmpty R masterQueueKey queueKey queueId s =
     (if zCARD R queueKey s = 0 then (1, zREM R masterQueueKey queueId s)
      else (0, update_master R queueKey masterQueueKey queueId s))"

subsection \<open>Enqueueing\<close>

abbreviation masterKeyFor :: "'s fq_deps \<Rightarrow> string \<Rightarrow> key" where
  "masterKeyFor d queueId \<equiv> kMaster d (getShardForQueue d queueId)"

definition stored_of ::
    "'s fq_deps \<Rightarrow> string \<Rightarrow> string \<Rightarrow> string \<Rightarrow> string \<Rightarrow> time \<Rightarrow> (string \<times> string) list option \<Rightarrow> stored_message" where
  "stored_of d messageId queueId tenantId payload timestamp metadata =
     (let m = \<lparr>sm_id = messageId, sm_queueId = queueId, sm_tenantId = tenantId, sm_payload = payload,
        sm_timestamp = timestamp, sm_attempt = 1, sm_workerQueue = None, sm_metadata = metadata\<rparr>
      in m\<lparr>sm_workerQueue := Some (d_workerQueueResolver d m)\<rparr>)"

definition fq_enqueue ::
    "'s fq_deps \<Rightarrow> time \<Rightarrow> string \<Rightarrow> enqueue_options \<Rightarrow> ('s, 'c) fq_state \<Rightarrow> (fair_error + string) \<times> ('s, 'c) fq_state" where
  "fq_enqueue d now nano options st =
     (let messageId = with_default (eo_messageId options) nano;
          timestamp = with_default (eo_timestamp options) now;
          q = eo_queueId options
      in if \<not> d_accepts d (eo_payload options) then (Inl ValidationFailed, st)
         else
           (let descriptor = \<lparr>qd_id = q, qd_tenantId = eo_tenantId options, qd_metadata = with_default (eo_metadata options) []\<rparr>;
                storedMessage = stored_of d messageId q (eo_tenantId options) (eo_payload options) timestamp (eo_metadata options)
            in (Inr messageId,
                st\<lparr>fqs_descriptors := (fqs_descriptors st)(q := Some descriptor),
                   fqs_redis := enqueueMessageAtomic (d_srv d) (kQ d q) (kQItems d q) (masterKeyFor d q) q messageId timestamp
                     (d_stringify d storedMessage) (fqs_redis st)\<rparr>)))"

text \<open>The loop that collects the script's arguments; generated ids come from a list.\<close>

fun batch_args ::
    "'s fq_deps \<Rightarrow> time \<Rightarrow> string list \<Rightarrow> enqueue_batch_options \<Rightarrow> batch_message list \<Rightarrow> fair_error + (string \<times> time \<times> string) list" where
  "batch_args d now nanos options [] = Inr []"
| "batch_args d now nanos options (m # ms) =
     (let messageId = with_default (bm_messageId m) (hd nanos);
          timestamp = with_default (bm_timestamp m) now
      in if \<not> d_accepts d (bm_payload m) then Inl ValidationFailed
         else case batch_args d now (tl nanos) options ms of
           Inl e \<Rightarrow> Inl e
         | Inr args \<Rightarrow> Inr ((messageId, timestamp, d_stringify d (stored_of d messageId (bo_queueId options)
             (bo_tenantId options) (bm_payload m) timestamp (bo_metadata options))) # args))"

definition fq_enqueueBatch ::
    "'s fq_deps \<Rightarrow> time \<Rightarrow> string list \<Rightarrow> enqueue_batch_options \<Rightarrow> ('s, 'c) fq_state \<Rightarrow>
     (fair_error + string list) \<times> ('s, 'c) fq_state" where
  "fq_enqueueBatch d now nanos options st =
     (let q = bo_queueId options;
          descriptor = \<lparr>qd_id = q, qd_tenantId = bo_tenantId options, qd_metadata = with_default (bo_metadata options) []\<rparr>;
          st = st\<lparr>fqs_descriptors := (fqs_descriptors st)(q := Some descriptor)\<rparr>
      in case batch_args d now nanos options (bo_messages options) of
           Inl e \<Rightarrow> (Inl e, st)
         | Inr args \<Rightarrow>
             (Inr (map fst args),
              st\<lparr>fqs_redis := enqueueBatchAtomic (d_srv d) (kQ d q) (kQItems d q) (masterKeyFor d q) q args (fqs_redis st)\<rparr>))"

subsection \<open>The dead letter queue\<close>

fun dead_messages :: "'s fq_deps \<Rightarrow> string \<Rightarrow> (string \<times> time) list \<Rightarrow> 's \<Rightarrow> dead_letter_message list" where
  "dead_messages d tenantId [] s = []"
| "dead_messages d tenantId ((messageId, deadLetteredAt) # results) s =
     (if messageId = [] then dead_messages d tenantId results s
      else case hGET (d_srv d) (kDeadData d tenantId) messageId s of
             None \<Rightarrow> dead_messages d tenantId results s
           | Some dataJson \<Rightarrow>
               (case (if dataJson = [] then None else d_dlqParse d dataJson) of
                  None \<Rightarrow> dead_messages d tenantId results s
                | Some m \<Rightarrow> m\<lparr>dl_deadLetteredAt := deadLetteredAt\<rparr> # dead_messages d tenantId results s))"

definition getDeadLetterMessages :: "'s fq_deps \<Rightarrow> string \<Rightarrow> nat \<Rightarrow> 's \<Rightarrow> dead_letter_message list" where
  "getDeadLetterMessages d tenantId limit s =
     (if \<not> d_deadLetterQueueEnabled d then []
      else dead_messages d tenantId (zRANGE (d_srv d) (kDead d tenantId) 0 (int limit - 1) s) s)"

definition redriveMessage ::
    "'s fq_deps \<Rightarrow> time \<Rightarrow> string \<Rightarrow> string \<Rightarrow> ('s, 'c) fq_state \<Rightarrow> (fair_error + bool) \<times> ('s, 'c) fq_state" where
  "redriveMessage d now tenantId messageId st =
     (if \<not> d_deadLetterQueueEnabled d then (Inr False, st)
      else case hGET (d_srv d) (kDeadData d tenantId) messageId (fqs_redis st) of
             None \<Rightarrow> (Inr False, st)
           | Some dataJson \<Rightarrow>
               if dataJson = [] then (Inr False, st)
               else case d_dlqParse d dataJson of
                      None \<Rightarrow> (Inl InvalidJSON, st)
                    | Some m \<Rightarrow>
                        (case fq_enqueue d now [] \<lparr>eo_queueId = dl_queueId m, eo_tenantId = dl_tenantId m, eo_payload = dl_payload m,
                              eo_messageId = Some (dl_id m), eo_timestamp = Some now, eo_metadata = None\<rparr> st of
                           (Inl e, st) \<Rightarrow> (Inl e, st)
                         | (Inr _, st) \<Rightarrow>
                             (Inr True, st\<lparr>fqs_redis := hDEL (d_srv d) (kDeadData d tenantId) messageId
                                (zREM (d_srv d) (kDead d tenantId) messageId (fqs_redis st))\<rparr>)))"

fun redrive_loop ::
    "'s fq_deps \<Rightarrow> time \<Rightarrow> string \<Rightarrow> dead_letter_message list \<Rightarrow> ('s, 'c) fq_state \<Rightarrow> (fair_error + nat) \<times> ('s, 'c) fq_state" where
  "redrive_loop d now tenantId [] st = (Inr 0, st)"
| "redrive_loop d now tenantId (m # ms) st =
     (case redriveMessage d now tenantId (dl_id m) st of
        (Inl e, st) \<Rightarrow> (Inl e, st)
      | (Inr success, st) \<Rightarrow>
          (case redrive_loop d now tenantId ms st of
             (Inl e, st) \<Rightarrow> (Inl e, st)
           | (Inr count, st) \<Rightarrow> (Inr (if success then Suc count else count), st)))"

definition redriveAll :: "'s fq_deps \<Rightarrow> time \<Rightarrow> string \<Rightarrow> ('s, 'c) fq_state \<Rightarrow> (fair_error + nat) \<times> ('s, 'c) fq_state" where
  "redriveAll d now tenantId st = redrive_loop d now tenantId (getDeadLetterMessages d tenantId 1000 (fqs_redis st)) st"

definition purgeDeadLetterQueue :: "'s fq_deps \<Rightarrow> string \<Rightarrow> 's \<Rightarrow> nat \<times> 's" where
  "purgeDeadLetterQueue d tenantId s =
     (if \<not> d_deadLetterQueueEnabled d then (0, s)
      else (zCARD (d_srv d) (kDead d tenantId) s, rDEL (d_srv d) (kDeadData d tenantId) (rDEL (d_srv d) (kDead d tenantId) s)))"

definition getDeadLetterQueueLength :: "'s fq_deps \<Rightarrow> string \<Rightarrow> 's \<Rightarrow> nat" where
  "getDeadLetterQueueLength d tenantId s = (if \<not> d_deadLetterQueueEnabled d then 0 else zCARD (d_srv d) (kDead d tenantId) s)"

definition getQueueLength :: "'s fq_deps \<Rightarrow> string \<Rightarrow> 's \<Rightarrow> nat" where
  "getQueueLength d queueId s = zCARD (d_srv d) (kQ d queueId) s"

subsection \<open>Cool-off\<close>

definition drop_key :: "string \<Rightarrow> (string \<times> 'a) list \<Rightarrow> (string \<times> 'a) list" where
  "drop_key k m = filter (\<lambda>e. fst e \<noteq> k) m"

definition isInCooloff :: "time \<Rightarrow> string \<Rightarrow> (string \<times> cooloff_state) list \<Rightarrow> bool \<times> (string \<times> cooloff_state) list" where
  "isInCooloff now queueId states =
     (case map_of states queueId of
        Some (CooloffUntil expiresAt) \<Rightarrow> if now \<ge> expiresAt then (False, drop_key queueId states) else (True, states)
      | _ \<Rightarrow> (False, states))"

definition incrementCooloff ::
    "'s fq_deps \<Rightarrow> time \<Rightarrow> string \<Rightarrow> (string \<times> cooloff_state) list \<Rightarrow> (string \<times> cooloff_state) list" where
  "incrementCooloff d now queueId states0 =
     (let states = (if int (length states0) \<ge> d_maxCooloffStatesSize d then [] else states0)
      in case with_default (map_of states queueId) (CooloffNormal 0) of
           CooloffNormal consecutiveFailures \<Rightarrow>
             (let newFailures = consecutiveFailures + 1
              in (queueId, if newFailures \<ge> d_cooloffThreshold d then CooloffUntil (now + d_cooloffPeriodMs d)
                    else CooloffNormal newFailures) # drop_key queueId states)
         | CooloffUntil _ \<Rightarrow> states)"

definition resetCooloff :: "string \<Rightarrow> (string \<times> cooloff_state) list \<Rightarrow> (string \<times> cooloff_state) list" where
  "resetCooloff queueId states = drop_key queueId states"

subsection \<open>From the queues to the worker queues\<close>

text \<open>\<open>updateMasterQueueIfEmpty\<close> and the clean-up of the caches for a queue that is empty.\<close>

definition update_and_forget :: "'s fq_deps \<Rightarrow> key \<Rightarrow> string \<Rightarrow> ('s, 'c) fq_state \<Rightarrow> ('s, 'c) fq_state" where
  "update_and_forget d masterQueueKey queueId st =
     (let (removed, s) = updateMasterQueueIfEmpty (d_srv d) masterQueueKey (kQ d queueId) queueId (fqs_redis st);
          st = st\<lparr>fqs_redis := s\<rparr>
      in if removed = 1
         then st\<lparr>fqs_descriptors := (fqs_descriptors st)(queueId := None), fqs_cooloff := drop_key queueId (fqs_cooloff st)\<rparr>
         else st)"

text \<open>The loop over the claimed messages: reserve and push, or give back this and all remaining ones.\<close>

fun push_claimed ::
    "'s fq_deps \<Rightarrow> time \<Rightarrow> queue_ref \<Rightarrow> string \<Rightarrow> key \<Rightarrow> inflight_message list \<Rightarrow> 's \<Rightarrow> nat \<times> 's" where
  "push_claimed d now descriptor queueId masterQueueKey [] s = (0, s)"
| "push_claimed d now descriptor queueId masterQueueKey (message # messages) s =
     (let (reserved, s) = (if d_groups d = [] then (True, s) else reserve d descriptor (im_messageId message) s)
      in if \<not> reserved
         then (0, v_releaseBatch d now (map im_messageId (message # messages)) queueId masterQueueKey None s)
         else
           (let s = worker_push d (d_workerQueueResolver d (im_payload message)) (makeMember (im_messageId message) queueId) s;
                (processedCount, s) = push_claimed d now descriptor queueId masterQueueKey messages s
            in (Suc processedCount, s)))"

definition claimAndPushToWorkerQueue ::
    "'s fq_deps \<Rightarrow> time \<Rightarrow> string \<Rightarrow> string \<Rightarrow> string \<Rightarrow> int \<Rightarrow> ('s, 'c) fq_state \<Rightarrow> nat \<times> ('s, 'c) fq_state" where
  "claimAndPushToWorkerQueue d now loopId queueId tenantId shardId st =
     (let descriptor = with_default (fqs_descriptors st queueId) \<lparr>qd_id = queueId, qd_tenantId = tenantId, qd_metadata = []\<rparr>;
          masterQueueKey = kMaster d shardId;
          availableCapacity = getAvailableCapacity d descriptor (fqs_redis st)
      in if d_groups d \<noteq> [] \<and> availableCapacity = 0
         then (0, st\<lparr>fqs_cooloff := incrementCooloff d now queueId (fqs_cooloff st)\<rparr>)
         else
           (let maxClaimCount = (if d_groups d = [] then d_batchClaimSize d else min (d_batchClaimSize d) availableCapacity);
                (claimedMessages, s) = claimBatch d now queueId loopId maxClaimCount (Some (d_visibilityTimeoutMs d)) (fqs_redis st);
                st = st\<lparr>fqs_redis := s\<rparr>
            in if claimedMessages = [] then (0, update_and_forget d masterQueueKey queueId st)
               else
                 (let (processedCount, s) = push_claimed d now descriptor queueId masterQueueKey claimedMessages (fqs_redis st);
                      st = st\<lparr>fqs_redis := s\<rparr>
                  in (processedCount,
                      if processedCount > 0 then st\<lparr>fqs_cooloff := resetCooloff queueId (fqs_cooloff st)\<rparr> else st))))"

text \<open>The inner loop of the shard pass, over the queues of one tenant.\<close>

fun tenant_loop ::
    "'s fq_deps \<Rightarrow> ('s, 'c) fair_scheduler \<Rightarrow> time \<Rightarrow> string \<Rightarrow> int \<Rightarrow> string \<Rightarrow> string list \<Rightarrow> ('s, 'c) fq_state \<Rightarrow>
     (fair_error + nat) \<times> ('s, 'c) fq_state" where
  "tenant_loop d sch now loopId shardId tenantId [] st = (Inr 0, st)"
| "tenant_loop d sch now loopId shardId tenantId (queueId # queues) st =
     (let (cool, states) = (if d_cooloffEnabled d then isInCooloff now queueId (fqs_cooloff st) else (False, fqs_cooloff st));
          st = st\<lparr>fqs_cooloff := states\<rparr>
      in if cool then tenant_loop d sch now loopId shardId tenantId queues st
         else
           (case (if d_groups d = [] then Inr False else isAtCapacity d ''tenant'' tenantId (fqs_redis st)) of
              Inl e \<Rightarrow> (Inl e, st)
            | Inr True \<Rightarrow> (Inr 0, st)
            | Inr False \<Rightarrow>
                (let (processed, st) = claimAndPushToWorkerQueue d now loopId queueId tenantId shardId st;
                     st = (if processed > 0 then
                       (let (s, c) = recordProcessedBatch sch tenantId queueId processed (fqs_redis st, fqs_sched st)
                        in st\<lparr>fqs_redis := s, fqs_sched := c\<rparr>) else st)
                 in case tenant_loop d sch now loopId shardId tenantId queues st of
                      (Inl e, st) \<Rightarrow> (Inl e, st)
                    | (Inr n, st) \<Rightarrow> (Inr (processed + n), st))))"

fun shard_loop ::
    "'s fq_deps \<Rightarrow> ('s, 'c) fair_scheduler \<Rightarrow> time \<Rightarrow> string \<Rightarrow> int \<Rightarrow> tenant_queues list \<Rightarrow> ('s, 'c) fq_state \<Rightarrow>
     (fair_error + nat) \<times> ('s, 'c) fq_state" where
  "shard_loop d sch now loopId shardId [] st = (Inr 0, st)"
| "shard_loop d sch now loopId shardId ((tenantId, queues) # rest) st =
     (case tenant_loop d sch now loopId shardId tenantId queues st of
        (Inl e, st) \<Rightarrow> (Inl e, st)
      | (Inr n, st) \<Rightarrow>
          (case shard_loop d sch now loopId shardId rest st of
             (Inl e, st) \<Rightarrow> (Inl e, st)
           | (Inr k, st) \<Rightarrow> (Inr (n + k), st)))"

text \<open>The answer tells whether there was work.\<close>

definition fq_processMasterQueueShard ::
    "'s fq_deps \<Rightarrow> ('s, 'c) fair_scheduler \<Rightarrow> time \<Rightarrow> string \<Rightarrow> int \<Rightarrow> ('s, 'c) fq_state \<Rightarrow>
     (fair_error + bool) \<times> ('s, 'c) fq_state" where
  "fq_processMasterQueueShard d sch now loopId shardId st =
     (case selectQueues sch now (kMaster d shardId) loopId (fqs_redis st, fqs_sched st) of
        (Inl e, s, c) \<Rightarrow> (Inl e, st\<lparr>fqs_redis := s, fqs_sched := c\<rparr>)
      | (Inr tenantQueues, s, c) \<Rightarrow>
          (case shard_loop d sch now loopId shardId tenantQueues (st\<lparr>fqs_redis := s, fqs_sched := c\<rparr>) of
             (Inl e, st) \<Rightarrow> (Inl e, st)
           | (Inr n, st) \<Rightarrow> (Inr (n > 0), st)))"

subsection \<open>The life of a message in flight\<close>

text \<open>\<open>JSON.parse\<close> of the stored data, \<open>null\<close> when it is missing or broken.\<close>

definition inflight_stored :: "'s fq_deps \<Rightarrow> string \<Rightarrow> string \<Rightarrow> 's \<Rightarrow> stored_message option" where
  "inflight_stored d messageId queueId s =
     (case hGET (d_srv d) (kInflightData d (getShardForQueue d queueId)) messageId s of
        None \<Rightarrow> None
      | Some dataJson \<Rightarrow> if dataJson = [] then None else d_parse d dataJson)"

definition getMessageData :: "'s fq_deps \<Rightarrow> string \<Rightarrow> string \<Rightarrow> 's \<Rightarrow> stored_message option" where
  "getMessageData d messageId queueId s = inflight_stored d messageId queueId s"

definition fq_heartbeatMessage :: "'s fq_deps \<Rightarrow> time \<Rightarrow> string \<Rightarrow> string \<Rightarrow> 's \<Rightarrow> bool \<times> 's" where
  "fq_heartbeatMessage d now messageId queueId s = heartbeat d now messageId queueId (d_heartbeatIntervalMs d) s"

definition descriptor_for :: "('s, 'c) fq_state \<Rightarrow> string \<Rightarrow> stored_message \<Rightarrow> queue_ref" where
  "descriptor_for st queueId m =
     with_default (fqs_descriptors st queueId)
       \<lparr>qd_id = queueId, qd_tenantId = sm_tenantId m, qd_metadata = with_default (sm_metadata m) []\<rparr>"

definition completeMessage :: "'s fq_deps \<Rightarrow> string \<Rightarrow> string \<Rightarrow> ('s, 'c) fq_state \<Rightarrow> ('s, 'c) fq_state" where
  "completeMessage d messageId queueId st =
     (let storedMessage = inflight_stored d messageId queueId (fqs_redis st);
          s = complete d messageId queueId (fqs_redis st);
          s = (case storedMessage of
            Some m \<Rightarrow> if d_groups d = [] then s else release_concurrency d (descriptor_for st queueId m) messageId s
          | None \<Rightarrow> s)
      in update_and_forget d (masterKeyFor d queueId) queueId (st\<lparr>fqs_redis := s\<rparr>))"

definition fq_releaseMessage :: "'s fq_deps \<Rightarrow> time \<Rightarrow> string \<Rightarrow> string \<Rightarrow> ('s, 'c) fq_state \<Rightarrow> ('s, 'c) fq_state" where
  "fq_releaseMessage d now messageId queueId st =
     (let storedMessage = inflight_stored d messageId queueId (fqs_redis st);
          s = v_release d now messageId queueId (masterKeyFor d queueId) (Some now) (fqs_redis st)
      in st\<lparr>fqs_redis := (case storedMessage of
           Some m \<Rightarrow> if d_groups d = [] then s else release_concurrency d (descriptor_for st queueId m) messageId s
         | None \<Rightarrow> s)\<rparr>)"

definition fq_moveToDeadLetterQueue :: "'s fq_deps \<Rightarrow> time \<Rightarrow> stored_message \<Rightarrow> string option \<Rightarrow> 's \<Rightarrow> 's" where
  "fq_moveToDeadLetterQueue d now m errorMessage s =
     (if \<not> d_deadLetterQueueEnabled d then complete d (sm_id m) (sm_queueId m) s
      else
        (let dlqMessage = \<lparr>dl_id = sm_id m, dl_queueId = sm_queueId m, dl_tenantId = sm_tenantId m, dl_payload = sm_payload m,
               dl_deadLetteredAt = now, dl_attempts = sm_attempt m, dl_lastError = errorMessage, dl_originalTimestamp = sm_timestamp m\<rparr>;
             s = complete d (sm_id m) (sm_queueId m) s;
             s = zADD (d_srv d) (kDead d (sm_tenantId m)) now (sm_id m) s
         in hSET (d_srv d) (kDeadData d (sm_tenantId m)) (sm_id m) (d_dlqStringify d dlqMessage) s))"

definition handleMessageFailure ::
    "'s fq_deps \<Rightarrow> time \<Rightarrow> rat \<Rightarrow> stored_message \<Rightarrow> string \<Rightarrow> queue_ref \<Rightarrow> string option \<Rightarrow> 's \<Rightarrow> 's" where
  "handleMessageFailure d now rnd m queueId descriptor errorMessage s =
     (case (case d_retryStrategy d of None \<Rightarrow> None | Some strategy \<Rightarrow> getNextDelay (d_fl d) (d_pow d) rnd strategy (sm_attempt m)) of
        Some nextDelay \<Rightarrow>
          (let s = v_release d now (sm_id m) queueId (masterKeyFor d queueId) (Some (now + nextDelay)) s;
               s = hSET (d_srv d) (kQItems d queueId) (sm_id m) (d_stringify d (m\<lparr>sm_attempt := sm_attempt m + 1\<rparr>)) s
           in if d_groups d = [] then s else release_concurrency d descriptor (sm_id m) s)
      | None \<Rightarrow>
          (let s = fq_moveToDeadLetterQueue d now m errorMessage s
           in if d_groups d = [] then s else release_concurrency d descriptor (sm_id m) s))"

definition failMessage ::
    "'s fq_deps \<Rightarrow> time \<Rightarrow> rat \<Rightarrow> string \<Rightarrow> string \<Rightarrow> string option \<Rightarrow> ('s, 'c) fq_state \<Rightarrow> ('s, 'c) fq_state" where
  "failMessage d now rnd messageId queueId errorMessage st =
     (case inflight_stored d messageId queueId (fqs_redis st) of
        None \<Rightarrow> st
      | Some m \<Rightarrow> st\<lparr>fqs_redis := handleMessageFailure d now rnd m queueId (descriptor_for st queueId m) errorMessage (fqs_redis st)\<rparr>)"

definition reclaimed_ref :: "reclaimed_message \<Rightarrow> queue_ref \<times> string" where
  "reclaimed_ref msg = (\<lparr>qd_id = rm_queueId msg, qd_tenantId = rm_tenantId msg, qd_metadata = with_default (rm_metadata msg) []\<rparr>,
     rm_messageId msg)"

fun reclaim_shards :: "'s fq_deps \<Rightarrow> time \<Rightarrow> int list \<Rightarrow> 's \<Rightarrow> 's" where
  "reclaim_shards d now [] s = s"
| "reclaim_shards d now (shardId # shards) s =
     (let (reclaimed, s) = reclaimTimedOut d shardId now (masterKeyFor d) s;
          s = (if d_groups d \<noteq> [] \<and> reclaimed \<noteq> [] then releaseBatch_concurrency d (map reclaimed_ref reclaimed) s else s)
      in reclaim_shards d now shards s)"

definition reclaimTimedOutMessages :: "'s fq_deps \<Rightarrow> time \<Rightarrow> 's \<Rightarrow> 's" where
  "reclaimTimedOutMessages d now s = reclaim_shards d now (map int [0..<nat (d_shardCount d)]) s"

end
