(* ===== verification/Fair_Queue_Store.thy ===== *)
theory Fair_Queue_Store
  imports Fair_Queue
begin

text \<open>
  The part of the keyspace that the fair queue's messages live in, as a record of its sorted sets and
  hashes, and what the scripts and methods do to it: a functional refinement from the keyspace of any
  server that obeys the laws to this abstract store. The separation of the keys is used here once and for
  all.
\<close>

record fstore =
  aQ :: "string \<Rightarrow> string \<Rightarrow> time option"
  aI :: "string \<Rightarrow> string \<Rightarrow> string option"
  aF :: "int \<Rightarrow> string \<Rightarrow> time option"
  aFD :: "int \<Rightarrow> string \<Rightarrow> string option"
  aD :: "string \<Rightarrow> string \<Rightarrow> time option"
  aDD :: "string \<Rightarrow> string \<Rightarrow> string option"
  aM :: "int \<Rightarrow> string \<Rightarrow> time option"

definition fview :: "'s fq_deps \<Rightarrow> view \<Rightarrow> fstore" where
  "fview d v =
     \<lparr>aQ = (\<lambda>q. v_zset v (kQ d q)), aI = (\<lambda>q. v_hash v (kQItems d q)), aF = (\<lambda>i. v_zset v (kInflight d i)),
      aFD = (\<lambda>i. v_hash v (kInflightData d i)), aD = (\<lambda>t. v_zset v (kDead d t)), aDD = (\<lambda>t. v_hash v (kDeadData d t)),
      aM = (\<lambda>i. v_zset v (kMaster d i))\<rparr>"

definition fabs :: "'s fq_deps \<Rightarrow> 's \<Rightarrow> fstore" where
  "fabs d s = fview d (rview (d_srv d) s)"

lemmas fabs_defs = fabs_def fview_def

subsection \<open>Abstract operations\<close>

definition set_q :: "string \<Rightarrow> string \<Rightarrow> time option \<Rightarrow> string option \<Rightarrow> fstore \<Rightarrow> fstore" where
  "set_q q m sc p a = a\<lparr>aQ := (aQ a)(q := (aQ a q)(m := sc)), aI := (aI a)(q := (aI a q)(m := p))\<rparr>"

definition set_f :: "int \<Rightarrow> string \<Rightarrow> string \<Rightarrow> time option \<Rightarrow> string option \<Rightarrow> fstore \<Rightarrow> fstore" where
  "set_f i q m sc p a = a\<lparr>aF := (aF a)(i := (aF a i)(makeMember m q := sc)), aFD := (aFD a)(i := (aFD a i)(m := p))\<rparr>"

definition set_d :: "string \<Rightarrow> string \<Rightarrow> time option \<Rightarrow> string option \<Rightarrow> fstore \<Rightarrow> fstore" where
  "set_d t m sc p a = a\<lparr>aD := (aD a)(t := (aD a t)(m := sc)), aDD := (aDD a)(t := (aDD a t)(m := p))\<rparr>"

definition set_m :: "int \<Rightarrow> string \<Rightarrow> time option \<Rightarrow> fstore \<Rightarrow> fstore" where
  "set_m i q sc a = a\<lparr>aM := (aM a)(i := (aM a i)(q := sc))\<rparr>"

definition refresh :: "int \<Rightarrow> string \<Rightarrow> fstore \<Rightarrow> fstore" where
  "refresh i q a = (case min_score (aQ a q) of None \<Rightarrow> a | Some sc \<Rightarrow> set_m i q (Some sc) a)"

definition a_enqueue :: "int \<Rightarrow> string \<Rightarrow> string \<Rightarrow> time \<Rightarrow> string \<Rightarrow> fstore \<Rightarrow> fstore" where
  "a_enqueue i q m sc p a = refresh i q (set_q q m (Some sc) (Some p) a)"

definition a_claim :: "int \<Rightarrow> string \<Rightarrow> string \<Rightarrow> time \<Rightarrow> string \<Rightarrow> fstore \<Rightarrow> fstore" where
  "a_claim i q m dl p a = set_f i q m (Some dl) (Some p) (set_q q m None None a)"

definition a_release :: "int \<Rightarrow> string \<Rightarrow> string \<Rightarrow> time \<Rightarrow> fstore \<Rightarrow> fstore" where
  "a_release i q m sc a =
     (case aFD a i m of None \<Rightarrow> a | Some p \<Rightarrow> set_q q m (Some sc) (Some p) (set_f i q m None None a))"

lemma set_fields [simp]:
  "aQ (set_q q m sc p a) = (aQ a)(q := (aQ a q)(m := sc))" "aI (set_q q m sc p a) = (aI a)(q := (aI a q)(m := p))"
  "aF (set_q q m sc p a) = aF a" "aFD (set_q q m sc p a) = aFD a" "aD (set_q q m sc p a) = aD a"
  "aDD (set_q q m sc p a) = aDD a" "aM (set_q q m sc p a) = aM a"
  "aQ (set_f i q m sc p a) = aQ a" "aI (set_f i q m sc p a) = aI a"
  "aF (set_f i q m sc p a) = (aF a)(i := (aF a i)(makeMember m q := sc))" "aFD (set_f i q m sc p a) = (aFD a)(i := (aFD a i)(m := p))"
  "aD (set_f i q m sc p a) = aD a" "aDD (set_f i q m sc p a) = aDD a" "aM (set_f i q m sc p a) = aM a"
  "aQ (set_d t m sc p a) = aQ a" "aI (set_d t m sc p a) = aI a" "aF (set_d t m sc p a) = aF a" "aFD (set_d t m sc p a) = aFD a"
  "aD (set_d t m sc p a) = (aD a)(t := (aD a t)(m := sc))" "aDD (set_d t m sc p a) = (aDD a)(t := (aDD a t)(m := p))"
  "aM (set_d t m sc p a) = aM a"
  "aQ (set_m i q sc a) = aQ a" "aI (set_m i q sc a) = aI a" "aF (set_m i q sc a) = aF a" "aFD (set_m i q sc a) = aFD a"
  "aD (set_m i q sc a) = aD a" "aDD (set_m i q sc a) = aDD a" "aM (set_m i q sc a) = (aM a)(i := (aM a i)(q := sc))"
  by (simp_all add: set_q_def set_f_def set_d_def set_m_def)

lemma min_score_empty [simp]: "min_score (\<lambda>_. None) = None"
  by (simp add: min_score_def)

lemma refresh_fields [simp]:
  "aQ (refresh i q a) = aQ a" "aI (refresh i q a) = aI a" "aF (refresh i q a) = aF a" "aFD (refresh i q a) = aFD a"
  "aD (refresh i q a) = aD a" "aDD (refresh i q a) = aDD a"
  "aM (refresh i q a) = (aM a)(i := (aM a i)(q := (case min_score (aQ a q) of None \<Rightarrow> aM a i q | Some sc \<Rightarrow> Some sc)))"
  by (simp_all add: refresh_def fun_upd_idem split: option.split)

subsection \<open>Commands\<close>

text \<open>What the fair queue relies on outside the repository: the server, codecs that read what they wrote and
  never write an empty text, a digest of at least eight bytes, correct rounding.\<close>

locale fair_server = redis_server "d_srv d" for d :: "'s fq_deps" +
  assumes parse_stringify: "d_parse d (d_stringify d m) = Some m" "d_stringify d m \<noteq> []"
    and dlqParse_stringify: "d_dlqParse d (d_dlqStringify d x) = Some x" "d_dlqStringify d x \<noteq> []"
    and shards: "1 \<le> d_shardCount d"
begin

lemma shard_same: "v_getShardForQueue d q = getShardForQueue d q"
  using shards by (simp add: v_getShardForQueue_def getShardForQueue_def)

lemma fabs_reads [simp]:
  "zSCORE (d_srv d) (kQ d q) m s = aQ (fabs d s) q m" "hGET (d_srv d) (kQItems d q) m s = aI (fabs d s) q m"
  "zSCORE (d_srv d) (kInflight d i) m s = aF (fabs d s) i m" "hGET (d_srv d) (kInflightData d i) m s = aFD (fabs d s) i m"
  "zSCORE (d_srv d) (kDead d t) m s = aD (fabs d s) t m" "hGET (d_srv d) (kDeadData d t) m s = aDD (fabs d s) t m"
  by (simp_all add: fabs_defs read_views)

lemma finite_fabs [simp]: "finite (dom (aQ (fabs d s) q))" "finite (dom (aF (fabs d s) i))" "finite (dom (aD (fabs d s) t))"
  by (simp_all add: fabs_defs zset_finite)

lemma fabs_zsets:
  "fabs d (zADD (d_srv d) (kQ d q) sc m s) = (fabs d s)\<lparr>aQ := (aQ (fabs d s))(q := (aQ (fabs d s) q)(m \<mapsto> sc))\<rparr>"
  "fabs d (zREM (d_srv d) (kQ d q) m s) = (fabs d s)\<lparr>aQ := (aQ (fabs d s))(q := (aQ (fabs d s) q)(m := None))\<rparr>"
  "fabs d (zADD (d_srv d) (kInflight d i) sc m s) = (fabs d s)\<lparr>aF := (aF (fabs d s))(i := (aF (fabs d s) i)(m \<mapsto> sc))\<rparr>"
  "fabs d (zREM (d_srv d) (kInflight d i) m s) = (fabs d s)\<lparr>aF := (aF (fabs d s))(i := (aF (fabs d s) i)(m := None))\<rparr>"
  "fabs d (zADD (d_srv d) (kDead d t) sc m s) = (fabs d s)\<lparr>aD := (aD (fabs d s))(t := (aD (fabs d s) t)(m \<mapsto> sc))\<rparr>"
  "fabs d (zREM (d_srv d) (kDead d t) m s) = (fabs d s)\<lparr>aD := (aD (fabs d s))(t := (aD (fabs d s) t)(m := None))\<rparr>"
  "fabs d (zADD (d_srv d) (kMaster d i) sc q s) = set_m i q (Some sc) (fabs d s)"
  "fabs d (zREM (d_srv d) (kMaster d i) q s) = set_m i q None (fabs d s)"
  by (simp_all add: fabs_defs Let_def zADD_view zREM_view set_m_def fun_eq_iff)

lemma fabs_hashes:
  "fabs d (hSET (d_srv d) (kQItems d q) m p s) = (fabs d s)\<lparr>aI := (aI (fabs d s))(q := (aI (fabs d s) q)(m \<mapsto> p))\<rparr>"
  "fabs d (hDEL (d_srv d) (kQItems d q) m s) = (fabs d s)\<lparr>aI := (aI (fabs d s))(q := (aI (fabs d s) q)(m := None))\<rparr>"
  "fabs d (hSET (d_srv d) (kInflightData d i) m p s) = (fabs d s)\<lparr>aFD := (aFD (fabs d s))(i := (aFD (fabs d s) i)(m \<mapsto> p))\<rparr>"
  "fabs d (hDEL (d_srv d) (kInflightData d i) m s) = (fabs d s)\<lparr>aFD := (aFD (fabs d s))(i := (aFD (fabs d s) i)(m := None))\<rparr>"
  "fabs d (hSET (d_srv d) (kDeadData d t) m p s) = (fabs d s)\<lparr>aDD := (aDD (fabs d s))(t := (aDD (fabs d s) t)(m \<mapsto> p))\<rparr>"
  "fabs d (hDEL (d_srv d) (kDeadData d t) m s) = (fabs d s)\<lparr>aDD := (aDD (fabs d s))(t := (aDD (fabs d s) t)(m := None))\<rparr>"
  by (simp_all add: fabs_defs Let_def hSET_view hDEL_view fun_eq_iff)

lemma fabs_others [simp]:
  "fabs d (sADD (d_srv d) k m s) = fabs d s" "fabs d (sREM (d_srv d) k m s) = fabs d s"
  "fabs d (lRPUSH (d_srv d) k m s) = fabs d s" "fabs d (snd (lLPOP (d_srv d) k s)) = fabs d s"
  "fabs d (lREM (d_srv d) k m s) = fabs d s"
  by (simp_all add: fabs_defs Let_def sADD_view sREM_view lRPUSH_view lLPOP_view lREM_view)

lemma zRANGE_first:
  "zRANGE (d_srv d) (kQ d q) 0 0 s = [] \<longleftrightarrow> aQ (fabs d s) q = Map.empty"
  "zRANGE (d_srv d) (kQ d q) 0 0 s = (m, sc) # rest \<Longrightarrow> min_score (aQ (fabs d s) q) = Some sc"
proof -
  have z: "zRANGE (d_srv d) (kQ d q) 0 0 s = redis_slice 0 0 (zsorted (aQ (fabs d s) q))" by (simp add: zRANGE_view fabs_defs)
  note e = earliest_entry [OF finite_fabs(1), of s q, folded z]
  show "zRANGE (d_srv d) (kQ d q) 0 0 s = [] \<longleftrightarrow> aQ (fabs d s) q = Map.empty"
    using e min_score_none_iff [of "aQ (fabs d s) q"] by (cases "zRANGE (d_srv d) (kQ d q) 0 0 s") auto
  show "zRANGE (d_srv d) (kQ d q) 0 0 s = (m, sc) # rest \<Longrightarrow> min_score (aQ (fabs d s) q) = Some sc"
    using e by simp
qed

lemma fabs_update_master: "fabs d (update_master (d_srv d) (kQ d q) (kMaster d i) q s) = refresh i q (fabs d s)"
  using zRANGE_first [of q s]
  by (auto simp: update_master_def refresh_def fabs_zsets split: list.split option.split)

lemma fabs_update_empty:
  "fabs d (snd (updateMasterQueueIfEmpty (d_srv d) (kMaster d i) (kQ d q) q s)) =
     (if aQ (fabs d s) q = Map.empty then set_m i q None (fabs d s) else refresh i q (fabs d s))"
proof -
  have "zCARD (d_srv d) (kQ d q) s = 0 \<longleftrightarrow> aQ (fabs d s) q = Map.empty"
    using zset_finite [of s "kQ d q"] by (simp add: zCARD_view fabs_defs)
  then show ?thesis by (simp add: updateMasterQueueIfEmpty_def fabs_update_master fabs_zsets)
qed

lemma fabs_enqueue:
  "fabs d (enqueueMessageAtomic (d_srv d) (kQ d q) (kQItems d q) (kMaster d i) q m sc p s) = a_enqueue i q m sc p (fabs d s)"
  by (simp add: enqueueMessageAtomic_def fabs_update_master fabs_zsets fabs_hashes a_enqueue_def set_q_def)

lemma fabs_claim_one:
  "fabs d (claim_one (d_srv d) (kQ d q) (kQItems d q) (kInflight d i) (kInflightData d i) q dl m p s) = a_claim i q m dl p (fabs d s)"
  by (simp add: claim_one_def fabs_zsets fabs_hashes a_claim_def set_q_def set_f_def)

lemma fabs_release:
  "fabs d (snd (releaseMessage_script (d_srv d) (kInflight d i) (kInflightData d i) (kQ d q) (kQItems d q) (kMaster d j)
      (makeMember m q) m sc q s)) =
     (if aFD (fabs d s) i m = None then fabs d s else refresh j q (a_release i q m sc (fabs d s)))"
  by (auto simp: releaseMessage_script_def fabs_update_master fabs_zsets fabs_hashes a_release_def set_q_def set_f_def
      split: option.split)

lemma fabs_remove: "fabs d (removeFromInflight d i m q s) = set_f i q m None None (fabs d s)"
  by (simp add: removeFromInflight_def fabs_zsets fabs_hashes set_f_def)

lemma fabs_concurrency [simp]:
  "fabs d (snd (reserve d ref m s)) = fabs d s" "fabs d (release_concurrency d ref m s) = fabs d s"
  "fabs d (releaseBatch_concurrency d refs s) = fabs d s" "fabs d (worker_push d w k s) = fabs d s"
proof -
  have add: "fabs d (fold (\<lambda>(k, limit) s. sADD (d_srv d) k m s) xs s) = fabs d s" for xs :: "(key \<times> int) list" and m s
    by (induction xs arbitrary: s) auto
  then show "fabs d (snd (reserve d ref m s)) = fabs d s"
    by (simp add: reserve_def reserveConcurrency_script_def Let_def)
  have "fabs d (fold (\<lambda>g s. sREM (d_srv d) (kGroup d (g_name g) (g_extractGroupId g ref)) m s) gs s) = fabs d s"
    for gs :: "concurrency_group list" and ref m s
    by (induction gs arbitrary: s) auto
  then have rem: "fabs d (release_concurrency d ref m s) = fabs d s" for ref m s
    by (simp add: release_concurrency_def)
  then show "fabs d (release_concurrency d ref m s) = fabs d s" .
  show "fabs d (releaseBatch_concurrency d refs s) = fabs d s"
    unfolding releaseBatch_concurrency_def using rem by (induction refs arbitrary: s) auto
qed (simp add: worker_push_def)

end

end
