(* ===== verification/Fair_Queue_Invariant.thy ===== *)
theory Fair_Queue_Invariant
  imports Fair_Queue_Store
begin

text \<open>
  The invariant of the fair queue on its abstract store, and that each elementary transition keeps it.
  \<open>home\<close> gives the queue of a message: the ids of messages are not used in two queues (they are generated),
  have no colon and are not empty.
\<close>

definition good_id :: "string \<Rightarrow> bool" where
  "good_id m \<longleftrightarrow> m \<noteq> [] \<and> colon_free m"

definition tenant_ok :: "'s fq_deps \<Rightarrow> string \<Rightarrow> bool" where
  "tenant_ok d t \<longleftrightarrow> k_separator (d_keys d) \<notin> set t"

text \<open>The stored text reads as a message with its own id and queue.\<close>

definition payload_ok :: "'s fq_deps \<Rightarrow> (string \<Rightarrow> string) \<Rightarrow> string \<Rightarrow> string \<Rightarrow> bool" where
  "payload_ok d home m p \<longleftrightarrow> p \<noteq> [] \<and>
     (case d_parse d p of None \<Rightarrow> False
      | Some msg \<Rightarrow> sm_id msg = m \<and> sm_queueId msg = home m \<and> tenant_ok d (sm_tenantId msg))"

definition dead_payload_ok :: "'s fq_deps \<Rightarrow> (string \<Rightarrow> string) \<Rightarrow> string \<Rightarrow> string \<Rightarrow> string \<Rightarrow> bool" where
  "dead_payload_ok d home t m p \<longleftrightarrow> p \<noteq> [] \<and>
     (case d_dlqParse d p of None \<Rightarrow> False
      | Some msg \<Rightarrow> dl_id msg = m \<and> dl_queueId msg = home m \<and> dl_tenantId msg = t)"

text \<open>A queue holds its own messages, each with its data.\<close>

definition queues_ok :: "'s fq_deps \<Rightarrow> (string \<Rightarrow> string) \<Rightarrow> fstore \<Rightarrow> bool" where
  "queues_ok d home a \<longleftrightarrow> (\<forall>q m. aQ a q m = None \<longleftrightarrow> aI a q m = None)
     \<and> (\<forall>q m p. aI a q m = Some p \<longrightarrow> home m = q \<and> good_id m \<and> payload_ok d home m p)"

text \<open>The in-flight set and the in-flight data agree, in the shard of the message's queue.\<close>

definition inflight_ok :: "'s fq_deps \<Rightarrow> (string \<Rightarrow> string) \<Rightarrow> fstore \<Rightarrow> bool" where
  "inflight_ok d home a \<longleftrightarrow>
     (\<forall>i m p. aFD a i m = Some p \<longrightarrow>
        i = getShardForQueue d (home m) \<and> good_id m \<and> payload_ok d home m p \<and> aF a i (makeMember m (home m)) \<noteq> None)
     \<and> (\<forall>i x. aF a i x \<noteq> None \<longrightarrow> (\<exists>m. x = makeMember m (home m) \<and> aFD a i m \<noteq> None))"

definition dead_ok :: "'s fq_deps \<Rightarrow> (string \<Rightarrow> string) \<Rightarrow> fstore \<Rightarrow> bool" where
  "dead_ok d home a \<longleftrightarrow> (\<forall>t m. aD a t m = None \<longleftrightarrow> aDD a t m = None)
     \<and> (\<forall>t m p. aDD a t m = Some p \<longrightarrow> good_id m \<and> tenant_ok d t \<and> dead_payload_ok d home t m p)"

text \<open>A message is in one place.\<close>

definition apart_at :: "string \<Rightarrow> int \<Rightarrow> string \<Rightarrow> fstore \<Rightarrow> bool" where
  "apart_at q i m a \<longleftrightarrow> (aI a q m = None \<or> aFD a i m = None)
     \<and> (\<forall>t. aDD a t m = None \<or> aI a q m = None \<and> aFD a i m = None)
     \<and> (\<forall>t t'. t = t' \<or> aDD a t m = None \<or> aDD a t' m = None)"

definition apart :: "'s fq_deps \<Rightarrow> (string \<Rightarrow> string) \<Rightarrow> fstore \<Rightarrow> bool" where
  "apart d home a \<longleftrightarrow> (\<forall>m. apart_at (home m) (getShardForQueue d (home m)) m a)"

text \<open>The master queue lists a queue in its own shard, and every queue with messages, no later than its
  earliest message; except for the queues \<open>X\<close> that a script is working on.\<close>

definition master_ok :: "'s fq_deps \<Rightarrow> string set \<Rightarrow> fstore \<Rightarrow> bool" where
  "master_ok d X a \<longleftrightarrow>
     (\<forall>i q. aM a i q \<noteq> None \<longrightarrow> i = getShardForQueue d q)
     \<and> (\<forall>q m sc. q \<notin> X \<longrightarrow> aQ a q m = Some sc \<longrightarrow> (\<exists>sc'. aM a (getShardForQueue d q) q = Some sc' \<and> sc' \<le> sc))"

definition fq_core :: "'s fq_deps \<Rightarrow> (string \<Rightarrow> string) \<Rightarrow> string set \<Rightarrow> fstore \<Rightarrow> bool" where
  "fq_core d home X a \<longleftrightarrow> queues_ok d home a \<and> inflight_ok d home a \<and> dead_ok d home a \<and> apart d home a \<and> master_ok d X a"

definition fq_inv :: "'s fq_deps \<Rightarrow> (string \<Rightarrow> string) \<Rightarrow> fstore \<Rightarrow> bool" where
  "fq_inv d home a \<longleftrightarrow> fq_core d home {} a \<and> (\<forall>q. finite (dom (aQ a q)))"

lemmas fq_parts = queues_ok_def inflight_ok_def dead_ok_def apart_def master_ok_def

subsection \<open>Members of the in-flight set\<close>

lemma makeMember_inject: "colon_free m \<Longrightarrow> colon_free m' \<Longrightarrow> makeMember m q = makeMember m' q' \<longleftrightarrow> m = m' \<and> q = q'"
  using append_sep_eq [of colon m m' q q'] by (auto simp: makeMember_def)

lemma parseMember_makeMember: "colon_free m \<Longrightarrow> parseMember (makeMember m q) = (m, q)"
proof -
  assume "colon_free m"
  then have "takeWhile (\<lambda>c. c \<noteq> colon) (m @ colon # q) = m @ takeWhile (\<lambda>c. c \<noteq> colon) (colon # q)"
    "dropWhile (\<lambda>c. c \<noteq> colon) (m @ colon # q) = dropWhile (\<lambda>c. c \<noteq> colon) (colon # q)"
    by (auto intro!: takeWhile_append2 dropWhile_append2 simp del: takeWhile.simps dropWhile.simps)
  then show ?thesis by (simp add: parseMember_def makeMember_def)
qed

lemma member_home:
  assumes "inflight_ok d home a" and "aF a i x \<noteq> None"
  obtains m where "x = makeMember m (home m)" and "aFD a i m \<noteq> None" and "good_id m" and "i = getShardForQueue d (home m)"
proof -
  obtain m where m: "x = makeMember m (home m)" "aFD a i m \<noteq> None" using assms unfolding inflight_ok_def by blast
  then have "good_id m" "i = getShardForQueue d (home m)" using assms(1) unfolding inflight_ok_def by blast+
  then show thesis using that m by blast
qed

subsection \<open>Transitions\<close>

lemma fq_coreI:
  "queues_ok d home a \<Longrightarrow> inflight_ok d home a \<Longrightarrow> dead_ok d home a \<Longrightarrow> apart d home a \<Longrightarrow> master_ok d X a \<Longrightarrow> fq_core d home X a"
  by (simp add: fq_core_def)

lemma fq_coreD:
  assumes "fq_core d home X a"
  shows "queues_ok d home a" and "inflight_ok d home a" and "dead_ok d home a" and "apart d home a" and "master_ok d X a"
  using assms by (simp_all add: fq_core_def)

text \<open>Parts that a transition does not touch.\<close>

lemma untouched [simp]:
  "queues_ok d home (set_f i q m sc p a) = queues_ok d home a" "queues_ok d home (set_d t m sc p a) = queues_ok d home a"
  "queues_ok d home (set_m i q sc a) = queues_ok d home a" "queues_ok d home (refresh i q a) = queues_ok d home a"
  "inflight_ok d home (set_q q m sc p a) = inflight_ok d home a" "inflight_ok d home (set_d t m sc p a) = inflight_ok d home a"
  "inflight_ok d home (set_m i q sc a) = inflight_ok d home a" "inflight_ok d home (refresh i q a) = inflight_ok d home a"
  "dead_ok d home (set_q q m sc p a) = dead_ok d home a" "dead_ok d home (set_f i q m sc p a) = dead_ok d home a"
  "dead_ok d home (set_m i q sc a) = dead_ok d home a" "dead_ok d home (refresh i q a) = dead_ok d home a"
  "apart d home (set_m i q sc a) = apart d home a" "apart d home (refresh i q a) = apart d home a"
  "master_ok d X (set_f i q m sc p a) = master_ok d X a" "master_ok d X (set_d t m sc p a) = master_ok d X a"
  by (simp_all add: fq_parts apart_at_def)

lemma refresh_master:
  assumes "master_ok d X a" and "finite (dom (aQ a q))"
  shows "master_ok d (X - {q}) (refresh (getShardForQueue d q) q a)"
proof -
  have least: "\<exists>sc'. min_score (aQ a q) = Some sc' \<and> sc' \<le> sc" if "aQ a q m = Some sc" for m sc
  proof -
    have "finite (ran (aQ a q))" using assms(2) by (simp add: finite_ran)
    then have "Min (ran (aQ a q)) \<le> sc" using that by (intro Min_le) (auto simp: ran_def)
    moreover have "aQ a q \<noteq> Map.empty" using that by auto
    ultimately show ?thesis by (simp add: min_score_def)
  qed
  have own: "\<And>i q'. aM a i q' \<noteq> None \<Longrightarrow> i = getShardForQueue d q'"
    and early: "\<And>q' m sc. q' \<notin> X \<Longrightarrow> aQ a q' m = Some sc \<Longrightarrow> \<exists>sc'. aM a (getShardForQueue d q') q' = Some sc' \<and> sc' \<le> sc"
    using assms(1) unfolding master_ok_def by blast+
  show ?thesis
    unfolding master_ok_def
  proof (intro conjI allI impI)
    fix i q'
    assume "aM (refresh (getShardForQueue d q) q a) i q' \<noteq> None"
    then have "aM a i q' \<noteq> None \<or> i = getShardForQueue d q \<and> q' = q" by (auto split: if_splits)
    then show "i = getShardForQueue d q'" using own by blast
  next
    fix q' m sc
    assume q': "q' \<notin> X - {q}" "aQ (refresh (getShardForQueue d q) q a) q' m = Some sc"
    show "\<exists>sc'. aM (refresh (getShardForQueue d q) q a) (getShardForQueue d q') q' = Some sc' \<and> sc' \<le> sc"
    proof (cases "q' = q")
      case True
      then show ?thesis using least [of m sc] q'(2) by auto
    next
      case False
      then show ?thesis using early [of q' m sc] q' by auto
    qed
  qed
qed

lemma core_refresh:
  assumes "fq_core d home X a" and "finite (dom (aQ a q))"
  shows "fq_core d home (X - {q}) (refresh (getShardForQueue d q) q a)"
  using assms refresh_master [of d X a q] by (simp add: fq_core_def)

lemma core_mono: "fq_core d home X a \<Longrightarrow> X \<subseteq> Y \<Longrightarrow> fq_core d home Y a"
  unfolding fq_core_def master_ok_def by blast

lemma apart_step:
  assumes "fq_core d home X a" and "apart_at (home m) (getShardForQueue d (home m)) m a'"
    and "\<And>m' q i t. m' \<noteq> m \<Longrightarrow> aI a' q m' = aI a q m' \<and> aFD a' i m' = aFD a i m' \<and> aDD a' t m' = aDD a t m'"
  shows "apart d home a'"
  unfolding apart_def
proof
  fix m'
  show "apart_at (home m') (getShardForQueue d (home m')) m' a'"
    using assms(2,3) fq_coreD(4) [OF assms(1)] by (cases "m' = m") (simp_all add: apart_def apart_at_def)
qed

lemma queued_facts:
  assumes "fq_core d home X a" and "aI a q m = Some p"
  shows "home m = q" and "good_id m" and "payload_ok d home m p" and "aFD a (getShardForQueue d q) m = None"
    and "aDD a t m = None" and "aQ a q m \<noteq> None"
proof -
  show h: "home m = q" and "good_id m" and "payload_ok d home m p" and "aQ a q m \<noteq> None"
    using fq_coreD(1) [OF assms(1)] assms(2) unfolding queues_ok_def by force+
  show "aFD a (getShardForQueue d q) m = None" and "aDD a t m = None"
    using fq_coreD(4) [OF assms(1)] assms(2) h unfolding apart_def apart_at_def by (metis option.distinct(1))+
qed

lemma inflight_facts:
  assumes "fq_core d home X a" and "aFD a i m = Some p"
  shows "i = getShardForQueue d (home m)" and "good_id m" and "payload_ok d home m p" and "aI a (home m) m = None"
    and "aDD a t m = None" and "aF a i (makeMember m (home m)) \<noteq> None"
proof -
  show h: "i = getShardForQueue d (home m)" and "good_id m" and "payload_ok d home m p" and "aF a i (makeMember m (home m)) \<noteq> None"
    using fq_coreD(2) [OF assms(1)] assms(2) unfolding inflight_ok_def by blast+
  show "aI a (home m) m = None" and "aDD a t m = None"
    using fq_coreD(4) [OF assms(1)] assms(2) h unfolding apart_def apart_at_def by (metis option.distinct(1))+
qed

lemma core_put:
  assumes "fq_core d home X a" and "good_id m" and "home m = q" and "payload_ok d home m p"
    and "aFD a (getShardForQueue d q) m = None" and "\<And>t. aDD a t m = None"
  shows "fq_core d home (insert q X) (set_q q m (Some sc) (Some p) a)"
proof (rule fq_coreI)
  show "queues_ok d home (set_q q m (Some sc) (Some p) a)"
    using fq_coreD(1) [OF assms(1)] assms(2-4) by (simp add: queues_ok_def)
  show "apart d home (set_q q m (Some sc) (Some p) a)"
    using assms(3,5,6) by (intro apart_step [OF assms(1), of m]) (simp_all add: apart_at_def)
  show "master_ok d (insert q X) (set_q q m (Some sc) (Some p) a)"
    using fq_coreD(5) [OF assms(1)] unfolding master_ok_def by auto
qed (use fq_coreD [OF assms(1)] in simp_all)

lemma member_neq:
  assumes "fq_core d home X a" and "aFD a i m' = Some p" and "good_id m" and "m \<noteq> m'"
  shows "makeMember m' (home m') \<noteq> makeMember m q"
  using inflight_facts(2) [OF assms(1,2)] assms(3,4) by (simp add: good_id_def makeMember_inject)

lemma inflight_set:
  assumes "fq_core d home X a" and "good_id m" and "home m = q" and "payload_ok d home m p"
  shows "inflight_ok d home (set_f (getShardForQueue d q) q m (Some dl) (Some p) a)"
  unfolding inflight_ok_def
proof (intro conjI allI impI)
  fix i m' p'
  assume "aFD (set_f (getShardForQueue d q) q m (Some dl) (Some p) a) i m' = Some p'"
  then have c: "i = getShardForQueue d q \<and> m' = m \<and> p' = p \<or> aFD a i m' = Some p'" by (auto split: if_splits)
  have "i = getShardForQueue d (home m') \<and> good_id m' \<and> payload_ok d home m' p'
      \<and> (i = getShardForQueue d q \<and> m' = m \<or> aF a i (makeMember m' (home m')) \<noteq> None)"
    using c
  proof
    assume "aFD a i m' = Some p'"
    from inflight_facts [OF assms(1) this] show ?thesis by blast
  qed (use assms(2-4) in blast)
  then show "i = getShardForQueue d (home m')" "good_id m'" "payload_ok d home m' p'"
    "aF (set_f (getShardForQueue d q) q m (Some dl) (Some p) a) i (makeMember m' (home m')) \<noteq> None"
    using assms(3) by auto
next
  fix i x
  assume x: "aF (set_f (getShardForQueue d q) q m (Some dl) (Some p) a) i x \<noteq> None"
  show "\<exists>m'. x = makeMember m' (home m') \<and> aFD (set_f (getShardForQueue d q) q m (Some dl) (Some p) a) i m' \<noteq> None"
  proof (cases "i = getShardForQueue d q \<and> x = makeMember m q")
    case True
    then show ?thesis using assms(3) by (intro exI [of _ m]) simp
  next
    case False
    then have "aF a i x \<noteq> None" using x by (auto split: if_splits)
    then obtain m' where "x = makeMember m' (home m')" "aFD a i m' \<noteq> None"
      using member_home [OF fq_coreD(2) [OF assms(1)]] by blast
    then show ?thesis by (intro exI [of _ m']) auto
  qed
qed

lemma inflight_unset:
  assumes "fq_core d home X a" and "good_id m" and "home m = q"
  shows "inflight_ok d home (set_f (getShardForQueue d q) q m None None a)"
  unfolding inflight_ok_def
proof (intro conjI allI impI)
  fix i x
  assume x: "aF (set_f (getShardForQueue d q) q m None None a) i x \<noteq> None"
  then have x': "aF a i x \<noteq> None" "\<not> (i = getShardForQueue d q \<and> x = makeMember m q)" by (auto split: if_splits)
  obtain m' where m': "x = makeMember m' (home m')" "aFD a i m' \<noteq> None" "i = getShardForQueue d (home m')"
    using member_home [OF fq_coreD(2) [OF assms(1)] x'(1)] by blast
  then have "m' \<noteq> m" using x'(2) assms(3) by auto
  then show "\<exists>m'. x = makeMember m' (home m') \<and> aFD (set_f (getShardForQueue d q) q m None None a) i m' \<noteq> None"
    using m' by (intro exI [of _ m']) auto
next
  fix i m' p
  assume p: "aFD (set_f (getShardForQueue d q) q m None None a) i m' = Some p"
  then have p': "aFD a i m' = Some p" "\<not> (i = getShardForQueue d q \<and> m' = m)" by (auto split: if_splits)
  note f = inflight_facts [OF assms(1) p'(1)]
  have "m' \<noteq> m" using f(1) p'(2) assms(3) by auto
  then have "makeMember m' (home m') \<noteq> makeMember m q" using member_neq [OF assms(1) p'(1) assms(2)] by auto
  then show "i = getShardForQueue d (home m')" "good_id m'" "payload_ok d home m' p"
    "aF (set_f (getShardForQueue d q) q m None None a) i (makeMember m' (home m')) \<noteq> None"
    using f by auto
qed

lemma core_take:
  assumes "fq_core d home X a"
  shows "fq_core d home X (set_q q m None None a)"
proof (rule fq_coreI)
  show "queues_ok d home (set_q q m None None a)" using fq_coreD(1) [OF assms] by (simp add: queues_ok_def)
  show "apart d home (set_q q m None None a)"
    using fq_coreD(4) [OF assms] by (intro apart_step [OF assms, of m]) (auto simp: apart_def apart_at_def)
  show "master_ok d X (set_q q m None None a)" using fq_coreD(5) [OF assms] unfolding master_ok_def by auto
qed (use fq_coreD [OF assms] in simp_all)

lemma core_claim:
  assumes "fq_core d home X a" and "aI a q m = Some p"
  shows "fq_core d home X (a_claim (getShardForQueue d q) q m dl p a)"
proof -
  note f = queued_facts [OF assms] and core = core_take [OF assms(1), of q m]
  show ?thesis
    unfolding a_claim_def
  proof (rule fq_coreI)
    show "apart d home (set_f (getShardForQueue d q) q m (Some dl) (Some p) (set_q q m None None a))"
      using f(1,5) by (intro apart_step [OF core, of m]) (simp_all add: apart_at_def)
  qed (use fq_coreD [OF core] inflight_set [OF core f(2,1,3)] in simp_all)
qed

lemma core_remove:
  assumes "fq_core d home X a" and "good_id m" and "home m = q"
  shows "fq_core d home X (set_f (getShardForQueue d q) q m None None a)"
proof (rule fq_coreI)
  show "apart d home (set_f (getShardForQueue d q) q m None None a)"
    using fq_coreD(4) [OF assms(1)] assms(3) by (intro apart_step [OF assms(1), of m]) (auto simp: apart_def apart_at_def)
qed (use fq_coreD [OF assms(1)] inflight_unset [OF assms] in simp_all)

lemma core_release:
  assumes "fq_core d home X a" and "home m = q"
  shows "fq_core d home (insert q X) (a_release (getShardForQueue d q) q m sc a)"
proof (cases "aFD a (getShardForQueue d q) m")
  case None
  then show ?thesis using core_mono [OF assms(1)] by (auto simp: a_release_def)
next
  case (Some p)
  note f = inflight_facts [OF assms(1) Some]
  have "fq_core d home X (set_f (getShardForQueue d q) q m None None a)" by (rule core_remove [OF assms(1) f(2) assms(2)])
  from core_put [OF this f(2) assms(2) f(3)] show ?thesis using f(5) by (simp add: a_release_def Some)
qed

lemma core_heartbeat:
  assumes "fq_core d home X a" and "aF a i x \<noteq> None"
  shows "fq_core d home X (a\<lparr>aF := (aF a)(i := (aF a i)(x \<mapsto> dl))\<rparr>)"
proof (rule fq_coreI)
  show "inflight_ok d home (a\<lparr>aF := (aF a)(i := (aF a i)(x \<mapsto> dl))\<rparr>)"
    unfolding inflight_ok_def
  proof (intro conjI allI impI)
    fix j y
    assume "aF (a\<lparr>aF := (aF a)(i := (aF a i)(x \<mapsto> dl))\<rparr>) j y \<noteq> None"
    then have "aF a j y \<noteq> None" using assms(2) by (auto split: if_splits)
    then show "\<exists>m. y = makeMember m (home m) \<and> aFD (a\<lparr>aF := (aF a)(i := (aF a i)(x \<mapsto> dl))\<rparr>) j m \<noteq> None"
      using fq_coreD(2) [OF assms(1)] unfolding inflight_ok_def by simp
  next
    fix j m p
    assume "aFD (a\<lparr>aF := (aF a)(i := (aF a i)(x \<mapsto> dl))\<rparr>) j m = Some p"
    then have "aFD a j m = Some p" by simp
    from inflight_facts [OF assms(1) this]
    show "j = getShardForQueue d (home m)" "good_id m" "payload_ok d home m p"
      "aF (a\<lparr>aF := (aF a)(i := (aF a i)(x \<mapsto> dl))\<rparr>) j (makeMember m (home m)) \<noteq> None" by auto
  qed
qed (use fq_coreD [OF assms(1)] in \<open>simp_all add: queues_ok_def dead_ok_def apart_def apart_at_def master_ok_def\<close>)

lemma core_rewrite:
  assumes "fq_core d home X a" and "aI a q m \<noteq> None" and "payload_ok d home m p"
  shows "fq_core d home X (a\<lparr>aI := (aI a)(q := (aI a q)(m \<mapsto> p))\<rparr>)"
proof (rule fq_coreI)
  show "queues_ok d home (a\<lparr>aI := (aI a)(q := (aI a q)(m \<mapsto> p))\<rparr>)"
    using fq_coreD(1) [OF assms(1)] assms(2,3) unfolding queues_ok_def by auto
  show "apart d home (a\<lparr>aI := (aI a)(q := (aI a q)(m \<mapsto> p))\<rparr>)"
    using assms(2) queued_facts(1,4,5) [OF assms(1), of q m]
    by (intro apart_step [OF assms(1), of m]) (auto simp: apart_at_def)
qed (use fq_coreD [OF assms(1)] in \<open>simp_all add: inflight_ok_def dead_ok_def master_ok_def\<close>)

lemma core_bury:
  assumes "fq_core d home X a" and "good_id m" and "tenant_ok d t" and "dead_payload_ok d home t m p"
    and "aI a (home m) m = None" and "aFD a (getShardForQueue d (home m)) m = None" and "\<And>t. aDD a t m = None"
  shows "fq_core d home X (set_d t m (Some sc) (Some p) a)"
proof (rule fq_coreI)
  show "dead_ok d home (set_d t m (Some sc) (Some p) a)" using fq_coreD(3) [OF assms(1)] assms(2-4) by (simp add: dead_ok_def)
  show "apart d home (set_d t m (Some sc) (Some p) a)" using assms(5-7) by (intro apart_step [OF assms(1), of m]) (simp_all add: apart_at_def)
qed (use fq_coreD [OF assms(1)] in simp_all)

lemma core_unbury:
  assumes "fq_core d home X a"
  shows "fq_core d home X (set_d t m None None a)"
proof (rule fq_coreI)
  show "dead_ok d home (set_d t m None None a)" using fq_coreD(3) [OF assms] by (simp add: dead_ok_def)
  have "apart_at (home m) (getShardForQueue d (home m)) m a" using fq_coreD(4) [OF assms] by (simp add: apart_def)
  then show "apart d home (set_d t m None None a)"
    by (intro apart_step [OF assms, of m]) (simp_all add: apart_at_def, metis)
qed (use fq_coreD [OF assms] in simp_all)

lemma core_forget:
  assumes "fq_core d home X a" and "aQ a q = Map.empty"
  shows "fq_core d home X (set_m i q None a)"
proof (rule fq_coreI)
  show "master_ok d X (set_m i q None a)" using fq_coreD(5) [OF assms(1)] assms(2) unfolding master_ok_def by auto
qed (use fq_coreD [OF assms(1)] in simp_all)

lemma core_purge:
  assumes "fq_core d home X a"
  shows "fq_core d home X (a\<lparr>aD := (aD a)(t := Map.empty), aDD := (aDD a)(t := Map.empty)\<rparr>)"
proof (rule fq_coreI)
  show "dead_ok d home (a\<lparr>aD := (aD a)(t := Map.empty), aDD := (aDD a)(t := Map.empty)\<rparr>)"
    using fq_coreD(3) [OF assms] by (simp add: dead_ok_def)
  show "apart d home (a\<lparr>aD := (aD a)(t := Map.empty), aDD := (aDD a)(t := Map.empty)\<rparr>)"
    unfolding apart_def
  proof
    fix m
    have "apart_at (home m) (getShardForQueue d (home m)) m a" using fq_coreD(4) [OF assms] by (simp add: apart_def)
    then show "apart_at (home m) (getShardForQueue d (home m)) m (a\<lparr>aD := (aD a)(t := Map.empty), aDD := (aDD a)(t := Map.empty)\<rparr>)"
      unfolding apart_at_def by (simp, metis)
  qed
qed (use fq_coreD [OF assms] in \<open>simp_all add: queues_ok_def inflight_ok_def master_ok_def\<close>)

subsection \<open>Abstract steps\<close>

text \<open>What happens to the store, one elementary transition at a time.\<close>

inductive a_step :: "'s fq_deps \<Rightarrow> (string \<Rightarrow> string) \<Rightarrow> fstore \<Rightarrow> fstore \<Rightarrow> bool" for d home where
  a_enqueue: "good_id m \<Longrightarrow> home m = q \<Longrightarrow> payload_ok d home m p \<Longrightarrow> aFD a (getShardForQueue d q) m = None \<Longrightarrow>
    \<forall>t. aDD a t m = None \<Longrightarrow> a_step d home a (a_enqueue (getShardForQueue d q) q m sc p a)"
| a_claim: "aI a q m = Some p \<Longrightarrow> a_step d home a (a_claim (getShardForQueue d q) q m dl p a)"
| a_release: "aFD a (getShardForQueue d q) m \<noteq> None \<Longrightarrow> home m = q \<Longrightarrow>
    a_step d home a (refresh (getShardForQueue d q) q (a_release (getShardForQueue d q) q m sc a))"
| a_beat: "good_id m \<Longrightarrow> aF a (getShardForQueue d (home m)) (makeMember m (home m)) \<noteq> None \<Longrightarrow> a_step d home a
    (a\<lparr>aF := (aF a)(getShardForQueue d (home m) := (aF a (getShardForQueue d (home m)))(makeMember m (home m) \<mapsto> dl))\<rparr>)"
| a_rewrite: "aI a q m \<noteq> None \<Longrightarrow> payload_ok d home m p \<Longrightarrow> a_step d home a (a\<lparr>aI := (aI a)(q := (aI a q)(m \<mapsto> p))\<rparr>)"
| a_finish: "good_id m \<Longrightarrow> home m = q \<Longrightarrow> a_step d home a (set_f (getShardForQueue d q) q m None None a)"
| a_bury: "aFD a (getShardForQueue d q) m \<noteq> None \<Longrightarrow> home m = q \<Longrightarrow> tenant_ok d t \<Longrightarrow> dead_payload_ok d home t m p \<Longrightarrow>
    a_step d home a (set_d t m (Some sc) (Some p) (set_f (getShardForQueue d q) q m None None a))"
| a_redrive: "aDD a t m \<noteq> None \<Longrightarrow> home m = q \<Longrightarrow> payload_ok d home m p \<Longrightarrow>
    a_step d home a (a_enqueue (getShardForQueue d q) q m sc p (set_d t m None None a))"
| a_purge: "a_step d home a (a\<lparr>aD := (aD a)(t := Map.empty), aDD := (aDD a)(t := Map.empty)\<rparr>)"
| a_refresh: "a_step d home a (refresh (getShardForQueue d q) q a)"
| a_forget: "aQ a q = Map.empty \<Longrightarrow> a_step d home a (set_m i q None a)"

lemma fq_invD:
  assumes "fq_inv d home a"
  shows "fq_core d home {} a" and "finite (dom (aQ a q))"
  using assms by (simp_all add: fq_inv_def)

lemma dead_facts:
  assumes "fq_core d home X a" and "aDD a t m = Some p"
  shows "good_id m" and "dead_payload_ok d home t m p" and "aI a (home m) m = None"
    and "aFD a (getShardForQueue d (home m)) m = None" and "t' \<noteq> t \<Longrightarrow> aDD a t' m = None"
proof -
  show "good_id m" and "dead_payload_ok d home t m p"
    using fq_coreD(3) [OF assms(1)] assms(2) unfolding dead_ok_def by blast+
  have "apart_at (home m) (getShardForQueue d (home m)) m a" using fq_coreD(4) [OF assms(1)] by (simp add: apart_def)
  then show "aI a (home m) m = None" and "aFD a (getShardForQueue d (home m)) m = None" and "t' \<noteq> t \<Longrightarrow> aDD a t' m = None"
    using assms(2) unfolding apart_at_def by (metis option.distinct(1))+
qed

lemma core_enqueue:
  assumes "fq_core d home {} a" and "finite (dom (aQ a q))" and "good_id m" and "home m = q" and "payload_ok d home m p"
    and "aFD a (getShardForQueue d q) m = None" and "\<And>t. aDD a t m = None"
  shows "fq_core d home {} (a_enqueue (getShardForQueue d q) q m sc p a)"
  using core_refresh [OF core_put [OF assms(1,3-7), of sc], of q] assms(2) by (simp add: a_enqueue_def)

theorem a_step_inv:
  assumes "a_step d home a a'" and "fq_inv d home a"
  shows "fq_inv d home a'"
proof -
  note core = fq_invD(1) [OF assms(2)] and fin = fq_invD(2) [OF assms(2)]
  have fin': "finite (dom (aQ a' q))" for q
    using assms(1) fin by cases (auto simp: a_enqueue_def a_claim_def a_release_def split: option.split)
  have "fq_core d home {} a'"
    using assms(1)
  proof cases
    case (a_enqueue m q p sc)
    then show ?thesis using core_enqueue [OF core fin] by blast
  next
    case (a_claim q m p dl)
    then show ?thesis using core_claim [OF core] by blast
  next
    case (a_release q m sc)
    have "fq_core d home {q} (a_release (getShardForQueue d q) q m sc a)"
      using core_release [OF core a_release(3)] by simp
    moreover have "finite (dom (aQ (a_release (getShardForQueue d q) q m sc a) q))"
      using fin by (auto simp: a_release_def split: option.split)
    ultimately show ?thesis using core_refresh [of d home "{q}" _ q] a_release(1) by simp
  next
    case (a_beat m dl)
    then show ?thesis using core_heartbeat [OF core a_beat(3)] by simp
  next
    case (a_rewrite q m p)
    then show ?thesis using core_rewrite [OF core] by blast
  next
    case (a_finish m q)
    then show ?thesis using core_remove [OF core] by blast
  next
    case (a_bury q m t p sc)
    then obtain p0 where p0: "aFD a (getShardForQueue d q) m = Some p0" by blast
    note f = inflight_facts [OF core p0]
    show ?thesis
      unfolding a_bury(1)
      using core_bury [OF core_remove [OF core f(2) a_bury(3)] f(2) a_bury(4,5), of sc] f(4,5) a_bury(3) by simp
  next
    case (a_redrive t m q p sc)
    then obtain p0 where p0: "aDD a t m = Some p0" by blast
    note f = dead_facts [OF core p0]
    have "aDD (set_d t m None None a) t' m = None" for t' using f(5) [of t'] by auto
    then show ?thesis
      unfolding a_redrive(1)
      using core_enqueue [OF core_unbury [OF core, of t m] _ f(1) a_redrive(3,4), of sc] fin f(4) a_redrive(3) by simp
  next
    case (a_purge t)
    then show ?thesis using core_purge [OF core] by simp
  next
    case (a_refresh q)
    then show ?thesis using core_refresh [OF core fin, of q] by simp
  next
    case (a_forget q i)
    then show ?thesis using core_forget [OF core] by blast
  qed
  then show ?thesis using fin' by (simp add: fq_inv_def)
qed

end
