(* ===== verification/Fair_Queue_Life.thy ===== *)
theory Fair_Queue_Life
  imports Fair_Queue_Invariant
begin

text \<open>
  The life cycle of a message of the fair queue, as a specification: absent, queued with a score, in flight
  with a deadline, or dead. Every transition of the store is a step of it, so that a message that was
  enqueued is never lost: it leaves the system only from flight (completed, or discarded where the dead
  letter queue is off) or by a purge of the dead letter queue.
\<close>

datatype msg_phase = MAbsent | MQueued time | MInFlight time | MDead

definition msg_phase_of :: "'s fq_deps \<Rightarrow> (string \<Rightarrow> string) \<Rightarrow> fstore \<Rightarrow> string \<Rightarrow> msg_phase" where
  "msg_phase_of d home a m =
     (if \<not> good_id m then MAbsent
      else case aQ a (home m) m of
             Some sc \<Rightarrow> MQueued sc
           | None \<Rightarrow>
               (case aF a (getShardForQueue d (home m)) (makeMember m (home m)) of
                  Some dl \<Rightarrow> MInFlight dl
                | None \<Rightarrow> if \<exists>t. aD a t m \<noteq> None then MDead else MAbsent))"

inductive msg_step :: "(string \<Rightarrow> msg_phase) \<Rightarrow> (string \<Rightarrow> msg_phase) \<Rightarrow> bool" where
  msg_enqueue: "ph m \<in> insert MAbsent (range MQueued) \<Longrightarrow> msg_step ph (ph(m := MQueued t))"
| msg_claim: "ph m \<in> range MQueued \<Longrightarrow> msg_step ph (ph(m := MInFlight dl))"
| msg_release: "ph m \<in> range MInFlight \<Longrightarrow> msg_step ph (ph(m := MQueued t))"
| msg_beat: "ph m \<in> range MInFlight \<Longrightarrow> msg_step ph (ph(m := MInFlight dl))"
| msg_finish: "ph m \<in> range MInFlight \<Longrightarrow> msg_step ph (ph(m := MAbsent))"
| msg_bury: "ph m \<in> range MInFlight \<Longrightarrow> msg_step ph (ph(m := MDead))"
| msg_redrive: "ph m = MDead \<Longrightarrow> msg_step ph (ph(m := MQueued t))"
| msg_purge: "\<forall>m \<in> S. ph m = MDead \<Longrightarrow> msg_step ph (\<lambda>m. if m \<in> S then MAbsent else ph m)"

inductive_cases msg_stepE: "msg_step ph ph'"

subsection \<open>Phases\<close>

lemma member_none:
  assumes "fq_core d home X a" and "good_id m" and "aFD a i m = None"
  shows "aF a i (makeMember m (home m)) = None"
proof (rule ccontr)
  assume "aF a i (makeMember m (home m)) \<noteq> None"
  then obtain m' where m': "makeMember m (home m) = makeMember m' (home m')" "aFD a i m' \<noteq> None" "good_id m'"
    using member_home [OF fq_coreD(2) [OF assms(1)]] by blast
  then have "m' = m" using assms(2) by (auto simp: good_id_def makeMember_inject)
  then show False using m'(2) assms(3) by simp
qed

lemma queue_score: "fq_core d home X a \<Longrightarrow> aQ a q m = None \<longleftrightarrow> aI a q m = None"
  using fq_coreD(1) unfolding queues_ok_def by blast

lemma dead_score: "fq_core d home X a \<Longrightarrow> aD a t m = None \<longleftrightarrow> aDD a t m = None"
  using fq_coreD(3) unfolding dead_ok_def by blast

lemma phase_queued:
  assumes "fq_core d home X a" and "aI a (home m) m \<noteq> None"
  shows "msg_phase_of d home a m \<in> range MQueued"
proof -
  obtain p where "aI a (home m) m = Some p" using assms(2) by blast
  from queued_facts [OF assms(1) this] show ?thesis by (auto simp: msg_phase_of_def split: option.split)
qed

lemma phase_inflight:
  assumes "fq_core d home X a" and "aFD a (getShardForQueue d (home m)) m \<noteq> None"
  shows "msg_phase_of d home a m \<in> range MInFlight"
proof -
  obtain p where "aFD a (getShardForQueue d (home m)) m = Some p" using assms(2) by blast
  note f = inflight_facts [OF assms(1) this]
  have "aQ a (home m) m = None" using f(4) queue_score [OF assms(1)] by simp
  then show ?thesis using f(2,6) by (auto simp: msg_phase_of_def split: option.split)
qed

lemma phase_dead:
  assumes "fq_core d home X a" and "aDD a t m \<noteq> None"
  shows "msg_phase_of d home a m = MDead"
proof -
  obtain p where "aDD a t m = Some p" using assms(2) by blast
  note f = dead_facts [OF assms(1) this]
  have "aQ a (home m) m = None" "aD a t m \<noteq> None" using f(3) assms(2) queue_score [OF assms(1)] dead_score [OF assms(1)] by simp_all
  then show ?thesis using f(1) member_none [OF assms(1) f(1) f(4)] by (auto simp: msg_phase_of_def)
qed

lemma phase_absent:
  assumes "fq_core d home X a" and "aI a (home m) m = None" and "aFD a (getShardForQueue d (home m)) m = None"
    and "\<And>t. aDD a t m = None"
  shows "msg_phase_of d home a m = MAbsent"
proof (cases "good_id m")
  case True
  have "aQ a (home m) m = None" "\<And>t. aD a t m = None"
    using assms(2,4) queue_score [OF assms(1)] dead_score [OF assms(1)] by simp_all
  then show ?thesis using member_none [OF assms(1) True assms(3)] by (auto simp: msg_phase_of_def)
qed (simp add: msg_phase_of_def)

text \<open>A transition that touches one message.\<close>

lemma phase_one:
  assumes "\<And>m'. good_id m' \<Longrightarrow> m' \<noteq> m \<Longrightarrow> aQ a' (home m') m' = aQ a (home m') m'
      \<and> aF a' (getShardForQueue d (home m')) (makeMember m' (home m')) = aF a (getShardForQueue d (home m')) (makeMember m' (home m'))
      \<and> (\<forall>t. aD a' t m' = aD a t m')"
  shows "msg_phase_of d home a' = (msg_phase_of d home a)(m := msg_phase_of d home a' m)"
proof
  fix m'
  show "msg_phase_of d home a' m' = ((msg_phase_of d home a)(m := msg_phase_of d home a' m)) m'"
  proof (cases "good_id m' \<and> m' \<noteq> m")
    case True
    then have "aQ a' (home m') m' = aQ a (home m') m'" "aD a' t m' = aD a t m'"
      "aF a' (getShardForQueue d (home m')) (makeMember m' (home m')) = aF a (getShardForQueue d (home m')) (makeMember m' (home m'))"
      for t using assms [of m'] by simp_all
    then show ?thesis using True by (simp only: msg_phase_of_def fun_upd_other [of m' m] simp_thms)
  next
    case False
    then show ?thesis by (cases "m' = m") (simp_all add: msg_phase_of_def)
  qed
qed

lemma phase_same:
  assumes "aQ a' = aQ a" and "aF a' = aF a" and "aD a' = aD a"
  shows "msg_phase_of d home a' = msg_phase_of d home a"
  by (intro ext) (simp only: msg_phase_of_def assms)

lemma good_members: "good_id m \<Longrightarrow> good_id m' \<Longrightarrow> m' \<noteq> m \<Longrightarrow> makeMember m' q' \<noteq> makeMember m q"
  by (simp add: good_id_def makeMember_inject)

subsection \<open>Steps\<close>

theorem a_step_life:
  assumes "a_step d home a a'" and "fq_inv d home a"
  shows "msg_phase_of d home a' = msg_phase_of d home a \<or> msg_step (msg_phase_of d home a) (msg_phase_of d home a')"
proof -
  let ?ph = "msg_phase_of d home a" and ?ph' = "msg_phase_of d home a'"
  note core = fq_invD(1) [OF assms(2)] and core' = fq_invD(1) [OF a_step_inv [OF assms]]
  show ?thesis
    using assms(1)
  proof cases
    case (a_enqueue m q p sc)
    have "?ph' = ?ph(m := ?ph' m)" by (rule phase_one) (simp add: a_enqueue(1) a_enqueue_def)
    moreover have "?ph' m = MQueued sc" using a_enqueue(2,3) by (simp add: a_enqueue(1) a_enqueue_def msg_phase_of_def)
    moreover have "?ph m \<in> insert MAbsent (range MQueued)"
      using phase_queued [OF core] phase_absent [OF core, of m] a_enqueue(3,5,6) by (cases "aI a (home m) m") auto
    ultimately show ?thesis using msg_enqueue [of ?ph m sc] by simp
  next
    case (a_claim q m p dl)
    note f = queued_facts [OF core a_claim(2)]
    have "?ph' = ?ph(m := ?ph' m)" using good_members [OF f(2)] by (intro phase_one) (auto simp: a_claim(1) a_claim_def)
    moreover have "?ph' m = MInFlight dl" using f(1,2) by (simp add: a_claim(1) a_claim_def msg_phase_of_def)
    moreover have "?ph m \<in> range MQueued" using phase_queued [OF core, of m] a_claim(2) f(1) by simp
    ultimately show ?thesis using msg_claim [of ?ph m dl] by simp
  next
    case (a_release q m sc)
    then obtain p where p: "aFD a (getShardForQueue d q) m = Some p" by blast
    note f = inflight_facts [OF core p]
    have "?ph' = ?ph(m := ?ph' m)"
      using good_members [OF f(2)] p by (intro phase_one) (auto simp: a_release(1) a_release_def)
    moreover have "?ph' m = MQueued sc" using f(2) p a_release(3) by (simp add: a_release(1) a_release_def msg_phase_of_def)
    moreover have "?ph m \<in> range MInFlight" using phase_inflight [OF core, of m] p a_release(3) by simp
    ultimately show ?thesis using msg_release [of ?ph m sc] by simp
  next
    case (a_beat m dl)
    have fd: "aFD a (getShardForQueue d (home m)) m \<noteq> None" 
      using member_none [OF core a_beat(2), of "getShardForQueue d (home m)"] a_beat(3) by blast
    have "aFD a' (getShardForQueue d (home m)) m \<noteq> None" using fd by (simp add: a_beat(1))
    then have "?ph' m \<in> range MInFlight" by (rule phase_inflight [OF core'])
    moreover have "?ph' = ?ph(m := ?ph' m)" using good_members [OF a_beat(2)] by (intro phase_one) (auto simp: a_beat(1))
    ultimately show ?thesis using msg_beat [of ?ph m] phase_inflight [OF core fd] by (metis imageE)
  next
    case (a_finish m q)
    have ph': "?ph' = ?ph(m := ?ph' m)" using good_members [OF a_finish(2)] by (intro phase_one) (auto simp: a_finish(1))
    show ?thesis
    proof (cases "aFD a (getShardForQueue d (home m)) m")
      case None
      then have "(aF a (getShardForQueue d q))(makeMember m q := None) = aF a (getShardForQueue d q)"
        using member_none [OF core a_finish(2) None] a_finish(3) by (simp add: fun_upd_idem)
      then have "aF a' = aF a" unfolding a_finish(1) set_fields by (simp only: fun_upd_triv)
      moreover have "aQ a' = aQ a" "aD a' = aD a" unfolding a_finish(1) set_fields by (rule refl)+
      ultimately have "?ph' = ?ph" by (intro phase_same)
      then show ?thesis ..
    next
      case (Some p)
      note f = inflight_facts [OF core Some]
      have "?ph' m = MAbsent" using f(4,5) a_finish(1,3) by (intro phase_absent [OF core']) auto
      moreover have "?ph m \<in> range MInFlight" using phase_inflight [OF core, of m] Some by simp
      ultimately show ?thesis using ph' msg_finish [of ?ph m] by simp
    qed
  next
    case (a_bury q m t p sc)
    then obtain p0 where p: "aFD a (getShardForQueue d q) m = Some p0" by blast
    note f = inflight_facts [OF core p]
    have "?ph' = ?ph(m := ?ph' m)" using good_members [OF f(2)] by (intro phase_one) (auto simp: a_bury(1))
    moreover have "?ph' m = MDead" by (rule phase_dead [OF core', of t]) (simp add: a_bury(1))
    moreover have "?ph m \<in> range MInFlight" using phase_inflight [OF core, of m] p a_bury(3) by simp
    ultimately show ?thesis using msg_bury [of ?ph m] by simp
  next
    case (a_redrive t m q p sc)
    then obtain p0 where p: "aDD a t m = Some p0" by blast
    note f = dead_facts [OF core p]
    have "?ph' = ?ph(m := ?ph' m)" by (rule phase_one) (simp add: a_redrive(1) a_enqueue_def)
    moreover have "?ph' m = MQueued sc" using f(1) a_redrive(3) by (simp add: a_redrive(1) a_enqueue_def msg_phase_of_def)
    ultimately show ?thesis using msg_redrive [of ?ph m sc] phase_dead [OF core, of t m] p by simp
  next
    case (a_purge t)
    let ?S = "{m. aDD a t m \<noteq> None}"
    have "?ph' m = (if m \<in> ?S then MAbsent else ?ph m)" for m
    proof (cases "aDD a t m")
      case None
      then have "aD a' t' m = aD a t' m" for t' using dead_score [OF core, of t m] by (simp add: a_purge)
      moreover have "aQ a' = aQ a" "aF a' = aF a" by (simp_all add: a_purge)
      ultimately have "?ph' m = ?ph m" by (simp only: msg_phase_of_def)
      then show ?thesis using None by simp
    next
      case (Some p)
      note f = dead_facts [OF core Some]
      have "aDD a' t' m = None" for t' using f(5) [of t'] by (auto simp: a_purge)
      then show ?thesis using phase_absent [OF core', of m] f(3,4) Some by (simp add: a_purge)
    qed
    then have "?ph' = (\<lambda>m. if m \<in> ?S then MAbsent else ?ph m)" by blast
    moreover have "\<forall>m \<in> ?S. ?ph m = MDead" using phase_dead [OF core] by blast
    ultimately show ?thesis using msg_purge [of ?S ?ph] by simp
  next
    case (a_rewrite q m p)
    show ?thesis by (rule disjI1, rule phase_same) (simp_all add: a_rewrite(1))
  next
    case (a_refresh q)
    show ?thesis by (rule disjI1, rule phase_same) (simp_all add: a_refresh)
  next
    case (a_forget q i)
    show ?thesis by (rule disjI1, rule phase_same) (simp_all add: a_forget(1))
  qed
qed

lemma a_steps_inv: "(a_step d home)\<^sup>*\<^sup>* a a' \<Longrightarrow> fq_inv d home a \<Longrightarrow> fq_inv d home a'"
  by (induction rule: rtranclp_induct) (auto intro: a_step_inv)

lemma a_steps_life:
  "(a_step d home)\<^sup>*\<^sup>* a a' \<Longrightarrow> fq_inv d home a \<Longrightarrow> msg_step\<^sup>*\<^sup>* (msg_phase_of d home a) (msg_phase_of d home a')"
proof (induction rule: rtranclp_induct)
  case (step y z)
  then show ?case using a_step_life [OF step(2) a_steps_inv [OF step(1) step(4)]] by (auto intro: rtranclp.rtrancl_into_rtrancl)
qed simp

subsection \<open>Moves\<close>

text \<open>The transitions that only move messages: between a queue and flight, and in the master queue. They keep
  the text of every message.\<close>

inductive a_move :: "'s fq_deps \<Rightarrow> (string \<Rightarrow> string) \<Rightarrow> fstore \<Rightarrow> fstore \<Rightarrow> bool" for d home where
  mv_claim: "aI a q m = Some p \<Longrightarrow> a_move d home a (a_claim (getShardForQueue d q) q m dl p a)"
| mv_release: "aFD a (getShardForQueue d q) m \<noteq> None \<Longrightarrow> home m = q \<Longrightarrow>
    a_move d home a (refresh (getShardForQueue d q) q (a_release (getShardForQueue d q) q m sc a))"
| mv_refresh: "a_move d home a (refresh (getShardForQueue d q) q a)"
| mv_forget: "aQ a q = Map.empty \<Longrightarrow> a_move d home a (set_m i q None a)"

lemma move_step: "a_move d home a a' \<Longrightarrow> a_step d home a a'"
  by (induction rule: a_move.induct) (auto intro: a_step.intros)

lemma moves_steps: "(a_move d home)\<^sup>*\<^sup>* a a' \<Longrightarrow> (a_step d home)\<^sup>*\<^sup>* a a'"
  using rtranclp_mono [of "a_move d home" "a_step d home"] move_step by (metis predicate2I predicate2D)

text \<open>The text of a message that is queued or in flight.\<close>

definition msg_data :: "'s fq_deps \<Rightarrow> (string \<Rightarrow> string) \<Rightarrow> fstore \<Rightarrow> string \<Rightarrow> string option" where
  "msg_data d home a m =
     (case aI a (home m) m of Some p \<Rightarrow> Some p | None \<Rightarrow> aFD a (getShardForQueue d (home m)) m)"

lemma move_data:
  assumes "a_move d home a a'" and "fq_inv d home a"
  shows "msg_data d home a' = msg_data d home a"
  using assms(1)
proof cases
  case (mv_claim q m p dl)
  note f = queued_facts [OF fq_invD(1) [OF assms(2)] mv_claim(2)]
  show ?thesis
    by (intro ext) (use f mv_claim in \<open>auto simp: msg_data_def a_claim_def split: option.splits if_splits\<close>)
next
  case (mv_release q m sc)
  then obtain p where p: "aFD a (getShardForQueue d q) m = Some p" by blast
  note f = inflight_facts [OF fq_invD(1) [OF assms(2)] p]
  show ?thesis
    by (intro ext) (use f p mv_release in \<open>auto simp: msg_data_def a_release_def split: option.splits if_splits\<close>)
next
  case (mv_refresh q)
  then show ?thesis by (intro ext) (simp add: msg_data_def split: option.split)
next
  case (mv_forget q i)
  then show ?thesis by (intro ext) (simp add: msg_data_def split: option.split)
qed

lemma moves_data: "(a_move d home)\<^sup>*\<^sup>* a a' \<Longrightarrow> fq_inv d home a \<Longrightarrow> msg_data d home a' = msg_data d home a"
proof (induction rule: rtranclp_induct)
  case (step y z)
  then show ?case using move_data [OF step(2) a_steps_inv [OF moves_steps [OF step(1)]]] by simp
qed simp

lemma moves_dead: "(a_move d home)\<^sup>*\<^sup>* a a' \<Longrightarrow> aDD a' = aDD a"
proof (induction rule: rtranclp_induct)
  case (step y z)
  from step(2) have "aDD z = aDD y" by cases (simp_all add: a_claim_def a_release_def split: option.split)
  then show ?case using step(3) by simp
qed simp

end
