(* ===== verification/Fair_Queue_Steps.thy ===== *)
theory Fair_Queue_Steps
  imports Fair_Queue_Life
begin

text \<open>
  Every operation of the fair queue is a sequence of the store's elementary transitions. So the invariant
  and the life cycle, which are proved for the transitions, hold for the operations in any order.
\<close>

text \<open>What the orchestrator relies on of a scheduler: it does not touch the messages, the concurrency sets or
  the worker queues, and it selects queues of the master queue it is given.\<close>

locale scheduler_laws =
  fixes d :: "'s fq_deps" and sch :: "('s, 'c) fair_scheduler"
  assumes select_store: "selectQueues sch now k loopId (s, c) = (out, s', c') \<Longrightarrow> fabs d s' = fabs d s"
    and select_listed: "selectQueues sch now (kMaster d i) loopId (s, c) = (Inr tqs, s', c') \<Longrightarrow>
      (t, qs) \<in> set tqs \<Longrightarrow> q \<in> set qs \<Longrightarrow> aM (fabs d s) i q \<noteq> None"
    and record_store: "fabs d (fst (recordProcessedBatch sch t q n (s, c))) = fabs d s"
    and select_rest: "selectQueues sch now k loopId (s, c) = (out, s', c') \<Longrightarrow>
      v_set (rview (d_srv d) s') = v_set (rview (d_srv d) s) \<and> v_list (rview (d_srv d) s') = v_list (rview (d_srv d) s)"
    and record_rest: "v_set (rview (d_srv d) (fst (recordProcessedBatch sch t q n (s, c)))) = v_set (rview (d_srv d) s)
      \<and> v_list (rview (d_srv d) (fst (recordProcessedBatch sch t q n (s, c)))) = v_list (rview (d_srv d) s)"

subsection \<open>What the shard pass keeps\<close>

text \<open>A property of the keyspace that a claim and the scheduler keep is kept by the loops of the shard pass.\<close>

lemma tenant_loop_keeps:
  fixes st :: "('s, 'c) fq_state"
  assumes "\<And>(st :: ('s, 'c) fq_state) q. q \<in> set qs \<Longrightarrow> P (fqs_redis st) \<Longrightarrow> P (fqs_redis (snd (claimAndPushToWorkerQueue d now loopId q t i st)))"
    and "\<And>q n s c. P s \<Longrightarrow> P (fst (recordProcessedBatch sch t q n (s, c)))" and "P (fqs_redis st)"
  shows "P (fqs_redis (snd (tenant_loop d sch now loopId i t qs st)))"
  using assms(1,3)
proof (induction qs arbitrary: st)
  case (Cons q qs)
  obtain cool states where c: "(if d_cooloffEnabled d then isInCooloff now q (fqs_cooloff st) else (False, fqs_cooloff st)) = (cool, states)"
    by fastforce
  let ?st = "st\<lparr>fqs_cooloff := states\<rparr>"
  have P: "P (fqs_redis ?st)" using Cons.prems(2) by simp
  show ?case
  proof (cases cool)
    case True
    then show ?thesis using Cons.IH [OF _ P] Cons.prems(1) unfolding tenant_loop.simps c by (simp add: Let_def)
  next
    case cold: False
    obtain chk where chk: "(if d_groups d = [] then Inr False else isAtCapacity d ''tenant'' t (fqs_redis ?st)) = chk" by blast
    show ?thesis
    proof (cases "chk = Inr False")
      case False
      then have "fqs_redis (snd (tenant_loop d sch now loopId i t (q # qs) st)) = fqs_redis st"
        using cold unfolding tenant_loop.simps c Let_def case_prod_conv chk by (auto split: sum.split bool.split)
      then show ?thesis using Cons.prems(2) by simp
    next
      case True
      obtain n st1 where cp: "claimAndPushToWorkerQueue d now loopId q t i ?st = (n, st1)" by fastforce
      have P1: "P (fqs_redis st1)" using Cons.prems(1) [of q ?st] P cp by simp
      define st2 where "st2 = (if n > 0 then
         (let (s, c) = recordProcessedBatch sch t q n (fqs_redis st1, fqs_sched st1) in st1\<lparr>fqs_redis := s, fqs_sched := c\<rparr>) else st1)"
      have "P (fqs_redis st2)" using P1 assms(2) by (simp add: st2_def case_prod_beta)
      then have "P (fqs_redis (snd (tenant_loop d sch now loopId i t qs st2)))" using Cons.IH Cons.prems(1) by simp
      moreover have "snd (tenant_loop d sch now loopId i t (q # qs) st) = snd (tenant_loop d sch now loopId i t qs st2)"
        using cold True unfolding tenant_loop.simps c Let_def case_prod_conv chk
        by (simp add: cp st2_def Let_def split: sum.split prod.split)
      ultimately show ?thesis by simp
    qed
  qed
qed simp

lemma shard_loop_keeps:
  fixes st :: "('s, 'c) fq_state"
  assumes "\<And>(st :: ('s, 'c) fq_state) t qs q. (t, qs) \<in> set tqs \<Longrightarrow> q \<in> set qs \<Longrightarrow> P (fqs_redis st) \<Longrightarrow>
      P (fqs_redis (snd (claimAndPushToWorkerQueue d now loopId q t i st)))"
    and "\<And>t q n s c. P s \<Longrightarrow> P (fst (recordProcessedBatch sch t q n (s, c)))" and "P (fqs_redis st)"
  shows "P (fqs_redis (snd (shard_loop d sch now loopId i tqs st)))"
  using assms(1,3)
proof (induction tqs arbitrary: st)
  case (Cons tq tqs)
  obtain t qs where tq: "tq = (t, qs)" by fastforce
  obtain r st1 where l: "tenant_loop d sch now loopId i t qs st = (r, st1)" by fastforce
  have "P (fqs_redis (snd (tenant_loop d sch now loopId i t qs st)))"
    by (rule tenant_loop_keeps) (use Cons.prems assms(2) tq in auto)
  then have "P (fqs_redis st1)" by (simp add: l)
  then have "P (fqs_redis (snd (shard_loop d sch now loopId i tqs st1)))" by (intro Cons.IH) (auto intro: Cons.prems(1))
  then show ?case using \<open>P (fqs_redis st1)\<close> by (cases r) (auto simp: tq l split: prod.split sum.split)
qed simp

lemma shard_pass_keeps:
  fixes st0 :: "('s, 'c) fq_state"
  assumes "\<And>tqs s c (st :: ('s, 'c) fq_state) t qs q. selectQueues sch now (kMaster d i) loopId (fqs_redis st0, fqs_sched st0) = (Inr tqs, s, c) \<Longrightarrow>
      (t, qs) \<in> set tqs \<Longrightarrow> q \<in> set qs \<Longrightarrow> P (fqs_redis st) \<Longrightarrow>
      P (fqs_redis (snd (claimAndPushToWorkerQueue d now loopId q t i st)))"
    and "\<And>t q n s c. P s \<Longrightarrow> P (fst (recordProcessedBatch sch t q n (s, c)))"
    and "\<And>out s c. selectQueues sch now (kMaster d i) loopId (fqs_redis st0, fqs_sched st0) = (out, s, c) \<Longrightarrow> P s"
  shows "P (fqs_redis (snd (fq_processMasterQueueShard d sch now loopId i st0)))"
proof -
  obtain r s c where sel: "selectQueues sch now (kMaster d i) loopId (fqs_redis st0, fqs_sched st0) = (r, s, c)" by (metis prod_cases3)
  note Ps = assms(3) [OF sel]
  show ?thesis
  proof (cases r)
    case (Inl e)
    then show ?thesis using Ps sel by (simp add: fq_processMasterQueueShard_def)
  next
    case (Inr tqs)
    have "P (fqs_redis (snd (shard_loop d sch now loopId i tqs (st0\<lparr>fqs_redis := s, fqs_sched := c\<rparr>))))"
    proof (rule shard_loop_keeps)
      show "P (fqs_redis (st0\<lparr>fqs_redis := s, fqs_sched := c\<rparr>))" using Ps by simp
    qed (use assms(1) [OF sel [unfolded Inr]] assms(2) in blast)+
    then show ?thesis using sel Inr by (auto simp: fq_processMasterQueueShard_def split: prod.split sum.split)
  qed
qed

locale fair_queue_home = fair_server d for d :: "'s fq_deps" +
  fixes home :: "string \<Rightarrow> string"
begin

abbreviation sh :: "string \<Rightarrow> int" where "sh q \<equiv> getShardForQueue d q"

abbreviation steps :: "fstore \<Rightarrow> fstore \<Rightarrow> bool" where "steps \<equiv> (a_step d home)\<^sup>*\<^sup>*"

abbreviation moves :: "fstore \<Rightarrow> fstore \<Rightarrow> bool" where "moves \<equiv> (a_move d home)\<^sup>*\<^sup>*"

lemma refresh_absorb:
  "refresh i q (set_q q m (Some sc) p (refresh i q a)) = refresh i q (set_q q m (Some sc) p a)"
proof -
  have "(aQ a q)(m := Some sc) \<noteq> Map.empty" by (metis fun_upd_same option.distinct(1))
  then obtain x where "min_score ((aQ a q)(m := Some sc)) = Some x" by (simp add: min_score_def)
  then show ?thesis by (cases "min_score (aQ a q)") (simp_all add: refresh_def set_q_def set_m_def)
qed

subsection \<open>Enqueueing\<close>

lemma stored_payload_ok:
  "home m = q \<Longrightarrow> tenant_ok d t \<Longrightarrow> payload_ok d home m (d_stringify d (stored_of d m q t pl ts md))"
  by (simp add: payload_ok_def parse_stringify stored_of_def)

lemma enqueue_steps:
  assumes "fq_enqueue d now nano opts st = (out, st')" and "m = with_default (eo_messageId opts) nano"
    and "good_id m" and "home m = eo_queueId opts" and "tenant_ok d (eo_tenantId opts)"
    and "aFD (fabs d (fqs_redis st)) (sh (home m)) m = None" and "\<forall>t. aDD (fabs d (fqs_redis st)) t m = None"
  shows "steps (fabs d (fqs_redis st)) (fabs d (fqs_redis st'))"
proof (cases "d_accepts d (eo_payload opts)")
  case False
  then show ?thesis using assms(1) by (simp add: fq_enqueue_def)
next
  case True
  have "fabs d (fqs_redis st') = a_enqueue (sh (home m)) (home m) m (with_default (eo_timestamp opts) now)
      (d_stringify d (stored_of d m (home m) (eo_tenantId opts) (eo_payload opts) (with_default (eo_timestamp opts) now) (eo_metadata opts)))
      (fabs d (fqs_redis st))"
    using assms(1,2,4) True by (auto simp: fq_enqueue_def Let_def fabs_enqueue)
  then show ?thesis
    using a_step.a_enqueue [of m home "home m" d _ "fabs d (fqs_redis st)"] stored_payload_ok [OF refl assms(5)] assms(3,6,7) by auto
qed

definition puts :: "string \<Rightarrow> (string \<times> time \<times> string) list \<Rightarrow> fstore \<Rightarrow> fstore" where
  "puts q args a = fold (\<lambda>(m, sc, p) a. set_q q m (Some sc) (Some p) a) args a"

lemma puts_fields [simp]: "aFD (puts q args a) = aFD a" "aDD (puts q args a) = aDD a"
  unfolding puts_def by (induction args arbitrary: a) auto

lemma puts_steps:
  assumes "\<And>m sc p. (m, sc, p) \<in> set args \<Longrightarrow> good_id m \<and> home m = q \<and> payload_ok d home m p
      \<and> aFD a (sh q) m = None \<and> (\<forall>t. aDD a t m = None)"
  shows "steps a (refresh (sh q) q (puts q args a))"
  using assms
proof (induction args rule: rev_induct)
  case Nil
  show ?case using a_refresh [of d home a q] by (auto simp: puts_def)
next
  case (snoc x args)
  obtain m sc p where x: "x = (m, sc, p)" by (cases x) auto
  have g: "good_id m" "home m = q" "payload_ok d home m p" "aFD a (sh q) m = None" "\<forall>t. aDD a t m = None"
    using snoc.prems [of m sc p] x by simp_all
  have "steps a (refresh (sh q) q (puts q args a))" by (rule snoc.IH) (use snoc.prems in auto)
  moreover have "a_step d home (refresh (sh q) q (puts q args a)) (a_enqueue (sh q) q m sc p (refresh (sh q) q (puts q args a)))"
    using g by (intro a_step.a_enqueue) simp_all
  moreover have "a_enqueue (sh q) q m sc p (refresh (sh q) q (puts q args a)) = refresh (sh q) q (puts q (args @ [x]) a)"
    unfolding a_enqueue_def refresh_absorb by (simp add: puts_def x)
  ultimately show ?case by (metis rtranclp.rtrancl_into_rtrancl)
qed

lemma fabs_enqueueBatch:
  "fabs d (enqueueBatchAtomic (d_srv d) (kQ d q) (kQItems d q) (kMaster d i) q args s) = refresh i q (puts q args (fabs d s))"
proof -
  have "fabs d (fold (\<lambda>(m, sc, p) s. hSET (d_srv d) (kQItems d q) m p (zADD (d_srv d) (kQ d q) sc m s)) args s) = puts q args (fabs d s)" for s
    unfolding puts_def by (induction args arbitrary: s) (auto simp: fabs_zsets fabs_hashes set_q_def)
  then show ?thesis by (simp add: enqueueBatchAtomic_def fabs_update_master)
qed

lemma batch_args_payload:
  "batch_args d now nanos opts ms = Inr args \<Longrightarrow> (m, sc, p) \<in> set args \<Longrightarrow>
    \<exists>pl. p = d_stringify d (stored_of d m (bo_queueId opts) (bo_tenantId opts) pl sc (bo_metadata opts))"
  by (induction ms arbitrary: nanos args) (auto simp: Let_def split: if_splits sum.splits)

lemma enqueueBatch_steps:
  assumes "fq_enqueueBatch d now nanos opts st = (out, st')" and "tenant_ok d (bo_tenantId opts)"
    and "\<And>ids m. out = Inr ids \<Longrightarrow> m \<in> set ids \<Longrightarrow> good_id m \<and> home m = bo_queueId opts
      \<and> aFD (fabs d (fqs_redis st)) (sh (home m)) m = None \<and> (\<forall>t. aDD (fabs d (fqs_redis st)) t m = None)"
  shows "steps (fabs d (fqs_redis st)) (fabs d (fqs_redis st'))"
proof (cases "batch_args d now nanos opts (bo_messages opts)")
  case (Inl e)
  then show ?thesis using assms(1) by (auto simp: fq_enqueueBatch_def Let_def)
next
  case (Inr args)
  then have st': "fabs d (fqs_redis st') = refresh (sh (bo_queueId opts)) (bo_queueId opts) (puts (bo_queueId opts) args (fabs d (fqs_redis st)))"
    and out: "out = Inr (map fst args)"
    using assms(1) by (auto simp: fq_enqueueBatch_def Let_def fabs_enqueueBatch)
  show ?thesis
    unfolding st'
  proof (rule puts_steps)
    fix m sc p
    assume x: "(m, sc, p) \<in> set args"
    then have "m \<in> set (map fst args)" by force
    note g = assms(3) [OF out this]
    obtain pl where "p = d_stringify d (stored_of d m (bo_queueId opts) (bo_tenantId opts) pl sc (bo_metadata opts))"
      using batch_args_payload [OF Inr x] by blast
    then show "good_id m \<and> home m = bo_queueId opts \<and> payload_ok d home m p
      \<and> aFD (fabs d (fqs_redis st)) (sh (bo_queueId opts)) m = None \<and> (\<forall>t. aDD (fabs d (fqs_redis st)) t m = None)"
      using g stored_payload_ok [of m "bo_queueId opts" "bo_tenantId opts"] assms(2) by auto
  qed
qed

subsection \<open>Claiming\<close>

text \<open>The listed messages are still there when their turn comes, so each is claimed.\<close>

lemma claim_loop_moves:
  assumes "fq_inv d home (fabs d s)" and "distinct ms" and "\<forall>m \<in> set ms. aI (fabs d s) q m \<noteq> None"
    and "claimBatch_loop (d_srv d) (kQ d q) (kQItems d q) (kInflight d (sh q)) (kInflightData d (sh q)) q dl ms s = (res, s')"
  shows "moves (fabs d s) (fabs d s') \<and> res = map (\<lambda>m. (m, the (aI (fabs d s) q m))) ms
    \<and> (\<forall>x. aF (fabs d s') (sh q) x = (if x \<in> (\<lambda>m. makeMember m q) ` set ms then Some dl else aF (fabs d s) (sh q) x))
    \<and> (\<forall>m. aQ (fabs d s') q m = (if m \<in> set ms then None else aQ (fabs d s) q m))"
  using assms
proof (induction ms arbitrary: s res)
  case (Cons m ms)
  obtain p where p: "aI (fabs d s) q m = Some p" using Cons.prems(3) by auto
  let ?s = "claim_one (d_srv d) (kQ d q) (kQItems d q) (kInflight d (sh q)) (kInflightData d (sh q)) q dl m p s"
  obtain res1 s1 where loop: "claimBatch_loop (d_srv d) (kQ d q) (kQItems d q) (kInflight d (sh q)) (kInflightData d (sh q)) q dl ms ?s = (res1, s1)"
    by fastforce
  have res: "res = (m, p) # res1" and s1: "s1 = s'" using Cons.prems(4) p loop by simp_all
  have step: "a_move d home (fabs d s) (fabs d ?s)" unfolding fabs_claim_one by (rule mv_claim [OF p])
  have same: "\<forall>m' \<in> set ms. aI (fabs d ?s) q m' = aI (fabs d s) q m'"
    using Cons.prems(2) by (auto simp: fabs_claim_one a_claim_def)
  have IH: "moves (fabs d ?s) (fabs d s')" "res1 = map (\<lambda>m. (m, the (aI (fabs d ?s) q m))) ms"
    "\<And>x. aF (fabs d s') (sh q) x = (if x \<in> (\<lambda>m. makeMember m q) ` set ms then Some dl else aF (fabs d ?s) (sh q) x)"
    "\<And>m. aQ (fabs d s') q m = (if m \<in> set ms then None else aQ (fabs d ?s) q m)"
    using Cons.IH [OF a_step_inv [OF move_step [OF step] Cons.prems(1)] _ _ loop [unfolded s1]] Cons.prems(2,3) same by simp_all
  have "moves (fabs d s) (fabs d s')" using step IH(1) by (rule converse_rtranclp_into_rtranclp)
  moreover have "res = map (\<lambda>m. (m, the (aI (fabs d s) q m))) (m # ms)" using res IH(2) same p by simp
  moreover have "aF (fabs d s') (sh q) x = (if x \<in> (\<lambda>m. makeMember m q) ` set (m # ms) then Some dl else aF (fabs d s) (sh q) x)" for x
    using IH(3) [of x] by (simp add: fabs_claim_one a_claim_def)
  moreover have "aQ (fabs d s') q m' = (if m' \<in> set (m # ms) then None else aQ (fabs d s) q m')" for m'
    using IH(4) [of m'] by (simp add: fabs_claim_one a_claim_def)
  ultimately show ?case by blast
qed simp

text \<open>The messages that a batch claim takes: the earliest \<open>maxCount\<close> of the queue, due or not.\<close>

definition claimable :: "string \<Rightarrow> int \<Rightarrow> fstore \<Rightarrow> string list" where
  "claimable q maxCount a = map fst (redis_slice 0 (maxCount - 1) (zsorted (aQ a q)))"

lemma claimable_queued:
  assumes "fq_inv d home a"
  shows "distinct (claimable q n a)" and "\<forall>m \<in> set (claimable q n a). aI a q m \<noteq> None"
proof -
  note fin = fq_invD(2) [OF assms, of q]
  obtain k where k: "redis_slice 0 (n - 1) (zsorted (aQ a q)) = take k (zsorted (aQ a q))" by (simp add: redis_slice_def)
  show "distinct (claimable q n a)"
    using distinct_fst_zsorted [OF fin] by (simp add: claimable_def k take_map [symmetric])
  have "aQ a q m \<noteq> None" if "m \<in> set (claimable q n a)" for m
    using that set_zsorted [OF fin] by (auto simp: claimable_def k dest!: in_set_takeD)
  then show "\<forall>m \<in> set (claimable q n a). aI a q m \<noteq> None"
    using queue_score [OF fq_invD(1) [OF assms]] by blast
qed

lemma parse_claimed_all:
  assumes "\<forall>(m, p) \<in> set res. good_id m \<and> payload_ok d home m p"
  shows "snd (parse_claimed d i q c dl res s) = s \<and> map im_messageId (fst (parse_claimed d i q c dl res s)) = map fst res
    \<and> (\<forall>x \<in> set (fst (parse_claimed d i q c dl res s)). im_queueId x = q \<and> im_deadline x = dl \<and> sm_id (im_payload x) = im_messageId x)"
  using assms
proof (induction res)
  case (Cons r res)
  obtain m p where r: "r = (m, p)" by fastforce
  obtain msg where "d_parse d p = Some msg" "sm_id msg = m" "p \<noteq> []" "m \<noteq> []"
    using Cons.prems r by (auto simp: payload_ok_def good_id_def split: option.splits)
  then show ?case using Cons r by (simp add: case_prod_beta)
qed simp

lemma claimBatch_moves:
  assumes "fq_inv d home (fabs d s)" and "claimBatch d now q c n vt s = (ms, s')"
  shows "moves (fabs d s) (fabs d s')" and "map im_messageId ms = claimable q n (fabs d s)"
    and "aF (fabs d s') (sh q) x = (if x \<in> (\<lambda>m. makeMember m q) ` set (claimable q n (fabs d s))
      then Some (now + with_default vt (d_visibilityTimeoutMs d)) else aF (fabs d s) (sh q) x)"
    and "aQ (fabs d s') q m = (if m \<in> set (claimable q n (fabs d s)) then None else aQ (fabs d s) q m)"
proof -
  let ?dl = "now + with_default vt (d_visibilityTimeoutMs d)" and ?ids = "claimable q n (fabs d s)"
  have ids: "map fst (zRANGE (d_srv d) (kQ d q) 0 (n - 1) s) = ?ids" by (simp add: claimable_def zRANGE_view fabs_defs)
  obtain res s1 where loop: "claimBatch_loop (d_srv d) (kQ d q) (kQItems d q) (kInflight d (sh q)) (kInflightData d (sh q)) q ?dl ?ids s = (res, s1)"
    by fastforce
  note l = claim_loop_moves [OF assms(1) claimable_queued [OF assms(1)] loop]
  have "\<forall>(m, p) \<in> set res. good_id m \<and> payload_ok d home m p"
    using l claimable_queued(2) [OF assms(1), of q n] queued_facts(2,3) [OF fq_invD(1) [OF assms(1)]] by fastforce
  from parse_claimed_all [OF this, of "sh q" q c ?dl s1]
  have "s' = s1" "map im_messageId ms = map fst res"
    using assms(2) loop by (simp_all add: claimBatch_def claimMessageBatch_script_def ids shard_same)
  then show "moves (fabs d s) (fabs d s')" and "map im_messageId ms = ?ids"
    and "aF (fabs d s') (sh q) x = (if x \<in> (\<lambda>m. makeMember m q) ` set ?ids then Some ?dl else aF (fabs d s) (sh q) x)"
    and "aQ (fabs d s') q m = (if m \<in> set ?ids then None else aQ (fabs d s) q m)"
    using l by (simp_all add: comp_def)
qed

subsection \<open>Releasing\<close>

lemma release_absorb:
  "aFD a i m \<noteq> None \<Longrightarrow> refresh i q (a_release i q m sc (refresh i q a)) = refresh i q (a_release i q m sc a)"
proof -
  assume "aFD a i m \<noteq> None"
  then obtain p where p: "aFD a i m = Some p" by blast
  have "set_f i q m None None (refresh i q a) = refresh i q (set_f i q m None None a)"
    by (simp add: refresh_def set_f_def set_m_def split: option.split)
  then show ?thesis by (simp add: a_release_def p refresh_absorb)
qed

fun releases :: "int \<Rightarrow> string \<Rightarrow> time \<Rightarrow> string list \<Rightarrow> fstore \<Rightarrow> fstore" where
  "releases i q sc [] a = a"
| "releases i q sc (m # ms) a = releases i q sc ms (a_release i q m sc a)"

lemma releaseBatch_loop_abs:
  "fabs d (snd (releaseBatch_loop (d_srv d) (kInflight d i) (kInflightData d i) (kQ d q) (kQItems d q) sc
      (map (\<lambda>m. (makeMember m q, m)) ms) s)) = releases i q sc ms (fabs d s)
   \<and> (fst (releaseBatch_loop (d_srv d) (kInflight d i) (kInflightData d i) (kQ d q) (kQItems d q) sc
      (map (\<lambda>m. (makeMember m q, m)) ms) s) = 0 \<longrightarrow> releases i q sc ms (fabs d s) = fabs d s)"
proof (induction ms arbitrary: s)
  case (Cons m ms)
  show ?case
  proof (cases "aFD (fabs d s) i m")
    case None
    then show ?thesis using Cons.IH [of s] by (simp add: a_release_def)
  next
    case (Some p)
    let ?s = "hSET (d_srv d) (kQItems d q) m p (zADD (d_srv d) (kQ d q) sc m
      (hDEL (d_srv d) (kInflightData d i) m (zREM (d_srv d) (kInflight d i) (makeMember m q) s)))"
    have "fabs d ?s = a_release i q m sc (fabs d s)"
      by (simp add: fabs_zsets fabs_hashes a_release_def Some set_q_def set_f_def)
    then show ?thesis using Cons.IH [of ?s] Some by (simp add: Let_def case_prod_beta)
  qed
qed simp

lemma releases_moves:
  assumes "\<forall>m \<in> set ms. home m = q"
  shows "moves a (refresh (sh q) q (releases (sh q) q sc ms a))"
  using assms
proof (induction ms arbitrary: a rule: rev_induct)
  case Nil
  show ?case using mv_refresh [of d home a q] by auto
next
  case (snoc m ms)
  let ?a = "releases (sh q) q sc ms a"
  have eq: "releases (sh q) q sc (ms @ [m]) a = a_release (sh q) q m sc ?a"
    by (induction ms arbitrary: a) simp_all
  have IH: "moves a (refresh (sh q) q ?a)" using snoc by simp
  show ?case
  proof (cases "aFD ?a (sh q) m = None")
    case True
    then show ?thesis using IH by (simp add: eq a_release_def)
  next
    case False
    then have "a_move d home (refresh (sh q) q ?a) (refresh (sh q) q (a_release (sh q) q m sc (refresh (sh q) q ?a)))"
      using snoc.prems by (intro mv_release) simp_all
    then show ?thesis using IH False by (simp add: eq release_absorb)
  qed
qed

lemma v_releaseBatch_moves:
  assumes "\<forall>m \<in> set ms. home m = q"
  shows "moves (fabs d s) (fabs d (v_releaseBatch d now ms q (kMaster d (sh q)) score s))"
proof -
  let ?r = "releaseBatch_loop (d_srv d) (kInflight d (sh q)) (kInflightData d (sh q)) (kQ d q) (kQItems d q)
    (with_default score now) (map (\<lambda>m. (makeMember m q, m)) ms) s"
  note l = releaseBatch_loop_abs [of "sh q" q "with_default score now" ms s]
  have "fabs d (v_releaseBatch d now ms q (kMaster d (sh q)) score s) =
      (if ms = [] then fabs d s else if fst ?r > 0 then refresh (sh q) q (fabs d (snd ?r)) else fabs d (snd ?r))"
    by (simp add: v_releaseBatch_def releaseMessageBatch_script_def shard_same case_prod_beta fabs_update_master Let_def)
  then show ?thesis using l releases_moves [OF assms, of "fabs d s" "with_default score now"] by auto
qed

lemma v_release_moves:
  assumes "home m = q"
  shows "moves (fabs d s) (fabs d (v_release d now m q (kMaster d (sh q)) score s))"
  using mv_release [of "fabs d s" d q m home "with_default score now"] assms
  by (auto simp: v_release_def shard_same fabs_release Let_def)

subsection \<open>The shard pass\<close>

lemma update_and_forget_moves:
  "moves (fabs d (fqs_redis st)) (fabs d (fqs_redis (update_and_forget d (kMaster d (sh q)) q st)))"
proof -
  have "fabs d (fqs_redis (update_and_forget d (kMaster d (sh q)) q st)) =
      fabs d (snd (updateMasterQueueIfEmpty (d_srv d) (kMaster d (sh q)) (kQ d q) q (fqs_redis st)))"
    by (simp add: update_and_forget_def case_prod_beta Let_def)
  then show ?thesis
    using mv_forget [of "fabs d (fqs_redis st)" q d home "sh q"] mv_refresh [of d home "fabs d (fqs_redis st)" q]
    by (auto simp: fabs_update_empty)
qed

lemma push_claimed_moves:
  assumes "\<forall>m \<in> set ms. home (im_messageId m) = q"
  shows "moves (fabs d s) (fabs d (snd (push_claimed d now ref q (kMaster d (sh q)) ms s)))"
  using assms
proof (induction ms arbitrary: s)
  case (Cons m ms)
  obtain b s1 where r: "(if d_groups d = [] then (True, s) else reserve d ref (im_messageId m) s) = (b, s1)" by fastforce
  then have s1: "fabs d s1 = fabs d s" using fabs_concurrency(1) [of ref "im_messageId m" s] by (cases "d_groups d = []") auto
  show ?case
  proof (cases b)
    case False
    have "moves (fabs d s1) (fabs d (v_releaseBatch d now (map im_messageId (m # ms)) q (kMaster d (sh q)) None s1))"
      by (rule v_releaseBatch_moves) (use Cons.prems in auto)
    then show ?thesis using False s1 unfolding push_claimed.simps r by simp
  next
    case True
    let ?s = "worker_push d (d_workerQueueResolver d (im_payload m)) (makeMember (im_messageId m) q) s1"
    have "fabs d ?s = fabs d s" using s1 by simp
    then show ?thesis using Cons.IH [of ?s] Cons.prems True unfolding push_claimed.simps r by (simp add: case_prod_beta Let_def)
  qed
qed simp

lemma claimAndPush_moves:
  assumes "fq_inv d home (fabs d (fqs_redis st))" and "i = sh q"
  shows "moves (fabs d (fqs_redis st)) (fabs d (fqs_redis (snd (claimAndPushToWorkerQueue d now loopId q t i st))))"
proof -
  let ?ref = "with_default (fqs_descriptors st q) \<lparr>qd_id = q, qd_tenantId = t, qd_metadata = []\<rparr>"
  let ?cap = "getAvailableCapacity d ?ref (fqs_redis st)"
  let ?n = "if d_groups d = [] then d_batchClaimSize d else min (d_batchClaimSize d) ?cap"
  obtain ms s1 where c: "claimBatch d now q loopId ?n (Some (d_visibilityTimeoutMs d)) (fqs_redis st) = (ms, s1)" by fastforce
  note l = claimBatch_moves [OF assms(1) c]
  have "home (im_messageId m) = q" if "m \<in> set ms" for m
  proof -
    have "im_messageId m \<in> set (map im_messageId ms)" using that by simp
    then have "im_messageId m \<in> set (claimable q ?n (fabs d (fqs_redis st)))" using l(2) by simp
    then have "aI (fabs d (fqs_redis st)) q (im_messageId m) \<noteq> None" using claimable_queued(2) [OF assms(1)] by blast
    then show ?thesis using queued_facts(1) [OF fq_invD(1) [OF assms(1)]] by blast
  qed
  then have push: "moves (fabs d s1) (fabs d (snd (push_claimed d now ?ref q (kMaster d i) ms s1)))"
    using push_claimed_moves assms(2) by blast
  have upd: "moves (fabs d s1) (fabs d (fqs_redis (update_and_forget d (kMaster d i) q (st\<lparr>fqs_redis := s1\<rparr>))))"
    using update_and_forget_moves [of "st\<lparr>fqs_redis := s1\<rparr>" q] assms(2) by simp
  have "fabs d (fqs_redis (snd (claimAndPushToWorkerQueue d now loopId q t i st))) =
      (if d_groups d \<noteq> [] \<and> ?cap = 0 then fabs d (fqs_redis st)
       else if ms = [] then fabs d (fqs_redis (update_and_forget d (kMaster d i) q (st\<lparr>fqs_redis := s1\<rparr>)))
       else fabs d (snd (push_claimed d now ?ref q (kMaster d i) ms s1)))"
    unfolding claimAndPushToWorkerQueue_def Let_def c by (simp add: case_prod_beta)
  then show ?thesis
    using rtranclp_trans [OF l(1) push] rtranclp_trans [OF l(1) upd] by simp
qed

end

end
