(* ===== verification/Fair_Queue_Operations.thy ===== *)
theory Fair_Queue_Operations
  imports Fair_Queue_Steps
begin

text \<open>
  The remaining operations as sequences of transitions: the shard pass with its scheduler, the life of a
  message in flight, the reclaim pass and the dead letter queue; then the step relation of the whole
  component and its reachable states.
\<close>

context fair_queue_home
begin

lemma one_step: "a_step d home a b \<Longrightarrow> steps a b"
  by (rule r_into_rtranclp)

lemma two_steps: "a_step d home a b \<Longrightarrow> a_step d home b c \<Longrightarrow> steps a c"
  using rtranclp.rtrancl_into_rtrancl one_step by metis

subsection \<open>The shard pass\<close>

lemma shard_pass_moves:
  assumes "scheduler_laws d sch" and "fq_inv d home (fabs d (fqs_redis st))"
    and "fq_processMasterQueueShard d sch now loopId i st = (out, st')"
  shows "moves (fabs d (fqs_redis st)) (fabs d (fqs_redis st'))"
proof -
  let ?P = "\<lambda>s. moves (fabs d (fqs_redis st)) (fabs d s)"
  have "?P (fqs_redis (snd (fq_processMasterQueueShard d sch now loopId i st)))"
  proof (rule shard_pass_keeps)
    fix tqs s c t qs q and st1 :: "('s, 'c) fq_state"
    assume sel: "selectQueues sch now (kMaster d i) loopId (fqs_redis st, fqs_sched st) = (Inr tqs, s, c)"
      and t: "(t, qs) \<in> set tqs" "q \<in> set qs" and P: "?P (fqs_redis st1)"
    have "aM (fabs d (fqs_redis st)) i q \<noteq> None" using scheduler_laws.select_listed [OF assms(1) sel t] .
    then have "i = sh q" using fq_coreD(5) [OF fq_invD(1) [OF assms(2)]] unfolding master_ok_def by blast
    from claimAndPush_moves [OF a_steps_inv [OF moves_steps [OF P] assms(2)] this, of now loopId t] P
    show "?P (fqs_redis (snd (claimAndPushToWorkerQueue d now loopId q t i st1)))" by simp
  next
    fix t q n s c
    assume "?P s"
    then show "?P (fst (recordProcessedBatch sch t q n (s, c)))" by (simp add: scheduler_laws.record_store [OF assms(1)])
  next
    fix r s c
    assume "selectQueues sch now (kMaster d i) loopId (fqs_redis st, fqs_sched st) = (r, s, c)"
    from scheduler_laws.select_store [OF assms(1) this] show "?P s" by simp
  qed
  then show ?thesis using assms(3) by simp
qed

subsection \<open>Messages in flight\<close>

lemma stored_facts:
  assumes "fq_inv d home (fabs d s)" and "inflight_stored d m q s = Some msg" and "home m = q"
  shows "aFD (fabs d s) (sh q) m \<noteq> None" and "sm_id msg = m" and "sm_queueId msg = q" and "tenant_ok d (sm_tenantId msg)" and "good_id m"
proof -
  obtain p where p: "aFD (fabs d s) (sh q) m = Some p" "d_parse d p = Some msg"
    using assms(2) by (auto simp: inflight_stored_def split: option.splits if_splits)
  note f = inflight_facts [OF fq_invD(1) [OF assms(1)] p(1)]
  show "aFD (fabs d s) (sh q) m \<noteq> None" and "sm_id msg = m" and "sm_queueId msg = q" and "tenant_ok d (sm_tenantId msg)" and "good_id m"
    using p f(2,3) assms(3) by (simp_all add: payload_ok_def)
qed

lemma inflight_readable:
  assumes "fq_inv d home (fabs d s)" and "msg_phase_of d home (fabs d s) m = MInFlight dl"
  shows "\<exists>msg. inflight_stored d m (home m) s = Some msg"
proof -
  note core = fq_invD(1) [OF assms(1)]
  have g: "good_id m" and F: "aF (fabs d s) (sh (home m)) (makeMember m (home m)) = Some dl"
    using assms(2) by (auto simp: msg_phase_of_def split: if_splits option.splits)
  then have "aFD (fabs d s) (sh (home m)) m \<noteq> None" using member_none [OF core g, of "sh (home m)"] by (metis option.distinct(1))
  then obtain p where p: "aFD (fabs d s) (sh (home m)) m = Some p" by blast
  from inflight_facts(3) [OF core p] p show ?thesis by (auto simp: payload_ok_def inflight_stored_def split: option.splits)
qed

lemma complete_abs: "fabs d (complete d m q s) = set_f (sh q) q m None None (fabs d s)"
  by (simp add: complete_def fabs_remove shard_same)

lemma complete_steps:
  assumes "good_id m" and "home m = q"
  shows "steps (fabs d (fqs_redis st)) (fabs d (fqs_redis (completeMessage d m q st)))"
proof -
  let ?s = "case inflight_stored d m q (fqs_redis st) of
      Some x \<Rightarrow> if d_groups d = [] then complete d m q (fqs_redis st)
        else release_concurrency d (descriptor_for st q x) m (complete d m q (fqs_redis st))
    | None \<Rightarrow> complete d m q (fqs_redis st)"
  have "fabs d ?s = set_f (sh q) q m None None (fabs d (fqs_redis st))"
    by (simp add: complete_abs split: option.split)
  then have "a_step d home (fabs d (fqs_redis st)) (fabs d ?s)" using assms by (simp add: a_finish)
  moreover have "steps (fabs d ?s) (fabs d (fqs_redis (completeMessage d m q st)))"
    using moves_steps [OF update_and_forget_moves, of "st\<lparr>fqs_redis := ?s\<rparr>" q] by (simp add: completeMessage_def Let_def)
  ultimately show ?thesis by (rule converse_rtranclp_into_rtranclp)
qed

lemma release_steps:
  assumes "home m = q"
  shows "steps (fabs d (fqs_redis st)) (fabs d (fqs_redis (fq_releaseMessage d now m q st)))"
proof -
  have "fabs d (fqs_redis (fq_releaseMessage d now m q st)) = fabs d (v_release d now m q (kMaster d (sh q)) (Some now) (fqs_redis st))"
    by (simp add: fq_releaseMessage_def Let_def split: option.split)
  then show ?thesis using moves_steps [OF v_release_moves [OF assms], of "fqs_redis st" now "Some now"] by simp
qed

lemma fabs_v_release:
  "fabs d (v_release d now m q (kMaster d (sh q)) (Some t) s) =
     (if aFD (fabs d s) (sh q) m = None then fabs d s else refresh (sh q) q (a_release (sh q) q m t (fabs d s)))"
  by (simp add: v_release_def fabs_release shard_same Let_def)

lemma fabs_bury:
  "d_deadLetterQueueEnabled d \<Longrightarrow> fabs d (fq_moveToDeadLetterQueue d now msg err s) =
     set_d (sm_tenantId msg) (sm_id msg) (Some now)
       (Some (d_dlqStringify d \<lparr>dl_id = sm_id msg, dl_queueId = sm_queueId msg, dl_tenantId = sm_tenantId msg, dl_payload = sm_payload msg,
          dl_deadLetteredAt = now, dl_attempts = sm_attempt msg, dl_lastError = err, dl_originalTimestamp = sm_timestamp msg\<rparr>))
       (set_f (sh (sm_queueId msg)) (sm_queueId msg) (sm_id msg) None None (fabs d s))"
  by (simp add: fq_moveToDeadLetterQueue_def complete_abs fabs_zsets fabs_hashes set_d_def set_f_def)

text \<open>The delay before the next attempt, and what a failure does to the store.\<close>

definition next_delay :: "rat \<Rightarrow> stored_message \<Rightarrow> int option" where
  "next_delay rnd msg = (case d_retryStrategy d of None \<Rightarrow> None | Some strategy \<Rightarrow> getNextDelay (d_fl d) (d_pow d) rnd strategy (sm_attempt msg))"

definition a_retry :: "string \<Rightarrow> time \<Rightarrow> stored_message \<Rightarrow> fstore \<Rightarrow> fstore" where
  "a_retry m sc msg a = (let b = refresh (sh (home m)) (home m) (a_release (sh (home m)) (home m) m sc a)
     in b\<lparr>aI := (aI b)(home m := (aI b (home m))(m \<mapsto> d_stringify d (msg\<lparr>sm_attempt := sm_attempt msg + 1\<rparr>)))\<rparr>)"

lemma fail_abs:
  assumes "fq_inv d home (fabs d (fqs_redis st))" and "inflight_stored d m (home m) (fqs_redis st) = Some msg"
  shows "next_delay rnd msg = Some delay \<Longrightarrow> fabs d (fqs_redis (failMessage d now rnd m (home m) err st)) =
      a_retry m (now + delay) msg (fabs d (fqs_redis st))"
    and "next_delay rnd msg = None \<Longrightarrow> fabs d (fqs_redis (failMessage d now rnd m (home m) err st)) =
      fabs d (fq_moveToDeadLetterQueue d now msg err (fqs_redis st))"
proof -
  note f = stored_facts [OF assms refl]
  obtain p where p: "aFD (fabs d (fqs_redis st)) (sh (home m)) m = Some p" using f(1) by blast
  show "fabs d (fqs_redis (failMessage d now rnd m (home m) err st)) = a_retry m (now + delay) msg (fabs d (fqs_redis st))"
    if "next_delay rnd msg = Some delay"
    using that by (simp add: failMessage_def assms(2) handleMessageFailure_def next_delay_def f(2) fabs_hashes fabs_v_release Let_def p a_retry_def)
  show "fabs d (fqs_redis (failMessage d now rnd m (home m) err st)) = fabs d (fq_moveToDeadLetterQueue d now msg err (fqs_redis st))"
    if "next_delay rnd msg = None"
    using that by (simp add: failMessage_def assms(2) handleMessageFailure_def next_delay_def Let_def)
qed

lemma fail_steps:
  assumes "fq_inv d home (fabs d (fqs_redis st))"
  shows "steps (fabs d (fqs_redis st)) (fabs d (fqs_redis (failMessage d now rnd m (home m) err st)))"
proof (cases "inflight_stored d m (home m) (fqs_redis st)")
  case None
  then show ?thesis by (simp add: failMessage_def)
next
  case (Some msg)
  note f = stored_facts [OF assms Some refl] and abs = fail_abs [OF assms Some]
  let ?a = "fabs d (fqs_redis st)"
  show ?thesis
  proof (cases "next_delay rnd msg")
    case (Some delay)
    let ?b = "refresh (sh (home m)) (home m) (a_release (sh (home m)) (home m) m (now + delay) ?a)"
    have "aI ?b (home m) m \<noteq> None" using f(1) by (auto simp: a_release_def)
    moreover have "payload_ok d home m (d_stringify d (msg\<lparr>sm_attempt := sm_attempt msg + 1\<rparr>))"
      using f(2-4) by (simp add: payload_ok_def parse_stringify)
    ultimately have "a_step d home ?b (a_retry m (now + delay) msg ?a)" unfolding a_retry_def Let_def by (rule a_rewrite)
    moreover have "a_step d home ?a ?b" using f(1) by (rule a_release) simp
    ultimately show ?thesis unfolding abs(1) [OF Some] by (intro two_steps)
  next
    case None
    show ?thesis
    proof (cases "d_deadLetterQueueEnabled d")
      case False
      then show ?thesis
        unfolding abs(2) [OF None] using a_finish [of m home "home m" d ?a] f(2,3,5)
        by (simp add: fq_moveToDeadLetterQueue_def complete_abs one_step)
    next
      case True
      have "dead_payload_ok d home (sm_tenantId msg) m (d_dlqStringify d \<lparr>dl_id = m, dl_queueId = home m, dl_tenantId = sm_tenantId msg,
          dl_payload = sm_payload msg, dl_deadLetteredAt = now, dl_attempts = sm_attempt msg, dl_lastError = err,
          dl_originalTimestamp = sm_timestamp msg\<rparr>)"
        by (simp add: dead_payload_ok_def dlqParse_stringify)
      with f(1) refl f(4) show ?thesis
        unfolding abs(2) [OF None] fabs_bury [OF True] f(2,3) by (intro one_step a_bury)
    qed
  qed
qed

text \<open>The three outcomes of a failure.\<close>

lemma fail_outcome:
  fixes now :: time and rnd :: rat and err :: "string option"
  assumes "fq_inv d home (fabs d (fqs_redis st))" and "inflight_stored d m (home m) (fqs_redis st) = Some msg"
  defines "s' \<equiv> fqs_redis (failMessage d now rnd m (home m) err st)"
  shows "next_delay rnd msg = Some delay \<Longrightarrow> msg_phase_of d home (fabs d s') m = MQueued (now + delay)
      \<and> aI (fabs d s') (home m) m = Some (d_stringify d (msg\<lparr>sm_attempt := sm_attempt msg + 1\<rparr>))"
    and "next_delay rnd msg = None \<Longrightarrow> d_deadLetterQueueEnabled d \<Longrightarrow> msg_phase_of d home (fabs d s') m = MDead
      \<and> aDD (fabs d s') (sm_tenantId msg) m = Some (d_dlqStringify d \<lparr>dl_id = m, dl_queueId = home m, dl_tenantId = sm_tenantId msg,
          dl_payload = sm_payload msg, dl_deadLetteredAt = now, dl_attempts = sm_attempt msg, dl_lastError = err,
          dl_originalTimestamp = sm_timestamp msg\<rparr>)"
    and "next_delay rnd msg = None \<Longrightarrow> \<not> d_deadLetterQueueEnabled d \<Longrightarrow> msg_phase_of d home (fabs d s') m = MAbsent"
proof -
  note f = stored_facts [OF assms(1,2) refl] and abs = fail_abs [OF assms(1,2), where rnd = rnd and now = now and err = err]
  have core': "fq_core d home {} (fabs d s')"
    unfolding s'_def by (rule fq_invD(1) [OF a_steps_inv [OF fail_steps [OF assms(1)] assms(1)]])
  obtain p where p: "aFD (fabs d (fqs_redis st)) (sh (home m)) m = Some p" using f(1) by blast
  note g = inflight_facts [OF fq_invD(1) [OF assms(1)] p]
  show "msg_phase_of d home (fabs d s') m = MQueued (now + delay)
      \<and> aI (fabs d s') (home m) m = Some (d_stringify d (msg\<lparr>sm_attempt := sm_attempt msg + 1\<rparr>))" if "next_delay rnd msg = Some delay"
    unfolding s'_def abs(1) [OF that] using f(5) p by (simp add: a_retry_def Let_def a_release_def msg_phase_of_def)
  show "msg_phase_of d home (fabs d s') m = MDead
      \<and> aDD (fabs d s') (sm_tenantId msg) m = Some (d_dlqStringify d \<lparr>dl_id = m, dl_queueId = home m, dl_tenantId = sm_tenantId msg,
          dl_payload = sm_payload msg, dl_deadLetteredAt = now, dl_attempts = sm_attempt msg, dl_lastError = err,
          dl_originalTimestamp = sm_timestamp msg\<rparr>)" if "next_delay rnd msg = None" and "d_deadLetterQueueEnabled d"
  proof -
    have dd: "aDD (fabs d s') (sm_tenantId msg) m = Some (d_dlqStringify d \<lparr>dl_id = m, dl_queueId = home m, dl_tenantId = sm_tenantId msg,
          dl_payload = sm_payload msg, dl_deadLetteredAt = now, dl_attempts = sm_attempt msg, dl_lastError = err,
          dl_originalTimestamp = sm_timestamp msg\<rparr>)"
      unfolding s'_def abs(2) [OF that(1)] fabs_bury [OF that(2)] f(2,3) by simp
    then show ?thesis using phase_dead [OF core', of "sm_tenantId msg" m] by simp
  qed
  show "msg_phase_of d home (fabs d s') m = MAbsent" if "next_delay rnd msg = None" and "\<not> d_deadLetterQueueEnabled d"
  proof (rule phase_absent [OF core'])
    have eq: "fabs d s' = set_f (sh (home m)) (home m) m None None (fabs d (fqs_redis st))"
      unfolding s'_def abs(2) [OF that(1)] using that(2) f(2,3) by (simp add: fq_moveToDeadLetterQueue_def complete_abs)
    show "aI (fabs d s') (home m) m = None" "aFD (fabs d s') (sh (home m)) m = None" "aDD (fabs d s') t m = None" for t
      unfolding eq using g(4,5) by simp_all
  qed
qed

lemma heartbeat_steps:
  assumes "good_id m" and "home m = q"
  shows "steps (fabs d s) (fabs d (snd (fq_heartbeatMessage d now m q s)))"
proof (cases "aF (fabs d s) (sh q) (makeMember m q)")
  case None
  then show ?thesis by (simp add: fq_heartbeatMessage_def heartbeat_def heartbeatMessage_script_def shard_same)
next
  case (Some dl)
  let ?dl = "now + d_heartbeatIntervalMs d" and ?a = "fabs d s"
  have "fabs d (zADDXX (d_srv d) (kInflight d (sh q)) ?dl (makeMember m q) s) = fabs d (zADD (d_srv d) (kInflight d (sh q)) ?dl (makeMember m q) s)"
    using Some by (simp add: fabs_defs zADDXX_view)
  then have "fabs d (snd (fq_heartbeatMessage d now m q s)) =
      ?a\<lparr>aF := (aF ?a)(sh q := (aF ?a (sh q))(makeMember m q \<mapsto> ?dl))\<rparr>"
    using Some by (simp add: fq_heartbeatMessage_def heartbeat_def heartbeatMessage_script_def shard_same fabs_zsets)
  then show ?thesis using a_beat [of m ?a d home ?dl] assms Some by (simp add: one_step)
qed

lemma heartbeat_effect:
  assumes "fq_inv d home (fabs d s)" and "good_id m"
  shows "fst (fq_heartbeatMessage d now m (home m) s) = (case msg_phase_of d home (fabs d s) m of MInFlight _ \<Rightarrow> True | _ \<Rightarrow> False)
    \<and> msg_phase_of d home (fabs d (snd (fq_heartbeatMessage d now m (home m) s))) m =
      (case msg_phase_of d home (fabs d s) m of MInFlight _ \<Rightarrow> MInFlight (now + d_heartbeatIntervalMs d) | ph \<Rightarrow> ph)"
proof (cases "aF (fabs d s) (sh (home m)) (makeMember m (home m))")
  case None
  then have "msg_phase_of d home (fabs d s) m \<noteq> MInFlight dl" for dl by (auto simp: msg_phase_of_def split: option.splits if_splits)
  then show ?thesis
    using None by (cases "msg_phase_of d home (fabs d s) m")
      (auto simp: fq_heartbeatMessage_def heartbeat_def heartbeatMessage_script_def shard_same)
next
  case (Some dl)
  note core = fq_invD(1) [OF assms(1)]
  have fd: "aFD (fabs d s) (sh (home m)) m \<noteq> None" using member_none [OF core assms(2), of "sh (home m)"] Some by (metis option.distinct(1))
  then obtain p where p: "aFD (fabs d s) (sh (home m)) m = Some p" by blast
  have q: "aQ (fabs d s) (home m) m = None" using inflight_facts(4) [OF core p] queue_score [OF core] by simp
  have ph: "msg_phase_of d home (fabs d s) m = MInFlight dl" using Some q assms(2) by (simp add: msg_phase_of_def)
  have z: "fabs d (zADDXX (d_srv d) (kInflight d (sh (home m))) t (makeMember m (home m)) s) =
      fabs d (zADD (d_srv d) (kInflight d (sh (home m))) t (makeMember m (home m)) s)" for t
    using Some by (simp add: fabs_defs zADDXX_view)
  show ?thesis
    unfolding ph using Some q assms(2)
    by (simp add: fq_heartbeatMessage_def heartbeat_def heartbeatMessage_script_def shard_same z fabs_zsets msg_phase_of_def)
qed

subsection \<open>Reclaiming\<close>

lemma reclaim_loop_moves:
  assumes "\<forall>x \<in> set xs. \<exists>m. good_id m \<and> x = makeMember m (home m) \<and> i = sh (home m)"
  shows "moves (fabs d s) (fabs d (snd (reclaim_loop d i now (masterKeyFor d) xs s)))"
  using assms
proof (induction xs arbitrary: s)
  case (Cons x xs)
  obtain m where m: "good_id m" "x = makeMember m (home m)" "i = sh (home m)" using Cons.prems by auto
  have x: "x \<noteq> []" "parseMember x = (m, home m)"
    using m by (simp_all add: parseMember_makeMember good_id_def, simp add: makeMember_def)
  let ?sc = "case (case aFD (fabs d s) i m of None \<Rightarrow> None | Some j \<Rightarrow> if j = [] then None else d_parse d j) of
      None \<Rightarrow> now | Some msg \<Rightarrow> sm_timestamp msg"
  let ?s = "snd (releaseMessage_script (d_srv d) (kInflight d i) (kInflightData d i) (kQ d (home m)) (kQItems d (home m))
    (masterKeyFor d (home m)) x m ?sc (home m) s)"
  have "fabs d ?s = (if aFD (fabs d s) i m = None then fabs d s else refresh (sh (home m)) (home m) (a_release i (home m) m ?sc (fabs d s)))"
    unfolding m(2) by (rule fabs_release)
  moreover have "moves (fabs d s) (refresh (sh (home m)) (home m) (a_release i (home m) m ?sc (fabs d s)))"
    if "aFD (fabs d s) i m \<noteq> None"
    using that unfolding m(3) by (intro r_into_rtranclp mv_release) simp_all
  ultimately have "moves (fabs d s) (fabs d ?s)" by simp
  moreover have "moves (fabs d ?s) (fabs d (snd (reclaim_loop d i now (masterKeyFor d) xs ?s)))" using Cons by simp
  moreover have "snd (reclaim_loop d i now (masterKeyFor d) (x # xs) s) = snd (reclaim_loop d i now (masterKeyFor d) xs ?s)"
    using x by (simp add: Let_def case_prod_beta)
  ultimately show ?case by (simp only: rtranclp_trans)
qed simp

lemma timed_out_members:
  assumes "fq_inv d home (fabs d s)" and "x \<in> set (map fst (zRANGEBYSCORE (d_srv d) (kInflight d i) now n s))"
  shows "\<exists>m. good_id m \<and> x = makeMember m (home m) \<and> i = sh (home m)"
proof -
  have "aF (fabs d s) i x \<noteq> None"
    using assms(2) set_zsorted [OF zset_finite [of s "kInflight d i"]]
    by (auto simp: zRANGEBYSCORE_view fabs_defs dest!: in_set_takeD)
  then show ?thesis using member_home [OF fq_coreD(2) [OF fq_invD(1) [OF assms(1)]]] by metis
qed

lemma reclaim_moves:
  assumes "fq_inv d home (fabs d s)"
  shows "moves (fabs d s) (fabs d (reclaimTimedOutMessages d now s))"
proof -
  have "moves (fabs d s) (fabs d (reclaim_shards d now is s))" if "fq_inv d home (fabs d s)" for "is" s
    using that
  proof (induction "is" arbitrary: s)
    case (Cons i "is")
    obtain rs s1 where r: "reclaimTimedOut d i now (masterKeyFor d) s = (rs, s1)" by fastforce
    have s1: "moves (fabs d s) (fabs d s1)"
      using reclaim_loop_moves [of "map fst (zRANGEBYSCORE (d_srv d) (kInflight d i) now 100 s)" i s now]
        timed_out_members [OF Cons.prems] r by (simp add: reclaimTimedOut_def)
    define s2 where "s2 = (if d_groups d \<noteq> [] \<and> rs \<noteq> [] then releaseBatch_concurrency d (map reclaimed_ref rs) s1 else s1)"
    then have s2: "fabs d s2 = fabs d s1" by simp
    have "moves (fabs d s2) (fabs d (reclaim_shards d now is s2))" using Cons.IH [of s2] a_steps_inv [OF moves_steps [OF s1] Cons.prems] s2 by simp
    then show ?case using s1 s2 by (simp add: r s2_def [symmetric] Let_def)
  qed simp
  then show ?thesis using assms by (simp add: reclaimTimedOutMessages_def)
qed

subsection \<open>The dead letter queue\<close>

lemma unbury_commutes: "set_d t m None None (a_enqueue i q m' sc p a) = a_enqueue i q m' sc p (set_d t m None None a)"
  by (simp add: a_enqueue_def refresh_def set_d_def set_q_def set_m_def split: option.split)

lemma redrive_steps:
  assumes "fq_inv d home (fabs d (fqs_redis st))" and "redriveMessage d now t m st = (out, st')"
  shows "steps (fabs d (fqs_redis st)) (fabs d (fqs_redis st'))"
proof (cases "aDD (fabs d (fqs_redis st)) t m")
  case None
  then show ?thesis using assms(2) by (auto simp: redriveMessage_def split: if_splits)
next
  case (Some p)
  let ?a = "fabs d (fqs_redis st)"
  note f = dead_facts [OF fq_invD(1) [OF assms(1)] Some]
  have tok: "tenant_ok d t" using fq_coreD(3) [OF fq_invD(1) [OF assms(1)]] Some unfolding dead_ok_def by blast
  obtain x where x: "p \<noteq> []" "d_dlqParse d p = Some x" "dl_id x = m" "dl_queueId x = home m" "dl_tenantId x = t"
    using f(2) by (auto simp: dead_payload_ok_def split: option.splits)
  let ?opts = "\<lparr>eo_queueId = home m, eo_tenantId = t, eo_payload = dl_payload x, eo_messageId = Some m, eo_timestamp = Some now, eo_metadata = None\<rparr>"
  obtain r st1 where e: "fq_enqueue d now [] ?opts st = (r, st1)" by fastforce
  show ?thesis
  proof (cases "d_deadLetterQueueEnabled d \<and> d_accepts d (dl_payload x)")
    case False
    then have "fqs_redis st' = fqs_redis st"
      using assms(2) Some x by (auto simp: redriveMessage_def fq_enqueue_def Let_def split: if_splits)
    then show ?thesis by simp
  next
    case True
    let ?p = "d_stringify d (stored_of d m (home m) t (dl_payload x) now None)"
    have r: "r = Inr m" and st1: "fabs d (fqs_redis st1) = a_enqueue (sh (home m)) (home m) m now ?p ?a"
      using e True by (auto simp: fq_enqueue_def Let_def fabs_enqueue)
    have "fqs_redis st' = hDEL (d_srv d) (kDeadData d t) m (zREM (d_srv d) (kDead d t) m (fqs_redis st1))"
      using assms(2) Some x e r True by (auto simp: redriveMessage_def)
    then have "fabs d (fqs_redis st') = set_d t m None None (fabs d (fqs_redis st1))"
      by (simp add: fabs_zsets fabs_hashes set_d_def)
    also have "\<dots> = a_enqueue (sh (home m)) (home m) m now ?p (set_d t m None None ?a)" unfolding st1 by (rule unbury_commutes)
    finally show ?thesis
      using Some stored_payload_ok [OF refl tok, of m "dl_payload x" now None] by (auto intro!: one_step a_redrive)
  qed
qed

lemma redriveAll_steps:
  assumes "fq_inv d home (fabs d (fqs_redis st))" and "redriveAll d now t st = (out, st')"
  shows "steps (fabs d (fqs_redis st)) (fabs d (fqs_redis st'))"
proof -
  have "steps (fabs d (fqs_redis st)) (fabs d (fqs_redis (snd (redrive_loop d now t ms st))))"
    if "fq_inv d home (fabs d (fqs_redis st))" for ms and st :: "('s, 'c) fq_state"
    using that
  proof (induction ms arbitrary: st)
    case (Cons m ms)
    obtain r st1 where r: "redriveMessage d now t (dl_id m) st = (r, st1)" by fastforce
    have s1: "steps (fabs d (fqs_redis st)) (fabs d (fqs_redis st1))" by (rule redrive_steps [OF Cons.prems r])
    have "steps (fabs d (fqs_redis st1)) (fabs d (fqs_redis (snd (redrive_loop d now t ms st1))))"
      by (rule Cons.IH [OF a_steps_inv [OF s1 Cons.prems]])
    then show ?case using s1 by (cases r) (auto simp: r split: prod.split sum.split)
  qed simp
  then show ?thesis using assms by (metis redriveAll_def snd_conv)
qed

lemma dead_key_clash:
  "kDead d t = kDeadData d t' \<longleftrightarrow> t = t' @ k_separator (d_keys d) # ''data''"
  by (simp add: fair_key_defs)

lemma purge_steps:
  assumes "fq_inv d home (fabs d s)" and "tenant_ok d t"
  shows "steps (fabs d s) (fabs d (snd (purgeDeadLetterQueue d t s)))"
proof (cases "d_deadLetterQueueEnabled d")
  case True
  let ?a = "fabs d s"
  have clash: "kDead d t \<noteq> kDeadData d t'" for t' unfolding dead_key_clash using assms(2) by (auto simp: tenant_ok_def)
  have other: "aD ?a t' = Map.empty" if "kDead d t' = kDeadData d t" for t'
  proof -
    have "\<not> tenant_ok d t'" using that unfolding dead_key_clash by (simp add: tenant_ok_def)
    then have "aDD ?a t' m = None" for m using fq_coreD(3) [OF fq_invD(1) [OF assms(1)]] unfolding dead_ok_def by (metis option.exhaust)
    then show ?thesis using dead_score [OF fq_invD(1) [OF assms(1)]] by blast
  qed
  have "fabs d (snd (purgeDeadLetterQueue d t s)) = ?a\<lparr>aD := (aD ?a)(t := Map.empty), aDD := (aDD ?a)(t := Map.empty)\<rparr>"
    using True clash other by (auto simp: purgeDeadLetterQueue_def fabs_defs rDEL_view fun_eq_iff fair_key_defs rk_def)
  then show ?thesis using a_purge [of d home ?a t] by (simp add: one_step)
qed (simp add: purgeDeadLetterQueue_def)

end

end
