(* ===== verification/Fair_Queue_Concurrency.thy ===== *)
theory Fair_Queue_Concurrency
  imports Fair_Queue_Steps
begin

text \<open>
  The concurrency limits of the fair queue. Only a reservation adds to a group's set, and it checks every
  limit in the same script, so no operation takes a group above its limit. Every other operation leaves
  the sets alone or removes from them.
\<close>

definition groups_ok :: "'s fq_deps \<Rightarrow> bool" where
  "groups_ok d \<longleftrightarrow> distinct (map g_name (d_groups d)) \<and> list_all (\<lambda>g. k_separator (d_keys d) \<notin> set (g_name g)) (d_groups d)"

definition within_limits :: "'s fq_deps \<Rightarrow> 's \<Rightarrow> bool" where
  "within_limits d s \<longleftrightarrow> (\<forall>g \<in> set (d_groups d). \<forall>groupId.
     getCurrentConcurrency d (g_name g) groupId s \<le> max 0 (group_limit g groupId))"

context fair_server
begin

abbreviation vs :: "'s \<Rightarrow> key \<Rightarrow> string set" where "vs s \<equiv> v_set (rview (d_srv d) s)"

subsection \<open>What leaves the sets alone\<close>

lemma vs_commands [simp]:
  "vs (zADD (d_srv d) k sc m s) = vs s" "vs (zREM (d_srv d) k m s) = vs s" "vs (zADDXX (d_srv d) k sc m s) = vs s"
  "vs (hSET (d_srv d) k m v s) = vs s" "vs (hDEL (d_srv d) k m s) = vs s"
  "vs (lRPUSH (d_srv d) k m s) = vs s" "vs (snd (lLPOP (d_srv d) k s)) = vs s" "vs (lREM (d_srv d) k m s) = vs s"
  by (simp_all add: zADD_view zREM_view zADDXX_view hSET_view hDEL_view lRPUSH_view lLPOP_view lREM_view)

lemma vs_scripts [simp]:
  "vs (update_master (d_srv d) k mk q s) = vs s"
  "vs (enqueueMessageAtomic (d_srv d) k ik mk q m t p s) = vs s"
  "vs (snd (updateMasterQueueIfEmpty (d_srv d) mk k q s)) = vs s"
  "vs (claim_one (d_srv d) k ik fk fdk q dl m p s) = vs s"
  "vs (snd (releaseMessage_script (d_srv d) fk fdk k ik mk x m sc q s)) = vs s"
  "vs (removeFromInflight d i m q s) = vs s"
  "vs (worker_push d w x s) = vs s"
  "vs (snd (heartbeat d now m q e s)) = vs s"
proof -
  show upd: "vs (update_master (d_srv d) k mk q s) = vs s" for k mk q s by (simp add: update_master_def split: list.split)
  show "vs (enqueueMessageAtomic (d_srv d) k ik mk q m t p s) = vs s" by (simp add: enqueueMessageAtomic_def upd)
  show "vs (snd (updateMasterQueueIfEmpty (d_srv d) mk k q s)) = vs s" by (simp add: updateMasterQueueIfEmpty_def upd)
  show "vs (claim_one (d_srv d) k ik fk fdk q dl m p s) = vs s" by (simp add: claim_one_def)
  show "vs (snd (releaseMessage_script (d_srv d) fk fdk k ik mk x m sc q s)) = vs s"
    by (simp add: releaseMessage_script_def upd Let_def split: option.split)
  show "vs (removeFromInflight d i m q s) = vs s" by (simp add: removeFromInflight_def)
  show "vs (worker_push d w x s) = vs s" by (simp add: worker_push_def)
  show "vs (snd (heartbeat d now m q e s)) = vs s"
    by (simp add: heartbeat_def heartbeatMessage_script_def split: option.split)
qed

lemma vs_enqueueBatch [simp]: "vs (enqueueBatchAtomic (d_srv d) k ik mk q args s) = vs s"
proof -
  have "vs (fold (\<lambda>(m, t, p) s. hSET (d_srv d) ik m p (zADD (d_srv d) k t m s)) args s) = vs s"
    by (induction args arbitrary: s) auto
  then show ?thesis by (simp add: enqueueBatchAtomic_def Let_def)
qed

lemma vs_claimBatch [simp]: "vs (snd (claimBatch d now q c n vt s)) = vs s"
proof -
  have loop: "vs (snd (claimBatch_loop (d_srv d) k ik fk fdk q dl ms s)) = vs s" for k ik fk fdk dl ms s
    by (induction ms arbitrary: s) (auto simp: Let_def case_prod_beta split: option.split)
  have parse: "vs (snd (parse_claimed d i q c dl res s)) = vs s" for i dl res s
    by (induction res arbitrary: s) (auto simp: Let_def case_prod_beta split: option.split)
  show ?thesis by (simp add: claimBatch_def claimMessageBatch_script_def case_prod_beta loop parse Let_def)
qed

lemma vs_v_release [simp]: "vs (v_release d now m q mk sc s) = vs s" "vs (v_releaseBatch d now ms q mk sc s) = vs s"
proof -
  show "vs (v_release d now m q mk sc s) = vs s" by (simp add: v_release_def Let_def)
  have "vs (snd (releaseBatch_loop (d_srv d) fk fdk k ik sc xs s)) = vs s" for fk fdk k ik sc xs s
    by (induction xs arbitrary: s) (auto simp: Let_def case_prod_beta split: option.split)
  then show "vs (v_releaseBatch d now ms q mk sc s) = vs s"
    by (simp add: v_releaseBatch_def releaseMessageBatch_script_def Let_def case_prod_beta)
qed

lemma vs_complete [simp]: "vs (complete d m q s) = vs s"
  by (simp add: complete_def)

lemma vs_bury [simp]: "vs (fq_moveToDeadLetterQueue d now msg err s) = vs s"
  by (simp add: fq_moveToDeadLetterQueue_def Let_def)

lemma vs_update_and_forget [simp]: "vs (fqs_redis (update_and_forget d mk q st)) = vs (fqs_redis st)"
  by (simp add: update_and_forget_def case_prod_beta Let_def)

subsection \<open>What removes from them\<close>

lemma vs_release_concurrency: "vs (release_concurrency d ref m s) k \<subseteq> vs s k"
proof -
  have "vs (fold (\<lambda>g s. sREM (d_srv d) (kGroup d (g_name g) (g_extractGroupId g ref)) m s) gs s) k \<subseteq> vs s k"
    for gs :: "concurrency_group list" and s
  proof (induction gs arbitrary: s)
    case (Cons g gs)
    from Cons [of "sREM (d_srv d) (kGroup d (g_name g) (g_extractGroupId g ref)) m s"]
    show ?case by (auto simp: sREM_view split: if_splits)
  qed simp
  then show ?thesis by (simp add: release_concurrency_def)
qed

lemma vs_releaseBatch_concurrency: "vs (releaseBatch_concurrency d refs s) k \<subseteq> vs s k"
  unfolding releaseBatch_concurrency_def
proof (induction refs arbitrary: s)
  case (Cons r refs)
  obtain ref m where "r = (ref, m)" by fastforce
  then show ?case using Cons [of "release_concurrency d ref m s"] vs_release_concurrency [of ref m s k] by auto
qed simp

lemma within_shrinks:
  assumes "within_limits d s" and "\<And>k. vs s' k \<subseteq> vs s k"
  shows "within_limits d s'"
proof -
  have "getCurrentConcurrency d g i s' \<le> getCurrentConcurrency d g i s" for g i
    using card_mono [OF set_finite assms(2)] by (simp add: getCurrentConcurrency_def sCARD_view)
  then show ?thesis using assms(1) unfolding within_limits_def by (meson order_trans)
qed

subsection \<open>What adds to them\<close>

lemma vs_add:
  "vs (fold (\<lambda>(k, limit) s. sADD (d_srv d) k m s) xs s) k =
     (if k \<in> fst ` set xs then insert m (vs s k) else vs s k)" for xs :: "(key \<times> int) list"
proof (induction xs arbitrary: s)
  case (Cons x xs)
  then show ?case using Cons [of "sADD (d_srv d) (fst x) m s"] by (cases "k = fst x") (simp_all add: case_prod_beta sADD_view)
qed simp

lemma reserve_within:
  assumes "groups_ok d" and "within_limits d s"
  shows "within_limits d (snd (reserve d ref m s))"
proof -
  let ?kl = "map (\<lambda>g. (kGroup d (g_name g) (g_extractGroupId g ref), group_limit g (g_extractGroupId g ref))) (d_groups d)"
  have "snd (reserve d ref m s) = snd (reserveConcurrency_script (d_srv d) ?kl m s)"
    by (simp add: reserve_def case_prod_beta Let_def)
  moreover have "within_limits d (snd (reserveConcurrency_script (d_srv d) ?kl m s))"
  proof (cases "\<exists>(k, limit) \<in> set ?kl. int (sCARD (d_srv d) k s) \<ge> limit")
    case True
    then show ?thesis using assms(2) by (simp add: reserveConcurrency_script_def)
  next
    case False
    let ?s = "fold (\<lambda>(k, limit) s. sADD (d_srv d) k m s) ?kl s"
    have room: "int (card (vs s (kGroup d (g_name g) (g_extractGroupId g ref)))) < group_limit g (g_extractGroupId g ref)"
      if "g \<in> set (d_groups d)" for g using False that by (force simp: sCARD_view)
    have "getCurrentConcurrency d (g_name g) i ?s \<le> max 0 (group_limit g i)" if g: "g \<in> set (d_groups d)" for g i
    proof (cases "kGroup d (g_name g) i \<in> fst ` set ?kl")
      case True
      then obtain g' where g': "g' \<in> set (d_groups d)" "kGroup d (g_name g) i = kGroup d (g_name g') (g_extractGroupId g' ref)" by auto
      have "k_separator (d_keys d) \<notin> set (g_name g)" "k_separator (d_keys d) \<notin> set (g_name g')"
        using assms(1) g g'(1) by (auto simp: groups_ok_def list_all_iff)
      from concurrencyKey_inject [OF this] g'(2) have eq: "g_name g = g_name g'" "i = g_extractGroupId g' ref" by simp_all
      then have "g = g'" using assms(1) g g'(1) by (auto simp: groups_ok_def distinct_map inj_on_def)
      then show ?thesis using room [OF g] eq card_insert_le_m1 [of "Suc (card (vs s (kGroup d (g_name g) i)))" "vs s (kGroup d (g_name g) i)" m]
        by (simp add: getCurrentConcurrency_def sCARD_view vs_add True card_insert_if set_finite)
    next
      case False
      then show ?thesis using assms(2) g by (simp add: within_limits_def getCurrentConcurrency_def sCARD_view vs_add)
    qed
    then have "within_limits d ?s" by (simp add: within_limits_def)
    moreover have "snd (reserveConcurrency_script (d_srv d) ?kl m s) = ?s"
      unfolding reserveConcurrency_script_def using False by (simp only: if_False snd_conv)
    ultimately show ?thesis by simp
  qed
  ultimately show ?thesis by simp
qed

lemma within_same: "vs s' = vs s \<Longrightarrow> within_limits d s' = within_limits d s"
  by (simp add: within_limits_def getCurrentConcurrency_def sCARD_view)

subsection \<open>The shard pass\<close>

lemma push_claimed_within:
  assumes "groups_ok d" and "within_limits d s"
  shows "within_limits d (snd (push_claimed d now ref q mk ms s))"
  using assms(2)
proof (induction ms arbitrary: s)
  case (Cons m ms)
  obtain b s1 where r: "(if d_groups d = [] then (True, s) else reserve d ref (im_messageId m) s) = (b, s1)" by fastforce
  have s1: "within_limits d s1"
    using reserve_within [OF assms(1) Cons.prems, of ref "im_messageId m"] Cons.prems r by (cases "d_groups d = []") auto
  let ?s = "worker_push d (d_workerQueueResolver d (im_payload m)) (makeMember (im_messageId m) q) s1"
  show ?case
  proof (cases b)
    case True
    then show ?thesis using Cons.IH [of ?s] s1 within_same [of ?s s1] unfolding push_claimed.simps r by (simp add: case_prod_beta Let_def)
  next
    case False
    then show ?thesis using s1 within_same [of "v_releaseBatch d now (map im_messageId (m # ms)) q mk None s1" s1]
      unfolding push_claimed.simps r by simp
  qed
qed simp

lemma claimAndPush_within:
  assumes "groups_ok d" and "within_limits d (fqs_redis st)"
  shows "within_limits d (fqs_redis (snd (claimAndPushToWorkerQueue d now loopId q t i st)))"
proof -
  let ?ref = "with_default (fqs_descriptors st q) \<lparr>qd_id = q, qd_tenantId = t, qd_metadata = []\<rparr>"
  let ?cap = "getAvailableCapacity d ?ref (fqs_redis st)"
  let ?n = "if d_groups d = [] then d_batchClaimSize d else min (d_batchClaimSize d) ?cap"
  obtain ms s1 where c: "claimBatch d now q loopId ?n (Some (d_visibilityTimeoutMs d)) (fqs_redis st) = (ms, s1)" by fastforce
  have "vs s1 = vs (fqs_redis st)"
    using vs_claimBatch [of now q loopId ?n "Some (d_visibilityTimeoutMs d)" "fqs_redis st"] unfolding c by (simp only: snd_conv)
  then have s1: "within_limits d s1" using assms(2) by (rule within_same [THEN iffD2])
  have "vs (fqs_redis (update_and_forget d (kMaster d i) q (st\<lparr>fqs_redis := s1\<rparr>))) = vs s1" by simp
  then have upd: "within_limits d (fqs_redis (update_and_forget d (kMaster d i) q (st\<lparr>fqs_redis := s1\<rparr>)))"
    using s1 by (rule within_same [THEN iffD2])
  have "fqs_redis (snd (claimAndPushToWorkerQueue d now loopId q t i st)) =
      (if d_groups d \<noteq> [] \<and> ?cap = 0 then fqs_redis st
       else if ms = [] then fqs_redis (update_and_forget d (kMaster d i) q (st\<lparr>fqs_redis := s1\<rparr>))
       else snd (push_claimed d now ?ref q (kMaster d i) ms s1))"
    unfolding claimAndPushToWorkerQueue_def Let_def c by (simp add: case_prod_beta)
  then show ?thesis using assms(2) upd push_claimed_within [OF assms(1) s1] by simp
qed

lemma shard_pass_within:
  assumes "scheduler_laws d sch" and "groups_ok d" and "within_limits d (fqs_redis st)"
  shows "within_limits d (fqs_redis (snd (fq_processMasterQueueShard d sch now loopId i st)))"
proof (rule shard_pass_keeps)
  fix t q n s c
  assume "within_limits d s"
  then show "within_limits d (fst (recordProcessedBatch sch t q n (s, c)))"
    by (rule within_same [THEN iffD2, OF conjunct1 [OF scheduler_laws.record_rest [OF assms(1)]]])
next
  fix r s c
  assume "selectQueues sch now (kMaster d i) loopId (fqs_redis st, fqs_sched st) = (r, s, c)"
  from within_same [THEN iffD2, OF conjunct1 [OF scheduler_laws.select_rest [OF assms(1) this]] assms(3)] show "within_limits d s" .
qed (rule claimAndPush_within [OF assms(2)])

subsection \<open>The other operations\<close>

lemma enqueue_sets: "vs (fqs_redis (snd (fq_enqueue d now nano opts st))) = vs (fqs_redis st)"
  by (simp add: fq_enqueue_def Let_def)

lemma enqueueBatch_sets: "vs (fqs_redis (snd (fq_enqueueBatch d now nanos opts st))) = vs (fqs_redis st)"
  by (simp add: fq_enqueueBatch_def Let_def split: sum.split)

lemma finishing_sets:
  "vs (fqs_redis (completeMessage d m q st)) k \<subseteq> vs (fqs_redis st) k"
  "vs (fqs_redis (fq_releaseMessage d now m q st)) k \<subseteq> vs (fqs_redis st) k"
  "vs (fqs_redis (failMessage d now rnd m q err st)) k \<subseteq> vs (fqs_redis st) k"
  "vs (snd (fq_heartbeatMessage d now m q s)) = vs s"
proof -
  have rel: "vs (release_concurrency d ref m s) k \<subseteq> vs s' k" if "vs s = vs s'" for ref m s s'
    using vs_release_concurrency [of ref m s k] that by simp
  show "vs (fqs_redis (completeMessage d m q st)) k \<subseteq> vs (fqs_redis st) k"
    using rel [of "complete d m q (fqs_redis st)" "fqs_redis st"] by (simp add: completeMessage_def Let_def split: option.split)
  show "vs (fqs_redis (fq_releaseMessage d now m q st)) k \<subseteq> vs (fqs_redis st) k"
    using rel [of "v_release d now m q (masterKeyFor d q) (Some now) (fqs_redis st)" "fqs_redis st"]
    by (simp add: fq_releaseMessage_def Let_def split: option.split)
  have "vs (handleMessageFailure d now rnd msg q ref err s) k \<subseteq> vs s k" for msg ref s
    using rel by (simp add: handleMessageFailure_def Let_def split: option.split)
  then show "vs (fqs_redis (failMessage d now rnd m q err st)) k \<subseteq> vs (fqs_redis st) k"
    by (simp add: failMessage_def split: option.split)
  show "vs (snd (fq_heartbeatMessage d now m q s)) = vs s" by (simp add: fq_heartbeatMessage_def)
qed

lemma reclaim_sets: "vs (reclaimTimedOutMessages d now s) k \<subseteq> vs s k"
proof -
  have loop: "vs (snd (reclaim_loop d i now mkf xs s)) = vs s" for i mkf xs s
    by (induction xs arbitrary: s) (auto simp: Let_def case_prod_beta)
  have "vs (reclaim_shards d now is s) k \<subseteq> vs s k" for "is"
  proof (induction "is" arbitrary: s)
    case (Cons i "is")
    obtain rs s1 where r: "reclaimTimedOut d i now (masterKeyFor d) s = (rs, s1)" by fastforce
    have "vs s1 = vs s" using loop r by (auto simp: reclaimTimedOut_def dest!: arg_cong [of _ _ "\<lambda>x. vs (snd x)"])
    define s2 where "s2 = (if d_groups d \<noteq> [] \<and> rs \<noteq> [] then releaseBatch_concurrency d (map reclaimed_ref rs) s1 else s1)"
    have "vs s2 k \<subseteq> vs s k" using vs_releaseBatch_concurrency [of "map reclaimed_ref rs" s1 k] \<open>vs s1 = vs s\<close> by (simp add: s2_def)
    then show ?case using Cons [of s2] by (simp add: r s2_def [symmetric] Let_def)
  qed simp
  then show ?thesis by (simp add: reclaimTimedOutMessages_def)
qed

lemma redrive_sets: "vs (fqs_redis (snd (redriveMessage d now t m st))) = vs (fqs_redis st)"
proof -
  have "vs (fqs_redis st') = vs (fqs_redis st)" if "fq_enqueue d now nano opts st = (r, st')" for nano opts r st'
    using enqueue_sets [of now nano opts st] that by simp
  then show ?thesis by (auto simp: redriveMessage_def split: option.split prod.split sum.split)
qed

lemma redriveAll_sets: "vs (fqs_redis (snd (redriveAll d now t st))) = vs (fqs_redis st)"
proof -
  have "vs (fqs_redis (snd (redrive_loop d now t ms st))) = vs (fqs_redis st)" for ms and st :: "('s, 'c) fq_state"
  proof (induction ms arbitrary: st)
    case (Cons m ms)
    obtain r st1 where r: "redriveMessage d now t (dl_id m) st = (r, st1)" by fastforce
    have "vs (fqs_redis st1) = vs (fqs_redis st)" using redrive_sets [of now t "dl_id m" st] r by simp
    then show ?case using Cons [of st1] r by (cases r) (auto split: prod.split sum.split)
  qed simp
  then show ?thesis by (simp add: redriveAll_def)
qed

lemma del_sets: "vs (rDEL (d_srv d) x s) k \<subseteq> vs s k"
  by (simp add: rDEL_view)

lemma purge_sets: "vs (snd (purgeDeadLetterQueue d t s)) k \<subseteq> vs s k"
  by (simp add: purgeDeadLetterQueue_def rDEL_view)

end

end
