(* ===== verification/Fair_Queue_Schedulers.thy ===== *)
theory Fair_Queue_Schedulers
  imports Fair_Queue_Steps
begin

text \<open>
  Schedulers of the fair queue (\<open>packages/redis-worker/src/fair-queue/scheduler.ts\<close> and \<open>schedulers/\<close>): the
  deficit round robin, whose credits are a hash, and the round robin, which keeps the position in the
  keyspace. Both are shown to obey the laws that the orchestrator relies on. The quantum and the cap of
  the deficit round robin are whole numbers, as in every configuration of the repository.
\<close>

subsection \<open>Common parts\<close>

text \<open>The context's \<open>isAtCapacity\<close>.\<close>

definition ctx_isAtCapacity :: "'s fq_deps \<Rightarrow> string \<Rightarrow> string \<Rightarrow> 's \<Rightarrow> fair_error + bool" where
  "ctx_isAtCapacity d groupName groupId s = (if d_groups d = [] then Inr False else isAtCapacity d groupName groupId s)"

text \<open>The due queues of a shard with their tenants.\<close>

definition due_tenant_queues :: "'s fq_deps \<Rightarrow> key \<Rightarrow> nat \<Rightarrow> time \<Rightarrow> 's \<Rightarrow> (string \<times> string) list" where
  "due_tenant_queues d shardKey masterQueueLimit now s =
     map (\<lambda>(q, score). (q, extractTenantId (d_keys d) q))
       (filter (\<lambda>(q, score). q \<noteq> []) (zRANGEBYSCORE (d_srv d) shardKey now masterQueueLimit s))"

text \<open>\<open>groupQueuesByTenant\<close>: a map in order of first occurrence.\<close>

definition groupQueuesByTenant :: "(string \<times> string) list \<Rightarrow> tenant_queues list" where
  "groupQueuesByTenant queues =
     map (\<lambda>t. (t, map fst (filter (\<lambda>(q, t'). t' = t) queues))) (rev (remdups (rev (map snd queues))))"

fun capacities :: "'s fq_deps \<Rightarrow> string list \<Rightarrow> 's \<Rightarrow> fair_error + bool list" where
  "capacities d [] s = Inr []"
| "capacities d (t # ts) s =
     (case ctx_isAtCapacity d ''tenant'' t s of
        Inl e \<Rightarrow> Inl e
      | Inr b \<Rightarrow> (case capacities d ts s of Inl e \<Rightarrow> Inl e | Inr bs \<Rightarrow> Inr (b # bs)))"

fun filterAtCapacity :: "'s fq_deps \<Rightarrow> tenant_queues list \<Rightarrow> string \<Rightarrow> 's \<Rightarrow> fair_error + tenant_queues list" where
  "filterAtCapacity d [] groupName s = Inr []"
| "filterAtCapacity d (tenant # tenants) groupName s =
     (case ctx_isAtCapacity d groupName (fst tenant) s of
        Inl e \<Rightarrow> Inl e
      | Inr b \<Rightarrow> (case filterAtCapacity d tenants groupName s of
          Inl e \<Rightarrow> Inl e | Inr filtered \<Rightarrow> Inr (if b then filtered else tenant # filtered)))"

definition noopScheduler :: "('s, 'c) fair_scheduler" where
  "noopScheduler = \<lparr>selectQueues = (\<lambda>now k loopId (s, c). (Inr [], s, c)), recordProcessedBatch = (\<lambda>t q n x. x)\<rparr>"

subsection \<open>Deficit round robin\<close>

record drr_config =
  quantum :: int
  maxDeficit :: int
  drr_masterQueueLimit :: nat

text \<open>The first part of the master queue's key.\<close>

definition deficitKey :: "'s fq_deps \<Rightarrow> key" where
  "deficitKey d = rk d (hd (split_on colon (fk_masterQueueKey (d_keys d) 0)) @ '':drr:deficit'')"

text \<open>One tenant of \<open>drrAddQuantum\<close>; a field that is not a number stops the script.\<close>

fun drrAddQuantum :: "'s redis \<Rightarrow> key \<Rightarrow> int \<Rightarrow> int \<Rightarrow> string list \<Rightarrow> 's \<Rightarrow> int list option \<times> 's" where
  "drrAddQuantum R k q m [] s = (Some [], s)"
| "drrAddQuantum R k q m (tenantId # tenantIds) s =
     (case hINCRBYFLOAT R k tenantId q s of
        (None, s) \<Rightarrow> (None, s)
      | (Some r, s) \<Rightarrow>
          (case whole_field (Some r) of
             None \<Rightarrow> (None, s)
           | Some newDeficit \<Rightarrow>
               (let s = (if newDeficit > m then hSET R k tenantId (int_to_string m) s else s);
                    newDeficit = min newDeficit m
                in case drrAddQuantum R k q m tenantIds s of
                     (None, s) \<Rightarrow> (None, s)
                   | (Some results, s) \<Rightarrow> (Some (newDeficit # results), s))))"

definition drrDecrementDeficitBatch :: "'s redis \<Rightarrow> key \<Rightarrow> string \<Rightarrow> int \<Rightarrow> 's \<Rightarrow> int option \<times> 's" where
  "drrDecrementDeficitBatch R k tenantId count s =
     (case hINCRBYFLOAT R k tenantId (- count) s of
        (None, s) \<Rightarrow> (None, s)
      | (Some r, s) \<Rightarrow>
          (case whole_field (Some r) of
             None \<Rightarrow> (None, s)
           | Some newDeficit \<Rightarrow>
               if newDeficit < 0 then (Some 0, hSET R k tenantId (int_to_string 0) s) else (Some newDeficit, s)))"

definition drrDecrementDeficit :: "'s redis \<Rightarrow> key \<Rightarrow> string \<Rightarrow> 's \<Rightarrow> int option \<times> 's" where
  "drrDecrementDeficit R k tenantId s =
     (case hINCRBYFLOAT R k tenantId (- 1) s of
        (None, s) \<Rightarrow> (None, s)
      | (Some r, s) \<Rightarrow>
          (case whole_field (Some r) of
             None \<Rightarrow> (None, s)
           | Some newDeficit \<Rightarrow>
               if newDeficit < 0 then (Some 0, hSET R k tenantId (int_to_string 0) s) else (Some newDeficit, s)))"

text \<open>\<open>parseFloat\<close> of the field. The scripts only write whole numbers; any other text, which \<open>parseFloat\<close> would read as
  another number or as \<open>NaN\<close>, reads as zero here.\<close>

definition getDeficit :: "'s fq_deps \<Rightarrow> string \<Rightarrow> 's \<Rightarrow> int" where
  "getDeficit d tenantId s = with_default (whole_field (hGET (d_srv d) (deficitKey d) tenantId s)) 0"

definition resetDeficit :: "'s fq_deps \<Rightarrow> string \<Rightarrow> 's \<Rightarrow> 's" where
  "resetDeficit d tenantId s = hDEL (d_srv d) (deficitKey d) tenantId s"

text \<open>A script error is an error of the call; the code has no other source of it than a corrupt field.\<close>

definition drr_selectQueues ::
    "'s fq_deps \<Rightarrow> drr_config \<Rightarrow> time \<Rightarrow> key \<Rightarrow> 's \<Rightarrow> (fair_error + tenant_queues list) \<times> 's" where
  "drr_selectQueues d cfg now masterQueueShard s =
     (let queues = due_tenant_queues d masterQueueShard (drr_masterQueueLimit cfg) now s in
      if queues = [] then (Inr [], s)
      else
        (let queuesByTenant = groupQueuesByTenant queues;
             tenantIds = map fst queuesByTenant
         in case drrAddQuantum (d_srv d) (deficitKey d) (quantum cfg) (maxDeficit cfg) tenantIds s of
              (None, s) \<Rightarrow> (Inl ScriptFailed, s)
            | (Some deficits, s) \<Rightarrow>
                (case capacities d tenantIds s of
                   Inl e \<Rightarrow> (Inl e, s)
                 | Inr atCapacity \<Rightarrow>
                     (let tenantData = zip queuesByTenant (zip deficits atCapacity);
                          eligibleTenants = filter (\<lambda>(tq, deficit, full). \<not> full \<and> deficit \<ge> 1) tenantData
                      in (Inr (map fst (sort_key (\<lambda>(tq, deficit, full). - deficit) eligibleTenants)), s)))))"

text \<open>The two methods.\<close>

definition drr_select ::
    "'s fq_deps \<Rightarrow> drr_config \<Rightarrow> time \<Rightarrow> key \<Rightarrow> string \<Rightarrow> 's \<times> 'c \<Rightarrow> (fair_error + tenant_queues list) \<times> 's \<times> 'c" where
  "drr_select d cfg now k loopId x = (case x of (s, c) \<Rightarrow> let (r, s) = drr_selectQueues d cfg now k s in (r, s, c))"

definition drr_record :: "'s fq_deps \<Rightarrow> string \<Rightarrow> string \<Rightarrow> nat \<Rightarrow> 's \<times> 'c \<Rightarrow> 's \<times> 'c" where
  "drr_record d tenantId queueId count x =
     (case x of (s, c) \<Rightarrow> (snd (drrDecrementDeficitBatch (d_srv d) (deficitKey d) tenantId (int count) s), c))"

definition drrScheduler :: "'s fq_deps \<Rightarrow> drr_config \<Rightarrow> ('s, 'c) fair_scheduler" where
  "drrScheduler d cfg = \<lparr>selectQueues = drr_select d cfg, recordProcessedBatch = drr_record d\<rparr>"

lemmas drr_defs = drrScheduler_def drr_select_def drr_record_def

subsection \<open>Round robin\<close>

definition lastServedKey :: "key \<Rightarrow> key" where
  "lastServedKey shardKey = shardKey @ '':rr:lastServed''"

text \<open>\<open>parseInt(value, 10)\<close> of a value that the scheduler wrote.\<close>

definition getLastServedIndex :: "'s redis \<Rightarrow> key \<Rightarrow> 's \<Rightarrow> int" where
  "getLastServedIndex R shardKey s =
     (case rGET R (lastServedKey shardKey) s of
        None \<Rightarrow> 0
      | Some value \<Rightarrow> if value = [] then 0 else with_default (whole_field (Some value)) 0)"

definition setLastServedIndex :: "'s redis \<Rightarrow> key \<Rightarrow> int \<Rightarrow> 's \<Rightarrow> 's" where
  "setLastServedIndex R shardKey index s = rSET R (lastServedKey shardKey) (int_to_string index) s"

definition rotateArray :: "'a list \<Rightarrow> int \<Rightarrow> 'a list" where
  "rotateArray array startIndex =
     (if array = [] then []
      else (let normalizedIndex = nat (startIndex mod int (length array))
            in drop normalizedIndex array @ take normalizedIndex array))"

definition index_of :: "'a \<Rightarrow> 'a list \<Rightarrow> int" where
  "index_of x xs = (if x \<in> set xs then int (length (takeWhile (\<lambda>y. y \<noteq> x) xs)) else - 1)"

definition rr_selectQueues ::
    "'s fq_deps \<Rightarrow> nat \<Rightarrow> time \<Rightarrow> key \<Rightarrow> 's \<Rightarrow> (fair_error + tenant_queues list) \<times> 's" where
  "rr_selectQueues d masterQueueLimit now masterQueueShard s =
     (let queues = due_tenant_queues d masterQueueShard masterQueueLimit now s in
      if queues = [] then (Inr [], s)
      else
        (let queuesByTenant = groupQueuesByTenant queues;
             tenantOrder = map fst queuesByTenant;
             lastServedIndex = getLastServedIndex (d_srv d) masterQueueShard s;
             rotated = rotateArray queuesByTenant lastServedIndex
         in case filterAtCapacity d rotated ''tenant'' s of
              Inl e \<Rightarrow> (Inl e, s)
            | Inr eligibleTenants \<Rightarrow>
                (Inr eligibleTenants,
                 case eligibleTenants of
                   [] \<Rightarrow> s
                 | (tenantId, _) # _ \<Rightarrow> setLastServedIndex (d_srv d) masterQueueShard (index_of tenantId tenantOrder + 1) s)))"

definition roundRobinScheduler :: "'s fq_deps \<Rightarrow> nat \<Rightarrow> ('s, 'c) fair_scheduler" where
  "roundRobinScheduler d masterQueueLimit =
     \<lparr>selectQueues = (\<lambda>now k loopId (s, c). let (r, s) = rr_selectQueues d masterQueueLimit now k s in (r, s, c)),
      recordProcessedBatch = (\<lambda>t q n x. x)\<rparr>"

subsection \<open>The laws\<close>

lemma set_groupQueuesByTenant:
  "(t, qs) \<in> set (groupQueuesByTenant queues) \<Longrightarrow> qs = map fst (filter (\<lambda>(q, t'). t' = t) queues) \<and> t \<in> snd ` set queues"
  by (auto simp: groupQueuesByTenant_def)

lemma keys_groupQueuesByTenant:
  "map fst (groupQueuesByTenant queues) = rev (remdups (rev (map snd queues)))"
  by (simp add: groupQueuesByTenant_def comp_def)

lemma grouped_due: "(t, qs) \<in> set (groupQueuesByTenant queues) \<Longrightarrow> q \<in> set qs \<Longrightarrow> (q, t) \<in> set queues"
  using set_groupQueuesByTenant by fastforce

lemma filterAtCapacity_subset: "filterAtCapacity d ts g s = Inr out \<Longrightarrow> set out \<subseteq> set ts"
  by (induction ts arbitrary: out) (auto split: sum.splits if_splits)

lemma set_rotateArray [simp]: "set (rotateArray xs i) = set xs"
  by (auto simp: rotateArray_def Let_def dest: in_set_dropD in_set_takeD) (metis append_take_drop_id in_set_conv_decomp set_append UnE UnI1 Un_iff)

context fair_server
begin

lemma due_listed:
  assumes "(q, t) \<in> set (due_tenant_queues d (kMaster d i) n now s)"
  shows "aM (fabs d s) i q \<noteq> None" and "t = extractTenantId (d_keys d) q"
  using assms set_zsorted [OF zset_finite [of s "kMaster d i"]]
  by (auto simp: due_tenant_queues_def zRANGEBYSCORE_view fabs_defs dest!: in_set_takeD)

text \<open>The credits live outside the messages' hashes.\<close>

lemma deficit_key_apart:
  assumes "k_separator (d_keys d) = colon" and "colon_free (k_prefix (d_keys d))"
  shows "deficitKey d \<noteq> kQItems d q" and "deficitKey d \<noteq> kInflightData d i" and "deficitKey d \<noteq> kDeadData d t"
proof -
  have "fk_masterQueueKey (d_keys d) 0 = k_prefix (d_keys d) @ colon # (''master'' @ colon # int_to_string 0)"
    using assms(1) by (simp add: fair_key_defs)
  then have "deficitKey d = rk d (k_prefix (d_keys d) @ '':drr:deficit'')"
    using split_on_prefix [OF assms(2)] by (simp add: deficitKey_def)
  then show "deficitKey d \<noteq> kQItems d q" and "deficitKey d \<noteq> kInflightData d i" and "deficitKey d \<noteq> kDeadData d t"
    using assms(1) by (simp_all add: fair_key_defs)
qed

text \<open>What a scheduler may not touch, as one value.\<close>

definition kept :: "'s \<Rightarrow> fstore \<times> (key \<Rightarrow> string set) \<times> (key \<Rightarrow> string list)" where
  "kept s = (fabs d s, v_set (rview (d_srv d) s), v_list (rview (d_srv d) s))"

lemma kept_deficit:
  assumes "k_separator (d_keys d) = colon" and "colon_free (k_prefix (d_keys d))"
  shows "kept (hSET (d_srv d) (deficitKey d) f v s) = kept s" and "kept (snd (hINCRBYFLOAT (d_srv d) (deficitKey d) f n s)) = kept s"
proof -
  have set: "fview d (rview (d_srv d) (hSET (d_srv d) (deficitKey d) f v s)) = fview d (rview (d_srv d) s)" for v
    using deficit_key_apart [OF assms] deficit_key_apart [OF assms, symmetric] by (auto simp: fview_def hSET_view fun_eq_iff)
  have sets: "v_set (rview (d_srv d) (hSET (d_srv d) (deficitKey d) f v s)) = v_set (rview (d_srv d) s)"
    "v_list (rview (d_srv d) (hSET (d_srv d) (deficitKey d) f v s)) = v_list (rview (d_srv d) s)" for v
    by (simp_all add: hSET_view)
  show "kept (hSET (d_srv d) (deficitKey d) f v s) = kept s" using set sets by (simp add: kept_def fabs_def)
  show "kept (snd (hINCRBYFLOAT (d_srv d) (deficitKey d) f n s)) = kept s"
    using hINCRBYFLOAT_field [of "deficitKey d" f n s] set sets by (auto simp: kept_def fabs_def)
qed

lemma drrAddQuantum_kept:
  assumes "k_separator (d_keys d) = colon" and "colon_free (k_prefix (d_keys d))"
  shows "kept (snd (drrAddQuantum (d_srv d) (deficitKey d) q m ts s)) = kept s"
proof (induction ts arbitrary: s)
  case (Cons t ts)
  obtain r s1 where h: "hINCRBYFLOAT (d_srv d) (deficitKey d) t q s = (r, s1)" by fastforce
  have s1: "kept s1 = kept s" using kept_deficit(2) [OF assms, of t q s] h by simp
  show ?case
  proof (cases "\<exists>x n. r = Some x \<and> whole_field (Some x) = Some n")
    case True
    then obtain x n where x: "r = Some x" "whole_field (Some x) = Some n" by blast
    let ?s = "if n > m then hSET (d_srv d) (deficitKey d) t (int_to_string m) s1 else s1"
    have "kept ?s = kept s" using s1 kept_deficit(1) [OF assms] by simp
    then show ?thesis using Cons.IH [of ?s] h x by (auto simp: Let_def split: prod.split option.split)
  next
    case False
    then show ?thesis using h s1 by (auto split: option.split)
  qed
qed simp

lemma drrDecrement_kept:
  assumes "k_separator (d_keys d) = colon" and "colon_free (k_prefix (d_keys d))"
  shows "kept (snd (drrDecrementDeficitBatch (d_srv d) (deficitKey d) t n s)) = kept s"
  using kept_deficit(2) [OF assms, of t "- n" s] kept_deficit(1) [OF assms]
  by (auto simp: drrDecrementDeficitBatch_def split: prod.split option.split)

lemma drr_select_facts:
  assumes "k_separator (d_keys d) = colon" and "colon_free (k_prefix (d_keys d))" and "drr_selectQueues d cfg now k s = (out, s')"
  shows "kept s' = kept s"
    and "out = Inr tqs \<Longrightarrow> set tqs \<subseteq> set (groupQueuesByTenant (due_tenant_queues d k (drr_masterQueueLimit cfg) now s))"
proof -
  let ?q = "due_tenant_queues d k (drr_masterQueueLimit cfg) now s"
  let ?ts = "map fst (groupQueuesByTenant ?q)"
  obtain r s1 where add: "drrAddQuantum (d_srv d) (deficitKey d) (quantum cfg) (maxDeficit cfg) ?ts s = (r, s1)" by fastforce
  have s1: "kept s1 = kept s" using drrAddQuantum_kept [OF assms(1,2), of "quantum cfg" "maxDeficit cfg" ?ts s] add by simp
  show "kept s' = kept s"
    using assms(3) s1 add by (auto simp: drr_selectQueues_def Let_def split: if_splits option.splits sum.splits)
  have zip: "x \<in> set (zip xs ys) \<Longrightarrow> fst x \<in> set xs" for x and xs :: "'x list" and ys :: "'y list"
    by (cases x) (auto dest: set_zip_leftD)
  show "out = Inr tqs \<Longrightarrow> set tqs \<subseteq> set (groupQueuesByTenant ?q)"
    using assms(3) add
    by (auto simp: drr_selectQueues_def Let_def simp del: zip_Cons_Cons split: if_splits option.splits sum.splits dest!: zip)
qed

lemma drr_laws:
  assumes "k_separator (d_keys d) = colon" and "colon_free (k_prefix (d_keys d))"
  shows "scheduler_laws d (drrScheduler d cfg :: ('s, 'c) fair_scheduler)"
proof -
  have sel: "drr_selectQueues d cfg now k s = (out, s')"
    if "selectQueues (drrScheduler d cfg) now k loopId (s, c :: 'c) = (out, s', c')" for now k loopId s c out s' c'
    using that by (simp add: drr_defs case_prod_beta prod_eq_iff)
  have kept: "kept s' = kept s"
    if "selectQueues (drrScheduler d cfg) now k loopId (s, c :: 'c) = (out, s', c')" for now k loopId s c out s' c'
    by (rule drr_select_facts(1) [OF assms sel [OF that]])
  have rec: "kept (fst (recordProcessedBatch (drrScheduler d cfg) t q n (s, c :: 'c))) = kept s" for t q n s c
    using drrDecrement_kept [OF assms] by (simp add: drr_defs)
  show ?thesis
  proof
    fix now i loopId s and c :: 'c and tqs s' c' t qs q
    assume "selectQueues (drrScheduler d cfg) now (kMaster d i) loopId (s, c) = (Inr tqs, s', c')"
      and t: "(t, qs) \<in> set tqs" and q: "q \<in> set qs"
    from drr_select_facts(2) [OF assms sel [OF this(1)] refl] t q
    show "aM (fabs d s) i q \<noteq> None" using due_listed(1) grouped_due by blast
  qed (use kept rec in \<open>auto simp: kept_def\<close>)
qed

lemma rr_laws: "scheduler_laws d (roundRobinScheduler d n :: ('s, 'c) fair_scheduler)"
proof -
  have set: "kept (setLastServedIndex (d_srv d) k i s) = kept s" for k i s
    by (simp add: setLastServedIndex_def kept_def fabs_defs rSET_view)
  have sel: "rr_selectQueues d n now k s = (out, s')"
    if "selectQueues (roundRobinScheduler d n) now k loopId (s, c :: 'c) = (out, s', c')" for now k loopId s c out s' c'
    using that by (simp add: roundRobinScheduler_def case_prod_beta prod_eq_iff)
  have kept: "kept s' = kept s"
    if "selectQueues (roundRobinScheduler d n) now k loopId (s, c :: 'c) = (out, s', c')" for now k loopId s c out s' c'
    using sel [OF that] set by (auto simp: rr_selectQueues_def Let_def split: if_splits sum.splits list.splits)
  show ?thesis
  proof
    fix now i loopId s and c :: 'c and tqs s' c' t qs q
    assume "selectQueues (roundRobinScheduler d n) now (kMaster d i) loopId (s, c) = (Inr tqs, s', c')"
      and t: "(t, qs) \<in> set tqs" and q: "q \<in> set qs"
    then have "set tqs \<subseteq> set (groupQueuesByTenant (due_tenant_queues d (kMaster d i) n now s))"
      using sel by (fastforce simp: rr_selectQueues_def Let_def split: if_splits sum.splits dest!: filterAtCapacity_subset)
    then show "aM (fabs d s) i q \<noteq> None" using t q due_listed(1) grouped_due by blast
  qed (use kept in \<open>auto simp: kept_def roundRobinScheduler_def\<close>)
qed

subsection \<open>Credits\<close>

text \<open>The credit of a tenant, when the field is readable.\<close>

definition credit :: "'s \<Rightarrow> string \<Rightarrow> int option" where
  "credit s t = whole_field (hGET (d_srv d) (deficitKey d) t s)"

lemma credit_set: "credit (hSET (d_srv d) (deficitKey d) t (int_to_string v) s) = (credit s)(t \<mapsto> v)"
  by (simp add: fun_eq_iff credit_def read_views hSET_view)

lemma credit_incr:
  assumes "credit s t = Some n"
  shows "fst (hINCRBYFLOAT (d_srv d) (deficitKey d) t i s) = Some (int_to_string (n + i))"
    and "credit (snd (hINCRBYFLOAT (d_srv d) (deficitKey d) t i s)) = (credit s)(t \<mapsto> n + i)"
proof -
  have n: "whole_field (v_hash (rview (d_srv d) s) (deficitKey d) t) = Some n" using assms by (simp add: credit_def read_views)
  show "fst (hINCRBYFLOAT (d_srv d) (deficitKey d) t i s) = Some (int_to_string (n + i))" by (rule hINCRBYFLOAT_result [OF n])
  have "rview (d_srv d) (snd (hINCRBYFLOAT (d_srv d) (deficitKey d) t i s)) = rview (d_srv d) (hSET (d_srv d) (deficitKey d) t (int_to_string (n + i)) s)"
    by (rule hINCRBYFLOAT_view [OF n])
  then have "credit (snd (hINCRBYFLOAT (d_srv d) (deficitKey d) t i s)) = credit (hSET (d_srv d) (deficitKey d) t (int_to_string (n + i)) s)"
    by (simp add: fun_eq_iff credit_def read_views)
  then show "credit (snd (hINCRBYFLOAT (d_srv d) (deficitKey d) t i s)) = (credit s)(t \<mapsto> n + i)" by (simp add: credit_set)
qed

lemma drrAddQuantum_credits:
  assumes "\<forall>t \<in> set ts. credit s t = Some (c t)" and "distinct ts"
  shows "\<exists>s'. drrAddQuantum (d_srv d) (deficitKey d) q m ts s = (Some (map (\<lambda>t. min (c t + q) m) ts), s')
    \<and> credit s' = (\<lambda>t. if t \<in> set ts then Some (min (c t + q) m) else credit s t)"
  using assms
proof (induction ts arbitrary: s)
  case (Cons t ts)
  obtain r s1 where h: "hINCRBYFLOAT (d_srv d) (deficitKey d) t q s = (r, s1)" by fastforce
  have r: "r = Some (int_to_string (c t + q))" and s1: "credit s1 = (credit s)(t \<mapsto> c t + q)"
    using credit_incr [of s t "c t" q] Cons.prems(1) h by simp_all
  let ?s = "if c t + q > m then hSET (d_srv d) (deficitKey d) t (int_to_string m) s1 else s1"
  have cs: "credit ?s = (credit s)(t \<mapsto> min (c t + q) m)" using s1 by (auto simp: credit_set fun_eq_iff)
  have "\<forall>t \<in> set ts. credit ?s t = Some (c t)" using Cons.prems cs by auto
  then obtain s' where "drrAddQuantum (d_srv d) (deficitKey d) q m ts ?s = (Some (map (\<lambda>t. min (c t + q) m) ts), s')"
      "credit s' = (\<lambda>t. if t \<in> set ts then Some (min (c t + q) m) else credit ?s t)"
    using Cons.IH [of ?s] Cons.prems(2) by auto
  moreover have "drrAddQuantum (d_srv d) (deficitKey d) q m (t # ts) s =
      (case drrAddQuantum (d_srv d) (deficitKey d) q m ts ?s of
         (None, s) \<Rightarrow> (None, s) | (Some results, s) \<Rightarrow> (Some (min (c t + q) m # results), s))"
    using h r by (simp add: Let_def)
  ultimately show ?case using cs Cons.prems(2) by (auto simp: fun_eq_iff)
qed simp

lemma drrDecrement_credits:
  assumes "credit s t = Some c"
  shows "credit (snd (drrDecrementDeficitBatch (d_srv d) (deficitKey d) t n s)) = (credit s)(t \<mapsto> max 0 (c - n))"
  using credit_incr [OF assms, of "- n"]
  by (cases "hINCRBYFLOAT (d_srv d) (deficitKey d) t (- n) s") (auto simp: drrDecrementDeficitBatch_def credit_set)

text \<open>The tenant has no room left.\<close>

definition tenant_full :: "string \<Rightarrow> 's \<Rightarrow> bool" where
  "tenant_full t s \<longleftrightarrow> ctx_isAtCapacity d ''tenant'' t s = Inr True"

lemma ctx_total:
  assumes "d_groups d = [] \<or> groupsByName d ''tenant'' \<noteq> None"
  shows "ctx_isAtCapacity d ''tenant'' t s = Inr (tenant_full t s)"
  using assms by (auto simp: tenant_full_def ctx_isAtCapacity_def isAtCapacity_def getConcurrencyLimit_def)

lemma capacities_total:
  assumes "d_groups d = [] \<or> groupsByName d ''tenant'' \<noteq> None"
  shows "capacities d ts s = Inr (map (\<lambda>t. tenant_full t s) ts)"
  by (induction ts) (simp_all add: ctx_total [OF assms])

lemma filterAtCapacity_total:
  assumes "d_groups d = [] \<or> groupsByName d ''tenant'' \<noteq> None"
  shows "filterAtCapacity d tqs ''tenant'' s = Inr (filter (\<lambda>tq. \<not> tenant_full (fst tq) s) tqs)"
  by (induction tqs) (simp_all add: ctx_total [OF assms])

lemma tenant_full_kept: "kept s' = kept s \<Longrightarrow> tenant_full t s' = tenant_full t s"
  by (simp add: tenant_full_def ctx_isAtCapacity_def isAtCapacity_def getCurrentConcurrency_def sCARD_view kept_def split: sum.split)

lemma distinct_groups: "distinct (map fst (groupQueuesByTenant queues))"
  by (simp add: keys_groupQueuesByTenant)

text \<open>The selection of the deficit round robin in full.\<close>

lemma drr_select_exact:
  fixes now :: time and k :: key and cfg :: drr_config
  assumes "k_separator (d_keys d) = colon" and "colon_free (k_prefix (d_keys d))"
    and "d_groups d = [] \<or> groupsByName d ''tenant'' \<noteq> None"
    and "\<And>t. credit s t = Some (c t)"
  defines "grouped \<equiv> groupQueuesByTenant (due_tenant_queues d k (drr_masterQueueLimit cfg) now s)"
  defines "c' \<equiv> \<lambda>t. if t \<in> fst ` set grouped then min (c t + quantum cfg) (maxDeficit cfg) else c t"
  shows "\<exists>s'. drr_selectQueues d cfg now k s =
      (Inr (sort_key (\<lambda>tq. - c' (fst tq)) (filter (\<lambda>tq. \<not> tenant_full (fst tq) s \<and> 1 \<le> c' (fst tq)) grouped)), s')
    \<and> (\<forall>t. credit s' t = Some (c' t))"
proof (cases "due_tenant_queues d k (drr_masterQueueLimit cfg) now s = []")
  case True
  then show ?thesis using assms(4) by (simp add: drr_selectQueues_def grouped_def c'_def groupQueuesByTenant_def)
next
  case False
  let ?ts = "map fst grouped"
  obtain s1 where add: "drrAddQuantum (d_srv d) (deficitKey d) (quantum cfg) (maxDeficit cfg) ?ts s =
      (Some (map (\<lambda>t. min (c t + quantum cfg) (maxDeficit cfg)) ?ts), s1)"
    and cr: "credit s1 = (\<lambda>t. if t \<in> set ?ts then Some (min (c t + quantum cfg) (maxDeficit cfg)) else credit s t)"
    using drrAddQuantum_credits [of ?ts s c "quantum cfg" "maxDeficit cfg"] assms(4) distinct_groups unfolding grouped_def by blast
  have full: "tenant_full t s1 = tenant_full t s" for t
    using drrAddQuantum_kept [OF assms(1,2), of "quantum cfg" "maxDeficit cfg" ?ts s] add by (intro tenant_full_kept) simp
  let ?f = "\<lambda>tq. (c' (fst tq), tenant_full (fst tq) s)"
  have data: "zip grouped (zip (map (\<lambda>t. min (c t + quantum cfg) (maxDeficit cfg)) ?ts) (map (\<lambda>t. tenant_full t s1) ?ts)) =
      map (\<lambda>tq. (tq, ?f tq)) grouped"
  proof -
    have "map (\<lambda>t. min (c t + quantum cfg) (maxDeficit cfg)) ?ts = map (\<lambda>tq. c' (fst tq)) grouped" by (simp add: c'_def)
    then show ?thesis by (simp add: full zip_map1 zip_map2 zip_same_conv_map comp_def)
  qed
  have srt: "map fst (sort_key (\<lambda>(tq, deficit, full). - deficit) (map (\<lambda>tq. (tq, ?f tq)) xs)) = sort_key (\<lambda>tq. - c' (fst tq)) xs" for xs :: "tenant_queues list"
  proof -
    have "sort_key (\<lambda>(tq, deficit, full). - deficit) (map (\<lambda>tq. (tq, ?f tq)) xs) = map (\<lambda>tq. (tq, ?f tq)) (sort_key (\<lambda>tq. - c' (fst tq)) xs)"
    proof (induction xs)
      case (Cons x xs)
      have "insort_key (\<lambda>(tq, deficit, full). - deficit) (x, ?f x) (map (\<lambda>tq. (tq, ?f tq)) ys) =
          map (\<lambda>tq. (tq, ?f tq)) (insort_key (\<lambda>tq. - c' (fst tq)) x ys)" for ys :: "tenant_queues list"
        by (induction ys) simp_all
      then show ?case using Cons by simp
    qed simp
    then show ?thesis by (simp add: comp_def)
  qed
  have "drr_selectQueues d cfg now k s =
      (Inr (map fst (sort_key (\<lambda>(tq, deficit, full). - deficit)
         (filter (\<lambda>(tq, deficit, full). \<not> full \<and> deficit \<ge> 1) (map (\<lambda>tq. (tq, ?f tq)) grouped)))), s1)"
    using False add unfolding drr_selectQueues_def Let_def grouped_def [symmetric]
    by (simp add: capacities_total [OF assms(3)] data del: map_map)
  then have "drr_selectQueues d cfg now k s =
      (Inr (sort_key (\<lambda>tq. - c' (fst tq)) (filter (\<lambda>tq. \<not> tenant_full (fst tq) s \<and> 1 \<le> c' (fst tq)) grouped)), s1)"
    by (simp add: filter_map comp_def srt)
  moreover have "\<forall>t. credit s1 t = Some (c' t)" using assms(4) by (simp add: cr c'_def)
  ultimately show ?thesis by blast
qed

end

end
