(* ===== verification/Fair_Queue_Delivery.thy ===== *)
theory Fair_Queue_Delivery
  imports Fair_Queue_Operations Fair_Queue_Schedulers
begin

text \<open>
  Delivery. With a scheduler that lists every due queue, a shard pass claims the earliest messages of
  each due queue and hands them to the worker queues; and the reclaim pass returns every message whose
  visibility ran out to its queue.
\<close>

subsection \<open>Loops that reach a queue\<close>

text \<open>Without concurrency groups and cool-off every queue of the selection has its turn. \<open>G\<close> is reached at
  the turn of \<open>q\<close>, with work done, and no other turn changes it.\<close>

locale visiting =
  fixes d :: "'s fq_deps" and sch :: "('s, 'c) fair_scheduler" and now :: time and loopId :: string and i :: int
    and q :: string and listed :: "string set" and P G :: "'s \<Rightarrow> bool"
  assumes free: "d_groups d = []" "\<not> d_cooloffEnabled d"
    and other: "q' \<in> listed \<Longrightarrow> q' \<noteq> q \<Longrightarrow> P (fqs_redis st) \<Longrightarrow>
      P (fqs_redis (snd (claimAndPushToWorkerQueue d now loopId q' t i st)))
      \<and> G (fqs_redis (snd (claimAndPushToWorkerQueue d now loopId q' t i st))) = G (fqs_redis (st :: ('s, 'c) fq_state))"
    and hit: "P (fqs_redis st) \<Longrightarrow> P (fqs_redis (snd (claimAndPushToWorkerQueue d now loopId q t i st)))
      \<and> G (fqs_redis (snd (claimAndPushToWorkerQueue d now loopId q t i st)))
      \<and> (G (fqs_redis (st :: ('s, 'c) fq_state)) \<or> 0 < fst (claimAndPushToWorkerQueue d now loopId q t i st))"
    and record_kept: "P (fst (recordProcessedBatch sch t q' n (s, c))) = P s" "G (fst (recordProcessedBatch sch t q' n (s, c))) = G s"
begin

lemma tenant_loop_reaches:
  assumes "set qs \<subseteq> listed" and "P (fqs_redis st)"
  shows "\<exists>n st'. tenant_loop d sch now loopId i t qs st = (Inr n, st') \<and> P (fqs_redis st')
    \<and> G (fqs_redis st') = (G (fqs_redis st) \<or> q \<in> set qs) \<and> (G (fqs_redis st) \<or> q \<notin> set qs \<or> 0 < n)"
  using assms
proof (induction qs arbitrary: st)
  case (Cons q' qs)
  obtain n1 st1 where cp: "claimAndPushToWorkerQueue d now loopId q' t i st = (n1, st1)" by fastforce
  have 1: "P (fqs_redis st1)" "G (fqs_redis st1) = (G (fqs_redis st) \<or> q' = q)" "G (fqs_redis st) \<or> q' \<noteq> q \<or> 0 < n1"
    using other [of q' st t] hit [of st t] Cons.prems cp by (cases "q' = q"; force)+
  define st2 where "st2 = (if n1 > 0 then
      (let (s, c) = recordProcessedBatch sch t q' n1 (fqs_redis st1, fqs_sched st1) in st1\<lparr>fqs_redis := s, fqs_sched := c\<rparr>) else st1)"
  have 2: "P (fqs_redis st2)" "G (fqs_redis st2) = G (fqs_redis st1)" using 1(1) record_kept by (simp_all add: st2_def case_prod_beta)
  obtain n st' where 3: "tenant_loop d sch now loopId i t qs st2 = (Inr n, st')" "P (fqs_redis st')"
    "G (fqs_redis st') = (G (fqs_redis st2) \<or> q \<in> set qs)" "G (fqs_redis st2) \<or> q \<notin> set qs \<or> 0 < n"
    using Cons.IH [OF _ 2(1)] Cons.prems(1) by auto
  have "tenant_loop d sch now loopId i t (q' # qs) st = (Inr (n1 + n), st')"
    using 3(1) cp free by (simp add: st2_def Let_def)
  then show ?case using 1 2 3 by auto
qed simp

lemma shard_loop_reaches:
  assumes "\<Union> (set ` snd ` set tqs) \<subseteq> listed" and "P (fqs_redis st)"
  shows "\<exists>n st'. shard_loop d sch now loopId i tqs st = (Inr n, st') \<and> P (fqs_redis st')
    \<and> G (fqs_redis st') = (G (fqs_redis st) \<or> q \<in> \<Union> (set ` snd ` set tqs)) \<and> (G (fqs_redis st) \<or> q \<notin> \<Union> (set ` snd ` set tqs) \<or> 0 < n)"
  using assms
proof (induction tqs arbitrary: st)
  case (Cons tq tqs)
  obtain t qs where tq: "tq = (t, qs)" by fastforce
  obtain n1 st1 where 1: "tenant_loop d sch now loopId i t qs st = (Inr n1, st1)" "P (fqs_redis st1)"
    "G (fqs_redis st1) = (G (fqs_redis st) \<or> q \<in> set qs)" "G (fqs_redis st) \<or> q \<notin> set qs \<or> 0 < n1"
    using tenant_loop_reaches [of qs st t] Cons.prems tq by auto
  obtain n st' where "shard_loop d sch now loopId i tqs st1 = (Inr n, st')" "P (fqs_redis st')"
    "G (fqs_redis st') = (G (fqs_redis st1) \<or> q \<in> \<Union> (set ` snd ` set tqs))" "G (fqs_redis st1) \<or> q \<notin> \<Union> (set ` snd ` set tqs) \<or> 0 < n"
    using Cons.IH [OF _ 1(2)] Cons.prems(1) by auto
  then show ?case using 1 tq by auto
qed simp

end

subsection \<open>One queue's turn\<close>

context fair_queue_home
begin

lemma claim_frame:
  "q' \<noteq> q \<Longrightarrow> aQ (fabs d (snd (claimBatch d now q c n vt s))) q' = aQ (fabs d s) q'"
  "j \<noteq> sh q \<Longrightarrow> aF (fabs d (snd (claimBatch d now q c n vt s))) j = aF (fabs d s) j"
proof -
  have loop: "(q' \<noteq> q \<longrightarrow> aQ (fabs d (snd (claimBatch_loop (d_srv d) (kQ d q) (kQItems d q) (kInflight d (sh q)) (kInflightData d (sh q)) q dl ms s))) q' = aQ (fabs d s) q')
    \<and> (j \<noteq> sh q \<longrightarrow> aF (fabs d (snd (claimBatch_loop (d_srv d) (kQ d q) (kQItems d q) (kInflight d (sh q)) (kInflightData d (sh q)) q dl ms s))) j = aF (fabs d s) j)"
    for dl ms s q' j
  proof (induction ms arbitrary: s)
    case (Cons m ms)
    show ?case
    proof (cases "aI (fabs d s) q m")
      case None
      then show ?thesis using Cons [of "zREM (d_srv d) (kQ d q) m s"] by (simp add: fabs_zsets)
    next
      case (Some p)
      then show ?thesis using Cons [of "claim_one (d_srv d) (kQ d q) (kQItems d q) (kInflight d (sh q)) (kInflightData d (sh q)) q dl m p s"]
        by (simp add: Let_def case_prod_beta fabs_claim_one a_claim_def)
    qed
  qed simp
  have parse: "aQ (fabs d (snd (parse_claimed d (sh q) q c dl res s))) = aQ (fabs d s)
    \<and> (j \<noteq> sh q \<longrightarrow> aF (fabs d (snd (parse_claimed d (sh q) q c dl res s))) j = aF (fabs d s) j)" for dl res s j
    by (induction res arbitrary: s) (auto simp: Let_def case_prod_beta fabs_remove split: option.split)
  show "q' \<noteq> q \<Longrightarrow> aQ (fabs d (snd (claimBatch d now q c n vt s))) q' = aQ (fabs d s) q'"
    "j \<noteq> sh q \<Longrightarrow> aF (fabs d (snd (claimBatch d now q c n vt s))) j = aF (fabs d s) j"
    using loop parse by (simp_all add: claimBatch_def claimMessageBatch_script_def shard_same Let_def case_prod_beta)
qed

lemma claim_lists: "v_list (rview (d_srv d) (snd (claimBatch d now q c n vt s))) = v_list (rview (d_srv d) s)"
proof -
  have one: "v_list (rview (d_srv d) (claim_one (d_srv d) k ik fk fdk q dl m p s)) = v_list (rview (d_srv d) s)"
    "v_list (rview (d_srv d) (removeFromInflight d i m q s)) = v_list (rview (d_srv d) s)"
    "v_list (rview (d_srv d) (zREM (d_srv d) k m s)) = v_list (rview (d_srv d) s)" for k ik fk fdk dl m p s i
    by (simp_all add: claim_one_def removeFromInflight_def zADD_view zREM_view hSET_view hDEL_view)
  have loop: "v_list (rview (d_srv d) (snd (claimBatch_loop (d_srv d) k ik fk fdk q dl ms s))) = v_list (rview (d_srv d) s)" for k ik fk fdk dl ms s
    by (induction ms arbitrary: s) (auto simp: one Let_def case_prod_beta split: option.split)
  have parse: "v_list (rview (d_srv d) (snd (parse_claimed d i q c dl res s))) = v_list (rview (d_srv d) s)" for i dl res s
    by (induction res arbitrary: s) (auto simp: one Let_def case_prod_beta split: option.split)
  show ?thesis by (simp add: claimBatch_def claimMessageBatch_script_def case_prod_beta loop parse Let_def)
qed

text \<open>The entries of all worker queues.\<close>

definition handed :: "'s \<Rightarrow> string set" where
  "handed s = (\<Union>w. set (lRANGE (d_srv d) (kWorker d w) s))"

lemma handed_push: "handed (worker_push d w x s) = insert x (handed s)"
  by (auto simp: handed_def worker_push_def read_views lRPUSH_view fair_key_defs rk_def split: if_splits)

lemma push_free:
  "d_groups d = [] \<Longrightarrow> fst (push_claimed d now ref q mk ms s) = length ms \<and> fabs d (snd (push_claimed d now ref q mk ms s)) = fabs d s
    \<and> handed (snd (push_claimed d now ref q mk ms s)) = handed s \<union> (\<lambda>m. makeMember m q) ` im_messageId ` set ms"
  by (induction ms arbitrary: s) (simp_all add: Let_def case_prod_beta handed_push)

text \<open>Without groups a turn claims the earliest \<open>batchClaimSize\<close> messages of the queue.\<close>

lemma claimAndPush_free:
  fixes st :: "('s, 'c) fq_state"
  assumes "d_groups d = []" and "fq_inv d home (fabs d (fqs_redis st))" and "i = sh q"
    and "claimAndPushToWorkerQueue d now loopId q t i st = (n, st')"
  defines "ms \<equiv> claimable q (d_batchClaimSize d) (fabs d (fqs_redis st))"
  shows "n = length ms"
    and "aQ (fabs d (fqs_redis st')) = (\<lambda>q' m. if q' = q \<and> m \<in> set ms then None else aQ (fabs d (fqs_redis st)) q' m)"
    and "aF (fabs d (fqs_redis st')) = (\<lambda>j x. if j = i \<and> x \<in> (\<lambda>m. makeMember m q) ` set ms
      then Some (now + d_visibilityTimeoutMs d) else aF (fabs d (fqs_redis st)) j x)"
    and "handed (fqs_redis st') = handed (fqs_redis st) \<union> (\<lambda>m. makeMember m q) ` set ms"
proof -
  obtain cs s1 where c: "claimBatch d now q loopId (d_batchClaimSize d) (Some (d_visibilityTimeoutMs d)) (fqs_redis st) = (cs, s1)" by fastforce
  note l = claimBatch_moves [OF assms(2) c, folded ms_def]
  have "handed s1 = handed (fqs_redis st)"
    using claim_lists [of now q loopId "d_batchClaimSize d" "Some (d_visibilityTimeoutMs d)" "fqs_redis st"] c by (simp add: handed_def read_views)
  moreover have ids: "im_messageId ` set cs = set ms" using arg_cong [OF l(2), of set] by simp
  moreover have "handed (fqs_redis (update_and_forget d mk' q st0)) = handed (fqs_redis st0)" for mk' and st0 :: "('s, 'c) fq_state"
    by (simp add: update_and_forget_def case_prod_beta Let_def updateMasterQueueIfEmpty_def update_master_def handed_def read_views
        zREM_view zADD_view split: list.split)
  moreover have "fqs_redis st' = (if cs = [] then fqs_redis (update_and_forget d (kMaster d i) q (st\<lparr>fqs_redis := s1\<rparr>))
      else snd (push_claimed d now (with_default (fqs_descriptors st q) \<lparr>qd_id = q, qd_tenantId = t, qd_metadata = []\<rparr>) q (kMaster d i) cs s1))"
    using assms(4) assms(1) c by (cases "cs = []") (auto simp: claimAndPushToWorkerQueue_def Let_def case_prod_beta)
  ultimately show "handed (fqs_redis st') = handed (fqs_redis st) \<union> (\<lambda>m. makeMember m q) ` set ms"
    using push_free [OF assms(1), of now "with_default (fqs_descriptors st q) \<lparr>qd_id = q, qd_tenantId = t, qd_metadata = []\<rparr>" q "kMaster d i" cs s1]
    by (cases "cs = []") simp_all
  have len: "length cs = length ms" using arg_cong [OF l(2), of length] by simp
  have Q: "aQ (fabs d s1) q' m = (if q' = q \<and> m \<in> set ms then None else aQ (fabs d (fqs_redis st)) q' m)" for q' m
    using l(4) [of m] claim_frame(1) [of q' q now loopId "d_batchClaimSize d" "Some (d_visibilityTimeoutMs d)" "fqs_redis st"] c
    by (cases "q' = q") simp_all
  have F: "aF (fabs d s1) j x = (if j = i \<and> x \<in> (\<lambda>m. makeMember m q) ` set ms then Some (now + d_visibilityTimeoutMs d)
      else aF (fabs d (fqs_redis st)) j x)" for j x
    using l(3) [of x] claim_frame(2) [of j q now loopId "d_batchClaimSize d" "Some (d_visibilityTimeoutMs d)" "fqs_redis st"] c
    by (cases "j = i") (simp_all add: assms(3))
  have upd: "aQ (fabs d (fqs_redis (update_and_forget d mk' q' st0))) = aQ (fabs d (fqs_redis st0))
      \<and> aF (fabs d (fqs_redis (update_and_forget d mk' q' st0))) = aF (fabs d (fqs_redis st0))" if "mk' = kMaster d j" for mk' j q' and st0 :: "('s, 'c) fq_state"
    unfolding that by (simp add: update_and_forget_def case_prod_beta Let_def fabs_update_empty)
  have st': "n = length ms" "aQ (fabs d (fqs_redis st')) = aQ (fabs d s1)" "aF (fabs d (fqs_redis st')) = aF (fabs d s1)"
    using assms(4) assms(1) c len push_free [OF assms(1)] upd [OF refl]
    by (cases "cs = []"; auto simp: claimAndPushToWorkerQueue_def Let_def case_prod_beta)+
  show "n = length ms" by (rule st'(1))
  show "aQ (fabs d (fqs_redis st')) = (\<lambda>q' m. if q' = q \<and> m \<in> set ms then None else aQ (fabs d (fqs_redis st)) q' m)"
    unfolding st'(2) using Q by (intro ext)
  show "aF (fabs d (fqs_redis st')) = (\<lambda>j x. if j = i \<and> x \<in> (\<lambda>m. makeMember m q) ` set ms
      then Some (now + d_visibilityTimeoutMs d) else aF (fabs d (fqs_redis st)) j x)"
    unfolding st'(3) using F by (intro ext)
qed

lemma good_claimable:
  assumes "fq_inv d home a" and "m \<in> set (claimable q n a)"
  shows "good_id m"
  using claimable_queued(2) [OF assms(1)] assms(2) queued_facts(2) [OF fq_invD(1) [OF assms(1)]] by blast

lemma claimable_nonempty:
  assumes "fq_inv d home a" and "1 \<le> n" and "aQ a q m \<noteq> None"
  shows "claimable q n a \<noteq> []"
proof -
  have "aQ a q \<noteq> Map.empty" using assms(3) by metis
  then have "zsorted (aQ a q) \<noteq> []" using zsorted_empty_iff [OF fq_invD(2) [OF assms(1), of q]] by simp
  then show ?thesis using assms(2) by (simp add: claimable_def redis_slice_def)
qed

end

subsection \<open>Schedulers that list every due queue\<close>

locale serving_scheduler = scheduler_laws d sch for d :: "'s fq_deps" and sch :: "('s, 'c) fair_scheduler" +
  fixes limit :: nat and ready :: "'s \<Rightarrow> bool"
  assumes select_due: "d_groups d = [] \<Longrightarrow> aM (fabs d s) i q = Some sc \<Longrightarrow> sc \<le> now \<Longrightarrow> q \<noteq> [] \<Longrightarrow>
      card (dom (aM (fabs d s) i)) \<le> limit \<Longrightarrow> ready s \<Longrightarrow>
      \<exists>tqs s' c'. selectQueues sch now (kMaster d i) loopId (s, c) = (Inr tqs, s', c') \<and> q \<in> \<Union> (set ` snd ` set tqs)"

context fair_server
begin

lemma due_complete:
  assumes "aM (fabs d s) i q = Some sc" and "sc \<le> now" and "q \<noteq> []" and "card (dom (aM (fabs d s) i)) \<le> n"
  shows "(q, extractTenantId (d_keys d) q) \<in> set (due_tenant_queues d (kMaster d i) n now s)"
proof -
  let ?z = "aM (fabs d s) i"
  have fin: "finite (dom ?z)" by (simp add: fabs_defs zset_finite)
  have "length (filter (\<lambda>(m, sc). sc \<le> now) (zsorted ?z)) \<le> n"
    using length_filter_le [of "\<lambda>(m, sc). sc \<le> now" "zsorted ?z"] length_zsorted [OF fin] assms(4) by linarith
  then have z: "zRANGEBYSCORE (d_srv d) (kMaster d i) now n s = filter (\<lambda>(m, sc). sc \<le> now) (zsorted ?z)"
    by (simp add: zRANGEBYSCORE_view fabs_defs)
  have "(q, sc) \<in> set (zsorted ?z)" using set_zsorted [OF fin] assms(1) by simp
  then show ?thesis using assms(2,3) by (force simp: due_tenant_queues_def z)
qed

lemma in_groups: "(q, t) \<in> set queues \<Longrightarrow> \<exists>qs. (t, qs) \<in> set (groupQueuesByTenant queues) \<and> q \<in> set qs"
  by (force simp: groupQueuesByTenant_def)

lemma listed_in: "(t, qs) \<in> set tqs \<Longrightarrow> q \<in> set qs \<Longrightarrow> q \<in> \<Union> (set ` snd ` set tqs)"
  by force

lemma rr_serving: "serving_scheduler d (roundRobinScheduler d n :: ('s, 'c) fair_scheduler) n (\<lambda>_. True)"
proof (intro serving_scheduler.intro serving_scheduler_axioms.intro rr_laws)
  fix s i q sc now loopId and c :: 'c
  assume a: "d_groups d = []" "aM (fabs d s) i q = Some sc" "sc \<le> now" "q \<noteq> []" "card (dom (aM (fabs d s) i)) \<le> n"
  let ?g = "groupQueuesByTenant (due_tenant_queues d (kMaster d i) n now s)"
  have due: "due_tenant_queues d (kMaster d i) n now s \<noteq> []" using due_complete [OF a(2-5)] by force
  have "filter (\<lambda>tq. \<not> tenant_full (fst tq) s) (rotateArray ?g k) = rotateArray ?g k" for k
    using a(1) by (simp add: tenant_full_def ctx_isAtCapacity_def)
  then have "\<exists>k s'. rr_selectQueues d n now (kMaster d i) s = (Inr (rotateArray ?g k), s')"
    using a(1) due by (simp add: rr_selectQueues_def filterAtCapacity_total [OF disjI1] Let_def) blast
  then obtain k s' where sel: "rr_selectQueues d n now (kMaster d i) s = (Inr (rotateArray ?g k), s')" by blast
  obtain qs where "(extractTenantId (d_keys d) q, qs) \<in> set ?g" "q \<in> set qs" using in_groups [OF due_complete [OF a(2-5)]] by blast
  then have "q \<in> \<Union> (set ` snd ` set (rotateArray ?g k))" by (intro listed_in) simp_all
  then show "\<exists>tqs s' c'. selectQueues (roundRobinScheduler d n) now (kMaster d i) loopId (s, c) = (Inr tqs, s', c') \<and> q \<in> \<Union> (set ` snd ` set tqs)"
    using sel by (simp add: roundRobinScheduler_def)
qed

text \<open>The deficit round robin lists every due queue in every pass when the quantum is positive: a tenant's
  credit is at least 1 then.\<close>

definition credits_ok :: "'s \<Rightarrow> bool" where
  "credits_ok s \<longleftrightarrow> (\<forall>t. \<exists>n. credit s t = Some n \<and> 0 \<le> n)"

lemma drr_serving:
  assumes "k_separator (d_keys d) = colon" and "colon_free (k_prefix (d_keys d))" and "1 \<le> quantum cfg" and "1 \<le> maxDeficit cfg"
  shows "serving_scheduler d (drrScheduler d cfg :: ('s, 'c) fair_scheduler) (drr_masterQueueLimit cfg) credits_ok"
proof (intro serving_scheduler.intro serving_scheduler_axioms.intro drr_laws [OF assms(1,2)])
  fix s i q sc now loopId and c :: 'c
  assume a: "d_groups d = []" "aM (fabs d s) i q = Some sc" "sc \<le> now" "q \<noteq> []" "card (dom (aM (fabs d s) i)) \<le> drr_masterQueueLimit cfg"
    and r: "credits_ok s"
  let ?g = "groupQueuesByTenant (due_tenant_queues d (kMaster d i) (drr_masterQueueLimit cfg) now s)"
  obtain cr where cr: "\<And>t. credit s t = Some (cr t)" "\<And>t. 0 \<le> cr t" using r unfolding credits_ok_def by metis
  let ?c = "\<lambda>t. if t \<in> fst ` set ?g then min (cr t + quantum cfg) (maxDeficit cfg) else cr t"
  let ?out = "sort_key (\<lambda>tq. - ?c (fst tq)) (filter (\<lambda>tq. \<not> tenant_full (fst tq) s \<and> 1 \<le> ?c (fst tq)) ?g)"
  obtain s' where sel: "drr_selectQueues d cfg now (kMaster d i) s = (Inr ?out, s')"
    using drr_select_exact [OF assms(1,2) disjI1 [OF a(1)] cr(1), where k = "kMaster d i" and cfg = cfg and now = now] by blast
  obtain qs where qs: "(extractTenantId (d_keys d) q, qs) \<in> set ?g" "q \<in> set qs" using in_groups [OF due_complete [OF a(2-5)]] by blast
  have "1 \<le> min (cr t + quantum cfg) (maxDeficit cfg)" for t using cr(2) [of t] assms(3,4) by simp
  then have "(extractTenantId (d_keys d) q, qs) \<in> set ?out"
    using qs a(1) by (force simp: tenant_full_def ctx_isAtCapacity_def)
  then have "q \<in> \<Union> (set ` snd ` set ?out)" using qs(2) by (rule listed_in)
  then show "\<exists>tqs s' c'. selectQueues (drrScheduler d cfg) now (kMaster d i) loopId (s, c) = (Inr tqs, s', c') \<and> q \<in> \<Union> (set ` snd ` set tqs)"
    using sel by (auto simp: drr_defs)
qed

end

subsection \<open>The shard pass delivers\<close>

text \<open>A shard pass at a time when queue \<open>q\<close> of the shard has a message; \<open>a0\<close> is the store before it.\<close>

locale delivering = fair_queue_home d home + serving_scheduler d sch limit ready
  for d :: "'s fq_deps" and home :: "string \<Rightarrow> string" and sch :: "('s, 'c) fair_scheduler" and limit :: nat and ready :: "'s \<Rightarrow> bool" +
  fixes now :: time and loopId :: string and q :: string and a0 :: fstore
  assumes no_groups: "d_groups d = []" and no_cooloff: "\<not> d_cooloffEnabled d" and batch: "1 \<le> d_batchClaimSize d"
    and inv0: "fq_inv d home a0" and waiting: "aQ a0 q \<noteq> Map.empty"
begin

definition taken :: "'s \<Rightarrow> bool" where
  "taken s \<longleftrightarrow> (\<forall>m \<in> set (claimable q (d_batchClaimSize d) a0). aF (fabs d s) (sh q) (makeMember m q) = Some (now + d_visibilityTimeoutMs d)
     \<and> makeMember m q \<in> handed s)"

definition underway :: "'s \<Rightarrow> bool" where
  "underway s \<longleftrightarrow> fq_inv d home (fabs d s) \<and> (taken s \<or> aQ (fabs d s) q = aQ a0 q)"

lemma other_turn:
  assumes "sh q' = sh q" and "q' \<noteq> q" and "underway (fqs_redis st)"
  shows "underway (fqs_redis (snd (claimAndPushToWorkerQueue d now loopId q' t (sh q) st)))
    \<and> taken (fqs_redis (snd (claimAndPushToWorkerQueue d now loopId q' t (sh q) st))) = taken (fqs_redis st)"
proof -
  obtain n st' where c: "claimAndPushToWorkerQueue d now loopId q' t (sh q) st = (n, st')" by fastforce
  have inv: "fq_inv d home (fabs d (fqs_redis st))" using assms(3) by (simp add: underway_def)
  note f = claimAndPush_free [OF no_groups inv assms(1) [symmetric] c]
  have "makeMember m q \<noteq> makeMember m' q'" if "m \<in> set (claimable q (d_batchClaimSize d) a0)"
      "m' \<in> set (claimable q' (d_batchClaimSize d) (fabs d (fqs_redis st)))" for m m'
    using good_claimable [OF inv0 that(1)] good_claimable [OF inv that(2)] assms(2) by (auto simp: good_id_def makeMember_inject)
  then have t: "taken (fqs_redis st') = taken (fqs_redis st)" unfolding taken_def f(3,4) by auto
  have "steps (fabs d (fqs_redis st)) (fabs d (fqs_redis st'))"
    using moves_steps [OF claimAndPush_moves [OF inv assms(1) [symmetric]], of now loopId t] c by simp
  then have "fq_inv d home (fabs d (fqs_redis st'))" using inv by (rule a_steps_inv)
  moreover have "aQ (fabs d (fqs_redis st')) q = aQ (fabs d (fqs_redis st)) q" unfolding f(2) using assms(2) by auto
  ultimately show ?thesis using t assms(3) c by (simp add: underway_def)
qed

lemma own_turn:
  assumes "underway (fqs_redis st)"
  shows "underway (fqs_redis (snd (claimAndPushToWorkerQueue d now loopId q t (sh q) st)))
    \<and> taken (fqs_redis (snd (claimAndPushToWorkerQueue d now loopId q t (sh q) st)))
    \<and> (taken (fqs_redis st) \<or> 0 < fst (claimAndPushToWorkerQueue d now loopId q t (sh q) st))"
proof -
  obtain n st' where c: "claimAndPushToWorkerQueue d now loopId q t (sh q) st = (n, st')" by fastforce
  have inv: "fq_inv d home (fabs d (fqs_redis st))" using assms by (simp add: underway_def)
  note f = claimAndPush_free [OF no_groups inv refl c]
  have "taken (fqs_redis st') \<and> (taken (fqs_redis st) \<or> 0 < n)"
  proof (cases "taken (fqs_redis st)")
    case True
    then show ?thesis unfolding taken_def f(3,4) by simp
  next
    case False
    then have "claimable q (d_batchClaimSize d) (fabs d (fqs_redis st)) = claimable q (d_batchClaimSize d) a0"
      using assms by (simp add: underway_def claimable_def)
    moreover have "claimable q (d_batchClaimSize d) a0 \<noteq> []"
      using waiting claimable_nonempty [OF inv0 batch] by blast
    ultimately show ?thesis unfolding taken_def f(1,3,4) by simp
  qed
  moreover have "steps (fabs d (fqs_redis st)) (fabs d (fqs_redis st'))"
    using moves_steps [OF claimAndPush_moves [OF inv refl], of now loopId q t] c by simp
  then have "fq_inv d home (fabs d (fqs_redis st'))" using inv by (rule a_steps_inv)
  ultimately show ?thesis using c by (simp add: underway_def)
qed

lemma untouched_by_record:
  "underway (fst (recordProcessedBatch sch t q' n (s, c))) = underway s" "taken (fst (recordProcessedBatch sch t q' n (s, c))) = taken s"
  by (simp_all add: underway_def taken_def record_store handed_def read_views conjunct2 [OF record_rest])

end

sublocale delivering \<subseteq> visiting d sch now loopId "sh q" q "{q'. sh q' = sh q}" underway taken
proof
  show "d_groups d = []" and "\<not> d_cooloffEnabled d" by (rule no_groups no_cooloff)+
  fix q' t and st :: "('s, 'c) fq_state"
  show "q' \<in> {q'. sh q' = sh q} \<Longrightarrow> q' \<noteq> q \<Longrightarrow> underway (fqs_redis st) \<Longrightarrow>
      underway (fqs_redis (snd (claimAndPushToWorkerQueue d now loopId q' t (sh q) st)))
      \<and> taken (fqs_redis (snd (claimAndPushToWorkerQueue d now loopId q' t (sh q) st))) = taken (fqs_redis st)"
    using other_turn by simp
qed (fact own_turn untouched_by_record)+

context delivering
begin

lemma pass_delivers:
  assumes "fabs d (fqs_redis st) = a0" and "aQ a0 q m = Some sc" and "sc \<le> now" and "q \<noteq> []"
    and "card (dom (aM a0 (sh q))) \<le> limit" and "ready (fqs_redis st)"
  shows "\<exists>st'. fq_processMasterQueueShard d sch now loopId (sh q) st = (Inr True, st')
    \<and> (\<forall>m \<in> set (claimable q (d_batchClaimSize d) a0). msg_phase_of d home (fabs d (fqs_redis st')) m = MInFlight (now + d_visibilityTimeoutMs d)
        \<and> makeMember m q \<in> handed (fqs_redis st'))"
proof -
  obtain sc' where sc': "aM a0 (sh q) q = Some sc'" "sc' \<le> sc"
    using fq_coreD(5) [OF fq_invD(1) [OF inv0]] assms(2) unfolding master_ok_def by blast
  obtain tqs s' c' where sel: "selectQueues sch now (kMaster d (sh q)) loopId (fqs_redis st, fqs_sched st) = (Inr tqs, s', c')"
    and q: "q \<in> \<Union> (set ` snd ` set tqs)"
    using select_due [OF no_groups, of "fqs_redis st" "sh q" q sc' now loopId "fqs_sched st"] assms sc' by fastforce
  have s': "fabs d s' = a0" using select_store [OF sel] assms(1) by simp
  let ?st = "st\<lparr>fqs_redis := s', fqs_sched := c'\<rparr>"
  have sub: "\<Union> (set ` snd ` set tqs) \<subseteq> {q'. sh q' = sh q}"
  proof
    fix q'
    assume "q' \<in> \<Union> (set ` snd ` set tqs)"
    then obtain t qs where "(t, qs) \<in> set tqs" "q' \<in> set qs" by force
    from select_listed [OF sel this] have "aM a0 (sh q) q' \<noteq> None" using assms(1) by simp
    then show "q' \<in> {q'. sh q' = sh q}" using fq_coreD(5) [OF fq_invD(1) [OF inv0]] unfolding master_ok_def by auto
  qed
  have "underway (fqs_redis ?st)" using s' inv0 by (simp add: underway_def)
  from shard_loop_reaches [OF sub this] q
  obtain n st' where l: "shard_loop d sch now loopId (sh q) tqs ?st = (Inr n, st')" "underway (fqs_redis st')" "taken (fqs_redis st')"
    "taken (fqs_redis ?st) \<or> 0 < n" by auto
  obtain m0 where m0: "m0 \<in> set (claimable q (d_batchClaimSize d) a0)"
    using claimable_nonempty [OF inv0 batch, of q m] assms(2) by (cases "claimable q (d_batchClaimSize d) a0") auto
  have idle: "aF a0 (sh q) (makeMember m' q) = None \<and> good_id m' \<and> home m' = q" if m': "m' \<in> set (claimable q (d_batchClaimSize d) a0)" for m'
  proof -
    obtain p where p: "aI a0 q m' = Some p" using claimable_queued(2) [OF inv0] m' by blast
    note f = queued_facts [OF fq_invD(1) [OF inv0] p]
    show ?thesis using member_none [OF fq_invD(1) [OF inv0] f(2,4)] f(1,2) by simp
  qed
  then have "\<not> taken (fqs_redis ?st)" using m0 s' by (auto simp: taken_def)
  then have "fq_processMasterQueueShard d sch now loopId (sh q) st = (Inr True, st')" using sel l(1,4) by (simp add: fq_processMasterQueueShard_def)
  moreover have "msg_phase_of d home (fabs d (fqs_redis st')) m' = MInFlight (now + d_visibilityTimeoutMs d) \<and> makeMember m' q \<in> handed (fqs_redis st')"
    if m': "m' \<in> set (claimable q (d_batchClaimSize d) a0)" for m'
  proof -
    have g: "good_id m'" "home m' = q" using idle [OF m'] by auto
    have F: "aF (fabs d (fqs_redis st')) (sh q) (makeMember m' q) = Some (now + d_visibilityTimeoutMs d)"
      and H: "makeMember m' q \<in> handed (fqs_redis st')"
      using l(3) m' by (simp_all add: taken_def)
    have core: "fq_core d home {} (fabs d (fqs_redis st'))" using l(2) fq_invD(1) by (auto simp: underway_def)
    have "aFD (fabs d (fqs_redis st')) (sh q) m' \<noteq> None"
      using member_none [OF core g(1), of "sh q"] F g(2) by (metis option.distinct(1))
    then have "msg_phase_of d home (fabs d (fqs_redis st')) m' \<in> range MInFlight" using phase_inflight [OF core, of m'] g(2) by simp
    then show ?thesis using F g H by (auto simp: msg_phase_of_def split: option.splits if_splits)
  qed
  ultimately show ?thesis by blast
qed

end

end
