(* ===== verification/Fair_Queue_Reclaim.thy ===== *)
theory Fair_Queue_Reclaim
  imports Fair_Queue_Operations
begin

text \<open>
  The reclaim pass returns each message whose deadline has passed to its queue, at its original timestamp,
  as long as no shard has more than the hundred timed-out messages that one pass looks at.
\<close>

definition hash_ok :: "'s fq_deps \<Rightarrow> bool" where
  "hash_ok d \<longleftrightarrow> rounds_doubles (d_fl d) \<and> (\<forall>q. 8 \<le> length (d_sha d q)) \<and> d_shardCount d \<le> 2 ^ 31"

context fair_queue_home
begin

lemma shard_in_range:
  assumes "hash_ok d"
  shows "0 \<le> sh q" and "sh q < d_shardCount d"
  using jumpHash_answers [of "d_fl d" "d_sha d" q "d_shardCount d"] assms shards
  by (auto simp: hash_ok_def getShardForQueue_def shard_for_def)

text \<open>One member's turn.\<close>

definition reclaim_score :: "time \<Rightarrow> string option \<Rightarrow> time" where
  "reclaim_score now p = (case (case p of None \<Rightarrow> None | Some j \<Rightarrow> if j = [] then None else d_parse d j) of
     None \<Rightarrow> now | Some msg \<Rightarrow> sm_timestamp msg)"

definition reclaim_turn :: "int \<Rightarrow> time \<Rightarrow> string \<Rightarrow> 's \<Rightarrow> 's" where
  "reclaim_turn i now m s = snd (releaseMessage_script (d_srv d) (kInflight d i) (kInflightData d i) (kQ d (home m)) (kQItems d (home m))
    (masterKeyFor d (home m)) (makeMember m (home m)) m (reclaim_score now (aFD (fabs d s) i m)) (home m) s)"

lemma reclaim_loop_turn:
  assumes "good_id m"
  shows "snd (reclaim_loop d i now (masterKeyFor d) (makeMember m (home m) # xs) s) =
    snd (reclaim_loop d i now (masterKeyFor d) xs (reclaim_turn i now m s))"
proof -
  have "parseMember (makeMember m (home m)) = (m, home m)" "makeMember m (home m) \<noteq> []"
    using assms by (simp_all add: parseMember_makeMember good_id_def, simp add: makeMember_def)
  then show ?thesis by (simp add: Let_def case_prod_beta reclaim_turn_def reclaim_score_def)
qed

lemma fabs_turn:
  "fabs d (reclaim_turn i now m s) = (if aFD (fabs d s) i m = None then fabs d s
     else refresh (sh (home m)) (home m) (a_release i (home m) m (reclaim_score now (aFD (fabs d s) i m)) (fabs d s)))"
  unfolding reclaim_turn_def by (rule fabs_release)

lemma turn_other:
  assumes "m' \<noteq> m"
  shows "aFD (fabs d (reclaim_turn i now m' s)) j m = aFD (fabs d s) j m" and "aQ (fabs d (reclaim_turn i now m' s)) q m = aQ (fabs d s) q m"
    and "j \<noteq> i \<Longrightarrow> aF (fabs d (reclaim_turn i now m s)) j = aF (fabs d s) j"
  using assms by (auto simp: fabs_turn a_release_def split: option.split)

lemma turn_own:
  assumes "aFD (fabs d s) i m = Some p" and "p \<noteq> []" and "d_parse d p = Some msg"
  shows "aQ (fabs d (reclaim_turn i now m s)) (home m) m = Some (sm_timestamp msg)"
  using assms by (simp add: fabs_turn a_release_def reclaim_score_def)

abbreviation members :: "int \<Rightarrow> string list \<Rightarrow> bool" where
  "members i xs \<equiv> \<forall>x \<in> set xs. \<exists>m. good_id m \<and> x = makeMember m (home m) \<and> i = sh (home m)"

lemma reclaim_loop_frame:
  assumes "members i xs" and "makeMember m (home m) \<notin> set xs"
  shows "aFD (fabs d (snd (reclaim_loop d i now (masterKeyFor d) xs s))) j m = aFD (fabs d s) j m
    \<and> aQ (fabs d (snd (reclaim_loop d i now (masterKeyFor d) xs s))) q m = aQ (fabs d s) q m"
  using assms
proof (induction xs arbitrary: s)
  case (Cons x xs)
  obtain m' where m': "good_id m'" "x = makeMember m' (home m')" using Cons.prems(1) by auto
  then have "m' \<noteq> m" using Cons.prems(2) by auto
  then show ?case using Cons.IH [of "reclaim_turn i now m' s"] Cons.prems turn_other(1,2) [of m' m i now s]
    unfolding m'(2) reclaim_loop_turn [OF m'(1)] by simp
qed simp

lemma reclaim_loop_shard:
  assumes "members i xs" and "j \<noteq> i"
  shows "aF (fabs d (snd (reclaim_loop d i now (masterKeyFor d) xs s))) j = aF (fabs d s) j"
  using assms(1)
proof (induction xs arbitrary: s)
  case (Cons x xs)
  obtain m' where m': "good_id m'" "x = makeMember m' (home m')" using Cons.prems(1) by auto
  have "aF (fabs d (reclaim_turn i now m' s)) j = aF (fabs d s) j"
    using assms(2) by (auto simp: fabs_turn a_release_def split: option.split)
  then show ?case using Cons.IH [of "reclaim_turn i now m' s"] Cons.prems unfolding m'(2) reclaim_loop_turn [OF m'(1)] by simp
qed simp

lemma reclaim_loop_hit:
  assumes "members i xs" and "distinct xs" and "makeMember m (home m) \<in> set xs" and "good_id m"
    and "aFD (fabs d s) i m = Some p" and "p \<noteq> []" and "d_parse d p = Some msg"
  shows "aQ (fabs d (snd (reclaim_loop d i now (masterKeyFor d) xs s))) (home m) m = Some (sm_timestamp msg)"
  using assms(1,2,3,5)
proof (induction xs arbitrary: s)
  case (Cons x xs)
  obtain m' where m': "good_id m'" "x = makeMember m' (home m')" using Cons.prems(1) by auto
  let ?s = "reclaim_turn i now m' s"
  show ?case
  proof (cases "m' = m")
    case True
    then have "makeMember m (home m) \<notin> set xs" using Cons.prems(2) m'(2) by simp
    then have "aQ (fabs d (snd (reclaim_loop d i now (masterKeyFor d) xs ?s))) (home m) m = aQ (fabs d ?s) (home m) m"
      using reclaim_loop_frame [where i = i and xs = xs and m = m and now = now and s = ?s] Cons.prems(1) by simp
    then show ?thesis using turn_own [OF Cons.prems(4) assms(6,7)] True unfolding m'(2) reclaim_loop_turn [OF m'(1)] by simp
  next
    case False
    then have "x \<noteq> makeMember m (home m)" using m' assms(4) by (auto simp: good_id_def makeMember_inject)
    then have "aQ (fabs d (snd (reclaim_loop d i now (masterKeyFor d) xs ?s))) (home m) m = Some (sm_timestamp msg)"
      using Cons.IH [of ?s] Cons.prems turn_other(1) [OF False, of i now s] by auto
    then show ?thesis unfolding m'(2) reclaim_loop_turn [OF m'(1)] .
  qed
qed simp

subsection \<open>All shards\<close>

definition shard_turn :: "int \<Rightarrow> time \<Rightarrow> 's \<Rightarrow> 's" where
  "shard_turn i now s = (let (reclaimed, s) = reclaimTimedOut d i now (masterKeyFor d) s
     in if d_groups d \<noteq> [] \<and> reclaimed \<noteq> [] then releaseBatch_concurrency d (map reclaimed_ref reclaimed) s else s)"

lemma reclaim_shards_turn: "reclaim_shards d now (i # is) s = reclaim_shards d now is (shard_turn i now s)"
  by (simp add: shard_turn_def Let_def case_prod_beta)

abbreviation timed_out :: "int \<Rightarrow> time \<Rightarrow> 's \<Rightarrow> string list" where
  "timed_out i now s \<equiv> map fst (zRANGEBYSCORE (d_srv d) (kInflight d i) now 100 s)"

lemma fabs_shard_turn: "fabs d (shard_turn i now s) = fabs d (snd (reclaim_loop d i now (masterKeyFor d) (timed_out i now s) s))"
  by (simp add: shard_turn_def reclaimTimedOut_def Let_def case_prod_beta)

lemma shard_turn_inv:
  assumes "fq_inv d home (fabs d s)"
  shows "fq_inv d home (fabs d (shard_turn i now s))"
  using moves_steps [OF reclaim_loop_moves, of "timed_out i now s" i s now] timed_out_members [OF assms] a_steps_inv [OF _ assms]
  unfolding fabs_shard_turn by blast

lemma shard_turn_other:
  assumes "fq_inv d home (fabs d s)" and "sh (home m) \<noteq> i" and "good_id m"
  shows "aFD (fabs d (shard_turn i now s)) j m = aFD (fabs d s) j m" and "aQ (fabs d (shard_turn i now s)) q m = aQ (fabs d s) q m"
    and "aF (fabs d (shard_turn i now s)) (sh (home m)) = aF (fabs d s) (sh (home m))"
proof -
  have mem: "members i (timed_out i now s)" using timed_out_members [OF assms(1)] by blast
  have "makeMember m (home m) \<notin> set (timed_out i now s)"
  proof
    assume "makeMember m (home m) \<in> set (timed_out i now s)"
    then obtain m' where "good_id m'" "makeMember m (home m) = makeMember m' (home m')" "i = sh (home m')" using mem by blast
    then show False using assms(2,3) by (auto simp: good_id_def makeMember_inject)
  qed
  from reclaim_loop_frame [OF mem this, of now s]
  show "aFD (fabs d (shard_turn i now s)) j m = aFD (fabs d s) j m" and "aQ (fabs d (shard_turn i now s)) q m = aQ (fabs d s) q m"
    unfolding fabs_shard_turn by simp_all
  show "aF (fabs d (shard_turn i now s)) (sh (home m)) = aF (fabs d s) (sh (home m))"
    unfolding fabs_shard_turn by (rule reclaim_loop_shard [OF mem assms(2)])
qed

lemma timed_out_all:
  assumes "card {x. \<exists>dl. aF (fabs d s) i x = Some dl \<and> dl \<le> now} \<le> 100"
  shows "distinct (timed_out i now s)" and "set (timed_out i now s) = {x. \<exists>dl. aF (fabs d s) i x = Some dl \<and> dl \<le> now}"
proof -
  let ?z = "aF (fabs d s) i" and ?l = "filter (\<lambda>(m, sc). sc \<le> now) (zsorted (aF (fabs d s) i))"
  have set: "set (map fst ?l) = {x. \<exists>dl. ?z x = Some dl \<and> dl \<le> now}" by (force simp: set_zsorted)
  have dist: "distinct (map fst ?l)"
    using distinct_fst_zsorted [OF finite_fabs(2), of s i] by (simp add: distinct_map_filter)
  have "length ?l \<le> 100" using distinct_card [OF dist] assms unfolding set by simp
  then have "timed_out i now s = map fst ?l" by (simp add: zRANGEBYSCORE_view fabs_defs)
  then show "distinct (timed_out i now s)" and "set (timed_out i now s) = {x. \<exists>dl. ?z x = Some dl \<and> dl \<le> now}"
    using dist set by simp_all
qed

lemma reclaim_shards_returns:
  assumes "fq_inv d home (fabs d s)" and "good_id m" and "aF (fabs d s) (sh (home m)) (makeMember m (home m)) = Some dl" and "dl \<le> now"
    and "card {x. \<exists>dl. aF (fabs d s) (sh (home m)) x = Some dl \<and> dl \<le> now} \<le> 100"
    and "aFD (fabs d s) (sh (home m)) m = Some p" and "p \<noteq> []" and "d_parse d p = Some msg"
    and "distinct is" and "sh (home m) \<in> set is"
  shows "aQ (fabs d (reclaim_shards d now is s)) (home m) m = Some (sm_timestamp msg)"
  using assms(1,3,5,6,9,10)
proof (induction "is" arbitrary: s)
  case (Cons i "is")
  have inv: "fq_inv d home (fabs d (shard_turn i now s))" by (rule shard_turn_inv [OF Cons.prems(1)])
  show ?case
  proof (cases "i = sh (home m)")
    case True
    note all = timed_out_all [OF Cons.prems(3)]
    have "aQ (fabs d (shard_turn i now s)) (home m) m = Some (sm_timestamp msg)"
      unfolding fabs_shard_turn True
    proof (rule reclaim_loop_hit [OF _ all(1) _ assms(2) Cons.prems(4) assms(7,8)])
      show "members (sh (home m)) (timed_out (sh (home m)) now s)" using timed_out_members [OF Cons.prems(1)] by blast
      show "makeMember m (home m) \<in> set (timed_out (sh (home m)) now s)" unfolding all(2) using Cons.prems(2) assms(4) by blast
    qed
    moreover have "aQ (fabs d (reclaim_shards d now is s')) (home m) m = aQ (fabs d s') (home m) m"
      if "fq_inv d home (fabs d s')" and "sh (home m) \<notin> set is" for "is" s'
      using that
    proof (induction "is" arbitrary: s')
      case (Cons j "is")
      then show ?case using shard_turn_other(2) [OF Cons.prems(1) _ assms(2), of j now "home m"] shard_turn_inv [OF Cons.prems(1), of j now]
        by (simp add: reclaim_shards_turn del: reclaim_shards.simps)
    qed simp
    ultimately show ?thesis using inv Cons.prems(5) True by (simp add: reclaim_shards_turn del: reclaim_shards.simps)
  next
    case False
    note o = shard_turn_other [OF Cons.prems(1) not_sym [OF False] assms(2), of now]
    show ?thesis
      unfolding reclaim_shards_turn
      by (rule Cons.IH [OF inv]) (use o Cons.prems False in simp_all)
  qed
qed simp

lemma reclaim_returns:
  assumes "hash_ok d" and "fq_inv d home (fabs d s)" and "msg_phase_of d home (fabs d s) m = MInFlight dl" and "dl \<le> now"
    and "card {x. \<exists>dl. aF (fabs d s) (sh (home m)) x = Some dl \<and> dl \<le> now} \<le> 100"
  shows "\<exists>msg. getMessageData d m (home m) s = Some msg
    \<and> msg_phase_of d home (fabs d (reclaimTimedOutMessages d now s)) m = MQueued (sm_timestamp msg)"
proof -
  have g: "good_id m" and F: "aF (fabs d s) (sh (home m)) (makeMember m (home m)) = Some dl"
    using assms(3) by (auto simp: msg_phase_of_def split: if_splits option.splits)
  obtain msg where data: "inflight_stored d m (home m) s = Some msg" using inflight_readable [OF assms(2,3)] by blast
  then obtain p where p: "aFD (fabs d s) (sh (home m)) m = Some p" and msg: "p \<noteq> []" "d_parse d p = Some msg"
    by (auto simp: inflight_stored_def split: option.splits if_splits)
  have "aQ (fabs d (reclaimTimedOutMessages d now s)) (home m) m = Some (sm_timestamp msg)"
    unfolding reclaimTimedOutMessages_def
  proof (rule reclaim_shards_returns [OF assms(2) g F assms(4,5) p msg])
    show "distinct (map int [0..<nat (d_shardCount d)])" by (simp add: distinct_map)
    show "sh (home m) \<in> set (map int [0..<nat (d_shardCount d)])"
      using shard_in_range [OF assms(1), of "home m"] by (auto intro!: image_eqI [of _ int "nat (sh (home m))"])
  qed
  then have "msg_phase_of d home (fabs d (reclaimTimedOutMessages d now s)) m = MQueued (sm_timestamp msg)"
    using g by (simp add: msg_phase_of_def)
  moreover have "getMessageData d m (home m) s = Some msg" using data by (simp add: getMessageData_def)
  ultimately show ?thesis by blast
qed

end

end
