(* ===== verification/Fair_Queue_System.thy ===== *)
theory Fair_Queue_System
  imports Fair_Queue_Operations Fair_Queue_Concurrency Fair_Queue_Delivery Fair_Queue_Reclaim
begin

text \<open>
  The fair queue as a whole: the operations that producers, the pass over a shard, the reclaim pass and
  external consumers perform, in any order, as a step relation on its state, and the reachable states.

  The guards are what the callers owe: message ids are not empty, have no colon and belong to one queue
  (\<open>home\<close>), an id is not enqueued again while its message is in flight or dead, consumers name the queue
  of their message, and tenants have no separator in their ids.
\<close>

definition unused_id :: "'s fq_deps \<Rightarrow> (string \<Rightarrow> string) \<Rightarrow> string \<Rightarrow> 's \<Rightarrow> bool" where
  "unused_id d home m s \<longleftrightarrow> hGET (d_srv d) (kInflightData d (getShardForQueue d (home m))) m s = None
     \<and> (\<forall>t. hGET (d_srv d) (kDeadData d t) m s = None)"

inductive fq_step :: "'s fq_deps \<Rightarrow> ('s, 'c) fair_scheduler \<Rightarrow> (string \<Rightarrow> string) \<Rightarrow> ('s, 'c) fq_state \<Rightarrow> ('s, 'c) fq_state \<Rightarrow> bool"
  for d :: "'s fq_deps" and sch :: "('s, 'c) fair_scheduler" and home where
  fs_enqueue: "fq_enqueue d now nano opts st = (out, st') \<Longrightarrow> m = with_default (eo_messageId opts) nano \<Longrightarrow> good_id m \<Longrightarrow>
    home m = eo_queueId opts \<Longrightarrow> tenant_ok d (eo_tenantId opts) \<Longrightarrow> unused_id d home m (fqs_redis st) \<Longrightarrow> fq_step d sch home st st'"
| fs_enqueueBatch: "fq_enqueueBatch d now nanos opts st = (out, st') \<Longrightarrow> tenant_ok d (bo_tenantId opts) \<Longrightarrow>
    (\<And>ids m. out = Inr ids \<Longrightarrow> m \<in> set ids \<Longrightarrow> good_id m \<and> home m = bo_queueId opts \<and> unused_id d home m (fqs_redis st)) \<Longrightarrow>
    fq_step d sch home st st'"
| fs_pass: "fq_processMasterQueueShard d sch now loopId shardId st = (out, st') \<Longrightarrow> fq_step d sch home st st'"
| fs_complete: "good_id m \<Longrightarrow> fq_step d sch home st (completeMessage d m (home m) st)"
| fs_release: "fq_step d sch home st (fq_releaseMessage d now m (home m) st)"
| fs_fail: "fq_step d sch home st (failMessage d now rnd m (home m) err st)"
| fs_heartbeat: "good_id m \<Longrightarrow> fq_heartbeatMessage d now m (home m) (fqs_redis st) = (ok, s) \<Longrightarrow> fq_step d sch home st (st\<lparr>fqs_redis := s\<rparr>)"
| fs_reclaim: "fq_step d sch home st (st\<lparr>fqs_redis := reclaimTimedOutMessages d now (fqs_redis st)\<rparr>)"
| fs_redrive: "redriveMessage d now t m st = (out, st') \<Longrightarrow> fq_step d sch home st st'"
| fs_redriveAll: "redriveAll d now t st = (out, st') \<Longrightarrow> fq_step d sch home st st'"
| fs_purge: "tenant_ok d t \<Longrightarrow> purgeDeadLetterQueue d t (fqs_redis st) = (n, s) \<Longrightarrow> fq_step d sch home st (st\<lparr>fqs_redis := s\<rparr>)"
| fs_pop: "worker_pop d w (fqs_redis st) = (out, s) \<Longrightarrow> fq_step d sch home st (st\<lparr>fqs_redis := s\<rparr>)"
| fs_remove: "fq_step d sch home st (st\<lparr>fqs_redis := worker_remove d w k (fqs_redis st)\<rparr>)"
| fs_clear: "fq_step d sch home st (st\<lparr>fqs_redis := worker_clear d w (fqs_redis st)\<rparr>)"

text \<open>It starts on an empty keyspace.\<close>

definition fq_fresh :: "'s fq_deps \<Rightarrow> ('s, 'c) fq_state \<Rightarrow> bool" where
  "fq_fresh d st \<longleftrightarrow> (\<forall>k. \<not> rEXISTS (d_srv d) k (fqs_redis st))"

inductive fq_reachable :: "'s fq_deps \<Rightarrow> ('s, 'c) fair_scheduler \<Rightarrow> (string \<Rightarrow> string) \<Rightarrow> ('s, 'c) fq_state \<Rightarrow> bool"
  for d :: "'s fq_deps" and sch :: "('s, 'c) fair_scheduler" and home where
  fq_start: "fq_fresh d st \<Longrightarrow> fq_reachable d sch home st"
| fq_more: "fq_reachable d sch home st \<Longrightarrow> fq_step d sch home st st' \<Longrightarrow> fq_reachable d sch home st'"

context fair_queue_home
begin

lemma unused_abs: "unused_id d home m s \<longleftrightarrow> aFD (fabs d s) (sh (home m)) m = None \<and> (\<forall>t. aDD (fabs d s) t m = None)"
  by (simp add: unused_id_def)

lemma worker_ops_abs:
  "fabs d (snd (worker_pop d w s)) = fabs d s" "fabs d (worker_remove d w k s) = fabs d s" "fabs d (worker_clear d w s) = fabs d s"
proof -
  show "fabs d (snd (worker_pop d w s)) = fabs d s"
    using fabs_others(4) [of "kWorker d w" s] by (simp add: worker_pop_def popWithLength_script_def case_prod_beta split: option.split)
  show "fabs d (worker_remove d w k s) = fabs d s" by (simp add: worker_remove_def)
  show "fabs d (worker_clear d w s) = fabs d s"
    by (auto simp: worker_clear_def fabs_defs rDEL_view fun_eq_iff fair_key_defs rk_def)
qed

theorem fq_step_steps:
  assumes "fq_step d sch home st st'" and "scheduler_laws d sch" and "fq_inv d home (fabs d (fqs_redis st))"
  shows "steps (fabs d (fqs_redis st)) (fabs d (fqs_redis st'))"
  using assms(1)
proof cases
  case (fs_enqueue now nano opts out m)
  then show ?thesis using enqueue_steps unfolding unused_abs by blast
next
  case (fs_enqueueBatch now nanos opts out)
  show ?thesis by (rule enqueueBatch_steps [OF fs_enqueueBatch(1,2)]) (use fs_enqueueBatch(3) unused_abs in blast)
next
  case (fs_pass now loopId shardId out)
  then show ?thesis using moves_steps [OF shard_pass_moves [OF assms(2,3)]] by blast
next
  case (fs_complete m)
  then show ?thesis using complete_steps by blast
next
  case (fs_release now m)
  then show ?thesis using release_steps by blast
next
  case (fs_fail now rnd m err)
  then show ?thesis using fail_steps [OF assms(3)] by blast
next
  case (fs_heartbeat m now ok s)
  then show ?thesis using heartbeat_steps [OF fs_heartbeat(2) refl, of "fqs_redis st" now] by simp
next
  case (fs_reclaim now)
  then show ?thesis using moves_steps [OF reclaim_moves [OF assms(3)]] by simp
next
  case (fs_redrive now t m out)
  then show ?thesis using redrive_steps [OF assms(3)] by blast
next
  case (fs_redriveAll now t out)
  then show ?thesis using redriveAll_steps [OF assms(3)] by blast
next
  case (fs_purge t n s)
  then show ?thesis using purge_steps [OF assms(3) fs_purge(2)] by simp
next
  case (fs_pop w out s)
  then show ?thesis using worker_ops_abs(1) [of w "fqs_redis st"] by simp
qed (simp_all add: worker_ops_abs)

lemma fresh_inv:
  assumes "fq_fresh d st"
  shows "fq_inv d home (fabs d (fqs_redis st))"
proof -
  let ?v = "rview (d_srv d) (fqs_redis st)"
  have "v_zset ?v k = Map.empty" "v_hash ?v k = Map.empty" for k
    using assms by (auto simp: fq_fresh_def rEXISTS_view)
  then have "fabs d (fqs_redis st) = \<lparr>aQ = \<lambda>_ _. None, aI = \<lambda>_ _. None, aF = \<lambda>_ _. None, aFD = \<lambda>_ _. None, aD = \<lambda>_ _. None,
      aDD = \<lambda>_ _. None, aM = \<lambda>_ _. None\<rparr>"
    by (simp add: fabs_defs fun_eq_iff)
  then show ?thesis by (simp add: fq_inv_def fq_core_def fq_parts apart_at_def)
qed

lemma reachable_inv:
  assumes "fq_reachable d sch home st" and "scheduler_laws d sch"
  shows "fq_inv d home (fabs d (fqs_redis st))"
  using assms(1)
proof (induction rule: fq_reachable.induct)
  case (fq_start st)
  then show ?case by (rule fresh_inv)
next
  case (fq_more st st')
  show ?case by (rule a_steps_inv [OF fq_step_steps [OF fq_more.hyps(2) assms(2) fq_more.IH] fq_more.IH])
qed

text \<open>The limits.\<close>

lemma step_within:
  assumes "fq_step d sch home st st'" and "scheduler_laws d sch" and "groups_ok d" and "within_limits d (fqs_redis st)"
  shows "within_limits d (fqs_redis st')"
  using assms(1)
proof cases
  case (fs_enqueue now nano opts out m)
  then show ?thesis using enqueue_sets [of now nano opts st] within_shrinks [OF assms(4), of "fqs_redis st'"] by simp
next
  case (fs_enqueueBatch now nanos opts out)
  then show ?thesis using enqueueBatch_sets [of now nanos opts st] within_shrinks [OF assms(4), of "fqs_redis st'"] by simp
next
  case (fs_pass now loopId shardId out)
  then show ?thesis using shard_pass_within [OF assms(2-4), of now loopId shardId] by simp
next
  case (fs_complete m)
  then show ?thesis using within_shrinks [OF assms(4) finishing_sets(1)] by simp
next
  case (fs_release now m)
  then show ?thesis using within_shrinks [OF assms(4) finishing_sets(2)] by simp
next
  case (fs_fail now rnd m err)
  then show ?thesis using within_shrinks [OF assms(4) finishing_sets(3)] by simp
next
  case (fs_heartbeat m now ok s)
  then show ?thesis using finishing_sets(4) [of now m "home m" "fqs_redis st"] within_shrinks [OF assms(4), of s] by simp
next
  case (fs_reclaim now)
  then show ?thesis using within_shrinks [OF assms(4) reclaim_sets] by simp
next
  case (fs_redrive now t m out)
  then show ?thesis using redrive_sets [of now t m st] within_shrinks [OF assms(4), of "fqs_redis st'"] by simp
next
  case (fs_redriveAll now t out)
  then show ?thesis using redriveAll_sets [of now t st] within_shrinks [OF assms(4), of "fqs_redis st'"] by simp
next
  case (fs_purge t n s)
  then show ?thesis using within_shrinks [OF assms(4) purge_sets, of t] by simp
next
  case (fs_pop w out s)
  have "vs (snd (worker_pop d w (fqs_redis st))) = vs (fqs_redis st)"
    using vs_commands(7) [of "kWorker d w" "fqs_redis st"] by (simp add: worker_pop_def popWithLength_script_def case_prod_beta split: option.split)
  then show ?thesis using fs_pop within_shrinks [OF assms(4), of s] by simp
next
  case (fs_remove w k)
  then show ?thesis using within_shrinks [OF assms(4), of "fqs_redis st'"] by (simp add: worker_remove_def)
next
  case (fs_clear w)
  then show ?thesis using within_shrinks [OF assms(4) del_sets, of "kWorker d w"] by (simp add: worker_clear_def)
qed

lemma reachable_within:
  assumes "fq_reachable d sch home st" and "scheduler_laws d sch" and "groups_ok d"
  shows "within_limits d (fqs_redis st)"
  using assms(1)
proof (induction rule: fq_reachable.induct)
  case (fq_start st)
  then have "v_set (rview (d_srv d) (fqs_redis st)) k = {}" for k by (simp add: fq_fresh_def rEXISTS_view)
  then show ?case by (simp add: within_limits_def getCurrentConcurrency_def sCARD_view)
next
  case (fq_more st st')
  then show ?case using step_within [OF _ assms(2,3)] by blast
qed

end

end
