(* ===== verification/Fair_Queue_Properties.thy ===== *)
theory Fair_Queue_Properties
  imports Fair_Queue_System Field_Codec
begin

text \<open>
  What the fair queue guarantees, over every server, codec and scheduler that obeys the laws. The laws are
  satisfied by the reference server, an executable codec and the two schedulers of the package; the
  witnesses run on that instance.
\<close>

subsection \<open>An instance\<close>

fun pair_up :: "string list \<Rightarrow> (string \<times> string) list" where
  "pair_up (k # v # rest) = (k, v) # pair_up rest"
| "pair_up _ = []"

definition metadata_string :: "(string \<times> string) list option \<Rightarrow> string" where
  "metadata_string md = option_string (map_option (\<lambda>l. put_fields (concat (map (\<lambda>(k, v). [k, v]) l))) md)"

definition string_metadata :: "string \<Rightarrow> (string \<times> string) list option" where
  "string_metadata s = map_option (\<lambda>s. pair_up (get_fields s)) (string_option s)"

definition demo_stringify :: "stored_message \<Rightarrow> string" where
  "demo_stringify m = put_fields [sm_id m, sm_queueId m, sm_tenantId m, sm_payload m, int_to_string (sm_timestamp m),
     int_to_string (sm_attempt m), option_string (sm_workerQueue m), metadata_string (sm_metadata m)]"

definition demo_parse :: "string \<Rightarrow> stored_message option" where
  "demo_parse s =
     (case get_fields s of
        [i, q, t, p, ts, n, w, md] \<Rightarrow>
          (case (int_of_string ts, int_of_string n) of
             (Some ts, Some n) \<Rightarrow> Some \<lparr>sm_id = i, sm_queueId = q, sm_tenantId = t, sm_payload = p, sm_timestamp = ts, sm_attempt = n,
               sm_workerQueue = string_option w, sm_metadata = string_metadata md\<rparr>
           | _ \<Rightarrow> None)
      | _ \<Rightarrow> None)"

definition demo_dlqStringify :: "dead_letter_message \<Rightarrow> string" where
  "demo_dlqStringify m = put_fields [dl_id m, dl_queueId m, dl_tenantId m, dl_payload m, int_to_string (dl_deadLetteredAt m),
     int_to_string (dl_attempts m), option_string (dl_lastError m), int_to_string (dl_originalTimestamp m)]"

definition demo_dlqParse :: "string \<Rightarrow> dead_letter_message option" where
  "demo_dlqParse s =
     (case get_fields s of
        [i, q, t, p, dead, n, e, ts] \<Rightarrow>
          (case (int_of_string dead, int_of_string n, int_of_string ts) of
             (Some dead, Some n, Some ts) \<Rightarrow> Some \<lparr>dl_id = i, dl_queueId = q, dl_tenantId = t, dl_payload = p, dl_deadLetteredAt = dead,
               dl_attempts = n, dl_lastError = string_option e, dl_originalTimestamp = ts\<rparr>
           | _ \<Rightarrow> None)
      | _ \<Rightarrow> None)"

lemma pair_up_concat: "pair_up (concat (map (\<lambda>(k, v). [k, v]) l)) = l"
  by (induction l) auto

lemma string_metadata_string: "string_metadata (metadata_string md) = md"
  by (cases md) (simp_all add: string_metadata_def metadata_string_def pair_up_concat)

lemma put_fields_nonempty: "put_fields (f # fs) \<noteq> []"
  by (simp add: put_fields_def put_field_def)

lemma demo_codec:
  "demo_parse (demo_stringify m) = Some m" "demo_stringify m \<noteq> []"
  "demo_dlqParse (demo_dlqStringify x) = Some x" "demo_dlqStringify x \<noteq> []"
  by (simp_all add: demo_parse_def demo_stringify_def demo_dlqParse_def demo_dlqStringify_def string_metadata_string put_fields_nonempty)

definition demo_deps :: "concurrency_group list \<Rightarrow> store fq_deps" where
  "demo_deps groups = \<lparr>d_srv = mem_redis, d_prefix = [], d_keys = defaultFairKeys, d_fl = (\<lambda>q. q), d_pow = (\<lambda>b n. b ^ nat n),
     d_sha = (\<lambda>_. replicate 32 7), d_stringify = demo_stringify, d_parse = demo_parse, d_dlqStringify = demo_dlqStringify,
     d_dlqParse = demo_dlqParse, d_accepts = (\<lambda>p. p \<noteq> ''bad''), d_groups = groups, d_retryStrategy = Some (FixedDelayRetry 2 500),
     d_deadLetterQueueEnabled = True, d_shardCount = 2, d_visibilityTimeoutMs = 30000, d_heartbeatIntervalMs = 10000,
     d_batchClaimSize = 10, d_cooloffEnabled = False, d_cooloffThreshold = 10, d_cooloffPeriodMs = 10000, d_maxCooloffStatesSize = 1000,
     d_workerQueueResolver = (\<lambda>_. ''main'')\<rparr>"

definition demo_home :: "string \<Rightarrow> string" where
  "demo_home m = ''tenant:t1''"

definition demo_group :: concurrency_group where
  "demo_group = \<lparr>g_name = ''tenant'', g_extractGroupId = qd_tenantId, g_getLimit = (\<lambda>_. 0), g_defaultLimit = 1\<rparr>"

definition demo_drr :: drr_config where
  "demo_drr = \<lparr>quantum = 5, maxDeficit = 50, drr_masterQueueLimit = 10\<rparr>"

definition demo_start :: "(store, unit) fq_state" where
  "demo_start = \<lparr>fqs_redis = empty_store, fqs_sched = (), fqs_descriptors = (\<lambda>_. None), fqs_cooloff = []\<rparr>"

lemma demo_deps_simps [simp]:
  "d_srv (demo_deps gs) = mem_redis" "d_keys (demo_deps gs) = defaultFairKeys" "d_groups (demo_deps gs) = gs"
  "d_shardCount (demo_deps gs) = 2" "d_batchClaimSize (demo_deps gs) = 10" "d_visibilityTimeoutMs (demo_deps gs) = 30000"
  "d_retryStrategy (demo_deps gs) = Some (FixedDelayRetry 2 500)"
  "d_heartbeatIntervalMs (demo_deps gs) = 10000" "d_cooloffEnabled (demo_deps gs) = False"
  "k_separator defaultFairKeys = colon" "k_prefix defaultFairKeys = ''fq''"
  by (simp_all add: demo_deps_def defaultFairKeys_def)

interpretation demo: fair_queue_home "demo_deps gs" demo_home for gs
proof (intro fair_queue_home.intro fair_server.intro fair_server_axioms.intro)
  show "redis_server (d_srv (demo_deps gs))" by (simp add: mem.redis_server_axioms)
qed (simp_all add: demo_deps_def demo_codec)

interpretation demo_rr: serving_scheduler "demo_deps gs" "roundRobinScheduler (demo_deps gs) n :: (store, 'c) fair_scheduler" n "\<lambda>_. True" for gs n
  by (rule demo.rr_serving)

interpretation demo_drr: serving_scheduler "demo_deps gs" "drrScheduler (demo_deps gs) demo_drr :: (store, 'c) fair_scheduler" 10 "demo.credits_ok gs" for gs
  using demo.drr_serving [of gs demo_drr] by (simp add: demo_drr_def)

lemma demo_hash_ok: "hash_ok (demo_deps gs)"
  by (simp add: hash_ok_def demo_deps_def rounds_doubles_id)

lemma demo_fresh: "fq_fresh (demo_deps gs) demo_start"
  by (simp add: fq_fresh_def demo_start_def mem_redis_defs empty_store_def)

definition demo_opts :: "string \<Rightarrow> time \<Rightarrow> enqueue_options" where
  "demo_opts m t = \<lparr>eo_queueId = ''tenant:t1'', eo_tenantId = ''t1'', eo_payload = ''p'', eo_messageId = Some m, eo_timestamp = Some t,
     eo_metadata = None\<rparr>"

text \<open>A message waits, then is in flight.\<close>

definition demo_waiting :: "concurrency_group list \<Rightarrow> (store, unit) fq_state" where
  "demo_waiting gs = snd (fq_enqueue (demo_deps gs) 100 [] (demo_opts ''m1'' 100) demo_start)"

definition demo_flying :: "concurrency_group list \<Rightarrow> (store, unit) fq_state" where
  "demo_flying gs = snd (fq_processMasterQueueShard (demo_deps gs) (roundRobinScheduler (demo_deps gs) 10) 200 ''loop'' 0 (demo_waiting gs))"

lemma demo_shard: "getShardForQueue (demo_deps gs) ''tenant:t1'' = 0"
proof -
  have "shard_for (demo_deps []) ''tenant:t1'' 2 = 0" by code_simp
  then show ?thesis by (simp add: getShardForQueue_def shard_for_def demo_deps_def)
qed

lemma demo_waiting_reachable: "fq_reachable (demo_deps gs) (roundRobinScheduler (demo_deps gs) 10) demo_home (demo_waiting gs)"
proof (rule fq_more [OF fq_start [OF demo_fresh]])
  have "unused_id (demo_deps gs) demo_home ''m1'' (fqs_redis demo_start)"
    by (simp add: unused_id_def demo_start_def empty_store_def mem_redis_defs)
  then show "fq_step (demo_deps gs) (roundRobinScheduler (demo_deps gs) 10) demo_home demo_start (demo_waiting gs)"
    unfolding demo_waiting_def
    by (intro fs_enqueue [OF surjective_pairing refl]) (simp_all add: demo_opts_def demo_home_def good_id_def tenant_ok_def with_default_def)
qed

lemma demo_flying_reachable: "fq_reachable (demo_deps gs) (roundRobinScheduler (demo_deps gs) 10) demo_home (demo_flying gs)"
  unfolding demo_flying_def by (rule fq_more [OF demo_waiting_reachable fs_pass [OF surjective_pairing]])

subsection \<open>Invariant, life cycle, limits\<close>





text \<open>C23. Whatever the operations and their order, the number of messages that hold a slot of a concurrency group
  never exceeds the group's limit.\<close>

theorem fair_queue_limits:
  assumes "fair_server d" and "scheduler_laws d sch" and "groups_ok d" and "fq_reachable d sch home st" and "g \<in> set (d_groups d)"
  shows "getCurrentConcurrency d (g_name g) groupId (fqs_redis st) \<le> max 0 (group_limit g groupId)"
  using fair_queue_home.reachable_within [OF fair_queue_home.intro [OF assms(1)] assms(4,2,3)] assms(5) by (simp add: within_limits_def)

theorem fair_queue_limits_witness:
  "getCurrentConcurrency (demo_deps [demo_group]) (g_name demo_group) ''t1'' (fqs_redis (demo_flying [demo_group])) \<le> 1
   \<and> getCurrentConcurrency (demo_deps [demo_group]) (g_name demo_group) ''t1'' (fqs_redis (demo_flying [demo_group])) = 1"
proof
  have ok: "groups_ok (demo_deps [demo_group])" by (simp add: groups_ok_def demo_group_def)
  from fair_queue_limits [OF demo.fair_server_axioms demo_rr.scheduler_laws_axioms ok demo_flying_reachable, of demo_group "''t1''"]
  show "getCurrentConcurrency (demo_deps [demo_group]) (g_name demo_group) ''t1'' (fqs_redis (demo_flying [demo_group])) \<le> 1"
    by (simp add: group_limit_def demo_group_def)
  show "getCurrentConcurrency (demo_deps [demo_group]) (g_name demo_group) ''t1'' (fqs_redis (demo_flying [demo_group])) = 1" by code_simp
qed

subsection \<open>Delivery\<close>

lemma demo_waiting_facts:
  "zSCORE mem_redis (kQ (demo_deps []) ''tenant:t1'') ''m1'' (fqs_redis (demo_waiting [])) = Some 100"
  "zCARD mem_redis (kMaster (demo_deps []) 0) (fqs_redis (demo_waiting [])) = 1"
  by code_simp+



text \<open>C25. A message is not stuck in flight: once its deadline has passed, and while its shard has at most the
  hundred timed-out messages that a pass looks at, the reclaim pass returns it to its queue at its
  original timestamp.\<close>

theorem fair_reclaim_returns:
  assumes "fair_server d" and "hash_ok d" and "scheduler_laws d sch" and "fq_reachable d sch home st"
    and "msg_phase_of d home (fabs d (fqs_redis st)) m = MInFlight deadline" and "deadline \<le> now"
    and "zCOUNT (d_srv d) (kInflight d (getShardForQueue d (home m))) now (fqs_redis st) \<le> 100"
  shows "\<exists>msg. getMessageData d m (home m) (fqs_redis st) = Some msg
    \<and> msg_phase_of d home (fabs d (reclaimTimedOutMessages d now (fqs_redis st))) m = MQueued (sm_timestamp msg)"
proof -
  have home: "fair_queue_home d" using assms(1) by (rule fair_queue_home.intro)
  have "card {x. \<exists>dl. aF (fabs d (fqs_redis st)) (getShardForQueue d (home m)) x = Some dl \<and> dl \<le> now} \<le> 100"
    using assms(7) redis_server.zCOUNT_view [OF fair_server.axioms(1) [OF assms(1)]] by (simp add: fabs_defs)
  from fair_queue_home.reclaim_returns [OF home assms(2) fair_queue_home.reachable_inv [OF home assms(4,3)] assms(5,6) this]
  show ?thesis .
qed

lemma demo_flying_phase: "msg_phase_of (demo_deps []) demo_home (fabs (demo_deps []) (fqs_redis (demo_flying []))) ''m1'' = MInFlight 30200"
proof -
  have "zSCORE mem_redis (kQ (demo_deps []) ''tenant:t1'') ''m1'' (fqs_redis (demo_flying [])) = None"
    "zSCORE mem_redis (kInflight (demo_deps []) 0) ''m1:tenant:t1'' (fqs_redis (demo_flying [])) = Some 30200" by code_simp+
  then show ?thesis
    by (simp add: msg_phase_of_def demo_home_def demo_shard good_id_def makeMember_def mem.read_views fabs_defs)
qed

theorem fair_reclaim_returns_witness:
  "\<exists>msg. getMessageData (demo_deps []) ''m1'' (demo_home ''m1'') (fqs_redis (demo_flying [])) = Some msg
    \<and> msg_phase_of (demo_deps []) demo_home (fabs (demo_deps []) (reclaimTimedOutMessages (demo_deps []) 40000 (fqs_redis (demo_flying [])))) ''m1''
        = MQueued (sm_timestamp msg)"
proof -
  have "zCOUNT mem_redis (kInflight (demo_deps []) 0) 40000 (fqs_redis (demo_flying [])) = 1" by code_simp
  then have "zCOUNT (d_srv (demo_deps [])) (kInflight (demo_deps []) (getShardForQueue (demo_deps []) (demo_home ''m1''))) 40000 (fqs_redis (demo_flying [])) \<le> 100"
    by (simp add: demo_home_def demo_shard)
  from fair_reclaim_returns [OF demo.fair_server_axioms demo_hash_ok demo_rr.scheduler_laws_axioms demo_flying_reachable demo_flying_phase _ this]
  show ?thesis by simp
qed

interpretation demo_delivery: delivering "demo_deps []" demo_home "roundRobinScheduler (demo_deps []) 10 :: (store, unit) fair_scheduler" 10
    "\<lambda>_. True" 200 "''loop''" "''tenant:t1''" "fabs (demo_deps []) (fqs_redis (demo_waiting []))"
proof (intro delivering.intro delivering_axioms.intro)
  show "fair_queue_home (demo_deps [])" by (rule demo.fair_queue_home_axioms)
  show "serving_scheduler (demo_deps []) (roundRobinScheduler (demo_deps []) 10 :: (store, unit) fair_scheduler) 10 (\<lambda>_. True)"
    by (rule demo_rr.serving_scheduler_axioms)
  show "fq_inv (demo_deps []) demo_home (fabs (demo_deps []) (fqs_redis (demo_waiting [])))"
    by (rule demo.reachable_inv [OF demo_waiting_reachable demo_rr.scheduler_laws_axioms])
  show "aQ (fabs (demo_deps []) (fqs_redis (demo_waiting []))) ''tenant:t1'' \<noteq> Map.empty"
    using demo_waiting_facts(1) by (auto simp: demo.fabs_reads [of "[]", simplified] dest: fun_cong [where x = "''m1''"])
qed simp_all

subsection \<open>Messages in flight\<close>

text \<open>C27. What a consumer reads of a message in flight is typed as the code assumes: in every reachable state the
  stored data of a message parses, carries the id and the queue it is stored under, and a tenant that
  makes a well-formed dead letter key.\<close>

theorem message_data_well_formed:
  assumes "fair_server d" and "scheduler_laws d sch" and "fq_reachable d sch home st"
    and "msg_phase_of d home (fabs d (fqs_redis st)) m = MInFlight deadline"
  shows "\<exists>msg. getMessageData d m (home m) (fqs_redis st) = Some msg \<and> sm_id msg = m \<and> sm_queueId msg = home m \<and> tenant_ok d (sm_tenantId msg)"
proof -
  have home: "fair_queue_home d" using assms(1) by (rule fair_queue_home.intro)
  have inv: "fq_inv d home (fabs d (fqs_redis st))" by (rule fair_queue_home.reachable_inv [OF home assms(3,2)])
  obtain msg where "inflight_stored d m (home m) (fqs_redis st) = Some msg"
    using fair_queue_home.inflight_readable [OF home inv assms(4)] by blast
  then show ?thesis using fair_queue_home.stored_facts [OF home inv _ refl] by (simp add: getMessageData_def)
qed

theorem message_data_well_formed_witness:
  "\<exists>msg. getMessageData (demo_deps []) ''m1'' (demo_home ''m1'') (fqs_redis (demo_flying [])) = Some msg \<and> sm_id msg = ''m1''
     \<and> sm_queueId msg = demo_home ''m1'' \<and> tenant_ok (demo_deps []) (sm_tenantId msg)"
  by (rule message_data_well_formed [OF demo.fair_server_axioms demo_rr.scheduler_laws_axioms demo_flying_reachable demo_flying_phase])

text \<open>The next delay of the configured strategy.\<close>

definition strategy_delay :: "'s fq_deps \<Rightarrow> rat \<Rightarrow> int \<Rightarrow> int option" where
  "strategy_delay d rnd attempt =
     (case d_retryStrategy d of None \<Rightarrow> None | Some strategy \<Rightarrow> getNextDelay (d_fl d) (d_pow d) rnd strategy attempt)"

text \<open>C26. Failing a message never loses it: when the strategy gives a delay it is back in its queue, due after the
  delay, with the attempt counted and nothing else changed; when the strategy gives up it is dead, with
  its payload, its attempts and the error kept for its tenant, or gone where the dead letter queue is
  off.\<close>

theorem failMessage_retries_or_buries:
  assumes "fair_server d" and "scheduler_laws d sch" and "fq_reachable d sch home st"
    and "getMessageData d m (home m) (fqs_redis st) = Some msg"
  shows "case strategy_delay d rnd (sm_attempt msg) of
      Some delay \<Rightarrow>
        msg_phase_of d home (fabs d (fqs_redis (failMessage d now rnd m (home m) err st))) m = MQueued (now + delay)
        \<and> hGET (d_srv d) (kQItems d (home m)) m (fqs_redis (failMessage d now rnd m (home m) err st))
            = Some (d_stringify d (msg\<lparr>sm_attempt := sm_attempt msg + 1\<rparr>))
    | None \<Rightarrow>
        if d_deadLetterQueueEnabled d
        then msg_phase_of d home (fabs d (fqs_redis (failMessage d now rnd m (home m) err st))) m = MDead
          \<and> hGET (d_srv d) (kDeadData d (sm_tenantId msg)) m (fqs_redis (failMessage d now rnd m (home m) err st))
              = Some (d_dlqStringify d \<lparr>dl_id = m, dl_queueId = home m, dl_tenantId = sm_tenantId msg, dl_payload = sm_payload msg,
                  dl_deadLetteredAt = now, dl_attempts = sm_attempt msg, dl_lastError = err, dl_originalTimestamp = sm_timestamp msg\<rparr>)
        else msg_phase_of d home (fabs d (fqs_redis (failMessage d now rnd m (home m) err st))) m = MAbsent"
proof -
  have home: "fair_queue_home d" using assms(1) by (rule fair_queue_home.intro)
  have inv: "fq_inv d home (fabs d (fqs_redis st))" by (rule fair_queue_home.reachable_inv [OF home assms(3,2)])
  have data: "inflight_stored d m (home m) (fqs_redis st) = Some msg" using assms(4) by (simp add: getMessageData_def)
  have "strategy_delay d rnd (sm_attempt msg) = fair_queue_home.next_delay d rnd msg"
    by (simp add: strategy_delay_def fair_queue_home.next_delay_def [OF home])
  then show ?thesis
    using fair_queue_home.fail_outcome [OF home inv data, where rnd = rnd and now = now and err = err]
    by (auto simp: fair_server.fabs_reads [OF assms(1)] split: option.split)
qed

definition demo_message :: stored_message where
  "demo_message = \<lparr>sm_id = ''m1'', sm_queueId = ''tenant:t1'', sm_tenantId = ''t1'', sm_payload = ''p'', sm_timestamp = 100, sm_attempt = 1,
     sm_workerQueue = Some ''main'', sm_metadata = None\<rparr>"

theorem failMessage_retries_or_buries_witness:
  "msg_phase_of (demo_deps []) demo_home (fabs (demo_deps []) (fqs_redis
      (failMessage (demo_deps []) 300 0 ''m1'' ''tenant:t1'' None (demo_flying [])))) ''m1'' = MQueued 800"
proof -
  have "getMessageData (demo_deps []) ''m1'' ''tenant:t1'' (fqs_redis (demo_flying [])) = Some demo_message" by code_simp
  then have data: "getMessageData (demo_deps []) ''m1'' (demo_home ''m1'') (fqs_redis (demo_flying [])) = Some demo_message"
    by (simp add: demo_home_def)
  show ?thesis
    using failMessage_retries_or_buries [OF demo.fair_server_axioms demo_rr.scheduler_laws_axioms demo_flying_reachable data,
        where now = 300 and rnd = 0 and err = None]
    by (simp add: strategy_delay_def demo_message_def demo_home_def)
qed

subsection \<open>Schedulers\<close>


lemma demo_credits:
  "hGET mem_redis (deficitKey (demo_deps [])) t (fqs_redis (demo_waiting [])) = None"
  "getDeficit (demo_deps []) t (fqs_redis (demo_waiting [])) = 0"
proof -
  have "st_hash (fqs_redis (demo_waiting [])) (deficitKey (demo_deps [])) = []" by code_simp
  then show h: "hGET mem_redis (deficitKey (demo_deps [])) t (fqs_redis (demo_waiting [])) = None" by (simp add: mem_redis_defs)
  then show "getDeficit (demo_deps []) t (fqs_redis (demo_waiting [])) = 0" by (simp add: getDeficit_def)
qed


text \<open>The credits of the deficit round robin stay between zero and the cap: through a selection, and through
  the charge for processed messages.\<close>

theorem drr_credits_bounded:
  assumes "fair_server d" and "k_separator (d_keys d) = colon" and "colon_free (k_prefix (d_keys d))"
    and "d_groups d = [] \<or> groupsByName d ''tenant'' \<noteq> None" and "0 \<le> quantum cfg" and "0 \<le> maxDeficit cfg"
    and "\<And>t. whole_field (hGET (d_srv d) (deficitKey d) t s) \<noteq> None"
    and "\<And>t. 0 \<le> getDeficit d t s \<and> getDeficit d t s \<le> maxDeficit cfg"
  shows "0 \<le> getDeficit d t (snd (drr_selectQueues d cfg now k s)) \<and> getDeficit d t (snd (drr_selectQueues d cfg now k s)) \<le> maxDeficit cfg
    \<and> 0 \<le> getDeficit d t (snd (drrDecrementDeficitBatch (d_srv d) (deficitKey d) t' (int n) s))
    \<and> getDeficit d t (snd (drrDecrementDeficitBatch (d_srv d) (deficitKey d) t' (int n) s)) \<le> maxDeficit cfg"
proof -
  have cr: "fair_server.credit d s t = Some (getDeficit d t s)" for t
    using assms(7) [of t] by (auto simp: fair_server.credit_def [OF assms(1)] getDeficit_def with_default_def)
  have get: "getDeficit d t s' = c" if "fair_server.credit d s' t = Some c" for s' t c
    using that by (simp add: fair_server.credit_def [OF assms(1)] getDeficit_def with_default_def)
  obtain out s' b where sel: "drr_selectQueues d cfg now k s = (out, s')"
    and c: "fair_server.credit d s' t = Some (if b then min (getDeficit d t s + quantum cfg) (maxDeficit cfg) else getDeficit d t s)"
    using fair_server.drr_select_exact [OF assms(1-4) cr, where k = k and cfg = cfg and now = now] by blast
  have "0 \<le> getDeficit d t (snd (drr_selectQueues d cfg now k s)) \<and> getDeficit d t (snd (drr_selectQueues d cfg now k s)) \<le> maxDeficit cfg"
    using get [OF c] sel assms(5,6) assms(8) [of t] by simp
  moreover have "fair_server.credit d (snd (drrDecrementDeficitBatch (d_srv d) (deficitKey d) t' (int n) s)) t =
      Some (if t = t' then max 0 (getDeficit d t' s - int n) else getDeficit d t s)"
    using fair_server.drrDecrement_credits [OF assms(1) cr, of t' "int n"] cr by simp
  ultimately show ?thesis using get assms(6) assms(8) [of t] assms(8) [of t'] by simp
qed

theorem drr_credits_bounded_witness:
  "getDeficit (demo_deps []) ''t1'' (snd (drr_selectQueues (demo_deps []) demo_drr 200 (kMaster (demo_deps []) 0) (fqs_redis (demo_waiting [])))) \<le> 50
   \<and> 0 \<le> getDeficit (demo_deps []) ''t1'' (snd (drrDecrementDeficitBatch mem_redis (deficitKey (demo_deps [])) ''t1'' (int 3) (fqs_redis (demo_waiting []))))"
proof -
  have q: "quantum demo_drr = 5" "maxDeficit demo_drr = 50" by (simp_all add: demo_drr_def)
  have prem: "0 \<le> quantum demo_drr" "0 \<le> maxDeficit demo_drr"
    "\<And>t. whole_field (hGET (d_srv (demo_deps [])) (deficitKey (demo_deps [])) t (fqs_redis (demo_waiting []))) \<noteq> None"
    "\<And>t. 0 \<le> getDeficit (demo_deps []) t (fqs_redis (demo_waiting [])) \<and> getDeficit (demo_deps []) t (fqs_redis (demo_waiting [])) \<le> maxDeficit demo_drr"
    by (simp_all add: q demo_credits)
  note b = drr_credits_bounded [OF demo.fair_server_axioms _ _ _ prem]
  show ?thesis
    using b [where t = "''t1''" and t' = "''t1''" and now = 200 and k = "kMaster (demo_deps []) 0" and n = 3] by (simp add: q)
qed

subsection \<open>Errors\<close>

text \<open>Concurrency groups without one named \<open>tenant\<close> stop the queue: whatever the scheduler, a pass over a shard
  moves no message, and it fails with the unknown group as soon as the scheduler selects a queue; an
  error of the scheduler is the error of the pass.\<close>

theorem pass_needs_tenant_group:
  assumes "scheduler_laws d sch" and "d_groups d \<noteq> []" and "groupsByName d ''tenant'' = None" and "\<not> d_cooloffEnabled d"
    and "selectQueues sch now (kMaster d shardId) loopId (fqs_redis st, fqs_sched st) = (selected, s, c)"
  shows "fst (fq_processMasterQueueShard d sch now loopId shardId st) =
      (case selected of
         Inl e \<Rightarrow> Inl e
       | Inr tqs \<Rightarrow> if list_all (\<lambda>(t, qs). qs = []) tqs then Inr False else Inl (UnknownGroup ''tenant''))
    \<and> fabs d (fqs_redis (snd (fq_processMasterQueueShard d sch now loopId shardId st))) = fabs d (fqs_redis st)"
proof -
  have loop: "fst (shard_loop d sch now loopId shardId tqs st) = (if list_all (\<lambda>(t, qs). qs = []) tqs then Inr 0 else Inl (UnknownGroup ''tenant''))
      \<and> fqs_redis (snd (shard_loop d sch now loopId shardId tqs st)) = fqs_redis st" for tqs and st :: "('a, 'b) fq_state"
  proof (induction tqs arbitrary: st)
    case (Cons tq tqs)
    obtain t qs where tq: "tq = (t, qs)" by fastforce
    show ?case
    proof (cases qs)
      case Nil
      then show ?thesis using Cons [of st] by (cases "list_all (\<lambda>(t, qs). qs = []) tqs") (auto simp: tq split: prod.split sum.split)
    next
      case (Cons q qs')
      then show ?thesis using assms(2-4) by (simp add: tq isAtCapacity_def getConcurrencyLimit_def)
    qed
  qed simp
  have "fabs d s = fabs d (fqs_redis st)" by (rule scheduler_laws.select_store [OF assms(1,5)])
  then show ?thesis
  proof (cases selected)
    case (Inr tqs)
    then show ?thesis
      using loop [of tqs "st\<lparr>fqs_redis := s, fqs_sched := c\<rparr>"] assms(5) \<open>fabs d s = fabs d (fqs_redis st)\<close>
      by (cases "list_all (\<lambda>(t, qs). qs = []) tqs") (auto simp: fq_processMasterQueueShard_def split: sum.split prod.split)
  qed (use assms(5) in \<open>simp add: fq_processMasterQueueShard_def\<close>)
qed

theorem pass_needs_tenant_group_witness:
  "fst (fq_processMasterQueueShard (demo_deps [demo_group\<lparr>g_name := ''org''\<rparr>])
      (roundRobinScheduler (demo_deps [demo_group\<lparr>g_name := ''org''\<rparr>]) 10) 200 ''loop'' 0
      (demo_waiting [demo_group\<lparr>g_name := ''org''\<rparr>])) = Inl (UnknownGroup ''tenant'')"
proof -
  let ?d = "demo_deps [demo_group\<lparr>g_name := ''org''\<rparr>]" and ?st = "demo_waiting [demo_group\<lparr>g_name := ''org''\<rparr>]"
  have "fst (selectQueues (roundRobinScheduler ?d 10) 200 (kMaster ?d 0) ''loop'' (fqs_redis ?st, ())) = Inl (UnknownGroup ''tenant'')" by code_simp
  moreover have "fqs_sched ?st = ()" by simp
  ultimately obtain s c where "selectQueues (roundRobinScheduler ?d 10) 200 (kMaster ?d 0) ''loop'' (fqs_redis ?st, fqs_sched ?st) = (Inl (UnknownGroup ''tenant''), s, c)"
    by (cases "selectQueues (roundRobinScheduler ?d 10) 200 (kMaster ?d 0) ''loop'' (fqs_redis ?st, ())") simp
  moreover have "groupsByName ?d ''tenant'' = None" by (simp add: groupsByName_def)
  ultimately show ?thesis
    using pass_needs_tenant_group [OF demo_rr.scheduler_laws_axioms, of "[demo_group\<lparr>g_name := ''org''\<rparr>]" 10 200 0 "''loop''" ?st
        "Inl (UnknownGroup ''tenant'')" s c] by simp
qed

subsection \<open>Claims and heartbeats\<close>

text \<open>A batch claim takes exactly the earliest \<open>maxCount\<close> messages of the queue, whether they are due or not: each
  is in flight until the visibility timeout has passed, and the rest of the queue is as before.\<close>

theorem claimBatch_takes_earliest:
  assumes "fair_server d" and "scheduler_laws d sch" and "fq_reachable d sch home st"
  shows "map im_messageId (fst (claimBatch d now q consumer maxCount timeout (fqs_redis st)))
      = map fst (zRANGE (d_srv d) (kQ d q) 0 (maxCount - 1) (fqs_redis st))
    \<and> zSCORE (d_srv d) (kQ d q) m (snd (claimBatch d now q consumer maxCount timeout (fqs_redis st)))
      = (if m \<in> set (map fst (zRANGE (d_srv d) (kQ d q) 0 (maxCount - 1) (fqs_redis st))) then None
         else zSCORE (d_srv d) (kQ d q) m (fqs_redis st))
    \<and> list_all (\<lambda>m. zSCORE (d_srv d) (kInflight d (getShardForQueue d q)) (makeMember m q)
          (snd (claimBatch d now q consumer maxCount timeout (fqs_redis st))) = Some (now + with_default timeout (d_visibilityTimeoutMs d)))
        (map fst (zRANGE (d_srv d) (kQ d q) 0 (maxCount - 1) (fqs_redis st)))"
proof -
  have home: "fair_queue_home d" using assms(1) by (rule fair_queue_home.intro)
  have inv: "fq_inv d home (fabs d (fqs_redis st))" by (rule fair_queue_home.reachable_inv [OF home assms(3,2)])
  have ids: "map fst (zRANGE (d_srv d) (kQ d q) 0 (maxCount - 1) (fqs_redis st)) = fair_queue_home.claimable q maxCount (fabs d (fqs_redis st))"
    using redis_server.zRANGE_view [OF fair_server.axioms(1) [OF assms(1)]] by (simp add: fair_queue_home.claimable_def [OF home] fabs_defs)
  note c = fair_queue_home.claimBatch_moves [OF home inv surjective_pairing]
  show ?thesis
    unfolding ids fair_server.fabs_reads [OF assms(1)] c(2) c(4) list_all_iff by (simp add: c(3))
qed

theorem claimBatch_takes_earliest_witness:
  "map im_messageId (fst (claimBatch (demo_deps []) 50 ''tenant:t1'' ''loop'' 10 None (fqs_redis (demo_waiting [])))) = [''m1'']
   \<and> zSCORE mem_redis (kQ (demo_deps []) ''tenant:t1'') ''m1'' (fqs_redis (demo_waiting [])) = Some 100"
proof
  have "map fst (zRANGE (d_srv (demo_deps [])) (kQ (demo_deps []) ''tenant:t1'') 0 (10 - 1) (fqs_redis (demo_waiting []))) = [''m1'']" by code_simp
  with conjunct1 [OF claimBatch_takes_earliest [OF demo.fair_server_axioms demo_rr.scheduler_laws_axioms demo_waiting_reachable]]
  show "map im_messageId (fst (claimBatch (demo_deps []) 50 ''tenant:t1'' ''loop'' 10 None (fqs_redis (demo_waiting [])))) = [''m1'']"
    by (rule trans)
qed (rule demo_waiting_facts)

text \<open>A heartbeat sets the deadline of a message in flight to one heartbeat interval from now, also when that is
  earlier than the deadline it has; for a message that is not in flight it answers false and changes
  nothing.\<close>

theorem heartbeat_sets_deadline:
  assumes "fair_server d" and "scheduler_laws d sch" and "fq_reachable d sch home st" and "good_id m"
  shows "fst (fq_heartbeatMessage d now m (home m) (fqs_redis st)) =
      (case msg_phase_of d home (fabs d (fqs_redis st)) m of MInFlight _ \<Rightarrow> True | _ \<Rightarrow> False)
    \<and> msg_phase_of d home (fabs d (snd (fq_heartbeatMessage d now m (home m) (fqs_redis st)))) m =
      (case msg_phase_of d home (fabs d (fqs_redis st)) m of MInFlight _ \<Rightarrow> MInFlight (now + d_heartbeatIntervalMs d) | ph \<Rightarrow> ph)"
proof -
  have home: "fair_queue_home d" using assms(1) by (rule fair_queue_home.intro)
  have inv: "fq_inv d home (fabs d (fqs_redis st))" by (rule fair_queue_home.reachable_inv [OF home assms(3,2)])
  from fair_queue_home.heartbeat_effect [OF home inv assms(4)] show ?thesis .
qed

theorem heartbeat_sets_deadline_witness:
  "msg_phase_of (demo_deps []) demo_home (fabs (demo_deps []) (fqs_redis (demo_flying []))) ''m1'' = MInFlight 30200
   \<and> msg_phase_of (demo_deps []) demo_home (fabs (demo_deps [])
       (snd (fq_heartbeatMessage (demo_deps []) 300 ''m1'' (demo_home ''m1'') (fqs_redis (demo_flying []))))) ''m1'' = MInFlight 10300"
proof -
  have g: "good_id ''m1''" by (simp add: good_id_def)
  show ?thesis
    using heartbeat_sets_deadline [OF demo.fair_server_axioms demo_rr.scheduler_laws_axioms demo_flying_reachable g, where now = 300] demo_flying_phase by simp
qed

end
