(* ===== verification/Batch_Tracker.thy ===== *)
theory Batch_Tracker
  imports Fair_Queue_Schedulers Field_Codec
begin

text \<open>
  The completion tracker of the batch queue
  (\<open>internal-packages/run-engine/src/batch-queue/completionTracker.ts\<close>): six keys per batch hold its
  metadata, the runs and failures of its items, the number of processed items, and which items were
  enqueued and processed. The two recording scripts are atomic; each counts an item once.

  The second half is the abstract tracker: one record per batch, and what each operation does to it.
\<close>

record batch_meta =
  bm_batchId :: string
  bm_friendlyId :: string
  bm_environmentId :: string
  bm_environmentType :: environment_type
  bm_organizationId :: string
  bm_projectId :: string
  bm_runCount :: int
  bm_createdAt :: time
  bm_parentRunId :: "string option"
  bm_resumeParentOnCompletion :: "bool option"
  bm_triggerVersion :: "string option"
  bm_traceContext :: "string option"
  bm_spanParentAsLink :: "bool option"
  bm_realtimeStreamsVersion :: "string option"
  bm_idempotencyKey :: "string option"
  bm_processingConcurrency :: "int option"
  bm_planType :: "string option"

text \<open>A payload that is a string, or any other JSON value by its text.\<close>

datatype payload_value = PText string | PJson string

record batch_item =
  bi_task :: string
  bi_payload :: "payload_value option"
  bi_payloadType :: "string option"
  bi_options :: "string option"

record batch_item_payload =
  ip_batchId :: string
  ip_friendlyId :: string
  ip_itemIndex :: int
  ip_item :: batch_item

record batch_item_failure =
  bf_index :: int
  bf_taskIdentifier :: string
  bf_payload :: "string option"
  bf_options :: "string option"
  bf_error :: string
  bf_errorCode :: "string option"
  bf_timestamp :: time

record complete_batch_result =
  cr_batchId :: string
  cr_runIds :: "string list"
  cr_successfulRunCount :: nat
  cr_failedRunCount :: nat
  cr_failures :: "batch_item_failure list"

datatype batch_error = BatchNotFound string | BatchInvalidJSON | BatchScriptFailed | BatchTypeError
  | BatchCallbackFailed string | BatchFairError fair_error

text \<open>The configuration and the parameters: the server and the client's prefix, what the fair queue needs
  (rounding, \<open>Math.pow\<close>, the digest, the codecs of its messages), the codecs of the metadata, of the
  failures and of the message payload, the options, and whether a tracer is set.\<close>

record 's batch_deps =
  b_srv :: "'s redis"
  b_prefix :: key
  b_fl :: "rat \<Rightarrow> rat"
  b_pow :: "rat \<Rightarrow> int \<Rightarrow> rat"
  b_sha :: "string \<Rightarrow> 8 word list"
  b_stringify :: "stored_message \<Rightarrow> string"
  b_parse :: "string \<Rightarrow> stored_message option"
  b_dlqStringify :: "dead_letter_message \<Rightarrow> string"
  b_dlqParse :: "string \<Rightarrow> dead_letter_message option"
  b_putMeta :: "batch_meta \<Rightarrow> string"
  b_getMeta :: "string \<Rightarrow> batch_meta option"
  b_putFailure :: "batch_item_failure \<Rightarrow> string"
  b_getFailure :: "string \<Rightarrow> batch_item_failure option"
  b_putItem :: "batch_item_payload \<Rightarrow> string"
  b_getItem :: "string \<Rightarrow> batch_item_payload option"
  b_defaultConcurrency :: int
  b_shardCount :: int
  b_drr :: drr_config
  b_tracer :: bool

subsection \<open>Keys\<close>

definition trackerKey :: "string \<Rightarrow> string \<Rightarrow> key" where
  "trackerKey suffix batchId = ''batch'' @ '':'' @ batchId @ '':'' @ suffix"

definition metaKey :: "string \<Rightarrow> key" where "metaKey = trackerKey ''meta''"
definition runsKey :: "string \<Rightarrow> key" where "runsKey = trackerKey ''runs''"
definition failuresKey :: "string \<Rightarrow> key" where "failuresKey = trackerKey ''failures''"
definition processedCountKey :: "string \<Rightarrow> key" where "processedCountKey = trackerKey ''processed''"
definition processedItemsKey :: "string \<Rightarrow> key" where "processedItemsKey = trackerKey ''processed_items''"
definition enqueuedItemsKey :: "string \<Rightarrow> key" where "enqueuedItemsKey = trackerKey ''enqueued_items''"

lemmas tracker_key_defs = metaKey_def runsKey_def failuresKey_def processedCountKey_def processedItemsKey_def enqueuedItemsKey_def

definition bk :: "'s batch_deps \<Rightarrow> key \<Rightarrow> key" where
  "bk bd k = b_prefix bd @ k"

lemma bk_inject [simp]: "bk bd k = bk bd k' \<longleftrightarrow> k = k'"
  by (simp add: bk_def)

subsection \<open>Metadata\<close>

definition storeMeta :: "'s batch_deps \<Rightarrow> string \<Rightarrow> batch_meta \<Rightarrow> 's \<Rightarrow> 's" where
  "storeMeta bd batchId meta s = rSET (b_srv bd) (bk bd (metaKey batchId)) (b_putMeta bd meta) s"

definition getMeta :: "'s batch_deps \<Rightarrow> string \<Rightarrow> 's \<Rightarrow> batch_error + batch_meta option" where
  "getMeta bd batchId s =
     (case rGET (b_srv bd) (bk bd (metaKey batchId)) s of
        None \<Rightarrow> Inr None
      | Some metaJson \<Rightarrow>
          if metaJson = [] then Inr None
          else case b_getMeta bd metaJson of None \<Rightarrow> Inl BatchInvalidJSON | Some meta \<Rightarrow> Inr (Some meta))"

subsection \<open>Recording\<close>

text \<open>The end of both scripts: \<open>INCR\<close> for a new item, then the count as a text. \<open>None\<close> is a script error: the
  counter does not hold a number.\<close>

definition answer_count :: "'s redis \<Rightarrow> key \<Rightarrow> 's \<Rightarrow> string option \<times> 's" where
  "answer_count R processedKey s = (Some (with_default (rGET R processedKey s) ''0''), s)"

definition count_and_answer :: "'s redis \<Rightarrow> key \<Rightarrow> 's \<Rightarrow> string option \<times> 's" where
  "count_and_answer R processedKey s =
     (case rINCR R processedKey s of (None, s) \<Rightarrow> (None, s) | (Some _, s) \<Rightarrow> answer_count R processedKey s)"

text \<open>\<open>SADD\<close> answers 1 when the member is new.\<close>

definition recordSuccessIdempotent ::
    "'s redis \<Rightarrow> key \<Rightarrow> key \<Rightarrow> key \<Rightarrow> string \<Rightarrow> string \<Rightarrow> string \<Rightarrow> 's \<Rightarrow> string option \<times> 's" where
  "recordSuccessIdempotent R itemsKey rKey processedKey itemKey runId itemScoreArg s =
     (let itemScore = with_default (int_of_string itemScoreArg) 0;
          added = \<not> sISMEMBER R itemsKey itemKey s;
          s = sADD R itemsKey itemKey s
      in if added then count_and_answer R processedKey (zADD R rKey itemScore runId s) else answer_count R processedKey s)"

definition recordFailureIdempotent ::
    "'s redis \<Rightarrow> key \<Rightarrow> key \<Rightarrow> key \<Rightarrow> string \<Rightarrow> string \<Rightarrow> 's \<Rightarrow> string option \<times> 's" where
  "recordFailureIdempotent R itemsKey fKey processedKey itemKey failureJson s =
     (let added = \<not> sISMEMBER R itemsKey itemKey s;
          s = sADD R itemsKey itemKey s
      in if added then count_and_answer R processedKey (lRPUSH R fKey failureJson s) else answer_count R processedKey s)"

text \<open>\<open>parseInt(result, 10)\<close>; an inner \<open>None\<close> is \<open>NaN\<close>.\<close>

definition count_result :: "string option \<times> 's \<Rightarrow> (batch_error + int option) \<times> 's" where
  "count_result r = (case r of (None, s) \<Rightarrow> (Inl BatchScriptFailed, s) | (Some text, s) \<Rightarrow> (Inr (parse_int text), s))"

definition recordSuccess ::
    "'s batch_deps \<Rightarrow> string \<Rightarrow> string \<Rightarrow> int option \<Rightarrow> 's \<Rightarrow> (batch_error + int option) \<times> 's" where
  "recordSuccess bd batchId runId itemIndex s =
     count_result (recordSuccessIdempotent (b_srv bd) (bk bd (processedItemsKey batchId)) (bk bd (runsKey batchId))
       (bk bd (processedCountKey batchId)) (case itemIndex of Some i \<Rightarrow> int_to_string i | None \<Rightarrow> runId) runId
       (case itemIndex of Some i \<Rightarrow> int_to_string i | None \<Rightarrow> ''0'') s)"

text \<open>The failure comes without a time stamp, which is the clock reading.\<close>

definition recordFailure ::
    "'s batch_deps \<Rightarrow> time \<Rightarrow> string \<Rightarrow> batch_item_failure \<Rightarrow> 's \<Rightarrow> (batch_error + int option) \<times> 's" where
  "recordFailure bd now batchId failure s =
     (let failureRecord = failure\<lparr>bf_timestamp := now\<rparr>
      in count_result (recordFailureIdempotent (b_srv bd) (bk bd (processedItemsKey batchId)) (bk bd (failuresKey batchId))
           (bk bd (processedCountKey batchId)) (int_to_string (bf_index failure)) (b_putFailure bd failureRecord) s))"

subsection \<open>Queries\<close>

definition getSuccessfulRuns :: "'s batch_deps \<Rightarrow> string \<Rightarrow> 's \<Rightarrow> string list" where
  "getSuccessfulRuns bd batchId s = map fst (zRANGE (b_srv bd) (bk bd (runsKey batchId)) 0 (- 1) s)"

fun parse_failures :: "(string \<Rightarrow> batch_item_failure option) \<Rightarrow> string list \<Rightarrow> batch_error + batch_item_failure list" where
  "parse_failures parse [] = Inr []"
| "parse_failures parse (json # jsons) =
     (case parse json of
        None \<Rightarrow> Inl BatchInvalidJSON
      | Some f \<Rightarrow> (case parse_failures parse jsons of Inl e \<Rightarrow> Inl e | Inr fs \<Rightarrow> Inr (f # fs)))"

definition getFailures :: "'s batch_deps \<Rightarrow> string \<Rightarrow> 's \<Rightarrow> batch_error + batch_item_failure list" where
  "getFailures bd batchId s = parse_failures (b_getFailure bd) (lRANGE (b_srv bd) (bk bd (failuresKey batchId)) s)"

definition getProcessedCount :: "'s batch_deps \<Rightarrow> string \<Rightarrow> 's \<Rightarrow> int option" where
  "getProcessedCount bd batchId s =
     (case rGET (b_srv bd) (bk bd (processedCountKey batchId)) s of
        None \<Rightarrow> Some 0
      | Some count \<Rightarrow> if count = [] then Some 0 else parse_int count)"

definition isComplete :: "'s batch_deps \<Rightarrow> string \<Rightarrow> 's \<Rightarrow> batch_error + bool" where
  "isComplete bd batchId s =
     (case getMeta bd batchId s of
        Inl e \<Rightarrow> Inl e
      | Inr None \<Rightarrow> Inr False
      | Inr (Some meta) \<Rightarrow>
          Inr (case getProcessedCount bd batchId s of None \<Rightarrow> False | Some processedCount \<Rightarrow> processedCount \<ge> bm_runCount meta))"

subsection \<open>Enqueue tracking\<close>

definition isItemEnqueued :: "'s batch_deps \<Rightarrow> string \<Rightarrow> int \<Rightarrow> 's \<Rightarrow> bool" where
  "isItemEnqueued bd batchId itemIndex s = sISMEMBER (b_srv bd) (bk bd (enqueuedItemsKey batchId)) (int_to_string itemIndex) s"

definition markItemEnqueued :: "'s batch_deps \<Rightarrow> string \<Rightarrow> int \<Rightarrow> 's \<Rightarrow> bool \<times> 's" where
  "markItemEnqueued bd batchId itemIndex s =
     (let added = \<not> sISMEMBER (b_srv bd) (bk bd (enqueuedItemsKey batchId)) (int_to_string itemIndex) s
      in (added, sADD (b_srv bd) (bk bd (enqueuedItemsKey batchId)) (int_to_string itemIndex) s))"

definition getEnqueuedCount :: "'s batch_deps \<Rightarrow> string \<Rightarrow> 's \<Rightarrow> nat" where
  "getEnqueuedCount bd batchId s = sCARD (b_srv bd) (bk bd (enqueuedItemsKey batchId)) s"

subsection \<open>Completion\<close>

definition getCompletionResult :: "'s batch_deps \<Rightarrow> string \<Rightarrow> 's \<Rightarrow> batch_error + complete_batch_result" where
  "getCompletionResult bd batchId s =
     (let runIds = getSuccessfulRuns bd batchId s
      in case getFailures bd batchId s of
           Inl e \<Rightarrow> Inl e
         | Inr failures \<Rightarrow> Inr \<lparr>cr_batchId = batchId, cr_runIds = runIds, cr_successfulRunCount = length runIds,
             cr_failedRunCount = length failures, cr_failures = failures\<rparr>)"

text \<open>\<open>DEL\<close> of several keys deletes each.\<close>

definition cleanup :: "'s batch_deps \<Rightarrow> string \<Rightarrow> 's \<Rightarrow> 's" where
  "cleanup bd batchId s =
     fold (\<lambda>k s. rDEL (b_srv bd) (bk bd k) s)
       [metaKey batchId, runsKey batchId, failuresKey batchId, processedCountKey batchId,
        processedItemsKey batchId, enqueuedItemsKey batchId] s"

subsection \<open>The abstract tracker\<close>

record tracked =
  t_meta :: "string option"
  t_runs :: "string \<Rightarrow> int option"
  t_failures :: "string list"
  t_count :: "string option"
  t_done :: "string set"
  t_enq :: "string set"

definition tview :: "'s batch_deps \<Rightarrow> view \<Rightarrow> string \<Rightarrow> tracked" where
  "tview bd v B =
     \<lparr>t_meta = v_str v (bk bd (metaKey B)), t_runs = v_zset v (bk bd (runsKey B)), t_failures = v_list v (bk bd (failuresKey B)),
      t_count = v_str v (bk bd (processedCountKey B)), t_done = v_set v (bk bd (processedItemsKey B)),
      t_enq = v_set v (bk bd (enqueuedItemsKey B))\<rparr>"

definition tabs :: "'s batch_deps \<Rightarrow> 's \<Rightarrow> string \<Rightarrow> tracked" where
  "tabs bd s B = tview bd (rview (b_srv bd) s) B"

lemmas tabs_defs = tabs_def tview_def

definition untracked :: tracked where
  "untracked = \<lparr>t_meta = None, t_runs = Map.empty, t_failures = [], t_count = None, t_done = {}, t_enq = {}\<rparr>"

text \<open>The counter is the number of processed items; it is not there before the first.\<close>

definition counted :: "tracked \<Rightarrow> bool" where
  "counted t \<longleftrightarrow> finite (t_done t) \<and> t_count t = (if t_done t = {} then None else Some (int_to_string (int (card (t_done t)))))"

definition a_success :: "string \<Rightarrow> string \<Rightarrow> int \<Rightarrow> tracked \<Rightarrow> tracked" where
  "a_success item runId score t =
     (if item \<in> t_done t then t
      else t\<lparr>t_done := insert item (t_done t), t_runs := (t_runs t)(runId \<mapsto> score),
        t_count := Some (int_to_string (int (card (t_done t)) + 1))\<rparr>)"

definition a_failure :: "string \<Rightarrow> string \<Rightarrow> tracked \<Rightarrow> tracked" where
  "a_failure item json t =
     (if item \<in> t_done t then t
      else t\<lparr>t_done := insert item (t_done t), t_failures := t_failures t @ [json],
        t_count := Some (int_to_string (int (card (t_done t)) + 1))\<rparr>)"

lemma recorded_fields [simp]:
  "t_done (a_success item runId score t) = insert item (t_done t)" "t_done (a_failure item json t) = insert item (t_done t)"
  "t_meta (a_success item runId score t) = t_meta t" "t_meta (a_failure item json t) = t_meta t"
  "t_enq (a_success item runId score t) = t_enq t" "t_enq (a_failure item json t) = t_enq t"
  by (auto simp: a_success_def a_failure_def)

lemma counted_recorded:
  assumes "counted t"
  shows "counted (a_success item runId score t)" and "counted (a_failure item json t)"
  using assms by (auto simp: counted_def a_success_def a_failure_def)

lemma int_to_string_nonempty [simp]: "int_to_string i \<noteq> []"
  by (simp add: int_to_string_def)

subsection \<open>Separation of the keys\<close>

lemma append_suffix_eq:
  assumes "a @ x = b @ y" and "length x \<le> length y"
  shows "drop (length y - length x) y = x"
proof -
  have "drop (length (b @ y) - length x) (a @ x) = x"
    unfolding assms(1) [symmetric] by simp
  moreover have "drop (length (b @ y) - length x) (b @ y) = drop (length y - length x) y"
    using assms(2) by simp
  ultimately show ?thesis using assms(1) by simp
qed

lemma trackerKey_suffix:
  assumes "length x \<le> length y" and "drop (length y - length x) y \<noteq> x"
  shows "trackerKey x B \<noteq> trackerKey y B'" and "trackerKey y B' \<noteq> trackerKey x B"
  using append_suffix_eq [OF _ assms(1), of "''batch:'' @ B @ '':''" "''batch:'' @ B' @ '':''"] assms(2)
  by (auto simp: trackerKey_def)

lemma trackerKey_inject [simp]: "trackerKey x B = trackerKey x B' \<longleftrightarrow> B = B'"
  by (simp add: trackerKey_def)

lemma tracker_keys_inject [simp]:
  "metaKey B = metaKey B' \<longleftrightarrow> B = B'" "runsKey B = runsKey B' \<longleftrightarrow> B = B'" "failuresKey B = failuresKey B' \<longleftrightarrow> B = B'"
  "processedCountKey B = processedCountKey B' \<longleftrightarrow> B = B'" "processedItemsKey B = processedItemsKey B' \<longleftrightarrow> B = B'"
  "enqueuedItemsKey B = enqueuedItemsKey B' \<longleftrightarrow> B = B'"
  by (simp_all add: tracker_key_defs)

lemma suffixes_apart:
  "trackerKey ''meta'' B \<noteq> trackerKey ''processed'' B'" "trackerKey ''meta'' B \<noteq> trackerKey ''runs'' B'"
  "trackerKey ''meta'' B \<noteq> trackerKey ''failures'' B'" "trackerKey ''meta'' B \<noteq> trackerKey ''processed_items'' B'"
  "trackerKey ''meta'' B \<noteq> trackerKey ''enqueued_items'' B'" "trackerKey ''runs'' B \<noteq> trackerKey ''failures'' B'"
  "trackerKey ''runs'' B \<noteq> trackerKey ''processed'' B'" "trackerKey ''runs'' B \<noteq> trackerKey ''processed_items'' B'"
  "trackerKey ''runs'' B \<noteq> trackerKey ''enqueued_items'' B'" "trackerKey ''failures'' B \<noteq> trackerKey ''processed'' B'"
  "trackerKey ''failures'' B \<noteq> trackerKey ''processed_items'' B'" "trackerKey ''failures'' B \<noteq> trackerKey ''enqueued_items'' B'"
  "trackerKey ''processed'' B \<noteq> trackerKey ''processed_items'' B'" "trackerKey ''processed'' B \<noteq> trackerKey ''enqueued_items'' B'"
  by (rule trackerKey_suffix; simp)+

lemma item_suffixes_apart: "trackerKey ''enqueued_items'' B \<noteq> trackerKey ''processed_items'' B'"
proof
  assume "trackerKey ''enqueued_items'' B = trackerKey ''processed_items'' B'"
  then have "(''batch:'' @ B) @ '':enqueued_items'' = (''batch:'' @ B' @ '':'') @ ''processed_items''" by (simp add: trackerKey_def)
  then have "''processed_items'' = '':enqueued_items''"
    using append_suffix_eq [of "''batch:'' @ B" "'':enqueued_items''" "''batch:'' @ B' @ '':''" "''processed_items''"] by simp
  then show False by simp
qed

lemma tracker_keys_apart [simp]:
  "metaKey B \<noteq> processedCountKey B'" "metaKey B \<noteq> runsKey B'" "metaKey B \<noteq> failuresKey B'" "metaKey B \<noteq> processedItemsKey B'"
  "metaKey B \<noteq> enqueuedItemsKey B'" "runsKey B \<noteq> failuresKey B'" "runsKey B \<noteq> processedCountKey B'" "runsKey B \<noteq> processedItemsKey B'"
  "runsKey B \<noteq> enqueuedItemsKey B'" "failuresKey B \<noteq> processedCountKey B'" "failuresKey B \<noteq> processedItemsKey B'"
  "failuresKey B \<noteq> enqueuedItemsKey B'" "processedCountKey B \<noteq> processedItemsKey B'" "processedCountKey B \<noteq> enqueuedItemsKey B'"
  "enqueuedItemsKey B \<noteq> processedItemsKey B'"
  by (simp_all add: tracker_key_defs suffixes_apart item_suffixes_apart)

lemmas tracker_keys_apart' [simp] = tracker_keys_apart [symmetric]

subsection \<open>What the operations do\<close>

text \<open>What the batch queue relies on outside the repository: the server, and codecs that read what they wrote and
  never write an empty text.\<close>

locale batch_server = redis_server "b_srv bd" for bd :: "'s batch_deps" +
  assumes meta_codec: "b_getMeta bd (b_putMeta bd meta) = Some meta" "b_putMeta bd meta \<noteq> []"
    and failure_codec: "b_getFailure bd (b_putFailure bd f) = Some f"
    and item_codec: "b_getItem bd (b_putItem bd p) = Some p"
    and message_codec: "b_parse bd (b_stringify bd m) = Some m" "b_stringify bd m \<noteq> []"
    and dead_codec: "b_dlqParse bd (b_dlqStringify bd x) = Some x" "b_dlqStringify bd x \<noteq> []"
    and shards: "1 \<le> b_shardCount bd"
begin

lemma tabs_storeMeta: "tabs bd (storeMeta bd B meta s) = (tabs bd s)(B := (tabs bd s B)\<lparr>t_meta := Some (b_putMeta bd meta)\<rparr>)"
  by (intro ext) (simp add: tabs_defs storeMeta_def rSET_view)

lemma tabs_mark: "tabs bd (snd (markItemEnqueued bd B i s)) = (tabs bd s)(B := (tabs bd s B)\<lparr>t_enq := insert (int_to_string i) (t_enq (tabs bd s B))\<rparr>)"
  by (intro ext) (simp add: tabs_defs markItemEnqueued_def sADD_view)

lemma fst_mark: "fst (markItemEnqueued bd B i s) \<longleftrightarrow> int_to_string i \<notin> t_enq (tabs bd s B)"
  by (simp add: tabs_defs markItemEnqueued_def read_views)

lemma tabs_cleanup: "tabs bd (cleanup bd B s) = (tabs bd s)(B := untracked)"
  by (intro ext) (simp add: tabs_defs cleanup_def rDEL_view untracked_def)

lemma finite_tracked: "finite (t_done (tabs bd s B))" "finite (t_enq (tabs bd s B))" "finite (dom (t_runs (tabs bd s B)))"
  by (simp_all add: tabs_defs set_finite zset_finite)

text \<open>The end of the scripts, when the counter is right up to now.\<close>

lemma count_and_answer_counts:
  assumes "v_str (rview (b_srv bd) s) k = (if n = 0 then None else Some (int_to_string (int n)))"
  shows "fst (count_and_answer (b_srv bd) k s) = Some (int_to_string (int n + 1))"
    and "rview (b_srv bd) (snd (count_and_answer (b_srv bd) k s)) = rview (b_srv bd) (rSET (b_srv bd) k (int_to_string (int n + 1)) s)"
proof -
  have c: "v_str (rview (b_srv bd) s) k = None \<and> int n = 0 \<or> v_str (rview (b_srv bd) s) k = Some (int_to_string (int n))"
    using assms by (cases "n = 0") simp_all
  obtain s' where s': "rINCR (b_srv bd) k s = (Some (int n + 1), s')" using rINCR_result [OF c] by (cases "rINCR (b_srv bd) k s") simp
  have "rview (b_srv bd) s' = rview (b_srv bd) (rSET (b_srv bd) k (int_to_string (int n + 1)) s)" using rINCR_view [OF c] s' by simp
  then show "fst (count_and_answer (b_srv bd) k s) = Some (int_to_string (int n + 1))"
    and "rview (b_srv bd) (snd (count_and_answer (b_srv bd) k s)) = rview (b_srv bd) (rSET (b_srv bd) k (int_to_string (int n + 1)) s)"
    using s' by (simp_all add: count_and_answer_def answer_count_def read_views rSET_view with_default_def)
qed

lemma counted_view:
  assumes "counted (tabs bd s B)"
  shows "v_str (rview (b_srv bd) s) (bk bd (processedCountKey B)) =
     (if card (t_done (tabs bd s B)) = 0 then None else Some (int_to_string (int (card (t_done (tabs bd s B))))))"
proof -
  have "v_str (rview (b_srv bd) s) (bk bd (processedCountKey B)) = t_count (tabs bd s B)" by (simp add: tabs_defs)
  then show ?thesis using assms by (simp add: counted_def)
qed

text \<open>What the two scripts share: \<open>w\<close> is the write for a new item.\<close>

abbreviation script_end :: "string \<Rightarrow> string \<Rightarrow> ('s \<Rightarrow> 's) \<Rightarrow> 's \<Rightarrow> string option \<times> 's" where
  "script_end B item w s \<equiv>
     (if \<not> sISMEMBER (b_srv bd) (bk bd (processedItemsKey B)) item s
      then count_and_answer (b_srv bd) (bk bd (processedCountKey B)) (w (sADD (b_srv bd) (bk bd (processedItemsKey B)) item s))
      else answer_count (b_srv bd) (bk bd (processedCountKey B)) (sADD (b_srv bd) (bk bd (processedItemsKey B)) item s))"

lemma script_end_effect:
  assumes "counted (tabs bd s B)" and "\<And>s. v_str (rview (b_srv bd) (w s)) = v_str (rview (b_srv bd) s)"
  shows "fst (count_result (script_end B item w s)) = Inr (Some (int (card (insert item (t_done (tabs bd s B))))))"
    and "rview (b_srv bd) (snd (count_result (script_end B item w s))) =
      (if item \<in> t_done (tabs bd s B) then rview (b_srv bd) s
       else rview (b_srv bd) (rSET (b_srv bd) (bk bd (processedCountKey B)) (int_to_string (int (card (t_done (tabs bd s B))) + 1))
         (w (sADD (b_srv bd) (bk bd (processedItemsKey B)) item s))))"
proof -
  let ?R = "b_srv bd" and ?c = "bk bd (processedCountKey B)" and ?t = "tabs bd s B"
  let ?s1 = "sADD ?R (bk bd (processedItemsKey B)) item s"
  have fin: "finite (t_done ?t)" by (rule finite_tracked)
  have mem: "sISMEMBER ?R (bk bd (processedItemsKey B)) item s \<longleftrightarrow> item \<in> t_done ?t" by (simp add: read_views tabs_defs)
  note v = counted_view [OF assms(1)]
  have c: "fst (count_result (script_end B item w s)) = Inr (Some (int (card (insert item (t_done ?t)))))
    \<and> rview ?R (snd (count_result (script_end B item w s))) =
      (if item \<in> t_done ?t then rview ?R s else rview ?R (rSET ?R ?c (int_to_string (int (card (t_done ?t)) + 1)) (w ?s1)))"
  proof (cases "item \<in> t_done ?t")
    case True
    then have "card (t_done ?t) \<noteq> 0" using fin by auto
    then have "rGET ?R ?c ?s1 = Some (int_to_string (int (card (t_done ?t))))" using v by (simp add: read_views sADD_view)
    moreover have "rview ?R ?s1 = rview ?R s" using True by (simp add: sADD_view tabs_defs insert_absorb)
    ultimately show ?thesis using True by (simp add: mem count_result_def answer_count_def with_default_def insert_absorb)
  next
    case False
    have "v_str (rview ?R (w ?s1)) ?c = (if card (t_done ?t) = 0 then None else Some (int_to_string (int (card (t_done ?t)))))"
      using v assms(2) by (simp add: sADD_view)
    note c = count_and_answer_counts [OF this]
    obtain s' where "count_and_answer ?R ?c (w ?s1) = (Some (int_to_string (int (card (t_done ?t)) + 1)), s')"
      using c(1) by (cases "count_and_answer ?R ?c (w ?s1)") simp
    then show ?thesis using False fin c(2) by (simp add: mem count_result_def)
  qed
  show "fst (count_result (script_end B item w s)) = Inr (Some (int (card (insert item (t_done ?t)))))" using c by (rule conjunct1)
  show "rview ?R (snd (count_result (script_end B item w s))) =
      (if item \<in> t_done ?t then rview ?R s else rview ?R (rSET ?R ?c (int_to_string (int (card (t_done ?t)) + 1)) (w ?s1)))"
    using c by (rule conjunct2)
qed

lemma recordSuccess_effect:
  assumes "counted (tabs bd s B)"
  shows "fst (recordSuccess bd B runId (Some i) s) = Inr (Some (int (card (insert (int_to_string i) (t_done (tabs bd s B))))))"
    and "tabs bd (snd (recordSuccess bd B runId (Some i) s)) = (tabs bd s)(B := a_success (int_to_string i) runId i (tabs bd s B))"
proof -
  let ?w = "zADD (b_srv bd) (bk bd (runsKey B)) i runId"
  have r: "recordSuccess bd B runId (Some i) s = count_result (script_end B (int_to_string i) ?w s)"
    by (simp add: recordSuccess_def recordSuccessIdempotent_def Let_def with_default_def)
  have w: "v_str (rview (b_srv bd) (?w s)) = v_str (rview (b_srv bd) s)" for s by (simp add: zADD_view)
  note e = script_end_effect [OF assms w]
  show "fst (recordSuccess bd B runId (Some i) s) = Inr (Some (int (card (insert (int_to_string i) (t_done (tabs bd s B))))))"
    unfolding r by (rule e(1))
  show "tabs bd (snd (recordSuccess bd B runId (Some i) s)) = (tabs bd s)(B := a_success (int_to_string i) runId i (tabs bd s B))"
    unfolding r tabs_def e(2) by (intro ext) (simp add: tabs_defs rSET_view zADD_view sADD_view a_success_def)
qed

lemma recordFailure_effect:
  assumes "counted (tabs bd s B)"
  shows "fst (recordFailure bd now B f s) = Inr (Some (int (card (insert (int_to_string (bf_index f)) (t_done (tabs bd s B))))))"
    and "tabs bd (snd (recordFailure bd now B f s)) =
      (tabs bd s)(B := a_failure (int_to_string (bf_index f)) (b_putFailure bd (f\<lparr>bf_timestamp := now\<rparr>)) (tabs bd s B))"
proof -
  let ?json = "b_putFailure bd (f\<lparr>bf_timestamp := now\<rparr>)"
  let ?w = "lRPUSH (b_srv bd) (bk bd (failuresKey B)) ?json"
  have r: "recordFailure bd now B f s = count_result (script_end B (int_to_string (bf_index f)) ?w s)"
    by (simp add: recordFailure_def recordFailureIdempotent_def Let_def)
  have w: "v_str (rview (b_srv bd) (?w s)) = v_str (rview (b_srv bd) s)" for s by (simp add: lRPUSH_view)
  note e = script_end_effect [OF assms w]
  show "fst (recordFailure bd now B f s) = Inr (Some (int (card (insert (int_to_string (bf_index f)) (t_done (tabs bd s B))))))"
    unfolding r by (rule e(1))
  show "tabs bd (snd (recordFailure bd now B f s)) = (tabs bd s)(B := a_failure (int_to_string (bf_index f)) ?json (tabs bd s B))"
    unfolding r tabs_def e(2) by (intro ext) (simp add: tabs_defs rSET_view lRPUSH_view sADD_view a_failure_def)
qed

subsection \<open>Queries\<close>

lemma getMeta_view:
  "getMeta bd B s = (case t_meta (tabs bd s B) of
     None \<Rightarrow> Inr None
   | Some x \<Rightarrow> if x = [] then Inr None else case b_getMeta bd x of None \<Rightarrow> Inl BatchInvalidJSON | Some meta \<Rightarrow> Inr (Some meta))"
  by (simp add: getMeta_def tabs_defs read_views)

lemma getProcessedCount_counted: "counted (tabs bd s B) \<Longrightarrow> getProcessedCount bd B s = Some (int (card (t_done (tabs bd s B))))"
  using counted_view [of s B] by (auto simp: getProcessedCount_def read_views)

lemma getSuccessfulRuns_view: "getSuccessfulRuns bd B s = map fst (zsorted (t_runs (tabs bd s B)))"
  by (simp add: getSuccessfulRuns_def zRANGE_view redis_slice_def tabs_defs)

lemma parse_failures_puts: "parse_failures (b_getFailure bd) (map (b_putFailure bd) fs) = Inr fs"
  by (induction fs) (simp_all add: failure_codec)

end

end
