(* ===== verification/Batch_Queue.thy ===== *)
theory Batch_Queue
  imports Batch_Tracker
begin

text \<open>
  The batch queue (\<open>internal-packages/run-engine/src/batch-queue/index.ts\<close>): a fair queue with the deficit
  round robin, one queue per batch and the environment as tenant, and the completion tracker. Items are
  enqueued one by one, pass through the fair queue to a single worker queue, and consumers call the
  processing callback, record its outcome, complete the message and finalise the batch when the count that
  the recording answered is the batch's run count.

  The callbacks are arguments: what the processing callback answers, and whether the completion callback
  throws. A failing Redis command is not modelled, metrics and spans neither, except where a span changes
  the control flow: with a tracer, \<open>serializePayload\<close> reads the length of a text that may be undefined.
\<close>

subsection \<open>Configuration\<close>

text \<open>The two extractors of the key producer; queue ids have the form \<open>env:{envId}:batch:{batchId}\<close>.\<close>

definition batch_tenant :: "string \<Rightarrow> string" where
  "batch_tenant queueId =
     (case split_on colon queueId of
        p0 # p1 # rest \<Rightarrow> if p0 = ''env'' \<and> p1 \<noteq> [] then p1 else queueId
      | _ \<Rightarrow> queueId)"

definition batch_group :: "string \<Rightarrow> string \<Rightarrow> string" where
  "batch_group groupName queueId =
     (case split_on colon queueId of
        p0 # p1 # rest \<Rightarrow> if groupName = ''tenant'' \<and> p0 = ''env'' \<and> p1 \<noteq> [] then p1 else []
      | _ \<Rightarrow> [])"

definition batchKeys :: fair_keys where
  "batchKeys = \<lparr>k_prefix = ''batch'', k_separator = colon, tenantExtractor = Some batch_tenant, groupExtractor = Some batch_group\<rparr>"

definition BATCH_WORKER_QUEUE_ID :: string where
  "BATCH_WORKER_QUEUE_ID = ''batch-worker-queue''"

definition envConcurrencyKey :: "string \<Rightarrow> key" where
  "envConcurrencyKey envId = ''batch:env_concurrency:'' @ envId"

definition storeEnvConcurrency :: "'s batch_deps \<Rightarrow> string \<Rightarrow> int \<Rightarrow> 's \<Rightarrow> 's" where
  "storeEnvConcurrency bd envId concurrency s =
     rSETEX (b_srv bd) (bk bd (envConcurrencyKey envId)) (int_to_string concurrency) 86400 s"

definition getEnvConcurrency :: "'s batch_deps \<Rightarrow> string \<Rightarrow> 's \<Rightarrow> int" where
  "getEnvConcurrency bd envId s =
     (case rGET (b_srv bd) (bk bd (envConcurrencyKey envId)) s of
        None \<Rightarrow> b_defaultConcurrency bd
      | Some stored \<Rightarrow>
          if stored = [] then b_defaultConcurrency bd
          else case parse_int stored of
                 Some limit \<Rightarrow> if limit > 0 then limit else b_defaultConcurrency bd
               | None \<Rightarrow> b_defaultConcurrency bd)"

text \<open>The group that limits an environment reads its limit from the keyspace when it is asked.\<close>

definition env_limit :: "'s batch_deps \<Rightarrow> 's \<Rightarrow> string \<Rightarrow> int" where
  "env_limit bd s envId = getEnvConcurrency bd envId s"

definition env_group :: "'s batch_deps \<Rightarrow> 's \<Rightarrow> concurrency_group" where
  "env_group bd s = \<lparr>g_name = ''tenant'', g_extractGroupId = qd_tenantId, g_getLimit = env_limit bd s,
     g_defaultLimit = b_defaultConcurrency bd\<rparr>"

text \<open>The options that the constructor passes to the fair queue, and the fair queue's defaults for the rest; the
  groups are set below.\<close>

definition batchCore :: "'s batch_deps \<Rightarrow> 's fq_deps" where
  "batchCore bd = \<lparr>d_srv = b_srv bd, d_prefix = b_prefix bd, d_keys = batchKeys, d_fl = b_fl bd, d_pow = b_pow bd, d_sha = b_sha bd,
     d_stringify = b_stringify bd, d_parse = b_parse bd, d_dlqStringify = b_dlqStringify bd, d_dlqParse = b_dlqParse bd,
     d_accepts = (\<lambda>_. True), d_groups = [], d_retryStrategy = None, d_deadLetterQueueEnabled = True,
     d_shardCount = b_shardCount bd, d_visibilityTimeoutMs = 60000, d_heartbeatIntervalMs = 20000, d_batchClaimSize = 10,
     d_cooloffEnabled = True, d_cooloffThreshold = 5, d_cooloffPeriodMs = 5000, d_maxCooloffStatesSize = 1000,
     d_workerQueueResolver = (\<lambda>_. BATCH_WORKER_QUEUE_ID)\<rparr>"

definition batchFairQueue :: "'s batch_deps \<Rightarrow> 's \<Rightarrow> 's fq_deps" where
  "batchFairQueue bd s = (batchCore bd)\<lparr>d_groups := [env_group bd s]\<rparr>"

definition batchScheduler :: "'s batch_deps \<Rightarrow> 's \<Rightarrow> ('s, 'c) fair_scheduler" where
  "batchScheduler bd s = drrScheduler (batchFairQueue bd s) (b_drr bd)"

subsection \<open>Enqueueing\<close>

record init_batch_options =
  io_batchId :: string
  io_friendlyId :: string
  io_environmentId :: string
  io_environmentType :: environment_type
  io_organizationId :: string
  io_projectId :: string
  io_runCount :: int
  io_parentRunId :: "string option"
  io_resumeParentOnCompletion :: "bool option"
  io_triggerVersion :: "string option"
  io_traceContext :: "string option"
  io_spanParentAsLink :: "bool option"
  io_realtimeStreamsVersion :: "string option"
  io_idempotencyKey :: "string option"
  io_processingConcurrency :: "int option"
  io_planType :: "string option"

text \<open>The metadata of a batch. The plan type of the options is not copied.\<close>

definition meta_of :: "time \<Rightarrow> init_batch_options \<Rightarrow> batch_meta" where
  "meta_of now options =
     \<lparr>bm_batchId = io_batchId options, bm_friendlyId = io_friendlyId options, bm_environmentId = io_environmentId options,
      bm_environmentType = io_environmentType options, bm_organizationId = io_organizationId options,
      bm_projectId = io_projectId options, bm_runCount = io_runCount options, bm_createdAt = now,
      bm_parentRunId = io_parentRunId options, bm_resumeParentOnCompletion = io_resumeParentOnCompletion options,
      bm_triggerVersion = io_triggerVersion options, bm_traceContext = io_traceContext options,
      bm_spanParentAsLink = io_spanParentAsLink options, bm_realtimeStreamsVersion = io_realtimeStreamsVersion options,
      bm_idempotencyKey = io_idempotencyKey options, bm_processingConcurrency = io_processingConcurrency options,
      bm_planType = None\<rparr>"

definition initializeBatch :: "'s batch_deps \<Rightarrow> time \<Rightarrow> init_batch_options \<Rightarrow> 's \<Rightarrow> 's" where
  "initializeBatch bd now options s =
     (let s = storeMeta bd (io_batchId options) (meta_of now options) s
      in case io_processingConcurrency options of
           None \<Rightarrow> s
         | Some concurrency \<Rightarrow> storeEnvConcurrency bd (io_environmentId options) concurrency s)"

definition makeQueueId :: "string \<Rightarrow> string \<Rightarrow> string" where
  "makeQueueId envId batchId = ''env:'' @ envId @ '':batch:'' @ batchId"

definition item_payload :: "batch_meta \<Rightarrow> string \<Rightarrow> int \<Rightarrow> batch_item \<Rightarrow> batch_item_payload" where
  "item_payload meta batchId itemIndex item =
     \<lparr>ip_batchId = batchId, ip_friendlyId = bm_friendlyId meta, ip_itemIndex = itemIndex, ip_item = item\<rparr>"

definition item_options :: "'s batch_deps \<Rightarrow> batch_meta \<Rightarrow> string \<Rightarrow> string \<Rightarrow> int \<Rightarrow> batch_item \<Rightarrow> enqueue_options" where
  "item_options bd meta batchId envId itemIndex item =
     \<lparr>eo_queueId = makeQueueId envId batchId, eo_tenantId = envId, eo_payload = b_putItem bd (item_payload meta batchId itemIndex item),
      eo_messageId = None, eo_timestamp = Some (bm_createdAt meta + itemIndex),
      eo_metadata = Some [(''batchId'', batchId), (''friendlyId'', bm_friendlyId meta), (''envId'', envId)]\<rparr>"

text \<open>The answer is whether the item was enqueued; \<open>nano\<close> is the message id that the fair queue generates.\<close>

definition enqueueBatchItem ::
    "'s batch_deps \<Rightarrow> time \<Rightarrow> string \<Rightarrow> string \<Rightarrow> string \<Rightarrow> int \<Rightarrow> batch_item \<Rightarrow> ('s, 'c) fq_state \<Rightarrow>
     (batch_error + bool) \<times> ('s, 'c) fq_state" where
  "enqueueBatchItem bd now nano batchId envId itemIndex item st =
     (case getMeta bd batchId (fqs_redis st) of
        Inl e \<Rightarrow> (Inl e, st)
      | Inr None \<Rightarrow> (Inl (BatchNotFound batchId), st)
      | Inr (Some meta) \<Rightarrow>
          (let (isNewItem, s) = markItemEnqueued bd batchId itemIndex (fqs_redis st);
               st = st\<lparr>fqs_redis := s\<rparr>
           in if \<not> isNewItem then (Inr False, st)
              else case fq_enqueue (batchFairQueue bd s) now nano (item_options bd meta batchId envId itemIndex item) st of
                     (Inl e, st) \<Rightarrow> (Inl (BatchFairError e), st)
                   | (Inr _, st) \<Rightarrow> (Inr True, st)))"

subsection \<open>Queries\<close>

definition getBatchRemainingCount :: "'s batch_deps \<Rightarrow> string \<Rightarrow> 's \<Rightarrow> batch_error + int option" where
  "getBatchRemainingCount bd batchId s =
     (case getMeta bd batchId s of
        Inl e \<Rightarrow> Inl e
      | Inr None \<Rightarrow> Inr (Some 0)
      | Inr (Some meta) \<Rightarrow> Inr (map_option (\<lambda>processedCount. max 0 (bm_runCount meta - processedCount)) (getProcessedCount bd batchId s)))"

record batch_progress =
  pr_successCount :: nat
  pr_failureCount :: nat
  pr_processedCount :: "int option"

definition getBatchProgress :: "'s batch_deps \<Rightarrow> string \<Rightarrow> 's \<Rightarrow> batch_error + batch_progress" where
  "getBatchProgress bd batchId s =
     (case getFailures bd batchId s of
        Inl e \<Rightarrow> Inl e
      | Inr failures \<Rightarrow> Inr \<lparr>pr_successCount = length (getSuccessfulRuns bd batchId s), pr_failureCount = length failures,
          pr_processedCount = getProcessedCount bd batchId s\<rparr>)"

subsection \<open>Handling a message\<close>

text \<open>What the processing callback answers, or the message of the error it throws.\<close>

datatype item_outcome = ItemSuccess string | ItemFailure string "string option" | ItemThrew string

text \<open>\<open>JSON.stringify(undefined)\<close> is \<open>undefined\<close>, whose length is read when there is a span.\<close>

definition serializePayload :: "bool \<Rightarrow> payload_value option \<Rightarrow> batch_error + string option" where
  "serializePayload tracer payload =
     (case payload of
        Some (PText text) \<Rightarrow> Inr (Some text)
      | Some (PJson json) \<Rightarrow> Inr (Some json)
      | None \<Rightarrow> if tracer then Inl BatchTypeError else Inr None)"

definition failure_of :: "batch_item_payload \<Rightarrow> string option \<Rightarrow> string \<Rightarrow> string option \<Rightarrow> batch_item_failure" where
  "failure_of p payloadStr err errorCode =
     \<lparr>bf_index = ip_itemIndex p, bf_taskIdentifier = bi_task (ip_item p), bf_payload = payloadStr, bf_options = bi_options (ip_item p),
      bf_error = err, bf_errorCode = errorCode, bf_timestamp = 0\<rparr>"

text \<open>The catch block.\<close>

definition recordUnexpected ::
    "'s batch_deps \<Rightarrow> time \<Rightarrow> batch_item_payload \<Rightarrow> string \<Rightarrow> 's \<Rightarrow> (batch_error + int option) \<times> 's" where
  "recordUnexpected bd now p err s =
     (case serializePayload (b_tracer bd) (bi_payload (ip_item p)) of
        Inl e \<Rightarrow> (Inl e, s)
      | Inr payloadStr \<Rightarrow> recordFailure bd now (ip_batchId p) (failure_of p payloadStr err (Some ''UNEXPECTED_ERROR'')) s)"

text \<open>The texts of the errors that the code itself can raise in the try block.\<close>

definition errorMessage :: "batch_error \<Rightarrow> string" where
  "errorMessage e = (case e of BatchTypeError \<Rightarrow> ''Cannot read properties of undefined (reading 'length')''
     | _ \<Rightarrow> ''ERR value is not an integer or out of range'')"

text \<open>The try block and the catch block.\<close>

definition recordOutcome ::
    "'s batch_deps \<Rightarrow> time \<Rightarrow> batch_item_payload \<Rightarrow> item_outcome \<Rightarrow> 's \<Rightarrow> (batch_error + int option) \<times> 's" where
  "recordOutcome bd now p outcome s =
     (case outcome of
        ItemSuccess runId \<Rightarrow>
          (case recordSuccess bd (ip_batchId p) runId (Some (ip_itemIndex p)) s of
             (Inl e, s) \<Rightarrow> recordUnexpected bd now p (errorMessage e) s
           | (Inr n, s) \<Rightarrow> (Inr n, s))
      | ItemFailure err errorCode \<Rightarrow>
          (case serializePayload (b_tracer bd) (bi_payload (ip_item p)) of
             Inl e \<Rightarrow> recordUnexpected bd now p (errorMessage e) s
           | Inr payloadStr \<Rightarrow>
               (case recordFailure bd now (ip_batchId p) (failure_of p payloadStr err errorCode) s of
                  (Inl e, s) \<Rightarrow> recordUnexpected bd now p (errorMessage e) s
                | (Inr n, s) \<Rightarrow> (Inr n, s)))
      | ItemThrew err \<Rightarrow> recordUnexpected bd now p err s)"

text \<open>The completion callback, if one is set, answers \<open>Some err\<close> when it throws.\<close>

type_synonym completion_callback = "complete_batch_result \<Rightarrow> string option"

definition report :: "'s batch_deps \<Rightarrow> completion_callback option \<Rightarrow> string \<Rightarrow> complete_batch_result \<Rightarrow> 's \<Rightarrow>
     (batch_error + complete_batch_result option) \<times> 's" where
  "report bd onComplete batchId result s =
     (case onComplete of
        None \<Rightarrow> (Inr (Some result), cleanup bd batchId s)
      | Some callback \<Rightarrow>
          (case callback result of
             Some err \<Rightarrow> (Inl (BatchCallbackFailed err), s)
           | None \<Rightarrow> (Inr (Some result), cleanup bd batchId s)))"

definition finalizeBatch :: "'s batch_deps \<Rightarrow> completion_callback option \<Rightarrow> string \<Rightarrow> 's \<Rightarrow>
     (batch_error + complete_batch_result option) \<times> 's" where
  "finalizeBatch bd onComplete batchId s =
     (case getCompletionResult bd batchId s of
        Inl e \<Rightarrow> (Inl e, s)
      | Inr result \<Rightarrow> report bd onComplete batchId result s)"

abbreviation complete_item :: "'s batch_deps \<Rightarrow> string \<Rightarrow> string \<Rightarrow> ('s, 'c) fq_state \<Rightarrow> ('s, 'c) fq_state" where
  "complete_item bd messageId queueId st \<equiv> completeMessage (batchFairQueue bd (fqs_redis st)) messageId queueId st"

text \<open>The answer is the result with which the batch was finalised, if it was.\<close>

definition handleMessage ::
    "'s batch_deps \<Rightarrow> time \<Rightarrow> (batch_item_payload \<Rightarrow> batch_meta \<Rightarrow> item_outcome) option \<Rightarrow> completion_callback option \<Rightarrow>
     string \<Rightarrow> string \<Rightarrow> ('s, 'c) fq_state \<Rightarrow> (batch_error + complete_batch_result option) \<times> ('s, 'c) fq_state" where
  "handleMessage bd now processItem onComplete messageId queueId st =
     (case getMessageData (batchFairQueue bd (fqs_redis st)) messageId queueId (fqs_redis st) of
        None \<Rightarrow> (Inr None, complete_item bd messageId queueId st)
      | Some storedMessage \<Rightarrow>
          (case b_getItem bd (sm_payload storedMessage) of
             None \<Rightarrow> (Inl BatchTypeError, st)
           | Some p \<Rightarrow>
               (case processItem of
                  None \<Rightarrow> (Inr None, complete_item bd messageId queueId st)
                | Some callback \<Rightarrow>
                    (case getMeta bd (ip_batchId p) (fqs_redis st) of
                       Inl e \<Rightarrow> (Inl e, st)
                     | Inr None \<Rightarrow> (Inr None, complete_item bd messageId queueId st)
                     | Inr (Some meta) \<Rightarrow>
                         (case recordOutcome bd now p (callback p meta) (fqs_redis st) of
                            (Inl e, s) \<Rightarrow> (Inl e, st\<lparr>fqs_redis := s\<rparr>)
                          | (Inr processedCount, s) \<Rightarrow>
                              (let st = st\<lparr>fqs_redis := s\<rparr>;
                                   st = complete_item bd messageId queueId st
                               in if processedCount = Some (bm_runCount meta)
                                  then (let (r, s) = finalizeBatch bd onComplete (ip_batchId p) (fqs_redis st)
                                        in (r, st\<lparr>fqs_redis := s\<rparr>))
                                  else (Inr None, st)))))))"

subsection \<open>The consumer loop\<close>

text \<open>\<open>BLPOP\<close>: the first element, or nothing when the time runs out.\<close>

definition worker_blockingPop :: "'s fq_deps \<Rightarrow> string \<Rightarrow> 's \<Rightarrow> string option \<times> 's" where
  "worker_blockingPop d workerQueueId s = lLPOP (d_srv d) (kWorker d workerQueueId) s"

text \<open>\<open>indexOf(":")\<close> of the message key and the two substrings; \<open>None\<close> is an invalid key.\<close>

definition parseMessageKey :: "string \<Rightarrow> (string \<times> string) option" where
  "parseMessageKey messageKey =
     (if colon_free messageKey then None
      else Some (takeWhile (\<lambda>c. c \<noteq> colon) messageKey, tl (dropWhile (\<lambda>c. c \<noteq> colon) messageKey)))"

text \<open>One round of the loop: whether it had work, the outcome of the handler, and the state.\<close>

definition consumeWorkerQueue ::
    "'s batch_deps \<Rightarrow> time \<Rightarrow> (batch_item_payload \<Rightarrow> batch_meta \<Rightarrow> item_outcome) \<Rightarrow> completion_callback option \<Rightarrow>
     ('s, 'c) fq_state \<Rightarrow> bool \<times> (batch_error + complete_batch_result option) \<times> ('s, 'c) fq_state" where
  "consumeWorkerQueue bd now callback onComplete st =
     (let (popped, s) = worker_blockingPop (batchFairQueue bd (fqs_redis st)) BATCH_WORKER_QUEUE_ID (fqs_redis st);
          st = st\<lparr>fqs_redis := s\<rparr>
      in case popped of
           None \<Rightarrow> (False, Inr None, st)
         | Some messageKey \<Rightarrow>
             (case parseMessageKey messageKey of
                None \<Rightarrow> (False, Inr None, st)
              | Some (messageId, queueId) \<Rightarrow>
                  (let (r, st) = handleMessage bd now (Some callback) onComplete messageId queueId st in (True, r, st))))"

subsection \<open>First facts\<close>

text \<open>The tenant of a batch's queue is its environment.\<close>

lemma batch_tenant_makeQueueId: "colon_free envId \<Longrightarrow> envId \<noteq> [] \<Longrightarrow> batch_tenant (makeQueueId envId batchId) = envId"
proof -
  assume e: "colon_free envId" "envId \<noteq> []"
  have "makeQueueId envId batchId = ''env'' @ colon # envId @ colon # ''batch:'' @ batchId" by (simp add: makeQueueId_def)
  then have "split_on colon (makeQueueId envId batchId) = ''env'' # envId # split_on colon (''batch:'' @ batchId)"
    using split_on_prefix [of colon "''env''"] split_on_prefix [OF e(1)] by (simp only:) simp
  then show ?thesis using e(2) by (simp only: batch_tenant_def list.case) simp
qed

lemma makeQueueId_inject: "colon_free E \<Longrightarrow> colon_free E' \<Longrightarrow> makeQueueId E B = makeQueueId E' B' \<longleftrightarrow> E = E' \<and> B = B'"
  using append_sep_eq [of colon E E' "''batch:'' @ B" "''batch:'' @ B'"] by (auto simp: makeQueueId_def)

context batch_server
begin

lemma getEnvConcurrency_store:
  "getEnvConcurrency bd E (storeEnvConcurrency bd E' c s) =
     (if E = E' then (if c > 0 then c else b_defaultConcurrency bd) else getEnvConcurrency bd E s)"
  by (simp add: getEnvConcurrency_def storeEnvConcurrency_def read_views rSETEX_view rSET_view envConcurrencyKey_def)

end

end
