(* ===== verification/Batch_Frame.thy ===== *)
theory Batch_Frame
  imports Batch_Queue Fair_Queue_System
begin

text \<open>
  The batch queue's two parts share a keyspace: the tracker's keys and the fair queue's keys are different
  for batch ids without a colon that are not one of the words of the fair queue's keys. So the fair queue's
  operations keep the tracker, and the tracker's operations keep the fair queue.
\<close>

subsection \<open>The groups of a configuration\<close>

text \<open>The keys, the store and the invariant of a fair queue do not depend on its concurrency groups.\<close>

lemma rk_groups [simp]: "rk (d\<lparr>d_groups := gs\<rparr>) = rk d"
  by (intro ext) (simp add: rk_def)

lemma shard_groups [simp]: "getShardForQueue (d\<lparr>d_groups := gs\<rparr>) = getShardForQueue d"
  by (intro ext) (simp add: getShardForQueue_def shard_for_def)

lemma fabs_groups [simp]: "fabs (d\<lparr>d_groups := gs\<rparr>) = fabs d"
  by (intro ext) (simp add: fabs_defs)

lemma payload_ok_groups [simp]: "payload_ok (d\<lparr>d_groups := gs\<rparr>) = payload_ok d" "dead_payload_ok (d\<lparr>d_groups := gs\<rparr>) = dead_payload_ok d"
  "tenant_ok (d\<lparr>d_groups := gs\<rparr>) = tenant_ok d"
  by (intro ext, simp add: payload_ok_def dead_payload_ok_def tenant_ok_def cong: option.case_cong)+

lemma fq_inv_groups [simp]: "fq_inv (d\<lparr>d_groups := gs\<rparr>) = fq_inv d"
  by (intro ext) (simp add: fq_inv_def fq_core_def fq_parts)

lemma msg_data_groups [simp]: "msg_data (d\<lparr>d_groups := gs\<rparr>) = msg_data d" "msg_phase_of (d\<lparr>d_groups := gs\<rparr>) = msg_phase_of d"
  by (intro ext, simp add: msg_data_def msg_phase_of_def cong: option.case_cong)+

lemma inflight_stored_groups [simp]: "inflight_stored (d\<lparr>d_groups := gs\<rparr>) = inflight_stored d"
  by (intro ext) (simp add: inflight_stored_def split: option.split)

subsection \<open>Separation\<close>

definition batch_id_ok :: "string \<Rightarrow> bool" where
  "batch_id_ok B \<longleftrightarrow> colon_free B
     \<and> B \<notin> set [''master'', ''queue'', ''concurrency'', ''inflight'', ''worker'', ''dlq'', ''drr'', ''env_concurrency'']"

lemma trackerKey_word:
  assumes "batch_id_ok B" and "w \<in> set [''master'', ''queue'', ''concurrency'', ''inflight'', ''worker'', ''dlq'', ''drr'', ''env_concurrency'']"
  shows "trackerKey suffix B \<noteq> ''batch:'' @ w @ colon # x"
proof
  assume "trackerKey suffix B = ''batch:'' @ w @ colon # x"
  then have "B @ colon # suffix = w @ colon # x" by (simp add: trackerKey_def)
  moreover have "colon_free w" using assms(2) by auto
  ultimately have "B = w" using append_sep_eq [of colon B w suffix x] assms(1) by (simp add: batch_id_ok_def)
  then show False using assms by (auto simp: batch_id_ok_def)
qed

lemma batchCore_simps [simp]:
  "d_srv (batchCore bd) = b_srv bd" "d_prefix (batchCore bd) = b_prefix bd"
  "d_parse (batchCore bd) = b_parse bd" "d_stringify (batchCore bd) = b_stringify bd" "d_shardCount (batchCore bd) = b_shardCount bd"
  "d_visibilityTimeoutMs (batchCore bd) = 60000" "d_batchClaimSize (batchCore bd) = 10" "d_accepts (batchCore bd) p"
  "d_workerQueueResolver (batchCore bd) m = BATCH_WORKER_QUEUE_ID"
  by (simp_all add: batchCore_def)

lemma batchCore_keys: "d_keys (batchCore bd) = batchKeys"
  by (simp add: batchCore_def)

lemma batch_separator [simp]: "k_separator batchKeys = colon" "k_prefix batchKeys = ''batch''"
  by (simp_all add: batchKeys_def)

lemma batch_fair_keys:
  "kMaster (batchCore bd) i = bk bd (''batch:'' @ ''master'' @ colon # int_to_string i)"
  "kQ (batchCore bd) q = bk bd (''batch:'' @ ''queue'' @ colon # q)"
  "kQItems (batchCore bd) q = bk bd (''batch:'' @ ''queue'' @ colon # q @ '':items'')"
  "kInflight (batchCore bd) i = bk bd (''batch:'' @ ''inflight'' @ colon # int_to_string i)"
  "kInflightData (batchCore bd) i = bk bd (''batch:'' @ ''inflight'' @ colon # int_to_string i @ '':data'')"
  "kDead (batchCore bd) t = bk bd (''batch:'' @ ''dlq'' @ colon # t)"
  "kDeadData (batchCore bd) t = bk bd (''batch:'' @ ''dlq'' @ colon # t @ '':data'')"
  "kGroup (batchCore bd) g j = bk bd (''batch:'' @ ''concurrency'' @ colon # g @ '':'' @ j)"
  "kWorker (batchCore bd) w = bk bd (''batch:'' @ ''worker'' @ colon # w)"
  "deficitKey (batchCore bd) = bk bd (''batch:'' @ ''drr'' @ colon # ''deficit'')"
  by (simp_all add: batchCore_keys rk_def bk_def fair_key_defs deficitKey_def split_on_prefix [of colon "''batch''", simplified])

lemma tracker_fair_apart:
  assumes "batch_id_ok B"
  shows "bk bd (trackerKey x B) \<noteq> kMaster (batchCore bd) i" "bk bd (trackerKey x B) \<noteq> kQ (batchCore bd) q"
    "bk bd (trackerKey x B) \<noteq> kQItems (batchCore bd) q" "bk bd (trackerKey x B) \<noteq> kInflight (batchCore bd) i"
    "bk bd (trackerKey x B) \<noteq> kInflightData (batchCore bd) i" "bk bd (trackerKey x B) \<noteq> kDead (batchCore bd) t"
    "bk bd (trackerKey x B) \<noteq> kDeadData (batchCore bd) t" "bk bd (trackerKey x B) \<noteq> kGroup (batchCore bd) g j"
    "bk bd (trackerKey x B) \<noteq> kWorker (batchCore bd) w"
  unfolding batch_fair_keys bk_inject by (rule trackerKey_word [OF assms]; simp)+

lemma tracker_fair_apart_keys:
  assumes "batch_id_ok B"
  shows "kMaster (batchCore bd) i \<noteq> bk bd (runsKey B)" "kQ (batchCore bd) q \<noteq> bk bd (runsKey B)"
    "kInflight (batchCore bd) i \<noteq> bk bd (runsKey B)" "kGroup (batchCore bd) g j \<noteq> bk bd (processedItemsKey B)"
    "kGroup (batchCore bd) g j \<noteq> bk bd (enqueuedItemsKey B)" "kWorker (batchCore bd) w \<noteq> bk bd (failuresKey B)"
  using tracker_fair_apart [OF assms, THEN not_sym, of bd] by (simp_all add: tracker_key_defs)

subsection \<open>The fair queue keeps the tracker\<close>

definition tracker :: "'s batch_deps \<Rightarrow> 's \<Rightarrow> string \<Rightarrow> tracked" where
  "tracker bd s B = (if batch_id_ok B then tabs bd s B else untracked)"

context batch_server
begin

abbreviation D :: "'s fq_deps" where "D \<equiv> batchCore bd"

lemma fair_server_batch: "fair_server (batchFairQueue bd s)"
  using redis_server_axioms
  by (intro fair_server.intro fair_server_axioms.intro)
    (simp_all add: batchFairQueue_def message_codec dead_codec shards, simp_all add: batchCore_def dead_codec)

lemma fair_home_batch: "fair_queue_home (batchFairQueue bd s)"
  using fair_server_batch by (rule fair_queue_home.intro)

lemma batch_srv [simp]: "d_srv (batchFairQueue bd s) = b_srv bd" "d_keys (batchFairQueue bd s) = d_keys D"
  by (simp_all add: batchFairQueue_def)

text \<open>What most operations keep: the tracker and the lists.\<close>

definition bkept :: "'s \<Rightarrow> (string \<Rightarrow> tracked) \<times> (key \<Rightarrow> string list)" where
  "bkept s = (tracker bd s, v_list (rview (b_srv bd) s))"

lemma bkept_tracker: "bkept s' = bkept s \<Longrightarrow> tracker bd s' = tracker bd s"
  and bkept_lists: "bkept s' = bkept s \<Longrightarrow> v_list (rview (b_srv bd) s') = v_list (rview (b_srv bd) s)"
  by (simp_all add: bkept_def)

text \<open>Commands.\<close>

lemma bkept_hashes [simp]: "bkept (hSET (b_srv bd) k f v s) = bkept s" "bkept (hDEL (b_srv bd) k f s) = bkept s"
  by (simp_all add: bkept_def fun_eq_iff tracker_def tabs_defs hSET_view hDEL_view)

lemma bkept_view: "rview (b_srv bd) s' = rview (b_srv bd) s \<Longrightarrow> bkept s' = bkept s"
  by (simp add: bkept_def fun_eq_iff tracker_def tabs_def)

lemma bkept_hincr [simp]: "bkept (snd (hINCRBYFLOAT (b_srv bd) k f i s)) = bkept s"
  using hINCRBYFLOAT_field [of k f i s] bkept_hashes(1) [of k f _ s] bkept_view by metis

lemma bkept_commands [simp]:
  "bkept (zADD (b_srv bd) (kMaster D i) sc m s) = bkept s" "bkept (zREM (b_srv bd) (kMaster D i) m s) = bkept s"
  "bkept (zADD (b_srv bd) (kQ D q) sc m s) = bkept s" "bkept (zREM (b_srv bd) (kQ D q) m s) = bkept s"
  "bkept (zADD (b_srv bd) (kInflight D i) sc m s) = bkept s" "bkept (zREM (b_srv bd) (kInflight D i) m s) = bkept s"
  "bkept (sADD (b_srv bd) (kGroup D g j) m s) = bkept s" "bkept (sREM (b_srv bd) (kGroup D g j) m s) = bkept s"
  by (simp_all add: bkept_def fun_eq_iff tracker_def tabs_defs zADD_view zREM_view sADD_view sREM_view tracker_fair_apart_keys
      tracker_fair_apart_keys [THEN not_sym])

lemma tracker_lists [simp]:
  "tracker bd (lRPUSH (b_srv bd) (kWorker D w) v s) = tracker bd s" "tracker bd (snd (lLPOP (b_srv bd) (kWorker D w) s)) = tracker bd s"
  by (simp_all add: fun_eq_iff tracker_def tabs_defs lRPUSH_view lLPOP_view tracker_fair_apart_keys [THEN not_sym])

text \<open>Scripts and methods, whatever the groups.\<close>

abbreviation DG :: "concurrency_group list \<Rightarrow> 's fq_deps" where "DG gs \<equiv> D\<lparr>d_groups := gs\<rparr>"

lemma bkept_scripts [simp]:
  "bkept (update_master (b_srv bd) (kQ D q) (kMaster D i) q s) = bkept s"
  "bkept (enqueueMessageAtomic (b_srv bd) (kQ D q) (kQItems D q) (kMaster D i) q m t p s) = bkept s"
  "bkept (snd (updateMasterQueueIfEmpty (b_srv bd) (kMaster D i) (kQ D q) q s)) = bkept s"
  "bkept (claim_one (b_srv bd) (kQ D q) ik (kInflight D i) fdk q dl m p s) = bkept s"
  "bkept (snd (releaseMessage_script (b_srv bd) (kInflight D i) fdk (kQ D q) ik (kMaster D j) x m sc q s)) = bkept s"
  "bkept (removeFromInflight (DG gs) i m q s) = bkept s"
proof -
  show upd: "bkept (update_master (b_srv bd) (kQ D q) (kMaster D i) q s) = bkept s" for i s
    by (simp add: update_master_def split: list.split)
  show "bkept (enqueueMessageAtomic (b_srv bd) (kQ D q) (kQItems D q) (kMaster D i) q m t p s) = bkept s"
    by (simp add: enqueueMessageAtomic_def upd)
  show "bkept (snd (updateMasterQueueIfEmpty (b_srv bd) (kMaster D i) (kQ D q) q s)) = bkept s"
    by (simp add: updateMasterQueueIfEmpty_def upd)
  show "bkept (claim_one (b_srv bd) (kQ D q) ik (kInflight D i) fdk q dl m p s) = bkept s" by (simp add: claim_one_def)
  show "bkept (snd (releaseMessage_script (b_srv bd) (kInflight D i) fdk (kQ D q) ik (kMaster D j) x m sc q s)) = bkept s"
    by (simp add: releaseMessage_script_def upd Let_def split: option.split)
  show "bkept (removeFromInflight (DG gs) i m q s) = bkept s" by (simp add: removeFromInflight_def)
qed

lemma bkept_claim [simp]: "bkept (snd (claimBatch (DG gs) now q c n vt s)) = bkept s"
proof -
  have loop: "bkept (snd (claimBatch_loop (b_srv bd) (kQ D q) ik (kInflight D i) fdk q dl ms s)) = bkept s" for i ik fdk dl ms s
    by (induction ms arbitrary: s) (auto simp: Let_def case_prod_beta split: option.split)
  have parse: "bkept (snd (parse_claimed (DG gs) i q c dl res s)) = bkept s" for i dl res s
    by (induction res arbitrary: s) (auto simp: Let_def case_prod_beta split: option.split)
  show ?thesis by (simp add: claimBatch_def claimMessageBatch_script_def Let_def case_prod_beta parse loop)
qed

lemma bkept_release [simp]: "bkept (v_releaseBatch (DG gs) now ms q (kMaster D i) sc s) = bkept s"
proof -
  have loop: "bkept (snd (releaseBatch_loop (b_srv bd) (kInflight D j) fdk (kQ D q) ik sc xs s)) = bkept s" for j fdk ik sc xs s
    by (induction xs arbitrary: s) (auto simp: Let_def case_prod_beta split: option.split)
  then show ?thesis by (simp add: v_releaseBatch_def releaseMessageBatch_script_def Let_def case_prod_beta)
qed

lemma bkept_concurrency [simp]:
  "bkept (snd (reserve (DG gs) ref m s)) = bkept s" "bkept (release_concurrency (DG gs) ref m s) = bkept s"
  "bkept (releaseBatch_concurrency (DG gs) refs s) = bkept s"
proof -
  have "bkept (fold (\<lambda>(k, limit) s. sADD (b_srv bd) k m s) (map (\<lambda>g. (kGroup D (g_name g) (f g), l g)) xs) s) = bkept s"
    for xs :: "concurrency_group list" and f and l :: "concurrency_group \<Rightarrow> int" and s
    by (induction xs arbitrary: s) auto
  then show "bkept (snd (reserve (DG gs) ref m s)) = bkept s"
    by (simp add: reserve_def reserveConcurrency_script_def Let_def)
  have "bkept (fold (\<lambda>g s. sREM (b_srv bd) (kGroup D (g_name g) (g_extractGroupId g ref)) m s) xs s) = bkept s"
    for xs :: "concurrency_group list" and ref m s
    by (induction xs arbitrary: s) auto
  then have rem: "bkept (release_concurrency (DG gs) ref m s) = bkept s" for ref m s by (simp add: release_concurrency_def)
  then show "bkept (release_concurrency (DG gs) ref m s) = bkept s" .
  show "bkept (releaseBatch_concurrency (DG gs) refs s) = bkept s"
    unfolding releaseBatch_concurrency_def using rem by (induction refs arbitrary: s) auto
qed

lemma bkept_update [simp]: "bkept (fqs_redis (update_and_forget (DG gs) (kMaster D i) q st)) = bkept (fqs_redis st)"
  by (simp add: update_and_forget_def Let_def case_prod_beta)

text \<open>Operations.\<close>

lemma bkept_enqueue: "bkept (fqs_redis (snd (fq_enqueue (DG gs) now nano opts st))) = bkept (fqs_redis st)"
  by (simp add: fq_enqueue_def Let_def)

lemma bkept_complete: "bkept (fqs_redis (completeMessage (DG gs) m q st)) = bkept (fqs_redis st)"
  by (simp add: completeMessage_def complete_def Let_def split: option.split)

lemma bkept_reclaim: "bkept (reclaimTimedOutMessages (DG gs) now s) = bkept s"
proof -
  have loop: "bkept (snd (reclaim_loop (DG gs) i now (masterKeyFor D) xs s)) = bkept s" for i xs s and gs
    by (induction xs arbitrary: s) (auto simp: Let_def case_prod_beta)
  have "bkept (reclaim_shards (DG gs) now is s) = bkept s" for "is" s
    by (induction "is" arbitrary: s) (auto simp: Let_def case_prod_beta reclaimTimedOut_def loop)
  then show ?thesis by (simp add: reclaimTimedOutMessages_def)
qed

lemma bkept_drr:
  "bkept (snd (drr_selectQueues (DG gs) cfg now k s)) = bkept s"
  "bkept (snd (drrDecrementDeficitBatch (b_srv bd) k' t n s)) = bkept s"
proof -
  have incr: "bkept s' = bkept s" if "hINCRBYFLOAT (b_srv bd) k f i s = (r, s')" for k f i s r s'
    using bkept_hincr [of k f i s] that by simp
  have "bkept (snd (drrAddQuantum (b_srv bd) k q m ts s)) = bkept s" for k q m ts s
  proof (induction ts arbitrary: s)
    case (Cons t ts)
    obtain r s' where r: "hINCRBYFLOAT (b_srv bd) k t q s = (r, s')" by fastforce
    show ?case
      using Cons.IH [of s'] Cons.IH [of "hSET (b_srv bd) k t (int_to_string m) s'"] incr [OF r]
      by (auto simp: r Let_def split: option.split prod.split)
  qed simp
  then have add: "bkept s' = bkept s" if "drrAddQuantum (b_srv bd) k q m ts s = (r, s')" for k q m ts s r s'
    using that by (metis snd_conv)
  show "bkept (snd (drr_selectQueues (DG gs) cfg now k s)) = bkept s"
    by (auto simp: drr_selectQueues_def Let_def split: prod.split option.split sum.split dest: add)
  show "bkept (snd (drrDecrementDeficitBatch (b_srv bd) k' t n s)) = bkept s"
    by (auto simp: drrDecrementDeficitBatch_def split: prod.split option.split dest: incr)
qed

text \<open>The shard pass.\<close>

lemma tracker_push: "tracker bd (snd (push_claimed (DG gs) now ref q (kMaster D i) ms s)) = tracker bd s"
proof (induction ms arbitrary: s)
  case (Cons m ms)
  obtain b s1 where r: "(if d_groups (DG gs) = [] then (True, s) else reserve (DG gs) ref (im_messageId m) s) = (b, s1)" by fastforce
  then have s1: "tracker bd s1 = tracker bd s"
    using bkept_tracker [OF bkept_concurrency(1), of gs ref "im_messageId m" s] by (cases "d_groups (DG gs) = []") auto
  show ?case
    unfolding push_claimed.simps r
    using Cons s1 by (simp add: Let_def case_prod_beta worker_push_def bkept_tracker [OF bkept_release])
qed simp

lemma tracker_claimAndPush:
  "tracker bd (fqs_redis (snd (claimAndPushToWorkerQueue (DG gs) now loopId q t i st))) = tracker bd (fqs_redis st)"
  by (simp add: claimAndPushToWorkerQueue_def Let_def case_prod_beta tracker_push bkept_tracker [OF bkept_claim]
      bkept_tracker [OF bkept_update])

lemma select_kept: "selectQueues (batchScheduler bd s0) now k loopId (s, c) = (out, s', c') \<Longrightarrow> bkept s' = bkept s"
  using bkept_drr(1) [of "[env_group bd s0]" "b_drr bd" now k s]
  by (auto simp: batchScheduler_def drr_defs batchFairQueue_def split: prod.splits)

lemma record_kept: "bkept (fst (recordProcessedBatch (batchScheduler bd s0) t q n (s, c))) = bkept s"
  by (simp add: batchScheduler_def drr_defs bkept_drr(2))

lemma tracker_pass:
  fixes st :: "('s, 'c) fq_state"
  shows "tracker bd (fqs_redis (snd (fq_processMasterQueueShard (batchFairQueue bd s0) (batchScheduler bd s0) now loopId i st)))
     = tracker bd (fqs_redis st)"
proof (rule shard_pass_keeps [where P = "\<lambda>s. tracker bd s = tracker bd (fqs_redis st)"])
  show "tracker bd (fqs_redis (snd (claimAndPushToWorkerQueue (batchFairQueue bd s0) now loopId q t i st1))) = tracker bd (fqs_redis st)"
    if "tracker bd (fqs_redis st1) = tracker bd (fqs_redis st)" for q t and st1 :: "('s, 'c) fq_state"
    using that by (simp add: batchFairQueue_def tracker_claimAndPush)
  show "tracker bd (fst (recordProcessedBatch (batchScheduler bd s0) t q n (s, c))) = tracker bd (fqs_redis st)"
    if "tracker bd s = tracker bd (fqs_redis st)" for t q n s and c :: 'c
    using that by (simp add: bkept_tracker [OF record_kept])
  show "tracker bd s = tracker bd (fqs_redis st)"
    if "selectQueues (batchScheduler bd s0) now (kMaster (batchFairQueue bd s0) i) loopId (fqs_redis st, fqs_sched st) = (out, s, c)" for out s c
    using bkept_tracker [OF select_kept [OF that]] .
qed

subsection \<open>The tracker keeps the fair queue\<close>

definition fkept :: "'s \<Rightarrow> fstore \<times> (string \<Rightarrow> string list)" where
  "fkept s = (fabs D s, \<lambda>w. v_list (rview (b_srv bd) s) (kWorker D w))"

lemma fkept_commands [simp]:
  "fkept (rSET (b_srv bd) k v s) = fkept s" "fkept (rSETEX (b_srv bd) k v n s) = fkept s" "fkept (sADD (b_srv bd) k m s) = fkept s"
  by (simp_all add: fkept_def fabs_defs rSET_view rSETEX_view sADD_view)

lemma fkept_incr [simp]: "fkept (snd (rINCR (b_srv bd) k s)) = fkept s"
proof -
  have "fkept s' = fkept s" if "rview (b_srv bd) s' = rview (b_srv bd) s" for s s' using that by (simp add: fkept_def fabs_defs)
  then show ?thesis using rINCR_key [of k s] fkept_commands(1) [of k _ s] by metis
qed

lemma fkept_writes:
  assumes "batch_id_ok B"
  shows "fkept (zADD (b_srv bd) (bk bd (runsKey B)) sc m s) = fkept s" and "fkept (lRPUSH (b_srv bd) (bk bd (failuresKey B)) v s) = fkept s"
    and "fkept (rDEL (b_srv bd) (bk bd (trackerKey x B)) s) = fkept s"
  using tracker_fair_apart [OF assms, of bd] tracker_fair_apart [OF assms, of bd, THEN not_sym]
  by (simp_all add: fkept_def fabs_defs zADD_view lRPUSH_view rDEL_view tracker_key_defs fun_eq_iff)

lemma fkept_count:
  "fkept (snd (count_result (answer_count (b_srv bd) k s))) = fkept s"
  "fkept (snd (count_result (count_and_answer (b_srv bd) k s))) = fkept s"
proof -
  show "fkept (snd (count_result (answer_count (b_srv bd) k s))) = fkept s" by (simp add: count_result_def answer_count_def)
  obtain r s' where r: "rINCR (b_srv bd) k s = (r, s')" by fastforce
  then have "fkept s' = fkept s" using fkept_incr [of k s] by simp
  then show "fkept (snd (count_result (count_and_answer (b_srv bd) k s))) = fkept s"
    by (cases r) (simp_all add: r count_result_def count_and_answer_def answer_count_def)
qed

lemma fkept_record:
  assumes "batch_id_ok B"
  shows "fkept (snd (recordSuccess bd B runId i s)) = fkept s" and "fkept (snd (recordFailure bd now B f s)) = fkept s"
  by (simp_all add: recordSuccess_def recordSuccessIdempotent_def recordFailure_def recordFailureIdempotent_def Let_def fkept_count
      fkept_writes [OF assms])

lemma fkept_tracker:
  "fkept (storeMeta bd B meta s) = fkept s" "fkept (snd (markItemEnqueued bd B i s)) = fkept s" "fkept (initializeBatch bd now opts s) = fkept s"
  by (simp_all add: storeMeta_def markItemEnqueued_def initializeBatch_def storeEnvConcurrency_def Let_def split: option.split)

lemma fkept_cleanup: "batch_id_ok B \<Longrightarrow> fkept (cleanup bd B s) = fkept s"
  by (simp add: cleanup_def tracker_key_defs fkept_writes(3))

lemma fkept_outcome:
  assumes "batch_id_ok (ip_batchId p)"
  shows "fkept (snd (recordOutcome bd now p outcome s)) = fkept s"
proof -
  note r = fkept_record [OF assms]
  have un: "fkept (snd (recordUnexpected bd now p err s)) = fkept s" for err s
    by (simp add: recordUnexpected_def r split: sum.split)
  show ?thesis
  proof (cases outcome)
    case (ItemSuccess runId)
    then show ?thesis
      using r(1) [of runId "Some (ip_itemIndex p)" s] by (auto simp: recordOutcome_def un split: prod.split sum.split)
  next
    case (ItemFailure err code)
    show ?thesis
    proof (cases "serializePayload (b_tracer bd) (bi_payload (ip_item p))")
      case (Inr str)
      then show ?thesis
        using ItemFailure r(2) [of now "failure_of p str err code" s] by (auto simp: recordOutcome_def un split: prod.split sum.split)
    qed (simp add: ItemFailure recordOutcome_def un)
  qed (simp add: recordOutcome_def un)
qed

subsection \<open>Keys in the worker queue\<close>

text \<open>Every entry of a worker queue names a message and the queue of that message.\<close>

definition worker_keys_ok :: "(string \<Rightarrow> string) \<Rightarrow> 's \<Rightarrow> bool" where
  "worker_keys_ok home s \<longleftrightarrow>
     (\<forall>w. \<forall>x \<in> set (v_list (rview (b_srv bd) s) (kWorker D w)). \<exists>m. good_id m \<and> x = makeMember m (home m))"

lemma worker_keys_same:
  "v_list (rview (b_srv bd) s') = v_list (rview (b_srv bd) s) \<Longrightarrow> worker_keys_ok home s' = worker_keys_ok home s"
  by (simp add: worker_keys_ok_def)

lemma worker_keys_fkept: "fkept s' = fkept s \<Longrightarrow> worker_keys_ok home s' = worker_keys_ok home s"
  by (simp add: worker_keys_ok_def fkept_def fun_eq_iff)

lemma worker_keys_push:
  assumes "worker_keys_ok home s" and "good_id m"
  shows "worker_keys_ok home (worker_push (DG gs) w (makeMember m (home m)) s)"
  using assms by (auto simp: worker_keys_ok_def worker_push_def lRPUSH_view)

lemma worker_keys_pop:
  assumes "worker_keys_ok home s"
  shows "worker_keys_ok home (snd (worker_blockingPop (DG gs) w s))"
proof -
  have "set (tl ys) \<subseteq> set ys" for ys :: "string list" by (cases ys) auto
  then show ?thesis using assms by (simp add: worker_keys_ok_def worker_blockingPop_def lLPOP_view) blast
qed

lemma worker_keys_push_claimed:
  assumes "worker_keys_ok home s" and "\<forall>m \<in> set ms. good_id (im_messageId m) \<and> home (im_messageId m) = q"
  shows "worker_keys_ok home (snd (push_claimed (DG gs) now ref q (kMaster D i) ms s))"
  using assms
proof (induction ms arbitrary: s)
  case (Cons m ms)
  obtain b s1 where r: "(if d_groups (DG gs) = [] then (True, s) else reserve (DG gs) ref (im_messageId m) s) = (b, s1)" by fastforce
  have "v_list (rview (b_srv bd) s1) = v_list (rview (b_srv bd) s)"
    using r bkept_lists [OF bkept_concurrency(1), of gs ref "im_messageId m" s] by (cases "d_groups (DG gs) = []") auto
  then have s1: "worker_keys_ok home s1" using Cons.prems(1) worker_keys_same by blast
  show ?case
  proof (cases b)
    case False
    then show ?thesis
      unfolding push_claimed.simps r using s1 by (simp add: worker_keys_same [OF bkept_lists [OF bkept_release]])
  next
    case True
    have "worker_keys_ok home (worker_push (DG gs) (d_workerQueueResolver (DG gs) (im_payload m)) (makeMember (im_messageId m) q) s1)"
      using worker_keys_push [OF s1, of "im_messageId m"] Cons.prems(2) by simp
    then show ?thesis
      unfolding push_claimed.simps r using True Cons by (simp add: Let_def case_prod_beta)
  qed
qed simp

lemma worker_keys_claimAndPush:
  fixes st :: "('s, 'c) fq_state"
  assumes "worker_keys_ok home (fqs_redis st)" and "fq_inv D home (fabs D (fqs_redis st))"
  shows "worker_keys_ok home (fqs_redis (snd (claimAndPushToWorkerQueue (batchFairQueue bd s0) now loopId q t i st)))"
proof -
  let ?d = "batchFairQueue bd s0"
  let ?ref = "with_default (fqs_descriptors st q) \<lparr>qd_id = q, qd_tenantId = t, qd_metadata = []\<rparr>"
  let ?cap = "getAvailableCapacity ?d ?ref (fqs_redis st)"
  let ?n = "if d_groups ?d = [] then d_batchClaimSize ?d else min (d_batchClaimSize ?d) ?cap"
  obtain ms s1 where c: "claimBatch ?d now q loopId ?n (Some (d_visibilityTimeoutMs ?d)) (fqs_redis st) = (ms, s1)" by fastforce
  have inv: "fq_inv ?d home (fabs ?d (fqs_redis st))" using assms(2) by (simp add: batchFairQueue_def)
  note l = fair_queue_home.claimBatch_moves [OF fair_home_batch inv c]
  have ms: "\<forall>m \<in> set ms. good_id (im_messageId m) \<and> home (im_messageId m) = q"
  proof
    fix m
    assume "m \<in> set ms"
    then have "im_messageId m \<in> set (map im_messageId ms)" by simp
    then have "aI (fabs ?d (fqs_redis st)) q (im_messageId m) \<noteq> None"
      using l(2) fair_queue_home.claimable_queued(2) [OF fair_home_batch inv] by metis
    then show "good_id (im_messageId m) \<and> home (im_messageId m) = q" using queued_facts(1,2) [OF fq_invD(1) [OF inv]] by blast
  qed
  have "v_list (rview (b_srv bd) s1) = v_list (rview (b_srv bd) (fqs_redis st))"
    using bkept_lists [OF bkept_claim, of "[env_group bd s0]" now q loopId ?n "Some (d_visibilityTimeoutMs ?d)" "fqs_redis st"] c
    by (simp add: batchFairQueue_def)
  then have s1: "worker_keys_ok home s1" using assms(1) worker_keys_same by blast
  have "worker_keys_ok home (snd (push_claimed ?d now ?ref q (kMaster ?d i) ms s1))"
    using worker_keys_push_claimed [OF s1 ms] by (simp add: batchFairQueue_def)
  moreover have "worker_keys_ok home (fqs_redis (update_and_forget ?d (kMaster ?d i) q (st\<lparr>fqs_redis := s1\<rparr>)))"
    using s1 by (simp add: batchFairQueue_def worker_keys_same [OF bkept_lists [OF bkept_update]])
  ultimately show ?thesis
    using assms(1) unfolding claimAndPushToWorkerQueue_def Let_def c by (simp add: case_prod_beta)
qed

end

end
