(* ===== verification/Batch_System.thy ===== *)
theory Batch_System
  imports Batch_Frame
begin

text \<open>
  The batch queue with several consumers, interleaved at the calls they make to the keyspace: producers
  initialise batches and enqueue items, the fair queue passes and reclaims, and each consumer is somewhere
  between two calls of the handler. A call is one step; \<open>enqueueBatchItem\<close> is one step of its producer.

  \<open>home\<close> and \<open>item\<close> give the queue and the item of a message id: ids are generated, so an id is used for one
  message. Three components of the state are history: the batches initialised so far, the messages that a
  consumer discarded while they were in flight, and the batches whose completion callback threw.
\<close>

datatype consumer_phase =
    Idle
  | Popped string string
  | Missing string string
  | Loaded string string batch_item_payload
  | Orphan string string
  | Ready string string batch_item_payload batch_meta
  | Recorded string string batch_item_payload batch_meta "int option"
  | Finalizing string
  | Reporting string complete_batch_result

text \<open>One call of a consumer: what \<open>#runWorkerQueueConsumerLoop\<close> and \<open>#handleMessage\<close> do from one call to the
  next, with what the callbacks answer. An exception ends the handler.\<close>

fun consumer_move ::
    "'s batch_deps \<Rightarrow> time \<Rightarrow> item_outcome \<Rightarrow> completion_callback option \<Rightarrow> consumer_phase \<Rightarrow> ('s, 'c) fq_state \<Rightarrow>
     consumer_phase \<times> ('s, 'c) fq_state" where
  "consumer_move bd now outcome onComplete Idle f =
     (let (popped, s) = worker_blockingPop (batchFairQueue bd (fqs_redis f)) BATCH_WORKER_QUEUE_ID (fqs_redis f)
      in (case popped of
            None \<Rightarrow> Idle
          | Some messageKey \<Rightarrow> (case parseMessageKey messageKey of None \<Rightarrow> Idle | Some (m, q) \<Rightarrow> Popped m q),
          f\<lparr>fqs_redis := s\<rparr>))"
| "consumer_move bd now outcome onComplete (Popped m q) f =
     (case getMessageData (batchFairQueue bd (fqs_redis f)) m q (fqs_redis f) of
        None \<Rightarrow> Missing m q
      | Some storedMessage \<Rightarrow> (case b_getItem bd (sm_payload storedMessage) of None \<Rightarrow> Idle | Some p \<Rightarrow> Loaded m q p), f)"
| "consumer_move bd now outcome onComplete (Missing m q) f = (Idle, complete_item bd m q f)"
| "consumer_move bd now outcome onComplete (Loaded m q p) f =
     (case getMeta bd (ip_batchId p) (fqs_redis f) of
        Inl e \<Rightarrow> Idle
      | Inr None \<Rightarrow> Orphan m q
      | Inr (Some meta) \<Rightarrow> Ready m q p meta, f)"
| "consumer_move bd now outcome onComplete (Orphan m q) f = (Idle, complete_item bd m q f)"
| "consumer_move bd now outcome onComplete (Ready m q p meta) f =
     (let (r, s) = recordOutcome bd now p outcome (fqs_redis f)
      in (case r of Inl e \<Rightarrow> Idle | Inr n \<Rightarrow> Recorded m q p meta n, f\<lparr>fqs_redis := s\<rparr>))"
| "consumer_move bd now outcome onComplete (Recorded m q p meta n) f =
     (if n = Some (bm_runCount meta) then Finalizing (ip_batchId p) else Idle, complete_item bd m q f)"
| "consumer_move bd now outcome onComplete (Finalizing B) f =
     (case getCompletionResult bd B (fqs_redis f) of Inl e \<Rightarrow> Idle | Inr result \<Rightarrow> Reporting B result, f)"
| "consumer_move bd now outcome onComplete (Reporting B result) f =
     (Idle, f\<lparr>fqs_redis := snd (report bd onComplete B result (fqs_redis f))\<rparr>)"

text \<open>A handler that is not interrupted is \<open>handleMessage\<close>: six calls at most bring the consumer from the popped
  key back to the loop.\<close>

definition uninterrupted :: "'s batch_deps \<Rightarrow> time \<Rightarrow> item_outcome \<Rightarrow> completion_callback option \<Rightarrow>
     consumer_phase \<times> ('s, 'c) fq_state \<Rightarrow> consumer_phase \<times> ('s, 'c) fq_state" where
  "uninterrupted bd now outcome onComplete x =
     (case x of (ph, f) \<Rightarrow> if ph = Idle then (Idle, f) else consumer_move bd now outcome onComplete ph f)"

lemma uninterrupted_idle [simp]: "(uninterrupted bd now outcome onComplete ^^ n) (Idle, f) = (Idle, f)"
  by (induction n) (simp_all add: uninterrupted_def)

lemma uninterrupted_move:
  "ph \<noteq> Idle \<Longrightarrow> (uninterrupted bd now outcome onComplete ^^ Suc n) (ph, f)
     = (uninterrupted bd now outcome onComplete ^^ n) (consumer_move bd now outcome onComplete ph f)"
  by (simp only: funpow_Suc_right comp_def) (simp add: uninterrupted_def)

text \<open>The calls from each phase on.\<close>

lemma run_finalizing:
  "(uninterrupted bd now outcome onComplete ^^ Suc (Suc n)) (Finalizing B, f)
     = (Idle, f\<lparr>fqs_redis := snd (finalizeBatch bd onComplete B (fqs_redis f))\<rparr>)"
  by (cases "getCompletionResult bd B (fqs_redis f)")
    (simp_all add: uninterrupted_move finalizeBatch_def del: funpow.simps(2))

lemma run_recorded:
  "(uninterrupted bd now outcome onComplete ^^ Suc (Suc (Suc n))) (Recorded m q p meta k, f)
     = (Idle, let f = complete_item bd m q f in if k = Some (bm_runCount meta)
         then f\<lparr>fqs_redis := snd (finalizeBatch bd onComplete (ip_batchId p) (fqs_redis f))\<rparr> else f)"
  by (subst uninterrupted_move) (simp_all add: run_finalizing Let_def del: funpow.simps(2))

lemma run_ready:
  "(uninterrupted bd now outcome onComplete ^^ Suc (Suc (Suc (Suc n)))) (Ready m q p meta, f)
     = (Idle, case recordOutcome bd now p outcome (fqs_redis f) of
         (Inl e, s) \<Rightarrow> f\<lparr>fqs_redis := s\<rparr>
       | (Inr k, s) \<Rightarrow> (let f = complete_item bd m q (f\<lparr>fqs_redis := s\<rparr>) in if k = Some (bm_runCount meta)
           then f\<lparr>fqs_redis := snd (finalizeBatch bd onComplete (ip_batchId p) (fqs_redis f))\<rparr> else f))"
  by (subst uninterrupted_move)
    (simp_all add: run_recorded case_prod_beta split: sum.split del: funpow.simps(2))

lemma run_discard: "(uninterrupted bd now outcome onComplete ^^ Suc n) (Missing m q, f) = (Idle, complete_item bd m q f)"
  "(uninterrupted bd now outcome onComplete ^^ Suc n) (Orphan m q, f) = (Idle, complete_item bd m q f)"
  by (subst uninterrupted_move; simp)+

lemma run_loaded:
  "(uninterrupted bd now outcome onComplete ^^ Suc (Suc (Suc (Suc (Suc n))))) (Loaded m q p, f)
     = (Idle, case getMeta bd (ip_batchId p) (fqs_redis f) of
         Inl e \<Rightarrow> f
       | Inr None \<Rightarrow> complete_item bd m q f
       | Inr (Some meta) \<Rightarrow> (case recordOutcome bd now p outcome (fqs_redis f) of
           (Inl e, s) \<Rightarrow> f\<lparr>fqs_redis := s\<rparr>
         | (Inr k, s) \<Rightarrow> (let f = complete_item bd m q (f\<lparr>fqs_redis := s\<rparr>) in if k = Some (bm_runCount meta)
             then f\<lparr>fqs_redis := snd (finalizeBatch bd onComplete (ip_batchId p) (fqs_redis f))\<rparr> else f)))"
  by (subst uninterrupted_move) (simp_all add: run_ready run_discard split: sum.split option.split del: funpow.simps(2))

lemma handleMessage_is_run:
  "(uninterrupted bd now outcome onComplete ^^ 6) (Popped m q, f)
     = (Idle, snd (handleMessage bd now (Some (\<lambda>_ _. outcome)) onComplete m q f))"
proof -
  have six: "(6::nat) = Suc (Suc (Suc (Suc (Suc (Suc 0)))))" by simp
  show ?thesis
    unfolding six
    by (subst uninterrupted_move)
      (simp_all add: handleMessage_def run_loaded run_discard case_prod_beta Let_def split: sum.split option.split del: funpow.simps(2))
qed

end
