(* ===== verification/Batch_Invariant.thy ===== *)
theory Batch_Invariant
  imports Batch_System
begin

text \<open>
  The invariant of the batch queue over the abstract tracker, the texts of the messages and the phases of the
  consumers, and that each kind of change keeps it: a batch is initialised, an item is enqueued, a consumer
  moves on, an outcome is recorded, a message is completed, a batch is cleaned up.
\<close>

type_synonym trackers = "string \<Rightarrow> tracked"

definition live :: "trackers \<Rightarrow> string \<Rightarrow> bool" where
  "live T B \<longleftrightarrow> t_meta (T B) \<noteq> None"

record history =
  h_started :: "string set"
  h_dropped :: "string set"
  h_failed :: "string set"

text \<open>The item of a message was enqueued: its batch was initialised, and as long as the batch is there it lists the
  item.\<close>

definition known :: "(string \<Rightarrow> string \<times> int) \<Rightarrow> string set \<Rightarrow> trackers \<Rightarrow> string \<Rightarrow> bool" where
  "known item started T m \<longleftrightarrow> fst (item m) \<in> started \<and> batch_id_ok (fst (item m))
     \<and> (live T (fst (item m)) \<longrightarrow> int_to_string (snd (item m)) \<in> t_enq (T (fst (item m))))"

definition carries :: "(string \<Rightarrow> string \<times> int) \<Rightarrow> string \<Rightarrow> batch_item_payload \<Rightarrow> bool" where
  "carries item m p \<longleftrightarrow> item m = (ip_batchId p, ip_itemIndex p)"

definition text_ok :: "'s batch_deps \<Rightarrow> (string \<Rightarrow> string \<times> int) \<Rightarrow> string \<Rightarrow> string \<Rightarrow> bool" where
  "text_ok bd item m text \<longleftrightarrow> (\<exists>x p. b_parse bd text = Some x \<and> b_getItem bd (sm_payload x) = Some p \<and> carries item m p)"

text \<open>What a consumer knows in each phase.\<close>

definition meta_read :: "'s batch_deps \<Rightarrow> trackers \<Rightarrow> string \<Rightarrow> batch_meta \<Rightarrow> bool" where
  "meta_read bd T B meta \<longleftrightarrow> (live T B \<longrightarrow> t_meta (T B) = Some (b_putMeta bd meta))"

definition enough :: "'s batch_deps \<Rightarrow> trackers \<Rightarrow> string \<Rightarrow> bool" where
  "enough bd T B \<longleftrightarrow> (\<exists>meta. t_meta (T B) = Some (b_putMeta bd meta) \<and> bm_runCount meta \<le> int (card (t_done (T B))))"

fun phase_ok :: "'s batch_deps \<Rightarrow> (string \<Rightarrow> string) \<Rightarrow> (string \<Rightarrow> string \<times> int) \<Rightarrow> string set \<Rightarrow> trackers \<Rightarrow> consumer_phase \<Rightarrow> bool" where
  "phase_ok bd home item started T Idle = True"
| "phase_ok bd home item started T (Popped m q) = (good_id m \<and> q = home m)"
| "phase_ok bd home item started T (Missing m q) = (good_id m \<and> q = home m)"
| "phase_ok bd home item started T (Loaded m q p) = (good_id m \<and> q = home m \<and> carries item m p \<and> known item started T m)"
| "phase_ok bd home item started T (Orphan m q) = (good_id m \<and> q = home m \<and> known item started T m \<and> \<not> live T (fst (item m)))"
| "phase_ok bd home item started T (Ready m q p meta) =
     (good_id m \<and> q = home m \<and> carries item m p \<and> known item started T m \<and> meta_read bd T (ip_batchId p) meta)"
| "phase_ok bd home item started T (Recorded m q p meta n) =
     (good_id m \<and> q = home m \<and> carries item m p \<and> known item started T m \<and> meta_read bd T (ip_batchId p) meta
      \<and> (live T (ip_batchId p) \<longrightarrow> int_to_string (ip_itemIndex p) \<in> t_done (T (ip_batchId p))
          \<and> (\<exists>k. n = Some k \<and> k \<le> int (card (t_done (T (ip_batchId p)))))))"
| "phase_ok bd home item started T (Finalizing B) = (batch_id_ok B \<and> B \<in> started \<and> (live T B \<longrightarrow> enough bd T B))"
| "phase_ok bd home item started T (Reporting B r) = (batch_id_ok B \<and> B \<in> started \<and> (live T B \<longrightarrow> enough bd T B))"

text \<open>A consumer that is about to finalise a batch.\<close>

fun closing :: "consumer_phase \<Rightarrow> string \<Rightarrow> bool" where
  "closing (Recorded m q p meta n) B = (ip_batchId p = B \<and> n = Some (bm_runCount meta))"
| "closing (Finalizing B') B = (B' = B)"
| "closing (Reporting B' r) B = (B' = B)"
| "closing _ B = False"

definition batch_ok :: "'s batch_deps \<Rightarrow> tracked \<Rightarrow> bool" where
  "batch_ok bd t \<longleftrightarrow> counted t \<and> card (dom (t_runs t)) + length (t_failures t) \<le> card (t_done t)
     \<and> (\<exists>fs. t_failures t = map (b_putFailure bd) fs)
     \<and> (t_meta t \<noteq> None \<longrightarrow> t_done t \<subseteq> t_enq t \<and> (\<exists>meta. t_meta t = Some (b_putMeta bd meta)))"

definition items_kept :: "(string \<Rightarrow> string \<times> int) \<Rightarrow> trackers \<Rightarrow> (string \<Rightarrow> string option) \<Rightarrow> string set \<Rightarrow> bool" where
  "items_kept item T data dropped \<longleftrightarrow>
     (\<forall>B i. live T B \<longrightarrow> int_to_string i \<in> t_enq (T B) \<longrightarrow> int_to_string i \<notin> t_done (T B) \<longrightarrow>
        (\<exists>m. item m = (B, i) \<and> (data m \<noteq> None \<or> m \<in> dropped)))"

definition one_message :: "(string \<Rightarrow> string \<times> int) \<Rightarrow> trackers \<Rightarrow> (string \<Rightarrow> string option) \<Rightarrow> bool" where
  "one_message item T data \<longleftrightarrow>
     (\<forall>m m'. live T (fst (item m)) \<longrightarrow> item m = item m' \<longrightarrow> data m \<noteq> None \<longrightarrow> data m' \<noteq> None \<longrightarrow> m = m')"

definition finalised :: "'s batch_deps \<Rightarrow> trackers \<Rightarrow> string set \<Rightarrow> (nat \<Rightarrow> consumer_phase) \<Rightarrow> bool" where
  "finalised bd T failed ph \<longleftrightarrow>
     (\<forall>B meta. t_meta (T B) = Some (b_putMeta bd meta) \<longrightarrow> 0 < bm_runCount meta \<longrightarrow> bm_runCount meta \<le> int (card (t_done (T B))) \<longrightarrow>
        B \<in> failed \<or> (\<exists>c. closing (ph c) B))"

definition binv :: "'s batch_deps \<Rightarrow> (string \<Rightarrow> string) \<Rightarrow> (string \<Rightarrow> string \<times> int) \<Rightarrow> trackers \<Rightarrow> (string \<Rightarrow> string option) \<Rightarrow>
     history \<Rightarrow> (nat \<Rightarrow> consumer_phase) \<Rightarrow> bool" where
  "binv bd home item T data h ph \<longleftrightarrow>
     (\<forall>m text. data m = Some text \<longrightarrow> text_ok bd item m text \<and> known item (h_started h) T m)
     \<and> (\<forall>c. phase_ok bd home item (h_started h) T (ph c))
     \<and> (\<forall>B. batch_ok bd (T B) \<and> (B \<notin> h_started h \<longrightarrow> T B = untracked))
     \<and> items_kept item T data (h_dropped h) \<and> one_message item T data \<and> finalised bd T (h_failed h) ph"

lemma binvI:
  assumes "\<And>m text. data m = Some text \<Longrightarrow> text_ok bd item m text \<and> known item (h_started h) T m"
    and "\<And>c. phase_ok bd home item (h_started h) T (ph c)"
    and "\<And>B. batch_ok bd (T B)" and "\<And>B. B \<notin> h_started h \<Longrightarrow> T B = untracked"
    and "items_kept item T data (h_dropped h)" and "one_message item T data" and "finalised bd T (h_failed h) ph"
  shows "binv bd home item T data h ph"
  using assms by (simp add: binv_def)

lemma binvD:
  assumes "binv bd home item T data h ph"
  shows "data m = Some text \<Longrightarrow> text_ok bd item m text" and "data m = Some text \<Longrightarrow> known item (h_started h) T m"
    and "phase_ok bd home item (h_started h) T (ph c)" and "batch_ok bd (T B)" and "B \<notin> h_started h \<Longrightarrow> T B = untracked"
    and "items_kept item T data (h_dropped h)" and "one_message item T data" and "finalised bd T (h_failed h) ph"
  using assms by (simp_all add: binv_def)

subsection \<open>The start\<close>

lemma untracked_ok: "batch_ok bd untracked"
  by (simp add: batch_ok_def counted_def untracked_def)

lemma untracked_not_live [simp]: "T B = untracked \<Longrightarrow> \<not> live T B"
  by (simp add: live_def untracked_def)

lemma binv_start: "binv bd home item (\<lambda>_. untracked) (\<lambda>_. None) \<lparr>h_started = {}, h_dropped = {}, h_failed = {}\<rparr> (\<lambda>_. Idle)"
  by (simp add: binv_def untracked_ok items_kept_def one_message_def finalised_def) (simp add: untracked_def)

subsection \<open>A consumer moves on\<close>

lemma binv_phase:
  assumes "binv bd home item T data h ph" and "phase_ok bd home item (h_started h) T x"
    and "\<And>B. closing (ph c) B \<Longrightarrow> closing x B \<or> B \<in> h_failed h \<or> \<not> live T B"
  shows "binv bd home item T data h (ph(c := x))"
proof (rule binvI)
  show "finalised bd T (h_failed h) (ph(c := x))"
    unfolding finalised_def
  proof (intro allI impI)
    fix B meta
    assume a: "t_meta (T B) = Some (b_putMeta bd meta)" "0 < bm_runCount meta" "bm_runCount meta \<le> int (card (t_done (T B)))"
    then have l: "live T B" by (simp add: live_def)
    from a consider "B \<in> h_failed h" | c' where "closing (ph c') B" using binvD(8) [OF assms(1)] unfolding finalised_def by blast
    then show "B \<in> h_failed h \<or> (\<exists>c'. closing ((ph(c := x)) c') B)"
    proof cases
      case 2
      then show ?thesis using assms(3) l by (cases "c' = c") auto
    qed simp
  qed
qed (use assms(2) binvD [OF assms(1)] in auto)

lemma binv_history:
  assumes "binv bd home item T data h ph" and "h_dropped h \<subseteq> dropped" and "h_failed h \<subseteq> failed"
  shows "binv bd home item T data (h\<lparr>h_dropped := dropped, h_failed := failed\<rparr>) ph"
proof (rule binvI)
  show "items_kept item T data (h_dropped (h\<lparr>h_dropped := dropped, h_failed := failed\<rparr>))"
    using binvD(6) [OF assms(1)] assms(2) unfolding items_kept_def by (simp, blast)
  show "finalised bd T (h_failed (h\<lparr>h_dropped := dropped, h_failed := failed\<rparr>)) ph"
    using binvD(8) [OF assms(1)] assms(3) unfolding finalised_def by (simp, blast)
qed (use binvD [OF assms(1)] in auto)

subsection \<open>The tracker changes\<close>

text \<open>The batches of \<open>S\<close> stay or go, and those that stay only grow.\<close>

definition grows :: "string set \<Rightarrow> trackers \<Rightarrow> trackers \<Rightarrow> bool" where
  "grows S T T' \<longleftrightarrow> (\<forall>B \<in> S. live T' B \<longrightarrow> live T B \<and> t_meta (T' B) = t_meta (T B) \<and> t_enq (T B) \<subseteq> t_enq (T' B)
     \<and> t_done (T B) \<subseteq> t_done (T' B) \<and> finite (t_done (T' B)))"

lemma growsD:
  assumes "grows S T T'" and "B \<in> S" and "live T' B"
  shows "live T B" and "t_meta (T' B) = t_meta (T B)" and "t_enq (T B) \<subseteq> t_enq (T' B)" and "t_done (T B) \<subseteq> t_done (T' B)"
    and "card (t_done (T B)) \<le> card (t_done (T' B))"
  using assms unfolding grows_def by (auto intro: card_mono)

lemma known_grows: "known item S T m \<Longrightarrow> grows S T T' \<Longrightarrow> S \<subseteq> S' \<Longrightarrow> known item S' T' m"
  unfolding known_def using growsD(1,3) by blast

lemma meta_grows: "meta_read bd T B meta \<Longrightarrow> grows S T T' \<Longrightarrow> B \<in> S \<Longrightarrow> meta_read bd T' B meta"
  unfolding meta_read_def using growsD(1,2) by metis

lemma enough_grows:
  assumes "live T B \<longrightarrow> enough bd T B" and "grows S T T'" and "B \<in> S"
  shows "live T' B \<longrightarrow> enough bd T' B"
proof
  assume l: "live T' B"
  note g = growsD [OF assms(2,3) l]
  show "enough bd T' B" using assms(1) g(1,2,5) unfolding enough_def by fastforce
qed

lemma phase_grows:
  assumes "phase_ok bd home item S T x" and "grows S T T'" and "S \<subseteq> S'"
  shows "phase_ok bd home item S' T' x"
proof (cases x)
  case (Loaded m q p)
  then show ?thesis using assms known_grows by simp blast
next
  case (Orphan m q)
  then show ?thesis using assms known_grows [of item S T m T' S'] growsD(1) [OF assms(2), of "fst (item m)"] by (auto simp: known_def)
next
  case (Ready m q p meta)
  then have "ip_batchId p \<in> S" using assms(1) by (auto simp: carries_def known_def)
  then show ?thesis using Ready assms known_grows [of item S T m T' S'] meta_grows [of bd T "ip_batchId p" meta] by simp
next
  case (Recorded m q p meta n)
  then have B: "ip_batchId p \<in> S" using assms(1) by (auto simp: carries_def known_def)
  have "int_to_string (ip_itemIndex p) \<in> t_done (T' (ip_batchId p)) \<and> (\<exists>k. n = Some k \<and> k \<le> int (card (t_done (T' (ip_batchId p)))))"
    if "live T' (ip_batchId p)"
    using growsD(1,4,5) [OF assms(2) B that] assms(1) Recorded by fastforce
  then show ?thesis using Recorded assms known_grows [of item S T m T' S'] meta_grows [OF _ assms(2) B, of bd meta] by simp
next
  case (Finalizing B)
  then show ?thesis using assms enough_grows [of T B bd] by auto
next
  case (Reporting B r)
  then show ?thesis using assms enough_grows [of T B bd] by auto
qed (use assms(1) in simp_all)

lemma started_id: "binv bd home item T data h ph \<Longrightarrow> B \<notin> h_started h \<Longrightarrow> \<not> live T B"
  using binvD(5) untracked_not_live by blast

lemma binv_init:
  assumes "binv bd home item T data h ph" and "B \<notin> h_started h"
  shows "binv bd home item (T(B := untracked\<lparr>t_meta := Some (b_putMeta bd meta)\<rparr>)) data (h\<lparr>h_started := insert B (h_started h)\<rparr>) ph"
    (is "binv bd home item ?T data ?h ph")
proof (rule binvI)
  have g: "grows (h_started h) T ?T" unfolding grows_def
  proof (intro ballI impI)
    fix B' assume "B' \<in> h_started h" "live ?T B'"
    then show "live T B' \<and> t_meta (?T B') = t_meta (T B') \<and> t_enq (T B') \<subseteq> t_enq (?T B') \<and> t_done (T B') \<subseteq> t_done (?T B') \<and> finite (t_done (?T B'))"
      using assms(2) binvD(4) [OF assms(1), of B'] by (cases "B' = B") (auto simp: live_def batch_ok_def counted_def)
  qed
  show "text_ok bd item m x \<and> known item (h_started ?h) ?T m" if "data m = Some x" for m x
    using binvD(1,2) [OF assms(1) that] known_grows [OF _ g, of item m "h_started ?h"] by auto
  show "phase_ok bd home item (h_started ?h) ?T (ph c)" for c
    by (rule phase_grows [OF binvD(3) [OF assms(1)] g]) auto
  show "batch_ok bd (?T B')" for B'
    using binvD(4) [OF assms(1), of B'] by (auto simp: batch_ok_def counted_def untracked_def)
  show "?T B' = untracked" if "B' \<notin> h_started ?h" for B' using that binvD(5) [OF assms(1), of B'] by auto
  show "items_kept item ?T data (h_dropped ?h)"
    using binvD(6) [OF assms(1)] unfolding items_kept_def by (auto simp: live_def untracked_def)
  have "fst (item m) \<noteq> B" if "data m \<noteq> None" for m
    using that binvD(2) [OF assms(1), of m] assms(2) by (auto simp: known_def)
  then show "one_message item ?T data"
    using binvD(7) [OF assms(1)] unfolding one_message_def live_def by (metis fun_upd_other)
  show "finalised bd ?T (h_failed ?h) ph"
    using binvD(8) [OF assms(1)] unfolding finalised_def by (auto simp: untracked_def)
qed

lemma binv_enqueue:
  assumes "binv bd home item T data h ph" and "live T B" and "int_to_string i \<notin> t_enq (T B)" and "batch_id_ok B"
    and "item nano = (B, i)" and "text_ok bd item nano text"
  shows "binv bd home item (T(B := (T B)\<lparr>t_enq := insert (int_to_string i) (t_enq (T B))\<rparr>)) (data(nano \<mapsto> text)) h ph"
    (is "binv bd home item ?T ?data h ph")
proof (rule binvI)
  have started: "B \<in> h_started h" using started_id [OF assms(1)] assms(2) by blast
  have lv: "live ?T B' = live T B'" for B' by (simp add: live_def)
  have g: "grows (h_started h) T ?T"
    unfolding grows_def using binvD(4) [OF assms(1)] by (auto simp: lv batch_ok_def counted_def)
  show "text_ok bd item m x \<and> known item (h_started h) ?T m" if "?data m = Some x" for m x
  proof (cases "m = nano")
    case True
    then show ?thesis using that assms(4-6) started by (auto simp: known_def)
  next
    case False
    then show ?thesis using that binvD(1,2) [OF assms(1), of m x] known_grows [OF _ g] by auto
  qed
  show "phase_ok bd home item (h_started h) ?T (ph c)" for c
    using phase_grows [OF binvD(3) [OF assms(1)] g] by auto
  show "batch_ok bd (?T B')" for B'
    using binvD(4) [OF assms(1), of B'] by (auto simp: batch_ok_def counted_def)
  show "?T B' = untracked" if "B' \<notin> h_started h" for B' using that started binvD(5) [OF assms(1), of B'] by auto
  show "items_kept item ?T ?data (h_dropped h)"
    unfolding items_kept_def
  proof (intro allI impI)
    fix B' j
    assume a: "live ?T B'" "int_to_string j \<in> t_enq (?T B')" "int_to_string j \<notin> t_done (?T B')"
    show "\<exists>m. item m = (B', j) \<and> (?data m \<noteq> None \<or> m \<in> h_dropped h)"
    proof (cases "B' = B \<and> j = i")
      case True
      then show ?thesis using assms(5) by (intro exI [of _ nano]) simp
    next
      case False
      then have "int_to_string j \<in> t_enq (T B')" "int_to_string j \<notin> t_done (T B')" using a(2,3) by (auto split: if_splits)
      then obtain m where "item m = (B', j)" "data m \<noteq> None \<or> m \<in> h_dropped h"
        using binvD(6) [OF assms(1)] a(1) unfolding items_kept_def lv by blast
      then show ?thesis by (intro exI [of _ m]) auto
    qed
  qed
  have new: "m = nano" if "item m = (B, i)" "data m \<noteq> None" for m
    using that binvD(2) [OF assms(1), of m] assms(2,3) by (auto simp: known_def)
  then show "one_message item ?T ?data"
    using binvD(7) [OF assms(1)] assms(5) unfolding one_message_def lv by (metis fun_upd_other)
  have "t_meta (?T B') = t_meta (T B')" "t_done (?T B') = t_done (T B')" for B' by simp_all
  then show "finalised bd ?T (h_failed h) ph" using binvD(8) [OF assms(1)] unfolding finalised_def by metis
qed

lemma binv_cleanup:
  assumes "binv bd home item T data h ph"
  shows "binv bd home item (T(B := untracked)) data h ph" (is "binv bd home item ?T data h ph")
proof (rule binvI)
  have lv: "live ?T B' \<longleftrightarrow> B' \<noteq> B \<and> live T B'" for B' by (simp add: live_def untracked_def)
  have g: "grows (h_started h) T ?T"
    unfolding grows_def using binvD(4) [OF assms] by (auto simp: lv batch_ok_def counted_def)
  show "text_ok bd item m x \<and> known item (h_started h) ?T m" if "data m = Some x" for m x
    using binvD(1,2) [OF assms that] known_grows [OF _ g] by auto
  show "phase_ok bd home item (h_started h) ?T (ph c)" for c using phase_grows [OF binvD(3) [OF assms] g] by auto
  show "batch_ok bd (?T B')" for B' using binvD(4) [OF assms, of B'] by (simp add: untracked_ok)
  show "?T B' = untracked" if "B' \<notin> h_started h" for B' using that binvD(5) [OF assms] by simp
  show "items_kept item ?T data (h_dropped h)" using binvD(6) [OF assms] unfolding items_kept_def lv by simp
  show "one_message item ?T data" using binvD(7) [OF assms] unfolding one_message_def lv by blast
  show "finalised bd ?T (h_failed h) ph"
    using binvD(8) [OF assms] unfolding finalised_def by (auto simp: untracked_def)
qed

text \<open>A message goes only when its item is processed, its batch is gone, or it counts as dropped.\<close>

lemma binv_complete:
  assumes "binv bd home item T data h ph" and "\<And>m'. m' \<noteq> m \<Longrightarrow> data' m' = data m'" and "data' m = data m \<or> data' m = None"
    and "data m \<noteq> None \<Longrightarrow> data' m = None \<Longrightarrow> live T (fst (item m)) \<Longrightarrow>
      int_to_string (snd (item m)) \<in> t_done (T (fst (item m))) \<or> m \<in> h_dropped h"
  shows "binv bd home item T data' h ph"
proof (rule binvI)
  have sub: "data m' = Some x" if "data' m' = Some x" for m' x using that assms(2,3) by (cases "m' = m") auto
  show "text_ok bd item m' x \<and> known item (h_started h) T m'" if "data' m' = Some x" for m' x
    using binvD(1,2) [OF assms(1) sub [OF that]] by blast
  show "items_kept item T data' (h_dropped h)"
    unfolding items_kept_def
  proof (intro allI impI)
    fix B i
    assume a: "live T B" "int_to_string i \<in> t_enq (T B)" "int_to_string i \<notin> t_done (T B)"
    then obtain m' where m': "item m' = (B, i)" "data m' \<noteq> None \<or> m' \<in> h_dropped h"
      using binvD(6) [OF assms(1)] unfolding items_kept_def by blast
    then have "data' m' \<noteq> None \<or> m' \<in> h_dropped h" using assms(2,3,4) a(1,3) by (cases "m' = m") auto
    then show "\<exists>m. item m = (B, i) \<and> (data' m \<noteq> None \<or> m \<in> h_dropped h)" using m'(1) by blast
  qed
  show "one_message item T data'" using binvD(7) [OF assms(1)] sub unfolding one_message_def by (metis not_None_eq)
qed (use binvD [OF assms(1)] in auto)

subsection \<open>An outcome is recorded\<close>

text \<open>A new entry for an item: either a run or a failure.\<close>

definition records :: "'s batch_deps \<Rightarrow> string \<Rightarrow> tracked \<Rightarrow> tracked \<Rightarrow> bool" where
  "records bd i t t' \<longleftrightarrow> (\<exists>runId score. t' = a_success i runId score t) \<or> (\<exists>f. t' = a_failure i (b_putFailure bd f) t)"

lemma records_fields:
  assumes "records bd i t t'"
  shows "t_done t' = insert i (t_done t)" and "t_meta t' = t_meta t" and "t_enq t' = t_enq t"
  using assms unfolding records_def by auto

lemma card_dom_upd: "card (dom (m(k \<mapsto> v))) \<le> Suc (card (dom m))"
  by (cases "finite (dom m)") (auto simp: card_insert_if)

lemma records_ok:
  assumes "records bd i t t'" and "batch_ok bd t" and "t_meta t \<noteq> None \<Longrightarrow> i \<in> t_enq t"
  shows "batch_ok bd t'"
proof (cases "i \<in> t_done t")
  case True
  then have "t' = t" using assms(1) unfolding records_def by (auto simp: a_success_def a_failure_def)
  then show ?thesis using assms(2) by simp
next
  case False
  have c: "counted t'" using assms(1,2) counted_recorded unfolding records_def batch_ok_def by blast
  have card: "card (t_done t') = Suc (card (t_done t))"
    using False assms(2) records_fields(1) [OF assms(1)] by (simp add: batch_ok_def counted_def)
  have "card (dom (t_runs t')) + length (t_failures t') \<le> card (t_done t') \<and> (\<exists>fs. t_failures t' = map (b_putFailure bd) fs)"
    using assms(1) unfolding records_def
  proof (elim disjE exE)
    fix runId score
    assume t': "t' = a_success i runId score t"
    then show ?thesis
      using False assms(2) card card_dom_upd [of "t_runs t" runId score] by (auto simp: a_success_def batch_ok_def)
  next
    fix f
    assume t': "t' = a_failure i (b_putFailure bd f) t"
    obtain fs where "t_failures t = map (b_putFailure bd) fs" using assms(2) by (auto simp: batch_ok_def)
    then have "t_failures t' = map (b_putFailure bd) (fs @ [f])" using t' False by (simp add: a_failure_def)
    moreover have "card (dom (t_runs t')) + length (t_failures t') \<le> card (t_done t')"
      using False assms(2) card t' by (auto simp: a_failure_def batch_ok_def)
    ultimately show ?thesis by blast
  qed
  then show ?thesis
    using c assms(2,3) records_fields [OF assms(1)] unfolding batch_ok_def by auto
qed

context batch_server
begin

lemma binv_record:
  assumes "binv bd home item T data h ph" and "ph c = Ready m q p meta" and "records bd (int_to_string (ip_itemIndex p)) (T (ip_batchId p)) t'"
  shows "binv bd home item (T(ip_batchId p := t')) data h (ph(c := Recorded m q p meta (Some (int (card (t_done t'))))))"
    (is "binv bd home item ?T data h ?ph")
proof -
  let ?B = "ip_batchId p" and ?i = "int_to_string (ip_itemIndex p)"
  note f = records_fields [OF assms(3)]
  have ok: "good_id m" "q = home m" "carries item m p" "known item (h_started h) T m" "meta_read bd T ?B meta"
    using binvD(3) [OF assms(1), of c] assms(2) by simp_all
  then have B: "?B \<in> h_started h" "fst (item m) = ?B" "snd (item m) = ip_itemIndex p" by (simp_all add: known_def carries_def)
  have listed: "?i \<in> t_enq (T ?B)" if "live T ?B" using ok(4) that B by (simp add: known_def)
  have t'ok: "batch_ok bd t'" using records_ok [OF assms(3) binvD(4) [OF assms(1)]] listed by (auto simp: live_def)
  have lv: "live ?T B' = live T B'" for B' using f(2) by (simp add: live_def)
  have fin: "finite (t_done (T B'))" for B' using binvD(4) [OF assms(1), of B'] by (simp add: batch_ok_def counted_def)
  have g: "grows (h_started h) T ?T"
    unfolding grows_def using f fin by (auto simp: lv)
  show ?thesis
  proof (rule binvI)
    show "text_ok bd item m' x \<and> known item (h_started h) ?T m'" if "data m' = Some x" for m' x
      using binvD(1,2) [OF assms(1) that] known_grows [OF _ g] by auto
    have "phase_ok bd home item (h_started h) ?T (Recorded m q p meta (Some (int (card (t_done t')))))"
      using ok known_grows [OF ok(4) g order_refl] meta_grows [OF ok(5) g B(1)] f(1) by simp
    then show "phase_ok bd home item (h_started h) ?T (?ph c')" for c'
      using phase_grows [OF binvD(3) [OF assms(1), of c'] g order_refl] by simp
    show "batch_ok bd (?T B')" for B' using t'ok binvD(4) [OF assms(1), of B'] by simp
    show "?T B' = untracked" if "B' \<notin> h_started h" for B' using that B(1) binvD(5) [OF assms(1), of B'] by auto
    show "items_kept item ?T data (h_dropped h)"
      using binvD(6) [OF assms(1)] f(1,3) unfolding items_kept_def lv by (metis fun_upd_apply insertCI)
    show "one_message item ?T data" using binvD(7) [OF assms(1)] unfolding one_message_def lv .
    show "finalised bd ?T (h_failed h) ?ph"
      unfolding finalised_def
    proof (intro allI impI)
      fix B' meta'
      assume a: "t_meta (?T B') = Some (b_putMeta bd meta')" "0 < bm_runCount meta'" "bm_runCount meta' \<le> int (card (t_done (?T B')))"
      show "B' \<in> h_failed h \<or> (\<exists>c. closing (?ph c) B')"
      proof (cases "bm_runCount meta' \<le> int (card (t_done (T B')))")
        case True
        then have "B' \<in> h_failed h \<or> (\<exists>c. closing (ph c) B')"
          using binvD(8) [OF assms(1)] a(1,2) f(2) unfolding finalised_def by (metis fun_upd_apply)
        moreover have "c' \<noteq> c" if "closing (ph c') B'" for c' using that assms(2) by auto
        ultimately show ?thesis by (metis fun_upd_other)
      next
        case False
        then have B': "B' = ?B" using a(3) by (auto split: if_splits)
        have "card (t_done t') \<le> Suc (card (t_done (T ?B)))" using f(1) by (simp add: card_insert_le_m1 card_insert_if fin)
        then have count: "int (card (t_done t')) = bm_runCount meta'" using False a(3) B' by simp
        have "live T ?B" using a(1) B' f(2) by (auto simp: live_def)
        then have "b_putMeta bd meta' = b_putMeta bd meta" using ok(5) a(1) B' f(2) by (simp add: meta_read_def)
        then have "meta' = meta" using meta_codec(1) by (metis option.inject)
        then have "closing (?ph c) B'" using B' count by simp
        then show ?thesis by blast
      qed
    qed
  qed
qed

end

end
