(* ===== verification/Batch_Steps.thy ===== *)
theory Batch_Steps
  imports Batch_Invariant
begin

text \<open>
  The steps of the batch queue and its reachable states, and that every step keeps the invariant.

  The guards are what the callers owe: a batch is initialised once, with an id that cannot be confused with
  the fair queue's keys; environment ids have no colon; message ids are generated, not empty, without colon,
  and used for one item.
\<close>

record ('s, 'c) bq_state =
  bq_fq :: "('s, 'c) fq_state"
  bq_phase :: "nat \<Rightarrow> consumer_phase"
  bq_history :: history

abbreviation bq_redis :: "('s, 'c) bq_state \<Rightarrow> 's" where "bq_redis st \<equiv> fqs_redis (bq_fq st)"

text \<open>What a consumer's call adds to the history: a message that is in flight when it is discarded as missing, and
  a batch whose completion callback throws.\<close>

definition after_move :: "'s batch_deps \<Rightarrow> completion_callback option \<Rightarrow> consumer_phase \<Rightarrow> 's \<Rightarrow> history \<Rightarrow> history" where
  "after_move bd onComplete ph s h =
     (case ph of
        Missing m q \<Rightarrow>
          if getMessageData (batchFairQueue bd s) m q s = None then h else h\<lparr>h_dropped := insert m (h_dropped h)\<rparr>
      | Reporting B result \<Rightarrow>
          (case fst (report bd onComplete B result s) of Inl e \<Rightarrow> h\<lparr>h_failed := insert B (h_failed h)\<rparr> | Inr _ \<Rightarrow> h)
      | _ \<Rightarrow> h)"

inductive bq_step ::
    "'s batch_deps \<Rightarrow> (string \<Rightarrow> string) \<Rightarrow> (string \<Rightarrow> string \<times> int) \<Rightarrow> ('s, 'c) bq_state \<Rightarrow> ('s, 'c) bq_state \<Rightarrow> bool"
  for bd home item where
  bs_init: "io_batchId opts \<notin> h_started (bq_history st) \<Longrightarrow> batch_id_ok (io_batchId opts) \<Longrightarrow>
    bq_step bd home item st (st\<lparr>bq_fq := (bq_fq st)\<lparr>fqs_redis := initializeBatch bd now opts (bq_redis st)\<rparr>,
      bq_history := (bq_history st)\<lparr>h_started := insert (io_batchId opts) (h_started (bq_history st))\<rparr>\<rparr>)"
| bs_enqueue: "enqueueBatchItem bd now nano B E i x (bq_fq st) = (out, f) \<Longrightarrow> good_id nano \<Longrightarrow> home nano = makeQueueId E B \<Longrightarrow>
    item nano = (B, i) \<Longrightarrow> colon_free E \<Longrightarrow> batch_id_ok B \<Longrightarrow> unused_id (batchCore bd) home nano (bq_redis st) \<Longrightarrow>
    bq_step bd home item st (st\<lparr>bq_fq := f\<rparr>)"
| bs_pass: "fq_processMasterQueueShard (batchFairQueue bd (bq_redis st)) (batchScheduler bd (bq_redis st)) now loopId shardId (bq_fq st) = (out, f) \<Longrightarrow>
    bq_step bd home item st (st\<lparr>bq_fq := f\<rparr>)"
| bs_reclaim: "bq_step bd home item st
    (st\<lparr>bq_fq := (bq_fq st)\<lparr>fqs_redis := reclaimTimedOutMessages (batchFairQueue bd (bq_redis st)) now (bq_redis st)\<rparr>\<rparr>)"
| bs_expire: "bq_step bd home item st
    (st\<lparr>bq_fq := (bq_fq st)\<lparr>fqs_redis := rDEL (b_srv bd) (bk bd (envConcurrencyKey E)) (bq_redis st)\<rparr>\<rparr>)"
| bs_consume: "consumer_move bd now outcome onComplete (bq_phase st c) (bq_fq st) = (x, f) \<Longrightarrow>
    bq_step bd home item st (st\<lparr>bq_fq := f, bq_phase := (bq_phase st)(c := x),
      bq_history := after_move bd onComplete (bq_phase st c) (bq_redis st) (bq_history st)\<rparr>)"

definition bq_fresh :: "'s batch_deps \<Rightarrow> ('s, 'c) bq_state \<Rightarrow> bool" where
  "bq_fresh bd st \<longleftrightarrow> fq_fresh (batchCore bd) (bq_fq st) \<and> bq_phase st = (\<lambda>_. Idle)
     \<and> bq_history st = \<lparr>h_started = {}, h_dropped = {}, h_failed = {}\<rparr>"

inductive bq_reachable :: "'s batch_deps \<Rightarrow> (string \<Rightarrow> string) \<Rightarrow> (string \<Rightarrow> string \<times> int) \<Rightarrow> ('s, 'c) bq_state \<Rightarrow> bool"
  for bd home item where
  bq_start: "bq_fresh bd st \<Longrightarrow> bq_reachable bd home item st"
| bq_more: "bq_reachable bd home item st \<Longrightarrow> bq_step bd home item st st' \<Longrightarrow> bq_reachable bd home item st'"

context batch_server
begin

abbreviation data_of :: "(string \<Rightarrow> string) \<Rightarrow> 's \<Rightarrow> string \<Rightarrow> string option" where
  "data_of home s \<equiv> msg_data D home (fabs D s)"

definition bq_inv :: "(string \<Rightarrow> string) \<Rightarrow> (string \<Rightarrow> string \<times> int) \<Rightarrow> ('s, 'c) bq_state \<Rightarrow> bool" where
  "bq_inv home item st \<longleftrightarrow> fq_inv D home (fabs D (bq_redis st)) \<and> worker_keys_ok home (bq_redis st)
     \<and> binv bd home item (tracker bd (bq_redis st)) (data_of home (bq_redis st)) (bq_history st) (bq_phase st)"

lemma bq_invD:
  assumes "bq_inv home item st"
  shows "fq_inv D home (fabs D (bq_redis st))" and "worker_keys_ok home (bq_redis st)"
    and "binv bd home item (tracker bd (bq_redis st)) (data_of home (bq_redis st)) (bq_history st) (bq_phase st)"
  using assms by (simp_all add: bq_inv_def)

text \<open>The three parts from what an operation keeps.\<close>

lemma bq_inv_fkept:
  assumes "bq_inv home item st" and "fkept (bq_redis st') = fkept (bq_redis st)"
    and "binv bd home item (tracker bd (bq_redis st')) (data_of home (bq_redis st)) (bq_history st') (bq_phase st')"
  shows "bq_inv home item st'"
proof -
  have "fabs D (bq_redis st') = fabs D (bq_redis st)" using assms(2) by (simp add: fkept_def)
  then show ?thesis using assms(1,3) worker_keys_fkept [OF assms(2)] by (simp add: bq_inv_def)
qed

lemma bq_inv_moves:
  assumes "bq_inv home item st" and "(a_move (batchFairQueue bd s0) home)\<^sup>*\<^sup>* (fabs D (bq_redis st)) (fabs D (fqs_redis f))"
    and "tracker bd (fqs_redis f) = tracker bd (bq_redis st)" and "worker_keys_ok home (fqs_redis f)"
  shows "bq_inv home item (st\<lparr>bq_fq := f\<rparr>)"
proof -
  have inv: "fq_inv (batchFairQueue bd s0) home (fabs D (bq_redis st))"
    using bq_invD(1) [OF assms(1)] by (simp add: batchFairQueue_def)
  have "fq_inv D home (fabs D (fqs_redis f))"
    using a_steps_inv [OF moves_steps [OF assms(2)] inv] by (simp add: batchFairQueue_def)
  moreover have "data_of home (fqs_redis f) = data_of home (bq_redis st)"
    using moves_data [OF assms(2) inv] by (simp add: batchFairQueue_def)
  ultimately show ?thesis using assms(1,3,4) by (simp add: bq_inv_def)
qed

subsection \<open>The fair queue's passes\<close>

lemma batch_laws: "scheduler_laws (batchFairQueue bd s0) (batchScheduler bd s0 :: ('s, 'c) fair_scheduler)"
  unfolding batchScheduler_def
  by (rule fair_server.drr_laws [OF fair_server_batch]) (simp_all add: batchFairQueue_def batchCore_keys)

lemma fair_server_core: "fair_server D"
  using redis_server_axioms
  by (intro fair_server.intro fair_server_axioms.intro)
    (simp_all add: message_codec dead_codec shards, simp_all add: batchCore_def dead_codec)

lemma fabs_batch [simp]: "fabs (batchFairQueue bd s0) = fabs D" "fq_inv (batchFairQueue bd s0) = fq_inv D"
  "msg_data (batchFairQueue bd s0) = msg_data D"
  by (simp_all add: batchFairQueue_def)

lemma pass_keys:
  fixes f :: "('s, 'c) fq_state"
  assumes "worker_keys_ok home (fqs_redis f)" and "fq_inv D home (fabs D (fqs_redis f))"
  shows "worker_keys_ok home (fqs_redis (snd (fq_processMasterQueueShard (batchFairQueue bd s0) (batchScheduler bd s0) now loopId i f)))"
proof -
  let ?d = "batchFairQueue bd s0" and ?sch = "batchScheduler bd s0 :: ('s, 'c) fair_scheduler"
  let ?P = "\<lambda>s. worker_keys_ok home s \<and> fq_inv D home (fabs D s)"
  have keep: "worker_keys_ok home s' = worker_keys_ok home s" if "bkept s' = bkept s" for s s'
    using worker_keys_same [OF bkept_lists [OF that]] .
  have "?P (fqs_redis (snd (fq_processMasterQueueShard ?d ?sch now loopId i f)))"
  proof (rule shard_pass_keeps [where P = ?P])
    fix tqs s c t qs q and f1 :: "('s, 'c) fq_state"
    assume sel: "selectQueues ?sch now (kMaster ?d i) loopId (fqs_redis f, fqs_sched f) = (Inr tqs, s, c)"
      and t: "(t, qs) \<in> set tqs" "q \<in> set qs" and P: "?P (fqs_redis f1)"
    have "aM (fabs D (fqs_redis f)) i q \<noteq> None" using scheduler_laws.select_listed [OF batch_laws sel t] by simp
    then have i: "i = getShardForQueue ?d q"
      using fq_coreD(5) [OF fq_invD(1) [OF assms(2)]] unfolding master_ok_def by (simp add: batchFairQueue_def)
    have inv: "fq_inv ?d home (fabs ?d (fqs_redis f1))" using P by simp
    have "fq_inv D home (fabs D (fqs_redis (snd (claimAndPushToWorkerQueue ?d now loopId q t i f1))))"
      using a_steps_inv [OF moves_steps [OF fair_queue_home.claimAndPush_moves [OF fair_home_batch inv i]] inv] by simp
    moreover have "worker_keys_ok home (fqs_redis (snd (claimAndPushToWorkerQueue ?d now loopId q t i f1)))"
      using worker_keys_claimAndPush P by blast
    ultimately show "?P (fqs_redis (snd (claimAndPushToWorkerQueue ?d now loopId q t i f1)))" by simp
  next
    fix t q n s and c :: 'c
    assume "?P s"
    then show "?P (fst (recordProcessedBatch ?sch t q n (s, c)))"
      using scheduler_laws.record_store [OF batch_laws, of s0 t q n s c] by (simp add: keep [OF record_kept])
  next
    fix out s c
    assume sel: "selectQueues ?sch now (kMaster ?d i) loopId (fqs_redis f, fqs_sched f) = (out, s, c)"
    show "?P s" using keep [OF select_kept [OF sel]] scheduler_laws.select_store [OF batch_laws sel] assms by simp
  qed
  then show ?thesis by simp
qed

lemma pass_keeps_inv:
  assumes "bq_inv home item st"
    and "fq_processMasterQueueShard (batchFairQueue bd (bq_redis st)) (batchScheduler bd (bq_redis st)) now loopId i (bq_fq st) = (out, f)"
  shows "bq_inv home item (st\<lparr>bq_fq := f\<rparr>)"
proof (rule bq_inv_moves [OF assms(1)])
  let ?d = "batchFairQueue bd (bq_redis st)"
  have inv: "fq_inv ?d home (fabs ?d (bq_redis st))" using bq_invD(1) [OF assms(1)] by simp
  show "(a_move ?d home)\<^sup>*\<^sup>* (fabs D (bq_redis st)) (fabs D (fqs_redis f))"
    using fair_queue_home.shard_pass_moves [OF fair_home_batch batch_laws inv assms(2)] by simp
  show "tracker bd (fqs_redis f) = tracker bd (bq_redis st)"
    using tracker_pass [of "bq_redis st" now loopId i "bq_fq st"] assms(2) by simp
  show "worker_keys_ok home (fqs_redis f)"
    using pass_keys [OF bq_invD(2,1) [OF assms(1)], of "bq_redis st" now loopId i] assms(2) by simp
qed

lemma reclaim_keeps_inv:
  assumes "bq_inv home item st"
  shows "bq_inv home item (st\<lparr>bq_fq := (bq_fq st)\<lparr>fqs_redis := reclaimTimedOutMessages (batchFairQueue bd (bq_redis st)) now (bq_redis st)\<rparr>\<rparr>)"
proof (rule bq_inv_moves [OF assms])
  let ?d = "batchFairQueue bd (bq_redis st)"
  have inv: "fq_inv ?d home (fabs ?d (bq_redis st))" using bq_invD(1) [OF assms] by simp
  show "(a_move ?d home)\<^sup>*\<^sup>* (fabs D (bq_redis st)) (fabs D (fqs_redis ((bq_fq st)\<lparr>fqs_redis := reclaimTimedOutMessages ?d now (bq_redis st)\<rparr>)))"
    using fair_queue_home.reclaim_moves [OF fair_home_batch inv] by simp
  have k: "bkept (reclaimTimedOutMessages ?d now (bq_redis st)) = bkept (bq_redis st)"
    by (simp add: batchFairQueue_def bkept_reclaim)
  show "tracker bd (fqs_redis ((bq_fq st)\<lparr>fqs_redis := reclaimTimedOutMessages ?d now (bq_redis st)\<rparr>)) = tracker bd (bq_redis st)"
    using bkept_tracker [OF k] by simp
  show "worker_keys_ok home (fqs_redis ((bq_fq st)\<lparr>fqs_redis := reclaimTimedOutMessages ?d now (bq_redis st)\<rparr>))"
    using worker_keys_same [OF bkept_lists [OF k]] bq_invD(2) [OF assms] by simp
qed

subsection \<open>Producers\<close>

lemma tracker_upd: "batch_id_ok B \<Longrightarrow> tabs bd s' = (tabs bd s)(B := t) \<Longrightarrow> tracker bd s' = (tracker bd s)(B := t)"
  by (intro ext) (simp add: tracker_def)

lemma tracker_at: "batch_id_ok B \<Longrightarrow> tracker bd s B = tabs bd s B"
  by (simp add: tracker_def)

lemma env_key_apart: "batch_id_ok B \<Longrightarrow> bk bd (trackerKey x B) \<noteq> bk bd (envConcurrencyKey E)"
  using trackerKey_word [of B "''env_concurrency''" x E] by (simp add: envConcurrencyKey_def)

lemma tracker_env:
  "tracker bd (storeEnvConcurrency bd E c s) = tracker bd s" "tracker bd (rDEL (b_srv bd) (bk bd (envConcurrencyKey E)) s) = tracker bd s"
  using env_key_apart
  by (auto simp: fun_eq_iff tracker_def tabs_defs storeEnvConcurrency_def rSETEX_view rSET_view rDEL_view tracker_key_defs)

lemma fkept_expire: "fkept (rDEL (b_srv bd) (bk bd (envConcurrencyKey E)) s) = fkept s"
  by (simp add: fkept_def fabs_defs rDEL_view batch_fair_keys envConcurrencyKey_def fun_eq_iff)

lemma tracker_initialize:
  "batch_id_ok (io_batchId opts) \<Longrightarrow> tracker bd (initializeBatch bd now opts s) = (tracker bd s)
     (io_batchId opts := (tracker bd s (io_batchId opts))\<lparr>t_meta := Some (b_putMeta bd (meta_of now opts))\<rparr>)"
  using tracker_upd [OF _ tabs_storeMeta]
  by (simp add: initializeBatch_def Let_def tracker_env tracker_at split: option.split)

lemma init_keeps_inv:
  assumes "bq_inv home item st" and "io_batchId opts \<notin> h_started (bq_history st)" and "batch_id_ok (io_batchId opts)"
  shows "bq_inv home item (st\<lparr>bq_fq := (bq_fq st)\<lparr>fqs_redis := initializeBatch bd now opts (bq_redis st)\<rparr>,
      bq_history := (bq_history st)\<lparr>h_started := insert (io_batchId opts) (h_started (bq_history st))\<rparr>\<rparr>)"
proof -
  note b = bq_invD(3) [OF assms(1)]
  have "tracker bd (initializeBatch bd now opts (bq_redis st)) = (tracker bd (bq_redis st))
      (io_batchId opts := untracked\<lparr>t_meta := Some (b_putMeta bd (meta_of now opts))\<rparr>)"
    using tracker_initialize [OF assms(3)] binvD(5) [OF b assms(2)] by simp
  then show ?thesis
    using binv_init [OF b assms(2), of "meta_of now opts"] by (intro bq_inv_fkept [OF assms(1)]) (simp_all add: fkept_tracker)
qed

text \<open>An item is enqueued.\<close>

lemma msg_data_enqueue: "home m = q \<Longrightarrow> msg_data D home (a_enqueue i q m sc p a) = (msg_data D home a)(m \<mapsto> p)"
  by (intro ext) (auto simp: msg_data_def a_enqueue_def split: option.split)

text \<open>The text of the message of an item.\<close>

definition item_text :: "'s \<Rightarrow> string \<Rightarrow> batch_meta \<Rightarrow> string \<Rightarrow> string \<Rightarrow> int \<Rightarrow> batch_item \<Rightarrow> string" where
  "item_text s nano meta B E i x =
     (let d = batchFairQueue bd s; opts = item_options bd meta B E i x
      in b_stringify bd (stored_of d nano (makeQueueId E B) E (eo_payload opts) (bm_createdAt meta + i) (eo_metadata opts)))"

lemma item_text_ok: "item nano = (B, i) \<Longrightarrow> text_ok bd item nano (item_text s nano meta B E i x)"
  by (simp add: text_ok_def item_text_def message_codec stored_of_def item_options_def item_codec carries_def item_payload_def Let_def)

lemma fair_enqueue_abs:
  "home nano = makeQueueId E B \<Longrightarrow>
   fabs D (fqs_redis (snd (fq_enqueue (batchFairQueue bd (fqs_redis g)) now nano (item_options bd meta B E i x) g)))
     = a_enqueue (getShardForQueue D (home nano)) (home nano) nano (bm_createdAt meta + i) (item_text (fqs_redis g) nano meta B E i x) (fabs D (fqs_redis g))"
  using fair_server.fabs_enqueue [OF fair_server_batch, of "fqs_redis g"]
  by (simp add: fq_enqueue_def item_text_def item_options_def with_default_def Let_def, simp add: batchFairQueue_def)

lemma fair_enqueue_item:
  assumes "f = snd (fq_enqueue (batchFairQueue bd (fqs_redis g)) now nano (item_options bd meta B E i x) g)" and "home nano = makeQueueId E B"
    and "good_id nano" and "colon_free E" and "unused_id D home nano (fqs_redis g)" and "fq_inv D home (fabs D (fqs_redis g))"
  shows "fq_inv D home (fabs D (fqs_redis f))"
    and "data_of home (fqs_redis f) = (data_of home (fqs_redis g))(nano \<mapsto> item_text (fqs_redis g) nano meta B E i x)"
    and "bkept (fqs_redis f) = bkept (fqs_redis g)"
proof -
  let ?s = "fqs_redis g" and ?o = "item_options bd meta B E i x"
  let ?d = "batchFairQueue bd ?s"
  obtain out where e: "fq_enqueue ?d now nano ?o g = (out, f)" using assms(1) by (cases "fq_enqueue ?d now nano ?o g") simp
  have inv: "fq_inv ?d home (fabs ?d ?s)" using assms(6) by simp
  have m: "nano = with_default (eo_messageId ?o) nano" "home nano = eo_queueId ?o" "tenant_ok ?d (eo_tenantId ?o)"
    using assms(2,4) by (simp_all add: item_options_def with_default_def tenant_ok_def batchCore_keys)
  have u: "aFD (fabs ?d ?s) (getShardForQueue ?d (home nano)) nano = None" "\<forall>t. aDD (fabs ?d ?s) t nano = None"
    using assms(5) by (simp_all add: unused_id_def fabs_defs read_views batchFairQueue_def)
  show "fq_inv D home (fabs D (fqs_redis f))"
    using a_steps_inv [OF fair_queue_home.enqueue_steps [where home = home, OF fair_home_batch e m(1) assms(3) m(2,3) u] inv] by simp
  show "data_of home (fqs_redis f) = (data_of home ?s)(nano \<mapsto> item_text ?s nano meta B E i x)"
    unfolding assms(1) fair_enqueue_abs [where home = home, OF assms(2)] by (simp add: msg_data_enqueue)
  show "bkept (fqs_redis f) = bkept ?s"
    using bkept_enqueue [of "[env_group bd ?s]" now nano ?o g] by (simp add: assms(1) batchFairQueue_def)
qed

lemma enqueue_keeps_inv:
  assumes "bq_inv home item st" and "enqueueBatchItem bd now nano B E i x (bq_fq st) = (out, f)" and "good_id nano"
    and "home nano = makeQueueId E B" and "item nano = (B, i)" and "colon_free E" and "batch_id_ok B"
    and "unused_id D home nano (bq_redis st)"
  shows "bq_inv home item (st\<lparr>bq_fq := f\<rparr>)"
proof -
  note b = bq_invD(3) [OF assms(1)]
  let ?T = "tracker bd (bq_redis st)" and ?i = "int_to_string i"
  consider "f = bq_fq st" | meta where "getMeta bd B (bq_redis st) = Inr (Some meta)"
    using assms(2) by (auto simp: enqueueBatchItem_def split: sum.splits option.splits)
  then show ?thesis
  proof cases
    case 1
    then show ?thesis using assms(1) by simp
  next
    case (2 meta)
    define s where "s = snd (markItemEnqueued bd B i (bq_redis st))"
    let ?g = "(bq_fq st)\<lparr>fqs_redis := s\<rparr>"
    have Ts: "tracker bd s = ?T(B := (?T B)\<lparr>t_enq := insert ?i (t_enq (?T B))\<rparr>)"
      using tracker_upd [OF assms(7) tabs_mark, of i "bq_redis st"] by (simp add: s_def tracker_at [OF assms(7)])
    have ks: "fkept s = fkept (bq_redis st)" by (simp add: s_def fkept_tracker)
    have new: "fst (markItemEnqueued bd B i (bq_redis st)) \<longleftrightarrow> ?i \<notin> t_enq (?T B)" by (simp add: fst_mark tracker_at [OF assms(7)])
    show ?thesis
    proof (cases "?i \<in> t_enq (?T B)")
      case True
      then have "f = ?g" using assms(2) 2 new by (auto simp: enqueueBatchItem_def s_def case_prod_beta Let_def)
      moreover have "tracker bd s = ?T" using Ts True by (simp add: insert_absorb)
      ultimately show ?thesis using ks b by (intro bq_inv_fkept [OF assms(1)]) simp_all
    next
      case False
      have f: "f = snd (fq_enqueue (batchFairQueue bd (fqs_redis ?g)) now nano (item_options bd meta B E i x) ?g)"
        using assms(2) 2 new False by (auto simp: enqueueBatchItem_def s_def case_prod_beta Let_def split: sum.splits prod.splits)
      have same: "fabs D (fqs_redis ?g) = fabs D (bq_redis st)" using ks by (simp add: fkept_def)
      have u: "unused_id D home nano (fqs_redis ?g)"
        using assms(8) same unfolding unused_id_def fair_server.fabs_reads [OF fair_server_core] by simp
      note e = fair_enqueue_item [OF f assms(4,3,6) u, unfolded same, OF bq_invD(1) [OF assms(1)]]
      have live: "live ?T B" using 2 by (auto simp: live_def tracker_at [OF assms(7)] getMeta_view split: option.splits)
      have "binv bd home item (tracker bd (fqs_redis f)) (data_of home (fqs_redis f)) (bq_history st) (bq_phase st)"
        using binv_enqueue [OF b live False assms(7,5) item_text_ok [where item = item, OF assms(5)], of s meta E x] e(2) bkept_tracker [OF e(3)] Ts by simp
      moreover have "worker_keys_ok home (fqs_redis f)"
        using worker_keys_same [OF bkept_lists [OF e(3)]] worker_keys_fkept [OF ks] bq_invD(2) [OF assms(1)] by simp
      ultimately show ?thesis using e(1) by (simp add: bq_inv_def)
    qed
  qed
qed

end

end
