(* ===== verification/Batch_Consumers.thy ===== *)
theory Batch_Consumers
  imports Batch_Steps
begin

text \<open>
  The steps of the consumers keep the invariant of the batch queue, hence every step does.
\<close>

context batch_server
begin

subsection \<open>Completing a message\<close>

lemma complete_effect:
  assumes "fq_inv D home (fabs D (fqs_redis f))" and "good_id m" and "home m = q"
  shows "fq_inv D home (fabs D (fqs_redis (complete_item bd m q f)))"
    and "data_of home (fqs_redis (complete_item bd m q f)) = (data_of home (fqs_redis f))(m := aI (fabs D (fqs_redis f)) q m)"
    and "tracker bd (fqs_redis (complete_item bd m q f)) = tracker bd (fqs_redis f)"
    and "worker_keys_ok home (fqs_redis (complete_item bd m q f)) = worker_keys_ok home (fqs_redis f)"
    and "aDD (fabs D (fqs_redis (complete_item bd m q f))) = aDD (fabs D (fqs_redis f))"
proof -
  let ?d = "batchFairQueue bd (fqs_redis f)" and ?a = "fabs D (fqs_redis f)"
  let ?s = "case inflight_stored ?d m q (fqs_redis f) of
      Some x \<Rightarrow> if d_groups ?d = [] then complete ?d m q (fqs_redis f)
        else release_concurrency ?d (descriptor_for f q x) m (complete ?d m q (fqs_redis f))
    | None \<Rightarrow> complete ?d m q (fqs_redis f)"
  let ?g = "f\<lparr>fqs_redis := ?s\<rparr>"
  have g: "complete_item bd m q f = update_and_forget ?d (masterKeyFor ?d q) q ?g" by (simp add: completeMessage_def Let_def)
  have "fabs ?d ?s = set_f (getShardForQueue ?d q) q m None None (fabs ?d (fqs_redis f))"
    by (simp add: fair_queue_home.complete_abs [OF fair_home_batch, simplified]
        fair_server.fabs_concurrency(2) [OF fair_server_batch, simplified] split: option.split)
  then have s: "fabs D ?s = set_f (getShardForQueue D q) q m None None ?a" by (simp add: batchFairQueue_def)
  have inv1: "fq_inv D home (fabs D ?s)"
    using a_step_inv [OF a_finish [where home = home, OF assms(2,3)] assms(1)] s by simp
  have mv: "(a_move ?d home)\<^sup>*\<^sup>* (fabs D ?s) (fabs D (fqs_redis (complete_item bd m q f)))"
    unfolding g using fair_queue_home.update_and_forget_moves [OF fair_home_batch, of _ home ?g q] by simp
  have inv1': "fq_inv ?d home (fabs D ?s)" using inv1 by simp
  show "fq_inv D home (fabs D (fqs_redis (complete_item bd m q f)))"
    using a_steps_inv [OF moves_steps [OF mv] inv1'] by simp
  have "data_of home ?s = (data_of home (fqs_redis f))(m := aI ?a q m)"
    unfolding s using assms(3) by (intro ext) (auto simp: msg_data_def split: option.split)
  then show "data_of home (fqs_redis (complete_item bd m q f)) = (data_of home (fqs_redis f))(m := aI ?a q m)"
    using moves_data [OF mv inv1'] by simp
  have k: "bkept (fqs_redis (complete_item bd m q f)) = bkept (fqs_redis f)" by (simp add: batchFairQueue_def bkept_complete)
  show "tracker bd (fqs_redis (complete_item bd m q f)) = tracker bd (fqs_redis f)" by (rule bkept_tracker [OF k])
  show "worker_keys_ok home (fqs_redis (complete_item bd m q f)) = worker_keys_ok home (fqs_redis f)"
    by (rule worker_keys_same [OF bkept_lists [OF k]])
  show "aDD (fabs D (fqs_redis (complete_item bd m q f))) = aDD ?a" using moves_dead [OF mv] s by simp
qed

text \<open>A message without in-flight data loses nothing.\<close>

lemma complete_keeps_queued:
  assumes "fq_inv D home (fabs D s)" and "home m = q" and "getMessageData (batchFairQueue bd s) m q s = None"
  shows "data_of home s m = aI (fabs D s) q m"
proof -
  have "aFD (fabs D s) (getShardForQueue D q) m = None"
  proof (rule ccontr)
    assume "aFD (fabs D s) (getShardForQueue D q) m \<noteq> None"
    then obtain p where p: "aFD (fabs D s) (getShardForQueue D q) m = Some p" by blast
    have "payload_ok D home m p" using inflight_facts(3) [OF fq_invD(1) [OF assms(1)] p] .
    moreover have "hGET (b_srv bd) (kInflightData D (getShardForQueue D q)) m s = Some p"
      using p by (simp add: fabs_defs read_views)
    ultimately show False
      using assms(3) by (auto simp: getMessageData_def inflight_stored_def batchFairQueue_def payload_ok_def split: option.splits)
  qed
  then show ?thesis using assms(2) by (simp add: msg_data_def split: option.split)
qed

lemma complete_keeps_inv:
  assumes "bq_inv home item st" and "good_id m" and "q = home m" and "phase_ok bd home item (h_started h) (tracker bd (bq_redis st)) x"
    and "\<And>B. closing (bq_phase st c) B \<Longrightarrow> closing x B"
    and "data_of home (bq_redis st) m \<noteq> aI (fabs D (bq_redis st)) q m \<Longrightarrow> live (tracker bd (bq_redis st)) (fst (item m)) \<Longrightarrow>
      int_to_string (snd (item m)) \<in> t_done (tracker bd (bq_redis st) (fst (item m))) \<or> m \<in> h_dropped h"
    and "h = bq_history st \<or> h = (bq_history st)\<lparr>h_dropped := insert m (h_dropped (bq_history st))\<rparr>"
  shows "bq_inv home item (st\<lparr>bq_fq := complete_item bd m q (bq_fq st), bq_phase := (bq_phase st)(c := x), bq_history := h\<rparr>)"
proof -
  note e = complete_effect [OF bq_invD(1) [OF assms(1)] assms(2) assms(3) [symmetric]]
  have h: "binv bd home item (tracker bd (bq_redis st)) (data_of home (bq_redis st)) h (bq_phase st)"
    using assms(7)
  proof
    assume "h = (bq_history st)\<lparr>h_dropped := insert m (h_dropped (bq_history st))\<rparr>"
    moreover have "h_dropped (bq_history st) \<subseteq> insert m (h_dropped (bq_history st))" by blast
    ultimately show ?thesis using binv_history [OF bq_invD(3) [OF assms(1)], of _ "h_failed (bq_history st)"] by simp
  qed (use bq_invD(3) [OF assms(1)] in simp)
  have "binv bd home item (tracker bd (bq_redis st)) ((data_of home (bq_redis st))(m := aI (fabs D (bq_redis st)) q m)) h (bq_phase st)"
  proof (rule binv_complete [OF h])
    show "((data_of home (bq_redis st))(m := aI (fabs D (bq_redis st)) q m)) m = data_of home (bq_redis st) m
        \<or> ((data_of home (bq_redis st))(m := aI (fabs D (bq_redis st)) q m)) m = None"
      using assms(3) by (auto simp: msg_data_def split: option.split)
  qed (use assms(6) in auto)
  then have "binv bd home item (tracker bd (bq_redis st)) ((data_of home (bq_redis st))(m := aI (fabs D (bq_redis st)) q m)) h ((bq_phase st)(c := x))"
    by (rule binv_phase [OF _ assms(4)]) (use assms(5) in blast)
  then show ?thesis using e bq_invD(2) [OF assms(1)] by (simp add: bq_inv_def)
qed

subsection \<open>Recording an outcome\<close>

lemma outcome_effect:
  assumes "counted (tabs bd s (ip_batchId p))"
  shows "(\<exists>e. recordOutcome bd now p outcome s = (Inl e, s))
    \<or> (\<exists>t'. records bd (int_to_string (ip_itemIndex p)) (tabs bd s (ip_batchId p)) t'
         \<and> fst (recordOutcome bd now p outcome s) = Inr (Some (int (card (t_done t'))))
         \<and> tabs bd (snd (recordOutcome bd now p outcome s)) = (tabs bd s)(ip_batchId p := t'))"
proof -
  let ?t = "tabs bd s (ip_batchId p)" and ?i = "int_to_string (ip_itemIndex p)"
  have fail: "\<exists>t'. records bd ?i ?t t' \<and> fst (recordFailure bd now (ip_batchId p) (failure_of p str err code) s) = Inr (Some (int (card (t_done t'))))
      \<and> tabs bd (snd (recordFailure bd now (ip_batchId p) (failure_of p str err code) s)) = (tabs bd s)(ip_batchId p := t')" for str err code
    using recordFailure_effect [OF assms, of now "failure_of p str err code"]
    by (intro exI [of _ "a_failure ?i (b_putFailure bd ((failure_of p str err code)\<lparr>bf_timestamp := now\<rparr>)) ?t"])
      (auto simp: records_def, simp_all add: failure_of_def)
  have un: "(\<exists>e. recordUnexpected bd now p err s = (Inl e, s))
    \<or> (\<exists>t'. records bd ?i ?t t' \<and> fst (recordUnexpected bd now p err s) = Inr (Some (int (card (t_done t'))))
         \<and> tabs bd (snd (recordUnexpected bd now p err s)) = (tabs bd s)(ip_batchId p := t'))" for err
    using fail by (cases "serializePayload (b_tracer bd) (bi_payload (ip_item p))") (simp_all add: recordUnexpected_def)
  show ?thesis
  proof (cases outcome)
    case (ItemSuccess runId)
    have "recordOutcome bd now p outcome s = recordSuccess bd (ip_batchId p) runId (Some (ip_itemIndex p)) s"
      using recordSuccess_effect(1) [OF assms, of runId "ip_itemIndex p"] ItemSuccess
      by (cases "recordSuccess bd (ip_batchId p) runId (Some (ip_itemIndex p)) s") (simp add: recordOutcome_def)
    then show ?thesis
      using recordSuccess_effect [OF assms, of runId "ip_itemIndex p"]
      by (intro disjI2 exI [of _ "a_success ?i runId (ip_itemIndex p) ?t"]) (auto simp: records_def)
  next
    case (ItemFailure err code)
    show ?thesis
    proof (cases "serializePayload (b_tracer bd) (bi_payload (ip_item p))")
      case (Inr str)
      have "recordOutcome bd now p outcome s = recordFailure bd now (ip_batchId p) (failure_of p str err code) s"
        using recordFailure_effect(1) [OF assms, of now "failure_of p str err code"] ItemFailure Inr
        by (cases "recordFailure bd now (ip_batchId p) (failure_of p str err code) s") (simp add: recordOutcome_def)
      then show ?thesis using fail by simp
    qed (simp add: ItemFailure recordOutcome_def un)
  qed (simp add: recordOutcome_def un)
qed

subsection \<open>The phases\<close>

text \<open>A move that leaves the keyspace alone.\<close>

lemma quiet_keeps_inv:
  assumes "bq_inv home item st" and "phase_ok bd home item (h_started (bq_history st)) (tracker bd (bq_redis st)) x"
    and "\<And>B. closing (bq_phase st c) B \<Longrightarrow> closing x B" and "f = bq_fq st"
  shows "bq_inv home item (st\<lparr>bq_fq := f, bq_phase := (bq_phase st)(c := x)\<rparr>)"
  using binv_phase [OF bq_invD(3) [OF assms(1)] assms(2), of c] assms(3,4)
  by (intro bq_inv_fkept [OF assms(1)]) simp_all

lemma parseMessageKey_member: "good_id m \<Longrightarrow> parseMessageKey (makeMember m q) = Some (m, q)"
  using parseMember_makeMember [of m q] by (auto simp: parseMessageKey_def parseMember_def good_id_def makeMember_def)

lemma pop_keeps_inv:
  assumes "bq_inv home item st" and "bq_phase st c = Idle" and "consumer_move bd now outcome onComplete Idle (bq_fq st) = (x, f)"
  shows "bq_inv home item (st\<lparr>bq_fq := f, bq_phase := (bq_phase st)(c := x)\<rparr>)"
proof -
  let ?s = "snd (worker_blockingPop (batchFairQueue bd (bq_redis st)) BATCH_WORKER_QUEUE_ID (bq_redis st))"
  have f: "f = (bq_fq st)\<lparr>fqs_redis := ?s\<rparr>" using assms(3) by (auto simp: case_prod_beta Let_def)
  have x: "phase_ok bd home item (h_started (bq_history st)) (tracker bd (bq_redis st)) x"
  proof (cases "fst (worker_blockingPop (batchFairQueue bd (bq_redis st)) BATCH_WORKER_QUEUE_ID (bq_redis st))")
    case None
    then show ?thesis using assms(3) by (auto simp: case_prod_beta Let_def)
  next
    case (Some k)
    then have "k \<in> set (v_list (rview (b_srv bd) (bq_redis st)) (kWorker D BATCH_WORKER_QUEUE_ID))"
      by (auto simp: worker_blockingPop_def lLPOP_result batchFairQueue_def split: list.splits)
    then obtain m where "good_id m" "k = makeMember m (home m)"
      using bq_invD(2) [OF assms(1)] unfolding worker_keys_ok_def by blast
    then show ?thesis using assms(3) Some by (auto simp: case_prod_beta Let_def parseMessageKey_member)
  qed
  have T: "tracker bd ?s = tracker bd (bq_redis st)" by (simp add: worker_blockingPop_def batchFairQueue_def)
  have a: "fabs D ?s = fabs D (bq_redis st)"
    using fair_server.fabs_others(4) [OF fair_server_core] by (simp add: worker_blockingPop_def)
  have w: "worker_keys_ok home ?s" using worker_keys_pop [OF bq_invD(2) [OF assms(1)]] by (simp add: batchFairQueue_def)
  have "binv bd home item (tracker bd (bq_redis st)) (data_of home (bq_redis st)) (bq_history st) ((bq_phase st)(c := x))"
    using assms(2) by (intro binv_phase [OF bq_invD(3) [OF assms(1)] x]) simp
  then show ?thesis using f T a w bq_invD(1) [OF assms(1)] by (simp add: bq_inv_def)
qed

lemma inflight_data:
  assumes "fq_inv D home (fabs D s)" and "getMessageData (batchFairQueue bd s) m q s = Some x" and "home m = q"
  shows "\<exists>json. data_of home s m = Some json \<and> b_parse bd json = Some x"
proof -
  obtain p where p: "aFD (fabs D s) (getShardForQueue D q) m = Some p" "b_parse bd p = Some x"
    using assms(2) by (auto simp: getMessageData_def inflight_stored_def batchFairQueue_def fabs_defs read_views split: option.splits if_splits)
  have "aI (fabs D s) q m = None" using inflight_facts(4) [OF fq_invD(1) [OF assms(1)] p(1)] assms(3) by simp
  then show ?thesis using p assms(3) by (simp add: msg_data_def)
qed

lemma load_keeps_inv:
  assumes "bq_inv home item st" and "bq_phase st c = Popped m q" and "consumer_move bd now outcome onComplete (Popped m q) (bq_fq st) = (x, f)"
  shows "bq_inv home item (st\<lparr>bq_fq := f, bq_phase := (bq_phase st)(c := x)\<rparr>)"
proof -
  note b = bq_invD(3) [OF assms(1)]
  have m: "good_id m" "q = home m" using binvD(3) [OF b, of c] assms(2) by simp_all
  have f: "f = bq_fq st" using assms(3) by simp
  have "phase_ok bd home item (h_started (bq_history st)) (tracker bd (bq_redis st)) x"
  proof (cases "getMessageData (batchFairQueue bd (bq_redis st)) m q (bq_redis st)")
    case None
    then show ?thesis using assms(3) m by auto
  next
    case (Some y)
    obtain json where j: "data_of home (bq_redis st) m = Some json" "b_parse bd json = Some y"
      using inflight_data [OF bq_invD(1) [OF assms(1)] Some] m by blast
    obtain p where p: "b_getItem bd (sm_payload y) = Some p" "carries item m p"
      using binvD(1) [OF b j(1)] j(2) by (auto simp: text_ok_def)
    then show ?thesis using assms(3) Some m binvD(2) [OF b j(1)] by auto
  qed
  then show ?thesis
    using assms(2) f by (intro quiet_keeps_inv [OF assms(1)]) simp_all
qed

lemma meta_keeps_inv:
  assumes "bq_inv home item st" and "bq_phase st c = Loaded m q p" and "consumer_move bd now outcome onComplete (Loaded m q p) (bq_fq st) = (x, f)"
  shows "bq_inv home item (st\<lparr>bq_fq := f, bq_phase := (bq_phase st)(c := x)\<rparr>)"
proof -
  note b = bq_invD(3) [OF assms(1)]
  let ?T = "tracker bd (bq_redis st)" and ?B = "ip_batchId p"
  have ok: "good_id m" "q = home m" "carries item m p" "known item (h_started (bq_history st)) ?T m" using binvD(3) [OF b, of c] assms(2) by simp_all
  then have B: "batch_id_ok ?B" "fst (item m) = ?B" by (auto simp: known_def carries_def)
  have meta: "getMeta bd ?B (bq_redis st) = (case t_meta (?T ?B) of None \<Rightarrow> Inr None
      | Some y \<Rightarrow> if y = [] then Inr None else case b_getMeta bd y of None \<Rightarrow> Inl BatchInvalidJSON | Some meta \<Rightarrow> Inr (Some meta))"
    by (simp add: getMeta_view tracker_at [OF B(1)])
  have f: "f = bq_fq st" using assms(3) by simp
  have "phase_ok bd home item (h_started (bq_history st)) ?T x"
  proof (cases "t_meta (?T ?B)")
    case None
    then show ?thesis using assms(3) ok B by (auto simp: meta live_def)
  next
    case (Some y)
    then obtain mt where "y = b_putMeta bd mt" using binvD(4) [OF b, of ?B] by (auto simp: batch_ok_def)
    then show ?thesis using assms(3) ok Some by (auto simp: meta meta_codec meta_read_def)
  qed
  then show ?thesis
    using assms(2) f by (intro quiet_keeps_inv [OF assms(1)]) simp_all
qed

lemma record_keeps_inv:
  assumes "bq_inv home item st" and "bq_phase st c = Ready m q p meta"
    and "consumer_move bd now outcome onComplete (Ready m q p meta) (bq_fq st) = (x, f)"
  shows "bq_inv home item (st\<lparr>bq_fq := f, bq_phase := (bq_phase st)(c := x)\<rparr>)"
proof -
  note b = bq_invD(3) [OF assms(1)]
  let ?T = "tracker bd (bq_redis st)" and ?B = "ip_batchId p"
  have B: "batch_id_ok ?B" using binvD(3) [OF b, of c] assms(2) by (auto simp: known_def carries_def)
  have cnt: "counted (tabs bd (bq_redis st) ?B)" using binvD(4) [OF b, of ?B] by (simp add: batch_ok_def tracker_at [OF B])
  consider e where "recordOutcome bd now p outcome (bq_redis st) = (Inl e, bq_redis st)"
    | t' where "records bd (int_to_string (ip_itemIndex p)) (?T ?B) t'"
        "fst (recordOutcome bd now p outcome (bq_redis st)) = Inr (Some (int (card (t_done t'))))"
        "tabs bd (snd (recordOutcome bd now p outcome (bq_redis st))) = (tabs bd (bq_redis st))(?B := t')"
    using outcome_effect [OF cnt, of now outcome] by (auto simp: tracker_at [OF B])
  then show ?thesis
  proof cases
    case 1
    then have "x = Idle" "f = bq_fq st" using assms(3) by simp_all
    then show ?thesis using assms(2) by (intro quiet_keeps_inv [OF assms(1)]) simp_all
  next
    case (2 t')
    let ?s = "snd (recordOutcome bd now p outcome (bq_redis st))"
    have x: "x = Recorded m q p meta (Some (int (card (t_done t'))))" "f = (bq_fq st)\<lparr>fqs_redis := ?s\<rparr>"
      using assms(3) 2(2) by (auto simp: case_prod_beta Let_def)
    show ?thesis
    proof (rule bq_inv_fkept [OF assms(1)])
      show "fkept (bq_redis (st\<lparr>bq_fq := f, bq_phase := (bq_phase st)(c := x)\<rparr>)) = fkept (bq_redis st)"
        using x(2) fkept_outcome [OF B] by simp
      show "binv bd home item (tracker bd (bq_redis (st\<lparr>bq_fq := f, bq_phase := (bq_phase st)(c := x)\<rparr>))) (data_of home (bq_redis st))
          (bq_history (st\<lparr>bq_fq := f, bq_phase := (bq_phase st)(c := x)\<rparr>)) (bq_phase (st\<lparr>bq_fq := f, bq_phase := (bq_phase st)(c := x)\<rparr>))"
        using binv_record [OF b assms(2) 2(1)] tracker_upd [OF B 2(3)] x by simp
    qed
  qed
qed

lemma finish_keeps_inv:
  assumes "bq_inv home item st" and "bq_phase st c = Recorded m q p meta n"
    and "consumer_move bd now outcome onComplete (Recorded m q p meta n) (bq_fq st) = (x, f)"
  shows "bq_inv home item (st\<lparr>bq_fq := f, bq_phase := (bq_phase st)(c := x)\<rparr>)"
proof -
  note b = bq_invD(3) [OF assms(1)]
  let ?T = "tracker bd (bq_redis st)" and ?B = "ip_batchId p"
  have ok: "phase_ok bd home item (h_started (bq_history st)) ?T (Recorded m q p meta n)" using binvD(3) [OF b, of c] assms(2) by simp
  then have m: "good_id m" "q = home m" "fst (item m) = ?B" "snd (item m) = ip_itemIndex p" "batch_id_ok ?B" "?B \<in> h_started (bq_history st)"
    by (auto simp: carries_def known_def)
  have x: "x = (if n = Some (bm_runCount meta) then Finalizing ?B else Idle)" "f = complete_item bd m q (bq_fq st)" using assms(3) by simp_all
  have "bq_inv home item (st\<lparr>bq_fq := complete_item bd m q (bq_fq st), bq_phase := (bq_phase st)(c := x), bq_history := bq_history st\<rparr>)"
  proof (rule complete_keeps_inv [OF assms(1) m(1,2)])
    show "phase_ok bd home item (h_started (bq_history st)) ?T x"
      using ok m x(1) by (auto simp: enough_def meta_read_def)
    show "closing x B" if "closing (bq_phase st c) B" for B using that assms(2) x(1) by simp
    show "int_to_string (snd (item m)) \<in> t_done (?T (fst (item m))) \<or> m \<in> h_dropped (bq_history st)" if "live ?T (fst (item m))"
      using that ok m by simp
  qed simp
  then show ?thesis using x(2) by simp
qed

lemma orphan_keeps_inv:
  assumes "bq_inv home item st" and "bq_phase st c = Orphan m q"
  shows "bq_inv home item (st\<lparr>bq_fq := complete_item bd m q (bq_fq st), bq_phase := (bq_phase st)(c := Idle)\<rparr>)"
proof -
  have ok: "phase_ok bd home item (h_started (bq_history st)) (tracker bd (bq_redis st)) (Orphan m q)"
    using binvD(3) [OF bq_invD(3) [OF assms(1)], of c] assms(2) by simp
  have "bq_inv home item (st\<lparr>bq_fq := complete_item bd m q (bq_fq st), bq_phase := (bq_phase st)(c := Idle), bq_history := bq_history st\<rparr>)"
    using ok assms(2) by (intro complete_keeps_inv [OF assms(1)]) simp_all
  then show ?thesis by simp
qed

lemma missing_keeps_inv:
  assumes "bq_inv home item st" and "bq_phase st c = Missing m q"
  shows "bq_inv home item (st\<lparr>bq_fq := complete_item bd m q (bq_fq st), bq_phase := (bq_phase st)(c := Idle),
      bq_history := after_move bd onComplete (Missing m q) (bq_redis st) (bq_history st)\<rparr>)"
proof -
  have m: "good_id m" "q = home m" using binvD(3) [OF bq_invD(3) [OF assms(1)], of c] assms(2) by simp_all
  show ?thesis
    using assms(2) m complete_keeps_queued [OF bq_invD(1) [OF assms(1)], of m q]
    by (intro complete_keeps_inv [OF assms(1) m]) (auto simp: after_move_def)
qed

text \<open>The completion result of a batch can always be read.\<close>

lemma result_readable:
  assumes "batch_ok bd (tracker bd s B)" and "batch_id_ok B"
  shows "\<exists>fs. getFailures bd B s = Inr fs \<and> length fs = length (t_failures (tracker bd s B))
    \<and> getCompletionResult bd B s = Inr \<lparr>cr_batchId = B, cr_runIds = map fst (zsorted (t_runs (tracker bd s B))),
        cr_successfulRunCount = card (dom (t_runs (tracker bd s B))), cr_failedRunCount = length fs, cr_failures = fs\<rparr>"
proof -
  obtain fs where fs: "t_failures (tabs bd s B) = map (b_putFailure bd) fs" using assms by (auto simp: batch_ok_def tracker_at)
  then have "lRANGE (b_srv bd) (bk bd (failuresKey B)) s = map (b_putFailure bd) fs" by (simp add: tabs_defs read_views)
  then have "getFailures bd B s = Inr fs" by (simp add: getFailures_def parse_failures_puts)
  then show ?thesis
    using fs length_zsorted [OF finite_tracked(3), of s B] by (simp add: getCompletionResult_def getSuccessfulRuns_view tracker_at [OF assms(2)])
qed

lemma result_keeps_inv:
  assumes "bq_inv home item st" and "bq_phase st c = Finalizing B" and "consumer_move bd now outcome onComplete (Finalizing B) (bq_fq st) = (x, f)"
  shows "bq_inv home item (st\<lparr>bq_fq := f, bq_phase := (bq_phase st)(c := x)\<rparr>)"
proof -
  note b = bq_invD(3) [OF assms(1)]
  have ok: "phase_ok bd home item (h_started (bq_history st)) (tracker bd (bq_redis st)) (Finalizing B)" using binvD(3) [OF b, of c] assms(2) by simp
  have f: "f = bq_fq st" using assms(3) by simp
  obtain r where "getCompletionResult bd B (bq_redis st) = Inr r" using result_readable [OF binvD(4) [OF b], of B] ok by auto
  then have x: "x = Reporting B r" using assms(3) by simp
  show ?thesis
    unfolding x using ok assms(2) f by (intro quiet_keeps_inv [OF assms(1)]) simp_all
qed

lemma report_keeps_inv:
  assumes "bq_inv home item st" and "bq_phase st c = Reporting B r"
  shows "bq_inv home item (st\<lparr>bq_fq := (bq_fq st)\<lparr>fqs_redis := snd (report bd onComplete B r (bq_redis st))\<rparr>,
      bq_phase := (bq_phase st)(c := Idle), bq_history := after_move bd onComplete (Reporting B r) (bq_redis st) (bq_history st)\<rparr>)"
    (is "bq_inv home item ?st")
proof -
  note b = bq_invD(3) [OF assms(1)]
  let ?T = "tracker bd (bq_redis st)" and ?h = "bq_history st"
  have B: "batch_id_ok B" using binvD(3) [OF b, of c] assms(2) by simp
  show ?thesis
  proof (cases "fst (report bd onComplete B r (bq_redis st))")
    case (Inl e)
    then have s: "snd (report bd onComplete B r (bq_redis st)) = bq_redis st" by (auto simp: report_def split: option.splits)
    have "binv bd home item ?T (data_of home (bq_redis st)) (?h\<lparr>h_failed := insert B (h_failed ?h)\<rparr>) (bq_phase st)"
      using binv_history [OF b, of "h_dropped ?h" "insert B (h_failed ?h)"] by (simp add: subset_insertI)
    then have "binv bd home item ?T (data_of home (bq_redis st)) (?h\<lparr>h_failed := insert B (h_failed ?h)\<rparr>) ((bq_phase st)(c := Idle))"
      by (rule binv_phase) (use assms(2) in auto)
    then show ?thesis using s Inl by (intro bq_inv_fkept [OF assms(1)]) (simp_all add: after_move_def)
  next
    case (Inr o')
    then have s: "snd (report bd onComplete B r (bq_redis st)) = cleanup bd B (bq_redis st)" by (auto simp: report_def split: option.splits)
    have T: "tracker bd (cleanup bd B (bq_redis st)) = ?T(B := untracked)" by (rule tracker_upd [OF B tabs_cleanup])
    have "binv bd home item (?T(B := untracked)) (data_of home (bq_redis st)) ?h ((bq_phase st)(c := Idle))"
      by (rule binv_phase [OF binv_cleanup [OF b]]) (use assms(2) in \<open>auto simp: live_def untracked_def\<close>)
    then show ?thesis using s T Inr fkept_cleanup [OF B] by (intro bq_inv_fkept [OF assms(1)]) (simp_all add: after_move_def)
  qed
qed

subsection \<open>Every step\<close>

lemma consume_keeps_inv:
  assumes "bq_inv home item st" and "consumer_move bd now outcome onComplete (bq_phase st c) (bq_fq st) = (x, f)"
  shows "bq_inv home item (st\<lparr>bq_fq := f, bq_phase := (bq_phase st)(c := x),
      bq_history := after_move bd onComplete (bq_phase st c) (bq_redis st) (bq_history st)\<rparr>)"
proof (cases "bq_phase st c")
  case Idle
  then show ?thesis using pop_keeps_inv [OF assms(1) Idle assms(2) [unfolded Idle]] by (simp add: after_move_def)
next
  case (Popped m q)
  then show ?thesis using load_keeps_inv [OF assms(1) Popped assms(2) [unfolded Popped]] by (simp add: after_move_def)
next
  case (Missing m q)
  then show ?thesis using missing_keeps_inv [OF assms(1) Missing] assms(2) by simp
next
  case (Loaded m q p)
  then show ?thesis using meta_keeps_inv [OF assms(1) Loaded assms(2) [unfolded Loaded]] by (simp add: after_move_def)
next
  case (Orphan m q)
  then show ?thesis using orphan_keeps_inv [OF assms(1) Orphan] assms(2) by (simp add: after_move_def)
next
  case (Ready m q p meta)
  then show ?thesis using record_keeps_inv [OF assms(1) Ready assms(2) [unfolded Ready]] by (simp add: after_move_def)
next
  case (Recorded m q p meta n)
  then show ?thesis using finish_keeps_inv [OF assms(1) Recorded assms(2) [unfolded Recorded]] by (simp add: after_move_def)
next
  case (Finalizing B)
  then show ?thesis using result_keeps_inv [OF assms(1) Finalizing assms(2) [unfolded Finalizing]] by (simp add: after_move_def)
next
  case (Reporting B r)
  then show ?thesis using report_keeps_inv [OF assms(1) Reporting, of onComplete] assms(2) by simp
qed

theorem bq_step_inv:
  assumes "bq_step bd home item st st'" and "bq_inv home item st"
  shows "bq_inv home item st'"
  using assms(1)
proof cases
  case (bs_init opts now)
  then show ?thesis using init_keeps_inv [OF assms(2)] by simp
next
  case (bs_enqueue now nano B E i x out f)
  then show ?thesis using enqueue_keeps_inv [OF assms(2)] by blast
next
  case (bs_pass now loopId shardId out f)
  then show ?thesis using pass_keeps_inv [OF assms(2)] by blast
next
  case (bs_reclaim now)
  then show ?thesis using reclaim_keeps_inv [OF assms(2)] by simp
next
  case (bs_expire E)
  then show ?thesis using bq_invD(3) [OF assms(2)] by (intro bq_inv_fkept [OF assms(2)]) (simp_all add: fkept_expire tracker_env)
next
  case (bs_consume now outcome onComplete c x f)
  then show ?thesis using consume_keeps_inv [OF assms(2)] by blast
qed

lemma bq_fresh_inv:
  assumes "bq_fresh bd st"
  shows "bq_inv home item st"
proof -
  let ?v = "rview (b_srv bd) (bq_redis st)"
  have "\<not> rEXISTS (b_srv bd) k (bq_redis st)" for k using assms by (simp add: bq_fresh_def fq_fresh_def)
  then have v: "v_str ?v k = None" "v_zset ?v k = Map.empty" "v_set ?v k = {}" "v_list ?v k = []" "v_hash ?v k = Map.empty" for k
    by (auto simp: rEXISTS_view)
  have "tracker bd (bq_redis st) = (\<lambda>_. untracked)" by (intro ext) (simp add: tracker_def tabs_defs v untracked_def)
  moreover have "data_of home (bq_redis st) = (\<lambda>_. None)" by (intro ext) (simp add: msg_data_def fabs_defs v)
  moreover have "worker_keys_ok home (bq_redis st)" by (simp add: worker_keys_ok_def v)
  moreover have "fq_inv D home (fabs D (bq_redis st))"
    by (rule fair_queue_home.fresh_inv [OF fair_queue_home.intro [OF fair_server_core]]) (use assms in \<open>simp add: bq_fresh_def\<close>)
  ultimately show ?thesis using assms binv_start by (simp add: bq_inv_def bq_fresh_def)
qed

theorem bq_reachable_inv: "bq_reachable bd home item st \<Longrightarrow> bq_inv home item st"
proof (induction rule: bq_reachable.induct)
  case (bq_start st)
  then show ?case by (rule bq_fresh_inv)
next
  case (bq_more st st')
  then show ?case using bq_step_inv by blast
qed

subsection \<open>In terms of the queries\<close>

lemma query_views_batch:
  assumes "batch_id_ok B"
  shows "{x. sISMEMBER (b_srv bd) (bk bd (processedItemsKey B)) x s} = t_done (tracker bd s B)"
    and "{x. sISMEMBER (b_srv bd) (bk bd (enqueuedItemsKey B)) x s} = t_enq (tracker bd s B)"
    and "isItemEnqueued bd B i s \<longleftrightarrow> int_to_string i \<in> t_enq (tracker bd s B)"
    and "sISMEMBER (b_srv bd) (bk bd (processedItemsKey B)) x s \<longleftrightarrow> x \<in> t_done (tracker bd s B)"
  by (simp_all add: tracker_at [OF assms] tabs_defs read_views isItemEnqueued_def)

lemma getMeta_live:
  assumes "batch_id_ok B" and "getMeta bd B s = Inr (Some meta)" and "batch_ok bd (tracker bd s B)"
  shows "live (tracker bd s) B" and "t_meta (tracker bd s B) = Some (b_putMeta bd meta)"
proof -
  obtain x where x: "t_meta (tracker bd s B) = Some x" "b_getMeta bd x = Some meta"
    using assms(1,2) by (auto simp: getMeta_view tracker_at split: option.splits if_splits)
  then obtain meta' where "x = b_putMeta bd meta'" using assms(3) by (auto simp: batch_ok_def)
  then show "t_meta (tracker bd s B) = Some (b_putMeta bd meta)" using x by (simp add: meta_codec)
  then show "live (tracker bd s) B" by (simp add: live_def)
qed

lemma getMeta_stored: "batch_id_ok B \<Longrightarrow> t_meta (tracker bd s B) = Some (b_putMeta bd meta) \<Longrightarrow> getMeta bd B s = Inr (Some meta)"
  by (simp add: getMeta_view tracker_at meta_codec)

lemma getMeta_gone: "batch_id_ok B \<Longrightarrow> tracker bd s B = untracked \<Longrightarrow> getMeta bd B s = Inr None"
  by (simp add: getMeta_view tracker_at untracked_def)

lemma count_tracker: "batch_id_ok B \<Longrightarrow> batch_ok bd (tracker bd s B) \<Longrightarrow> getProcessedCount bd B s = Some (int (card (t_done (tracker bd s B))))"
  by (simp add: tracker_at batch_ok_def getProcessedCount_counted)

text \<open>A message with a text is queued or in flight.\<close>

lemma data_phase:
  assumes "fq_inv D home a" and "msg_data D home a m \<noteq> None"
  shows "msg_phase_of D home a m \<noteq> MAbsent"
  using phase_queued [OF fq_invD(1) [OF assms(1)], of m] phase_inflight [OF fq_invD(1) [OF assms(1)], of m] assms(2)
  by (cases "aI a (home m) m") (auto simp: msg_data_def)

lemma batch_facts:
  assumes "bq_reachable bd home item st" and "batch_id_ok B" and "getMeta bd B (bq_redis st) = Inr (Some meta)"
  shows "\<exists>pr. getBatchProgress bd B (bq_redis st) = Inr pr
    \<and> pr_processedCount pr = Some (int (card {x. sISMEMBER (b_srv bd) (bk bd (processedItemsKey B)) x (bq_redis st)}))
    \<and> {x. sISMEMBER (b_srv bd) (bk bd (processedItemsKey B)) x (bq_redis st)} \<subseteq> {x. sISMEMBER (b_srv bd) (bk bd (enqueuedItemsKey B)) x (bq_redis st)}
    \<and> pr_successCount pr + pr_failureCount pr \<le> card {x. sISMEMBER (b_srv bd) (bk bd (processedItemsKey B)) x (bq_redis st)}
    \<and> (\<forall>i. isItemEnqueued bd B i (bq_redis st) \<longrightarrow>
         sISMEMBER (b_srv bd) (bk bd (processedItemsKey B)) (int_to_string i) (bq_redis st)
         \<or> (\<exists>m. item m = (B, i) \<and> (msg_phase_of D home (fabs D (bq_redis st)) m \<noteq> MAbsent \<or> m \<in> h_dropped (bq_history st))))"
proof -
  let ?s = "bq_redis st"
  note inv = bq_reachable_inv [OF assms(1)]
  note b = bq_invD(3) [OF inv] and ok = binvD(4) [OF bq_invD(3) [OF inv], of B]
  note q = query_views_batch [OF assms(2)]
  have live: "live (tracker bd ?s) B" by (rule getMeta_live(1) [OF assms(2,3) ok])
  obtain fs where fs: "getFailures bd B ?s = Inr fs" "length fs = length (t_failures (tracker bd ?s B))"
    using result_readable [OF ok assms(2)] by blast
  define pr where "pr = \<lparr>pr_successCount = length (getSuccessfulRuns bd B ?s), pr_failureCount = length fs, pr_processedCount = getProcessedCount bd B ?s\<rparr>"
  have "getBatchProgress bd B ?s = Inr pr" using fs(1) by (simp add: getBatchProgress_def pr_def)
  moreover have "pr_processedCount pr = Some (int (card (t_done (tracker bd ?s B))))" by (simp add: pr_def count_tracker [OF assms(2) ok])
  moreover have "t_done (tracker bd ?s B) \<subseteq> t_enq (tracker bd ?s B)" using ok live by (auto simp: batch_ok_def live_def)
  moreover have "pr_successCount pr + pr_failureCount pr \<le> card (t_done (tracker bd ?s B))"
    using ok fs(2) length_zsorted [OF finite_tracked(3), of ?s B] by (simp add: pr_def getSuccessfulRuns_view batch_ok_def tracker_at [OF assms(2)])
  moreover have "\<exists>m. item m = (B, i) \<and> (msg_phase_of D home (fabs D ?s) m \<noteq> MAbsent \<or> m \<in> h_dropped (bq_history st))"
    if "int_to_string i \<in> t_enq (tracker bd ?s B)" "int_to_string i \<notin> t_done (tracker bd ?s B)" for i
    using binvD(6) [OF b] live that data_phase [OF bq_invD(1) [OF inv]] unfolding items_kept_def by blast
  ultimately show ?thesis unfolding q Collect_mem_eq by blast
qed

end

end
