(* ===== verification/Batch_Handler.thy ===== *)
theory Batch_Handler
  imports Batch_Consumers
begin

text \<open>
  What one call achieves in a state that keeps the invariant: a consumer that is about to finalise a batch
  does so, a handler that is not interrupted records its item and removes its message, and an item is
  enqueued once.
\<close>

text \<open>A completion callback that does not throw.\<close>

definition accepting :: "completion_callback option \<Rightarrow> bool" where
  "accepting onComplete \<longleftrightarrow> (case onComplete of None \<Rightarrow> True | Some callback \<Rightarrow> \<forall>result. callback result = None)"

lemma report_accepting: "accepting onComplete \<Longrightarrow> report bd onComplete B result s = (Inr (Some result), cleanup bd B s)"
  by (auto simp: accepting_def report_def split: option.splits)

text \<open>The outcomes that can be recorded: all but a failure of an item without payload under a tracer.\<close>

definition recordable :: "'s batch_deps \<Rightarrow> batch_item_payload \<Rightarrow> item_outcome \<Rightarrow> bool" where
  "recordable bd p outcome \<longleftrightarrow>
     \<not> b_tracer bd \<or> bi_payload (ip_item p) \<noteq> None \<or> (case outcome of ItemSuccess _ \<Rightarrow> True | _ \<Rightarrow> False)"

lemma unrecordable:
  "\<not> recordable bd p outcome \<Longrightarrow> recordOutcome bd now p outcome s = (Inl BatchTypeError, s)"
  by (auto simp: recordable_def recordOutcome_def recordUnexpected_def serializePayload_def split: item_outcome.splits)

context batch_server
begin

subsection \<open>Finalising\<close>

lemma cleanup_gone: "getMeta bd B (cleanup bd B s) = Inr None"
  by (simp add: getMeta_view tabs_cleanup untracked_def)

lemma finalize_accepting:
  assumes "accepting onComplete" and "batch_ok bd (tracker bd s B)" and "batch_id_ok B"
  shows "\<exists>result. finalizeBatch bd onComplete B s = (Inr (Some result), cleanup bd B s) \<and> getCompletionResult bd B s = Inr result"
  using result_readable [OF assms(2,3)] assms(1) by (auto simp: finalizeBatch_def report_accepting)

lemma closing_finalises:
  assumes "bq_inv home item st" and "closing (bq_phase st c) B" and "accepting onComplete"
  shows "\<exists>f. (uninterrupted bd now outcome onComplete ^^ 3) (bq_phase st c, bq_fq st) = (Idle, f)
    \<and> getMeta bd B (fqs_redis f) = Inr None"
proof -
  note b = bq_invD(3) [OF assms(1)]
  have three: "(3::nat) = Suc (Suc (Suc 0))" by simp
  have ph: "phase_ok bd home item (h_started (bq_history st)) (tracker bd (bq_redis st)) (bq_phase st c)" by (rule binvD(3) [OF b])
  show ?thesis
  proof (cases "bq_phase st c")
    case (Recorded m q p meta n)
    then have B: "ip_batchId p = B" "n = Some (bm_runCount meta)" "batch_id_ok B" "good_id m" "q = home m"
      using assms(2) ph by (auto simp: known_def carries_def)
    let ?f = "complete_item bd m q (bq_fq st)"
    have "tracker bd (fqs_redis ?f) = tracker bd (bq_redis st)" using complete_effect(3) [OF bq_invD(1) [OF assms(1)] B(4)] B(5) by simp
    then have "batch_ok bd (tracker bd (fqs_redis ?f) B)" using binvD(4) [OF b] by simp
    then obtain r where "finalizeBatch bd onComplete B (fqs_redis ?f) = (Inr (Some r), cleanup bd B (fqs_redis ?f))"
      using finalize_accepting [OF assms(3) _ B(3)] by blast
    then show ?thesis using B unfolding Recorded three run_recorded by (simp add: cleanup_gone Let_def)
  next
    case (Finalizing B')
    then have B: "B' = B" "batch_id_ok B" using assms(2) ph by auto
    obtain r where "finalizeBatch bd onComplete B (bq_redis st) = (Inr (Some r), cleanup bd B (bq_redis st))"
      using finalize_accepting [OF assms(3) binvD(4) [OF b] B(2)] by blast
    then show ?thesis using B unfolding Finalizing three run_finalizing by (simp add: cleanup_gone)
  next
    case (Reporting B' r)
    then have B: "B' = B" using assms(2) by simp
    show ?thesis
      unfolding Reporting three B by (subst uninterrupted_move) (simp_all add: report_accepting [OF assms(3)] cleanup_gone del: funpow.simps(2))
  qed (use assms(2) in simp_all)
qed

lemma batch_finishes:
  assumes "bq_reachable bd home item st" and "batch_id_ok B" and "getMeta bd B (bq_redis st) = Inr (Some meta)"
    and "getProcessedCount bd B (bq_redis st) = Some n" and "0 < bm_runCount meta" and "bm_runCount meta \<le> n"
    and "B \<notin> h_failed (bq_history st)" and "accepting onComplete"
  shows "\<exists>c f. (uninterrupted bd now outcome onComplete ^^ 3) (bq_phase st c, bq_fq st) = (Idle, f)
    \<and> getMeta bd B (fqs_redis f) = Inr None"
proof -
  note inv = bq_reachable_inv [OF assms(1)]
  note b = bq_invD(3) [OF inv]
  have "t_meta (tracker bd (bq_redis st) B) = Some (b_putMeta bd meta)" by (rule getMeta_live(2) [OF assms(2,3) binvD(4) [OF b]])
  moreover have "n = int (card (t_done (tracker bd (bq_redis st) B)))" using count_tracker [OF assms(2) binvD(4) [OF b]] assms(4) by simp
  ultimately obtain c where "closing (bq_phase st c) B" using binvD(8) [OF b] assms(5-7) unfolding finalised_def by blast
  then show ?thesis using closing_finalises [OF inv _ assms(8)] by blast
qed

subsection \<open>One message\<close>

lemma popped_facts:
  assumes "bq_inv home item st" and "getMessageData (batchFairQueue bd (bq_redis st)) m q (bq_redis st) = Some x" and "q = home m"
    and "b_getItem bd (sm_payload x) = Some p"
  shows "good_id m" and "carries item m p" and "known item (h_started (bq_history st)) (tracker bd (bq_redis st)) m"
    and "batch_id_ok (ip_batchId p)" and "aI (fabs D (bq_redis st)) q m = None" and "aDD (fabs D (bq_redis st)) t m = None"
proof -
  let ?s = "bq_redis st"
  note inv = bq_invD(1) [OF assms(1)] and b = bq_invD(3) [OF assms(1)]
  obtain json where "aFD (fabs D ?s) (getShardForQueue D q) m = Some json"
    using assms(2) by (auto simp: getMessageData_def inflight_stored_def batchFairQueue_def fabs_defs read_views split: option.splits if_splits)
  note f = inflight_facts [OF fq_invD(1) [OF inv] this]
  show "good_id m" and "aI (fabs D ?s) q m = None" and "aDD (fabs D ?s) t m = None" using f assms(3) by simp_all
  obtain y where y: "data_of home ?s m = Some y" "b_parse bd y = Some x" using inflight_data [OF inv assms(2)] assms(3) by blast
  show c: "carries item m p" using binvD(1) [OF b y(1)] y(2) assms(4) by (auto simp: text_ok_def)
  show k: "known item (h_started (bq_history st)) (tracker bd ?s) m" by (rule binvD(2) [OF b y(1)])
  show "batch_id_ok (ip_batchId p)" using c k by (simp add: carries_def known_def)
qed

text \<open>A message in flight is gone once it is completed, and the tracker stays as it is.\<close>

lemma complete_removes:
  assumes "fq_inv D home (fabs D (fqs_redis f))" and "good_id m" and "home m = q" and "aI (fabs D (fqs_redis f)) q m = None"
    and "\<And>t. aDD (fabs D (fqs_redis f)) t m = None"
  shows "msg_phase_of D home (fabs D (fqs_redis (complete_item bd m q f))) m = MAbsent"
proof -
  let ?f = "complete_item bd m q f"
  note e = complete_effect [OF assms(1-3)]
  have "data_of home (fqs_redis ?f) m = None" using e(2) assms(4) by simp
  then have "aI (fabs D (fqs_redis ?f)) (home m) m = None" "aFD (fabs D (fqs_redis ?f)) (getShardForQueue D (home m)) m = None"
    by (auto simp: msg_data_def split: option.splits)
  moreover have "aDD (fabs D (fqs_redis ?f)) t m = None" for t using e(5) assms(5) by simp
  ultimately show ?thesis by (rule phase_absent [OF fq_invD(1) [OF e(1)]])
qed

lemma outcome_recorded:
  assumes "counted (tabs bd s (ip_batchId p))" and "recordable bd p outcome"
  shows "fst (recordOutcome bd now p outcome s) \<noteq> Inl e"
proof -
  have s: "\<exists>y. serializePayload (b_tracer bd) (bi_payload (ip_item p)) = Inr y" if "\<And>runId. outcome \<noteq> ItemSuccess runId"
    using assms(2) that by (auto simp: recordable_def serializePayload_def split: option.split payload_value.split item_outcome.splits)
  note rf = recordFailure_effect(1) [OF assms(1), of now]
  show ?thesis
  proof (cases outcome)
    case (ItemSuccess runId)
    then show ?thesis using recordSuccess_effect(1) [OF assms(1), of runId "ip_itemIndex p"] by (auto simp: recordOutcome_def split: prod.splits sum.splits)
  next
    case (ItemFailure err code)
    then obtain y where "serializePayload (b_tracer bd) (bi_payload (ip_item p)) = Inr y" using s by auto
    then show ?thesis using ItemFailure rf [of "failure_of p y err code"] by (auto simp: recordOutcome_def split: prod.splits sum.splits)
  next
    case (ItemThrew err)
    then show ?thesis using s rf by (auto simp: recordOutcome_def recordUnexpected_def)
  qed
qed

lemma handler_outcome:
  assumes "bq_inv home item st" and "getMessageData (batchFairQueue bd (bq_redis st)) m q (bq_redis st) = Some x" and "q = home m"
    and "b_getItem bd (sm_payload x) = Some p" and "getMeta bd (ip_batchId p) (bq_redis st) = Inr (Some meta)"
    and "recordable bd p (callback p meta)" and "accepting onComplete"
    and "n = int (card (insert (int_to_string (ip_itemIndex p)) (t_done (tracker bd (bq_redis st) (ip_batchId p)))))"
    and "handleMessage bd now (Some callback) onComplete m q (bq_fq st) = (r, f)"
  shows "msg_phase_of D home (fabs D (fqs_redis f)) m = MAbsent"
    and "n = bm_runCount meta \<Longrightarrow> \<exists>result. r = Inr (Some result) \<and> int (cr_successfulRunCount result + cr_failedRunCount result) \<le> n
      \<and> getMeta bd (ip_batchId p) (fqs_redis f) = Inr None"
    and "n \<noteq> bm_runCount meta \<Longrightarrow> r = Inr None \<and> getProcessedCount bd (ip_batchId p) (fqs_redis f) = Some n
      \<and> getMeta bd (ip_batchId p) (fqs_redis f) = Inr (Some meta)"
proof -
  let ?B = "ip_batchId p" and ?i = "int_to_string (ip_itemIndex p)" and ?s = "bq_redis st"
  note inv = bq_invD(1) [OF assms(1)] and b = bq_invD(3) [OF assms(1)]
  note m = popped_facts [OF assms(1-4)]
  note B = m(4) and at = tracker_at [OF m(4)]
  have ok: "batch_ok bd (tracker bd ?s ?B)" by (rule binvD(4) [OF b])
  then have cnt: "counted (tabs bd ?s ?B)" by (simp add: batch_ok_def at)
  have meta: "t_meta (tracker bd ?s ?B) = Some (b_putMeta bd meta)" by (rule getMeta_live(2) [OF B assms(5) ok])
  obtain t' where t': "records bd ?i (tabs bd ?s ?B) t'"
      "fst (recordOutcome bd now p (callback p meta) ?s) = Inr (Some (int (card (t_done t'))))"
      "tabs bd (snd (recordOutcome bd now p (callback p meta) ?s)) = (tabs bd ?s)(?B := t')"
    using outcome_effect [OF cnt, of now "callback p meta"] outcome_recorded [OF cnt assms(6), of now] by fastforce
  note rf = records_fields [OF t'(1)]
  have n: "n = int (card (t_done t'))" using rf(1) by (simp add: assms(8) at)
  define s1 where "s1 = snd (recordOutcome bd now p (callback p meta) ?s)"
  define g where "g = (bq_fq st)\<lparr>fqs_redis := s1\<rparr>"
  define f1 where "f1 = complete_item bd m q g"
  have rec: "recordOutcome bd now p (callback p meta) ?s = (Inr (Some n), s1)"
    using t'(2) n by (cases "recordOutcome bd now p (callback p meta) ?s") (simp add: s1_def)
  have rf': "(r, f) = (if n = bm_runCount meta then (fst (finalizeBatch bd onComplete ?B (fqs_redis f1)), f1\<lparr>fqs_redis := snd (finalizeBatch bd onComplete ?B (fqs_redis f1))\<rparr>)
      else (Inr None, f1))"
    using assms(2,4,5,9) rec by (simp add: handleMessage_def g_def f1_def case_prod_beta Let_def split: if_splits)
  have same: "fabs D (fqs_redis g) = fabs D ?s" using fkept_outcome [OF B, of now "callback p meta" ?s] by (simp add: g_def s1_def fkept_def)
  note e = complete_effect [of home g m q, unfolded same, OF inv m(1) assms(3) [symmetric]]
  have T: "tracker bd (fqs_redis f1) = (tracker bd ?s)(?B := t')"
    using e(3) tracker_upd [OF B t'(3)] by (simp add: f1_def g_def s1_def)
  have gone: "msg_phase_of D home (fabs D (fqs_redis f1)) m = MAbsent"
    unfolding f1_def by (rule complete_removes) (use inv m assms(3) same in simp_all)
  have ok': "batch_ok bd t'" using records_ok [OF t'(1)] ok m(2,3) meta by (auto simp: at known_def carries_def live_def)
  show "msg_phase_of D home (fabs D (fqs_redis f)) m = MAbsent"
  proof (cases "n = bm_runCount meta")
    case True
    then have f: "f = f1\<lparr>fqs_redis := cleanup bd ?B (fqs_redis f1)\<rparr>"
      using rf' finalize_accepting [OF assms(7) _ B, of "fqs_redis f1"] T ok' by auto
    have "fabs D (fqs_redis f) = fabs D (fqs_redis f1)" using fkept_cleanup [OF B, of "fqs_redis f1"] by (simp add: f fkept_def)
    then show ?thesis using gone by simp
  qed (use rf' gone in simp)
  show "\<exists>result. r = Inr (Some result) \<and> int (cr_successfulRunCount result + cr_failedRunCount result) \<le> n \<and> getMeta bd ?B (fqs_redis f) = Inr None"
    if "n = bm_runCount meta"
  proof -
    obtain result where result: "finalizeBatch bd onComplete ?B (fqs_redis f1) = (Inr (Some result), cleanup bd ?B (fqs_redis f1))"
        "getCompletionResult bd ?B (fqs_redis f1) = Inr result"
      using finalize_accepting [OF assms(7) _ B, of "fqs_redis f1"] T ok' by auto
    have "cr_successfulRunCount result + cr_failedRunCount result = card (dom (t_runs t')) + length (t_failures t')"
      using result_readable [of "fqs_redis f1" ?B] T ok' B result(2) by auto
    also have "\<dots> \<le> card (t_done t')" using ok' by (simp add: batch_ok_def)
    finally show ?thesis using rf' that result(1) n cleanup_gone by auto
  qed
  show "r = Inr None \<and> getProcessedCount bd ?B (fqs_redis f) = Some n \<and> getMeta bd ?B (fqs_redis f) = Inr (Some meta)" if "n \<noteq> bm_runCount meta"
    using rf' that count_tracker [OF B, of "fqs_redis f1"] getMeta_stored [OF B, of "fqs_redis f1" meta] T ok' n meta rf(2) by (simp add: at)
qed

lemma missing_discards:
  assumes "bq_inv home item st" and "bq_phase st c = Missing m q"
    and "getMessageData (batchFairQueue bd (bq_redis st)) m q (bq_redis st) = Some x" and "b_getItem bd (sm_payload x) = Some p"
  shows "msg_phase_of D home (fabs D (bq_redis st)) m \<in> range MInFlight"
    and "msg_phase_of D home (fabs D (fqs_redis (snd (consumer_move bd now outcome onComplete (bq_phase st c) (bq_fq st))))) m = MAbsent"
    and "tracker bd (fqs_redis (snd (consumer_move bd now outcome onComplete (bq_phase st c) (bq_fq st)))) = tracker bd (bq_redis st)"
proof -
  note inv = bq_invD(1) [OF assms(1)]
  have q: "q = home m" using binvD(3) [OF bq_invD(3) [OF assms(1)], of c] assms(2) by simp
  note m = popped_facts [OF assms(1,3) q assms(4)]
  have "aFD (fabs D (bq_redis st)) (getShardForQueue D (home m)) m \<noteq> None"
    using assms(3) q by (auto simp: getMessageData_def inflight_stored_def batchFairQueue_def fabs_defs read_views split: option.splits if_splits)
  then show "msg_phase_of D home (fabs D (bq_redis st)) m \<in> range MInFlight" by (rule phase_inflight [OF fq_invD(1) [OF inv]])
  show "msg_phase_of D home (fabs D (fqs_redis (snd (consumer_move bd now outcome onComplete (bq_phase st c) (bq_fq st))))) m = MAbsent"
    using complete_removes [OF inv m(1) q [symmetric] m(5,6)] assms(2) by simp
  show "tracker bd (fqs_redis (snd (consumer_move bd now outcome onComplete (bq_phase st c) (bq_fq st)))) = tracker bd (bq_redis st)"
    using complete_effect(3) [OF inv m(1) q [symmetric]] assms(2) by simp
qed

text \<open>The same in terms of the queries.\<close>

lemma missing_loses:
  assumes "bq_inv home item st" and "bq_phase st c = Missing m q"
    and "getMessageData (batchFairQueue bd (bq_redis st)) m q (bq_redis st) = Some x" and "b_getItem bd (sm_payload x) = Some p"
  shows "msg_phase_of D home (fabs D (bq_redis st)) m \<in> range MInFlight
    \<and> msg_phase_of D home (fabs D (fqs_redis (snd (consumer_move bd now outcome onComplete (bq_phase st c) (bq_fq st))))) m = MAbsent
    \<and> getProcessedCount bd (ip_batchId p) (fqs_redis (snd (consumer_move bd now outcome onComplete (bq_phase st c) (bq_fq st))))
        = getProcessedCount bd (ip_batchId p) (bq_redis st)"
proof -
  let ?s = "fqs_redis (snd (consumer_move bd now outcome onComplete (bq_phase st c) (bq_fq st)))"
  note d = missing_discards [OF assms]
  have q: "q = home m" using binvD(3) [OF bq_invD(3) [OF assms(1)], of c] assms(2) by simp
  note B = popped_facts(4) [OF assms(1,3) q assms(4)] and ok = binvD(4) [OF bq_invD(3) [OF assms(1)], of "ip_batchId p"]
  have "getProcessedCount bd (ip_batchId p) ?s = getProcessedCount bd (ip_batchId p) (bq_redis st)"
    using count_tracker [OF B, of ?s] count_tracker [OF B, of "bq_redis st"] d(3) [of now outcome onComplete] ok by simp
  then show ?thesis using d by blast
qed

subsection \<open>Enqueueing once\<close>

lemma enqueue_again:
  assumes "getMeta bd B (fqs_redis f) = Inr (Some meta)" and "isItemEnqueued bd B i (fqs_redis f)"
    and "enqueueBatchItem bd now nano B E i x f = (r, f')"
  shows "r = Inr False" and "rview (b_srv bd) (fqs_redis f') = rview (b_srv bd) (fqs_redis f)" and "fqs_sched f' = fqs_sched f"
  using assms by (auto simp: enqueueBatchItem_def isItemEnqueued_def markItemEnqueued_def sADD_view read_views insert_absorb Let_def)

lemma enqueue_first:
  assumes "getMeta bd B (fqs_redis f) = Inr (Some meta)" and "\<not> isItemEnqueued bd B i (fqs_redis f)" and "batch_id_ok B"
    and "good_id nano" and "home nano = makeQueueId E B" and "enqueueBatchItem bd now nano B E i x f = (r, f')"
  shows "r = Inr True" and "isItemEnqueued bd B i (fqs_redis f')"
    and "msg_phase_of D home (fabs D (fqs_redis f')) nano = MQueued (bm_createdAt meta + i)"
proof -
  define s where "s = snd (markItemEnqueued bd B i (fqs_redis f))"
  let ?g = "f\<lparr>fqs_redis := s\<rparr>"
  let ?e = "fq_enqueue (batchFairQueue bd s) now nano (item_options bd meta B E i x) ?g"
  have new: "fst (markItemEnqueued bd B i (fqs_redis f))" using assms(2) by (simp add: markItemEnqueued_def isItemEnqueued_def Let_def)
  have acc: "\<exists>y. fst ?e = Inr y" by (simp add: fq_enqueue_def Let_def batchFairQueue_def batchCore_def)
  then show "r = Inr True" using assms(1,6) new by (auto simp: enqueueBatchItem_def case_prod_beta Let_def s_def split: sum.splits prod.splits)
  have f': "f' = snd ?e"
    using assms(1,6) new by (auto simp: enqueueBatchItem_def case_prod_beta Let_def s_def split: sum.splits prod.splits)
  have "fabs D (fqs_redis f') = a_enqueue (getShardForQueue D (home nano)) (home nano) nano (bm_createdAt meta + i) (item_text s nano meta B E i x) (fabs D s)"
    using fair_enqueue_abs [where home = home, OF assms(5), of ?g now meta i x] f' by simp
  then show "msg_phase_of D home (fabs D (fqs_redis f')) nano = MQueued (bm_createdAt meta + i)"
    using assms(4) by (simp add: msg_phase_of_def a_enqueue_def)
  have "bkept (fqs_redis f') = bkept s"
    using bkept_enqueue [of "[env_group bd s]" now nano "item_options bd meta B E i x" ?g] f' by (simp add: batchFairQueue_def)
  then have "tracker bd (fqs_redis f') B = tracker bd s B" using bkept_tracker by metis
  then show "isItemEnqueued bd B i (fqs_redis f')"
    using tabs_mark [of B i "fqs_redis f"] by (simp add: query_views_batch(3) [OF assms(3)] tracker_at [OF assms(3)] s_def)
qed

end

end
