(* ===== verification/Batch_Properties.thy ===== *)
theory Batch_Properties
  imports Batch_Handler Fair_Queue_Properties
begin

text \<open>
  What the batch queue guarantees, over every server and codecs that obey the laws; the reference server with
  executable codecs is an instance, on which the witnesses run.
\<close>

subsection \<open>An instance\<close>

definition demo_putMeta :: "batch_meta \<Rightarrow> string" where
  "demo_putMeta m = put_fields [bm_batchId m, bm_friendlyId m, bm_environmentId m, type_string (bm_environmentType m),
     bm_organizationId m, bm_projectId m, int_to_string (bm_runCount m), int_to_string (bm_createdAt m), option_string (bm_parentRunId m),
     option_string (map_option bool_string (bm_resumeParentOnCompletion m)), option_string (bm_triggerVersion m),
     option_string (bm_traceContext m), option_string (map_option bool_string (bm_spanParentAsLink m)),
     option_string (bm_realtimeStreamsVersion m), option_string (bm_idempotencyKey m),
     option_string (map_option int_to_string (bm_processingConcurrency m)), option_string (bm_planType m)]"

definition demo_getMeta :: "string \<Rightarrow> batch_meta option" where
  "demo_getMeta s =
     (case get_fields s of
        [b, f, e, ty, org, proj, n, t, par, res, ver, trace, link, str, idem, conc, plan] \<Rightarrow>
          (case (string_type ty, int_of_string n, int_of_string t) of
             (Some ty, Some n, Some t) \<Rightarrow> Some \<lparr>bm_batchId = b, bm_friendlyId = f, bm_environmentId = e, bm_environmentType = ty,
               bm_organizationId = org, bm_projectId = proj, bm_runCount = n, bm_createdAt = t, bm_parentRunId = string_option par,
               bm_resumeParentOnCompletion = map_option string_bool (string_option res), bm_triggerVersion = string_option ver,
               bm_traceContext = string_option trace, bm_spanParentAsLink = map_option string_bool (string_option link),
               bm_realtimeStreamsVersion = string_option str, bm_idempotencyKey = string_option idem,
               bm_processingConcurrency = map_option (\<lambda>s. the (int_of_string s)) (string_option conc), bm_planType = string_option plan\<rparr>
           | _ \<Rightarrow> None)
      | _ \<Rightarrow> None)"

fun value_fields :: "payload_value option \<Rightarrow> string" where
  "value_fields None = []"
| "value_fields (Some (PText t)) = CHR ''t'' # t"
| "value_fields (Some (PJson t)) = CHR ''j'' # t"

fun fields_value :: "string \<Rightarrow> payload_value option" where
  "fields_value [] = None"
| "fields_value (c # cs) = Some (if c = CHR ''t'' then PText cs else PJson cs)"

definition demo_putItem :: "batch_item_payload \<Rightarrow> string" where
  "demo_putItem p = put_fields [ip_batchId p, ip_friendlyId p, int_to_string (ip_itemIndex p), bi_task (ip_item p),
     value_fields (bi_payload (ip_item p)), option_string (bi_payloadType (ip_item p)), option_string (bi_options (ip_item p))]"

definition demo_getItem :: "string \<Rightarrow> batch_item_payload option" where
  "demo_getItem s =
     (case get_fields s of
        [b, f, i, task, v, ty, opts] \<Rightarrow>
          (case int_of_string i of
             None \<Rightarrow> None
           | Some i \<Rightarrow> Some \<lparr>ip_batchId = b, ip_friendlyId = f, ip_itemIndex = i, ip_item = \<lparr>bi_task = task, bi_payload = fields_value v,
               bi_payloadType = string_option ty, bi_options = string_option opts\<rparr>\<rparr>)
      | _ \<Rightarrow> None)"

definition demo_putFailure :: "batch_item_failure \<Rightarrow> string" where
  "demo_putFailure f = put_fields [int_to_string (bf_index f), bf_taskIdentifier f, option_string (bf_payload f), option_string (bf_options f),
     bf_error f, option_string (bf_errorCode f), int_to_string (bf_timestamp f)]"

definition demo_getFailure :: "string \<Rightarrow> batch_item_failure option" where
  "demo_getFailure s =
     (case get_fields s of
        [i, task, p, opts, e, code, t] \<Rightarrow>
          (case (int_of_string i, int_of_string t) of
             (Some i, Some t) \<Rightarrow> Some \<lparr>bf_index = i, bf_taskIdentifier = task, bf_payload = string_option p, bf_options = string_option opts,
               bf_error = e, bf_errorCode = string_option code, bf_timestamp = t\<rparr>
           | _ \<Rightarrow> None)
      | _ \<Rightarrow> None)"

lemma fields_value_fields [simp]: "fields_value (value_fields v) = v"
  by (cases v rule: value_fields.cases) simp_all

lemma demo_batch_codec:
  "demo_getMeta (demo_putMeta m) = Some m" "demo_putMeta m \<noteq> []" "demo_getItem (demo_putItem p) = Some p" "demo_getFailure (demo_putFailure f) = Some f"
  by (simp_all add: demo_getMeta_def demo_putMeta_def demo_getItem_def demo_putItem_def demo_getFailure_def demo_putFailure_def
      put_fields_nonempty option.map_comp comp_def option.map_ident)

definition demo_batch :: "bool \<Rightarrow> store batch_deps" where
  "demo_batch tracer = \<lparr>b_srv = mem_redis, b_prefix = [], b_fl = (\<lambda>q. q), b_pow = (\<lambda>b n. b ^ nat n), b_sha = (\<lambda>_. replicate 32 7),
     b_stringify = demo_stringify, b_parse = demo_parse, b_dlqStringify = demo_dlqStringify, b_dlqParse = demo_dlqParse,
     b_putMeta = demo_putMeta, b_getMeta = demo_getMeta, b_putFailure = demo_putFailure, b_getFailure = demo_getFailure,
     b_putItem = demo_putItem, b_getItem = demo_getItem, b_defaultConcurrency = 10, b_shardCount = 1, b_drr = demo_drr, b_tracer = tracer\<rparr>"

interpretation demo_bq: batch_server "demo_batch tracer" for tracer
proof (intro batch_server.intro batch_server_axioms.intro)
  show "redis_server (b_srv (demo_batch tracer))" by (simp add: demo_batch_def mem.redis_server_axioms)
qed (simp_all add: demo_batch_def demo_batch_codec demo_codec)

text \<open>A batch of one item; its message is enqueued, passed to the worker queue and popped by a consumer.\<close>

definition demo_queue :: "string \<Rightarrow> string" where
  "demo_queue m = makeQueueId ''e1'' ''b1''"

definition demo_item :: "string \<Rightarrow> string \<times> int" where
  "demo_item m = (''b1'', 0)"

definition demo_init :: init_batch_options where
  "demo_init = \<lparr>io_batchId = ''b1'', io_friendlyId = ''batch_1'', io_environmentId = ''e1'', io_environmentType = PRODUCTION,
     io_organizationId = ''o1'', io_projectId = ''p1'', io_runCount = 1, io_parentRunId = None, io_resumeParentOnCompletion = None,
     io_triggerVersion = None, io_traceContext = None, io_spanParentAsLink = None, io_realtimeStreamsVersion = None,
     io_idempotencyKey = None, io_processingConcurrency = None, io_planType = Some ''free''\<rparr>"

definition bq0 :: "(store, unit) bq_state" where
  "bq0 = \<lparr>bq_fq = demo_start, bq_phase = (\<lambda>_. Idle), bq_history = \<lparr>h_started = {}, h_dropped = {}, h_failed = {}\<rparr>\<rparr>"

definition bq_inited :: "bool \<Rightarrow> (store, unit) bq_state" where
  "bq_inited tr = bq0\<lparr>bq_fq := (bq_fq bq0)\<lparr>fqs_redis := initializeBatch (demo_batch tr) 100 demo_init (bq_redis bq0)\<rparr>,
      bq_history := (bq_history bq0)\<lparr>h_started := insert ''b1'' (h_started (bq_history bq0))\<rparr>\<rparr>"

definition bq_enqueued :: "bool \<Rightarrow> (store, unit) bq_state" where
  "bq_enqueued tr = (bq_inited tr)\<lparr>bq_fq := snd (enqueueBatchItem (demo_batch tr) 110 ''m1'' ''b1'' ''e1'' 0
     \<lparr>bi_task = ''t'', bi_payload = None, bi_payloadType = None, bi_options = None\<rparr> (bq_fq (bq_inited tr)))\<rparr>"

definition bq_passed :: "bool \<Rightarrow> time \<Rightarrow> (store, unit) bq_state \<Rightarrow> (store, unit) bq_state" where
  "bq_passed tr now st = st\<lparr>bq_fq := snd (fq_processMasterQueueShard (batchFairQueue (demo_batch tr) (bq_redis st))
     (batchScheduler (demo_batch tr) (bq_redis st)) now ''loop'' 0 (bq_fq st))\<rparr>"

definition bq_moved :: "bool \<Rightarrow> time \<Rightarrow> item_outcome \<Rightarrow> completion_callback option \<Rightarrow> nat \<Rightarrow> (store, unit) bq_state \<Rightarrow> (store, unit) bq_state" where
  "bq_moved tr now outcome cb c st =
     (let (x, f) = consumer_move (demo_batch tr) now outcome cb (bq_phase st c) (bq_fq st)
      in st\<lparr>bq_fq := f, bq_phase := (bq_phase st)(c := x),
        bq_history := after_move (demo_batch tr) cb (bq_phase st c) (bq_redis st) (bq_history st)\<rparr>)"

abbreviation demo_reachable :: "bool \<Rightarrow> (store, unit) bq_state \<Rightarrow> bool" where
  "demo_reachable tr \<equiv> bq_reachable (demo_batch tr) demo_queue demo_item"

lemma reach_passed: "demo_reachable tr st \<Longrightarrow> demo_reachable tr (bq_passed tr now st)"
  unfolding bq_passed_def by (rule bq_more [OF _ bs_pass [OF surjective_pairing]])

lemma reach_moved: "demo_reachable tr st \<Longrightarrow> demo_reachable tr (bq_moved tr now outcome cb c st)"
  unfolding bq_moved_def Let_def case_prod_beta by (rule bq_more [OF _ bs_consume [OF surjective_pairing]])

lemma reach_inited: "demo_reachable tr (bq_inited tr)"
proof -
  have "bq_fresh (demo_batch tr) bq0"
    by (simp add: bq_fresh_def bq0_def fq_fresh_def demo_start_def demo_batch_def mem_redis_defs empty_store_def)
  from bq_more [OF bq_start [OF this] bs_init [where opts = demo_init and now = 100]] show ?thesis
    by (simp add: bq_inited_def demo_init_def bq0_def batch_id_ok_def)
qed

lemma reach_enqueued: "demo_reachable tr (bq_enqueued tr)"
proof -
  have u: "unused_id (batchCore (demo_batch tr)) demo_queue ''m1'' (bq_redis (bq_inited tr))"
    by (simp add: unused_id_def demo_batch_def mem_redis_defs bq_inited_def bq0_def demo_start_def empty_store_def initializeBatch_def
        storeMeta_def storeEnvConcurrency_def demo_init_def Let_def)
  show ?thesis
    unfolding bq_enqueued_def
    by (rule bq_more [OF reach_inited bs_enqueue [OF surjective_pairing _ _ _ _ _ u]])
      (simp_all add: good_id_def demo_queue_def demo_item_def batch_id_ok_def)
qed

definition bq_flying :: "bool \<Rightarrow> (store, unit) bq_state" where
  "bq_flying tr = bq_passed tr 200 (bq_enqueued tr)"

definition bq_popped :: "bool \<Rightarrow> (store, unit) bq_state" where
  "bq_popped tr = bq_moved tr 210 (ItemSuccess ''r1'') None 0 (bq_flying tr)"

lemma reach_popped: "demo_reachable tr (bq_popped tr)"
  unfolding bq_popped_def bq_flying_def by (intro reach_moved reach_passed reach_enqueued)

definition demo_payload :: batch_item_payload where
  "demo_payload = \<lparr>ip_batchId = ''b1'', ip_friendlyId = ''batch_1'', ip_itemIndex = 0,
     ip_item = \<lparr>bi_task = ''t'', bi_payload = None, bi_payloadType = None, bi_options = None\<rparr>\<rparr>"

definition demo_stored :: stored_message where
  "demo_stored = stored_of (batchCore (demo_batch False)) ''m1'' (demo_queue ''m1'') ''e1'' (demo_putItem demo_payload) 100
     (Some [(''batchId'', ''b1''), (''friendlyId'', ''batch_1''), (''envId'', ''e1'')])"

record demo_view =
  dv_message :: "stored_message option"
  dv_meta :: "batch_error + batch_meta option"
  dv_count :: "int option"
  dv_enqueued :: bool
  dv_failed :: bool
  dv_phase :: consumer_phase

definition demo_view :: "bool \<Rightarrow> (store, unit) bq_state \<Rightarrow> demo_view" where
  "demo_view tr st = \<lparr>dv_message = getMessageData (batchFairQueue (demo_batch tr) (bq_redis st)) ''m1'' (demo_queue ''m1'') (bq_redis st),
     dv_meta = getMeta (demo_batch tr) ''b1'' (bq_redis st), dv_count = getProcessedCount (demo_batch tr) ''b1'' (bq_redis st),
     dv_enqueued = isItemEnqueued (demo_batch tr) ''b1'' 0 (bq_redis st), dv_failed = (''b1'' \<in> h_failed (bq_history st)), dv_phase = bq_phase st 0\<rparr>"

lemma popped_state: "demo_view False (bq_popped False) = \<lparr>dv_message = Some demo_stored, dv_meta = Inr (Some (meta_of 100 demo_init)), dv_count = Some 0,
     dv_enqueued = True, dv_failed = False, dv_phase = Popped ''m1'' (demo_queue ''m1'')\<rparr>"
  by code_simp

lemma popped_state_traced: "demo_view True (bq_popped True) = \<lparr>dv_message = Some demo_stored, dv_meta = Inr (Some (meta_of 100 demo_init)), dv_count = Some 0,
     dv_enqueued = True, dv_failed = False, dv_phase = Popped ''m1'' (demo_queue ''m1'')\<rparr>"
  by code_simp

text \<open>Three more calls record the item.\<close>

definition bq_recorded :: "(store, unit) bq_state" where
  "bq_recorded = bq_moved False 240 (ItemSuccess ''r1'') None 0 (bq_moved False 230 (ItemSuccess ''r1'') None 0
     (bq_moved False 220 (ItemSuccess ''r1'') None 0 (bq_popped False)))"

lemma reach_recorded: "demo_reachable False bq_recorded"
  unfolding bq_recorded_def by (intro reach_moved reach_popped)

lemma recorded_state: "demo_view False bq_recorded = \<lparr>dv_message = Some demo_stored, dv_meta = Inr (Some (meta_of 100 demo_init)), dv_count = Some 1,
     dv_enqueued = True, dv_failed = False, dv_phase = Recorded ''m1'' (demo_queue ''m1'') demo_payload (meta_of 100 demo_init) (Some 1)\<rparr>"
  by code_simp

text \<open>Or the message times out before the consumer reads it, and is handed out again after the consumer did.\<close>

definition bq_reclaimed :: "time \<Rightarrow> (store, unit) bq_state \<Rightarrow> (store, unit) bq_state" where
  "bq_reclaimed now st = st\<lparr>bq_fq := (bq_fq st)\<lparr>fqs_redis := reclaimTimedOutMessages (batchFairQueue (demo_batch False) (bq_redis st)) now (bq_redis st)\<rparr>\<rparr>"

lemma reach_reclaimed: "demo_reachable False st \<Longrightarrow> demo_reachable False (bq_reclaimed now st)"
  unfolding bq_reclaimed_def by (rule bq_more [OF _ bs_reclaim])

definition bq_raced :: "(store, unit) bq_state" where
  "bq_raced = bq_passed False 60300 (bq_moved False 60250 (ItemSuccess ''r1'') None 0 (bq_reclaimed 60201 (bq_popped False)))"

lemma reach_raced: "demo_reachable False bq_raced"
  unfolding bq_raced_def by (intro reach_passed reach_moved reach_reclaimed reach_popped)

lemma raced_state: "demo_view False bq_raced = \<lparr>dv_message = Some demo_stored, dv_meta = Inr (Some (meta_of 100 demo_init)), dv_count = Some 0,
     dv_enqueued = True, dv_failed = False, dv_phase = Missing ''m1'' (demo_queue ''m1'')\<rparr>"
  by code_simp

lemma batch_queue_done:
  assumes "batch_server bd" and "bq_reachable bd home item st" and "batch_id_ok B" and "getProcessedCount bd B (bq_redis st) = Some 0"
  shows "{y. sISMEMBER (b_srv bd) (bk bd (processedItemsKey B)) y (bq_redis st)} = {}"
  using batch_server.count_tracker [OF assms(1,3) binvD(4) [OF batch_server.bq_invD(3) [OF assms(1) batch_server.bq_reachable_inv [OF assms(1,2)]]]]
    assms(4) batch_server.tracker_at [OF assms(1,3)] batch_server.finite_tracked(1) [OF assms(1)]
  by (simp add: batch_server.query_views_batch(1) [OF assms(1,3)])

subsection \<open>Invariant\<close>

text \<open>C28. In every state that producers, the fair queue and any number of interleaved consumers reach, a batch whose
  metadata is there has a processed count that is the number of its processed items; these were all
  enqueued; its runs and failures are no more than its processed items; and every item that was enqueued is
  processed, or its message is still in the fair queue, or a consumer discarded that message as missing
  while it was in flight.\<close>

theorem batch_queue_invariant:
  assumes "batch_server bd" and "bq_reachable bd home item st" and "batch_id_ok B" and "getMeta bd B (bq_redis st) = Inr (Some meta)"
  shows "\<exists>pr. getBatchProgress bd B (bq_redis st) = Inr pr
    \<and> pr_processedCount pr = Some (int (card {x. sISMEMBER (b_srv bd) (bk bd (processedItemsKey B)) x (bq_redis st)}))
    \<and> {x. sISMEMBER (b_srv bd) (bk bd (processedItemsKey B)) x (bq_redis st)} \<subseteq> {x. sISMEMBER (b_srv bd) (bk bd (enqueuedItemsKey B)) x (bq_redis st)}
    \<and> pr_successCount pr + pr_failureCount pr \<le> card {x. sISMEMBER (b_srv bd) (bk bd (processedItemsKey B)) x (bq_redis st)}
    \<and> (\<forall>i. isItemEnqueued bd B i (bq_redis st) \<longrightarrow>
         sISMEMBER (b_srv bd) (bk bd (processedItemsKey B)) (int_to_string i) (bq_redis st)
         \<or> (\<exists>m. item m = (B, i) \<and> (msg_phase_of (batchCore bd) home (fabs (batchCore bd) (bq_redis st)) m \<noteq> MAbsent
              \<or> m \<in> h_dropped (bq_history st))))"
  using batch_server.batch_facts [OF assms] .

theorem batch_queue_invariant_witness:
  "\<exists>pr. getBatchProgress (demo_batch False) ''b1'' (bq_redis (bq_popped False)) = Inr pr
    \<and> pr_processedCount pr = Some (int (card {x. sISMEMBER mem_redis (bk (demo_batch False) (processedItemsKey ''b1'')) x (bq_redis (bq_popped False))}))"
  using batch_queue_invariant [OF demo_bq.batch_server_axioms reach_popped, of "''b1''" False] popped_state
  by (fastforce simp: demo_view_def batch_id_ok_def demo_batch_def)

subsection \<open>Liveness\<close>

text \<open>C29. A batch whose processed items are as many as its runs is finalised: some consumer is already past the
  recording that completed it, and three uninterrupted calls of that consumer report the batch and remove its
  metadata, provided the completion callback does not throw now and has not thrown for this batch before.\<close>

theorem complete_batch_is_finalised:
  assumes "batch_server bd" and "bq_reachable bd home item st" and "batch_id_ok B"
    and "getMeta bd B (bq_redis st) = Inr (Some meta)" and "getProcessedCount bd B (bq_redis st) = Some n"
    and "0 < bm_runCount meta" and "bm_runCount meta \<le> n" and "B \<notin> h_failed (bq_history st)" and "accepting onComplete"
  shows "\<exists>c f. (uninterrupted bd now outcome onComplete ^^ 3) (bq_phase st c, bq_fq st) = (Idle, f)
    \<and> getMeta bd B (fqs_redis f) = Inr None"
  using batch_server.batch_finishes [OF assms] .

theorem complete_batch_is_finalised_witness:
  "\<exists>c f. (uninterrupted (demo_batch False) 250 (ItemThrew ''x'') None ^^ 3) (bq_phase bq_recorded c, bq_fq bq_recorded) = (Idle, f)
    \<and> getMeta (demo_batch False) ''b1'' (fqs_redis f) = Inr None"
proof (rule complete_batch_is_finalised [OF demo_bq.batch_server_axioms reach_recorded])
  show "getMeta (demo_batch False) ''b1'' (bq_redis bq_recorded) = Inr (Some (meta_of 100 demo_init))"
    and "getProcessedCount (demo_batch False) ''b1'' (bq_redis bq_recorded) = Some 1"
    and "''b1'' \<notin> h_failed (bq_history bq_recorded)"
    using recorded_state by (simp_all add: demo_view_def)
qed (simp_all add: batch_id_ok_def accepting_def meta_of_def demo_init_def)

subsection \<open>One message\<close>

text \<open>C30. A handler that runs to its end on a message in flight removes the message and counts its item once. When
  the count is the batch's run count it finalises the batch: it reports no more outcomes than items and the
  metadata is gone. Otherwise it reports nothing, the metadata stays and the new count is stored.\<close>

theorem handled_message_counts_once:
  assumes "batch_server bd" and "bq_reachable bd home item st"
    and "getMessageData (batchFairQueue bd (bq_redis st)) m (home m) (bq_redis st) = Some x"
    and "b_getItem bd (sm_payload x) = Some p" and "getMeta bd (ip_batchId p) (bq_redis st) = Inr (Some meta)"
    and "recordable bd p (callback p meta)" and "accepting onComplete"
    and "n = int (card (insert (int_to_string (ip_itemIndex p)) {y. sISMEMBER (b_srv bd) (bk bd (processedItemsKey (ip_batchId p))) y (bq_redis st)}))"
    and "handleMessage bd now (Some callback) onComplete m (home m) (bq_fq st) = (r, f)"
  shows "msg_phase_of (batchCore bd) home (fabs (batchCore bd) (fqs_redis f)) m = MAbsent
    \<and> (if n = bm_runCount meta
       then (\<exists>result. r = Inr (Some result) \<and> int (cr_successfulRunCount result + cr_failedRunCount result) \<le> n)
         \<and> getMeta bd (ip_batchId p) (fqs_redis f) = Inr None
       else r = Inr None \<and> getProcessedCount bd (ip_batchId p) (fqs_redis f) = Some n
         \<and> getMeta bd (ip_batchId p) (fqs_redis f) = Inr (Some meta))"
proof -
  note inv = batch_server.bq_reachable_inv [OF assms(1,2)]
  note B = batch_server.popped_facts(4) [OF assms(1) inv assms(3) refl assms(4)]
  note h = batch_server.handler_outcome [OF assms(1) inv assms(3) refl assms(4-7)
      assms(8) [unfolded batch_server.query_views_batch(1) [OF assms(1) B]] assms(9)]
  show ?thesis using h by (cases "n = bm_runCount meta") auto
qed

theorem handled_message_counts_once_witness:
  "\<exists>f result. handleMessage (demo_batch False) 220 (Some (\<lambda>_ _. ItemSuccess ''r1'')) None ''m1'' (demo_queue ''m1'') (bq_fq (bq_popped False)) = (Inr (Some result), f)
    \<and> getMeta (demo_batch False) ''b1'' (fqs_redis f) = Inr None"
proof -
  let ?h = "handleMessage (demo_batch False) 220 (Some (\<lambda>_ _. ItemSuccess ''r1'')) None ''m1'' (demo_queue ''m1'') (bq_fq (bq_popped False))"
  let ?D = "{y. sISMEMBER (b_srv (demo_batch False)) (bk (demo_batch False) (processedItemsKey (ip_batchId demo_payload))) y (bq_redis (bq_popped False))}"
  have v: "getMessageData (batchFairQueue (demo_batch False) (bq_redis (bq_popped False))) ''m1'' (demo_queue ''m1'') (bq_redis (bq_popped False)) = Some demo_stored"
    "getMeta (demo_batch False) (ip_batchId demo_payload) (bq_redis (bq_popped False)) = Inr (Some (meta_of 100 demo_init))"
    "getProcessedCount (demo_batch False) (ip_batchId demo_payload) (bq_redis (bq_popped False)) = Some 0"
    using popped_state by (simp_all add: demo_view_def demo_payload_def)
  have p: "b_getItem (demo_batch False) (sm_payload demo_stored) = Some demo_payload"
    by (simp add: demo_batch_def demo_stored_def stored_of_def demo_batch_codec)
  have "?D = {}"
    using batch_queue_done [OF demo_bq.batch_server_axioms reach_popped _ v(3)] by (simp add: demo_payload_def batch_id_ok_def)
  then have "1 = int (card (insert (int_to_string (ip_itemIndex demo_payload)) ?D))" by simp
  from handled_message_counts_once [OF demo_bq.batch_server_axioms reach_popped v(1) p v(2) _ _ this, of "\<lambda>_ _. ItemSuccess ''r1''" None 220 "fst ?h" "snd ?h"]
  show ?thesis by (cases ?h) (auto simp: recordable_def accepting_def meta_of_def demo_init_def demo_payload_def)
qed

subsection \<open>Enqueueing\<close>

text \<open>C31. An item of a batch is enqueued once, whatever producers repeat: the first call for an index answers true,
  marks the index and queues its message at the creation time of the batch plus the index; every later call
  answers false and leaves the keyspace as it is.\<close>

theorem enqueueBatchItem_once:
  assumes "batch_server bd" and "batch_id_ok B" and "good_id nano" and "home nano = makeQueueId E B"
    and "getMeta bd B (fqs_redis f) = Inr (Some meta)" and "enqueueBatchItem bd now nano B E i x f = (r, f')"
  shows "if isItemEnqueued bd B i (fqs_redis f)
    then r = Inr False \<and> rview (b_srv bd) (fqs_redis f') = rview (b_srv bd) (fqs_redis f)
    else r = Inr True \<and> isItemEnqueued bd B i (fqs_redis f')
      \<and> msg_phase_of (batchCore bd) home (fabs (batchCore bd) (fqs_redis f')) nano = MQueued (bm_createdAt meta + i)"
  using batch_server.enqueue_again [OF assms(1,5) _ assms(6)] batch_server.enqueue_first [where home = home, OF assms(1,5) _ assms(2-4,6)] by auto

theorem enqueueBatchItem_once_witness:
  "msg_phase_of (batchCore (demo_batch False)) demo_queue (fabs (batchCore (demo_batch False)) (bq_redis (bq_enqueued False))) ''m1'' = MQueued 100"
proof -
  let ?e = "enqueueBatchItem (demo_batch False) 110 ''m1'' ''b1'' ''e1'' 0
     \<lparr>bi_task = ''t'', bi_payload = None, bi_payloadType = None, bi_options = None\<rparr> (bq_fq (bq_inited False))"
  have v: "demo_view False (bq_inited False) = \<lparr>dv_message = None, dv_meta = Inr (Some (meta_of 100 demo_init)), dv_count = Some 0,
      dv_enqueued = False, dv_failed = False, dv_phase = Idle\<rparr>"
    by code_simp
  then have "getMeta (demo_batch False) ''b1'' (bq_redis (bq_inited False)) = Inr (Some (meta_of 100 demo_init))" by (simp add: demo_view_def)
  from enqueueBatchItem_once [where home = demo_queue, OF demo_bq.batch_server_axioms _ _ _ this, of "''m1''" "''e1''" 110 0 _ "fst ?e" "snd ?e"] v
  show ?thesis by (simp add: demo_view_def bq_enqueued_def batch_id_ok_def good_id_def demo_queue_def meta_of_def)
qed

subsection \<open>Errors\<close>

text \<open>With a tracer set, an item without payload whose processing fails or throws is never recorded: the handler
  ends in the type error of reading the length of an undefined text, in the catch block too, and the message
  stays in flight with nothing changed.\<close>

theorem failed_item_without_payload_is_stuck:
  assumes "\<not> recordable bd p (callback p meta)"
    and "getMessageData (batchFairQueue bd (fqs_redis f)) m q (fqs_redis f) = Some x" and "b_getItem bd (sm_payload x) = Some p"
    and "getMeta bd (ip_batchId p) (fqs_redis f) = Inr (Some meta)"
  shows "handleMessage bd now (Some callback) onComplete m q f = (Inl BatchTypeError, f)"
  using assms by (simp add: handleMessage_def unrecordable)

theorem failed_item_without_payload_is_stuck_witness:
  "handleMessage (demo_batch True) 220 (Some (\<lambda>_ _. ItemFailure ''no such task'' None)) None ''m1'' (demo_queue ''m1'') (bq_fq (bq_popped True))
     = (Inl BatchTypeError, bq_fq (bq_popped True))"
proof (rule failed_item_without_payload_is_stuck)
  show "getMessageData (batchFairQueue (demo_batch True) (bq_redis (bq_popped True))) ''m1'' (demo_queue ''m1'') (bq_redis (bq_popped True)) = Some demo_stored"
    and "getMeta (demo_batch True) (ip_batchId demo_payload) (bq_redis (bq_popped True)) = Inr (Some (meta_of 100 demo_init))"
    using popped_state_traced by (simp_all add: demo_view_def demo_payload_def)
qed (simp_all add: recordable_def demo_batch_def demo_stored_def stored_of_def demo_batch_codec demo_payload_def)

text \<open>A consumer that found no data for its message removes the message even if the fair queue has handed it
  out again meanwhile: the message in flight is gone, and nothing is recorded for its item.\<close>

theorem missing_data_discards_message:
  assumes "batch_server bd" and "bq_reachable bd home item st" and "bq_phase st c = Missing m q"
    and "getMessageData (batchFairQueue bd (bq_redis st)) m q (bq_redis st) = Some x" and "b_getItem bd (sm_payload x) = Some p"
    and "consumer_move bd now outcome onComplete (bq_phase st c) (bq_fq st) = (ph, f)"
  shows "msg_phase_of (batchCore bd) home (fabs (batchCore bd) (bq_redis st)) m \<in> range MInFlight
    \<and> msg_phase_of (batchCore bd) home (fabs (batchCore bd) (fqs_redis f)) m = MAbsent
    \<and> getProcessedCount bd (ip_batchId p) (fqs_redis f) = getProcessedCount bd (ip_batchId p) (bq_redis st)"
  using batch_server.missing_loses [OF assms(1) batch_server.bq_reachable_inv [OF assms(1,2)] assms(3-5), of now outcome onComplete] assms(6) by simp

theorem missing_data_discards_message_witness:
  "\<exists>f. snd (consumer_move (demo_batch False) 60400 (ItemSuccess ''r1'') None (Missing ''m1'' (demo_queue ''m1'')) (bq_fq bq_raced)) = f
    \<and> msg_phase_of (batchCore (demo_batch False)) demo_queue (fabs (batchCore (demo_batch False)) (fqs_redis f)) ''m1'' = MAbsent
    \<and> getProcessedCount (demo_batch False) ''b1'' (fqs_redis f) = Some 0"
proof -
  have v: "bq_phase bq_raced 0 = Missing ''m1'' (demo_queue ''m1'')"
    "getMessageData (batchFairQueue (demo_batch False) (bq_redis bq_raced)) ''m1'' (demo_queue ''m1'') (bq_redis bq_raced) = Some demo_stored"
    "getProcessedCount (demo_batch False) ''b1'' (bq_redis bq_raced) = Some 0"
    using raced_state by (simp_all add: demo_view_def)
  have p: "b_getItem (demo_batch False) (sm_payload demo_stored) = Some demo_payload"
    by (simp add: demo_batch_def demo_stored_def stored_of_def demo_batch_codec)
  from missing_data_discards_message [OF demo_bq.batch_server_axioms reach_raced v(1,2) p surjective_pairing, of 60400 "ItemSuccess ''r1''" None] v(1,3)
  show ?thesis by (simp add: demo_payload_def)
qed

end
