(* ===== verification/Engine_Errors.thy ===== *)
theory Engine_Errors
  imports Retries
begin

text \<open>
  The vocabulary of the run engine: the statuses of runs and of their executions
  (\<open>internal-packages/run-engine/src/engine/statuses.ts\<close>), the errors of runs and what follows from them
  (\<open>engine/errors.ts\<close>, \<open>packages/core/src/v3/errors.ts\<close>), and machine presets (\<open>engine/machinePresets.ts\<close>).
\<close>

subsection \<open>Statuses\<close>

datatype run_status = RS_DELAYED | RS_PENDING | RS_PENDING_VERSION | RS_WAITING_FOR_DEPLOY | RS_DEQUEUED | RS_EXECUTING
  | RS_WAITING_TO_RESUME | RS_RETRYING_AFTER_FAILURE | RS_PAUSED | RS_CANCELED | RS_INTERRUPTED | RS_COMPLETED_SUCCESSFULLY
  | RS_COMPLETED_WITH_ERRORS | RS_SYSTEM_FAILURE | RS_CRASHED | RS_EXPIRED | RS_TIMED_OUT

datatype exec_status = ES_RUN_CREATED | ES_DELAYED | ES_QUEUED | ES_QUEUED_EXECUTING | ES_PENDING_EXECUTING | ES_EXECUTING
  | ES_EXECUTING_WITH_WAITPOINTS | ES_SUSPENDED | ES_PENDING_CANCEL | ES_FINISHED

definition exec_status_string :: "exec_status \<Rightarrow> string" where
  "exec_status_string status =
     (case status of ES_RUN_CREATED \<Rightarrow> ''RUN_CREATED'' | ES_DELAYED \<Rightarrow> ''DELAYED'' | ES_QUEUED \<Rightarrow> ''QUEUED''
        | ES_QUEUED_EXECUTING \<Rightarrow> ''QUEUED_EXECUTING'' | ES_PENDING_EXECUTING \<Rightarrow> ''PENDING_EXECUTING'' | ES_EXECUTING \<Rightarrow> ''EXECUTING''
        | ES_EXECUTING_WITH_WAITPOINTS \<Rightarrow> ''EXECUTING_WITH_WAITPOINTS'' | ES_SUSPENDED \<Rightarrow> ''SUSPENDED''
        | ES_PENDING_CANCEL \<Rightarrow> ''PENDING_CANCEL'' | ES_FINISHED \<Rightarrow> ''FINISHED'')"

definition isDequeueableExecutionStatus :: "exec_status \<Rightarrow> bool" where
  "isDequeueableExecutionStatus status = List.member [ES_QUEUED, ES_QUEUED_EXECUTING] status"

definition isExecuting :: "exec_status \<Rightarrow> bool" where
  "isExecuting status = List.member [ES_EXECUTING, ES_EXECUTING_WITH_WAITPOINTS] status"

definition isPendingExecuting :: "exec_status \<Rightarrow> bool" where
  "isPendingExecuting status = List.member [ES_PENDING_EXECUTING] status"

definition isCheckpointable :: "exec_status \<Rightarrow> bool" where
  "isCheckpointable status =
     List.member [ES_RUN_CREATED, ES_QUEUED, ES_EXECUTING, ES_EXECUTING_WITH_WAITPOINTS, ES_QUEUED_EXECUTING] status"

definition isFinishedOrPendingFinished :: "exec_status \<Rightarrow> bool" where
  "isFinishedOrPendingFinished status = List.member [ES_FINISHED, ES_PENDING_CANCEL] status"

definition isInitialState :: "exec_status \<Rightarrow> bool" where
  "isInitialState status = List.member [ES_RUN_CREATED, ES_DELAYED] status"

definition finalStatuses :: "run_status list" where
  "finalStatuses = [RS_CANCELED, RS_INTERRUPTED, RS_COMPLETED_SUCCESSFULLY, RS_COMPLETED_WITH_ERRORS, RS_SYSTEM_FAILURE,
     RS_CRASHED, RS_EXPIRED, RS_TIMED_OUT]"

definition isFinalRunStatus :: "run_status \<Rightarrow> bool" where
  "isFinalRunStatus status = List.member finalStatuses status"

lemmas status_defs = isDequeueableExecutionStatus_def isExecuting_def isPendingExecuting_def isCheckpointable_def
  isFinishedOrPendingFinished_def isInitialState_def isFinalRunStatus_def finalStatuses_def

definition MAX_TASK_RUN_ATTEMPTS :: int where
  "MAX_TASK_RUN_ATTEMPTS = 250"

subsection \<open>Errors of runs\<close>

datatype error_code = COULD_NOT_FIND_EXECUTOR | COULD_NOT_FIND_TASK | COULD_NOT_IMPORT_TASK | CONFIGURED_INCORRECTLY
  | TASK_ALREADY_RUNNING | TASK_EXECUTION_FAILED | TASK_EXECUTION_ABORTED | TASK_PROCESS_EXITED_WITH_NON_ZERO_CODE
  | TASK_PROCESS_SIGKILL_TIMEOUT | TASK_PROCESS_SIGSEGV | TASK_PROCESS_SIGTERM | TASK_PROCESS_OOM_KILLED
  | TASK_PROCESS_MAYBE_OOM_KILLED | TASK_RUN_CANCELLED | TASK_INPUT_ERROR | TASK_OUTPUT_ERROR | TASK_MIDDLEWARE_ERROR
  | HANDLE_ERROR_ERROR | GRACEFUL_EXIT_TIMEOUT | TASK_RUN_HEARTBEAT_TIMEOUT | TASK_RUN_CRASHED | MAX_DURATION_EXCEEDED
  | DISK_SPACE_EXCEEDED | POD_EVICTED | POD_UNKNOWN_ERROR | TASK_HAS_N0_EXECUTION_SNAPSHOT | TASK_DEQUEUED_INVALID_STATE
  | TASK_DEQUEUED_QUEUE_NOT_FOUND | TASK_RUN_DEQUEUED_MAX_RETRIES | TASK_RUN_STALLED_EXECUTING
  | TASK_RUN_STALLED_EXECUTING_WITH_WAITPOINTS | OUTDATED_SDK_VERSION | TASK_DID_CONCURRENT_WAIT | RECURSIVE_WAIT_DEADLOCK

text \<open>Name, message and stack trace of a built-in error; code, message and stack trace of an internal one. The link
  that the enhancer adds for display is left out.\<close>

datatype task_run_error =
    BuiltInError string string string
  | CustomError string
  | StringError string
  | InternalError error_code "string option" "string option"

text \<open>\<open>includes\<close> and \<open>startsWith\<close> of strings.\<close>

definition startsWith :: "string \<Rightarrow> string \<Rightarrow> bool" where
  "startsWith s p = (take (length p) s = p)"

fun str_includes :: "string \<Rightarrow> string \<Rightarrow> bool" where
  "str_includes [] p = (p = [])"
| "str_includes (c # cs) p = (startsWith (c # cs) p \<or> str_includes cs p)"

definition isManualOutOfMemoryError :: "task_run_error \<Rightarrow> bool" where
  "isManualOutOfMemoryError error = (case error of BuiltInError _ message _ \<Rightarrow> message = ''MANUAL_OOM_KILL_ERROR'' | _ \<Rightarrow> False)"

text \<open>A message or stack trace that is missing or empty is false in the conditions.\<close>

definition isOOMRunError :: "task_run_error \<Rightarrow> bool" where
  "isOOMRunError error =
     ((case error of
         InternalError code message stackTrace \<Rightarrow>
           code = TASK_PROCESS_OOM_KILLED \<or> code = TASK_PROCESS_MAYBE_OOM_KILLED
           \<or> (code = TASK_PROCESS_EXITED_WITH_NON_ZERO_CODE
              \<and> (case message of
                   None \<Rightarrow> False
                 | Some m \<Rightarrow> str_includes m ''-1''
                     \<and> (str_includes m ''SIGKILL''
                        \<or> str_includes m ''SIGABRT''
                          \<and> (case stackTrace of
                               None \<Rightarrow> False
                             | Some st \<Rightarrow> st \<noteq> [] \<and> list_ex (str_includes st) [''JavaScript heap out of memory'', ''Reached heap limit'',
                                 ''FATAL ERROR: Reached heap limit Allocation failed'']))))
       | BuiltInError _ message _ \<Rightarrow> str_includes message ''ffmpeg was killed with signal SIGKILL''
       | _ \<Rightarrow> False)
      \<or> isManualOutOfMemoryError error)"

definition remove_nulls :: "string \<Rightarrow> string" where
  "remove_nulls s = filter (\<lambda>c. c \<noteq> CHR 0x00) s"

definition sanitizeError :: "task_run_error \<Rightarrow> task_run_error" where
  "sanitizeError error =
     (case error of
        BuiltInError name message stackTrace \<Rightarrow> BuiltInError (remove_nulls name) (remove_nulls message) (remove_nulls stackTrace)
      | StringError raw \<Rightarrow> StringError (remove_nulls raw)
      | CustomError raw \<Rightarrow> CustomError (remove_nulls raw)
      | InternalError code message stackTrace \<Rightarrow>
          InternalError code (map_option remove_nulls message) (map_option remove_nulls stackTrace))"

definition shouldRetryError :: "task_run_error \<Rightarrow> bool" where
  "shouldRetryError error =
     (case error of
        InternalError code _ _ \<Rightarrow>
          \<not> List.member [COULD_NOT_FIND_EXECUTOR, COULD_NOT_FIND_TASK, COULD_NOT_IMPORT_TASK, CONFIGURED_INCORRECTLY,
            TASK_ALREADY_RUNNING, TASK_PROCESS_SIGKILL_TIMEOUT, TASK_PROCESS_SIGSEGV, TASK_PROCESS_OOM_KILLED,
            TASK_PROCESS_MAYBE_OOM_KILLED, TASK_RUN_CANCELLED, MAX_DURATION_EXCEEDED, DISK_SPACE_EXCEEDED, OUTDATED_SDK_VERSION,
            TASK_RUN_HEARTBEAT_TIMEOUT, TASK_DID_CONCURRENT_WAIT, RECURSIVE_WAIT_DEADLOCK, TASK_DEQUEUED_INVALID_STATE,
            TASK_DEQUEUED_QUEUE_NOT_FOUND, TASK_HAS_N0_EXECUTION_SNAPSHOT, TASK_RUN_DEQUEUED_MAX_RETRIES] code
      | _ \<Rightarrow> True)"

definition shouldLookupRetrySettings :: "task_run_error \<Rightarrow> bool" where
  "shouldLookupRetrySettings error =
     (case error of
        InternalError code _ _ \<Rightarrow>
          List.member [TASK_PROCESS_EXITED_WITH_NON_ZERO_CODE, TASK_PROCESS_SIGTERM, TASK_PROCESS_SIGSEGV] code
      | _ \<Rightarrow> False)"

subsection \<open>The enhancer\<close>

definition prettyInternalErrors :: "error_code \<Rightarrow> string option" where
  "prettyInternalErrors code =
     (case code of
        TASK_PROCESS_OOM_KILLED \<Rightarrow> Some ''Your run was terminated due to exceeding the machine's memory limit. Try increasing the machine preset in your task options or replay using a larger machine.''
      | TASK_PROCESS_MAYBE_OOM_KILLED \<Rightarrow> Some ''Your run was terminated due to exceeding the machine's memory limit. Try increasing the machine preset in your task options or replay using a larger machine.''
      | TASK_PROCESS_SIGSEGV \<Rightarrow> Some ''Your task crashed with a segmentation fault (SIGSEGV). Most likely there's a bug in a package or binary you're using. If this keeps happening and you're unsure why, please get in touch.''
      | TASK_PROCESS_SIGTERM \<Rightarrow> Some ''Your task exited after receiving SIGTERM but we don't know why. If this keeps happening, please get in touch so we can investigate.''
      | OUTDATED_SDK_VERSION \<Rightarrow> Some ''Your task is using an outdated version of the SDK. Please upgrade to the latest version.''
      | TASK_DID_CONCURRENT_WAIT \<Rightarrow> Some ''Parallel waits are not supported, e.g. using Promise.all() around our wait functions.''
      | RECURSIVE_WAIT_DEADLOCK \<Rightarrow> Some ''This run will never execute because it was triggered recursively and the task has no remaining concurrency available.''
      | _ \<Rightarrow> None)"

definition getPrettyTaskRunError :: "error_code \<Rightarrow> task_run_error" where
  "getPrettyTaskRunError code = InternalError code (prettyInternalErrors code) None"

datatype exit_signal = SIGTERM | SIGSEGV | SIGKILL | SIGABRT

definition findSignalInMessage :: "string option \<Rightarrow> exit_signal option" where
  "findSignalInMessage message =
     (case message of
        None \<Rightarrow> None
      | Some m \<Rightarrow>
          (let trunc = take 100 m
           in if str_includes trunc ''SIGTERM'' then Some SIGTERM
              else if str_includes trunc ''SIGSEGV'' then Some SIGSEGV
              else if str_includes trunc ''SIGKILL'' then Some SIGKILL
              else if str_includes trunc ''SIGABRT'' then Some SIGABRT
              else None))"

text \<open>The two \<open>switch\<close> statements over the signal.\<close>

definition exit_error :: "exit_signal option \<Rightarrow> string option \<Rightarrow> string option \<Rightarrow> task_run_error" where
  "exit_error signal message stackTrace =
     (case signal of
        Some SIGTERM \<Rightarrow> getPrettyTaskRunError TASK_PROCESS_SIGTERM
      | Some SIGSEGV \<Rightarrow> getPrettyTaskRunError TASK_PROCESS_SIGSEGV
      | Some SIGKILL \<Rightarrow> getPrettyTaskRunError TASK_PROCESS_MAYBE_OOM_KILLED
      | Some SIGABRT \<Rightarrow> getPrettyTaskRunError TASK_PROCESS_MAYBE_OOM_KILLED
      | None \<Rightarrow> InternalError TASK_PROCESS_EXITED_WITH_NON_ZERO_CODE message stackTrace)"

definition taskRunErrorEnhancer :: "task_run_error \<Rightarrow> task_run_error" where
  "taskRunErrorEnhancer error =
     (case error of
        BuiltInError name message stackTrace \<Rightarrow>
          if name = ''UnexpectedExitError'' \<and> startsWith message ''Unexpected exit with code -1''
          then exit_error (findSignalInMessage (Some stackTrace)) (Some message) (Some stackTrace)
          else if name = ''Error'' \<and> message = ''ffmpeg was killed with signal SIGKILL'' then getPrettyTaskRunError TASK_PROCESS_OOM_KILLED
          else if isManualOutOfMemoryError error then getPrettyTaskRunError TASK_PROCESS_OOM_KILLED
          else if name = ''TriggerApiError'' \<and> startsWith message ''Deadlock detected:''
          then BuiltInError ''Concurrency Deadlock Error'' message []
          else error
      | InternalError code message stackTrace \<Rightarrow>
          if code = TASK_PROCESS_EXITED_WITH_NON_ZERO_CODE then exit_error (findSignalInMessage message) message stackTrace
          else InternalError code (case prettyInternalErrors code of None \<Rightarrow> message | Some m \<Rightarrow> Some m) stackTrace
      | _ \<Rightarrow> error)"

subsection \<open>The status of a failed run\<close>

definition runStatusFromError :: "task_run_error \<Rightarrow> environment_type \<Rightarrow> run_status" where
  "runStatusFromError error environmentType =
     (case error of
        InternalError code _ _ \<Rightarrow>
          (if List.member [RECURSIVE_WAIT_DEADLOCK, TASK_INPUT_ERROR, TASK_OUTPUT_ERROR, TASK_MIDDLEWARE_ERROR] code
           then RS_COMPLETED_WITH_ERRORS
           else if code = TASK_RUN_CANCELLED then RS_CANCELED
           else if code = MAX_DURATION_EXCEEDED then RS_TIMED_OUT
           else if List.member [TASK_RUN_STALLED_EXECUTING, TASK_RUN_STALLED_EXECUTING_WITH_WAITPOINTS] code
           then (if environmentType = DEVELOPMENT then RS_CANCELED else RS_COMPLETED_WITH_ERRORS)
           else if List.member [TASK_PROCESS_OOM_KILLED, TASK_PROCESS_MAYBE_OOM_KILLED, TASK_PROCESS_SIGSEGV, DISK_SPACE_EXCEEDED,
             OUTDATED_SDK_VERSION, HANDLE_ERROR_ERROR, TASK_RUN_CRASHED, TASK_PROCESS_EXITED_WITH_NON_ZERO_CODE] code
           then RS_CRASHED
           else RS_SYSTEM_FAILURE)
      | _ \<Rightarrow> RS_COMPLETED_WITH_ERRORS)"

lemma runStatusFromError_final: "isFinalRunStatus (runStatusFromError error environmentType)"
  by (simp add: runStatusFromError_def status_defs split: task_run_error.split)

lemma sanitizeError_status: "runStatusFromError (sanitizeError error) environmentType = runStatusFromError error environmentType"
  by (cases error) (simp_all add: sanitizeError_def runStatusFromError_def)

text \<open>Stack traces and messages are cut to what the database stores.\<close>

definition truncateString :: "string \<Rightarrow> nat \<Rightarrow> string" where
  "truncateString str maxLength = take maxLength str"

definition truncateTaskRunError :: "task_run_error \<Rightarrow> task_run_error" where
  "truncateTaskRunError error =
     (case error of
        BuiltInError name message stackTrace \<Rightarrow>
          BuiltInError (truncateString name 1024) (truncateString message (1024 * 16)) (truncateString stackTrace (1024 * 16))
      | _ \<Rightarrow> error)"

subsection \<open>Machine presets\<close>

datatype machine_name = micro | small_1x | small_2x | medium_1x | medium_2x | large_1x | large_2x

definition parse_machine :: "string \<Rightarrow> machine_name option" where
  "parse_machine s = map_of [(''micro'', micro), (''small-1x'', small_1x), (''small-2x'', small_2x), (''medium-1x'', medium_1x),
     (''medium-2x'', medium_2x), (''large-1x'', large_1x), (''large-2x'', large_2x)] s"

record machine_preset =
  mp_name :: machine_name
  mp_cpu :: rat
  mp_memory :: rat
  mp_centsPerMs :: rat

record machine_config =
  mc_cpu :: "rat option"
  mc_memory :: "rat option"
  mc_preset :: "machine_name option"

text \<open>The machines in the order of their entries; a name that is not among them gives the empty object, here \<open>None\<close>.\<close>

type_synonym machines = "(machine_name \<times> machine_preset) list"

definition machinePresetFromName :: "machines \<Rightarrow> machine_name \<Rightarrow> machine_preset option" where
  "machinePresetFromName machines name = map_of machines name"

definition derivePresetNameFromValues :: "machines \<Rightarrow> rat \<Rightarrow> rat \<Rightarrow> machine_name option" where
  "derivePresetNameFromValues machines cpu memory =
     map_option fst (find (\<lambda>(name, preset). mp_cpu preset \<ge> cpu \<and> mp_memory preset \<ge> memory) machines)"

text \<open>The configuration of the task is \<open>None\<close> when it does not have the schema of a machine configuration.\<close>

definition getMachinePreset :: "machine_name \<Rightarrow> machines \<Rightarrow> machine_config option \<Rightarrow> string option \<Rightarrow> machine_preset option" where
  "getMachinePreset defaultMachine machines config machinePreset =
     (case machinePreset of
        Some (c # cs) \<Rightarrow>
          (case parse_machine (c # cs) of
             None \<Rightarrow> machinePresetFromName machines defaultMachine
           | Some name \<Rightarrow> machinePresetFromName machines name)
      | _ \<Rightarrow>
          (case config of
             None \<Rightarrow> machinePresetFromName machines small_1x
           | Some parsedConfig \<Rightarrow>
               (case mc_preset parsedConfig of
                  Some preset \<Rightarrow> machinePresetFromName machines preset
                | None \<Rightarrow>
                    (case (mc_cpu parsedConfig, mc_memory parsedConfig) of
                       (Some cpu, Some memory) \<Rightarrow>
                         (case derivePresetNameFromValues machines cpu memory of
                            None \<Rightarrow> machinePresetFromName machines defaultMachine
                          | Some name \<Rightarrow> machinePresetFromName machines name)
                     | _ \<Rightarrow> machinePresetFromName machines small_1x))))"

text \<open>When every machine is configured the engine always finds one.\<close>

lemma getMachinePreset_total:
  assumes "\<And>name. map_of machines name \<noteq> None"
  shows "getMachinePreset defaultMachine machines config machinePreset \<noteq> None"
  using assms by (auto simp: getMachinePreset_def machinePresetFromName_def split: option.split list.split)

text \<open>The derived machine is large enough, and every machine before it is too small.\<close>

lemma derived_machine_fits:
  assumes "derivePresetNameFromValues machines cpu memory = Some name"
  shows "\<exists>i preset. i < length machines \<and> machines ! i = (name, preset) \<and> cpu \<le> mp_cpu preset \<and> memory \<le> mp_memory preset
    \<and> (\<forall>j < i. mp_cpu (snd (machines ! j)) < cpu \<or> mp_memory (snd (machines ! j)) < memory)"
  using assms by (fastforce simp: derivePresetNameFromValues_def find_Some_iff not_le)

end
