(* ===== verification/Engine_Store.thy ===== *)
theory Engine_Store
  imports Engine_Errors Run_Queue Field_Codec
begin

text \<open>
  What the systems of the run engine share (\<open>engine/systems/systems.ts\<close>): the database, the run queue and the
  background worker.

  The rows are those of \<open>internal-packages/database/prisma/schema.prisma\<close>, with the columns that the modelled code
  reads or writes. The client that is generated from the schema is a parameter: a record of the queries over any
  state, and the locale \<open>engine_db\<close> says what they answer and do to the tables. The run queue and the worker are
  records of the operations that the engine calls; the modelled ones of \<open>Run_Queue\<close> and \<open>Redis_Worker\<close> provide them.
  Events on the event bus, which notify workers and dashboards, are left out.
\<close>

subsection \<open>Rows\<close>

record environment =
  en_id :: string
  en_type :: environment_type
  en_projectId :: string
  en_organizationId :: string

text \<open>A stored retry configuration: not of the schema \<open>RetryOptions\<close>, null, or parsed, with the machine for a retry
  after running out of memory.\<close>

datatype retry_json = InvalidRetry | NullRetry | ValidRetry retry_options "string option"

record task_run =
  tr_id :: string
  tr_status :: run_status
  tr_attemptNumber :: "int option"
  tr_maxAttempts :: "int option"
  tr_lockedById :: "string option"
  tr_lockedAt :: "time option"
  tr_lockedToVersionId :: "string option"
  tr_lockedQueueId :: "string option"
  tr_startedAt :: "time option"
  tr_maxDurationInSeconds :: "int option"
  tr_idempotencyKey :: "string option"
  tr_oneTimeUseToken :: "string option"
  tr_retryConfig :: "retry_json option"
  tr_machinePreset :: "string option"
  tr_usageDurationMs :: int
  tr_costInCents :: rat
  tr_taskIdentifier :: string
  tr_queue :: string
  tr_concurrencyKey :: "string option"
  tr_workerQueue :: string
  tr_queueTimestamp :: "time option"
  tr_createdAt :: time
  tr_priorityMs :: int
  tr_ttl :: "string option"
  tr_delayUntil :: "time option"
  tr_batchId :: "string option"
  tr_completedAt :: "time option"
  tr_error :: "task_run_error option"
  tr_output :: "string option"
  tr_parentTaskRunId :: "string option"
  tr_organizationId :: "string option"
  tr_environment :: environment

record snapshot =
  sn_id :: string
  sn_runId :: string
  sn_executionStatus :: exec_status
  sn_runStatus :: run_status
  sn_attemptNumber :: "int option"
  sn_previousSnapshotId :: "string option"
  sn_batchId :: "string option"
  sn_environment :: environment
  sn_checkpointId :: "string option"
  sn_workerId :: "string option"
  sn_runnerId :: "string option"
  sn_completedWaitpoints :: "string list"
  sn_completedWaitpointOrder :: "string list"
  sn_isValid :: bool
  sn_error :: "string option"

datatype waitpoint_type = WP_RUN | WP_DATETIME | WP_MANUAL | WP_BATCH

record waitpoint_output =
  wo_value :: string
  wo_type :: "string option"
  wo_isError :: bool

record waitpoint =
  wp_id :: string
  wp_type :: waitpoint_type
  wp_completed :: bool
  wp_completedAt :: "time option"
  wp_output :: "waitpoint_output option"
  wp_idempotencyKey :: string
  wp_userProvidedIdempotencyKey :: bool
  wp_idempotencyKeyExpiresAt :: "time option"
  wp_inactiveIdempotencyKey :: "string option"
  wp_completedByTaskRunId :: "string option"
  wp_completedByBatchId :: "string option"
  wp_completedAfter :: "time option"
  wp_environmentId :: string
  wp_projectId :: string

text \<open>A row of \<open>TaskRunWaitpoint\<close>: a run that a waitpoint blocks.\<close>

record run_block =
  bl_id :: string
  bl_taskRunId :: string
  bl_waitpointId :: string
  bl_spanIdToComplete :: "string option"
  bl_batchId :: "string option"
  bl_batchIndex :: "int option"

record batch_row =
  ba_id :: string
  ba_completed :: bool
  ba_environmentId :: string
  ba_processingJobsCount :: int
  ba_runCount :: int
  ba_batchVersion :: string
  ba_successfulRunCount :: "int option"
  ba_failedRunCount :: "int option"

subsection \<open>The database\<close>

text \<open>Rows by id, rows by a condition, and the changes. \<open>snap_add\<close> and \<open>tw_add\<close> give the row its generated id;
  \<open>snap_select\<close> is ordered by creation, the newest first.\<close>

record 'd db =
  run_get :: "string \<Rightarrow> 'd \<Rightarrow> task_run option"
  run_put :: "task_run \<Rightarrow> 'd \<Rightarrow> 'd"
  run_select :: "(task_run \<Rightarrow> bool) \<Rightarrow> 'd \<Rightarrow> task_run list"
  snap_add :: "snapshot \<Rightarrow> 'd \<Rightarrow> snapshot \<times> 'd"
  snap_select :: "(snapshot \<Rightarrow> bool) \<Rightarrow> 'd \<Rightarrow> snapshot list"
  wp_get :: "string \<Rightarrow> 'd \<Rightarrow> waitpoint option"
  wp_put :: "waitpoint \<Rightarrow> 'd \<Rightarrow> 'd"
  wp_select :: "(waitpoint \<Rightarrow> bool) \<Rightarrow> 'd \<Rightarrow> waitpoint list"
  tw_add :: "run_block \<Rightarrow> 'd \<Rightarrow> 'd"
  tw_select :: "(run_block \<Rightarrow> bool) \<Rightarrow> 'd \<Rightarrow> run_block list"
  tw_delete :: "(run_block \<Rightarrow> bool) \<Rightarrow> 'd \<Rightarrow> 'd"
  checkpoint_add :: "'d \<Rightarrow> string \<times> 'd"
  batch_get :: "string \<Rightarrow> 'd \<Rightarrow> batch_row option"
  batch_put :: "batch_row \<Rightarrow> 'd \<Rightarrow> 'd"

text \<open>The tables as a query sees them.\<close>

record tables =
  t_runs :: "string \<Rightarrow> task_run option"
  t_snapshots :: "snapshot list"
  t_waitpoints :: "string \<Rightarrow> waitpoint option"
  t_blocks :: "run_block set"
  t_batches :: "string \<Rightarrow> batch_row option"

locale engine_db =
  fixes db :: "'d db" and tables :: "'d \<Rightarrow> tables"
  assumes run_get: "run_get db i s = t_runs (tables s) i"
    and run_put: "tables (run_put db r s) = (tables s)\<lparr>t_runs := (t_runs (tables s))(tr_id r \<mapsto> r)\<rparr>"
    and run_select: "set (run_select db P s) = {r. P r \<and> (\<exists>i. t_runs (tables s) i = Some r)}"
    and snap_add: "\<exists>i. i \<notin> sn_id ` set (t_snapshots (tables s)) \<and> fst (snap_add db x s) = x\<lparr>sn_id := i\<rparr>"
      "tables (snd (snap_add db x s)) = (tables s)\<lparr>t_snapshots := fst (snap_add db x s) # t_snapshots (tables s)\<rparr>"
    and snap_select: "snap_select db Q s = filter Q (t_snapshots (tables s))"
    and wp_get: "wp_get db i s = t_waitpoints (tables s) i"
    and wp_put: "tables (wp_put db w s) = (tables s)\<lparr>t_waitpoints := (t_waitpoints (tables s))(wp_id w \<mapsto> w)\<rparr>"
    and wp_select: "set (wp_select db W s) = {w. W w \<and> (\<exists>i. t_waitpoints (tables s) i = Some w)}"
    and tw_add: "\<exists>i. i \<notin> bl_id ` t_blocks (tables s) \<and> tables (tw_add db b s) = (tables s)\<lparr>t_blocks := insert (b\<lparr>bl_id := i\<rparr>) (t_blocks (tables s))\<rparr>"
    and tw_select: "set (tw_select db B s) = {b \<in> t_blocks (tables s). B b}"
    and tw_delete: "tables (tw_delete db B s) = (tables s)\<lparr>t_blocks := {b \<in> t_blocks (tables s). \<not> B b}\<rparr>"
    and checkpoint_add: "tables (snd (checkpoint_add db s)) = tables s" "fst (checkpoint_add db s) \<noteq> []"
    and batch_get: "batch_get db i s = t_batches (tables s) i"
    and batch_put: "tables (batch_put db ba s) = (tables s)\<lparr>t_batches := (t_batches (tables s))(ba_id ba \<mapsto> ba)\<rparr>"

text \<open>A reference database: the tables as lists.\<close>

record mem_tables =
  mt_runs :: "task_run list"
  mt_snapshots :: "snapshot list"
  mt_waitpoints :: "waitpoint list"
  mt_blocks :: "run_block list"
  mt_batches :: "batch_row list"
  mt_next :: nat

definition row_id :: "mem_tables \<Rightarrow> string" where
  "row_id s = int_to_string (int (mt_next s))"

lemma row_id_nonempty: "row_id s \<noteq> []"
  by (simp add: row_id_def int_to_string_def)

fun fresh_number :: "string list \<Rightarrow> nat" where
  "fresh_number [] = 0"
| "fresh_number (i # is) = max (fresh_number is) (case int_of_string i of None \<Rightarrow> 0 | Some n \<Rightarrow> nat n + 1)"

definition fresh_id :: "string list \<Rightarrow> string" where
  "fresh_id is = int_to_string (int (fresh_number is))"

definition put_row :: "('a \<Rightarrow> string) \<Rightarrow> 'a \<Rightarrow> 'a list \<Rightarrow> 'a list" where
  "put_row key x xs = x # filter (\<lambda>y. key y \<noteq> key x) xs"

definition get_row :: "('a \<Rightarrow> string) \<Rightarrow> string \<Rightarrow> 'a list \<Rightarrow> 'a option" where
  "get_row key i xs = find (\<lambda>x. key x = i) xs"

text \<open>A row is found by its id only, so the rows that a later one with the same id hides are not selected.\<close>

definition select_rows :: "('a \<Rightarrow> string) \<Rightarrow> ('a \<Rightarrow> bool) \<Rightarrow> 'a list \<Rightarrow> 'a list" where
  "select_rows key P xs = filter (\<lambda>x. P x \<and> get_row key (key x) xs = Some x) xs"

definition mem_db :: "mem_tables db" where
  "mem_db = \<lparr>run_get = (\<lambda>i s. get_row tr_id i (mt_runs s)),
     run_put = (\<lambda>r s. s\<lparr>mt_runs := put_row tr_id r (mt_runs s)\<rparr>),
     run_select = (\<lambda>P s. select_rows tr_id P (mt_runs s)),
     snap_add = (\<lambda>x s. let x = x\<lparr>sn_id := fresh_id (map sn_id (mt_snapshots s))\<rparr> in (x, s\<lparr>mt_snapshots := x # mt_snapshots s\<rparr>)),
     snap_select = (\<lambda>P s. filter P (mt_snapshots s)),
     wp_get = (\<lambda>i s. get_row wp_id i (mt_waitpoints s)),
     wp_put = (\<lambda>w s. s\<lparr>mt_waitpoints := put_row wp_id w (mt_waitpoints s)\<rparr>),
     wp_select = (\<lambda>P s. select_rows wp_id P (mt_waitpoints s)),
     tw_add = (\<lambda>b s. s\<lparr>mt_blocks := b\<lparr>bl_id := fresh_id (map bl_id (mt_blocks s))\<rparr> # mt_blocks s\<rparr>),
     tw_select = (\<lambda>P s. filter P (mt_blocks s)),
     tw_delete = (\<lambda>P s. s\<lparr>mt_blocks := filter (\<lambda>b. \<not> P b) (mt_blocks s)\<rparr>),
     checkpoint_add = (\<lambda>s. (row_id s, s\<lparr>mt_next := Suc (mt_next s)\<rparr>)),
     batch_get = (\<lambda>i s. get_row ba_id i (mt_batches s)),
     batch_put = (\<lambda>b s. s\<lparr>mt_batches := put_row ba_id b (mt_batches s)\<rparr>)\<rparr>"

definition mem_view :: "mem_tables \<Rightarrow> tables" where
  "mem_view s = \<lparr>t_runs = (\<lambda>i. get_row tr_id i (mt_runs s)), t_snapshots = mt_snapshots s,
     t_waitpoints = (\<lambda>i. get_row wp_id i (mt_waitpoints s)), t_blocks = set (mt_blocks s),
     t_batches = (\<lambda>i. get_row ba_id i (mt_batches s))\<rparr>"

lemma fresh_number_bound: "i \<in> set is \<Longrightarrow> int_of_string i = Some n \<Longrightarrow> n < int (fresh_number is)"
  by (induction "is") (auto simp: max_def)

lemma fresh_id_new: "fresh_id is \<notin> set is"
proof
  assume "fresh_id is \<in> set is"
  from fresh_number_bound [OF this, of "int (fresh_number is)"] show False by (simp add: fresh_id_def)
qed

lemma get_put_row: "get_row key i (put_row key x xs) = (if i = key x then Some x else get_row key i xs)"
proof -
  have "find (\<lambda>y. key y = i) (filter (\<lambda>y. key y \<noteq> key x) xs) = find (\<lambda>y. key y = i) xs" if "i \<noteq> key x"
    using that by (induction xs) auto
  then show ?thesis by (auto simp: get_row_def put_row_def)
qed

lemma set_select_rows: "set (select_rows key P xs) = {x. P x \<and> (\<exists>i. get_row key i xs = Some x)}"
  by (auto simp: select_rows_def get_row_def find_Some_iff)

interpretation mem_engine: engine_db mem_db mem_view
proof
  show "\<exists>i. i \<notin> sn_id ` set (t_snapshots (mem_view s)) \<and> fst (snap_add mem_db x s) = x\<lparr>sn_id := i\<rparr>" for x s
    using fresh_id_new [of "map sn_id (mt_snapshots s)"] by (auto simp: mem_db_def mem_view_def Let_def)
  show "\<exists>i. i \<notin> bl_id ` t_blocks (mem_view s)
      \<and> mem_view (tw_add mem_db b s) = (mem_view s)\<lparr>t_blocks := insert (b\<lparr>bl_id := i\<rparr>) (t_blocks (mem_view s))\<rparr>" for b s
    using fresh_id_new [of "map bl_id (mt_blocks s)"] by (auto simp: mem_db_def mem_view_def)
qed (auto simp: mem_db_def mem_view_def get_put_row set_select_rows row_id_nonempty Let_def)

subsection \<open>The run queue and the worker\<close>

record 'q queue_ops =
  q_enqueue :: "time \<Rightarrow> rq_env \<Rightarrow> input_payload \<Rightarrow> string \<Rightarrow> 'q \<Rightarrow> rq_error + 'q"
  q_ack :: "time \<Rightarrow> string \<Rightarrow> string \<Rightarrow> bool \<Rightarrow> 'q \<Rightarrow> rq_error + 'q"
  q_nack :: "time \<Rightarrow> string \<Rightarrow> string \<Rightarrow> time option \<Rightarrow> 'q \<Rightarrow> rq_error + bool option \<times> 'q"
  q_release :: "string \<Rightarrow> string \<Rightarrow> 'q \<Rightarrow> rq_error + 'q"
  q_pop :: "string \<Rightarrow> 'q \<Rightarrow> (rq_error + dequeued_message option) \<times> 'q"
  q_clear :: "string \<Rightarrow> string \<Rightarrow> rq_env \<Rightarrow> 'q \<Rightarrow> 'q"

text \<open>The jobs of the engine's worker (\<open>engine/workerCatalog.ts\<close>) with their payloads.\<close>

datatype engine_job =
    FinishWaitpoint string "string option"
  | HeartbeatSnapshot string string "int option"
  | RepairSnapshot string string exec_status
  | ExpireRun string
  | CancelRun string "time option" "string option"
  | QueueRunsPendingVersion string
  | TryCompleteBatch string
  | ContinueRunIfUnblocked string
  | EnqueueDelayedRun string

text \<open>What the worker offers: enqueueing a job, which generates a new deduplication key, acknowledging one (with a key, only
  the job that was enqueued with it), moving it in time, enqueueing a failed one again, and giving it up.\<close>

record 'j worker_ops =
  w_enqueue :: "time \<Rightarrow> string \<Rightarrow> engine_job \<Rightarrow> time \<Rightarrow> 'j \<Rightarrow> 'j"
  w_ack :: "string \<Rightarrow> string option \<Rightarrow> 'j \<Rightarrow> 'j"
  w_reschedule :: "string \<Rightarrow> time \<Rightarrow> 'j \<Rightarrow> 'j"
  w_retry :: "time \<Rightarrow> string \<Rightarrow> engine_job \<Rightarrow> int \<Rightarrow> time \<Rightarrow> 'j \<Rightarrow> 'j"
  w_giveup :: "time \<Rightarrow> string \<Rightarrow> string \<Rightarrow> 'j \<Rightarrow> 'j"

text \<open>A job as the worker sees it.\<close>

record job_row =
  jr_job :: engine_job
  jr_at :: "time option"
  jr_key :: string

locale engine_worker =
  fixes wk :: "'j worker_ops" and jobs :: "'j \<Rightarrow> string \<Rightarrow> job_row option" and used :: "'j \<Rightarrow> string set"
  assumes used_nonempty: "[] \<notin> used s"
    and w_enqueue: "\<exists>k. k \<notin> used s \<and> used (w_enqueue wk now i job t s) = insert k (used s)
      \<and> jobs (w_enqueue wk now i job t s) = (jobs s)(i \<mapsto> \<lparr>jr_job = job, jr_at = Some t, jr_key = k\<rparr>)"
    and w_retry: "\<exists>k. k \<notin> used s \<and> used (w_retry wk now i job n t s) = insert k (used s)
      \<and> jobs (w_retry wk now i job n t s) = (jobs s)(i \<mapsto> \<lparr>jr_job = job, jr_at = Some t, jr_key = k\<rparr>)"
    and w_ack: "used (w_ack wk i None s) = used s" "jobs (w_ack wk i None s) = (jobs s)(i := None)"
    and w_ack_key: "k \<noteq> [] \<Longrightarrow> used (w_ack wk i (Some k) s) = used s"
      "k \<noteq> [] \<Longrightarrow> jobs (w_ack wk i (Some k) s) = (if \<exists>j. jobs s i = Some j \<and> jr_key j \<noteq> k then jobs s else (jobs s)(i := None))"
    and w_reschedule: "used (w_reschedule wk i t s) = used s"
      "jobs (w_reschedule wk i t s) = (jobs s)(i := map_option (\<lambda>j. j\<lparr>jr_at := map_option (\<lambda>_. t) (jr_at j)\<rparr>) (jobs s i))"
    and w_giveup: "used (w_giveup wk now i message s) = used s" "jobs (w_giveup wk now i message s) = (jobs s)(i := None)"

end
