(* ===== verification/Engine_Durations.thy ===== *)
theory Engine_Durations
  imports Prelude
begin

text \<open>
  Durations as users write them (\<open>packages/core/src/v3/isomorphic/duration.ts\<close>), such as \<open>1h30m\<close>: the time to live of
  a run. Numbers are doubles: exact arithmetic rounded by \<open>fl\<close>. Points in time beyond the range of \<open>Date\<close> are left out.
\<close>

definition is_digit :: "char \<Rightarrow> bool" where
  "is_digit c = List.member ''0123456789'' c"

definition decimal_number :: "string \<Rightarrow> nat" where
  "decimal_number ds = foldl (\<lambda>n c. 10 * n + (of_char c - 48)) 0 ds"

text \<open>The first of the units that a text starts with, and what follows it.\<close>

fun take_unit :: "string list \<Rightarrow> string \<Rightarrow> (string \<times> string) option" where
  "take_unit [] s = None"
| "take_unit (u # us) s = (if take (length u) s = u then Some (u, drop (length u) s) else take_unit us s)"

text \<open>\<open>duration.match(/(\d+)u/)\<close>: the digits of the leftmost match. After the greedy digits comes a character that is
  not a digit, so fewer digits never match.\<close>

fun first_match :: "string list \<Rightarrow> string \<Rightarrow> string option" where
  "first_match us [] = None"
| "first_match us (c # cs) =
     (if is_digit c \<and> take_unit us (dropWhile is_digit (c # cs)) \<noteq> None then Some (takeWhile is_digit (c # cs))
      else first_match us cs)"

text \<open>The test of \<open>/^(\d+(?:w|d|hr|h|m|s))+$/\<close>. After \<open>h\<close> no other alternative than \<open>hr\<close> could use an \<open>r\<close>.\<close>

function valid_duration :: "string \<Rightarrow> bool" where
  "valid_duration s =
     (case s of
        [] \<Rightarrow> False
      | c # cs \<Rightarrow>
          is_digit c \<and>
          (case take_unit [''w'', ''d'', ''hr'', ''h'', ''m'', ''s''] (dropWhile is_digit s) of
             None \<Rightarrow> False
           | Some (u, rest) \<Rightarrow> rest = [] \<or> valid_duration rest))"
  by pat_completeness auto

lemma take_unit_shorter: "take_unit us s = Some (u, rest) \<Longrightarrow> u \<in> set us \<and> s = u @ rest"
  by (induction us s rule: take_unit.induct) (auto split: if_splits, metis append_take_drop_id)

lemma take_unit_rest:
  assumes "take_unit [''w'', ''d'', ''hr'', ''h'', ''m'', ''s''] (dropWhile P s) = Some (u, rest)"
  shows "length rest < length s"
proof -
  have "u \<noteq> []" "dropWhile P s = u @ rest" using take_unit_shorter [OF assms] by auto
  then have "length rest < length (dropWhile P s)" by simp
  also have "\<dots> \<le> length s" by (rule length_dropWhile_le)
  finally show ?thesis .
qed

termination valid_duration
  by (relation "measure length") (auto dest: take_unit_rest simp del: take_unit.simps dropWhile.simps list.size)

declare valid_duration.simps [simp del]

text \<open>Each unit adds its first match; the conditions on the sign always hold.\<close>

definition unit_ms :: "(rat \<Rightarrow> rat) \<Rightarrow> string list \<Rightarrow> rat list \<Rightarrow> string \<Rightarrow> rat option" where
  "unit_ms fl us factors s = map_option (\<lambda>ds. foldl (\<lambda>x f. fl (x * f)) (fl (of_nat (decimal_number ds))) factors) (first_match us s)"

definition parseNaturalLanguageDurationInMs :: "(rat \<Rightarrow> rat) \<Rightarrow> string \<Rightarrow> rat option" where
  "parseNaturalLanguageDurationInMs fl duration =
     (if length duration > 100 then None
      else if \<not> valid_duration duration then None
      else
        (let parts = [unit_ms fl [''w''] [7, 24, 60, 60, 1000] duration, unit_ms fl [''d''] [24, 60, 60, 1000] duration,
               unit_ms fl [''hr'', ''h''] [60, 60, 1000] duration, unit_ms fl [''m''] [60, 1000] duration, unit_ms fl [''s''] [1000] duration]
         in if list_all (\<lambda>p. p = None) parts then None
            else Some (foldl (\<lambda>total p. case p of None \<Rightarrow> total | Some ms \<Rightarrow> fl (total + ms)) 0 parts)))"

definition parseNaturalLanguageDuration :: "(rat \<Rightarrow> rat) \<Rightarrow> int \<Rightarrow> string \<Rightarrow> int option" where
  "parseNaturalLanguageDuration fl now duration =
     map_option (\<lambda>ms. \<lfloor>fl (of_int now + ms)\<rfloor>) (parseNaturalLanguageDurationInMs fl duration)"

subsection \<open>What the parser accepts\<close>

lemma member_digit: "is_digit c \<longleftrightarrow> c \<in> set ''0123456789''"
  by (simp add: is_digit_def)

lemma units_no_digit: "u \<in> set [''w'', ''d'', ''hr'', ''h'', ''m'', ''s''] \<Longrightarrow> u \<noteq> [] \<and> \<not> is_digit (hd u)"
  by (auto simp: is_digit_def)

text \<open>A valid duration is a sequence of numbers with units.\<close>

definition piece :: "string \<times> string \<Rightarrow> string" where
  "piece p = fst p @ snd p"

definition good_piece :: "string \<times> string \<Rightarrow> bool" where
  "good_piece p \<longleftrightarrow> fst p \<noteq> [] \<and> list_all is_digit (fst p) \<and> snd p \<in> set [''w'', ''d'', ''hr'', ''h'', ''m'', ''s'']"

lemma valid_duration_pieces: "valid_duration s \<Longrightarrow> \<exists>ps. ps \<noteq> [] \<and> list_all good_piece ps \<and> s = concat (map piece ps)"
proof (induction s rule: valid_duration.induct)
  case (1 s)
  from 1(2) obtain c cs where s: "s = c # cs" "is_digit c" by (subst (asm) valid_duration.simps) (auto split: list.splits)
  from 1(2) s obtain u rest where u: "take_unit [''w'', ''d'', ''hr'', ''h'', ''m'', ''s''] (dropWhile is_digit s) = Some (u, rest)"
      "rest = [] \<or> valid_duration rest"
    by (subst (asm) valid_duration.simps) (auto split: option.splits)
  note tu = take_unit_shorter [OF u(1)]
  have good: "good_piece (takeWhile is_digit s, u)"
    using s tu by (auto simp: good_piece_def list_all_iff dest: set_takeWhileD)
  have "\<exists>ps. list_all good_piece ps \<and> rest = concat (map piece ps)"
    using u(2) 1(1) [OF s(1) u(1) refl] s(2) by (auto intro: exI [of _ "[]"])
  then obtain ps where ps: "list_all good_piece ps" "rest = concat (map piece ps)" by blast
  have "s = piece (takeWhile is_digit s, u) @ rest" using tu takeWhile_dropWhile_id [of is_digit s] by (simp add: piece_def)
  then show ?case using good ps by (intro exI [of _ "(takeWhile is_digit s, u) # ps"]) simp
qed

text \<open>The time to live is never negative.\<close>

lemma unit_ms_nonneg:
  assumes "mono fl" and "fl 0 = 0" and "unit_ms fl us fs s = Some ms" and "list_all (\<lambda>f. 0 \<le> f) fs"
  shows "0 \<le> ms"
proof -
  have fl: "0 \<le> fl x" if "0 \<le> x" for x using monoD [OF assms(1) that] assms(2) by simp
  have "0 \<le> foldl (\<lambda>x f. fl (x * f)) y fs" if "0 \<le> y" for y
    using assms(4) that
  proof (induction fs arbitrary: y)
    case (Cons f fs)
    then have "0 \<le> fl (y * f)" by (intro fl) simp
    then show ?case using Cons by simp
  qed simp
  then show ?thesis using assms(3) fl by (auto simp: unit_ms_def)
qed

subsection \<open>What the parser answers\<close>

abbreviation unit_classes :: "string list list" where
  "unit_classes \<equiv> [[''w''], [''d''], [''hr'', ''h''], [''m''], [''s'']]"

lemma take_unit_class:
  assumes "us \<in> set unit_classes" and "u \<in> set [''w'', ''d'', ''hr'', ''h'', ''m'', ''s'']"
  shows "take_unit us (u @ rest) \<noteq> None \<longleftrightarrow> u \<in> set us"
  using assms unfolding list.set insert_iff empty_iff by (elim disjE FalseE) simp_all

lemma first_match_skip_unit:
  assumes "u \<in> set [''w'', ''d'', ''hr'', ''h'', ''m'', ''s'']"
  shows "first_match us (u @ rest) = first_match us rest"
  using assms by (auto simp: is_digit_def)

lemma drop_digits:
  assumes "list_all is_digit ds" and "u \<in> set [''w'', ''d'', ''hr'', ''h'', ''m'', ''s'']"
  shows "dropWhile is_digit (ds @ u @ rest) = u @ rest" "takeWhile is_digit (ds @ u @ rest) = ds"
proof -
  have "u @ rest \<noteq> [] \<and> \<not> is_digit (hd (u @ rest))" using units_no_digit [OF assms(2)] by (cases u) auto
  then have "dropWhile is_digit (u @ rest) = u @ rest" "takeWhile is_digit (u @ rest) = []"
    by (cases "u @ rest"; simp)+
  then show "dropWhile is_digit (ds @ u @ rest) = u @ rest" "takeWhile is_digit (ds @ u @ rest) = ds"
    using assms(1) by (simp_all add: list_all_iff dropWhile_append2 takeWhile_append2)
qed

lemma first_match_piece:
  assumes "list_all is_digit ds" and "ds \<noteq> []" and "u \<in> set [''w'', ''d'', ''hr'', ''h'', ''m'', ''s'']" and "us \<in> set unit_classes"
  shows "first_match us (ds @ u @ rest) = (if u \<in> set us then Some ds else first_match us rest)"
proof (cases "u \<in> set us")
  case True
  obtain c cs where ds: "ds = c # cs" using assms(2) by (cases ds) auto
  then have "is_digit c" using assms(1) by simp
  moreover have "take_unit us (u @ rest) \<noteq> None" using take_unit_class [OF assms(4,3)] True by blast
  ultimately show ?thesis using True drop_digits [OF assms(1,3), of rest] by (simp add: ds)
next
  case False
  have "first_match us (ds @ u @ rest) = first_match us (u @ rest)"
    using assms(1)
  proof (induction ds)
    case (Cons c cs)
    have "dropWhile is_digit (c # cs @ u @ rest) = u @ rest" using drop_digits(1) [OF Cons.prems assms(3), of rest] by simp
    then have "take_unit us (dropWhile is_digit (c # cs @ u @ rest)) = None" using take_unit_class [OF assms(4,3)] False by metis
    then have "first_match us (c # cs @ u @ rest) = first_match us (cs @ u @ rest)" by (simp only: first_match.simps) simp
    then show ?case using Cons by simp
  qed simp
  then show ?thesis using False first_match_skip_unit [OF assms(3)] by simp
qed

text \<open>Every unit is worth its first occurrence.\<close>

lemma first_match_pieces:
  assumes "list_all good_piece ps" and "us \<in> set unit_classes"
  shows "first_match us (concat (map piece ps)) = map_option fst (find (\<lambda>p. snd p \<in> set us) ps)"
  using assms(1)
proof (induction ps)
  case (Cons p ps)
  have "list_all is_digit (fst p)" "fst p \<noteq> []" "snd p \<in> set [''w'', ''d'', ''hr'', ''h'', ''m'', ''s'']"
    using Cons.prems by (auto simp: good_piece_def)
  from first_match_piece [OF this assms(2), of "concat (map piece ps)"] Cons show ?case by (simp add: piece_def [of p])
qed simp

definition first_of :: "string list \<Rightarrow> (string \<times> string) list \<Rightarrow> nat" where
  "first_of us ps = (case find (\<lambda>p. snd p \<in> set us) ps of None \<Rightarrow> 0 | Some p \<Rightarrow> decimal_number (fst p))"

lemma unit_ms_exact:
  assumes "list_all good_piece ps" and "us \<in> set unit_classes"
  shows "unit_ms (\<lambda>x. x) us fs (concat (map piece ps)) =
    map_option (\<lambda>p. of_nat (decimal_number (fst p)) * prod_list fs) (find (\<lambda>p. snd p \<in> set us) ps)"
proof -
  have "foldl (\<lambda>x f. x * f) y fs = y * prod_list fs" for y :: rat by (induction fs arbitrary: y) (simp_all add: mult.assoc)
  then show ?thesis by (simp add: unit_ms_def first_match_pieces [OF assms] option.map_comp comp_def)
qed

lemma some_unit:
  assumes "list_all good_piece ps" and "ps \<noteq> []"
  shows "\<exists>us \<in> set unit_classes. find (\<lambda>p. snd p \<in> set us) ps \<noteq> None"
proof -
  obtain p qs where p: "ps = p # qs" using assms(2) by (cases ps) auto
  then have "snd p \<in> set [''w'', ''d'', ''hr'', ''h'', ''m'', ''s'']" using assms(1) by (simp add: good_piece_def)
  then have "\<exists>us \<in> set unit_classes. snd p \<in> set us" by auto
  then show ?thesis by (auto simp: p)
qed

text \<open>A duration is worth the sum of the first number of each unit, whatever their order. Numbers are taken exactly.\<close>

lemma duration_of_pieces:
  assumes "list_all good_piece ps" and "ps \<noteq> []" and "length (concat (map piece ps)) \<le> 100" and "valid_duration (concat (map piece ps))"
  shows "parseNaturalLanguageDurationInMs (\<lambda>x. x) (concat (map piece ps)) = Some (of_nat
    (604800000 * first_of [''w''] ps + 86400000 * first_of [''d''] ps + 3600000 * first_of [''hr'', ''h''] ps
      + 60000 * first_of [''m''] ps + 1000 * first_of [''s''] ps))"
proof -
  note u = unit_ms_exact [OF assms(1)]
  have nm: "\<not> (find (\<lambda>p. snd p = ''w'') ps = None \<and> find (\<lambda>p. snd p = ''d'') ps = None \<and> find (\<lambda>p. snd p = ''hr'' \<or> snd p = ''h'') ps = None
      \<and> find (\<lambda>p. snd p = ''m'') ps = None \<and> find (\<lambda>p. snd p = ''s'') ps = None)"
    using some_unit [OF assms(1,2)] by auto
  have "\<not> 100 < length (concat (map piece ps))" using assms(3) by simp
  then show ?thesis using assms(4) nm
    by (simp add: parseNaturalLanguageDurationInMs_def Let_def u first_of_def del: not_less split: option.split)
qed

lemma valid_pieces:
  assumes "list_all good_piece ps" and "ps \<noteq> []"
  shows "valid_duration (concat (map piece ps))"
  using assms
proof (induction ps)
  case (Cons p ps)
  obtain ds u where p: "p = (ds, u)" by fastforce
  have g: "list_all is_digit ds" "ds \<noteq> []" "u \<in> set [''w'', ''d'', ''hr'', ''h'', ''m'', ''s'']"
    using Cons.prems(1) by (auto simp: good_piece_def p)
  obtain c cs where ds: "ds = c # cs" using g(2) by (cases ds) auto
  define rest where "rest = concat (map piece ps)"
  have nr: "d \<noteq> CHR ''r''" if rd: "rest = d # ds'" for d ds'
  proof -
    obtain q qs where q: "ps = q # qs" using rd by (cases ps) (auto simp: rest_def)
    then have "fst q \<noteq> []" "list_all is_digit (fst q)" using Cons.prems(1) by (auto simp: good_piece_def)
    moreover from this(1) have "hd (fst q) = d" using rd by (cases "fst q") (auto simp: rest_def q piece_def)
    ultimately have "is_digit d" by (cases "fst q") auto
    then show ?thesis by (auto simp: is_digit_def)
  qed
  have "take 2 (''h'' @ rest) \<noteq> ''hr''" using nr by (cases rest) simp_all
  then have tu: "take_unit [''w'', ''d'', ''hr'', ''h'', ''m'', ''s''] (u @ rest) = Some (u, rest)"
    using g(3) unfolding list.set insert_iff empty_iff by (elim disjE FalseE) (simp_all add: numeral_2_eq_2)
  have "rest = [] \<or> valid_duration rest" using Cons by (cases ps) (auto simp: rest_def)
  moreover have "valid_duration (ds @ u @ rest) = (is_digit c \<and>
      (case take_unit [''w'', ''d'', ''hr'', ''h'', ''m'', ''s''] (dropWhile is_digit (ds @ u @ rest)) of
         None \<Rightarrow> False | Some (u, rest) \<Rightarrow> rest = [] \<or> valid_duration rest))"
    by (subst valid_duration.simps) (simp only: ds append_Cons list.case)
  moreover have "is_digit c" using g(1) ds by simp
  ultimately have "valid_duration (ds @ u @ rest)"
    unfolding drop_digits(1) [OF g(1,3), of rest] tu by simp
  then show ?case by (simp add: p rest_def piece_def [of "(ds, u)"])
qed simp

end
