(* ===== verification/Engine_Snapshots.thy ===== *)
theory Engine_Snapshots
  imports Engine_Store Engine_Durations "HOL-Library.Multiset"
begin

text \<open>
  Execution snapshots (\<open>engine/systems/executionSnapshotSystem.ts\<close>) and the enqueueing of a run
  (\<open>engine/systems/enqueueSystem.ts\<close>). The state of a run is its latest valid snapshot; every transition creates one,
  and a snapshot of a status that a worker must keep alive schedules a heartbeat job.

  Descriptions and metadata of snapshots are left out. The lock of a run (\<open>engine/locking.ts\<close>) makes the operations
  under it one after the other, so each is one function of the state.
\<close>

record ('d, 'q, 'j) engine_state =
  es_db :: 'd
  es_queue :: 'q
  es_jobs :: 'j

datatype engine_error =
    NoSnapshot string
  | RunNotFound
  | WaitpointNotFound
  | WaitpointNotCompleted
  | NoCheckpoint string
  | SnapshotChanged
  | AlreadyFinished
  | NotLocked
  | MaxAttemptsReached
  | NoAssociatedWaitpoint
  | NotDelayed
  | NotImplemented
  | InvalidState
  | WaitpointConflict
  | DuplicateIdempotencyKey
  | OutOfFuel
  | QueueFailed rq_error

text \<open>An operation that may throw; what it did before stays done.\<close>

type_synonym ('d, 'q, 'j, 'a) engine_op = "('d, 'q, 'j) engine_state \<Rightarrow> (engine_error + 'a) \<times> ('d, 'q, 'j) engine_state"

definition then_do :: "('d, 'q, 'j, 'a) engine_op \<Rightarrow> ('a \<Rightarrow> ('d, 'q, 'j, 'b) engine_op) \<Rightarrow> ('d, 'q, 'j, 'b) engine_op" where
  "then_do m f st = (case m st of (Inl e, st) \<Rightarrow> (Inl e, st) | (Inr x, st) \<Rightarrow> f x st)"

definition return :: "'a \<Rightarrow> ('d, 'q, 'j, 'a) engine_op" where
  "return x st = (Inr x, st)"

definition throw :: "engine_error \<Rightarrow> ('d, 'q, 'j, 'a) engine_op" where
  "throw e st = (Inl e, st)"

record heartbeat_timeouts =
  ht_PENDING_EXECUTING :: int
  ht_PENDING_CANCEL :: int
  ht_EXECUTING :: int
  ht_EXECUTING_WITH_WAITPOINTS :: int
  ht_SUSPENDED :: int

record ('d, 'q, 'j) engine_deps =
  e_db :: "'d db"
  e_queue :: "'q queue_ops"
  e_worker :: "'j worker_ops"
  e_heartbeatTimeouts :: heartbeat_timeouts
  e_machines :: machines
  e_defaultMachine :: machine_name
  e_retryWarmStartThresholdMs :: "int option"
  e_fl :: "rat \<Rightarrow> rat"
  e_pow :: "rat \<Rightarrow> int \<Rightarrow> rat"
  e_timeoutError :: "time \<Rightarrow> string"
  e_errorText :: "task_run_error \<Rightarrow> string"

text \<open>The texts of a timeout error and of an error (\<open>JSON.stringify\<close>) are parameters, as are the rounding of doubles
  and \<open>Math.pow\<close>.\<close>

text \<open>The calls to the database, the worker and the queue in the state.\<close>

definition on_db :: "('d \<Rightarrow> 'd) \<Rightarrow> ('d, 'q, 'j) engine_state \<Rightarrow> ('d, 'q, 'j) engine_state" where
  "on_db f st = st\<lparr>es_db := f (es_db st)\<rparr>"

definition enqueue_job ::
    "('d, 'q, 'j) engine_deps \<Rightarrow> time \<Rightarrow> string \<Rightarrow> engine_job \<Rightarrow> time \<Rightarrow> ('d, 'q, 'j) engine_state \<Rightarrow> ('d, 'q, 'j) engine_state" where
  "enqueue_job e now i job availableAt st = st\<lparr>es_jobs := w_enqueue (e_worker e) now i job availableAt (es_jobs st)\<rparr>"

definition ack_job :: "('d, 'q, 'j) engine_deps \<Rightarrow> string \<Rightarrow> ('d, 'q, 'j) engine_state \<Rightarrow> ('d, 'q, 'j) engine_state" where
  "ack_job e i st = st\<lparr>es_jobs := w_ack (e_worker e) i None (es_jobs st)\<rparr>"

definition on_queue :: "('q \<Rightarrow> rq_error + 'q) \<Rightarrow> ('d, 'q, 'j, unit) engine_op" where
  "on_queue f st = (case f (es_queue st) of Inl e \<Rightarrow> (Inl (QueueFailed e), st) | Inr q \<Rightarrow> (Inr (), st\<lparr>es_queue := q\<rparr>))"

definition find_run :: "('d, 'q, 'j) engine_deps \<Rightarrow> string \<Rightarrow> ('d, 'q, 'j, task_run) engine_op" where
  "find_run e runId st = (case run_get (e_db e) runId (es_db st) of None \<Rightarrow> (Inl RunNotFound, st) | Some r \<Rightarrow> (Inr r, st))"

text \<open>\<open>taskRun.update\<close>: an error when there is no such row, otherwise the updated row.\<close>

definition update_run :: "('d, 'q, 'j) engine_deps \<Rightarrow> string \<Rightarrow> (task_run \<Rightarrow> task_run) \<Rightarrow> ('d, 'q, 'j, task_run) engine_op" where
  "update_run e runId f st =
     (case run_get (e_db e) runId (es_db st) of
        None \<Rightarrow> (Inl RunNotFound, st)
      | Some r \<Rightarrow> (Inr (f r), on_db (run_put (e_db e) (f r)) st))"

subsection \<open>Snapshots\<close>

text \<open>The latest valid snapshot. Its completed waitpoints, which the source joins here, are the ids in the row;
  \<open>enhanced_waitpoints\<close> gives them their places in the order.\<close>

definition getLatestExecutionSnapshot :: "('d, 'q, 'j) engine_deps \<Rightarrow> string \<Rightarrow> ('d, 'q, 'j, snapshot) engine_op" where
  "getLatestExecutionSnapshot e runId st =
     (case snap_select (e_db e) (\<lambda>x. sn_runId x = runId \<and> sn_isValid x) (es_db st) of
        [] \<Rightarrow> (Inl (NoSnapshot runId), st)
      | x # _ \<Rightarrow> (Inr x, st))"

definition getHeartbeatIntervalMs :: "('d, 'q, 'j) engine_deps \<Rightarrow> exec_status \<Rightarrow> int option" where
  "getHeartbeatIntervalMs e status =
     (case status of
        ES_PENDING_EXECUTING \<Rightarrow> Some (ht_PENDING_EXECUTING (e_heartbeatTimeouts e))
      | ES_PENDING_CANCEL \<Rightarrow> Some (ht_PENDING_CANCEL (e_heartbeatTimeouts e))
      | ES_EXECUTING \<Rightarrow> Some (ht_EXECUTING (e_heartbeatTimeouts e))
      | ES_EXECUTING_WITH_WAITPOINTS \<Rightarrow> Some (ht_EXECUTING_WITH_WAITPOINTS (e_heartbeatTimeouts e))
      | ES_SUSPENDED \<Rightarrow> Some (ht_SUSPENDED (e_heartbeatTimeouts e))
      | _ \<Rightarrow> None)"

definition heartbeat_id :: "string \<Rightarrow> string" where
  "heartbeat_id runId = ''heartbeatSnapshot.'' @ runId"

text \<open>The waitpoints that continue a run, with their index in a batch.\<close>

type_synonym completed_waitpoints = "(string \<times> int option) list"

definition waitpoint_order :: "completed_waitpoints \<Rightarrow> string list" where
  "waitpoint_order ws = map fst (sort_key (\<lambda>w. the (snd w)) (filter (\<lambda>w. snd w \<noteq> None) ws))"

definition order_indexes :: "string list \<Rightarrow> string \<Rightarrow> int option list" where
  "order_indexes order w =
     (let indexes = filter (\<lambda>i. order ! i = w) [0..<length order]
      in if indexes = [] then [None] else map (\<lambda>i. Some (int i)) indexes)"

definition enhanced_waitpoints :: "snapshot \<Rightarrow> completed_waitpoints" where
  "enhanced_waitpoints x = concat (map (\<lambda>w. map (Pair w) (order_indexes (sn_completedWaitpointOrder x) w)) (sn_completedWaitpoints x))"

text \<open>The arguments of \<open>createExecutionSnapshot\<close> as a row without its id; the run's status is that of the row, except
  that a dequeued run is shown as pending.\<close>

definition snapshot_row ::
    "string \<Rightarrow> run_status \<Rightarrow> int option \<Rightarrow> exec_status \<Rightarrow> string option \<Rightarrow> string option \<Rightarrow> environment \<Rightarrow> string option \<Rightarrow>
     string option \<Rightarrow> string option \<Rightarrow> completed_waitpoints \<Rightarrow> string option \<Rightarrow> snapshot" where
  "snapshot_row runId status attemptNumber executionStatus previousSnapshotId batchId env checkpointId workerId runnerId ws error =
     \<lparr>sn_id = [], sn_runId = runId, sn_executionStatus = executionStatus,
      sn_runStatus = (if status = RS_DEQUEUED then RS_PENDING else status), sn_attemptNumber = attemptNumber,
      sn_previousSnapshotId = previousSnapshotId, sn_batchId = batchId, sn_environment = env, sn_checkpointId = checkpointId,
      sn_workerId = workerId, sn_runnerId = runnerId, sn_completedWaitpoints = remdups (map fst ws),
      sn_completedWaitpointOrder = waitpoint_order ws, sn_isValid = (case error of Some (_ # _) \<Rightarrow> False | _ \<Rightarrow> True), sn_error = error\<rparr>"

definition createExecutionSnapshot :: "('d, 'q, 'j) engine_deps \<Rightarrow> time \<Rightarrow> snapshot \<Rightarrow> ('d, 'q, 'j, snapshot) engine_op" where
  "createExecutionSnapshot e now row st =
     (let (newSnapshot, d) = snap_add (e_db e) row (es_db st);
          st = st\<lparr>es_db := d\<rparr>
      in (Inr newSnapshot,
          if sn_isValid row
          then case getHeartbeatIntervalMs e (sn_executionStatus newSnapshot) of
                 None \<Rightarrow> st
               | Some intervalMs \<Rightarrow>
                   enqueue_job e now (heartbeat_id (sn_runId row)) (HeartbeatSnapshot (sn_runId row) (sn_id newSnapshot) None) (now + intervalMs) st
          else st))"

text \<open>A snapshot that \<open>taskRun.update\<close> creates as a nested row schedules no heartbeat.\<close>

definition nested_snapshot :: "('d, 'q, 'j) engine_deps \<Rightarrow> snapshot \<Rightarrow> ('d, 'q, 'j, unit) engine_op" where
  "nested_snapshot e row st = (Inr (), st\<lparr>es_db := snd (snap_add (e_db e) row (es_db st))\<rparr>)"

definition heartbeatRun :: "('d, 'q, 'j) engine_deps \<Rightarrow> time \<Rightarrow> string \<Rightarrow> string \<Rightarrow> ('d, 'q, 'j, snapshot) engine_op" where
  "heartbeatRun e now runId snapshotId =
     then_do (getLatestExecutionSnapshot e runId) (\<lambda>latestSnapshot st.
       if sn_id latestSnapshot \<noteq> snapshotId then (Inr latestSnapshot, st)
       else case getHeartbeatIntervalMs e (sn_executionStatus latestSnapshot) of
              None \<Rightarrow> (Inr latestSnapshot, st)
            | Some intervalMs \<Rightarrow>
                (Inr latestSnapshot, st\<lparr>es_jobs := w_reschedule (e_worker e) (heartbeat_id runId) (now + intervalMs) (es_jobs st)\<rparr>))"

definition restartHeartbeatForRun ::
    "('d, 'q, 'j) engine_deps \<Rightarrow> time \<Rightarrow> string \<Rightarrow> int \<Rightarrow> int \<Rightarrow> ('d, 'q, 'j, snapshot) engine_op" where
  "restartHeartbeatForRun e now runId delayMs restartAttempt =
     then_do (getLatestExecutionSnapshot e runId) (\<lambda>latestSnapshot st.
       (Inr latestSnapshot, enqueue_job e now (heartbeat_id runId)
          (HeartbeatSnapshot runId (sn_id latestSnapshot) (Some restartAttempt)) (now + delayMs) st))"

subsection \<open>Enqueueing a run\<close>

definition run_message :: "task_run \<Rightarrow> environment \<Rightarrow> input_payload" where
  "run_message run env =
     \<lparr>p_runId = tr_id run, p_taskIdentifier = tr_taskIdentifier run, p_orgId = en_organizationId env, p_projectId = en_projectId env,
      p_environmentId = en_id env, p_environmentType = en_type env, p_queue = tr_queue run, p_concurrencyKey = tr_concurrencyKey run,
      p_timestamp = with_default (tr_queueTimestamp run) (tr_createdAt run) - tr_priorityMs run, p_attempt = 0\<rparr>"

definition queue_env :: "environment \<Rightarrow> rq_env" where
  "queue_env env = \<lparr>env_id = en_id env, project_id = en_projectId env, organization_id = en_organizationId env\<rparr>"

definition enqueueRun ::
    "('d, 'q, 'j) engine_deps \<Rightarrow> time \<Rightarrow> task_run \<Rightarrow> environment \<Rightarrow> exec_status \<Rightarrow> string option \<Rightarrow> string option \<Rightarrow> string option \<Rightarrow>
     completed_waitpoints \<Rightarrow> string option \<Rightarrow> string option \<Rightarrow> ('d, 'q, 'j, snapshot) engine_op" where
  "enqueueRun e now run env status previousSnapshotId batchId checkpointId ws workerId runnerId =
     then_do (createExecutionSnapshot e now (snapshot_row (tr_id run) (tr_status run) (tr_attemptNumber run) status previousSnapshotId
         batchId env checkpointId workerId runnerId ws None)) (\<lambda>newSnapshot.
       then_do (on_queue (q_enqueue (e_queue e) now (queue_env env) (run_message run env)
           (if en_type env = DEVELOPMENT then en_id env else tr_workerQueue run))) (\<lambda>_.
         return newSnapshot))"

subsection \<open>The order of the completed waitpoints\<close>

lemma indexed_mset:
  assumes "distinct ws" and "set order \<subseteq> set ws"
  shows "mset (concat (map (\<lambda>w. map (\<lambda>i. (w, Some (int i))) (filter (\<lambda>i. order ! i = w) [0..<length order])) ws))
    = mset (map (\<lambda>i. (order ! i, Some (int i))) [0..<length order])"
proof (rule set_eq_iff_mset_eq_distinct [THEN iffD1])
  show "distinct (map (\<lambda>i. (order ! i, Some (int i))) [0..<length order])" by (simp add: distinct_map inj_on_def)
  show "distinct (concat (map (\<lambda>w. map (\<lambda>i. (w, Some (int i))) (filter (\<lambda>i. order ! i = w) [0..<length order])) ws))"
    using assms(1) by (induction ws) (auto simp: distinct_map inj_on_def)
  show "set (concat (map (\<lambda>w. map (\<lambda>i. (w, Some (int i))) (filter (\<lambda>i. order ! i = w) [0..<length order])) ws))
      = set (map (\<lambda>i. (order ! i, Some (int i))) [0..<length order])"
    using assms(2) by (auto simp: image_iff) (meson nth_mem subsetD)+
qed

lemma filter_indexed:
  "filter (\<lambda>w. snd w \<noteq> None) (concat (map (\<lambda>w. map (Pair w) (order_indexes order w)) ws))
    = concat (map (\<lambda>w. map (\<lambda>i. (w, Some (int i))) (filter (\<lambda>i. order ! i = w) [0..<length order])) ws)"
  by (induction ws) (auto simp: order_indexes_def Let_def filter_map comp_def)

text \<open>A snapshot made from the completed waitpoints of another has them in the same order, with their repetitions.\<close>

lemma waitpoint_order_enhanced:
  assumes "distinct (sn_completedWaitpoints x)" and "set (sn_completedWaitpointOrder x) \<subseteq> set (sn_completedWaitpoints x)"
  shows "waitpoint_order (enhanced_waitpoints x) = sn_completedWaitpointOrder x"
proof -
  let ?order = "sn_completedWaitpointOrder x" and ?ws = "sn_completedWaitpoints x"
  have "filter (\<lambda>w. snd w \<noteq> None) (enhanced_waitpoints x)
      = concat (map (\<lambda>w. map (\<lambda>i. (w, Some (int i))) (filter (\<lambda>i. ?order ! i = w) [0..<length ?order])) ?ws)"
    unfolding enhanced_waitpoints_def by (rule filter_indexed)
  moreover have "sort_key (\<lambda>w. the (snd w)) (concat (map (\<lambda>w. map (\<lambda>i. (w, Some (int i))) (filter (\<lambda>i. ?order ! i = w) [0..<length ?order])) ?ws))
      = map (\<lambda>i. (?order ! i, Some (int i))) [0..<length ?order]"
    by (rule sort_key_inj_key_eq [OF indexed_mset [OF assms]]) (auto simp: inj_on_def comp_def sorted_map)
  ultimately show ?thesis by (simp add: waitpoint_order_def comp_def map_nth)
qed

subsection \<open>Laws\<close>

text \<open>The latest valid snapshot of a run in the tables.\<close>

definition latest :: "tables \<Rightarrow> string \<Rightarrow> snapshot option" where
  "latest T runId = find (\<lambda>x. sn_runId x = runId \<and> sn_isValid x) (t_snapshots T)"

lemma latest_row: "latest T runId = Some x \<Longrightarrow> sn_runId x = runId \<and> sn_isValid x"
  by (auto simp: latest_def find_Some_iff)

lemma latest_update [simp]: "latest (T\<lparr>t_runs := a\<rparr>) = latest T" "latest (T\<lparr>t_waitpoints := b\<rparr>) = latest T"
  "latest (T\<lparr>t_blocks := c\<rparr>) = latest T" "latest (T\<lparr>t_batches := d\<rparr>) = latest T"
  by (simp_all add: latest_def fun_eq_iff)

lemma latest_cons: "sn_isValid x \<Longrightarrow> latest (T\<lparr>t_snapshots := x # t_snapshots T\<rparr>) = (latest T)(sn_runId x \<mapsto> x)"
  by (auto simp: latest_def fun_eq_iff)

lemma case_filter_find: "(case filter P xs of [] \<Rightarrow> a | x # _ \<Rightarrow> f x) = (case find P xs of None \<Rightarrow> a | Some x \<Rightarrow> f x)"
  by (induction xs) auto

locale engine = engine_db "e_db e" tables + engine_worker "e_worker e" jobs used
  for e :: "('d, 'q, 'j) engine_deps" and tables :: "'d \<Rightarrow> tables" and jobs :: "'j \<Rightarrow> string \<Rightarrow> job_row option"
    and used :: "'j \<Rightarrow> string set"
begin

abbreviation tb :: "('d, 'q, 'j) engine_state \<Rightarrow> tables" where "tb st \<equiv> tables (es_db st)"

lemma getLatest_latest:
  "getLatestExecutionSnapshot e runId st = (case latest (tb st) runId of None \<Rightarrow> (Inl (NoSnapshot runId), st) | Some x \<Rightarrow> (Inr x, st))"
  unfolding getLatestExecutionSnapshot_def snap_select case_filter_find latest_def ..

text \<open>What creating a snapshot does.\<close>

lemma createExecutionSnapshot_effect:
  assumes "createExecutionSnapshot e now row st = (r, st')"
  obtains x i where "r = Inr x" "x = row\<lparr>sn_id := i\<rparr>" "i \<notin> sn_id ` set (t_snapshots (tb st))"
    "tb st' = (tb st)\<lparr>t_snapshots := x # t_snapshots (tb st)\<rparr>" "es_queue st' = es_queue st"
    "es_jobs st' = es_jobs st \<or> (\<exists>job t. es_jobs st' = w_enqueue (e_worker e) now (heartbeat_id (sn_runId row)) job t (es_jobs st))"
proof -
  let ?x = "fst (snap_add (e_db e) row (es_db st))"
  obtain i where i: "i \<notin> sn_id ` set (t_snapshots (tb st))" "?x = row\<lparr>sn_id := i\<rparr>" using snap_add(1) by blast
  have t: "tables (snd (snap_add (e_db e) row (es_db st))) = (tb st)\<lparr>t_snapshots := ?x # t_snapshots (tb st)\<rparr>" by (rule snap_add(2))
  have "es_db st' = snd (snap_add (e_db e) row (es_db st))" "es_queue st' = es_queue st" "r = Inr ?x"
    using assms by (auto simp: createExecutionSnapshot_def case_prod_beta Let_def enqueue_job_def split: option.splits if_splits)
  moreover have "es_jobs st' = es_jobs st
      \<or> (\<exists>job t. es_jobs st' = w_enqueue (e_worker e) now (heartbeat_id (sn_runId row)) job t (es_jobs st))"
    using assms by (auto simp: createExecutionSnapshot_def case_prod_beta Let_def enqueue_job_def split: option.splits if_splits) blast
  ultimately show ?thesis using that [of ?x i] i t by simp
qed

end

end
