(* ===== verification/Engine_Waitpoints.thy ===== *)
theory Engine_Waitpoints
  imports Engine_Snapshots
begin

text \<open>
  Waitpoints (\<open>engine/systems/waitpointSystem.ts\<close>): what a run can wait for. Blocking a run inserts rows that tie it to
  its waitpoints; completing a waitpoint schedules a job for every run it blocks; the job continues the run when
  none of its waitpoints is pending. The two sides do not share a lock.
\<close>

definition continue_id :: "string \<Rightarrow> string" where
  "continue_id runId = ''continueRunIfUnblocked:'' @ runId"

definition finish_id :: "string \<Rightarrow> string" where
  "finish_id waitpointId = ''finishWaitpoint.'' @ waitpointId"

definition clearBlockingWaitpoints :: "('d, 'q, 'j) engine_deps \<Rightarrow> string \<Rightarrow> ('d, 'q, 'j, nat) engine_op" where
  "clearBlockingWaitpoints e runId st =
     (Inr (length (tw_select (e_db e) (\<lambda>b. bl_taskRunId b = runId) (es_db st))), on_db (tw_delete (e_db e) (\<lambda>b. bl_taskRunId b = runId)) st)"

subsection \<open>Completing\<close>

text \<open>\<open>updateMany\<close> of the pending waitpoint; an output that is not given leaves the column alone.\<close>

definition complete_pending ::
    "('d, 'q, 'j) engine_deps \<Rightarrow> time \<Rightarrow> string \<Rightarrow> waitpoint_output option \<Rightarrow> ('d, 'q, 'j) engine_state \<Rightarrow> ('d, 'q, 'j) engine_state" where
  "complete_pending e now i output st =
     (case wp_get (e_db e) i (es_db st) of
        None \<Rightarrow> st
      | Some w \<Rightarrow>
          if wp_completed w then st
          else on_db (wp_put (e_db e) (w\<lparr>wp_completed := True, wp_completedAt := Some now,
            wp_output := (case output of None \<Rightarrow> wp_output w | Some out \<Rightarrow> Some out)\<rparr>)) st)"

definition affectedTaskRuns :: "('d, 'q, 'j) engine_deps \<Rightarrow> string \<Rightarrow> ('d, 'q, 'j) engine_state \<Rightarrow> string list" where
  "affectedTaskRuns e i st = map bl_taskRunId (tw_select (e_db e) (\<lambda>b. bl_waitpointId b = i) (es_db st))"

definition schedule_continue :: "('d, 'q, 'j) engine_deps \<Rightarrow> time \<Rightarrow> string \<Rightarrow> ('d, 'q, 'j) engine_state \<Rightarrow> ('d, 'q, 'j) engine_state" where
  "schedule_continue e now runId = enqueue_job e now (continue_id runId) (ContinueRunIfUnblocked runId) (now + 50)"

definition completeWaitpoint ::
    "('d, 'q, 'j) engine_deps \<Rightarrow> time \<Rightarrow> string \<Rightarrow> waitpoint_output option \<Rightarrow> ('d, 'q, 'j, waitpoint) engine_op" where
  "completeWaitpoint e now i output st =
     (let st = complete_pending e now i output st
      in case wp_get (e_db e) i (es_db st) of
           None \<Rightarrow> (Inl WaitpointNotFound, st)
         | Some waitpoint \<Rightarrow>
             if \<not> wp_completed waitpoint then (Inl WaitpointNotCompleted, st)
             else (Inr waitpoint, fold (schedule_continue e now) (affectedTaskRuns e i st) st))"

subsection \<open>Creating\<close>

text \<open>The waitpoint of an idempotency key, unless the key has expired; an expired key is moved aside.\<close>

definition cached_waitpoint ::
    "('d, 'q, 'j) engine_deps \<Rightarrow> time \<Rightarrow> string \<Rightarrow> string \<Rightarrow> string option \<Rightarrow> ('d, 'q, 'j) engine_state \<Rightarrow>
     waitpoint option \<times> ('d, 'q, 'j) engine_state" where
  "cached_waitpoint e now nano environmentId idempotencyKey st =
     (case idempotencyKey of
        Some (c # cs) \<Rightarrow>
          (case wp_select (e_db e) (\<lambda>w. wp_environmentId w = environmentId \<and> wp_idempotencyKey w = c # cs) (es_db st) of
             [] \<Rightarrow> (None, st)
           | w # _ \<Rightarrow>
               (case wp_idempotencyKeyExpiresAt w of
                  Some t \<Rightarrow>
                    if now > t
                    then (None, on_db (wp_put (e_db e) (w\<lparr>wp_idempotencyKey := nano, wp_inactiveIdempotencyKey := Some (wp_idempotencyKey w)\<rparr>)) st)
                    else (Some w, st)
                | None \<Rightarrow> (Some w, st)))
      | _ \<Rightarrow> (None, st))"

text \<open>\<open>upsert\<close> with an empty update: the row of the key, or a new one.\<close>

definition upsert_waitpoint :: "('d, 'q, 'j) engine_deps \<Rightarrow> waitpoint \<Rightarrow> ('d, 'q, 'j) engine_state \<Rightarrow> waitpoint \<times> ('d, 'q, 'j) engine_state" where
  "upsert_waitpoint e w st =
     (case wp_select (e_db e) (\<lambda>x. wp_environmentId x = wp_environmentId w \<and> wp_idempotencyKey x = wp_idempotencyKey w) (es_db st) of
        [] \<Rightarrow> (w, on_db (wp_put (e_db e) w) st)
      | x # _ \<Rightarrow> (x, st))"

definition new_waitpoint ::
    "waitpoint_type \<Rightarrow> string \<Rightarrow> string \<Rightarrow> string option \<Rightarrow> time option \<Rightarrow> string \<Rightarrow> string \<Rightarrow> time option \<Rightarrow> waitpoint" where
  "new_waitpoint ty newId nano idempotencyKey idempotencyKeyExpiresAt environmentId projectId completedAfter =
     \<lparr>wp_id = newId, wp_type = ty, wp_completed = False, wp_completedAt = None, wp_output = None,
      wp_idempotencyKey = with_default idempotencyKey nano,
      wp_userProvidedIdempotencyKey = (case idempotencyKey of Some (_ # _) \<Rightarrow> True | _ \<Rightarrow> False),
      wp_idempotencyKeyExpiresAt = idempotencyKeyExpiresAt, wp_inactiveIdempotencyKey = None, wp_completedByTaskRunId = None,
      wp_completedByBatchId = None, wp_completedAfter = completedAfter, wp_environmentId = environmentId, wp_projectId = projectId\<rparr>"

text \<open>The answer is the waitpoint and whether it was there already. \<open>nano1\<close> and \<open>nano2\<close> are generated keys, \<open>newId\<close> is
  the generated id.\<close>

definition createDateTimeWaitpoint ::
    "('d, 'q, 'j) engine_deps \<Rightarrow> time \<Rightarrow> string \<Rightarrow> string \<Rightarrow> string \<Rightarrow> string \<Rightarrow> string \<Rightarrow> time \<Rightarrow> string option \<Rightarrow> time option \<Rightarrow>
     ('d, 'q, 'j, waitpoint \<times> bool) engine_op" where
  "createDateTimeWaitpoint e now newId nano1 nano2 projectId environmentId completedAfter idempotencyKey idempotencyKeyExpiresAt st =
     (case cached_waitpoint e now nano1 environmentId idempotencyKey st of
        (Some w, st) \<Rightarrow> (Inr (w, True), st)
      | (None, st) \<Rightarrow>
          (let (w, st) = upsert_waitpoint e (new_waitpoint WP_DATETIME newId nano2 idempotencyKey idempotencyKeyExpiresAt
                 environmentId projectId (Some completedAfter)) st
           in (Inr (w, False), enqueue_job e now (finish_id (wp_id w)) (FinishWaitpoint (wp_id w) None) completedAfter st)))"

text \<open>Creating a manual waitpoint tries again when another request violates the unique key meanwhile: \<open>conflicts\<close> tells
  whether the nth attempt does.\<close>

fun create_manual ::
    "nat \<Rightarrow> (nat \<Rightarrow> bool) \<Rightarrow> ('d, 'q, 'j) engine_deps \<Rightarrow> time \<Rightarrow> waitpoint \<Rightarrow> time option \<Rightarrow> ('d, 'q, 'j, waitpoint \<times> bool) engine_op" where
  "create_manual 0 conflicts e now w timeout st = (Inl WaitpointConflict, st)"
| "create_manual (Suc n) conflicts e now w timeout st =
     (if conflicts n then create_manual n conflicts e now w timeout st
      else
        (let (w, st) = upsert_waitpoint e w st
         in (Inr (w, False),
             case timeout of
               None \<Rightarrow> st
             | Some t \<Rightarrow> enqueue_job e now (finish_id (wp_id w)) (FinishWaitpoint (wp_id w) (Some (e_timeoutError e t))) t st)))"

definition createManualWaitpoint ::
    "('d, 'q, 'j) engine_deps \<Rightarrow> time \<Rightarrow> (nat \<Rightarrow> bool) \<Rightarrow> string \<Rightarrow> string \<Rightarrow> string \<Rightarrow> string \<Rightarrow> string \<Rightarrow> string option \<Rightarrow> time option \<Rightarrow>
     time option \<Rightarrow> ('d, 'q, 'j, waitpoint \<times> bool) engine_op" where
  "createManualWaitpoint e now conflicts newId nano1 nano2 environmentId projectId idempotencyKey idempotencyKeyExpiresAt timeout st =
     (case cached_waitpoint e now nano1 environmentId idempotencyKey st of
        (Some w, st) \<Rightarrow> (Inr (w, True), st)
      | (None, st) \<Rightarrow> create_manual 5 conflicts e now (new_waitpoint WP_MANUAL newId nano2 idempotencyKey idempotencyKeyExpiresAt
          environmentId projectId timeout) timeout st)"

subsection \<open>Blocking\<close>

text \<open>The statement of \<open>blockRunWithWaitpoint\<close>: a row for every waitpoint of the list that exists, unless the run, the
  waitpoint and the index (null or not) already have one; the answer is how many of the inserted rows have a
  pending waitpoint. The table of connections, which only the dashboard reads, is left out.\<close>

definition block_exists :: "('d, 'q, 'j) engine_deps \<Rightarrow> string \<Rightarrow> int option \<Rightarrow> string \<Rightarrow> 'd \<Rightarrow> bool" where
  "block_exists e runId batchIndex w d =
     (tw_select (e_db e) (\<lambda>b. bl_taskRunId b = runId \<and> bl_waitpointId b = w \<and> bl_batchIndex b = batchIndex) d \<noteq> [])"

definition insert_blocks ::
    "('d, 'q, 'j) engine_deps \<Rightarrow> string \<Rightarrow> string list \<Rightarrow> string option \<Rightarrow> (string \<times> int option) option \<Rightarrow> 'd \<Rightarrow> nat \<times> 'd" where
  "insert_blocks e runId waitpoints spanIdToComplete batch d =
     (let batchIndex = (case batch of None \<Rightarrow> None | Some (_, i) \<Rightarrow> i);
          rows = remdups (filter (\<lambda>w. wp_get (e_db e) w d \<noteq> None \<and> \<not> block_exists e runId batchIndex w d) waitpoints);
          pending = filter (\<lambda>w. \<not> wp_completed (the (wp_get (e_db e) w d))) rows
      in (length pending,
          fold (\<lambda>w. tw_add (e_db e) \<lparr>bl_id = [], bl_taskRunId = runId, bl_waitpointId = w, bl_spanIdToComplete = spanIdToComplete,
            bl_batchId = map_option fst batch, bl_batchIndex = batchIndex\<rparr>) rows d))"

definition blockRunWithWaitpoint ::
    "('d, 'q, 'j) engine_deps \<Rightarrow> time \<Rightarrow> string \<Rightarrow> string list \<Rightarrow> string \<Rightarrow> time option \<Rightarrow> string option \<Rightarrow> (string \<times> int option) option \<Rightarrow>
     string option \<Rightarrow> string option \<Rightarrow> ('d, 'q, 'j, snapshot) engine_op" where
  "blockRunWithWaitpoint e now runId waitpoints organizationId timeout spanIdToComplete batch workerId runnerId =
     then_do (getLatestExecutionSnapshot e runId) (\<lambda>snapshot st.
       let (pending, d) = insert_blocks e runId waitpoints spanIdToComplete batch (es_db st);
           st = st\<lparr>es_db := d\<rparr>;
           isRunBlocked = (pending > 0);
           newStatus = (if sn_executionStatus snapshot = ES_EXECUTING \<or> sn_executionStatus snapshot = ES_EXECUTING_WITH_WAITPOINTS
             then ES_EXECUTING_WITH_WAITPOINTS else ES_SUSPENDED)
       in then_do (if newStatus \<noteq> sn_executionStatus snapshot
            then createExecutionSnapshot e now (snapshot_row (sn_runId snapshot) (sn_runStatus snapshot) (sn_attemptNumber snapshot) newStatus
              (Some (sn_id snapshot)) (map_option fst batch) ((sn_environment snapshot)\<lparr>en_organizationId := organizationId\<rparr>) None
              workerId runnerId [] None)
            else return snapshot) (\<lambda>snapshot st.
          let st = (case timeout of
                None \<Rightarrow> st
              | Some t \<Rightarrow> fold (\<lambda>w. enqueue_job e now (finish_id w) (FinishWaitpoint w (Some (e_timeoutError e t))) t) waitpoints st)
          in (Inr snapshot, if isRunBlocked then st else schedule_continue e now runId st)) st)"

subsection \<open>Continuing\<close>

datatype continuation = Unblocked "string list" | Skipped | Blocked "string list"

definition is_pending :: "('d, 'q, 'j) engine_deps \<Rightarrow> 'd \<Rightarrow> run_block \<Rightarrow> bool" where
  "is_pending e d b = (case wp_get (e_db e) (bl_waitpointId b) d of None \<Rightarrow> False | Some w \<Rightarrow> \<not> wp_completed w)"

definition continueRunIfUnblocked :: "('d, 'q, 'j) engine_deps \<Rightarrow> time \<Rightarrow> string \<Rightarrow> ('d, 'q, 'j, continuation) engine_op" where
  "continueRunIfUnblocked e now runId st =
     (let blockingWaitpoints = tw_select (e_db e) (\<lambda>b. bl_taskRunId b = runId) (es_db st);
          ids = map bl_waitpointId blockingWaitpoints;
          completed = map (\<lambda>b. (bl_waitpointId b, bl_batchIndex b)) blockingWaitpoints;
          unblock = (\<lambda>_ st. (Inr (Unblocked ids),
            if blockingWaitpoints = [] then st
            else on_db (tw_delete (e_db e) (\<lambda>b. bl_taskRunId b = runId \<and> List.member (map bl_id blockingWaitpoints) (bl_id b))) st))
      in if list_ex (is_pending e (es_db st)) blockingWaitpoints then (Inr (Blocked ids), st)
         else
           then_do (find_run e runId) (\<lambda>run.
             then_do (getLatestExecutionSnapshot e runId) (\<lambda>snapshot.
               case sn_executionStatus snapshot of
                 ES_EXECUTING_WITH_WAITPOINTS \<Rightarrow>
                   then_do (createExecutionSnapshot e now (snapshot_row runId (sn_runStatus snapshot) (sn_attemptNumber snapshot) ES_EXECUTING
                     (Some (sn_id snapshot)) (sn_batchId snapshot) (sn_environment snapshot) None None None completed None)) unblock
               | ES_SUSPENDED \<Rightarrow>
                   (case sn_checkpointId snapshot of
                      Some (c # cs) \<Rightarrow>
                        then_do (enqueueRun e now run (tr_environment run) ES_QUEUED None (sn_batchId snapshot) (sn_checkpointId snapshot) completed None None) unblock
                    | _ \<Rightarrow> throw (NoCheckpoint runId))
               | _ \<Rightarrow> return Skipped)) st)"

end
