(* ===== verification/Engine_Retrying.thy ===== *)
theory Engine_Retrying
  imports Engine_Waitpoints
begin

text \<open>
  What follows from a failed attempt (\<open>engine/retrying.ts\<close>): the run is cancelled, fails, or is tried again. The
  function reads the run once; here the row is an argument. A delay of zero counts as none, as in the source.
\<close>

datatype retry_method = Retry_queue | Retry_immediate

record retry_settings =
  rs_timestamp :: time
  rs_delay :: int

datatype retry_outcome =
    CancelOutcome "string option"
  | FailOutcome task_run_error bool
  | RetryOutcome retry_method retry_settings "string option" bool int rat "string option"

definition nonzero :: "int option \<Rightarrow> int option" where
  "nonzero v = (if v = Some 0 then None else v)"

definition nonempty :: "string option \<Rightarrow> string option" where
  "nonempty v = (if v = Some [] then None else v)"

definition cancelled_message :: "task_run_error \<Rightarrow> string option option" where
  "cancelled_message error = (case error of InternalError code message _ \<Rightarrow> if code = TASK_RUN_CANCELLED then Some message else None | _ \<Rightarrow> None)"

text \<open>The machine to try again on, the retry options, and the usage so far.\<close>

definition retryOOMOnMachine :: "task_run option \<Rightarrow> (string \<times> retry_options \<times> task_run) option" where
  "retryOOMOnMachine row =
     (case row of
        None \<Rightarrow> None
      | Some run \<Rightarrow>
          (case (tr_retryConfig run, nonempty (tr_machinePreset run)) of
             (Some (ValidRetry opts machine), Some preset) \<Rightarrow>
               (case nonempty machine of
                  None \<Rightarrow> None
                | Some retryMachine \<Rightarrow> if preset = retryMachine then None else Some (retryMachine, opts, run))
           | _ \<Rightarrow> None))"

definition retryOutcomeFromCompletion ::
    "('d, 'q, 'j) engine_deps \<Rightarrow> rat \<Rightarrow> time \<Rightarrow> task_run option \<Rightarrow> int option \<Rightarrow> task_run_error \<Rightarrow> bool \<Rightarrow> retry_settings option \<Rightarrow>
     engine_error + retry_outcome" where
  "retryOutcomeFromCompletion e rnd now row attemptNumber error retryUsingQueue retrySettings =
     (let delay = (\<lambda>opts. nonzero (calculateNextRetryDelay (e_fl e) (e_pow e) opts (with_default attemptNumber 1) rnd));
          sanitizedError = sanitizeError error;
          enhancedError = taskRunErrorEnhancer error;
          usage = (\<lambda>f run. f (tr_usageDurationMs run) (tr_costInCents run) (tr_machinePreset run))
      in case cancelled_message error of
           Some message \<Rightarrow> Inr (CancelOutcome message)
         | None \<Rightarrow>
             if isOOMRunError error
             then case retryOOMOnMachine row of
                    None \<Rightarrow> Inr (FailOutcome sanitizedError True)
                  | Some (machine, opts, run) \<Rightarrow>
                      (case delay opts of
                         None \<Rightarrow> Inr (FailOutcome sanitizedError True)
                       | Some d \<Rightarrow> Inr (usage (RetryOutcome Retry_queue \<lparr>rs_timestamp = now + d, rs_delay = d\<rparr> (Some machine) True) run))
             else if \<not> shouldRetryError enhancedError then Inr (FailOutcome sanitizedError False)
             else if (case attemptNumber of None \<Rightarrow> False | Some n \<Rightarrow> n > MAX_TASK_RUN_ATTEMPTS) then Inr (FailOutcome sanitizedError False)
             else
               (case row of
                  None \<Rightarrow> Inl RunNotFound
                | Some run \<Rightarrow>
                    (case nonzero (tr_maxAttempts run) of
                       None \<Rightarrow> Inr (FailOutcome sanitizedError False)
                     | Some maxA \<Rightarrow>
                         if (case attemptNumber of None \<Rightarrow> False | Some n \<Rightarrow> n \<ge> maxA) then Inr (FailOutcome sanitizedError False)
                         else
                           (case retrySettings of
                              Some settings \<Rightarrow>
                                Inr (usage (RetryOutcome (if retryUsingQueue then Retry_queue else Retry_immediate) settings None False) run)
                            | None \<Rightarrow>
                                if \<not> shouldLookupRetrySettings enhancedError then Inr (FailOutcome sanitizedError False)
                                else
                                  (case tr_retryConfig run of
                                     Some (ValidRetry opts machine) \<Rightarrow>
                                       (case delay opts of
                                          None \<Rightarrow> Inr (FailOutcome sanitizedError False)
                                        | Some d \<Rightarrow> Inr (usage (RetryOutcome Retry_queue \<lparr>rs_timestamp = now + d, rs_delay = d\<rparr> None False) run))
                                   | _ \<Rightarrow> Inr (FailOutcome sanitizedError False))))))"

subsection \<open>When a run is tried again\<close>

text \<open>A run that did not run out of memory is tried again only for an error that allows it, with attempts left.\<close>

lemma retry_allowed:
  assumes "retryOutcomeFromCompletion e rnd now row attemptNumber error q settings
      = Inr (RetryOutcome m s machine False usage cost preset)"
  shows "shouldRetryError (taskRunErrorEnhancer error)"
    "\<exists>run maxA. row = Some run \<and> tr_maxAttempts run = Some maxA \<and> (\<forall>n. attemptNumber = Some n \<longrightarrow> n < maxA \<and> n \<le> MAX_TASK_RUN_ATTEMPTS)"
    "machine = None"
  using assms
  by (auto simp: retryOutcomeFromCompletion_def Let_def nonzero_def not_le not_less split: if_splits option.splits retry_json.splits)

end
