(* ===== verification/Engine_Attempts.thy ===== *)
theory Engine_Attempts
  imports Engine_Retrying
begin

text \<open>
  The attempts of runs (\<open>engine/systems/runAttemptSystem.ts\<close>): starting one, completing it, and cancelling a run. All of
  these hold the run's lock. The payload that a worker gets when it starts an attempt, the metadata of completions, bulk
  action ids and the events are left out.

  A failed attempt that should be queued again but cannot be is failed in turn: the recursion of the source has fuel
  here, and two rounds are enough (\<open>attemptFailed_fuel_enough\<close>). Reads from the replica see what was written.
\<close>

subsection \<open>Usage\<close>

definition MAX_INT4 :: int where
  "MAX_INT4 = 2147483647"

text \<open>The rate of a machine; a name that is not among the machines has none, and the cost is not a number.\<close>

definition centsPerMs :: "('d, 'q, 'j) engine_deps \<Rightarrow> string option \<Rightarrow> rat option" where
  "centsPerMs e machinePresetName =
     map_option mp_centsPerMs
       (case nonempty machinePresetName of
          Some name \<Rightarrow> Option.bind (parse_machine name) (machinePresetFromName (e_machines e))
        | None \<Rightarrow> machinePresetFromName (e_machines e) (e_defaultMachine e))"

definition calculateUpdatedUsage ::
    "('d, 'q, 'j) engine_deps \<Rightarrow> int \<Rightarrow> rat \<Rightarrow> int \<Rightarrow> string option \<Rightarrow> environment_type \<Rightarrow> int \<times> rat option" where
  "calculateUpdatedUsage e currentUsageDurationMs currentCostInCents attemptDurationMs machinePresetName environmentType =
     (let usageDurationMs = currentUsageDurationMs + attemptDurationMs;
          usageDurationMs = (if usageDurationMs > MAX_INT4 then MAX_INT4 else usageDurationMs)
      in (usageDurationMs,
          if environmentType \<noteq> DEVELOPMENT
          then map_option (\<lambda>rate. e_fl e (currentCostInCents + e_fl e (of_int attemptDurationMs * rate))) (centsPerMs e machinePresetName)
          else Some currentCostInCents))"

text \<open>The columns of the usage in an update; the database refuses a cost that is not a number.\<close>

definition update_usage ::
    "('d, 'q, 'j) engine_deps \<Rightarrow> string \<Rightarrow> (task_run \<Rightarrow> task_run) \<Rightarrow> int \<times> rat option \<Rightarrow> ('d, 'q, 'j, task_run) engine_op" where
  "update_usage e runId f usage =
     (case snd usage of
        None \<Rightarrow> throw InvalidState
      | Some cost \<Rightarrow> update_run e runId (\<lambda>r. (f r)\<lparr>tr_usageDurationMs := fst usage, tr_costInCents := cost\<rparr>))"

subsection \<open>The end of a run\<close>

definition associatedWaitpoint :: "('d, 'q, 'j) engine_deps \<Rightarrow> string \<Rightarrow> ('d, 'q, 'j, waitpoint) engine_op" where
  "associatedWaitpoint e runId st =
     (case wp_select (e_db e) (\<lambda>w. wp_completedByTaskRunId w = Some runId) (es_db st) of
        [] \<Rightarrow> (Inl NoAssociatedWaitpoint, st)
      | w # _ \<Rightarrow> (Inr w, st))"

definition scheduleCompleteBatch :: "('d, 'q, 'j) engine_deps \<Rightarrow> time \<Rightarrow> string \<Rightarrow> ('d, 'q, 'j) engine_state \<Rightarrow> ('d, 'q, 'j) engine_state" where
  "scheduleCompleteBatch e now batchId = enqueue_job e now (''tryCompleteBatch:'' @ batchId) (TryCompleteBatch batchId) (now + 200)"

definition finalizeRun :: "('d, 'q, 'j) engine_deps \<Rightarrow> time \<Rightarrow> string \<Rightarrow> string option \<Rightarrow> ('d, 'q, 'j, unit) engine_op" where
  "finalizeRun e now runId batchId st =
     (let st = (case nonempty batchId of None \<Rightarrow> st | Some b \<Rightarrow> scheduleCompleteBatch e now b st)
      in (Inr (), ack_job e (heartbeat_id runId) st))"

definition run_org :: "task_run \<Rightarrow> string" where
  "run_org run = en_organizationId (tr_environment run)"

text \<open>The waitpoint that the run completes, then what every end of a run does.\<close>

definition finish_run ::
    "('d, 'q, 'j) engine_deps \<Rightarrow> time \<Rightarrow> task_run \<Rightarrow> waitpoint \<Rightarrow> waitpoint_output option \<Rightarrow> ('d, 'q, 'j, unit) engine_op" where
  "finish_run e now run w outp =
     then_do (completeWaitpoint e now (wp_id w) outp) (\<lambda>_. finalizeRun e now (tr_id run) (tr_batchId run))"

datatype attempt_status = RUN_FINISHED | RUN_PENDING_CANCEL | RETRY_QUEUED | RETRY_IMMEDIATELY

definition attemptSucceeded ::
    "('d, 'q, 'j) engine_deps \<Rightarrow> time \<Rightarrow> string \<Rightarrow> string \<Rightarrow> string option \<Rightarrow> string option \<Rightarrow> int option \<Rightarrow> string option \<Rightarrow> string option \<Rightarrow>
     ('d, 'q, 'j, attempt_status \<times> snapshot) engine_op" where
  "attemptSucceeded e now runId snapshotId outp outputType durationMs workerId runnerId =
     then_do (getLatestExecutionSnapshot e runId) (\<lambda>latestSnapshot.
       if sn_id latestSnapshot \<noteq> snapshotId then throw SnapshotChanged
       else if sn_executionStatus latestSnapshot = ES_FINISHED then throw AlreadyFinished
       else
         then_do (find_run e runId) (\<lambda>currentRun.
         then_do (update_usage e runId (\<lambda>r. r\<lparr>tr_status := RS_COMPLETED_SUCCESSFULLY, tr_completedAt := Some now,
             tr_output := (case outp of None \<Rightarrow> tr_output r | Some x \<Rightarrow> Some x)\<rparr>)
           (calculateUpdatedUsage e (tr_usageDurationMs currentRun) (tr_costInCents currentRun) (with_default durationMs 0)
             (tr_machinePreset currentRun) (en_type (sn_environment latestSnapshot)))) (\<lambda>run.
         then_do (nested_snapshot e (snapshot_row runId RS_COMPLETED_SUCCESSFULLY (sn_attemptNumber latestSnapshot) ES_FINISHED None None
               (sn_environment latestSnapshot) None workerId runnerId [] None)) (\<lambda>_.
         then_do (getLatestExecutionSnapshot e runId) (\<lambda>newSnapshot.
         then_do (on_queue (q_ack (e_queue e) now (run_org run) runId False)) (\<lambda>_.
         then_do (associatedWaitpoint e runId) (\<lambda>w.
         then_do (finish_run e now run w (map_option (\<lambda>x. \<lparr>wo_value = x, wo_type = outputType, wo_isError = False\<rparr>) (nonempty outp))) (\<lambda>_.
           return (RUN_FINISHED, newSnapshot)))))))))"

subsection \<open>Cancelling\<close>

definition cancel_id :: "string \<Rightarrow> string" where
  "cancel_id runId = ''cancelRun:'' @ runId"

definition delayed_id :: "string \<Rightarrow> string" where
  "delayed_id runId = ''enqueueDelayedRun:'' @ runId"

text \<open>The new row of a run that is cancelled.\<close>

definition cancelled_row :: "time \<Rightarrow> time option \<Rightarrow> string \<Rightarrow> bool \<Rightarrow> task_run \<Rightarrow> task_run" where
  "cancelled_row now completedAt reason finalize r = r\<lparr>tr_status := RS_CANCELED, tr_error := Some (StringError reason),
     tr_completedAt := (case completedAt of Some t \<Rightarrow> Some t | None \<Rightarrow> if finalize then Some now else tr_completedAt r)\<rparr>"

definition preventDelayedRunFromBeingEnqueued :: "('d, 'q, 'j) engine_deps \<Rightarrow> string \<Rightarrow> ('d, 'q, 'j, unit) engine_op" where
  "preventDelayedRunFromBeingEnqueued e runId st = (Inr (), ack_job e (delayed_id runId) st)"

definition cancel_children :: "('d, 'q, 'j) engine_deps \<Rightarrow> time \<Rightarrow> task_run \<Rightarrow> string \<Rightarrow> ('d, 'q, 'j, unit) engine_op" where
  "cancel_children e now run reason st =
     (Inr (), fold (\<lambda>child. enqueue_job e now (cancel_id (tr_id child))
          (CancelRun (tr_id child) (Some (with_default (tr_completedAt run) now)) (Some reason)) now)
        (run_select (e_db e) (\<lambda>r. tr_parentTaskRunId r = Some (tr_id run)) (es_db st)) st)"

text \<open>The update of the row, with the usage of the attempt when it is known, and what follows it.\<close>

definition cancel_update ::
    "('d, 'q, 'j) engine_deps \<Rightarrow> time \<Rightarrow> string \<Rightarrow> time option \<Rightarrow> string \<Rightarrow> bool \<Rightarrow> int option \<Rightarrow> snapshot \<Rightarrow> ('d, 'q, 'j, task_run) engine_op" where
  "cancel_update e now runId completedAt reason finalize attemptDurationMs latestSnapshot =
     (case attemptDurationMs of
        None \<Rightarrow> update_run e runId (cancelled_row now completedAt reason finalize)
      | Some d \<Rightarrow>
          then_do (find_run e runId) (\<lambda>currentRun.
            update_usage e runId (cancelled_row now completedAt reason finalize)
              (calculateUpdatedUsage e (tr_usageDurationMs currentRun) (tr_costInCents currentRun) d
                (tr_machinePreset currentRun) (en_type (sn_environment latestSnapshot)))))"

definition cancel_rest ::
    "('d, 'q, 'j) engine_deps \<Rightarrow> time \<Rightarrow> string \<Rightarrow> string option \<Rightarrow> string option \<Rightarrow> string \<Rightarrow> snapshot \<Rightarrow> task_run \<Rightarrow>
     ('d, 'q, 'j, snapshot \<times> bool) engine_op" where
  "cancel_rest e now runId workerId runnerId reason latestSnapshot run =
     (let next_snapshot = (\<lambda>status. createExecutionSnapshot e now (snapshot_row runId (tr_status run) (tr_attemptNumber run) status
            (Some (sn_id latestSnapshot)) None (sn_environment latestSnapshot) None workerId runnerId [] None))
      in then_do (if isInitialState (sn_executionStatus latestSnapshot) \<and> tr_delayUntil run \<noteq> None
            then preventDelayedRunFromBeingEnqueued e runId else return ()) (\<lambda>_.
         then_do (on_queue (q_ack (e_queue e) now (run_org run) runId True)) (\<lambda>_.
         if isExecuting (sn_executionStatus latestSnapshot) \<or> isPendingExecuting (sn_executionStatus latestSnapshot)
         then then_do (next_snapshot ES_PENDING_CANCEL) (\<lambda>newSnapshot. return (newSnapshot, False))
         else
           then_do (next_snapshot ES_FINISHED) (\<lambda>newSnapshot.
           then_do (associatedWaitpoint e runId) (\<lambda>w.
           then_do (finish_run e now run w (Some \<lparr>wo_value = e_errorText e (StringError reason), wo_type = None, wo_isError = True\<rparr>)) (\<lambda>_.
           then_do (cancel_children e now run reason) (\<lambda>_. return (newSnapshot, False))))))))"

text \<open>The answer is the snapshot and whether the run was finished already.\<close>

definition cancelRun ::
    "('d, 'q, 'j) engine_deps \<Rightarrow> time \<Rightarrow> string \<Rightarrow> string option \<Rightarrow> string option \<Rightarrow> time option \<Rightarrow> string option \<Rightarrow> bool \<Rightarrow> int option \<Rightarrow>
     ('d, 'q, 'j, snapshot \<times> bool) engine_op" where
  "cancelRun e now runId workerId runnerId completedAt givenReason finalize attemptDurationMs =
     (let reason = with_default givenReason ''Canceled by user'' in
      then_do (getLatestExecutionSnapshot e runId) (\<lambda>latestSnapshot.
        if sn_executionStatus latestSnapshot = ES_FINISHED then return (latestSnapshot, True)
        else if sn_executionStatus latestSnapshot = ES_PENDING_CANCEL \<and> \<not> finalize then return (latestSnapshot, False)
        else
          then_do (cancel_update e now runId completedAt reason finalize attemptDurationMs latestSnapshot)
            (cancel_rest e now runId workerId runnerId reason latestSnapshot)))"

subsection \<open>Failing\<close>

definition permanentlyFailRun ::
    "('d, 'q, 'j) engine_deps \<Rightarrow> time \<Rightarrow> string \<Rightarrow> snapshot \<Rightarrow> task_run_error \<Rightarrow> string option \<Rightarrow> string option \<Rightarrow> int option \<Rightarrow>
     ('d, 'q, 'j, attempt_status \<times> snapshot) engine_op" where
  "permanentlyFailRun e now runId latestSnapshot error workerId runnerId attemptDurationMs =
     (let status = runStatusFromError error (en_type (sn_environment latestSnapshot));
          truncatedError = truncateTaskRunError error in
      then_do (find_run e runId) (\<lambda>currentRun.
      then_do (update_usage e runId (\<lambda>r. r\<lparr>tr_status := status, tr_completedAt := Some now, tr_error := Some truncatedError\<rparr>)
        (calculateUpdatedUsage e (tr_usageDurationMs currentRun) (tr_costInCents currentRun) (with_default attemptDurationMs 0)
          (tr_machinePreset currentRun) (en_type (sn_environment latestSnapshot)))) (\<lambda>run.
      then_do (createExecutionSnapshot e now (snapshot_row runId (tr_status run) (tr_attemptNumber run) ES_FINISHED
          (Some (sn_id latestSnapshot)) None (tr_environment run) None workerId runnerId [] None)) (\<lambda>newSnapshot.
      then_do (associatedWaitpoint e runId) (\<lambda>w.
      then_do (on_queue (q_ack (e_queue e) now (run_org run) runId True)) (\<lambda>_.
      then_do (finish_run e now run w (Some \<lparr>wo_value = e_errorText e truncatedError, wo_type = None, wo_isError = True\<rparr>)) (\<lambda>_.
        return (RUN_FINISHED, newSnapshot))))))))"

text \<open>What a worker reports of a failed attempt.\<close>

record failed_completion =
  fc_error :: task_run_error
  fc_retry :: "retry_settings option"
  fc_durationMs :: "int option"

definition max_retries_error :: task_run_error where
  "max_retries_error = InternalError TASK_RUN_DEQUEUED_MAX_RETRIES
     (Some ''We tried to dequeue the run the maximum number of times but it wouldn't start executing'') None"

text \<open>\<open>fail\<close> is \<open>attemptFailed\<close> for a run, a snapshot and an error.\<close>

definition systemFailure_with ::
    "(string \<Rightarrow> string \<Rightarrow> task_run_error \<Rightarrow> ('d, 'q, 'j, attempt_status \<times> snapshot) engine_op) \<Rightarrow>
     ('d, 'q, 'j) engine_deps \<Rightarrow> string \<Rightarrow> task_run_error \<Rightarrow> ('d, 'q, 'j, attempt_status \<times> snapshot) engine_op" where
  "systemFailure_with fail e runId error =
     then_do (getLatestExecutionSnapshot e runId) (\<lambda>latestSnapshot.
       if sn_executionStatus latestSnapshot = ES_FINISHED then return (RUN_FINISHED, latestSnapshot)
       else fail runId (sn_id latestSnapshot) error)"

definition nack :: "('d, 'q, 'j) engine_deps \<Rightarrow> time \<Rightarrow> string \<Rightarrow> string \<Rightarrow> time option \<Rightarrow> ('d, 'q, 'j, bool) engine_op" where
  "nack e now orgId messageId retryAt st =
     (case q_nack (e_queue e) now orgId messageId retryAt (es_queue st) of
        Inl err \<Rightarrow> (Inl (QueueFailed err), st)
      | Inr (r, q) \<Rightarrow> (Inr (r = Some True), st\<lparr>es_queue := q\<rparr>))"

definition tryNackAndRequeue_with ::
    "(string \<Rightarrow> string \<Rightarrow> task_run_error \<Rightarrow> ('d, 'q, 'j, attempt_status \<times> snapshot) engine_op) \<Rightarrow>
     ('d, 'q, 'j) engine_deps \<Rightarrow> time \<Rightarrow> string \<Rightarrow> environment \<Rightarrow> time option \<Rightarrow> task_run_error \<Rightarrow> string option \<Rightarrow> string option \<Rightarrow>
     string option \<Rightarrow> completed_waitpoints \<Rightarrow> string option \<Rightarrow> ('d, 'q, 'j, bool \<times> snapshot) engine_op" where
  "tryNackAndRequeue_with fail e now runId env timestamp error workerId runnerId checkpointId ws batchId =
     then_do (nack e now (en_organizationId env) runId timestamp) (\<lambda>gotRequeued.
       if \<not> gotRequeued then then_do (systemFailure_with fail e runId error) (\<lambda>result. return (False, snd result))
       else
         then_do (update_run e runId (\<lambda>r. r\<lparr>tr_status := RS_PENDING\<rparr>)) (\<lambda>requeuedRun.
         then_do (createExecutionSnapshot e now (snapshot_row runId (tr_status requeuedRun) (tr_attemptNumber requeuedRun) ES_QUEUED None
             batchId env checkpointId workerId runnerId ws None)) (\<lambda>newSnapshot. return (True, newSnapshot))))"

text \<open>What follows from the outcome of \<open>retryOutcomeFromCompletion\<close>.\<close>

definition handle_outcome ::
    "(string \<Rightarrow> string \<Rightarrow> task_run_error \<Rightarrow> ('d, 'q, 'j, attempt_status \<times> snapshot) engine_op) \<Rightarrow>
     ('d, 'q, 'j) engine_deps \<Rightarrow> time \<Rightarrow> bool \<Rightarrow> string option \<Rightarrow> string option \<Rightarrow> string \<Rightarrow> snapshot \<Rightarrow> int option \<Rightarrow> retry_outcome \<Rightarrow>
     ('d, 'q, 'j, attempt_status \<times> snapshot) engine_op" where
  "handle_outcome fail e now forceRequeue workerId runnerId runId latestSnapshot durationMs retryResult =
     (case retryResult of
        CancelOutcome reason \<Rightarrow>
          then_do (cancelRun e now runId None None (Some now) reason True durationMs) (\<lambda>result.
            return (if sn_executionStatus (fst result) = ES_PENDING_CANCEL then RUN_PENDING_CANCEL else RUN_FINISHED, fst result))
      | FailOutcome sanitizedError wasOOM \<Rightarrow>
          permanentlyFailRun e now runId latestSnapshot sanitizedError workerId runnerId durationMs
      | RetryOutcome method settings machine wasOOM usage cost machinePreset \<Rightarrow>
          then_do (update_usage e runId (\<lambda>r. r\<lparr>tr_machinePreset := (case machine of None \<Rightarrow> tr_machinePreset r | Some m \<Rightarrow> Some m)\<rparr>)
            (calculateUpdatedUsage e usage cost (with_default durationMs 0) machinePreset (en_type (sn_environment latestSnapshot)))) (\<lambda>run.
          if forceRequeue \<or> method = Retry_queue
            \<or> (case e_retryWarmStartThresholdMs e of None \<Rightarrow> False | Some t \<Rightarrow> rs_delay settings \<ge> t)
          then
            then_do (tryNackAndRequeue_with fail e now runId (tr_environment run) (Some (rs_timestamp settings)) max_retries_error
                None None None [] None) (\<lambda>result.
              return (if fst result then RETRY_QUEUED else RUN_FINISHED, snd result))
          else
            then_do (createExecutionSnapshot e now (snapshot_row runId (tr_status run) (tr_attemptNumber run) ES_EXECUTING
                (Some (sn_id latestSnapshot)) None (sn_environment latestSnapshot) None workerId runnerId [] None)) (\<lambda>newSnapshot.
              return (RETRY_IMMEDIATELY, newSnapshot))))"

fun attemptFailed_fuel ::
    "nat \<Rightarrow> ('d, 'q, 'j) engine_deps \<Rightarrow> rat \<Rightarrow> time \<Rightarrow> bool \<Rightarrow> string option \<Rightarrow> string option \<Rightarrow> string \<Rightarrow> string \<Rightarrow> failed_completion \<Rightarrow>
     ('d, 'q, 'j, attempt_status \<times> snapshot) engine_op" where
  "attemptFailed_fuel 0 e rnd now forceRequeue workerId runnerId runId snapshotId completion = throw OutOfFuel"
| "attemptFailed_fuel (Suc n) e rnd now forceRequeue workerId runnerId runId snapshotId completion =
     then_do (getLatestExecutionSnapshot e runId) (\<lambda>latestSnapshot.
       if sn_id latestSnapshot \<noteq> snapshotId then throw SnapshotChanged
       else if sn_executionStatus latestSnapshot = ES_FINISHED then throw AlreadyFinished
       else
         then_do (clearBlockingWaitpoints e runId) (\<lambda>_ st.
         case retryOutcomeFromCompletion e rnd now (run_get (e_db e) runId (es_db st)) (sn_attemptNumber latestSnapshot) (fc_error completion)
             forceRequeue (fc_retry completion) of
           Inl err \<Rightarrow> throw err st
         | Inr retryResult \<Rightarrow>
             then_do (if forceRequeue then then_do (find_run e runId) (\<lambda>_. return ()) else return ()) (\<lambda>_.
               handle_outcome
                 (\<lambda>runId snapshotId error. attemptFailed_fuel n e rnd now False None None runId snapshotId
                   \<lparr>fc_error = error, fc_retry = None, fc_durationMs = None\<rparr>)
                 e now forceRequeue workerId runnerId runId latestSnapshot (fc_durationMs completion) retryResult) st))"

definition attemptFailed ::
    "('d, 'q, 'j) engine_deps \<Rightarrow> rat \<Rightarrow> time \<Rightarrow> bool \<Rightarrow> string option \<Rightarrow> string option \<Rightarrow> string \<Rightarrow> string \<Rightarrow> failed_completion \<Rightarrow>
     ('d, 'q, 'j, attempt_status \<times> snapshot) engine_op" where
  "attemptFailed = attemptFailed_fuel 2"

definition fail_with_error ::
    "('d, 'q, 'j) engine_deps \<Rightarrow> rat \<Rightarrow> time \<Rightarrow> string \<Rightarrow> string \<Rightarrow> task_run_error \<Rightarrow> ('d, 'q, 'j, attempt_status \<times> snapshot) engine_op" where
  "fail_with_error e rnd now runId snapshotId error =
     attemptFailed e rnd now False None None runId snapshotId \<lparr>fc_error = error, fc_retry = None, fc_durationMs = None\<rparr>"

definition systemFailure ::
    "('d, 'q, 'j) engine_deps \<Rightarrow> rat \<Rightarrow> time \<Rightarrow> string \<Rightarrow> task_run_error \<Rightarrow> ('d, 'q, 'j, attempt_status \<times> snapshot) engine_op" where
  "systemFailure e rnd now = systemFailure_with (fail_with_error e rnd now) e"

definition tryNackAndRequeue ::
    "('d, 'q, 'j) engine_deps \<Rightarrow> rat \<Rightarrow> time \<Rightarrow> string \<Rightarrow> environment \<Rightarrow> time option \<Rightarrow> task_run_error \<Rightarrow> string option \<Rightarrow> string option \<Rightarrow>
     string option \<Rightarrow> completed_waitpoints \<Rightarrow> string option \<Rightarrow> ('d, 'q, 'j, bool \<times> snapshot) engine_op" where
  "tryNackAndRequeue e rnd now = tryNackAndRequeue_with (fail_with_error e rnd now) e now"

subsection \<open>Starting and completing\<close>

definition expire_id :: "string \<Rightarrow> string" where
  "expire_id runId = ''expireRun:'' @ runId"

definition startRunAttempt ::
    "('d, 'q, 'j) engine_deps \<Rightarrow> rat \<Rightarrow> time \<Rightarrow> string \<Rightarrow> string \<Rightarrow> string option \<Rightarrow> string option \<Rightarrow> ('d, 'q, 'j, task_run \<times> snapshot) engine_op" where
  "startRunAttempt e rnd now runId snapshotId workerId runnerId =
     then_do (getLatestExecutionSnapshot e runId) (\<lambda>latestSnapshot.
       if sn_id latestSnapshot \<noteq> snapshotId then throw SnapshotChanged
       else
         then_do (find_run e runId) (\<lambda>taskRun.
         if isFinishedOrPendingFinished (sn_executionStatus latestSnapshot) then throw AlreadyFinished
         else if nonempty (tr_lockedById taskRun) = None then throw NotLocked
         else
           (let nextAttemptNumber = with_default (tr_attemptNumber taskRun) 0 + 1 in
            if nextAttemptNumber > MAX_TASK_RUN_ATTEMPTS
            then then_do (fail_with_error e rnd now runId snapshotId (InternalError TASK_RUN_CRASHED (Some ''Max attempts reached.'') None))
              (\<lambda>_. throw MaxAttemptsReached)
            else
              then_do (update_run e runId (\<lambda>r. r\<lparr>tr_status := RS_EXECUTING, tr_attemptNumber := Some nextAttemptNumber\<rparr>)) (\<lambda>run.
              then_do (createExecutionSnapshot e now (snapshot_row runId (tr_status run) (tr_attemptNumber run) ES_EXECUTING
                  (Some (sn_id latestSnapshot)) (sn_batchId latestSnapshot) (sn_environment latestSnapshot) None workerId runnerId
                  (enhanced_waitpoints latestSnapshot) None)) (\<lambda>newSnapshot st.
                (Inr (run, newSnapshot), if nonempty (tr_ttl taskRun) = None then st else ack_job e (expire_id runId) st))))))"

datatype completion = Succeeded "string option" "string option" "int option" | Failed failed_completion

definition completeRunAttempt ::
    "('d, 'q, 'j) engine_deps \<Rightarrow> rat \<Rightarrow> time \<Rightarrow> string \<Rightarrow> string \<Rightarrow> completion \<Rightarrow> string option \<Rightarrow> string option \<Rightarrow>
     ('d, 'q, 'j, attempt_status \<times> snapshot) engine_op" where
  "completeRunAttempt e rnd now runId snapshotId compl workerId runnerId =
     (case compl of
        Succeeded outp outputType durationMs \<Rightarrow> attemptSucceeded e now runId snapshotId outp outputType durationMs workerId runnerId
      | Failed f \<Rightarrow> attemptFailed e rnd now False workerId runnerId runId snapshotId f)"

end
