(* ===== verification/Engine_Wakeup.thy ===== *)
theory Engine_Wakeup
  imports Engine_Waitpoints
begin

text \<open>
  No wake-up is lost: requests that complete waitpoints, requests that block runs and the jobs that continue runs
  interleave, and a run that waits for nothing any more always has its continue job, or a request that is about to
  schedule it.

  A request that completes a waitpoint takes several calls: the update, the search for blocked runs, one job per run.
  It holds no lock. Blocking and continuing a run happen under the run's lock, so each is one step: what interferes is
  the completion of waitpoints, which only ever goes one way, and the statement that blocks a run inserts its rows and
  counts the pending waitpoints at once. The worker takes a job, handles it and acknowledges it in three steps;
  meanwhile the job may be enqueued again, and the acknowledgement with the deduplication key leaves the new one. A
  job that throws is enqueued again or given up. The other systems may create waitpoints of runs and batches, give a run a snapshot that does not wait,
  suspend a run that waits or has no blocks, and remove the blocks of a run.
\<close>

datatype completer = C_idle | C_updated string | C_scheduling "string list"

datatype runner = R_idle | R_taken string string | R_done string string

record ('d, 'q, 'j) wait_state =
  ws_engine :: "('d, 'q, 'j) engine_state"
  ws_completer :: "nat \<Rightarrow> completer"
  ws_runner :: "nat \<Rightarrow> runner"
  ws_dead :: "string set"

definition waits :: "exec_status \<Rightarrow> bool" where
  "waits status \<longleftrightarrow> status = ES_EXECUTING_WITH_WAITPOINTS \<or> status = ES_SUSPENDED"

text \<open>One call of a request that completes waitpoints.\<close>

fun completer_move :: "('d, 'q, 'j) engine_deps \<Rightarrow> time \<Rightarrow> string \<Rightarrow> waitpoint_output option \<Rightarrow> completer \<Rightarrow> ('d, 'q, 'j) engine_state \<Rightarrow>
     completer \<times> ('d, 'q, 'j) engine_state" where
  "completer_move e now i output C_idle st = (C_updated i, complete_pending e now i output st)"
| "completer_move e now i output (C_updated j) st =
     (case wp_get (e_db e) j (es_db st) of
        None \<Rightarrow> C_idle
      | Some w \<Rightarrow> if wp_completed w then C_scheduling (affectedTaskRuns e j st) else C_idle, st)"
| "completer_move e now i output (C_scheduling []) st = (C_idle, st)"
| "completer_move e now i output (C_scheduling (r # rs)) st = (C_scheduling rs, schedule_continue e now r st)"

text \<open>A request on its own does what \<open>completeWaitpoint\<close> does.\<close>

fun completer_run :: "nat \<Rightarrow> ('d, 'q, 'j) engine_deps \<Rightarrow> time \<Rightarrow> string \<Rightarrow> waitpoint_output option \<Rightarrow> completer \<Rightarrow> ('d, 'q, 'j) engine_state \<Rightarrow>
     completer \<times> ('d, 'q, 'j) engine_state" where
  "completer_run 0 e now i output c st = (c, st)"
| "completer_run (Suc n) e now i output c st = (case completer_move e now i output c st of (c, st) \<Rightarrow> completer_run n e now i output c st)"

lemma completer_run_schedules:
  "completer_run (Suc (length rs)) e now i output (C_scheduling rs) st = (C_idle, fold (schedule_continue e now) rs st)"
proof (induction rs arbitrary: st)
  case (Cons r rs)
  then show ?case by simp
qed simp

lemma completer_run_completes:
  assumes "completeWaitpoint e now i output st = (Inr w, st')"
  shows "\<exists>n. completer_run n e now i output C_idle st = (C_idle, st')"
proof -
  let ?st = "complete_pending e now i output st"
  have *: "wp_get (e_db e) i (es_db ?st) = Some w" "wp_completed w" "st' = fold (schedule_continue e now) (affectedTaskRuns e i ?st) ?st"
    using assms by (auto simp: completeWaitpoint_def Let_def split: option.splits if_splits)
  have "completer_run (Suc (Suc (Suc (length (affectedTaskRuns e i ?st))))) e now i output C_idle st
      = completer_run (Suc (length (affectedTaskRuns e i ?st))) e now i output (C_scheduling (affectedTaskRuns e i ?st)) ?st"
    using *(1,2) by simp
  then show ?thesis unfolding completer_run_schedules *(3) by blast
qed

text \<open>The steps of requests that have completed a waitpoint and of the worker.\<close>

inductive duty_step :: "('d, 'q, 'j) engine_deps \<Rightarrow> ('j \<Rightarrow> string \<Rightarrow> job_row option) \<Rightarrow>
     ('d, 'q, 'j) wait_state \<Rightarrow> ('d, 'q, 'j) wait_state \<Rightarrow> bool" for e jobs where
  wt_complete: "ws_completer st c \<noteq> C_idle \<Longrightarrow> completer_move e now i output (ws_completer st c) (ws_engine st) = (x, g) \<Longrightarrow>
    duty_step e jobs st (st\<lparr>ws_engine := g, ws_completer := (ws_completer st)(c := x)\<rparr>)"
| wt_take: "ws_runner st c = R_idle \<Longrightarrow> jobs (es_jobs (ws_engine st)) (continue_id runId) = Some j \<Longrightarrow>
    jr_job j = ContinueRunIfUnblocked runId \<Longrightarrow>
    duty_step e jobs st (st\<lparr>ws_runner := (ws_runner st)(c := R_taken runId (jr_key j))\<rparr>)"
| wt_continue: "ws_runner st c = R_taken runId k \<Longrightarrow> continueRunIfUnblocked e now runId (ws_engine st) = (Inr out, g) \<Longrightarrow>
    duty_step e jobs st (st\<lparr>ws_engine := g, ws_runner := (ws_runner st)(c := R_done runId k)\<rparr>)"
| wt_retry: "ws_runner st c = R_taken runId k \<Longrightarrow> continueRunIfUnblocked e now runId (ws_engine st) = (Inl err, g) \<Longrightarrow>
    duty_step e jobs st (st\<lparr>ws_engine := g\<lparr>es_jobs := w_retry (e_worker e) now (continue_id runId) (ContinueRunIfUnblocked runId) n t (es_jobs g)\<rparr>,
      ws_runner := (ws_runner st)(c := R_idle)\<rparr>)"
| wt_leave: "ws_runner st c = R_taken runId k \<Longrightarrow> continueRunIfUnblocked e now runId (ws_engine st) = (Inl err, g) \<Longrightarrow>
    duty_step e jobs st (st\<lparr>ws_engine := g, ws_runner := (ws_runner st)(c := R_idle)\<rparr>)"
| wt_giveup: "ws_runner st c = R_taken runId k \<Longrightarrow> continueRunIfUnblocked e now runId (ws_engine st) = (Inl err, g) \<Longrightarrow>
    duty_step e jobs st (st\<lparr>ws_engine := g\<lparr>es_jobs := w_giveup (e_worker e) now (continue_id runId) message (es_jobs g)\<rparr>,
      ws_runner := (ws_runner st)(c := R_idle), ws_dead := insert runId (ws_dead st)\<rparr>)"
| wt_ack: "ws_runner st c = R_done runId k \<Longrightarrow>
    duty_step e jobs st (st\<lparr>ws_engine := (ws_engine st)\<lparr>es_jobs := w_ack (e_worker e) (continue_id runId) (Some k) (es_jobs (ws_engine st))\<rparr>,
      ws_runner := (ws_runner st)(c := R_idle)\<rparr>)"

inductive wait_step :: "('d, 'q, 'j) engine_deps \<Rightarrow> ('j \<Rightarrow> string \<Rightarrow> job_row option) \<Rightarrow>
     ('d, 'q, 'j) wait_state \<Rightarrow> ('d, 'q, 'j) wait_state \<Rightarrow> bool" for e jobs where
  wt_duty: "duty_step e jobs st st' \<Longrightarrow> wait_step e jobs st st'"
| wt_start: "ws_completer st c = C_idle \<Longrightarrow> completer_move e now i output C_idle (ws_engine st) = (x, g) \<Longrightarrow>
    wait_step e jobs st (st\<lparr>ws_engine := g, ws_completer := (ws_completer st)(c := x)\<rparr>)"
| wt_block: "blockRunWithWaitpoint e now runId ws org timeout spanId batch workerId runnerId (ws_engine st) = (out, g) \<Longrightarrow>
    wait_step e jobs st (st\<lparr>ws_engine := g\<rparr>)"
| wt_create: "createDateTimeWaitpoint e now newId n1 n2 proj env after key expires (ws_engine st) = (out, g) \<Longrightarrow>
    wp_get (e_db e) newId (es_db (ws_engine st)) = None \<Longrightarrow> wait_step e jobs st (st\<lparr>ws_engine := g\<rparr>)"
| wt_manual: "createManualWaitpoint e now conflicts newId n1 n2 env proj key expires timeout (ws_engine st) = (out, g) \<Longrightarrow>
    wp_get (e_db e) newId (es_db (ws_engine st)) = None \<Longrightarrow> wait_step e jobs st (st\<lparr>ws_engine := g\<rparr>)"
| wt_new: "wp_get (e_db e) (wp_id w) (es_db (ws_engine st)) = None \<Longrightarrow> \<not> wp_completed w \<Longrightarrow>
    wait_step e jobs st (st\<lparr>ws_engine := on_db (wp_put (e_db e) w) (ws_engine st)\<rparr>)"
| wt_clear: "clearBlockingWaitpoints e runId (ws_engine st) = (out, g) \<Longrightarrow> wait_step e jobs st (st\<lparr>ws_engine := g\<rparr>)"
| wt_other: "createExecutionSnapshot e now row (ws_engine st) = (out, g) \<Longrightarrow> sn_isValid row \<Longrightarrow>
    \<not> waits (sn_executionStatus row) \<or> (\<exists>old. getLatestExecutionSnapshot e (sn_runId row) (ws_engine st) = (Inr old, ws_engine st)
      \<and> sn_executionStatus old = ES_EXECUTING_WITH_WAITPOINTS)
      \<or> tw_select (e_db e) (\<lambda>b. bl_taskRunId b = sn_runId row) (es_db (ws_engine st)) = [] \<Longrightarrow>
    wait_step e jobs st (st\<lparr>ws_engine := g\<rparr>)"
| wt_runs: "wait_step e jobs st (st\<lparr>ws_engine := on_db (run_put (e_db e) r) (ws_engine st)\<rparr>)"
| wt_queue: "wait_step e jobs st (st\<lparr>ws_engine := (ws_engine st)\<lparr>es_queue := q\<rparr>\<rparr>)"
| wt_job: "(\<And>r. i \<noteq> continue_id r) \<Longrightarrow> wait_step e jobs st (st\<lparr>ws_engine := enqueue_job e now i job t (ws_engine st)\<rparr>)"
| wt_unjob: "(\<And>r. i \<noteq> continue_id r) \<Longrightarrow> wait_step e jobs st (st\<lparr>ws_engine := ack_job e i (ws_engine st)\<rparr>)"

inductive wait_reachable :: "('d, 'q, 'j) engine_deps \<Rightarrow> ('d \<Rightarrow> tables) \<Rightarrow> ('j \<Rightarrow> string \<Rightarrow> job_row option) \<Rightarrow> ('j \<Rightarrow> string set) \<Rightarrow>
     ('d, 'q, 'j) wait_state \<Rightarrow> bool" for e tables jobs used where
  wr_start: "t_blocks (tables (es_db (ws_engine st))) = {} \<Longrightarrow> ws_completer st = (\<lambda>_. C_idle) \<Longrightarrow> ws_runner st = (\<lambda>_. R_idle) \<Longrightarrow>
    (\<And>i w. t_waitpoints (tables (es_db (ws_engine st))) i = Some w \<Longrightarrow> wp_id w = i) \<Longrightarrow>
    (\<And>i r. t_runs (tables (es_db (ws_engine st))) i = Some r \<Longrightarrow> tr_id r = i) \<Longrightarrow>
    jobs (es_jobs (ws_engine st)) = Map.empty \<Longrightarrow> wait_reachable e tables jobs used st"
| wr_step: "wait_reachable e tables jobs used st \<Longrightarrow> wait_step e jobs st st' \<Longrightarrow> wait_reachable e tables jobs used st'"

subsection \<open>The invariant\<close>

definition done_wp :: "tables \<Rightarrow> string \<Rightarrow> bool" where
  "done_wp T i \<longleftrightarrow> (\<exists>w. t_waitpoints T i = Some w \<and> wp_completed w)"

definition waiting :: "tables \<Rightarrow> string \<Rightarrow> bool" where
  "waiting T r \<longleftrightarrow> (\<exists>x. latest T r = Some x \<and> waits (sn_executionStatus x))"

definition blocks_of :: "tables \<Rightarrow> string \<Rightarrow> run_block set" where
  "blocks_of T r = {b \<in> t_blocks T. bl_taskRunId b = r}"

text \<open>A run that waits for nothing any more.\<close>

definition ready :: "tables \<Rightarrow> string \<Rightarrow> bool" where
  "ready T r \<longleftrightarrow> waiting T r \<and> blocks_of T r \<noteq> {} \<and> (\<forall>b \<in> blocks_of T r. done_wp T (bl_waitpointId b))"

text \<open>A request that will still schedule the job of a run, and a job that no worker is about to acknowledge.\<close>

fun will_schedule :: "completer \<Rightarrow> tables \<Rightarrow> string \<Rightarrow> bool" where
  "will_schedule C_idle T r = False"
| "will_schedule (C_updated i) T r = (\<exists>b \<in> blocks_of T r. bl_waitpointId b = i)"
| "will_schedule (C_scheduling rs) T r = (r \<in> set rs)"

definition job_waits :: "(nat \<Rightarrow> runner) \<Rightarrow> (string \<Rightarrow> job_row option) \<Rightarrow> string \<Rightarrow> bool" where
  "job_waits runners J r \<longleftrightarrow> (\<exists>j. J (continue_id r) = Some j \<and> jr_job j = ContinueRunIfUnblocked r \<and> (\<forall>c. runners c \<noteq> R_done r (jr_key j)))"

definition woken :: "(nat \<Rightarrow> completer) \<Rightarrow> (nat \<Rightarrow> runner) \<Rightarrow> string set \<Rightarrow> tables \<Rightarrow> (string \<Rightarrow> job_row option) \<Rightarrow> string \<Rightarrow> bool" where
  "woken completers runners dead T J r \<longleftrightarrow> job_waits runners J r \<or> (\<exists>c. will_schedule (completers c) T r) \<or> r \<in> dead"

text \<open>The rows have their ids and blocks point at waitpoints.\<close>

definition rows_ok :: "tables \<Rightarrow> bool" where
  "rows_ok T \<longleftrightarrow>
     (\<forall>i w. t_waitpoints T i = Some w \<longrightarrow> wp_id w = i) \<and> (\<forall>i r. t_runs T i = Some r \<longrightarrow> tr_id r = i)
     \<and> (\<forall>b \<in> t_blocks T. t_waitpoints T (bl_waitpointId b) \<noteq> None)"

definition keys_ok :: "(nat \<Rightarrow> runner) \<Rightarrow> (string \<Rightarrow> job_row option) \<Rightarrow> string set \<Rightarrow> bool" where
  "keys_ok runners J U \<longleftrightarrow> (\<forall>i j. J i = Some j \<longrightarrow> jr_key j \<in> U) \<and> (\<forall>c r k. runners c = R_taken r k \<or> runners c = R_done r k \<longrightarrow> k \<in> U)"

definition wait_inv :: "(nat \<Rightarrow> completer) \<Rightarrow> (nat \<Rightarrow> runner) \<Rightarrow> string set \<Rightarrow> tables \<Rightarrow> (string \<Rightarrow> job_row option) \<Rightarrow> string set \<Rightarrow> bool" where
  "wait_inv completers runners dead T J U \<longleftrightarrow>
     rows_ok T \<and> keys_ok runners J U \<and> (\<forall>r. ready T r \<longrightarrow> woken completers runners dead T J r)"

lemmas wait_defs = done_wp_def waiting_def blocks_of_def ready_def

lemma continue_id_inj [simp]: "continue_id r = continue_id r' \<longleftrightarrow> r = r'"
  by (simp add: continue_id_def)

lemma other_ids [simp]: "heartbeat_id r \<noteq> continue_id r'" "finish_id w \<noteq> continue_id r'"
  by (simp_all add: continue_id_def heartbeat_id_def finish_id_def)

text \<open>The jobs of the runs in \<open>A\<close> have been enqueued; other continue jobs may have been too.\<close>

definition jobs_grow :: "string set \<Rightarrow> (string \<Rightarrow> job_row option) \<Rightarrow> string set \<Rightarrow> (string \<Rightarrow> job_row option) \<Rightarrow> string set \<Rightarrow> bool" where
  "jobs_grow A J U J' U' \<longleftrightarrow> U \<subseteq> U' \<and> (\<forall>i j. J' i = Some j \<longrightarrow> J i = Some j \<or> jr_key j \<in> U' - U)
     \<and> (\<forall>r. J' (continue_id r) = J (continue_id r) \<and> r \<notin> A
        \<or> (\<exists>j. J' (continue_id r) = Some j \<and> jr_job j = ContinueRunIfUnblocked r \<and> jr_key j \<in> U' - U))"

lemma jobs_grow_refl [simp]: "jobs_grow {} J U J U"
  by (simp add: jobs_grow_def)

lemma jobs_grow_other: "k \<notin> U \<Longrightarrow> (\<And>r. i \<noteq> continue_id r) \<Longrightarrow> jr_key j = k \<Longrightarrow> jobs_grow {} J U (J(i \<mapsto> j)) (insert k U)"
  unfolding jobs_grow_def by (auto split: if_splits)

lemma jobs_grow_job:
  "k \<notin> U \<Longrightarrow> jr_key j = k \<Longrightarrow> jr_job j = ContinueRunIfUnblocked r \<Longrightarrow> jobs_grow {r} J U (J(continue_id r \<mapsto> j)) (insert k U)"
  unfolding jobs_grow_def by (auto split: if_splits)

lemma jobs_grow_trans:
  assumes "jobs_grow A J U J' U'" and "jobs_grow B J' U' J'' U''"
  shows "jobs_grow (A \<union> B) J U J'' U''"
  unfolding jobs_grow_def
proof (intro conjI allI impI)
  show "U \<subseteq> U''" using assms by (auto simp: jobs_grow_def)
  show "J i = Some j \<or> jr_key j \<in> U'' - U" if "J'' i = Some j" for i j
    using assms that unfolding jobs_grow_def by blast
  show "J'' (continue_id r) = J (continue_id r) \<and> r \<notin> A \<union> B
      \<or> (\<exists>j. J'' (continue_id r) = Some j \<and> jr_job j = ContinueRunIfUnblocked r \<and> jr_key j \<in> U'' - U)" for r
  proof -
    have U: "U \<subseteq> U'" "U' \<subseteq> U''" using assms by (simp_all add: jobs_grow_def)
    have "J'' (continue_id r) = J' (continue_id r) \<and> r \<notin> B
        \<or> (\<exists>j. J'' (continue_id r) = Some j \<and> jr_job j = ContinueRunIfUnblocked r \<and> jr_key j \<in> U'' - U')"
      using assms(2) by (simp add: jobs_grow_def)
    moreover have "J' (continue_id r) = J (continue_id r) \<and> r \<notin> A
        \<or> (\<exists>j. J' (continue_id r) = Some j \<and> jr_job j = ContinueRunIfUnblocked r \<and> jr_key j \<in> U' - U)"
      using assms(1) by (simp add: jobs_grow_def)
    ultimately show ?thesis using U by auto
  qed
qed

lemma job_waits_fresh:
  assumes "keys_ok runners J U" and "jobs_grow A J U J' U'" and "r \<in> A \<or> job_waits runners J r"
  shows "job_waits runners J' r"
proof -
  have "runners c \<noteq> R_done r k" if "k \<notin> U" for c k using assms(1) that by (auto simp: keys_ok_def)
  moreover have "J' (continue_id r) = J (continue_id r) \<and> r \<notin> A
      \<or> (\<exists>j. J' (continue_id r) = Some j \<and> jr_job j = ContinueRunIfUnblocked r \<and> jr_key j \<notin> U)"
    using assms(2) by (auto simp: jobs_grow_def)
  ultimately show ?thesis using assms(3) by (auto simp: job_waits_def)
qed

lemma keys_grow: "keys_ok runners J U \<Longrightarrow> jobs_grow A J U J' U' \<Longrightarrow> keys_ok runners J' U'"
  unfolding keys_ok_def jobs_grow_def by blast

text \<open>A step that keeps requests and workers: every run that is ready has had its job enqueued, or was ready with the
  same blocks.\<close>

lemma wait_frame:
  assumes "wait_inv completers runners dead T J U" and "rows_ok T'" and "jobs_grow A J U J' U'"
    and "\<And>r. ready T' r \<Longrightarrow> r \<in> A \<or> ready T r \<and> blocks_of T r \<subseteq> blocks_of T' r"
  shows "wait_inv completers runners dead T' J' U'"
  unfolding wait_inv_def
proof (intro conjI allI impI)
  show "rows_ok T'" by (rule assms(2))
  have k: "keys_ok runners J U" using assms(1) by (simp add: wait_inv_def)
  then show "keys_ok runners J' U'" using assms(3) by (rule keys_grow)
  have mono: "will_schedule c T r \<Longrightarrow> blocks_of T r \<subseteq> blocks_of T' r \<Longrightarrow> will_schedule c T' r" for c r
    by (cases c) auto
  show "woken completers runners dead T' J' r" if "ready T' r" for r
    using assms(4) [OF that] assms(1) job_waits_fresh [OF k assms(3)] mono unfolding wait_inv_def woken_def by blast
qed

end
