(* ===== verification/Engine_Wakeup_Invariant.thy ===== *)
theory Engine_Wakeup_Invariant
  imports Engine_Wakeup
begin

text \<open>
  Every step of \<open>Engine_Wakeup\<close> keeps its invariant: what each operation does to the tables and the jobs, then the
  steps one by one.
\<close>

lemma rows_ok_snapshots [simp]: "rows_ok (T\<lparr>t_snapshots := xs\<rparr>) = rows_ok T"
  by (simp add: rows_ok_def done_wp_def)

lemma ready_update [simp]: "ready (T\<lparr>t_runs := a\<rparr>) = ready T" "blocks_of (T\<lparr>t_runs := a\<rparr>) = blocks_of T"
  "blocks_of (T\<lparr>t_snapshots := xs\<rparr>) = blocks_of T" "done_wp (T\<lparr>t_snapshots := xs\<rparr>) = done_wp T"
  "done_wp (T\<lparr>t_blocks := bs\<rparr>) = done_wp T" "waiting (T\<lparr>t_blocks := bs\<rparr>) = waiting T" "waiting (T\<lparr>t_waitpoints := ws\<rparr>) = waiting T"
  "blocks_of (T\<lparr>t_waitpoints := ws\<rparr>) = blocks_of T"
  by (simp_all add: wait_defs fun_eq_iff)

lemma waiting_cons:
  "sn_isValid x \<Longrightarrow> waiting (T\<lparr>t_snapshots := x # t_snapshots T\<rparr>) r = (if r = sn_runId x then waits (sn_executionStatus x) else waiting T r)"
  by (simp add: waiting_def latest_cons)

context engine
begin

subsection \<open>Jobs\<close>

lemma enqueue_other:
  assumes "\<And>r. i \<noteq> continue_id r"
  shows "jobs_grow {} (jobs s) (used s) (jobs (w_enqueue (e_worker e) now i job t s)) (used (w_enqueue (e_worker e) now i job t s))"
  using w_enqueue [of s now i job t] by (auto intro!: jobs_grow_other assms)

lemma ack_other:
  assumes "\<And>r. i \<noteq> continue_id r"
  shows "jobs_grow {} (jobs s) (used s) (jobs (w_ack (e_worker e) i None s)) (used (w_ack (e_worker e) i None s))"
  using assms [symmetric] by (auto simp: jobs_grow_def w_ack)

abbreviation grows :: "string set \<Rightarrow> ('d, 'q, 'j) engine_state \<Rightarrow> ('d, 'q, 'j) engine_state \<Rightarrow> bool" where
  "grows A st g \<equiv> jobs_grow A (jobs (es_jobs st)) (used (es_jobs st)) (jobs (es_jobs g)) (used (es_jobs g))"

lemma schedule_grows: "grows {r} st (schedule_continue e now r st)"
  using w_enqueue [of "es_jobs st" now "continue_id r" "ContinueRunIfUnblocked r" "now + 50"]
  by (auto simp: schedule_continue_def enqueue_job_def intro!: jobs_grow_job)

lemma enqueue_job_grows: "(\<And>r. i \<noteq> continue_id r) \<Longrightarrow> grows {} st (enqueue_job e now i job t st)"
  by (simp add: enqueue_job_def enqueue_other)

lemma schedule_tables [simp]: "es_db (schedule_continue e now r st) = es_db st" "es_db (enqueue_job e now i job t st) = es_db st"
  by (simp_all add: schedule_continue_def enqueue_job_def)

lemma fold_finish:
  "grows {} st (fold (\<lambda>w. enqueue_job e now (finish_id w) (f w) t) ws st)
    \<and> es_db (fold (\<lambda>w. enqueue_job e now (finish_id w) (f w) t) ws st) = es_db st"
proof (induction ws arbitrary: st)
  case (Cons w ws)
  have "grows {} st (enqueue_job e now (finish_id w) (f w) t st)" by (rule enqueue_job_grows) simp
  from jobs_grow_trans [OF this] Cons [of "enqueue_job e now (finish_id w) (f w) t st"] show ?case by simp
qed simp

lemma create_effect:
  assumes "createExecutionSnapshot e now row st = (r, g)"
  obtains x i where "r = Inr x" "x = row\<lparr>sn_id := i\<rparr>" "tb g = (tb st)\<lparr>t_snapshots := x # t_snapshots (tb st)\<rparr>" "grows {} st g" "es_queue g = es_queue st"
proof -
  from assms obtain x i where x: "r = Inr x" "x = row\<lparr>sn_id := i\<rparr>" "tb g = (tb st)\<lparr>t_snapshots := x # t_snapshots (tb st)\<rparr>"
      "es_queue g = es_queue st"
    and j: "es_jobs g = es_jobs st \<or> (\<exists>job t. es_jobs g = w_enqueue (e_worker e) now (heartbeat_id (sn_runId row)) job t (es_jobs st))"
    by (rule createExecutionSnapshot_effect)
  have "grows {} st g" using j enqueue_other [of "heartbeat_id (sn_runId row)"] by auto
  then show ?thesis using that x by blast
qed

lemma enqueueRun_effect:
  assumes "enqueueRun e now run env status previousSnapshotId batchId checkpointId ws wk rn st = (r, g)"
  obtains x where "sn_runId x = tr_id run" "sn_executionStatus x = status" "sn_isValid x"
    "tb g = (tb st)\<lparr>t_snapshots := x # t_snapshots (tb st)\<rparr>" "grows {} st g"
    "r = Inr x \<or> (\<exists>err. r = Inl (QueueFailed err) \<and> q_enqueue (e_queue e) now (queue_env env) (run_message run env)
      (if en_type env = DEVELOPMENT then en_id env else tr_workerQueue run) (es_queue st) = Inl err)"
proof -
  let ?row = "snapshot_row (tr_id run) (tr_status run) (tr_attemptNumber run) status previousSnapshotId batchId env checkpointId wk rn ws None"
  obtain r1 st1 where c: "createExecutionSnapshot e now ?row st = (r1, st1)" by fastforce
  from c obtain x i where x: "r1 = Inr x" "x = ?row\<lparr>sn_id := i\<rparr>" "tb st1 = (tb st)\<lparr>t_snapshots := x # t_snapshots (tb st)\<rparr>" "grows {} st st1"
      "es_queue st1 = es_queue st"
    by (rule create_effect)
  have "es_db g = es_db st1 \<and> es_jobs g = es_jobs st1 \<and> (r = Inr x \<or> (\<exists>err. r = Inl (QueueFailed err)
      \<and> q_enqueue (e_queue e) now (queue_env env) (run_message run env)
        (if en_type env = DEVELOPMENT then en_id env else tr_workerQueue run) (es_queue st) = Inl err))"
    using assms x(5) by (auto simp: enqueueRun_def then_do_def c x(1) on_queue_def return_def split: sum.splits prod.splits)
  with x show ?thesis by (intro that [of x]) (auto simp: snapshot_row_def)
qed

subsection \<open>Blocking\<close>

lemma fold_tw_add:
  "\<exists>N. tables (fold (\<lambda>w. tw_add (e_db e) (f w)) ws d) = (tables d)\<lparr>t_blocks := t_blocks (tables d) \<union> N\<rparr>
     \<and> (\<forall>b \<in> N. \<exists>w \<in> set ws. \<exists>i. b = (f w)\<lparr>bl_id := i\<rparr>) \<and> (\<forall>w \<in> set ws. \<exists>i. (f w)\<lparr>bl_id := i\<rparr> \<in> N)"
proof (induction ws arbitrary: d)
  case Nil
  show ?case by (auto intro!: exI [of _ "{}"])
next
  case (Cons w ws)
  obtain i where i: "tables (tw_add (e_db e) (f w) d) = (tables d)\<lparr>t_blocks := insert ((f w)\<lparr>bl_id := i\<rparr>) (t_blocks (tables d))\<rparr>"
    using tw_add [of d "f w"] by blast
  from Cons [of "tw_add (e_db e) (f w) d"] obtain N where
    N: "tables (fold (\<lambda>w. tw_add (e_db e) (f w)) ws (tw_add (e_db e) (f w) d))
        = (tables d)\<lparr>t_blocks := insert ((f w)\<lparr>bl_id := i\<rparr>) (t_blocks (tables d)) \<union> N\<rparr>"
      "\<forall>b \<in> N. \<exists>w \<in> set ws. \<exists>i. b = (f w)\<lparr>bl_id := i\<rparr>" "\<forall>w \<in> set ws. \<exists>i. (f w)\<lparr>bl_id := i\<rparr> \<in> N"
    by (auto simp: i)
  then show ?case by (intro exI [of _ "insert ((f w)\<lparr>bl_id := i\<rparr>) N"]) auto
qed

text \<open>The inserted rows block the run and point at waitpoints; when one of them is pending the count says so.\<close>

lemma insert_blocks_effect:
  assumes "insert_blocks e runId ws spanId batch d = (pending, d')"
  obtains N where "tables d' = (tables d)\<lparr>t_blocks := t_blocks (tables d) \<union> N\<rparr>"
    "\<And>b. b \<in> N \<Longrightarrow> bl_taskRunId b = runId \<and> t_waitpoints (tables d) (bl_waitpointId b) \<noteq> None"
    "pending > 0 \<Longrightarrow> \<exists>b \<in> N. \<not> done_wp (tables d) (bl_waitpointId b)"
proof -
  define bi where "bi = (case batch of None \<Rightarrow> None | Some (_, i) \<Rightarrow> i)"
  define f where "f = (\<lambda>w. \<lparr>bl_id = [], bl_taskRunId = runId, bl_waitpointId = w, bl_spanIdToComplete = spanId,
            bl_batchId = map_option fst batch, bl_batchIndex = bi\<rparr>)"
  define rows where "rows = remdups (filter (\<lambda>w. wp_get (e_db e) w d \<noteq> None \<and> \<not> block_exists e runId bi w d) ws)"
  have d': "d' = fold (\<lambda>w. tw_add (e_db e) (f w)) rows d"
      and p: "pending = length (filter (\<lambda>w. \<not> wp_completed (the (wp_get (e_db e) w d))) rows)"
    using assms by (simp_all add: insert_blocks_def Let_def bi_def f_def rows_def)
  obtain N where N: "tables d' = (tables d)\<lparr>t_blocks := t_blocks (tables d) \<union> N\<rparr>"
      "\<forall>b \<in> N. \<exists>w \<in> set rows. \<exists>i. b = (f w)\<lparr>bl_id := i\<rparr>" "\<forall>w \<in> set rows. \<exists>i. (f w)\<lparr>bl_id := i\<rparr> \<in> N"
    using fold_tw_add [of f rows d] unfolding d' by blast
  have rows: "t_waitpoints (tables d) w \<noteq> None" if "w \<in> set rows" for w using that by (auto simp: rows_def wp_get)
  show thesis
  proof (rule that [OF N(1)])
    show "bl_taskRunId b = runId \<and> t_waitpoints (tables d) (bl_waitpointId b) \<noteq> None" if "b \<in> N" for b
      using N(2) that rows by (fastforce simp: f_def)
    assume "pending > 0"
    then obtain w where "w \<in> set rows" "\<not> wp_completed (the (t_waitpoints (tables d) w))"
      by (auto simp: p wp_get length_greater_0_conv filter_empty_conv)
    moreover from this N(3) obtain i where "(f w)\<lparr>bl_id := i\<rparr> \<in> N" by blast
    ultimately show "\<exists>b \<in> N. \<not> done_wp (tables d) (bl_waitpointId b)"
      by (intro bexI [of _ "(f w)\<lparr>bl_id := i\<rparr>"]) (auto simp: done_wp_def f_def)
  qed
qed

text \<open>After blocking a run: either it still waits for something, or its job has been enqueued.\<close>

lemma block_effect:
  assumes "blockRunWithWaitpoint e now runId ws org timeout spanId batch workerId runnerId st = (out, g)"
  obtains "g = st" | N xs where "tb g = (tb st)\<lparr>t_blocks := t_blocks (tb st) \<union> N, t_snapshots := xs\<rparr>"
    "\<And>b. b \<in> N \<Longrightarrow> bl_taskRunId b = runId \<and> t_waitpoints (tb st) (bl_waitpointId b) \<noteq> None"
    "\<And>r. r \<noteq> runId \<Longrightarrow> latest (tb g) r = latest (tb st) r"
    "grows {runId} st g \<or> grows {} st g \<and> (\<exists>b \<in> N. \<not> done_wp (tb st) (bl_waitpointId b))"
proof (cases "latest (tb st) runId")
  case None
  then have "g = st" using assms by (simp add: blockRunWithWaitpoint_def then_do_def getLatest_latest)
  then show thesis by (rule that(1))
next
  case (Some x)
  obtain pending d where ins: "insert_blocks e runId ws spanId batch (es_db st) = (pending, d)" by fastforce
  define st1 where "st1 = st\<lparr>es_db := d\<rparr>"
  define ns where "ns = (if sn_executionStatus x = ES_EXECUTING \<or> sn_executionStatus x = ES_EXECUTING_WITH_WAITPOINTS
             then ES_EXECUTING_WITH_WAITPOINTS else ES_SUSPENDED)"
  define row where "row = snapshot_row (sn_runId x) (sn_runStatus x) (sn_attemptNumber x) ns
              (Some (sn_id x)) (map_option fst batch) ((sn_environment x)\<lparr>en_organizationId := org\<rparr>) None workerId runnerId [] None"
  obtain r2 st2 where c: "(if ns \<noteq> sn_executionStatus x then createExecutionSnapshot e now row else return x) st1 = (r2, st2)" by fastforce
  define fin where "fin = (case timeout of None \<Rightarrow> (\<lambda>st. st)
      | Some t \<Rightarrow> fold (\<lambda>w. enqueue_job e now (finish_id w) (FinishWaitpoint w (Some (e_timeoutError e t))) t) ws)"
  have x: "sn_runId x = runId" using latest_row [OF Some] by simp
  obtain N where N: "tables d = (tb st)\<lparr>t_blocks := t_blocks (tb st) \<union> N\<rparr>"
      "\<And>b. b \<in> N \<Longrightarrow> bl_taskRunId b = runId \<and> t_waitpoints (tb st) (bl_waitpointId b) \<noteq> None"
      "pending > 0 \<Longrightarrow> \<exists>b \<in> N. \<not> done_wp (tb st) (bl_waitpointId b)"
    using insert_blocks_effect [OF ins] by blast
  have st2: "\<exists>y xs. r2 = Inr y \<and> tb st2 = (tb st1)\<lparr>t_snapshots := xs\<rparr> \<and> (\<forall>r. r \<noteq> runId \<longrightarrow> latest (tb st2) r = latest (tb st1) r) \<and> grows {} st1 st2"
  proof (cases "ns = sn_executionStatus x")
    case True
    then have "r2 = Inr x" "st2 = st1" using c by (simp_all add: return_def)
    then show ?thesis by (auto intro!: exI [of _ "t_snapshots (tb st1)"])
  next
    case False
    then have "createExecutionSnapshot e now row st1 = (r2, st2)" using c by simp
    then obtain y i where y: "r2 = Inr y" "y = row\<lparr>sn_id := i\<rparr>" "tb st2 = (tb st1)\<lparr>t_snapshots := y # t_snapshots (tb st1)\<rparr>" "grows {} st1 st2"
      by (rule create_effect)
    moreover have "sn_isValid y" "sn_runId y = runId" by (simp_all add: y(2) row_def snapshot_row_def x)
    ultimately show ?thesis by (auto simp: latest_cons)
  qed
  then obtain y xs where y: "r2 = Inr y" "tb st2 = (tb st1)\<lparr>t_snapshots := xs\<rparr>" "\<And>r. r \<noteq> runId \<Longrightarrow> latest (tb st2) r = latest (tb st1) r" "grows {} st1 st2"
    by blast
  have g: "g = (if pending > 0 then fin st2 else schedule_continue e now runId (fin st2))"
    using assms Some ins c y(1)
    by (auto simp: blockRunWithWaitpoint_def then_do_def getLatest_latest Let_def st1_def ns_def row_def fin_def split: option.splits if_splits)
  have f: "grows {} st2 (fin st2)" "es_db (fin st2) = es_db st2"
    using fold_finish unfolding fin_def by (auto split: option.split)
  have "grows {} st1 (fin st2)" using jobs_grow_trans [OF y(4) f(1)] by simp
  then have gf: "grows {} st (fin st2)" by (simp add: st1_def)
  have gg: "grows {runId} st (schedule_continue e now runId (fin st2))" using jobs_grow_trans [OF gf schedule_grows [of runId "fin st2" now]] by simp
  have "tb g = (tb st)\<lparr>t_blocks := t_blocks (tb st) \<union> N, t_snapshots := xs\<rparr>" "\<And>r. r \<noteq> runId \<Longrightarrow> latest (tb g) r = latest (tb st) r"
    using y N(1) f(2) by (simp_all add: g st1_def)
  moreover have "grows {runId} st g \<or> grows {} st g \<and> (\<exists>b \<in> N. \<not> done_wp (tb st) (bl_waitpointId b))"
    using N(3) gf gg by (simp add: g)
  ultimately show thesis using that(2) N(2) by blast
qed

end

end
