(* ===== verification/Engine_Wakeup_Steps.thy ===== *)
theory Engine_Wakeup_Steps
  imports Engine_Wakeup_Invariant
begin

text \<open>
  The steps of \<open>Engine_Wakeup\<close> keep its invariant, and from a state where a run is ready the requests that have
  completed waitpoints and the worker continue it.
\<close>

text \<open>Only the snapshots and the blocks of one run differ.\<close>

definition touches_only :: "string \<Rightarrow> tables \<Rightarrow> tables \<Rightarrow> bool" where
  "touches_only runId T T' \<longleftrightarrow> t_waitpoints T' = t_waitpoints T \<and> t_runs T' = t_runs T \<and> t_blocks T' \<subseteq> t_blocks T
     \<and> (\<forall>r. r \<noteq> runId \<longrightarrow> latest T' r = latest T r \<and> blocks_of T' r = blocks_of T r)"

lemma touches_refl [simp]: "touches_only r T T"
  by (simp add: touches_only_def)

lemma touches_rows: "touches_only r T T' \<Longrightarrow> rows_ok T \<Longrightarrow> rows_ok T'"
  by (auto simp: touches_only_def rows_ok_def done_wp_def)

lemma touches_ready: "touches_only r T T' \<Longrightarrow> r' \<noteq> r \<Longrightarrow> ready T' r' = ready T r'"
  by (simp add: touches_only_def ready_def waiting_def done_wp_def)

text \<open>The queue takes the message of a run.\<close>

definition queue_accepts :: "('d, 'q, 'j) engine_deps \<Rightarrow> time \<Rightarrow> task_run \<Rightarrow> 'q \<Rightarrow> bool" where
  "queue_accepts e now run q \<longleftrightarrow> (\<forall>err. q_enqueue (e_queue e) now (queue_env (tr_environment run)) (run_message run (tr_environment run))
     (if en_type (tr_environment run) = DEVELOPMENT then en_id (tr_environment run) else tr_workerQueue run) q \<noteq> Inl err)"

context engine
begin

subsection \<open>Continuing\<close>

lemma pending_not_done:
  assumes "rows_ok (tb st)" and "b \<in> t_blocks (tb st)"
  shows "is_pending e (es_db st) b \<longleftrightarrow> \<not> done_wp (tb st) (bl_waitpointId b)"
  using assms by (auto simp: is_pending_def wp_get rows_ok_def done_wp_def split: option.split)

text \<open>The outcomes of a continue job.\<close>

lemma continue_cases:
  assumes "continueRunIfUnblocked e now runId st = (out, g)" and ok: "rows_ok (tb st)"
  obtains (blocked) ids where "out = Inr (Blocked ids)" "g = st" "\<exists>b \<in> blocks_of (tb st) runId. \<not> done_wp (tb st) (bl_waitpointId b)"
  | (skipped) "out = Inr Skipped" "g = st" "\<not> waiting (tb st) runId"
  | (failed) err where "out = Inl err" "g = st"
      "t_runs (tb st) runId = None \<or> latest (tb st) runId = None
        \<or> (\<exists>x. latest (tb st) runId = Some x \<and> sn_executionStatus x = ES_SUSPENDED \<and> (sn_checkpointId x = None \<or> sn_checkpointId x = Some []))"
  | (unqueued) err x run where "t_runs (tb st) runId = Some run" "\<not> queue_accepts e now run (es_queue st)" "out = Inl (QueueFailed err)" "sn_runId x = runId" "sn_isValid x" "sn_executionStatus x = ES_QUEUED"
      "tb g = (tb st)\<lparr>t_snapshots := x # t_snapshots (tb st)\<rparr>" "grows {} st g"
  | (continued) ids x bs where "out = Inr (Unblocked ids)" "sn_runId x = runId" "sn_isValid x"
      "sn_executionStatus x = ES_EXECUTING \<or> sn_executionStatus x = ES_QUEUED"
      "tb g = (tb st)\<lparr>t_snapshots := x # t_snapshots (tb st), t_blocks := bs\<rparr>" "bs = t_blocks (tb st) - blocks_of (tb st) runId" "grows {} st g"
proof -
  define bl where "bl = tw_select (e_db e) (\<lambda>b. bl_taskRunId b = runId) (es_db st)"
  define ids where "ids = map bl_waitpointId bl"
  define completed where "completed = map (\<lambda>b. (bl_waitpointId b, bl_batchIndex b)) bl"
  define fin where "fin = (\<lambda>st :: ('d, 'q, 'j) engine_state. if bl = [] then st
      else on_db (tw_delete (e_db e) (\<lambda>b. bl_taskRunId b = runId \<and> List.member (map bl_id bl) (bl_id b))) st)"
  have bl: "set bl = blocks_of (tb st) runId" by (auto simp: bl_def tw_select blocks_of_def)
  have fin_tb: "tb (fin h) = (tb h)\<lparr>t_blocks := t_blocks (tb st) - blocks_of (tb st) runId\<rparr>" if "t_blocks (tb h) = t_blocks (tb st)" for h
  proof -
    have "{b \<in> t_blocks (tb st). \<not> (bl_taskRunId b = runId \<and> bl_id b \<in> bl_id ` set bl)} = t_blocks (tb st) - blocks_of (tb st) runId"
      unfolding bl by (auto simp: blocks_of_def)
    moreover have "blocks_of (tb st) runId = {}" if "bl = []" using bl that by simp
    ultimately show ?thesis using that by (auto simp: fin_def on_db_def tw_delete)
  qed
  have fin_jobs: "es_jobs (fin h) = es_jobs h" for h by (simp add: fin_def on_db_def)
  show thesis
  proof (cases "list_ex (is_pending e (es_db st)) bl")
    case True
    then obtain b where "b \<in> blocks_of (tb st) runId" "is_pending e (es_db st) b" using bl by (auto simp: list_ex_iff)
    then have "\<not> done_wp (tb st) (bl_waitpointId b)" using pending_not_done [OF ok] by (simp add: blocks_of_def)
    moreover have "out = Inr (Blocked ids)" "g = st"
      using assms(1) True by (auto simp: continueRunIfUnblocked_def Let_def bl_def ids_def)
    ultimately show thesis using blocked \<open>b \<in> blocks_of (tb st) runId\<close> by blast
  next
    case np: False
    show thesis
    proof (cases "t_runs (tb st) runId = None \<or> latest (tb st) runId = None")
      case True
      then have "\<exists>err. out = Inl err" "g = st"
        using assms(1) np by (auto simp: continueRunIfUnblocked_def Let_def bl_def then_do_def find_run_def run_get getLatest_latest
            split: option.splits)
      then show thesis using failed True by blast
    next
      case False
      then obtain run x where run: "t_runs (tb st) runId = Some run" and x: "latest (tb st) runId = Some x" by auto
      have ri: "tr_id run = runId" using ok run by (simp add: rows_ok_def)
      have def: "(out, g) = (case sn_executionStatus x of
                 ES_EXECUTING_WITH_WAITPOINTS \<Rightarrow>
                   then_do (createExecutionSnapshot e now (snapshot_row runId (sn_runStatus x) (sn_attemptNumber x) ES_EXECUTING
                     (Some (sn_id x)) (sn_batchId x) (sn_environment x) None None None completed None)) (\<lambda>_ st. (Inr (Unblocked ids), fin st))
               | ES_SUSPENDED \<Rightarrow>
                   (case sn_checkpointId x of
                      Some (c # cs) \<Rightarrow>
                        then_do (enqueueRun e now run (tr_environment run) ES_QUEUED None (sn_batchId x) (sn_checkpointId x) completed None None)
                          (\<lambda>_ st. (Inr (Unblocked ids), fin st))
                    | _ \<Rightarrow> throw (NoCheckpoint runId))
               | _ \<Rightarrow> return Skipped) st"
        using assms(1) np unfolding continueRunIfUnblocked_def Let_def bl_def [symmetric] ids_def [symmetric] completed_def [symmetric] fin_def
        by (simp add: then_do_def [of "find_run e runId"] then_do_def [of "getLatestExecutionSnapshot e runId"] find_run_def run_get run
            getLatest_latest x)
      consider (ew) "sn_executionStatus x = ES_EXECUTING_WITH_WAITPOINTS"
        | (sn) "sn_executionStatus x = ES_SUSPENDED" "sn_checkpointId x = None \<or> sn_checkpointId x = Some []"
        | (sc) c cs where "sn_executionStatus x = ES_SUSPENDED" "sn_checkpointId x = Some (c # cs)"
        | (other) "\<not> waits (sn_executionStatus x)"
        by (auto simp: waits_def) (metis list.exhaust option.exhaust)
      then show thesis
      proof cases
        case ew
        obtain r h where c: "createExecutionSnapshot e now (snapshot_row runId (sn_runStatus x) (sn_attemptNumber x) ES_EXECUTING
            (Some (sn_id x)) (sn_batchId x) (sn_environment x) None None None completed None) st = (r, h)" by fastforce
        from c obtain y i where y: "r = Inr y" "y = snapshot_row runId (sn_runStatus x) (sn_attemptNumber x) ES_EXECUTING
            (Some (sn_id x)) (sn_batchId x) (sn_environment x) None None None completed None\<lparr>sn_id := i\<rparr>"
            "tb h = (tb st)\<lparr>t_snapshots := y # t_snapshots (tb st)\<rparr>" "grows {} st h"
          by (rule create_effect)
        have "out = Inr (Unblocked ids)" "g = fin h" using def ew c y(1) by (simp_all add: then_do_def)
        then show thesis using y fin_tb [of h] fin_jobs [of h] by (intro continued [of ids y]) (simp_all add: snapshot_row_def)
      next
        case sn
        then show thesis using failed x def by (auto simp: throw_def)
      next
        case sc
        obtain r h where c: "enqueueRun e now run (tr_environment run) ES_QUEUED None (sn_batchId x) (sn_checkpointId x) completed None None st = (r, h)"
          by fastforce
        from c obtain y where y: "sn_runId y = tr_id run" "sn_executionStatus y = ES_QUEUED" "sn_isValid y"
            "tb h = (tb st)\<lparr>t_snapshots := y # t_snapshots (tb st)\<rparr>" "grows {} st h" "r = Inr y \<or> (\<exists>err. r = Inl (QueueFailed err) \<and> q_enqueue (e_queue e) now (queue_env (tr_environment run))
              (run_message run (tr_environment run))
              (if en_type (tr_environment run) = DEVELOPMENT then en_id (tr_environment run) else tr_workerQueue run) (es_queue st) = Inl err)"
          by (rule enqueueRun_effect)
        have "r = Inr y \<or> \<not> queue_accepts e now run (es_queue st) \<and> (\<exists>err. r = Inl (QueueFailed err))"
          using y(6) by (auto simp: queue_accepts_def)
        then show thesis
        proof
          assume r: "r = Inr y"
          have "out = Inr (Unblocked ids)" "g = fin h" using def sc c r by (simp_all add: then_do_def)
          then show thesis using y ri fin_tb [of h] fin_jobs [of h] by (intro continued [of ids y]) simp_all
        next
          assume na: "\<not> queue_accepts e now run (es_queue st) \<and> (\<exists>err. r = Inl (QueueFailed err))"
          then obtain err where "r = Inl (QueueFailed err)" by blast
          then have "out = Inl (QueueFailed err)" "g = h" using def sc c by (simp_all add: then_do_def)
          then show thesis using y ri na run by (intro unqueued [of run err y]) simp_all
        qed
      next
        case other
        then have "out = Inr Skipped" "g = st" using def by (auto simp: return_def waits_def split: exec_status.splits)
        then show thesis using skipped x other by (simp add: waiting_def)
      qed
    qed
  qed
qed

lemma continue_effect:
  assumes "continueRunIfUnblocked e now runId st = (out, g)" and "rows_ok (tb st)"
  shows "touches_only runId (tb st) (tb g)" "grows {} st g" "g = st \<or> \<not> ready (tb g) runId" "out = Inr a \<Longrightarrow> \<not> ready (tb g) runId"
proof -
  from assms have "touches_only runId (tb st) (tb g) \<and> grows {} st g \<and> (g = st \<or> \<not> ready (tb g) runId) \<and> (out = Inr a \<longrightarrow> \<not> ready (tb g) runId)"
  proof (cases rule: continue_cases)
    case blocked
    then show ?thesis by (auto simp: ready_def)
  next
    case skipped
    then show ?thesis by (auto simp: ready_def)
  next
    case failed
    then show ?thesis by simp
  next
    case (unqueued err x run)
    then show ?thesis by (auto simp: touches_only_def latest_cons ready_def waiting_cons waits_def)
  next
    case (continued ids x bs)
    then show ?thesis by (auto simp: touches_only_def latest_cons ready_def blocks_of_def)
  qed
  then show "touches_only runId (tb st) (tb g)" "grows {} st g" "g = st \<or> \<not> ready (tb g) runId" "out = Inr a \<Longrightarrow> \<not> ready (tb g) runId"
    by auto
qed

subsection \<open>Preservation\<close>

abbreviation inv :: "('d, 'q, 'j) wait_state \<Rightarrow> bool" where
  "inv st \<equiv> wait_inv (ws_completer st) (ws_runner st) (ws_dead st) (tb (ws_engine st)) (jobs (es_jobs (ws_engine st))) (used (es_jobs (ws_engine st)))"

lemma complete_effect:
  fixes st :: "('d, 'q, 'j) engine_state" and now :: time and i :: string and res :: "waitpoint_output option"
  assumes "rows_ok (tb st)"
  defines "g \<equiv> complete_pending e now i res st"
  shows "rows_ok (tb g)" "es_jobs g = es_jobs st" "blocks_of (tb g) = blocks_of (tb st)" "waiting (tb g) = waiting (tb st)"
    "\<And>j. j \<noteq> i \<Longrightarrow> done_wp (tb g) j = done_wp (tb st) j"
proof -
  have "g = st \<or> (\<exists>w. wp_id w = i \<and> t_waitpoints (tb st) i \<noteq> None \<and> g = on_db (wp_put (e_db e) w) st)"
  proof (cases "t_waitpoints (tb st) i")
    case None
    then show ?thesis by (simp add: g_def complete_pending_def wp_get)
  next
    case (Some w)
    then have "wp_id w = i" using assms(1) by (simp add: rows_ok_def)
    then show ?thesis using Some
      by (cases "wp_completed w") (auto simp: g_def complete_pending_def wp_get
          intro!: disjI2 exI [of _ "w\<lparr>wp_completed := True, wp_completedAt := Some now, wp_output := case res of None \<Rightarrow> wp_output w | Some x \<Rightarrow> Some x\<rparr>"])
  qed
  then have "rows_ok (tb g) \<and> es_jobs g = es_jobs st \<and> blocks_of (tb g) = blocks_of (tb st) \<and> waiting (tb g) = waiting (tb st)
      \<and> (\<forall>j. j \<noteq> i \<longrightarrow> done_wp (tb g) j = done_wp (tb st) j)"
  proof
    assume "\<exists>w. wp_id w = i \<and> t_waitpoints (tb st) i \<noteq> None \<and> g = on_db (wp_put (e_db e) w) st"
    then obtain w where "wp_id w = i" "g = on_db (wp_put (e_db e) w) st" by blast
    then show ?thesis using assms(1) by (auto simp: on_db_def wp_put rows_ok_def done_wp_def)
  qed (use assms(1) in simp)
  then show "rows_ok (tb g)" "es_jobs g = es_jobs st" "blocks_of (tb g) = blocks_of (tb st)" "waiting (tb g) = waiting (tb st)"
    "\<And>j. j \<noteq> i \<Longrightarrow> done_wp (tb g) j = done_wp (tb st) j" by auto
qed

text \<open>Requests that complete waitpoints.\<close>

lemma move_inv:
  assumes "inv st" and move: "completer_move e now i res (ws_completer st c) (ws_engine st) = (x, g)"
  shows "inv (st\<lparr>ws_engine := g, ws_completer := (ws_completer st)(c := x)\<rparr>)"
proof -
  let ?T = "tb (ws_engine st)" and ?J = "jobs (es_jobs (ws_engine st))" and ?cs = "(ws_completer st)(c := x)"
  have rows: "rows_ok ?T" and keys: "keys_ok (ws_runner st) ?J (used (es_jobs (ws_engine st)))"
    and wake: "\<And>r. ready ?T r \<Longrightarrow> woken (ws_completer st) (ws_runner st) (ws_dead st) ?T ?J r"
    using assms(1) by (simp_all add: wait_inv_def)
  have upd: "woken ?cs (ws_runner st) (ws_dead st) T J r"
    if "woken (ws_completer st) (ws_runner st) (ws_dead st) T J r" "will_schedule (ws_completer st c) T r \<Longrightarrow> will_schedule x T r" for T J r
    using that by (auto simp: woken_def fun_upd_apply) (metis)
  show ?thesis
  proof (cases "ws_completer st c")
    case C_idle
    then have x: "x = C_updated i" "g = complete_pending e now i res (ws_engine st)" using move by simp_all
    note eff = complete_effect [where now = now and i = i and res = res, OF rows, folded x(2)]
    have "woken ?cs (ws_runner st) (ws_dead st) (tb g) (jobs (es_jobs g)) r" if "ready (tb g) r" for r
    proof (cases "\<exists>b \<in> blocks_of (tb g) r. bl_waitpointId b = i")
      case True
      then show ?thesis by (auto simp: woken_def x(1) intro!: exI [of _ c])
    next
      case False
      then have "ready ?T r" using that eff(3-5) by (auto simp: ready_def)
      moreover have "will_schedule k (tb g) r = will_schedule k ?T r" for k by (cases k) (simp_all add: eff(3))
      ultimately show ?thesis using upd [OF wake [of r]] C_idle by (simp add: woken_def eff(2))
    qed
    then show ?thesis using keys eff(1,2) by (simp add: wait_inv_def)
  next
    case (C_updated j)
    then have x: "g = ws_engine st" "x = (case wp_get (e_db e) j (es_db g) of None \<Rightarrow> C_idle
        | Some w \<Rightarrow> if wp_completed w then C_scheduling (affectedTaskRuns e j g) else C_idle)" using move by auto
    have "will_schedule x ?T r" if rd: "ready ?T r" and ws: "will_schedule (C_updated j) ?T r" for r
    proof -
      obtain b where b: "b \<in> blocks_of ?T r" "bl_waitpointId b = j" using ws by auto
      then obtain w where "t_waitpoints ?T j = Some w" "wp_completed w" using rd by (auto simp: ready_def done_wp_def)
      then have "x = C_scheduling (affectedTaskRuns e j g)" by (simp add: x wp_get)
      then show ?thesis using b by (auto simp: affectedTaskRuns_def tw_select x(1) blocks_of_def)
    qed
    then show ?thesis using rows keys upd [OF wake] C_updated by (simp add: wait_inv_def x(1))
  next
    case (C_scheduling rs)
    show ?thesis
    proof (cases rs)
      case Nil
      then show ?thesis using rows keys upd [OF wake] C_scheduling move by (auto simp: wait_inv_def)
    next
      case (Cons r0 rs')
      then have x: "x = C_scheduling rs'" "g = schedule_continue e now r0 (ws_engine st)" using move C_scheduling by simp_all
      note grow = schedule_grows [of r0 "ws_engine st" now, folded x(2)]
      have "woken ?cs (ws_runner st) (ws_dead st) ?T (jobs (es_jobs g)) r" if "ready ?T r" for r
      proof (cases "r = r0")
        case True
        then show ?thesis using job_waits_fresh [OF keys grow] by (simp add: woken_def)
      next
        case False
        have "woken (ws_completer st) (ws_runner st) (ws_dead st) ?T (jobs (es_jobs g)) r"
          using wake [OF that] job_waits_fresh [OF keys grow] by (auto simp: woken_def)
        then show ?thesis by (rule upd) (use False C_scheduling Cons x(1) in simp)
      qed
      then show ?thesis using rows keys_grow [OF keys grow] by (simp add: wait_inv_def x(2))
    qed
  qed
qed

end

end
