(* ===== verification/Engine_Wakeup_Life.thy ===== *)
theory Engine_Wakeup_Life
  imports Engine_Wakeup_Steps
begin

text \<open>
  The invariant of \<open>Engine_Wakeup\<close> in every reachable state, and liveness: a run that waits for nothing any more is
  continued by the requests that have completed its waitpoints and by the worker.
\<close>

text \<open>Waitpoints may be created and their idempotency keys changed.\<close>

definition waitpoints_grow :: "tables \<Rightarrow> tables \<Rightarrow> bool" where
  "waitpoints_grow T T' \<longleftrightarrow> (\<exists>ws. T' = T\<lparr>t_waitpoints := ws\<rparr>) \<and> done_wp T' = done_wp T \<and> (rows_ok T \<longrightarrow> rows_ok T')"

lemma waitpoints_refl [simp]: "waitpoints_grow T T"
  by (auto simp: waitpoints_grow_def intro!: exI [of _ "t_waitpoints T"])

context engine
begin

subsection \<open>Workers\<close>

text \<open>A worker that moves on without having handled a job keeps every run awake.\<close>

lemma runner_inv:
  assumes "wait_inv cs rs dead T J U" and "\<And>r k. x = R_taken r k \<Longrightarrow> k \<in> U" and "\<And>r k. x \<noteq> R_done r k"
  shows "wait_inv cs (rs(c := x)) dead T J U"
  using assms unfolding wait_inv_def keys_ok_def woken_def job_waits_def fun_upd_apply by (smt (verit, best))

lemma continue_inv:
  assumes "inv st" and "continueRunIfUnblocked e now runId (ws_engine st) = (out, g)"
  shows "inv (st\<lparr>ws_engine := g\<rparr>)"
    and "out = Inr a \<Longrightarrow> k \<in> used (es_jobs (ws_engine st)) \<Longrightarrow> inv (st\<lparr>ws_engine := g, ws_runner := (ws_runner st)(c := R_done runId k)\<rparr>)"
proof -
  have rows: "rows_ok (tb (ws_engine st))" using assms(1) by (simp add: wait_inv_def)
  note eff = continue_effect [OF assms(2) rows]
  have "wait_inv (ws_completer st) (ws_runner st) (ws_dead st) (tb g) (jobs (es_jobs g)) (used (es_jobs g))"
  proof (rule wait_frame [OF assms(1) touches_rows [OF eff(1) rows] eff(2)])
    fix r assume r: "ready (tb g) r"
    show "r \<in> {} \<or> ready (tb (ws_engine st)) r \<and> blocks_of (tb (ws_engine st)) r \<subseteq> blocks_of (tb g) r"
    proof (cases "r = runId")
      case True
      then show ?thesis using r eff(3) by auto
    next
      case False
      then show ?thesis using r touches_ready [OF eff(1) False] eff(1) by (simp add: touches_only_def)
    qed
  qed
  then show i: "inv (st\<lparr>ws_engine := g\<rparr>)" by simp
  assume "out = Inr a" and k: "k \<in> used (es_jobs (ws_engine st))"
  then have nr: "\<not> ready (tb g) runId" using eff(4) by blast
  have "used (es_jobs (ws_engine st)) \<subseteq> used (es_jobs g)" using eff(2) by (simp add: jobs_grow_def)
  then have "keys_ok ((ws_runner st)(c := R_done runId k)) (jobs (es_jobs g)) (used (es_jobs g))"
    using i k by (auto simp: wait_inv_def keys_ok_def)
  moreover have "woken (ws_completer st) ((ws_runner st)(c := R_done runId k)) (ws_dead st) (tb g) (jobs (es_jobs g)) r"
    if "ready (tb g) r" for r
  proof -
    have "r \<noteq> runId" using that nr by blast
    moreover have "woken (ws_completer st) (ws_runner st) (ws_dead st) (tb g) (jobs (es_jobs g)) r" using i that by (simp add: wait_inv_def)
    ultimately show ?thesis by (auto simp: woken_def job_waits_def)
  qed
  ultimately show "inv (st\<lparr>ws_engine := g, ws_runner := (ws_runner st)(c := R_done runId k)\<rparr>)" using i by (simp add: wait_inv_def)
qed

lemma retry_grows: "grows {r} st (st\<lparr>es_jobs := w_retry (e_worker e) now (continue_id r) (ContinueRunIfUnblocked r) n t (es_jobs st)\<rparr>)"
  using w_retry [of "es_jobs st" now "continue_id r" "ContinueRunIfUnblocked r" n t] by (auto intro!: jobs_grow_job)

text \<open>Removing the job of one run, when no job of it is due or the run is dead.\<close>

lemma remove_inv:
  assumes "wait_inv cs rs dead T J U" and "J' = J(continue_id r := None)" and "r \<in> dead' \<or> \<not> job_waits rs J r" and "dead \<subseteq> dead'"
  shows "wait_inv cs rs dead' T J' U"
  using assms by (auto simp: wait_inv_def keys_ok_def woken_def job_waits_def)

lemma duty_inv:
  assumes "duty_step e jobs st st'" and "inv st"
  shows "inv st'"
  using assms
proof (cases rule: duty_step.cases)
  case (wt_complete c now i res x g)
  then show ?thesis using move_inv [OF assms(2)] by blast
next
  case (wt_take c runId j)
  have "jr_key j \<in> used (es_jobs (ws_engine st))" using assms(2) wt_take(3) by (auto simp: wait_inv_def keys_ok_def)
  then show ?thesis using runner_inv [OF assms(2), of "R_taken runId (jr_key j)"] by (simp add: wt_take(1))
next
  case (wt_continue c runId k now out g)
  have "k \<in> used (es_jobs (ws_engine st))" using assms(2) wt_continue(2) by (auto simp: wait_inv_def keys_ok_def)
  then show ?thesis using continue_inv(2) [OF assms(2) wt_continue(3)] by (simp add: wt_continue(1))
next
  case (wt_retry c runId k now err g n t)
  let ?g = "g\<lparr>es_jobs := w_retry (e_worker e) now (continue_id runId) (ContinueRunIfUnblocked runId) n t (es_jobs g)\<rparr>"
  have "inv (st\<lparr>ws_engine := g\<rparr>)" by (rule continue_inv(1) [OF assms(2) wt_retry(3)])
  then have i: "wait_inv (ws_completer st) (ws_runner st) (ws_dead st) (tb g) (jobs (es_jobs g)) (used (es_jobs g))" by simp
  have "wait_inv (ws_completer st) (ws_runner st) (ws_dead st) (tb g) (jobs (es_jobs ?g)) (used (es_jobs ?g))"
    by (rule wait_frame [OF i _ retry_grows [of runId g now n t]]) (use i in \<open>auto simp: wait_inv_def\<close>)
  from runner_inv [OF this, of R_idle c] show ?thesis by (simp add: wt_retry(1))
next
  case (wt_leave c runId k now err g)
  have "inv (st\<lparr>ws_engine := g\<rparr>)" by (rule continue_inv(1) [OF assms(2) wt_leave(3)])
  from runner_inv [OF this, of R_idle c] show ?thesis by (simp add: wt_leave(1))
next
  case (wt_giveup c runId k now err g message)
  have "inv (st\<lparr>ws_engine := g\<rparr>)" by (rule continue_inv(1) [OF assms(2) wt_giveup(3)])
  from runner_inv [OF this, of R_idle c]
  have "wait_inv (ws_completer st) ((ws_runner st)(c := R_idle)) (ws_dead st) (tb g) (jobs (es_jobs g)) (used (es_jobs g))" by simp
  from remove_inv [OF this w_giveup(2), of runId "insert runId (ws_dead st)"] show ?thesis by (auto simp: wt_giveup(1) w_giveup(1))
next
  case (wt_ack c runId k)
  let ?J = "jobs (es_jobs (ws_engine st))"
  have u: "k \<in> used (es_jobs (ws_engine st))" using assms(2) wt_ack(2) by (auto simp: wait_inv_def keys_ok_def)
  then have k: "k \<noteq> []" using used_nonempty by blast
  have nw: "\<not> job_waits (ws_runner st) ?J runId" if "\<not> (\<exists>j. ?J (continue_id runId) = Some j \<and> jr_key j \<noteq> k)"
    using that wt_ack(2) by (auto simp: job_waits_def)
  have "wait_inv (ws_completer st) (ws_runner st) (ws_dead st) (tb (ws_engine st))
      (jobs (w_ack (e_worker e) (continue_id runId) (Some k) (es_jobs (ws_engine st)))) (used (es_jobs (ws_engine st)))"
  proof (cases "\<exists>j. ?J (continue_id runId) = Some j \<and> jr_key j \<noteq> k")
    case True
    then show ?thesis using assms(2) by (simp add: w_ack_key(2) [OF k])
  next
    case False
    then show ?thesis using nw by (intro remove_inv [OF assms(2), of _ runId]) (auto simp: w_ack_key(2) [OF k])
  qed
  from runner_inv [OF this, of R_idle c] show ?thesis by (simp add: wt_ack(1) w_ack_key(1) [OF k])
qed

subsection \<open>The other steps\<close>

lemma block_inv:
  assumes "inv st" and "blockRunWithWaitpoint e now runId ws org timeout spanId batch workerId runnerId (ws_engine st) = (out, g)"
  shows "inv (st\<lparr>ws_engine := g\<rparr>)"
  using assms(2)
proof (cases rule: block_effect)
  case 1
  then show ?thesis using assms(1) by simp
next
  case (2 N xs)
  let ?T = "tb (ws_engine st)"
  have rows: "rows_ok (tb g)" using assms(1) 2(2) by (auto simp: 2(1) wait_inv_def rows_ok_def)
  have own: "blocks_of (tb g) runId = blocks_of ?T runId \<union> N" using 2(2) by (auto simp: 2(1) blocks_of_def)
  have other: "ready ?T r \<and> blocks_of ?T r \<subseteq> blocks_of (tb g) r" if "ready (tb g) r" "r \<noteq> runId" for r
  proof -
    have "blocks_of (tb g) r = blocks_of ?T r" using 2(2) that(2) by (auto simp: 2(1) blocks_of_def)
    moreover have "waiting (tb g) r = waiting ?T r" using 2(3) [OF that(2)] by (simp add: waiting_def)
    moreover have "done_wp (tb g) = done_wp ?T" by (simp add: 2(1))
    ultimately show ?thesis using that(1) by (simp add: ready_def)
  qed
  from 2(4) show ?thesis
  proof
    assume "grows {runId} (ws_engine st) g"
    from wait_frame [OF assms(1) rows this] other show ?thesis by auto
  next
    assume *: "grows {} (ws_engine st) g \<and> (\<exists>b \<in> N. \<not> done_wp ?T (bl_waitpointId b))"
    then have "\<not> ready (tb g) runId" unfolding ready_def own by (auto simp: 2(1))
    from wait_frame [OF assms(1) rows conjunct1 [OF *]] other this show ?thesis by auto
  qed
qed

lemma cached_grow:
  assumes "cached_waitpoint e now nano env key st = (w, g)" and "rows_ok (tb st)"
  shows "waitpoints_grow (tb st) (tb g)" "es_jobs g = es_jobs st"
    "t_waitpoints (tb st) newId = None \<Longrightarrow> t_waitpoints (tb g) newId = None"
proof -
  have "g = st \<or> (\<exists>v n. t_waitpoints (tb st) (wp_id v) = Some v \<and> g = on_db (wp_put (e_db e) (v\<lparr>wp_idempotencyKey := n, wp_inactiveIdempotencyKey := Some (wp_idempotencyKey v)\<rparr>)) st)"
  proof -
    have "t_waitpoints (tb st) (wp_id v) = Some v" if "wp_select (e_db e) P (es_db st) = v # vs" for P v vs
      using wp_select [of P "es_db st"] that assms(2) by (auto simp: rows_ok_def)
    then show ?thesis using assms(1) by (auto simp: cached_waitpoint_def split: option.splits list.splits if_splits) blast
  qed
  then have *: "waitpoints_grow (tb st) (tb g) \<and> es_jobs g = es_jobs st
      \<and> (t_waitpoints (tb st) newId = None \<longrightarrow> t_waitpoints (tb g) newId = None)" for newId
  proof
    assume "\<exists>v n. t_waitpoints (tb st) (wp_id v) = Some v \<and> g = on_db (wp_put (e_db e) (v\<lparr>wp_idempotencyKey := n, wp_inactiveIdempotencyKey := Some (wp_idempotencyKey v)\<rparr>)) st"
    then obtain v n where v: "t_waitpoints (tb st) (wp_id v) = Some v"
      and g: "tb g = (tb st)\<lparr>t_waitpoints := (t_waitpoints (tb st))(wp_id v \<mapsto> v\<lparr>wp_idempotencyKey := n, wp_inactiveIdempotencyKey := Some (wp_idempotencyKey v)\<rparr>)\<rparr>"
        "es_jobs g = es_jobs st"
      by (auto simp: on_db_def wp_put)
    have "done_wp (tb g) = done_wp (tb st)" using v by (auto simp: g done_wp_def fun_eq_iff)
    moreover have "\<exists>ws. tb g = (tb st)\<lparr>t_waitpoints := ws\<rparr>" using g(1) by blast
    moreover have "rows_ok (tb g)" using assms(2) by (simp add: rows_ok_def g(1))
    moreover have "t_waitpoints (tb g) newId = None" if "t_waitpoints (tb st) newId = None" using v that by (auto simp: g(1))
    ultimately show ?thesis unfolding waitpoints_grow_def using g(2) by blast
  qed simp
  then show "waitpoints_grow (tb st) (tb g)" "es_jobs g = es_jobs st"
    "t_waitpoints (tb st) newId = None \<Longrightarrow> t_waitpoints (tb g) newId = None" by blast+
qed

lemma upsert_grow:
  assumes "upsert_waitpoint e w st = (v, g)" and "t_waitpoints (tb st) (wp_id w) = None" and "\<not> wp_completed w"
  shows "waitpoints_grow (tb st) (tb g)" "es_jobs g = es_jobs st"
proof -
  have "g = st \<or> g = on_db (wp_put (e_db e) w) st" using assms(1) by (auto simp: upsert_waitpoint_def split: list.splits)
  then have "waitpoints_grow (tb st) (tb g) \<and> es_jobs g = es_jobs st"
  proof
    assume g: "g = on_db (wp_put (e_db e) w) st"
    have "done_wp (tb g) = done_wp (tb st)" using assms(2,3) by (auto simp: g on_db_def wp_put done_wp_def fun_eq_iff)
    then show ?thesis using assms(2) by (auto simp: waitpoints_grow_def rows_ok_def g on_db_def wp_put)
  qed simp
  then show "waitpoints_grow (tb st) (tb g)" "es_jobs g = es_jobs st" by auto
qed

lemma waitpoints_trans: "waitpoints_grow T T' \<Longrightarrow> waitpoints_grow T' T'' \<Longrightarrow> waitpoints_grow T T''"
  by (auto simp: waitpoints_grow_def)

lemma waitpoints_inv:
  assumes "inv st" and "waitpoints_grow (tb (ws_engine st)) (tb g)" and "grows {} (ws_engine st) g"
  shows "inv (st\<lparr>ws_engine := g\<rparr>)"
proof -
  have "ready (tb g) r = ready (tb (ws_engine st)) r" "blocks_of (tb g) = blocks_of (tb (ws_engine st))" for r
    using assms(2) by (auto simp: waitpoints_grow_def ready_def)
  moreover have "rows_ok (tb g)" using assms(1,2) by (simp add: wait_inv_def waitpoints_grow_def)
  ultimately have "wait_inv (ws_completer st) (ws_runner st) (ws_dead st) (tb g) (jobs (es_jobs g)) (used (es_jobs g))"
    by (intro wait_frame [OF assms(1) _ assms(3)]) simp_all
  then show ?thesis by simp
qed

lemma create_effects:
  assumes "rows_ok (tb st)" and "t_waitpoints (tb st) newId = None"
  shows "createDateTimeWaitpoint e now newId n1 n2 proj env after key expires st = (out, g) \<Longrightarrow>
      waitpoints_grow (tb st) (tb g) \<and> grows {} st g"
    and "createManualWaitpoint e now conflicts newId n1 n2 env proj key expires timeout st = (out', g) \<Longrightarrow>
      waitpoints_grow (tb st) (tb g) \<and> grows {} st g"
proof -
  obtain w h where c: "cached_waitpoint e now n1 env key st = (w, h)" by fastforce
  note ch = cached_grow(1,2) [OF c assms(1)] cached_grow(3) [OF c assms(1,2)]
  have up: "waitpoints_grow (tb st) (tb k) \<and> grows {} st k" if "upsert_waitpoint e (new_waitpoint ty newId n2 key expires env proj t) h = (v, k)" for ty t v k
    using waitpoints_trans [OF ch(1) upsert_grow(1) [OF that]] upsert_grow(2) [OF that] ch(2,3) by (simp add: new_waitpoint_def)
  have fin: "waitpoints_grow (tb st) (tb (enqueue_job e now (finish_id i) job t k)) \<and> grows {} st (enqueue_job e now (finish_id i) job t k)"
    if "waitpoints_grow (tb st) (tb k) \<and> grows {} st k" for i job t k
    using that jobs_grow_trans [OF conjunct2 [OF that] enqueue_job_grows [of "finish_id i" k now job t]] by simp
  show "waitpoints_grow (tb st) (tb g) \<and> grows {} st g"
    if "createDateTimeWaitpoint e now newId n1 n2 proj env after key expires st = (out, g)"
  proof (cases w)
    case None
    obtain v k where u: "upsert_waitpoint e (new_waitpoint WP_DATETIME newId n2 key expires env proj (Some after)) h = (v, k)" by fastforce
    then show ?thesis using that fin [OF up [OF u]] None c by (auto simp: createDateTimeWaitpoint_def)
  next
    case (Some v)
    then show ?thesis using that c ch by (simp add: createDateTimeWaitpoint_def)
  qed
  have manual: "waitpoints_grow (tb st) (tb g) \<and> grows {} st g"
    if "create_manual n conflicts e now (new_waitpoint WP_MANUAL newId n2 key expires env proj timeout) timeout h = (out', g)" for n
    using that
  proof (induction n)
    case 0
    then show ?case using ch by simp
  next
    case (Suc n)
    obtain v k where u: "upsert_waitpoint e (new_waitpoint WP_MANUAL newId n2 key expires env proj timeout) h = (v, k)" by fastforce
    show ?case using Suc.prems Suc.IH up [OF u] fin [OF up [OF u]] by (auto simp: u split: if_splits option.splits)
  qed
  show "waitpoints_grow (tb st) (tb g) \<and> grows {} st g"
    if "createManualWaitpoint e now conflicts newId n1 n2 env proj key expires timeout st = (out', g)"
  proof (cases w)
    case None
    then show ?thesis using that c by (intro manual [of 5]) (simp add: createManualWaitpoint_def)
  next
    case (Some v)
    then show ?thesis using that c ch by (simp add: createManualWaitpoint_def)
  qed
qed

lemma step_inv:
  assumes "wait_step e jobs st st'" and "inv st"
  shows "inv st'"
  using assms(1)
proof (cases rule: wait_step.cases)
  case wt_duty
  then show ?thesis using duty_inv assms(2) by blast
next
  case (wt_start c now i res x g)
  then show ?thesis using move_inv [OF assms(2), of now i res c] by simp
next
  case wt_block
  then show ?thesis using block_inv [OF assms(2)] by blast
next
  case (wt_create now newId n1 n2 proj env after key expires out g)
  have "rows_ok (tb (ws_engine st))" using assms(2) by (simp add: wait_inv_def)
  from create_effects(1) [OF this _ wt_create(2)] show ?thesis
    using wt_create(3) waitpoints_inv [OF assms(2), of g] by (simp add: wp_get wt_create(1))
next
  case (wt_manual now conflicts newId n1 n2 env proj key expires timeout out g)
  have "rows_ok (tb (ws_engine st))" using assms(2) by (simp add: wait_inv_def)
  from create_effects(2) [OF this _ wt_manual(2)] show ?thesis
    using wt_manual(3) waitpoints_inv [OF assms(2), of g] by (simp add: wp_get wt_manual(1))
next
  case (wt_new w)
  have new: "t_waitpoints (tb (ws_engine st)) (wp_id w) = None" using wt_new(2) by (simp add: wp_get)
  define g where "g = on_db (wp_put (e_db e) w) (ws_engine st)"
  have g: "tb g = (tb (ws_engine st))\<lparr>t_waitpoints := (t_waitpoints (tb (ws_engine st)))(wp_id w \<mapsto> w)\<rparr>" "es_jobs g = es_jobs (ws_engine st)"
    by (simp_all add: g_def on_db_def wp_put)
  have "done_wp (tb g) = done_wp (tb (ws_engine st))" using new wt_new(3) by (auto simp: g done_wp_def fun_eq_iff)
  then have "waitpoints_grow (tb (ws_engine st)) (tb g)" by (auto simp: waitpoints_grow_def g(1) rows_ok_def)
  from waitpoints_inv [OF assms(2) this] show ?thesis by (simp add: g(2) wt_new(1) flip: g_def)
next
  case (wt_clear runId out g)
  then have g: "tb g = (tb (ws_engine st))\<lparr>t_blocks := {b \<in> t_blocks (tb (ws_engine st)). bl_taskRunId b \<noteq> runId}\<rparr>" "es_jobs g = es_jobs (ws_engine st)"
    by (auto simp: clearBlockingWaitpoints_def on_db_def tw_delete)
  have "blocks_of (tb g) r = (if r = runId then {} else blocks_of (tb (ws_engine st)) r)" for r by (auto simp: g blocks_of_def)
  then have "ready (tb g) r \<Longrightarrow> ready (tb (ws_engine st)) r \<and> blocks_of (tb (ws_engine st)) r \<subseteq> blocks_of (tb g) r" for r
    by (auto simp: ready_def g split: if_splits)
  moreover have "rows_ok (tb g)" using assms(2) by (auto simp: g wait_inv_def rows_ok_def)
  ultimately show ?thesis using wait_frame [OF assms(2), of "tb g" "{}" "jobs (es_jobs g)" "used (es_jobs g)"] by (simp add: g wt_clear(1))
next
  case (wt_other now row out g)
  from wt_other(2) obtain x i where x: "out = Inr x" "x = row\<lparr>sn_id := i\<rparr>"
      "tb g = (tb (ws_engine st))\<lparr>t_snapshots := x # t_snapshots (tb (ws_engine st))\<rparr>" "grows {} (ws_engine st) g"
    by (rule create_effect)
  have "waiting (tb (ws_engine st)) r" if "waiting (tb g) r" "blocks_of (tb (ws_engine st)) r \<noteq> {}" for r
    using wt_other(3,4) that tw_select [of "\<lambda>b. bl_taskRunId b = sn_runId row" "es_db (ws_engine st)"] by (auto simp: x(2,3) waiting_cons getLatest_latest blocks_of_def split: if_splits option.splits)
      (auto simp: waiting_def waits_def)
  then have "ready (tb g) r \<Longrightarrow> ready (tb (ws_engine st)) r \<and> blocks_of (tb (ws_engine st)) r \<subseteq> blocks_of (tb g) r" for r
    by (simp add: ready_def x(3))
  moreover have "rows_ok (tb g)" using assms(2) by (simp add: x(3) wait_inv_def)
  ultimately show ?thesis using wait_frame [OF assms(2) _ x(4)] by (simp add: wt_other(1))
next
  case (wt_runs r)
  let ?T = "tb (ws_engine st)" and ?s = "es_jobs (ws_engine st)"
  have "rows_ok (?T\<lparr>t_runs := (t_runs ?T)(tr_id r \<mapsto> r)\<rparr>)" using assms(2) by (auto simp: wait_inv_def rows_ok_def)
  then have "wait_inv (ws_completer st) (ws_runner st) (ws_dead st) (?T\<lparr>t_runs := (t_runs ?T)(tr_id r \<mapsto> r)\<rparr>) (jobs ?s) (used ?s)"
    by (intro wait_frame [OF assms(2) _ jobs_grow_refl]) simp_all
  then show ?thesis by (simp add: wt_runs on_db_def run_put)
next
  case (wt_queue q)
  then show ?thesis using assms(2) by simp
next
  case (wt_job i now job t)
  have "grows {} (ws_engine st) (enqueue_job e now i job t (ws_engine st))" using wt_job(2) by (rule enqueue_job_grows)
  from waitpoints_inv [OF assms(2) _ this] show ?thesis by (simp add: wt_job(1))
next
  case (wt_unjob i)
  have "grows {} (ws_engine st) (ack_job e i (ws_engine st))" using ack_other [OF wt_unjob(2)] by (simp add: ack_job_def)
  from waitpoints_inv [OF assms(2) _ this] show ?thesis by (simp add: wt_unjob(1) ack_job_def)
qed

lemma reachable_inv: "wait_reachable e tables jobs used st \<Longrightarrow> inv st"
proof (induction rule: wait_reachable.induct)
  case (wr_start st)
  then show ?case by (auto simp: wait_inv_def rows_ok_def keys_ok_def ready_def blocks_of_def)
next
  case (wr_step st st')
  then show ?case using step_inv by blast
qed

subsection \<open>Liveness\<close>

text \<open>A request on its way to schedule the job of a run gets there, and nothing else changes.\<close>

lemma schedule_reaches:
  assumes "ws_completer st c = C_scheduling rs" and "r \<in> set rs" and "inv st"
  shows "\<exists>st'. (duty_step e jobs)\<^sup>*\<^sup>* st st' \<and> inv st' \<and> tb (ws_engine st') = tb (ws_engine st) \<and> es_queue (ws_engine st') = es_queue (ws_engine st)
    \<and> ws_runner st' = ws_runner st \<and> job_waits (ws_runner st') (jobs (es_jobs (ws_engine st'))) r"
  using assms
proof (induction rs arbitrary: st)
  case (Cons r0 rs)
  define st1 where "st1 = st\<lparr>ws_engine := schedule_continue e 0 r0 (ws_engine st), ws_completer := (ws_completer st)(c := C_scheduling rs)\<rparr>"
  have step: "duty_step e jobs st st1"
    unfolding st1_def by (rule wt_complete [of _ _ e 0 "[]" None]) (simp_all add: Cons.prems(1))
  have i1: "inv st1" using duty_inv [OF step Cons.prems(3)] .
  have same: "tb (ws_engine st1) = tb (ws_engine st)" "ws_runner st1 = ws_runner st" "es_queue (ws_engine st1) = es_queue (ws_engine st)"
    by (simp_all add: st1_def schedule_continue_def enqueue_job_def)
  show ?case
  proof (cases "r = r0")
    case True
    have "keys_ok (ws_runner st) (jobs (es_jobs (ws_engine st))) (used (es_jobs (ws_engine st)))" using Cons.prems(3) by (simp add: wait_inv_def)
    from job_waits_fresh [OF this schedule_grows [of r0 "ws_engine st" 0]] True
    have "job_waits (ws_runner st1) (jobs (es_jobs (ws_engine st1))) r" by (simp add: st1_def)
    then show ?thesis using step i1 same by (intro exI [of _ st1]) (auto intro: r_into_rtranclp)
  next
    case False
    have "ws_completer st1 c = C_scheduling rs" by (simp add: st1_def)
    from Cons.IH [OF this _ i1] False Cons.prems(2) obtain st2 where
      "(duty_step e jobs)\<^sup>*\<^sup>* st1 st2" "inv st2" "tb (ws_engine st2) = tb (ws_engine st1)" "es_queue (ws_engine st2) = es_queue (ws_engine st1)"
        "ws_runner st2 = ws_runner st1" "job_waits (ws_runner st2) (jobs (es_jobs (ws_engine st2))) r" by auto
    then show ?thesis using converse_rtranclp_into_rtranclp [of "duty_step e jobs", OF step] same by (intro exI [of _ st2]) simp
  qed
qed simp

lemma job_reaches:
  assumes "inv st" and "ready (tb (ws_engine st)) r" and "r \<notin> ws_dead st"
  shows "\<exists>st'. (duty_step e jobs)\<^sup>*\<^sup>* st st' \<and> inv st' \<and> tb (ws_engine st') = tb (ws_engine st) \<and> es_queue (ws_engine st') = es_queue (ws_engine st)
    \<and> ws_runner st' = ws_runner st \<and> job_waits (ws_runner st') (jobs (es_jobs (ws_engine st'))) r"
proof -
  have "woken (ws_completer st) (ws_runner st) (ws_dead st) (tb (ws_engine st)) (jobs (es_jobs (ws_engine st))) r"
    using assms(1,2) by (simp add: wait_inv_def)
  then consider "job_waits (ws_runner st) (jobs (es_jobs (ws_engine st))) r" | c where "will_schedule (ws_completer st c) (tb (ws_engine st)) r"
    using assms(3) by (auto simp: woken_def)
  then show ?thesis
  proof cases
    case 1
    then show ?thesis using assms(1) by (intro exI [of _ st]) simp
  next
    case (2 c)
    show ?thesis
    proof (cases "ws_completer st c")
      case C_idle
      then show ?thesis using 2 by simp
    next
      case (C_scheduling rs)
      then show ?thesis using schedule_reaches [OF C_scheduling _ assms(1)] 2 by simp
    next
      case (C_updated i)
      then obtain b where b: "b \<in> blocks_of (tb (ws_engine st)) r" "bl_waitpointId b = i" using 2 by auto
      then obtain w where w: "t_waitpoints (tb (ws_engine st)) i = Some w" "wp_completed w" using assms(2) by (auto simp: ready_def done_wp_def)
      define rs where "rs = affectedTaskRuns e i (ws_engine st)"
      define st1 where "st1 = st\<lparr>ws_engine := ws_engine st, ws_completer := (ws_completer st)(c := C_scheduling rs)\<rparr>"
      have step: "duty_step e jobs st st1" unfolding st1_def
        by (rule wt_complete [of _ _ e 0 "[]" None]) (simp_all add: C_updated wp_get w rs_def)
      have "r \<in> set rs" using b by (auto simp: rs_def affectedTaskRuns_def tw_select blocks_of_def)
      from schedule_reaches [of st1 c, OF _ this duty_inv [OF step assms(1)]] show ?thesis
        using converse_rtranclp_into_rtranclp [of "duty_step e jobs", OF step] by (auto simp: st1_def)
    qed
  qed
qed

text \<open>The job of a ready run continues it, when its run exists, a suspended run has its checkpoint, and the queue
  accepts it.\<close>

lemma continue_ready:
  assumes "inv st" and "ready (tb (ws_engine st)) r" and "t_runs (tb (ws_engine st)) r \<noteq> None"
    and "\<And>x. latest (tb (ws_engine st)) r = Some x \<Longrightarrow> sn_executionStatus x = ES_SUSPENDED \<Longrightarrow> \<exists>c cs. sn_checkpointId x = Some (c # cs)"
    and "\<And>run. t_runs (tb (ws_engine st)) r = Some run \<Longrightarrow> queue_accepts e now run (es_queue (ws_engine st))"
    and run: "continueRunIfUnblocked e now r (ws_engine st) = (out, g)"
  shows "\<exists>ids x. out = Inr (Unblocked ids) \<and> latest (tb g) r = Some x \<and> (sn_executionStatus x = ES_EXECUTING \<or> sn_executionStatus x = ES_QUEUED)
    \<and> blocks_of (tb g) r = {}"
proof -
  have rows: "rows_ok (tb (ws_engine st))" using assms(1) by (simp add: wait_inv_def)
  from run rows show ?thesis
  proof (cases rule: continue_cases)
    case blocked
    then show ?thesis using assms(2) by (auto simp: ready_def)
  next
    case skipped
    then show ?thesis using assms(2) by (simp add: ready_def)
  next
    case failed
    then show ?thesis using assms(2,3,4) by (fastforce simp: ready_def waiting_def)
  next
    case unqueued
    then show ?thesis using assms(5) by blast
  next
    case (continued ids x bs)
    then show ?thesis by (auto simp: latest_cons blocks_of_def)
  qed
qed

text \<open>The worker, or the requests and then the worker, continue a ready run.\<close>

lemma ready_continues:
  assumes "inv st" and "ready (tb (ws_engine st)) r" and "r \<notin> ws_dead st" and "ws_runner st c = R_idle"
    and "t_runs (tb (ws_engine st)) r = Some run" and "queue_accepts e now run (es_queue (ws_engine st))"
    and "\<And>x. latest (tb (ws_engine st)) r = Some x \<Longrightarrow> sn_executionStatus x = ES_SUSPENDED \<Longrightarrow> \<exists>c cs. sn_checkpointId x = Some (c # cs)"
  shows "\<exists>st' x. (duty_step e jobs)\<^sup>*\<^sup>* st st' \<and> latest (tb (ws_engine st')) r = Some x
    \<and> (sn_executionStatus x = ES_EXECUTING \<or> sn_executionStatus x = ES_QUEUED) \<and> blocks_of (tb (ws_engine st')) r = {}"
proof -
  obtain st1 where st1: "(duty_step e jobs)\<^sup>*\<^sup>* st st1" "inv st1" "tb (ws_engine st1) = tb (ws_engine st)"
      "es_queue (ws_engine st1) = es_queue (ws_engine st)" "ws_runner st1 = ws_runner st"
      "job_waits (ws_runner st1) (jobs (es_jobs (ws_engine st1))) r"
    using job_reaches [OF assms(1-3)] by blast
  obtain j where j: "jobs (es_jobs (ws_engine st1)) (continue_id r) = Some j" "jr_job j = ContinueRunIfUnblocked r"
    using st1(6) by (auto simp: job_waits_def)
  define st2 where "st2 = st1\<lparr>ws_runner := (ws_runner st1)(c := R_taken r (jr_key j))\<rparr>"
  have s2: "duty_step e jobs st1 st2" unfolding st2_def using assms(4) st1(5) j by (intro wt_take) simp_all
  obtain out g where run: "continueRunIfUnblocked e now r (ws_engine st2) = (out, g)" by fastforce
  have e2: "ws_engine st2 = ws_engine st1" by (simp add: st2_def)
  have "\<exists>ids x. out = Inr (Unblocked ids) \<and> latest (tb g) r = Some x \<and> (sn_executionStatus x = ES_EXECUTING \<or> sn_executionStatus x = ES_QUEUED)
      \<and> blocks_of (tb g) r = {}"
    by (rule continue_ready [OF duty_inv [OF s2 st1(2)] _ _ _ _ run]) (use assms(2,5-7) st1(3,4) e2 in simp_all)
  then obtain ids x where x: "out = Inr (Unblocked ids)" "latest (tb g) r = Some x"
      "sn_executionStatus x = ES_EXECUTING \<or> sn_executionStatus x = ES_QUEUED" "blocks_of (tb g) r = {}" by blast
  have s3: "duty_step e jobs st2 (st2\<lparr>ws_engine := g, ws_runner := (ws_runner st2)(c := R_done r (jr_key j))\<rparr>)"
    by (rule wt_continue [of _ _ _ "jr_key j"]) (use run x(1) in \<open>simp_all add: st2_def\<close>)
  have "(duty_step e jobs)\<^sup>*\<^sup>* st (st2\<lparr>ws_engine := g, ws_runner := (ws_runner st2)(c := R_done r (jr_key j))\<rparr>)"
    using st1(1) s2 s3 by (meson rtranclp.rtrancl_into_rtrancl)
  then show ?thesis using x(2-4) by (intro exI conjI) (assumption | simp)+
qed

end

end
