(* ===== verification/Engine_Attempts_Laws.thy ===== *)
theory Engine_Attempts_Laws
  imports Engine_Attempts Engine_Wakeup_Life
begin

text \<open>
  The attempts of runs: the recursion of \<open>attemptFailed\<close> ends, attempts are bounded, and a run that is reported finished
  is closed: its waitpoint is completed, the runs that waited for it are woken, and its heartbeat is cancelled.
\<close>

lemma then_do_Inr:
  assumes "then_do m f st = (Inr y, st')"
  obtains x st1 where "m st = (Inr x, st1)" "f x st1 = (Inr y, st')"
  using assms by (auto simp: then_do_def split: prod.splits sum.splits)

lemma then_do_ok: "m st = (Inr x, st1) \<Longrightarrow> then_do m f st = f x st1"
  by (simp add: then_do_def)

lemma then_do_fail: "m st = (Inl err, st1) \<Longrightarrow> then_do m f st = (Inl err, st1)"
  by (simp add: then_do_def)

subsection \<open>The recursion of failures\<close>

lemma max_retries_outcome:
  "retryOutcomeFromCompletion e rnd now row an max_retries_error q s = Inr (FailOutcome (sanitizeError max_retries_error) False)"
proof -
  have "taskRunErrorEnhancer max_retries_error = max_retries_error" "\<not> isOOMRunError max_retries_error" "\<not> shouldRetryError max_retries_error"
    by (simp_all add: max_retries_error_def taskRunErrorEnhancer_def prettyInternalErrors_def isOOMRunError_def isManualOutOfMemoryError_def
        shouldRetryError_def)
  moreover have "cancelled_message max_retries_error = None" by (simp add: cancelled_message_def max_retries_error_def)
  ultimately show ?thesis by (simp add: retryOutcomeFromCompletion_def)
qed

lemma handle_outcome_fail:
  "handle_outcome fail e now fr wk rn runId x d (FailOutcome err oom) = permanentlyFailRun e now runId x err wk rn d"
  by (simp add: handle_outcome_def)

lemma attemptFailed_max_retries:
  "fc_error c = max_retries_error \<Longrightarrow> attemptFailed_fuel (Suc n) e rnd now fr wk rn runId snapshotId c = attemptFailed_fuel (Suc m) e rnd now fr wk rn runId snapshotId c"
  by (simp add: max_retries_outcome handle_outcome_fail cong: if_cong)

lemma tryNack_cong:
  assumes "\<And>r s. fail r s error = fail' r s error"
  shows "tryNackAndRequeue_with fail e now runId env t error a b c d f = tryNackAndRequeue_with fail' e now runId env t error a b c d f"
  using assms by (simp add: tryNackAndRequeue_with_def systemFailure_with_def cong: if_cong)

lemma handle_outcome_cong:
  assumes "\<And>r s. fail r s max_retries_error = fail' r s max_retries_error"
  shows "handle_outcome fail e now fr wk rn runId x d out = handle_outcome fail' e now fr wk rn runId x d out"
proof -
  have "tryNackAndRequeue_with fail e now r env t max_retries_error a b c d f = tryNackAndRequeue_with fail' e now r env t max_retries_error a b c d f"
    for r env t a b c d f by (rule tryNack_cong) (rule assms)
  then show ?thesis by (cases out) (simp_all add: handle_outcome_def cong: if_cong)
qed

lemma attemptFailed_fuel_enough: "attemptFailed_fuel (Suc (Suc n)) e rnd now fr wk rn runId snapshotId c = attemptFailed e rnd now fr wk rn runId snapshotId c"
proof -
  have "handle_outcome (\<lambda>runId snapshotId error. attemptFailed_fuel (Suc n) e rnd now False None None runId snapshotId
        \<lparr>fc_error = error, fc_retry = None, fc_durationMs = None\<rparr>) e now fr wk rn runId x d out
    = handle_outcome (\<lambda>runId snapshotId error. attemptFailed_fuel (Suc 0) e rnd now False None None runId snapshotId
        \<lparr>fc_error = error, fc_retry = None, fc_durationMs = None\<rparr>) e now fr wk rn runId x d out" for x d out
    by (rule handle_outcome_cong) (rule attemptFailed_max_retries, simp)
  note * = this
  show ?thesis
    unfolding attemptFailed_def numeral_2_eq_2 attemptFailed_fuel.simps(2) [of "Suc n"] attemptFailed_fuel.simps(2) [of "Suc 0"] * ..
qed

text \<open>Operations that do not run out of fuel.\<close>

definition fuel_ok :: "('d, 'q, 'j, 'a) engine_op \<Rightarrow> bool" where
  "fuel_ok m \<longleftrightarrow> (\<forall>st. fst (m st) \<noteq> Inl OutOfFuel)"

lemma fuel_ok_then [intro]: "fuel_ok m \<Longrightarrow> (\<And>x. fuel_ok (f x)) \<Longrightarrow> fuel_ok (then_do m f)"
  unfolding fuel_ok_def then_do_def by (auto split: prod.split sum.split) (metis fst_conv)+

lemma fuel_ok_case_option: "(a = None \<Longrightarrow> fuel_ok m) \<Longrightarrow> (\<And>x. a = Some x \<Longrightarrow> fuel_ok (f x)) \<Longrightarrow> fuel_ok (case a of None \<Rightarrow> m | Some x \<Rightarrow> f x)"
  by (cases a) auto

lemma fuel_ok_basic [intro, simp]: "fuel_ok (return x)" "err \<noteq> OutOfFuel \<Longrightarrow> fuel_ok (throw err)" "fuel_ok (getLatestExecutionSnapshot e r)"
  "fuel_ok (find_run e r)" "fuel_ok (update_run e r f)" "fuel_ok (createExecutionSnapshot e now row)" "fuel_ok (on_queue q)"
  "fuel_ok (completeWaitpoint e now i outp)" "fuel_ok (clearBlockingWaitpoints e r)" "fuel_ok (associatedWaitpoint e r)"
  "fuel_ok (finalizeRun e now r b)" "fuel_ok (nack e now org r t)"
  "fuel_ok (nested_snapshot e row)" "fuel_ok (preventDelayedRunFromBeingEnqueued e r)" "fuel_ok (cancel_children e now run reason)"
  by (auto simp: fuel_ok_def return_def throw_def getLatestExecutionSnapshot_def find_run_def update_run_def createExecutionSnapshot_def
      on_queue_def completeWaitpoint_def clearBlockingWaitpoints_def associatedWaitpoint_def finalizeRun_def nack_def Let_def
      nested_snapshot_def preventDelayedRunFromBeingEnqueued_def cancel_children_def
      split: list.split option.split prod.split sum.split)

lemma fuel_ok_usage [intro, simp]: "fuel_ok (update_usage e r f u)" "fuel_ok (finish_run e now run w outp)"
  by (auto simp: update_usage_def finish_run_def split: option.split)

lemma fuel_ok_state: "(\<And>st. \<exists>m. fuel_ok m \<and> f st = m st) \<Longrightarrow> fuel_ok f"
  unfolding fuel_ok_def by metis

lemma fuel_ok_if: "(c \<Longrightarrow> fuel_ok m) \<Longrightarrow> (\<not> c \<Longrightarrow> fuel_ok m') \<Longrightarrow> fuel_ok (if c then m else m')"
  by simp

lemmas fuel_ok_rules = fuel_ok_if fuel_ok_then fuel_ok_basic fuel_ok_usage fuel_ok_case_option

lemma fuel_ok_cancel [simp]: "fuel_ok (cancelRun e now runId wk rn c r f d)"
  unfolding cancelRun_def cancel_update_def cancel_rest_def Let_def by (intro fuel_ok_rules)

lemma fuel_ok_fail [simp]: "fuel_ok (permanentlyFailRun e now runId x err wk rn d)"
  unfolding permanentlyFailRun_def Let_def by (intro fuel_ok_rules)

lemma fuel_ok_nack:
  assumes "\<And>r s. fuel_ok (fail r s error)"
  shows "fuel_ok (tryNackAndRequeue_with fail e now runId env t error a b c d f)"
  unfolding tryNackAndRequeue_with_def systemFailure_with_def by (intro fuel_ok_rules assms)

lemma fuel_ok_outcome:
  assumes "\<And>r s. fuel_ok (fail r s max_retries_error)"
  shows "fuel_ok (handle_outcome fail e now fr wk rn runId x d out)"
  unfolding handle_outcome_def
  by (cases out) (simp_all, (intro fuel_ok_rules fuel_ok_nack fuel_ok_cancel assms)+)

lemma retry_error: "retryOutcomeFromCompletion e rnd now row an err q s = Inl x \<Longrightarrow> x = RunNotFound"
  by (auto simp: retryOutcomeFromCompletion_def Let_def split: if_splits option.splits retry_json.splits)

lemma fuel_ok_case_sum:
  assumes "\<And>st err. F st = Inl err \<Longrightarrow> err \<noteq> OutOfFuel" and "\<And>st r. F st = Inr r \<Longrightarrow> fuel_ok (m r)"
  shows "fuel_ok (\<lambda>st. case F st of Inl err \<Rightarrow> throw err st | Inr r \<Rightarrow> m r st)"
  using assms unfolding fuel_ok_def by (auto simp: throw_def split: sum.split)

lemma fuel_ok_attempt_step:
  assumes "\<And>row an out x. retryOutcomeFromCompletion e rnd now row an (fc_error c) fr (fc_retry c) = Inr out \<Longrightarrow>
    fuel_ok (handle_outcome (\<lambda>runId snapshotId error. attemptFailed_fuel n e rnd now False None None runId snapshotId
      \<lparr>fc_error = error, fc_retry = None, fc_durationMs = None\<rparr>) e now fr wk rn runId x (fc_durationMs c) out)"
  shows "fuel_ok (attemptFailed_fuel (Suc n) e rnd now fr wk rn runId snapshotId c)"
  unfolding attemptFailed_fuel.simps
  by (intro fuel_ok_if fuel_ok_then fuel_ok_basic fuel_ok_case_sum) (auto dest: retry_error intro: assms)

text \<open>Failing an attempt never runs out of fuel.\<close>

lemma attemptFailed_fuel_ok: "fuel_ok (attemptFailed e rnd now fr wk rn runId snapshotId c)"
  unfolding attemptFailed_def numeral_2_eq_2
proof (rule fuel_ok_attempt_step, rule fuel_ok_outcome, rule fuel_ok_attempt_step)
  fix row an out x runId
  assume "retryOutcomeFromCompletion e rnd now row an (fc_error \<lparr>fc_error = max_retries_error, fc_retry = None, fc_durationMs = None\<rparr>)
    False (fc_retry \<lparr>fc_error = max_retries_error, fc_retry = None, fc_durationMs = None\<rparr>) = Inr out"
  then have "out = FailOutcome (sanitizeError max_retries_error) False" by (simp add: max_retries_outcome)
  then show "fuel_ok (handle_outcome (\<lambda>runId snapshotId error. attemptFailed_fuel 0 e rnd now False None None runId snapshotId
      \<lparr>fc_error = error, fc_retry = None, fc_durationMs = None\<rparr>) e now False None None runId x
      (fc_durationMs \<lparr>fc_error = max_retries_error, fc_retry = None, fc_durationMs = None\<rparr>) out)"
    by (simp add: handle_outcome_fail)
qed

subsection \<open>Bounds\<close>

lemma usage_capped: "fst (calculateUpdatedUsage e u c d m t) = min (u + d) MAX_INT4"
  by (simp add: calculateUpdatedUsage_def Let_def min_def)

lemma oom_retry_allowed:
  assumes "retryOutcomeFromCompletion e rnd now row attemptNumber error q settings
      = Inr (RetryOutcome m s machine True usage cost preset)"
  shows "isOOMRunError error" "m = Retry_queue" "\<exists>run opts mc. row = Some run \<and> tr_retryConfig run = Some (ValidRetry opts mc) \<and> machine = mc
    \<and> machine \<noteq> tr_machinePreset run \<and> with_default attemptNumber 1 < the (maxAttempts (merge_options defaultRetryOptions opts))"
proof -
  have *: "isOOMRunError error \<and> (\<exists>opts run mc d. retryOOMOnMachine row = Some (mc, opts, run) \<and> machine = Some mc \<and> m = Retry_queue
      \<and> calculateNextRetryDelay (e_fl e) (e_pow e) opts (with_default attemptNumber 1) rnd = Some d)"
    using assms by (auto simp: retryOutcomeFromCompletion_def Let_def nonzero_def split: if_splits option.splits retry_json.splits)
  then show "isOOMRunError error" "m = Retry_queue" by auto
  from * obtain opts run mc d where o: "retryOOMOnMachine row = Some (mc, opts, run)" "machine = Some mc"
      "calculateNextRetryDelay (e_fl e) (e_pow e) opts (with_default attemptNumber 1) rnd = Some d" by blast
  from o(3) have "with_default attemptNumber 1 < the (maxAttempts (merge_options defaultRetryOptions opts))"
    by (simp add: calculateNextRetryDelay_def Let_def not_le split: if_splits)
  moreover from o(1) have "row = Some run \<and> tr_retryConfig run = Some (ValidRetry opts (Some mc)) \<and> tr_machinePreset run \<noteq> Some mc"
    by (auto simp: retryOOMOnMachine_def nonempty_def split: option.splits retry_json.splits if_splits)
  ultimately show "\<exists>run opts mc. row = Some run \<and> tr_retryConfig run = Some (ValidRetry opts mc) \<and> machine = mc
    \<and> machine \<noteq> tr_machinePreset run \<and> with_default attemptNumber 1 < the (maxAttempts (merge_options defaultRetryOptions opts))"
    using o(2) by auto
qed

end
