(* ===== verification/Engine_Closing.thy ===== *)
theory Engine_Closing
  imports Engine_Attempts_Laws
begin

text \<open>
  The end of a run. When the engine reports a run as finished, the run is closed: its last snapshot and its row have the
  same final status, the waitpoint that it completes is completed, every run that waits for it has its continue job, its
  batch is going to be looked at, and its heartbeat is gone.
\<close>

definition wakes :: "tables \<Rightarrow> (string \<Rightarrow> job_row option) \<Rightarrow> string \<Rightarrow> bool" where
  "wakes T J i \<longleftrightarrow> (\<forall>b \<in> t_blocks T. bl_waitpointId b = i \<longrightarrow>
     (\<exists>j. J (continue_id (bl_taskRunId b)) = Some j \<and> jr_job j = ContinueRunIfUnblocked (bl_taskRunId b)))"

definition run_ended :: "tables \<Rightarrow> string \<Rightarrow> run_status \<Rightarrow> bool" where
  "run_ended T r status \<longleftrightarrow> isFinalRunStatus status
     \<and> (\<exists>x. latest T r = Some x \<and> sn_executionStatus x = ES_FINISHED \<and> sn_runStatus x = status)
     \<and> (\<exists>run. t_runs T r = Some run \<and> tr_status run = status \<and> tr_completedAt run \<noteq> None)"

text \<open>The job that looks whether a batch is complete has been scheduled.\<close>

definition batch_scheduled :: "(string \<Rightarrow> job_row option) \<Rightarrow> string option \<Rightarrow> bool" where
  "batch_scheduled J batchId \<longleftrightarrow> (\<forall>b. nonempty batchId = Some b \<longrightarrow> (\<exists>j. J (''tryCompleteBatch:'' @ b) = Some j \<and> jr_job j = TryCompleteBatch b))"

definition run_closed :: "tables \<Rightarrow> (string \<Rightarrow> job_row option) \<Rightarrow> string \<Rightarrow> run_status \<Rightarrow> bool" where
  "run_closed T J r status \<longleftrightarrow> run_ended T r status
     \<and> (\<exists>i w. t_waitpoints T i = Some w \<and> wp_completedByTaskRunId w = Some r \<and> wp_completed w \<and> wakes T J i)
     \<and> (\<forall>run. t_runs T r = Some run \<longrightarrow> batch_scheduled J (tr_batchId run))
     \<and> J (heartbeat_id r) = None"

context engine
begin

subsection \<open>Single calls\<close>

lemma update_run_effect:
  assumes "update_run e r f st = (Inr run, g)" and "rows_ok (tb st)" and "\<And>x. tr_id (f x) = tr_id x"
  shows "tb g = (tb st)\<lparr>t_runs := (t_runs (tb st))(r \<mapsto> run)\<rparr>" "es_jobs g = es_jobs st" "rows_ok (tb g)" "tr_id run = r"
    "\<exists>r0. t_runs (tb st) r = Some r0 \<and> run = f r0"
proof -
  obtain r0 where r0: "t_runs (tb st) r = Some r0" "run = f r0" "g = on_db (run_put (e_db e) (f r0)) st"
    using assms(1) by (auto simp: update_run_def run_get split: option.splits)
  have id: "tr_id (f r0) = r" using assms(2,3) r0(1) by (simp add: rows_ok_def)
  then show "tb g = (tb st)\<lparr>t_runs := (t_runs (tb st))(r \<mapsto> run)\<rparr>" "es_jobs g = es_jobs st" "tr_id run = r"
    using r0 by (simp_all add: on_db_def run_put)
  then show "rows_ok (tb g)" using assms(2) by (auto simp: rows_ok_def)
  show "\<exists>r0. t_runs (tb st) r = Some r0 \<and> run = f r0" using r0 by blast
qed

lemma update_usage_effect:
  assumes "update_usage e r f u st = (Inr run, g)" and "rows_ok (tb st)" and "\<And>x. tr_id (f x) = tr_id x"
  shows "tb g = (tb st)\<lparr>t_runs := (t_runs (tb st))(r \<mapsto> run)\<rparr>" "es_jobs g = es_jobs st" "rows_ok (tb g)" "tr_id run = r"
    "\<exists>r0 cost. t_runs (tb st) r = Some r0 \<and> run = (f r0)\<lparr>tr_usageDurationMs := fst u, tr_costInCents := cost\<rparr>"
proof -
  obtain cost where "update_run e r (\<lambda>x. (f x)\<lparr>tr_usageDurationMs := fst u, tr_costInCents := cost\<rparr>) st = (Inr run, g)"
    using assms(1) by (auto simp: update_usage_def throw_def split: option.splits)
  note eff = update_run_effect [OF this assms(2)]
  show "tb g = (tb st)\<lparr>t_runs := (t_runs (tb st))(r \<mapsto> run)\<rparr>" "es_jobs g = es_jobs st" "rows_ok (tb g)" "tr_id run = r"
    "\<exists>r0 cost. t_runs (tb st) r = Some r0 \<and> run = (f r0)\<lparr>tr_usageDurationMs := fst u, tr_costInCents := cost\<rparr>"
    using eff assms(3) by auto
qed

lemma nested_effect:
  assumes "nested_snapshot e row st = (Inr u, g)"
  obtains i where "tb g = (tb st)\<lparr>t_snapshots := row\<lparr>sn_id := i\<rparr> # t_snapshots (tb st)\<rparr>" "es_jobs g = es_jobs st"
  using assms snap_add(1) [where x = row and s = "es_db st"] snap_add(2) [where x = row and s = "es_db st"]
  by (auto simp: nested_snapshot_def)

lemma on_queue_effect: "on_queue f st = (out, g) \<Longrightarrow> es_db g = es_db st \<and> es_jobs g = es_jobs st"
  by (auto simp: on_queue_def split: sum.splits)

lemma associated_effect:
  assumes "associatedWaitpoint e runId st = (Inr w, g)" and "rows_ok (tb st)"
  shows "g = st" "t_waitpoints (tb st) (wp_id w) = Some w" "wp_completedByTaskRunId w = Some runId"
proof -
  obtain ws where ws: "wp_select (e_db e) (\<lambda>w. wp_completedByTaskRunId w = Some runId) (es_db st) = w # ws" "g = st"
    using assms(1) by (auto simp: associatedWaitpoint_def split: list.splits)
  then show "g = st" by simp
  from ws(1) wp_select [of "\<lambda>w. wp_completedByTaskRunId w = Some runId" "es_db st"]
  show "t_waitpoints (tb st) (wp_id w) = Some w" "wp_completedByTaskRunId w = Some runId" using assms(2) by (auto simp: rows_ok_def)
qed

lemma fold_schedule: "grows (set rs) st (fold (schedule_continue e now) rs st) \<and> es_db (fold (schedule_continue e now) rs st) = es_db st"
proof (induction rs arbitrary: st)
  case (Cons r rs)
  from jobs_grow_trans [OF schedule_grows [of r st now]] Cons [of "schedule_continue e now r st"] show ?case by simp
qed simp

lemma complete_waitpoint_effect:
  assumes "completeWaitpoint e now i outp st = (Inr v, g)" and "rows_ok (tb st)"
  shows "tb g = (tb st)\<lparr>t_waitpoints := (t_waitpoints (tb st))(i \<mapsto> v)\<rparr>" "wp_completed v" "rows_ok (tb g)"
    "\<exists>w. t_waitpoints (tb st) i = Some w \<and> wp_completedByTaskRunId v = wp_completedByTaskRunId w" "wakes (tb g) (jobs (es_jobs g)) i"
    "\<exists>A. grows A st g"
proof -
  let ?st = "complete_pending e now i outp st"
  have c: "wp_get (e_db e) i (es_db ?st) = Some v" "wp_completed v" "g = fold (schedule_continue e now) (affectedTaskRuns e i ?st) ?st"
    using assms(1) by (auto simp: completeWaitpoint_def Let_def split: option.splits if_splits)
  note f = fold_schedule [of "affectedTaskRuns e i ?st" ?st now, folded c(3)]
  obtain w where w: "t_waitpoints (tb st) i = Some w"
    using c(1) by (cases "t_waitpoints (tb st) i") (simp_all add: complete_pending_def wp_get)
  have wi: "wp_id w = i" using assms(2) w by (simp add: rows_ok_def)
  have p: "?st = st \<and> v = w \<or> (tb ?st = (tb st)\<lparr>t_waitpoints := (t_waitpoints (tb st))(i \<mapsto> v)\<rparr> \<and> es_jobs ?st = es_jobs st
      \<and> wp_id v = i \<and> wp_completedByTaskRunId v = wp_completedByTaskRunId w)"
    using c(1) w wi by (cases "wp_completed w") (auto simp: complete_pending_def wp_get on_db_def wp_put)
  have v: "tb ?st = (tb st)\<lparr>t_waitpoints := (t_waitpoints (tb st))(i \<mapsto> v)\<rparr>" using p w by (auto simp: fun_upd_idem)
  then show tb: "tb g = (tb st)\<lparr>t_waitpoints := (t_waitpoints (tb st))(i \<mapsto> v)\<rparr>" using f by simp
  show "wp_completed v" by (rule c(2))
  have "wp_id v = i" using p wi by auto
  then show "rows_ok (tb g)" using assms(2) by (auto simp: tb rows_ok_def)
  show "\<exists>w. t_waitpoints (tb st) i = Some w \<and> wp_completedByTaskRunId v = wp_completedByTaskRunId w" using p w by auto
  have jobs: "es_jobs ?st = es_jobs st" using p by auto
  have "bl_taskRunId b \<in> set (affectedTaskRuns e i ?st)" if "b \<in> t_blocks (tb g)" "bl_waitpointId b = i" for b
    using that f by (auto simp: affectedTaskRuns_def tw_select)
  then show "wakes (tb g) (jobs (es_jobs g)) i" using f unfolding wakes_def jobs_grow_def by blast
  show "\<exists>A. grows A st g" using f jobs by auto
qed

lemma enqueue_other_at: "k \<noteq> i \<Longrightarrow> jobs (es_jobs (enqueue_job e now i job t st)) k = jobs (es_jobs st) k"
  using w_enqueue [of "es_jobs st" now i job t] by (auto simp: enqueue_job_def)

lemma finish_effect:
  assumes "finish_run e now run w outp st = (Inr (), g)" and "rows_ok (tb st)"
    and "t_waitpoints (tb st) (wp_id w) = Some w" and "wp_completedByTaskRunId w = Some (tr_id run)"
    and "run_ended (tb st) (tr_id run) status" and "t_runs (tb st) (tr_id run) = Some run"
  shows "run_closed (tb g) (jobs (es_jobs g)) (tr_id run) status"
proof -
  from assms(1) obtain v st1 where c: "completeWaitpoint e now (wp_id w) outp st = (Inr v, st1)"
      and fin: "finalizeRun e now (tr_id run) (tr_batchId run) st1 = (Inr (), g)"
    unfolding finish_run_def by (rule then_do_Inr)
  note eff = complete_waitpoint_effect [OF c assms(2)]
  have tb: "tb g = tb st1"
    using fin by (auto simp: finalizeRun_def ack_job_def scheduleCompleteBatch_def enqueue_job_def Let_def split: option.splits)
  have j: "jobs (es_jobs g) k = (if k = heartbeat_id (tr_id run) then None else jobs (es_jobs st1) k)" if "\<And>b. k \<noteq> ''tryCompleteBatch:'' @ b" for k
    using fin that enqueue_other_at [of k]
    by (auto simp: finalizeRun_def ack_job_def w_ack scheduleCompleteBatch_def Let_def split: option.splits)
  have cont: "jobs (es_jobs g) (continue_id r) = jobs (es_jobs st1) (continue_id r)" for r
    by (subst j) (auto simp: continue_id_def heartbeat_id_def)
  have hb: "jobs (es_jobs g) (heartbeat_id (tr_id run)) = None" by (subst j) (auto simp: heartbeat_id_def)
  have "wakes (tb g) (jobs (es_jobs g)) (wp_id w)" using eff(5) by (simp add: wakes_def tb cont)
  moreover have "wp_completedByTaskRunId v = Some (tr_id run)" using eff(4) assms(3,4) by auto
  moreover have "t_waitpoints (tb g) (wp_id w) = Some v" by (simp add: tb eff(1))
  moreover have "run_ended (tb g) (tr_id run) status" using assms(5) by (simp add: run_ended_def tb eff(1))
  moreover have "batch_scheduled (jobs (es_jobs g)) (tr_batchId run)"
  proof -
    have "jobs (es_jobs g) (''tryCompleteBatch:'' @ b) \<noteq> None \<and> jr_job (the (jobs (es_jobs g) (''tryCompleteBatch:'' @ b))) = TryCompleteBatch b"
      if "nonempty (tr_batchId run) = Some b" for b
      using fin that w_enqueue [of "es_jobs st1" now "''tryCompleteBatch:'' @ b" "TryCompleteBatch b" "now + 200"]
      by (auto simp: finalizeRun_def ack_job_def w_ack scheduleCompleteBatch_def enqueue_job_def heartbeat_id_def)
    then show ?thesis by (auto simp: batch_scheduled_def)
  qed
  moreover have "t_runs (tb g) (tr_id run) = Some run" using assms(6) by (simp add: tb eff(1))
  ultimately show ?thesis using eff(2) hb unfolding run_closed_def by auto
qed

text \<open>A run whose row and last snapshot say so has ended.\<close>

lemma ended:
  assumes "isFinalRunStatus status" and "tb g = T\<lparr>t_snapshots := x # xs\<rparr>" and "sn_isValid x" "sn_runId x = r"
    and "sn_executionStatus x = ES_FINISHED" "sn_runStatus x = status"
    and "t_runs T r = Some run" "tr_status run = status" "tr_completedAt run \<noteq> None"
  shows "run_ended (tb g) r status"
  using assms by (auto simp: run_ended_def latest_def)

lemma final_not_dequeued: "isFinalRunStatus status \<Longrightarrow> status \<noteq> RS_DEQUEUED"
  by (auto simp: status_defs)

subsection \<open>Success, failure, cancellation\<close>

lemma getLatest_Inr: "getLatestExecutionSnapshot e r st = (Inr x, st') \<Longrightarrow> st' = st \<and> latest (tb st) r = Some x"
  by (auto simp: getLatest_latest split: option.splits)

lemma find_run_Inr: "find_run e r st = (Inr x, st') \<Longrightarrow> st' = st \<and> t_runs (tb st) r = Some x"
  by (auto simp: find_run_def run_get split: option.splits)

lemma succeeded_closes:
  assumes "attemptSucceeded e now runId snapshotId outp ty d wk rn st = (Inr (a, y), g)" and ok: "rows_ok (tb st)"
  shows "a = RUN_FINISHED" "run_closed (tb g) (jobs (es_jobs g)) runId RS_COMPLETED_SUCCESSFULLY"
proof -
  define f where "f = (\<lambda>r :: task_run. r\<lparr>tr_status := RS_COMPLETED_SUCCESSFULLY, tr_completedAt := Some now,
    tr_output := (case outp of None \<Rightarrow> tr_output r | Some x \<Rightarrow> Some x)\<rparr>)"
  obtain x :: snapshot and cr :: task_run and run st3 st4 v w st6 st7 z where
    a: "a = RUN_FINISHED" and 1: "update_usage e runId f (calculateUpdatedUsage e (tr_usageDurationMs cr) (tr_costInCents cr) (with_default d 0) (tr_machinePreset cr) (en_type (sn_environment x))) st = (Inr run, st3)"
    and 2: "nested_snapshot e (snapshot_row runId RS_COMPLETED_SUCCESSFULLY (sn_attemptNumber x) ES_FINISHED None None (sn_environment x) None wk rn [] None) st3 = (Inr (), st4)"
    and 3: "on_queue (q_ack (e_queue e) now (run_org run) runId False) st4 = (Inr v, st6)"
    and 4: "associatedWaitpoint e runId st6 = (Inr w, st7)" and 5: "finish_run e now run w z st7 = (Inr (), g)"
    using assms(1) unfolding attemptSucceeded_def f_def [symmetric]
    by (auto elim!: then_do_Inr dest!: getLatest_Inr find_run_Inr split: if_splits simp: throw_def return_def)
  show "a = RUN_FINISHED" by (rule a)
  have u: "tb st3 = (tb st)\<lparr>t_runs := (t_runs (tb st))(runId \<mapsto> run)\<rparr>" "rows_ok (tb st3)" "tr_id run = runId"
      "tr_status run = RS_COMPLETED_SUCCESSFULLY" "tr_completedAt run = Some now"
    using update_usage_effect [OF 1 ok] by (auto simp: f_def)
  from 2 obtain i where n: "tb st4 = (tb st3)\<lparr>t_snapshots := (snapshot_row runId RS_COMPLETED_SUCCESSFULLY (sn_attemptNumber x) ES_FINISHED None None (sn_environment x) None wk rn [] None)\<lparr>sn_id := i\<rparr> # t_snapshots (tb st3)\<rparr>"
    by (rule nested_effect)
  have q: "tb st6 = tb st4" using on_queue_effect [OF 3] by simp
  have ok6: "rows_ok (tb st6)" using u(2) by (simp add: q n)
  note w = associated_effect [OF 4 ok6]
  have "run_ended (tb st6) runId RS_COMPLETED_SUCCESSFULLY"
    by (rule ended [OF _ n [folded q], where run = run]) (use u in \<open>simp_all add: snapshot_row_def status_defs\<close>)
  then show "run_closed (tb g) (jobs (es_jobs g)) runId RS_COMPLETED_SUCCESSFULLY"
    using finish_effect [OF 5, unfolded w(1), OF ok6 w(2)] w(3) u(1,3) by (simp add: q n)
qed

lemma failed_closes:
  assumes "permanentlyFailRun e now runId x err wk rn d st = (Inr (a, y), g)" and ok: "rows_ok (tb st)"
  shows "a = RUN_FINISHED" "run_closed (tb g) (jobs (es_jobs g)) runId (runStatusFromError err (en_type (sn_environment x)))"
proof -
  define status where "status = runStatusFromError err (en_type (sn_environment x))"
  define f where "f = (\<lambda>r :: task_run. r\<lparr>tr_status := status, tr_completedAt := Some now, tr_error := Some (truncateTaskRunError err)\<rparr>)"
  obtain cr :: task_run and run st3 st4 v w st6 st7 z where
    a: "a = RUN_FINISHED" and 1: "update_usage e runId f (calculateUpdatedUsage e (tr_usageDurationMs cr) (tr_costInCents cr) (with_default d 0) (tr_machinePreset cr) (en_type (sn_environment x))) st = (Inr run, st3)"
    and 2: "createExecutionSnapshot e now (snapshot_row runId (tr_status run) (tr_attemptNumber run) ES_FINISHED (Some (sn_id x)) None (tr_environment run) None wk rn [] None) st3 = (Inr y, st4)"
    and 4: "associatedWaitpoint e runId st4 = (Inr w, st6)" and 3: "on_queue (q_ack (e_queue e) now (run_org run) runId True) st6 = (Inr v, st7)"
    and 5: "finish_run e now run w z st7 = (Inr (), g)"
    using assms(1) unfolding permanentlyFailRun_def Let_def status_def [symmetric] f_def [symmetric]
    by (auto elim!: then_do_Inr dest!: find_run_Inr simp: return_def)
  show "a = RUN_FINISHED" by (rule a)
  have fin: "isFinalRunStatus status" by (simp add: status_def runStatusFromError_final)
  have u: "tb st3 = (tb st)\<lparr>t_runs := (t_runs (tb st))(runId \<mapsto> run)\<rparr>" "rows_ok (tb st3)" "tr_id run = runId"
      "tr_status run = status" "tr_completedAt run = Some now"
    using update_usage_effect [OF 1 ok] by (auto simp: f_def)
  from 2 obtain x' i where x': "x' = snapshot_row runId (tr_status run) (tr_attemptNumber run) ES_FINISHED (Some (sn_id x)) None (tr_environment run) None wk rn [] None\<lparr>sn_id := i\<rparr>"
      "tb st4 = (tb st3)\<lparr>t_snapshots := x' # t_snapshots (tb st3)\<rparr>"
    by (rule create_effect)
  have ok4: "rows_ok (tb st4)" using u(2) by (simp add: x'(2))
  note w = associated_effect [OF 4 ok4]
  have q: "tb st7 = tb st4" using on_queue_effect [OF 3] w(1) by simp
  have "run_ended (tb st7) runId status"
    by (rule ended [OF fin x'(2) [folded q], where run = run]) (use u final_not_dequeued [OF fin] in \<open>simp_all add: x'(1) snapshot_row_def\<close>)
  then show "run_closed (tb g) (jobs (es_jobs g)) runId status"
    using finish_effect [OF 5] ok4 w(2,3) u(1,3) by (simp add: q x'(2))
qed

lemma children_effect:
  assumes "cancel_children e now run reason st = (Inr (), g)"
  shows "es_db g = es_db st" "(\<And>c. k \<noteq> cancel_id c) \<Longrightarrow> jobs (es_jobs g) k = jobs (es_jobs st) k"
proof -
  have *: "es_db (fold (\<lambda>c. enqueue_job e now (cancel_id (tr_id c)) (job c) t) cs s) = es_db s
      \<and> ((\<forall>c. k \<noteq> cancel_id c) \<longrightarrow> jobs (es_jobs (fold (\<lambda>c. enqueue_job e now (cancel_id (tr_id c)) (job c) t) cs s)) k = jobs (es_jobs s) k)"
    for cs :: "task_run list" and s :: "('d, 'q, 'j) engine_state" and job t
    by (induction cs arbitrary: s) (simp_all add: enqueue_other_at)
  show "es_db g = es_db st" "(\<And>c. k \<noteq> cancel_id c) \<Longrightarrow> jobs (es_jobs g) k = jobs (es_jobs st) k"
    using assms * by (auto simp: cancel_children_def)
qed

lemma closed_children:
  assumes "cancel_children e now run reason st = (Inr (), g)" and "run_closed (tb st) (jobs (es_jobs st)) r status"
  shows "run_closed (tb g) (jobs (es_jobs g)) r status"
proof -
  have "jobs (es_jobs g) (continue_id b) = jobs (es_jobs st) (continue_id b)" "jobs (es_jobs g) (heartbeat_id r) = jobs (es_jobs st) (heartbeat_id r)"
      "jobs (es_jobs g) (''tryCompleteBatch:'' @ b) = jobs (es_jobs st) (''tryCompleteBatch:'' @ b)" for b
    by (rule children_effect(2) [OF assms(1)], simp add: continue_id_def heartbeat_id_def cancel_id_def)+
  then show ?thesis using assms(2) children_effect(1) [OF assms(1)] by (simp add: run_closed_def wakes_def batch_scheduled_def)
qed

lemma cancel_update_effect:
  assumes "cancel_update e now runId completedAt reason fin d x st = (Inr run, g)" and ok: "rows_ok (tb st)"
  shows "tb g = (tb st)\<lparr>t_runs := (t_runs (tb st))(runId \<mapsto> run)\<rparr>" "rows_ok (tb g)" "tr_id run = runId" "tr_status run = RS_CANCELED"
    "completedAt \<noteq> None \<or> fin \<Longrightarrow> tr_completedAt run \<noteq> None"
proof -
  define f where "f = cancelled_row now completedAt reason fin"
  have f: "tr_id (f r) = tr_id r" "tr_status (f r) = RS_CANCELED" "completedAt \<noteq> None \<or> fin \<Longrightarrow> tr_completedAt (f r) \<noteq> None" for r
    by (auto simp: f_def cancelled_row_def split: option.splits)
  consider "update_run e runId f st = (Inr run, g)" | cr :: task_run and d' where "update_usage e runId f (calculateUpdatedUsage e (tr_usageDurationMs cr) (tr_costInCents cr) d' (tr_machinePreset cr) (en_type (sn_environment x))) st = (Inr run, g)"
    using assms(1) by (auto simp: cancel_update_def f_def [symmetric] elim!: then_do_Inr dest!: find_run_Inr split: option.splits)
  then have "tb g = (tb st)\<lparr>t_runs := (t_runs (tb st))(runId \<mapsto> run)\<rparr> \<and> rows_ok (tb g) \<and> tr_id run = runId \<and> tr_status run = RS_CANCELED
      \<and> (completedAt \<noteq> None \<or> fin \<longrightarrow> tr_completedAt run \<noteq> None)"
  proof cases
    case 1
    then show ?thesis using update_run_effect [OF 1 ok] f by auto
  next
    case 2
    then show ?thesis using update_usage_effect [OF 2 ok] f by auto
  qed
  then show "tb g = (tb st)\<lparr>t_runs := (t_runs (tb st))(runId \<mapsto> run)\<rparr>" "rows_ok (tb g)" "tr_id run = runId" "tr_status run = RS_CANCELED"
    "completedAt \<noteq> None \<or> fin \<Longrightarrow> tr_completedAt run \<noteq> None" by blast+
qed

lemma cancel_rest_effect:
  assumes "cancel_rest e now runId wk rn reason x run st = (Inr (y, b), g)" and ok: "rows_ok (tb st)"
    and run: "t_runs (tb st) runId = Some run" "tr_id run = runId" "tr_status run = RS_CANCELED"
  shows "if isExecuting (sn_executionStatus x) \<or> isPendingExecuting (sn_executionStatus x) then sn_executionStatus y = ES_PENDING_CANCEL
    else tr_completedAt run \<noteq> None \<longrightarrow> run_closed (tb g) (jobs (es_jobs g)) runId RS_CANCELED"
proof -
  define mk where "mk = (\<lambda>status. snapshot_row runId (tr_status run) (tr_attemptNumber run) status (Some (sn_id x)) None (sn_environment x) None wk rn [] None)"
  let ?ex = "isExecuting (sn_executionStatus x) \<or> isPendingExecuting (sn_executionStatus x)"
  obtain st4 st5 v where
    2: "(if isInitialState (sn_executionStatus x) \<and> tr_delayUntil run \<noteq> None then preventDelayedRunFromBeingEnqueued e runId else return ()) st = (Inr (), st4)"
    and 3: "on_queue (q_ack (e_queue e) now (run_org run) runId True) st4 = (Inr v, st5)"
    and 4: "(if ?ex then then_do (createExecutionSnapshot e now (mk ES_PENDING_CANCEL)) (\<lambda>newSnapshot. return (newSnapshot, False))
       else then_do (createExecutionSnapshot e now (mk ES_FINISHED)) (\<lambda>newSnapshot.
           then_do (associatedWaitpoint e runId) (\<lambda>w.
           then_do (finish_run e now run w (Some \<lparr>wo_value = e_errorText e (StringError reason), wo_type = None, wo_isError = True\<rparr>)) (\<lambda>_.
           then_do (cancel_children e now run reason) (\<lambda>_. return (newSnapshot, False)))))) st5 = (Inr (y, b), g)"
    using assms(1) unfolding cancel_rest_def Let_def mk_def by (elim then_do_Inr) simp
  have tb5: "tb st5 = tb st" using 2 on_queue_effect [OF 3]
    by (auto simp: preventDelayedRunFromBeingEnqueued_def ack_job_def return_def split: if_splits)
  show ?thesis
  proof (cases ?ex)
    case True
    then obtain st6 where "createExecutionSnapshot e now (mk ES_PENDING_CANCEL) st5 = (Inr y, st6)"
      using 4 by (auto elim!: then_do_Inr simp: return_def)
    then obtain x' i where "Inr y = (Inr x' :: engine_error + snapshot)" "x' = (mk ES_PENDING_CANCEL)\<lparr>sn_id := i\<rparr>" by (rule create_effect)
    then show ?thesis using True by (simp add: mk_def snapshot_row_def)
  next
    case False
    then obtain st6 st7 st8 w z where c: "createExecutionSnapshot e now (mk ES_FINISHED) st5 = (Inr y, st6)"
        and w: "associatedWaitpoint e runId st6 = (Inr w, st7)" and f: "finish_run e now run w z st7 = (Inr (), st8)"
        and ch: "cancel_children e now run reason st8 = (Inr (), g)"
      using 4 by (auto elim!: then_do_Inr simp: return_def)
    from c obtain x' i where x': "x' = (mk ES_FINISHED)\<lparr>sn_id := i\<rparr>" "tb st6 = (tb st5)\<lparr>t_snapshots := x' # t_snapshots (tb st5)\<rparr>"
      by (rule create_effect)
    have ok6: "rows_ok (tb st6)" using ok by (simp add: x'(2) tb5)
    note w' = associated_effect [OF w ok6]
    have "run_closed (tb g) (jobs (es_jobs g)) runId RS_CANCELED" if "tr_completedAt run \<noteq> None"
    proof (rule closed_children [OF ch])
      have "run_ended (tb st6) runId RS_CANCELED"
        by (rule ended [OF _ x'(2), where run = run]) (use run that in \<open>simp_all add: x'(1) mk_def snapshot_row_def status_defs tb5\<close>)
      then show "run_closed (tb st8) (jobs (es_jobs st8)) runId RS_CANCELED"
        using finish_effect [OF f, unfolded w'(1), OF ok6 w'(2)] w'(3) run(1,2) by (simp add: x'(2) tb5)
    qed
    then show ?thesis using False by simp
  qed
qed

lemma cancelled_closes:
  assumes "cancelRun e now runId wk rn (Some t) reason True d st = (Inr (y, b), g)" and ok: "rows_ok (tb st)"
    and x: "latest (tb st) runId = Some x" "sn_executionStatus x \<noteq> ES_FINISHED" and "sn_executionStatus y \<noteq> ES_PENDING_CANCEL"
  shows "run_closed (tb g) (jobs (es_jobs g)) runId RS_CANCELED"
proof -
  define rs where "rs = with_default reason ''Canceled by user''"
  obtain run st3 where 1: "cancel_update e now runId (Some t) rs True d x st = (Inr run, st3)"
      and 2: "cancel_rest e now runId wk rn rs x run st3 = (Inr (y, b), g)"
    using assms(1) x by (auto simp: cancelRun_def Let_def rs_def getLatest_latest then_do_ok elim: then_do_Inr)
  note u = cancel_update_effect [OF 1 ok]
  from cancel_rest_effect [OF 2 u(2) _ u(3,4)] u(1,5) assms(5) show ?thesis by (auto split: if_splits)
qed

subsection \<open>Failed attempts\<close>

lemma closes_outcome:
  assumes "handle_outcome fail e now fr wk rn runId x d out st = (Inr (RUN_FINISHED, y), g)" and ok: "rows_ok (tb st)"
    and x: "latest (tb st) runId = Some x" "sn_executionStatus x \<noteq> ES_FINISHED"
    and fail: "\<And>h a z g. rows_ok (tb h) \<Longrightarrow> fail runId (sn_id x) max_retries_error h = (Inr (a, z), g) \<Longrightarrow>
      \<exists>status. run_closed (tb g) (jobs (es_jobs g)) runId status"
  shows "\<exists>status. run_closed (tb g) (jobs (es_jobs g)) runId status"
proof (cases out)
  case (CancelOutcome reason)
  then obtain b where "cancelRun e now runId None None (Some now) reason True d st = (Inr (y, b), g)" "sn_executionStatus y \<noteq> ES_PENDING_CANCEL"
    using assms(1) by (auto simp: handle_outcome_def return_def elim!: then_do_Inr split: if_splits)
  then show ?thesis using cancelled_closes [OF _ ok x] by blast
next
  case (FailOutcome err oom)
  then have "permanentlyFailRun e now runId x err wk rn d st = (Inr (RUN_FINISHED, y), g)" using assms(1) by (simp add: handle_outcome_fail)
  from failed_closes(2) [OF this ok] show ?thesis by blast
next
  case (RetryOutcome m s mc oom usage cost preset)
  define f where "f = (\<lambda>r :: task_run. r\<lparr>tr_machinePreset := (case mc of None \<Rightarrow> tr_machinePreset r | Some m \<Rightarrow> Some m)\<rparr>)"
  obtain run st1 where 1: "update_usage e runId f (calculateUpdatedUsage e usage cost (with_default d 0) preset (en_type (sn_environment x))) st = (Inr run, st1)"
      and 2: "tryNackAndRequeue_with fail e now runId (tr_environment run) (Some (rs_timestamp s)) max_retries_error None None None [] None st1 = (Inr (False, y), g)"
    using assms(1) RetryOutcome by (auto simp: handle_outcome_def f_def [symmetric] return_def elim!: then_do_Inr split: if_splits)
  note u = update_usage_effect [OF 1 ok]
  have l1: "latest (tb st1) runId = Some x" "rows_ok (tb st1)" using u x by (simp_all add: f_def)
  obtain st2 a where n: "nack e now (en_organizationId (tr_environment run)) runId (Some (rs_timestamp s)) st1 = (Inr False, st2)"
      and 3: "systemFailure_with fail e runId max_retries_error st2 = (Inr (a, y), g)"
    using 2 by (auto simp: tryNackAndRequeue_with_def return_def elim!: then_do_Inr split: if_splits)
  have tb2: "tb st2 = tb st1" using n by (auto simp: nack_def split: sum.splits prod.splits)
  have "fail runId (sn_id x) max_retries_error st2 = (Inr (a, y), g)"
    using 3 l1 x(2) by (simp add: systemFailure_with_def getLatest_latest tb2 then_do_def)
  from fail [OF _ this] l1(2) show ?thesis by (simp add: tb2)
qed

lemma failed_attempt_step:
  assumes "attemptFailed_fuel (Suc n) e rnd now fr wk rn runId snapshotId c st = (Inr (a, y), g)" and ok: "rows_ok (tb st)"
  obtains x out h row where "latest (tb st) runId = Some x" "latest (tb h) runId = Some x" "sn_executionStatus x \<noteq> ES_FINISHED" "rows_ok (tb h)"
    "retryOutcomeFromCompletion e rnd now row (sn_attemptNumber x) (fc_error c) fr (fc_retry c) = Inr out" "row = t_runs (tb st) runId"
    "handle_outcome (\<lambda>runId snapshotId error. attemptFailed_fuel n e rnd now False None None runId snapshotId
      \<lparr>fc_error = error, fc_retry = None, fc_durationMs = None\<rparr>) e now fr wk rn runId x (fc_durationMs c) out h = (Inr (a, y), g)"
    "tb h = (tb st)\<lparr>t_blocks := {b \<in> t_blocks (tb st). bl_taskRunId b \<noteq> runId}\<rparr>" "es_queue h = es_queue st" "es_jobs h = es_jobs st"
    "sn_id x = snapshotId"
proof -
  obtain x where x: "latest (tb st) runId = Some x" using assms(1) by (cases "latest (tb st) runId") (auto simp: getLatest_latest then_do_def)
  define h where "h = snd (clearBlockingWaitpoints e runId st)"
  have h: "tb h = (tb st)\<lparr>t_blocks := {b \<in> t_blocks (tb st). bl_taskRunId b \<noteq> runId}\<rparr>" "es_queue h = es_queue st" "es_jobs h = es_jobs st"
      "clearBlockingWaitpoints e runId st = (Inr (length (tw_select (e_db e) (\<lambda>b. bl_taskRunId b = runId) (es_db st))), h)"
    by (simp_all add: h_def clearBlockingWaitpoints_def on_db_def tw_delete)
  have g: "sn_id x = snapshotId" "sn_executionStatus x \<noteq> ES_FINISHED"
    using assms(1) x by (auto simp: getLatest_latest then_do_ok throw_def split: if_splits)
  obtain out where o: "retryOutcomeFromCompletion e rnd now (t_runs (tb st) runId) (sn_attemptNumber x) (fc_error c) fr (fc_retry c) = Inr out"
      and 1: "then_do (if fr then then_do (find_run e runId) (\<lambda>_. return ()) else return ()) (\<lambda>_.
        handle_outcome (\<lambda>runId snapshotId error. attemptFailed_fuel n e rnd now False None None runId snapshotId
          \<lparr>fc_error = error, fc_retry = None, fc_durationMs = None\<rparr>) e now fr wk rn runId x (fc_durationMs c) out) h = (Inr (a, y), g)"
    using assms(1) x g h by (auto simp: getLatest_latest then_do_ok run_get throw_def split: sum.splits)
  from 1 have "handle_outcome (\<lambda>runId snapshotId error. attemptFailed_fuel n e rnd now False None None runId snapshotId
          \<lparr>fc_error = error, fc_retry = None, fc_durationMs = None\<rparr>) e now fr wk rn runId x (fc_durationMs c) out h = (Inr (a, y), g)"
    by (auto elim!: then_do_Inr simp: return_def find_run_def split: if_splits option.splits)
  moreover have "rows_ok (tb h)" "latest (tb h) runId = Some x" using ok x by (auto simp: h(1) rows_ok_def)
  ultimately show thesis using that x g o h by blast
qed

lemma failed_attempt_closes:
  assumes "attemptFailed e rnd now fr wk rn runId snapshotId c st = (Inr (RUN_FINISHED, y), g)" and ok: "rows_ok (tb st)"
  shows "\<exists>status. run_closed (tb g) (jobs (es_jobs g)) runId status"
  using assms(1) [unfolded attemptFailed_def numeral_2_eq_2] ok
proof (cases rule: failed_attempt_step)
  case (1 x out h row)
  show ?thesis
  proof (rule closes_outcome [OF 1(7) 1(4) 1(2,3)])
    fix h' a z g'
    assume ok': "rows_ok (tb h')" and f: "attemptFailed_fuel (Suc 0) e rnd now False None None runId (sn_id x)
      \<lparr>fc_error = max_retries_error, fc_retry = None, fc_durationMs = None\<rparr> h' = (Inr (a, z), g')"
    from f ok' show "\<exists>status. run_closed (tb g') (jobs (es_jobs g')) runId status"
    proof (cases rule: failed_attempt_step)
      case (1 x' out' h'' row')
      then show ?thesis using failed_closes [OF _ 1(4)] by (fastforce simp: max_retries_outcome handle_outcome_fail)
    qed
  qed
qed

end

end
