(* ===== verification/Engine_Lifecycle.thy ===== *)
theory Engine_Lifecycle
  imports Engine_Attempts
begin

text \<open>
  The rest of a run's life: checkpoints (\<open>engine/systems/checkpointSystem.ts\<close>), delays (\<open>delayedRunSystem.ts\<close>), the time
  to live (\<open>ttlSystem.ts\<close>), runs that wait for a version (\<open>pendingVersionSystem.ts\<close>), the completion of batches
  (\<open>batchSystem.ts\<close>), and what the engine does with snapshots that got stuck and with the concurrency of finished runs
  (\<open>engine/index.ts\<close>).
\<close>

subsection \<open>Checkpoints\<close>

datatype checkpoint_result = NotLatest | NotCheckpointable | Checkpointed string snapshot

definition release_all :: "('d, 'q, 'j) engine_deps \<Rightarrow> string option \<Rightarrow> string \<Rightarrow> ('d, 'q, 'j, unit) engine_op" where
  "release_all e organizationId runId =
     (case nonempty organizationId of None \<Rightarrow> return () | Some org \<Rightarrow> on_queue (q_release (e_queue e) org runId))"

definition new_checkpoint :: "('d, 'q, 'j) engine_deps \<Rightarrow> ('d, 'q, 'j, string) engine_op" where
  "new_checkpoint e st = (Inr (fst (checkpoint_add (e_db e) (es_db st))), on_db (\<lambda>d. snd (checkpoint_add (e_db e) d)) st)"

definition createCheckpoint ::
    "('d, 'q, 'j) engine_deps \<Rightarrow> time \<Rightarrow> string \<Rightarrow> string \<Rightarrow> string option \<Rightarrow> string option \<Rightarrow> ('d, 'q, 'j, checkpoint_result) engine_op" where
  "createCheckpoint e now runId snapshotId workerId runnerId =
     then_do (getLatestExecutionSnapshot e runId) (\<lambda>snapshot.
       if \<not> (sn_id snapshot = snapshotId
            \<or> sn_previousSnapshotId snapshot = Some snapshotId \<and> sn_executionStatus snapshot = ES_QUEUED_EXECUTING)
       then return NotLatest
       else if \<not> isCheckpointable (sn_executionStatus snapshot) then return NotCheckpointable
       else
         then_do (update_run e runId (\<lambda>r. r\<lparr>tr_status := RS_WAITING_TO_RESUME\<rparr>)) (\<lambda>run.
         then_do (new_checkpoint e) (\<lambda>checkpointId.
         then_do
           (if sn_executionStatus snapshot = ES_QUEUED_EXECUTING
            then enqueueRun e now run (tr_environment run) ES_QUEUED (Some (sn_id snapshot)) (sn_batchId snapshot) (Some checkpointId)
              (enhanced_waitpoints snapshot) None None
            else createExecutionSnapshot e now (snapshot_row runId (tr_status run) (tr_attemptNumber run) ES_SUSPENDED (Some (sn_id snapshot))
              (sn_batchId snapshot) (sn_environment snapshot) (Some checkpointId) workerId runnerId (enhanced_waitpoints snapshot) None)) (\<lambda>newSnapshot.
         then_do (release_all e (tr_organizationId run) runId) (\<lambda>_. return (Checkpointed checkpointId newSnapshot))))))"

definition continueRunExecution ::
    "('d, 'q, 'j) engine_deps \<Rightarrow> time \<Rightarrow> string \<Rightarrow> string \<Rightarrow> string option \<Rightarrow> string option \<Rightarrow> ('d, 'q, 'j, snapshot) engine_op" where
  "continueRunExecution e now runId snapshotId workerId runnerId =
     then_do (getLatestExecutionSnapshot e runId) (\<lambda>snapshot.
       if sn_id snapshot \<noteq> snapshotId then throw SnapshotChanged
       else if \<not> isPendingExecuting (sn_executionStatus snapshot) then throw InvalidState
       else
         then_do (update_run e runId (\<lambda>r. r\<lparr>tr_status := RS_EXECUTING\<rparr>)) (\<lambda>run.
           createExecutionSnapshot e now (snapshot_row runId (tr_status run) (tr_attemptNumber run) ES_EXECUTING (Some (sn_id snapshot))
             (sn_batchId snapshot) (sn_environment snapshot) None workerId runnerId (enhanced_waitpoints snapshot) None)))"

subsection \<open>Delays and the time to live\<close>

definition scheduleExpireRun :: "('d, 'q, 'j) engine_deps \<Rightarrow> time \<Rightarrow> string \<Rightarrow> string \<Rightarrow> ('d, 'q, 'j) engine_state \<Rightarrow> ('d, 'q, 'j) engine_state" where
  "scheduleExpireRun e now runId ttl st =
     (case parseNaturalLanguageDuration (e_fl e) now ttl of
        None \<Rightarrow> st
      | Some expireAt \<Rightarrow> enqueue_job e now (expire_id runId) (ExpireRun runId) expireAt st)"

definition scheduleDelayedRunEnqueuing :: "('d, 'q, 'j) engine_deps \<Rightarrow> time \<Rightarrow> string \<Rightarrow> time \<Rightarrow> ('d, 'q, 'j) engine_state \<Rightarrow> ('d, 'q, 'j) engine_state" where
  "scheduleDelayedRunEnqueuing e now runId delayUntil = enqueue_job e now (delayed_id runId) (EnqueueDelayedRun runId) delayUntil"

definition rescheduleDelayedRun :: "('d, 'q, 'j) engine_deps \<Rightarrow> string \<Rightarrow> time \<Rightarrow> ('d, 'q, 'j, task_run) engine_op" where
  "rescheduleDelayedRun e runId delayUntil =
     then_do (getLatestExecutionSnapshot e runId) (\<lambda>snapshot.
       if sn_executionStatus snapshot \<noteq> ES_DELAYED \<and> sn_executionStatus snapshot \<noteq> ES_RUN_CREATED then throw NotDelayed
       else
         then_do (update_run e runId (\<lambda>r. r\<lparr>tr_delayUntil := Some delayUntil\<rparr>)) (\<lambda>updatedRun.
         then_do (nested_snapshot e (snapshot_row runId RS_DELAYED None ES_DELAYED None None (sn_environment snapshot) None None None [] None)) (\<lambda>_ st.
           (Inr updatedRun, st\<lparr>es_jobs := w_reschedule (e_worker e) (delayed_id runId) delayUntil (es_jobs st)\<rparr>))))"

definition enqueueDelayedRun :: "('d, 'q, 'j) engine_deps \<Rightarrow> time \<Rightarrow> string \<Rightarrow> ('d, 'q, 'j, unit) engine_op" where
  "enqueueDelayedRun e now runId =
     then_do (getLatestExecutionSnapshot e runId) (\<lambda>snapshot.
       if sn_executionStatus snapshot \<noteq> ES_DELAYED \<and> sn_executionStatus snapshot \<noteq> ES_RUN_CREATED then return ()
       else
         then_do (find_run e runId) (\<lambda>run.
         if (case tr_delayUntil run of None \<Rightarrow> False | Some t \<Rightarrow> t > now) then return ()
         else
           then_do (enqueueRun e now run (tr_environment run) ES_QUEUED None (tr_batchId run) None [] None None) (\<lambda>_.
           then_do (update_run e runId (\<lambda>r. r\<lparr>tr_status := RS_PENDING\<rparr>)) (\<lambda>_ st.
             (Inr (), case nonempty (tr_ttl run) of None \<Rightarrow> st | Some ttl \<Rightarrow> scheduleExpireRun e now runId ttl st)))))"

definition expired_error :: "string option \<Rightarrow> task_run_error" where
  "expired_error ttl = StringError (''Run expired because the TTL ('' @ with_default ttl ''null'' @ '') was reached'')"

text \<open>The answer is whether the run was expired.\<close>

definition expireRun :: "('d, 'q, 'j) engine_deps \<Rightarrow> time \<Rightarrow> string \<Rightarrow> ('d, 'q, 'j, bool) engine_op" where
  "expireRun e now runId =
     then_do (getLatestExecutionSnapshot e runId) (\<lambda>snapshot st.
       if isExecuting (sn_executionStatus snapshot) then (Inr False, st)
       else case run_get (e_db e) runId (es_db st) of
              None \<Rightarrow> (Inr False, st)
            | Some run \<Rightarrow>
                if tr_status run \<noteq> RS_PENDING \<or> tr_lockedAt run \<noteq> None then (Inr False, st)
                else
                  then_do (update_run e runId (\<lambda>r. r\<lparr>tr_status := RS_EXPIRED, tr_completedAt := Some now, tr_error := Some (expired_error (tr_ttl run))\<rparr>)) (\<lambda>updatedRun.
                  then_do (nested_snapshot e (snapshot_row runId RS_EXPIRED None ES_FINISHED None None (sn_environment snapshot) None None None [] None)) (\<lambda>_.
                  then_do (on_queue (q_ack (e_queue e) now (run_org updatedRun) runId True)) (\<lambda>_.
                  then_do (associatedWaitpoint e runId) (\<lambda>w.
                  then_do (completeWaitpoint e now (wp_id w)
                      (Some \<lparr>wo_value = e_errorText e (expired_error (tr_ttl run)), wo_type = None, wo_isError = True\<rparr>)) (\<lambda>_.
                    return True))))) st)"

subsection \<open>Runs that wait for a version\<close>

record background_worker =
  bw_id :: string
  bw_environment :: environment
  bw_tasks :: "string list"
  bw_queues :: "string list"

definition scheduleResolvePendingVersionRuns ::
    "('d, 'q, 'j) engine_deps \<Rightarrow> time \<Rightarrow> string \<Rightarrow> string \<Rightarrow> ('d, 'q, 'j) engine_state \<Rightarrow> ('d, 'q, 'j) engine_state" where
  "scheduleResolvePendingVersionRuns e now freshId backgroundWorkerId = enqueue_job e now freshId (QueueRunsPendingVersion backgroundWorkerId) now"

fun enqueue_pending :: "('d, 'q, 'j) engine_deps \<Rightarrow> time \<Rightarrow> environment \<Rightarrow> task_run list \<Rightarrow> ('d, 'q, 'j, unit) engine_op" where
  "enqueue_pending e now env [] = return ()"
| "enqueue_pending e now env (run # runs) =
     then_do (update_run e (tr_id run) (\<lambda>r. r\<lparr>tr_status := RS_PENDING\<rparr>)) (\<lambda>updatedRun.
     then_do (enqueueRun e now updatedRun env ES_QUEUED None None None [] None None) (\<lambda>_. enqueue_pending e now env runs))"

text \<open>The background worker is the row of its table; \<open>freshId\<close> is the id that the queue generates.\<close>

definition enqueueRunsForBackgroundWorker ::
    "('d, 'q, 'j) engine_deps \<Rightarrow> time \<Rightarrow> nat \<Rightarrow> string \<Rightarrow> background_worker option \<Rightarrow> ('d, 'q, 'j, unit) engine_op" where
  "enqueueRunsForBackgroundWorker e now maxCount freshId worker st =
     (case worker of
        None \<Rightarrow> (Inr (), st)
      | Some w \<Rightarrow>
          (let pendingRuns = take (maxCount + 1) (sort_key tr_createdAt (run_select (e_db e) (\<lambda>r. en_id (tr_environment r) = en_id (bw_environment w)
                 \<and> en_projectId (tr_environment r) = en_projectId (bw_environment w) \<and> tr_status r = RS_PENDING_VERSION
                 \<and> List.member (bw_tasks w) (tr_taskIdentifier r) \<and> List.member (bw_queues w) (tr_queue r)) (es_db st)))
           in then_do (enqueue_pending e now (bw_environment w) pendingRuns) (\<lambda>_ st.
                (Inr (), if length pendingRuns > maxCount then scheduleResolvePendingVersionRuns e now freshId (bw_id w) st else st)) st))"

subsection \<open>Batches\<close>

definition processedRunCount :: "batch_row \<Rightarrow> int" where
  "processedRunCount batch =
     (if ba_batchVersion batch = ''runengine:v2'' then with_default (ba_successfulRunCount batch) 0 + with_default (ba_failedRunCount batch) 0
      else ba_processingJobsCount batch)"

definition batch_runs :: "('d, 'q, 'j) engine_deps \<Rightarrow> batch_row \<Rightarrow> 'd \<Rightarrow> task_run list" where
  "batch_runs e batch d = run_select (e_db e) (\<lambda>r. tr_batchId r = Some (ba_id batch) \<and> en_id (tr_environment r) = ba_environmentId batch) d"

definition tryCompleteBatch :: "('d, 'q, 'j) engine_deps \<Rightarrow> time \<Rightarrow> string \<Rightarrow> ('d, 'q, 'j, unit) engine_op" where
  "tryCompleteBatch e now batchId st =
     (case batch_get (e_db e) batchId (es_db st) of
        None \<Rightarrow> (Inr (), st)
      | Some batch \<Rightarrow>
          if ba_completed batch then (Inr (), st)
          else if processedRunCount batch < ba_runCount batch then (Inr (), st)
          else if list_all (\<lambda>r. isFinalRunStatus (tr_status r)) (batch_runs e batch (es_db st))
          then
            (let st = on_db (batch_put (e_db e) (batch\<lparr>ba_completed := True\<rparr>)) st
             in case wp_select (e_db e) (\<lambda>w. wp_completedByBatchId w = Some batchId) (es_db st) of
                  [] \<Rightarrow> (Inr (), st)
                | w # _ \<Rightarrow>
                    then_do (completeWaitpoint e now (wp_id w) (Some \<lparr>wo_value = ''Batch waitpoint completed'', wo_type = None, wo_isError = False\<rparr>))
                      (\<lambda>_. return ()) st)
          else (Inr (), st))"

subsection \<open>Stalled and broken snapshots\<close>

record suspended_retries =
  su_initialDelayMs :: "rat option"
  su_maxDelayMs :: "rat option"
  su_factor :: "rat option"
  su_maxCount :: "int option"

text \<open>The code of the error of a stalled execution; its message, which only explains the timeout, is an argument.\<close>

definition stalled_error :: "bool \<Rightarrow> string \<Rightarrow> snapshot \<Rightarrow> task_run_error" where
  "stalled_error treatProductionExecutionStallsAsOOM message x =
     (let code = (if sn_executionStatus x = ES_EXECUTING then TASK_RUN_STALLED_EXECUTING else TASK_RUN_STALLED_EXECUTING_WITH_WAITPOINTS)
      in if en_type (sn_environment x) = DEVELOPMENT then InternalError code (Some message) None
         else if treatProductionExecutionStallsAsOOM
         then InternalError TASK_PROCESS_OOM_KILLED (Some ''Run was terminated due to running out of memory'') None
         else InternalError code (Some message) None)"

definition restart_delay :: "('d, 'q, 'j) engine_deps \<Rightarrow> suspended_retries \<Rightarrow> int \<Rightarrow> rat" where
  "restart_delay e cfg attempt =
     min (e_fl e (with_default (su_initialDelayMs cfg) 60000 * e_pow e (with_default (su_factor cfg) 2) (attempt - 1)))
       (with_default (su_maxDelayMs cfg) (60000 * 60 * 6))"

text \<open>A waitpoint of a run or of a batch among those that block.\<close>

definition run_or_batch :: "('d, 'q, 'j) engine_deps \<Rightarrow> 'd \<Rightarrow> string \<Rightarrow> bool" where
  "run_or_batch e d w = (case wp_get (e_db e) w d of None \<Rightarrow> False | Some v \<Rightarrow> wp_type v = WP_RUN \<or> wp_type v = WP_BATCH)"

definition handleStalledSnapshot ::
    "('d, 'q, 'j) engine_deps \<Rightarrow> rat \<Rightarrow> time \<Rightarrow> bool \<Rightarrow> string \<Rightarrow> suspended_retries option \<Rightarrow> string \<Rightarrow> string \<Rightarrow> int option \<Rightarrow>
     ('d, 'q, 'j, unit) engine_op" where
  "handleStalledSnapshot e rnd now stallsAsOOM message config runId snapshotId restartAttempt =
     then_do (getLatestExecutionSnapshot e runId) (\<lambda>latestSnapshot.
       if sn_id latestSnapshot \<noteq> snapshotId then return ()
       else case sn_executionStatus latestSnapshot of
         ES_PENDING_EXECUTING \<Rightarrow>
           then_do (find_run e runId) (\<lambda>run.
           then_do (tryNackAndRequeue e rnd now runId (sn_environment latestSnapshot) None
               (InternalError TASK_RUN_DEQUEUED_MAX_RETRIES
                 (Some ''Trying to create an attempt failed multiple times, exceeding how many times we retry.'') None)
               None None (sn_checkpointId latestSnapshot) (enhanced_waitpoints latestSnapshot) (sn_batchId latestSnapshot)) (\<lambda>_. return ()))
       | ES_EXECUTING \<Rightarrow>
           then_do (attemptFailed e rnd now True None None runId (sn_id latestSnapshot)
             \<lparr>fc_error = stalled_error stallsAsOOM message latestSnapshot,
              fc_retry = (if en_type (sn_environment latestSnapshot) \<noteq> DEVELOPMENT then Some \<lparr>rs_timestamp = now + 250, rs_delay = 250\<rparr> else None),
              fc_durationMs = None\<rparr>) (\<lambda>_. return ())
       | ES_EXECUTING_WITH_WAITPOINTS \<Rightarrow>
           then_do (attemptFailed e rnd now True None None runId (sn_id latestSnapshot)
             \<lparr>fc_error = stalled_error stallsAsOOM message latestSnapshot,
              fc_retry = (if en_type (sn_environment latestSnapshot) \<noteq> DEVELOPMENT then Some \<lparr>rs_timestamp = now + 250, rs_delay = 250\<rparr> else None),
              fc_durationMs = None\<rparr>) (\<lambda>_. return ())
       | ES_SUSPENDED \<Rightarrow>
           then_do (continueRunIfUnblocked e now runId) (\<lambda>result st.
           case (result, config) of
             (Blocked ws, Some cfg) \<Rightarrow>
               (let attempt = with_default restartAttempt 0 + 1
                in if ws = [] \<or> \<not> list_ex (run_or_batch e (es_db st)) ws \<or> attempt \<ge> with_default (su_maxCount cfg) 12 then (Inr (), st)
                   else then_do (restartHeartbeatForRun e now runId \<lfloor>restart_delay e cfg attempt\<rfloor> attempt) (\<lambda>_. return ()) st)
           | _ \<Rightarrow> (Inr (), st))
       | ES_PENDING_CANCEL \<Rightarrow> then_do (cancelRun e now (sn_runId latestSnapshot) None None None None True None) (\<lambda>_. return ())
       | _ \<Rightarrow> throw NotImplemented)"

definition handleRepairSnapshot :: "('d, 'q, 'j) engine_deps \<Rightarrow> time \<Rightarrow> string \<Rightarrow> string \<Rightarrow> ('d, 'q, 'j, unit) engine_op" where
  "handleRepairSnapshot e now runId snapshotId =
     then_do (getLatestExecutionSnapshot e runId) (\<lambda>latestSnapshot.
       if sn_id latestSnapshot \<noteq> snapshotId then return ()
       else if sn_executionStatus latestSnapshot = ES_QUEUED
       then then_do (nack e now (en_organizationId (sn_environment latestSnapshot)) runId None) (\<lambda>_. return ())
       else if sn_executionStatus latestSnapshot = ES_FINISHED \<or> sn_executionStatus latestSnapshot = ES_SUSPENDED
       then (\<lambda>st. case run_get (e_db e) runId (es_db st) of
              None \<Rightarrow> (Inr (), st)
            | Some run \<Rightarrow> (Inr (), st\<lparr>es_queue := q_clear (e_queue e) runId (tr_queue run) (queue_env (sn_environment latestSnapshot)) (es_queue st)\<rparr>))
       else return ())"

text \<open>The runs that the sweeper of the run queue may release: those that finished some time ago.\<close>

definition concurrencySweeperCallback :: "('d, 'q, 'j) engine_deps \<Rightarrow> time \<Rightarrow> string list \<Rightarrow> int \<Rightarrow> 'd \<Rightarrow> (string \<times> string) list" where
  "concurrencySweeperCallback e now runIds completedAtOffsetMs d =
     map (\<lambda>r. (tr_id r, the (tr_organizationId r)))
       (filter (\<lambda>r. nonempty (tr_organizationId r) \<noteq> None)
         (run_select (e_db e) (\<lambda>r. List.member runIds (tr_id r)
           \<and> (case tr_completedAt r of None \<Rightarrow> False | Some t \<Rightarrow> t \<le> now - completedAtOffsetMs)
           \<and> tr_organizationId r \<noteq> None \<and> isFinalRunStatus (tr_status r)) d))"

end
