(* ===== verification/Engine_Outcomes.thy ===== *)
theory Engine_Outcomes
  imports Engine_Closing Engine_Lifecycle
begin

text \<open>
  What runs and batches end up as: a run that has ended stays as it is, attempts are bounded, a batch is completed when
  its runs have ended, and what a failed attempt does to a run that is being cancelled.
\<close>

text \<open>All items of a batch have been processed and all its runs have ended.\<close>

definition batch_done :: "tables \<Rightarrow> batch_row \<Rightarrow> bool" where
  "batch_done T batch \<longleftrightarrow> ba_runCount batch \<le> processedRunCount batch
     \<and> (\<forall>i r. t_runs T i = Some r \<longrightarrow> tr_batchId r = Some (ba_id batch) \<longrightarrow> en_id (tr_environment r) = ba_environmentId batch
          \<longrightarrow> isFinalRunStatus (tr_status r))"

context engine
begin

subsection \<open>Runs that have ended\<close>

lemma ended_latest:
  assumes "run_ended (tb st) r status"
  obtains x run where "getLatestExecutionSnapshot e r st = (Inr x, st)" "sn_executionStatus x = ES_FINISHED"
    "t_runs (tb st) r = Some run" "isFinalRunStatus (tr_status run)" "latest (tb st) r = Some x"
  using assms by (auto simp: run_ended_def getLatest_latest)

lemma ended_refuses_attempts:
  assumes "run_ended (tb st) r status"
  shows "\<exists>err. completeRunAttempt e rnd now r s c wk rn st = (Inl err, st) \<and> (err = SnapshotChanged \<or> err = AlreadyFinished)"
    "\<exists>err. startRunAttempt e rnd now r s wk rn st = (Inl err, st) \<and> (err = SnapshotChanged \<or> err = AlreadyFinished)"
    "\<exists>err. continueRunExecution e now r s wk rn st = (Inl err, st) \<and> (err = SnapshotChanged \<or> err = InvalidState)"
proof -
  obtain x run where x: "getLatestExecutionSnapshot e r st = (Inr x, st)" "sn_executionStatus x = ES_FINISHED" "t_runs (tb st) r = Some run"
    using assms by (rule ended_latest)
  show "\<exists>err. completeRunAttempt e rnd now r s c wk rn st = (Inl err, st) \<and> (err = SnapshotChanged \<or> err = AlreadyFinished)"
    using x by (simp add: completeRunAttempt_def attemptSucceeded_def attemptFailed_def numeral_2_eq_2 then_do_ok throw_def split: completion.split)
  show "\<exists>err. startRunAttempt e rnd now r s wk rn st = (Inl err, st) \<and> (err = SnapshotChanged \<or> err = AlreadyFinished)"
    using x by (simp add: startRunAttempt_def then_do_ok throw_def find_run_def run_get then_do_def isFinishedOrPendingFinished_def)
  show "\<exists>err. continueRunExecution e now r s wk rn st = (Inl err, st) \<and> (err = SnapshotChanged \<or> err = InvalidState)"
    using x by (simp add: continueRunExecution_def then_do_ok throw_def isPendingExecuting_def)
qed

lemma ended_keeps:
  assumes "run_ended (tb st) r status"
  shows "snd (cancelRun e now r wk rn completedAt reason fin d st) = st"
    "snd (createCheckpoint e now r s wk rn st) = st"
    "snd (expireRun e now r st) = st"
    "snd (enqueueDelayedRun e now r st) = st"
    "snd (rescheduleDelayedRun e r delayUntil st) = st"
    "snd (continueRunIfUnblocked e now r st) = st"
    "snd (handleStalledSnapshot e rnd now oom message cfg r s restart st) = st"
proof -
  obtain x run where x: "getLatestExecutionSnapshot e r st = (Inr x, st)" "sn_executionStatus x = ES_FINISHED" "t_runs (tb st) r = Some run"
      "isFinalRunStatus (tr_status run)"
    using assms by (rule ended_latest)
  have p: "tr_status run \<noteq> RS_PENDING" using x(4) by (auto simp: isFinalRunStatus_def finalStatuses_def)
  show "snd (cancelRun e now r wk rn completedAt reason fin d st) = st" using x by (simp add: cancelRun_def Let_def then_do_ok return_def)
  show "snd (createCheckpoint e now r s wk rn st) = st" using x by (simp add: createCheckpoint_def then_do_ok return_def isCheckpointable_def)
  show "snd (expireRun e now r st) = st" using x p by (simp add: expireRun_def then_do_ok run_get isExecuting_def)
  show "snd (enqueueDelayedRun e now r st) = st" using x by (simp add: enqueueDelayedRun_def then_do_ok return_def)
  show "snd (rescheduleDelayedRun e r delayUntil st) = st" using x by (simp add: rescheduleDelayedRun_def then_do_ok throw_def)
  show "snd (continueRunIfUnblocked e now r st) = st"
    using x by (simp add: continueRunIfUnblocked_def then_do_ok then_do_def return_def find_run_def run_get Let_def)
  show "snd (handleStalledSnapshot e rnd now oom message cfg r s restart st) = st"
    using x by (simp add: handleStalledSnapshot_def then_do_ok return_def throw_def)
qed

subsection \<open>Attempts\<close>

text \<open>The number of an attempt goes up by one and does not pass the maximum.\<close>

lemma start_counts:
  assumes "startRunAttempt e rnd now r s wk rn st = (Inr (run, y), g)" and "rows_ok (tb st)"
  shows "\<exists>r0. t_runs (tb st) r = Some r0 \<and> tr_attemptNumber run = Some (with_default (tr_attemptNumber r0) 0 + 1)"
    "\<exists>n. tr_attemptNumber run = Some n \<and> n \<le> MAX_TASK_RUN_ATTEMPTS \<and> sn_attemptNumber y = Some n"
    "sn_executionStatus y = ES_EXECUTING" "tr_status run = RS_EXECUTING"
proof -
  obtain x r0 st1 st2 where r0: "t_runs (tb st) r = Some r0" "\<not> with_default (tr_attemptNumber r0) 0 + 1 > MAX_TASK_RUN_ATTEMPTS"
    and u: "update_run e r (\<lambda>r. r\<lparr>tr_status := RS_EXECUTING, tr_attemptNumber := Some (with_default (tr_attemptNumber r0) 0 + 1)\<rparr>) st = (Inr run, st1)"
    and c: "createExecutionSnapshot e now (snapshot_row r (tr_status run) (tr_attemptNumber run) ES_EXECUTING (Some (sn_id x)) (sn_batchId x)
      (sn_environment x) None wk rn (enhanced_waitpoints x) None) st1 = (Inr y, st2)"
    using assms(1) by (auto simp: startRunAttempt_def throw_def Let_def elim!: then_do_Inr dest!: getLatest_Inr find_run_Inr split: if_splits)
  from update_run_effect(5) [OF u assms(2)] obtain r1 where "t_runs (tb st) r = Some r1"
      "run = r1\<lparr>tr_status := RS_EXECUTING, tr_attemptNumber := Some (with_default (tr_attemptNumber r0) 0 + 1)\<rparr>" by auto
  then have run: "run = r0\<lparr>tr_status := RS_EXECUTING, tr_attemptNumber := Some (with_default (tr_attemptNumber r0) 0 + 1)\<rparr>" using r0 by simp
  from c obtain y' i where "Inr y = (Inr y' :: engine_error + snapshot)" "y' = (snapshot_row r (tr_status run) (tr_attemptNumber run) ES_EXECUTING (Some (sn_id x)) (sn_batchId x)
      (sn_environment x) None wk rn (enhanced_waitpoints x) None)\<lparr>sn_id := i\<rparr>" by (rule createExecutionSnapshot_effect)
  then show "\<exists>n. tr_attemptNumber run = Some n \<and> n \<le> MAX_TASK_RUN_ATTEMPTS \<and> sn_attemptNumber y = Some n"
    "sn_executionStatus y = ES_EXECUTING" using r0(2) by (simp_all add: snapshot_row_def run)
  show "\<exists>r0. t_runs (tb st) r = Some r0 \<and> tr_attemptNumber run = Some (with_default (tr_attemptNumber r0) 0 + 1)" "tr_status run = RS_EXECUTING"
    using r0 by (simp_all add: run)
qed

lemma handle_retry:
  assumes "handle_outcome fail e now fr wk rn r x d out st = (Inr (a, y), g)" and "a = RETRY_QUEUED \<or> a = RETRY_IMMEDIATELY"
  obtains m s mc oom usage cost preset where "out = RetryOutcome m s mc oom usage cost preset"
  using assms by (cases out) (auto simp: handle_outcome_def permanentlyFailRun_def return_def Let_def elim!: then_do_Inr split: if_splits)

lemma retried_bounded:
  assumes "attemptFailed e rnd now fr wk rn r s f st = (Inr (a, y), g)" and "rows_ok (tb st)" and "a = RETRY_QUEUED \<or> a = RETRY_IMMEDIATELY"
  shows "\<exists>x run. latest (tb st) r = Some x \<and> sn_id x = s \<and> t_runs (tb st) r = Some run \<and>
    ((\<exists>maxA. tr_maxAttempts run = Some maxA \<and> shouldRetryError (taskRunErrorEnhancer (fc_error f))
        \<and> (\<forall>n. sn_attemptNumber x = Some n \<longrightarrow> n < maxA \<and> n \<le> MAX_TASK_RUN_ATTEMPTS))
      \<or> (isOOMRunError (fc_error f) \<and> (\<exists>opts mc. tr_retryConfig run = Some (ValidRetry opts mc) \<and> mc \<noteq> tr_machinePreset run
        \<and> with_default (sn_attemptNumber x) 1 < the (maxAttempts (merge_options defaultRetryOptions opts)))))"
  using assms(1) [unfolded attemptFailed_def numeral_2_eq_2] assms(2)
proof (cases rule: failed_attempt_step)
  case (1 x out h row)
  from 1(7) assms(3) obtain m t mc oom usage cost preset where out: "out = RetryOutcome m t mc oom usage cost preset"
    by (rule handle_retry)
  note o = 1(5) [unfolded out 1(6)]
  show ?thesis
  proof (cases oom)
    case True
    then have oom: "oom = True" by simp
    from oom_retry_allowed [OF o [unfolded oom]] show ?thesis using 1(1,11) by auto
  next
    case False
    then have oom: "oom = False" by simp
    from retry_allowed [OF o [unfolded oom]] show ?thesis using 1(1,11) by auto
  qed
qed

subsection \<open>Runs that are being cancelled\<close>

text \<open>A worker that reports a failure with a short delay makes the run execute again, also one that is being cancelled.\<close>

lemma short_delay_retried:
  assumes "rows_ok (tb st)" and "latest (tb st) r = Some x" and "sn_executionStatus x \<noteq> ES_FINISHED"
    and "t_runs (tb st) r = Some run" and "tr_maxAttempts run = Some maxA" and "maxA \<noteq> 0" and "sn_attemptNumber x = Some n" and "n < maxA"
    and "n \<le> MAX_TASK_RUN_ATTEMPTS" and "cancelled_message error = None" and "\<not> isOOMRunError error"
    and "shouldRetryError (taskRunErrorEnhancer error)" and "\<forall>t. e_retryWarmStartThresholdMs e = Some t \<longrightarrow> delay < t"
    and "en_type (sn_environment x) = DEVELOPMENT \<or> centsPerMs e (tr_machinePreset run) \<noteq> None"
  shows "\<exists>y g run'. completeRunAttempt e rnd now r (sn_id x) (Failed \<lparr>fc_error = error, fc_retry = Some \<lparr>rs_timestamp = retryAt, rs_delay = delay\<rparr>, fc_durationMs = d\<rparr>)
      wk rn st = (Inr (RETRY_IMMEDIATELY, y), g)
    \<and> latest (tb g) r = Some y \<and> sn_executionStatus y = ES_EXECUTING \<and> t_runs (tb g) r = Some run' \<and> tr_status run' = tr_status run
    \<and> tr_lockedById run' = tr_lockedById run \<and> tr_attemptNumber run' = tr_attemptNumber run \<and> rows_ok (tb g)"
proof -
  define h where "h = snd (clearBlockingWaitpoints e r st)"
  have h: "tb h = (tb st)\<lparr>t_blocks := {b \<in> t_blocks (tb st). bl_taskRunId b \<noteq> r}\<rparr>"
      "clearBlockingWaitpoints e r st = (Inr (length (tw_select (e_db e) (\<lambda>b. bl_taskRunId b = r) (es_db st))), h)"
    by (simp_all add: h_def clearBlockingWaitpoints_def on_db_def tw_delete)
  let ?s = "\<lparr>rs_timestamp = retryAt, rs_delay = delay\<rparr>" and ?out = "RetryOutcome Retry_immediate \<lparr>rs_timestamp = retryAt, rs_delay = delay\<rparr> None False
    (tr_usageDurationMs run) (tr_costInCents run) (tr_machinePreset run)"
  have o: "retryOutcomeFromCompletion e rnd now (Some run) (Some n) error False (Some ?s) = Inr ?out"
    using assms(5-12) by (simp add: retryOutcomeFromCompletion_def Let_def nonzero_def)
  have "snd (calculateUpdatedUsage e (tr_usageDurationMs run) (tr_costInCents run) (with_default d 0) (tr_machinePreset run) (en_type (sn_environment x))) \<noteq> None"
    using assms(14) by (auto simp: calculateUpdatedUsage_def Let_def)
  then obtain u where u: "snd (calculateUpdatedUsage e (tr_usageDurationMs run) (tr_costInCents run) (with_default d 0) (tr_machinePreset run) (en_type (sn_environment x))) = Some u"
    by blast
  have warm: "(case e_retryWarmStartThresholdMs e of None \<Rightarrow> False | Some t \<Rightarrow> t \<le> rs_delay ?s) = False" using assms(13) by (auto split: option.split)
  define run' where "run' = run\<lparr>tr_usageDurationMs := fst (calculateUpdatedUsage e (tr_usageDurationMs run) (tr_costInCents run) (with_default d 0)
    (tr_machinePreset run) (en_type (sn_environment x))), tr_costInCents := u\<rparr>"
  have id: "tr_id run' = r" using assms(1,4) by (simp add: run'_def rows_ok_def)
  have upd: "update_usage e r (\<lambda>r. r\<lparr>tr_machinePreset := tr_machinePreset r\<rparr>) (calculateUpdatedUsage e (tr_usageDurationMs run) (tr_costInCents run) (with_default d 0)
      (tr_machinePreset run) (en_type (sn_environment x))) h = (Inr run', on_db (run_put (e_db e) run') h)"
    using assms(4) by (simp add: update_usage_def u update_run_def run_get h(1) run'_def)
  let ?row = "snapshot_row r (tr_status run') (tr_attemptNumber run') ES_EXECUTING (Some (sn_id x)) None (sn_environment x) None wk rn [] None"
  obtain y g where c: "createExecutionSnapshot e now ?row (on_db (run_put (e_db e) run') h) = (Inr y, g)"
    by (metis createExecutionSnapshot_effect prod.collapse)
  from c obtain y' i where y: "Inr y = (Inr y' :: engine_error + snapshot)" "y' = ?row\<lparr>sn_id := i\<rparr>"
      "tb g = (tb (on_db (run_put (e_db e) run') h))\<lparr>t_snapshots := y' # t_snapshots (tb (on_db (run_put (e_db e) run') h))\<rparr>"
    by (rule createExecutionSnapshot_effect)
  have "completeRunAttempt e rnd now r (sn_id x) (Failed \<lparr>fc_error = error, fc_retry = Some ?s, fc_durationMs = d\<rparr>) wk rn st = (Inr (RETRY_IMMEDIATELY, y), g)"
    using assms(2,3,4,7) h o upd c warm
    by (simp add: completeRunAttempt_def attemptFailed_def numeral_2_eq_2 getLatest_latest then_do_ok run_get handle_outcome_def return_def)
  moreover have "latest (tb g) r = Some y" "sn_executionStatus y = ES_EXECUTING" "t_runs (tb g) r = Some run'"
    using y id by (simp_all add: latest_def snapshot_row_def on_db_def run_put)
  moreover have "tr_status run' = tr_status run" "tr_lockedById run' = tr_lockedById run" "tr_attemptNumber run' = tr_attemptNumber run"
    by (simp_all add: run'_def)
  moreover have "rows_ok (tb g)" using assms(1) id by (auto simp: y(3) on_db_def run_put h(1) rows_ok_def)
  ultimately show ?thesis by blast
qed

lemma attempt_starts:
  assumes "rows_ok (tb st)" and "latest (tb st) r = Some x" and "\<not> isFinishedOrPendingFinished (sn_executionStatus x)"
    and "t_runs (tb st) r = Some run" and "nonempty (tr_lockedById run) \<noteq> None" and "with_default (tr_attemptNumber run) 0 < MAX_TASK_RUN_ATTEMPTS"
  shows "\<exists>run' y g. startRunAttempt e rnd now r (sn_id x) wk rn st = (Inr (run', y), g) \<and> t_runs (tb g) r = Some run' \<and> tr_status run' = RS_EXECUTING
    \<and> tr_attemptNumber run' = Some (with_default (tr_attemptNumber run) 0 + 1)"
proof -
  define run' where "run' = run\<lparr>tr_status := RS_EXECUTING, tr_attemptNumber := Some (with_default (tr_attemptNumber run) 0 + 1)\<rparr>"
  have id: "tr_id run' = r" using assms(1,4) by (simp add: run'_def rows_ok_def)
  have u: "update_run e r (\<lambda>r. r\<lparr>tr_status := RS_EXECUTING, tr_attemptNumber := Some (with_default (tr_attemptNumber run) 0 + 1)\<rparr>) st
      = (Inr run', on_db (run_put (e_db e) run') st)"
    using assms(4) by (simp add: update_run_def run_get run'_def)
  let ?row = "snapshot_row r (tr_status run') (tr_attemptNumber run') ES_EXECUTING (Some (sn_id x)) (sn_batchId x) (sn_environment x) None wk rn
    (enhanced_waitpoints x) None"
  obtain y g where c: "createExecutionSnapshot e now ?row (on_db (run_put (e_db e) run') st) = (Inr y, g)"
    by (metis createExecutionSnapshot_effect prod.collapse)
  from c obtain y' where y: "tb g = (tb (on_db (run_put (e_db e) run') st))\<lparr>t_snapshots := y' # t_snapshots (tb (on_db (run_put (e_db e) run') st))\<rparr>"
    by (rule createExecutionSnapshot_effect)
  have "\<exists>g'. es_db g' = es_db g \<and> startRunAttempt e rnd now r (sn_id x) wk rn st = (Inr (run', y), g')"
    using assms(2-6) u c by (auto simp: startRunAttempt_def getLatest_latest then_do_ok find_run_def run_get then_do_def Let_def ack_job_def)
  then show ?thesis using id by (auto simp: y on_db_def run_put run'_def)
qed

subsection \<open>Batches\<close>

lemma complete_waitpoint_total:
  assumes "t_waitpoints (tb st) i = Some w" and "rows_ok (tb st)"
  obtains v g where "completeWaitpoint e now i outp st = (Inr v, g)" "wp_completedByBatchId v = wp_completedByBatchId w"
proof -
  have "wp_id w = i" using assms by (simp add: rows_ok_def)
  then have "\<exists>v g. completeWaitpoint e now i outp st = (Inr v, g) \<and> wp_completedByBatchId v = wp_completedByBatchId w"
    using assms(1) by (simp add: completeWaitpoint_def complete_pending_def wp_get wp_put on_db_def Let_def)
  then show thesis using that by blast
qed

lemma batch_completes:
  assumes "tryCompleteBatch e now b st = (out, g)" and ok: "rows_ok (tb st)" and "t_batches (tb st) b = Some batch" and id: "ba_id batch = b"
    and nc: "\<not> ba_completed batch"
  shows "batch_done (tb st) batch \<Longrightarrow> out = Inr () \<and> t_batches (tb g) b = Some (batch\<lparr>ba_completed := True\<rparr>)
      \<and> t_blocks (tb g) = t_blocks (tb st)
      \<and> ((\<exists>i w. t_waitpoints (tb st) i = Some w \<and> wp_completedByBatchId w = Some b) \<longrightarrow>
        (\<exists>i w. t_waitpoints (tb g) i = Some w \<and> wp_completedByBatchId w = Some b \<and> wp_completed w \<and> wakes (tb g) (jobs (es_jobs g)) i))"
    and "\<not> batch_done (tb st) batch \<Longrightarrow> g = st"
proof -
  have final: "list_all (\<lambda>r. isFinalRunStatus (tr_status r)) (batch_runs e batch (es_db st)) \<and> \<not> processedRunCount batch < ba_runCount batch
      \<longleftrightarrow> batch_done (tb st) batch"
    by (auto simp: batch_done_def list_all_iff batch_runs_def run_select not_less)
  show "g = st" if "\<not> batch_done (tb st) batch"
    using assms(1,3) nc that [folded final] by (auto simp: tryCompleteBatch_def batch_get split: if_splits)
  assume d: "batch_done (tb st) batch"
  define h where "h = on_db (batch_put (e_db e) (batch\<lparr>ba_completed := True\<rparr>)) st"
  have h: "tb h = (tb st)\<lparr>t_batches := (t_batches (tb st))(b \<mapsto> batch\<lparr>ba_completed := True\<rparr>)\<rparr>" "es_jobs h = es_jobs st"
    using id by (simp_all add: h_def on_db_def batch_put)
  have hok: "rows_ok (tb h)" using ok by (simp add: h(1) rows_ok_def)
  note step = assms(1) [unfolded tryCompleteBatch_def batch_get assms(3) option.case, folded h_def]
  show "out = Inr () \<and> t_batches (tb g) b = Some (batch\<lparr>ba_completed := True\<rparr>) \<and> t_blocks (tb g) = t_blocks (tb st)
      \<and> ((\<exists>i w. t_waitpoints (tb st) i = Some w \<and> wp_completedByBatchId w = Some b) \<longrightarrow>
        (\<exists>i w. t_waitpoints (tb g) i = Some w \<and> wp_completedByBatchId w = Some b \<and> wp_completed w \<and> wakes (tb g) (jobs (es_jobs g)) i))"
  proof (cases "wp_select (e_db e) (\<lambda>w. wp_completedByBatchId w = Some b) (es_db h)")
    case Nil
    then have "\<not> (\<exists>i w. t_waitpoints (tb st) i = Some w \<and> wp_completedByBatchId w = Some b)"
      using wp_select [of "\<lambda>w. wp_completedByBatchId w = Some b" "es_db h"] by (auto simp: h(1))
    moreover have "out = Inr ()" "g = h" using step nc d [folded final] Nil by (auto simp: Let_def)
    ultimately show ?thesis by (auto simp: h(1))
  next
    case (Cons w ws)
    have w: "t_waitpoints (tb h) (wp_id w) = Some w" "wp_completedByBatchId w = Some b"
      using wp_select [of "\<lambda>w. wp_completedByBatchId w = Some b" "es_db h"] Cons hok by (auto simp: rows_ok_def)
    then obtain v k where v: "completeWaitpoint e now (wp_id w) (Some \<lparr>wo_value = ''Batch waitpoint completed'', wo_type = None, wo_isError = False\<rparr>) h = (Inr v, k)"
        "wp_completedByBatchId v = Some b"
      using complete_waitpoint_total hok by metis
    have "out = Inr ()" "g = k" using step nc d [folded final] Cons v(1) by (auto simp: Let_def then_do_ok return_def)
    then show ?thesis using complete_waitpoint_effect [OF v(1) hok] v(2) by (auto simp: h(1))
  qed
qed

text \<open>A run that expires wakes the runs that wait for it, but nothing looks whether its batch is complete.\<close>

lemma expired_run:
  assumes "expireRun e now r st = (Inr True, g)" and ok: "rows_ok (tb st)"
  shows "run_ended (tb g) r RS_EXPIRED"
    "\<exists>i w. t_waitpoints (tb g) i = Some w \<and> wp_completedByTaskRunId w = Some r \<and> wp_completed w \<and> wakes (tb g) (jobs (es_jobs g)) i"
    "t_batches (tb g) = t_batches (tb st)" "jobs (es_jobs g) (''tryCompleteBatch:'' @ b) = jobs (es_jobs st) (''tryCompleteBatch:'' @ b)"
proof -
  obtain x :: snapshot and t run st3 st4 v w st6 st7 z k where
    1: "update_run e r (\<lambda>r. r\<lparr>tr_status := RS_EXPIRED, tr_completedAt := Some now, tr_error := Some (expired_error t)\<rparr>) st = (Inr run, st3)"
    and 2: "nested_snapshot e (snapshot_row r RS_EXPIRED None ES_FINISHED None None (sn_environment x) None None None [] None) st3 = (Inr (), st4)"
    and 3: "on_queue (q_ack (e_queue e) now (run_org run) r True) st4 = (Inr v, st6)"
    and 4: "associatedWaitpoint e r st6 = (Inr w, st7)" and 5: "completeWaitpoint e now (wp_id w) z st7 = (Inr k, g)"
    using assms(1) unfolding expireRun_def
    by (auto elim!: then_do_Inr dest!: getLatest_Inr split: if_splits option.splits simp: throw_def return_def)
  have u: "tb st3 = (tb st)\<lparr>t_runs := (t_runs (tb st))(r \<mapsto> run)\<rparr>" "rows_ok (tb st3)" "tr_id run = r" "es_jobs st3 = es_jobs st"
      "tr_status run = RS_EXPIRED" "tr_completedAt run = Some now"
    using update_run_effect [OF 1 ok] by auto
  from 2 obtain i where n: "tb st4 = (tb st3)\<lparr>t_snapshots := (snapshot_row r RS_EXPIRED None ES_FINISHED None None (sn_environment x) None None None [] None)\<lparr>sn_id := i\<rparr> # t_snapshots (tb st3)\<rparr>"
      "es_jobs st4 = es_jobs st3"
    by (rule nested_effect)
  have q: "tb st6 = tb st4" "es_jobs st6 = es_jobs st4" using on_queue_effect [OF 3] by simp_all
  have ok6: "rows_ok (tb st6)" using u(2) by (simp add: q n)
  note w = associated_effect [OF 4 ok6]
  note c = complete_waitpoint_effect [OF 5 [unfolded w(1)] ok6]
  have "run_ended (tb st6) r RS_EXPIRED"
    by (rule ended [OF _ n(1) [folded q(1)], where run = run]) (use u in \<open>simp_all add: snapshot_row_def status_defs\<close>)
  then show "run_ended (tb g) r RS_EXPIRED" by (simp add: run_ended_def c(1))
  show "t_batches (tb g) = t_batches (tb st)" by (simp add: c(1) q n u)
  show "\<exists>i w. t_waitpoints (tb g) i = Some w \<and> wp_completedByTaskRunId w = Some r \<and> wp_completed w \<and> wakes (tb g) (jobs (es_jobs g)) i"
    using c w(2,3) by auto
  define i where "i = ''tryCompleteBatch:'' @ b"
  have i: "i \<noteq> continue_id r'" for r' by (simp add: i_def continue_id_def)
  have fold: "jobs (es_jobs (fold (schedule_continue e now) rs s)) i = jobs (es_jobs s) i" for rs s
    by (induction rs arbitrary: s) (simp_all add: schedule_continue_def enqueue_other_at [OF i])
  have "jobs (es_jobs g) i = jobs (es_jobs (complete_pending e now (wp_id w) z st6)) i"
    using 5 w(1) by (auto simp: completeWaitpoint_def Let_def fold split: option.splits if_splits)
  also have "es_jobs (complete_pending e now (wp_id w) z st6) = es_jobs st6" by (simp add: complete_pending_def on_db_def split: option.split)
  finally show "jobs (es_jobs g) (''tryCompleteBatch:'' @ b) = jobs (es_jobs st) (''tryCompleteBatch:'' @ b)" unfolding i_def [symmetric] by (simp add: q n u)
qed

end

end
