(* ===== verification/Engine_Instance.thy ===== *)
theory Engine_Instance
  imports Engine_Snapshots Redis_Worker_Properties Run_Queue_Properties
begin

text \<open>
  The run engine on the modelled queues: its jobs in the job queue of \<open>Redis_Worker\<close> with the engine's catalog
  (\<open>engine/workerCatalog.ts\<close>), its runs in the run queue of \<open>Run_Queue\<close>, its rows in the reference database. The
  interpretations show that these satisfy what the engine relies on.
\<close>

subsection \<open>The catalog\<close>

definition engine_catalog :: "string \<Rightarrow> catalog_item option" where
  "engine_catalog job = map_option (\<lambda>t. \<lparr>c_visibilityTimeoutMs = t, c_retry = None, c_cron = None, c_jitterInMs = None\<rparr>)
     (map_of [(''finishWaitpoint'', 30000), (''heartbeatSnapshot'', 30000), (''repairSnapshot'', 30000), (''expireRun'', 30000),
       (''cancelRun'', 30000), (''queueRunsPendingVersion'', 60000), (''tryCompleteBatch'', 30000),
       (''continueRunIfUnblocked'', 30000), (''enqueueDelayedRun'', 30000)] job)"

text \<open>A job's name in the catalog, and an executable serialisation of its payload.\<close>

definition parse_exec_status :: "string \<Rightarrow> exec_status option" where
  "parse_exec_status s = find (\<lambda>x. exec_status_string x = s) [ES_RUN_CREATED, ES_DELAYED, ES_QUEUED, ES_QUEUED_EXECUTING,
     ES_PENDING_EXECUTING, ES_EXECUTING, ES_EXECUTING_WITH_WAITPOINTS, ES_SUSPENDED, ES_PENDING_CANCEL, ES_FINISHED]"

lemma parse_exec_status_string [simp]: "parse_exec_status (exec_status_string x) = Some x"
  by (cases x) (simp_all add: parse_exec_status_def exec_status_string_def)

definition option_int :: "int option \<Rightarrow> string" where
  "option_int v = option_string (map_option int_to_string v)"

definition int_option :: "string \<Rightarrow> int option" where
  "int_option s = map_option (the \<circ> int_of_string) (string_option s)"

lemma int_option_int [simp]: "int_option (option_int v) = v"
  by (cases v) (simp_all add: int_option_def option_int_def)

definition put_engine_job :: "engine_job \<Rightarrow> string \<times> string list" where
  "put_engine_job job =
     (case job of
        FinishWaitpoint w err \<Rightarrow> (''finishWaitpoint'', [w, option_string err])
      | HeartbeatSnapshot r s n \<Rightarrow> (''heartbeatSnapshot'', [r, s, option_int n])
      | RepairSnapshot r s status \<Rightarrow> (''repairSnapshot'', [r, s, exec_status_string status])
      | ExpireRun r \<Rightarrow> (''expireRun'', [r])
      | CancelRun r t reason \<Rightarrow> (''cancelRun'', [r, option_int t, option_string reason])
      | QueueRunsPendingVersion w \<Rightarrow> (''queueRunsPendingVersion'', [w])
      | TryCompleteBatch b \<Rightarrow> (''tryCompleteBatch'', [b])
      | ContinueRunIfUnblocked r \<Rightarrow> (''continueRunIfUnblocked'', [r])
      | EnqueueDelayedRun r \<Rightarrow> (''enqueueDelayedRun'', [r]))"

definition get_engine_job :: "string \<Rightarrow> string list \<Rightarrow> engine_job option" where
  "get_engine_job name fs =
     (case fs of
        [a] \<Rightarrow> (if name = ''expireRun'' then Some (ExpireRun a) else if name = ''queueRunsPendingVersion'' then Some (QueueRunsPendingVersion a)
                else if name = ''tryCompleteBatch'' then Some (TryCompleteBatch a)
                else if name = ''continueRunIfUnblocked'' then Some (ContinueRunIfUnblocked a)
                else if name = ''enqueueDelayedRun'' then Some (EnqueueDelayedRun a) else None)
      | [a, b] \<Rightarrow> (if name = ''finishWaitpoint'' then Some (FinishWaitpoint a (string_option b)) else None)
      | [a, b, c] \<Rightarrow> (if name = ''heartbeatSnapshot'' then Some (HeartbeatSnapshot a b (int_option c))
                else if name = ''repairSnapshot'' then map_option (RepairSnapshot a b) (parse_exec_status c)
                else if name = ''cancelRun'' then Some (CancelRun a (int_option b) (string_option c)) else None)
      | _ \<Rightarrow> None)"

lemma get_put_engine_job [simp]: "get_engine_job (fst (put_engine_job job)) (snd (put_engine_job job)) = Some job"
  by (cases job) (simp_all add: put_engine_job_def get_engine_job_def)

lemma job_in_catalog: "\<exists>t. t \<noteq> 0 \<and> map_option c_visibilityTimeoutMs (engine_catalog (fst (put_engine_job job))) = Some t"
  by (cases job) (simp_all add: put_engine_job_def engine_catalog_def)

subsection \<open>The worker\<close>

text \<open>The operations of the worker that the engine calls. The state has the number of generated keys beside the
  keyspace: it stands for \<open>nanoid\<close>.\<close>

definition nano_key :: "nat \<Rightarrow> string" where
  "nano_key n = int_to_string (int n)"

definition job_payload :: "engine_job \<Rightarrow> string" where
  "job_payload job = put_fields (snd (put_engine_job job))"

definition redis_worker_ops :: "'s worker_deps \<Rightarrow> ('s \<times> nat) worker_ops" where
  "redis_worker_ops W =
     \<lparr>w_enqueue = (\<lambda>now i job t (s, n). (snd (worker_enqueue W now (nano_key n) [] (Some i) (fst (put_engine_job job)) (job_payload job)
        None (Some t) None s), Suc n)),
      w_ack = (\<lambda>i k (s, n). (sq_ack (w_queue W) i k s, n)),
      w_reschedule = (\<lambda>i t (s, n). (sq_reschedule (w_queue W) i t s, n)),
      w_retry = (\<lambda>now i job attempt t (s, n). (snd (sq_enqueue (w_queue W) now (nano_key n) [] (Some i) (fst (put_engine_job job)) (job_payload job)
        (Some attempt) (Some t) (case w_catalog W (fst (put_engine_job job)) of None \<Rightarrow> 0 | Some c \<Rightarrow> c_visibilityTimeoutMs c) None s), Suc n)),
      w_giveup = (\<lambda>now i message (s, n). (snd (sq_moveToDeadLetterQueue (w_queue W) now i message s), n))\<rparr>"

definition job_of :: "job_data \<Rightarrow> int option \<Rightarrow> job_row option" where
  "job_of j score =
     (case (j_job j, j_deduplicationKey j) of
        (Some name, Some k) \<Rightarrow> map_option (\<lambda>job. \<lparr>jr_job = job, jr_at = score, jr_key = k\<rparr>) (get_engine_job name (get_fields (j_item j)))
      | _ \<Rightarrow> None)"

definition worker_jobs :: "'s worker_deps \<Rightarrow> 's \<times> nat \<Rightarrow> string \<Rightarrow> job_row option" where
  "worker_jobs W s i =
     (case v_hash (rview (q_srv (w_queue W)) (fst s)) (kItems (w_queue W)) i of
        None \<Rightarrow> None
      | Some item \<Rightarrow>
          (case q_parse (w_queue W) item of
             None \<Rightarrow> None
           | Some j \<Rightarrow> job_of j (v_zset (rview (q_srv (w_queue W)) (fst s)) (kQueue (w_queue W)) i)))"

definition used_keys :: "'s \<times> nat \<Rightarrow> string set" where
  "used_keys s = nano_key ` {..<snd s}"

definition demo_engine_worker :: "store worker_deps" where
  "demo_engine_worker = demo_worker\<lparr>w_catalog := engine_catalog\<rparr>"

lemma nano_key_inj [simp]: "nano_key m = nano_key n \<longleftrightarrow> m = n"
proof -
  have "int_of_string (nano_key m) = Some (int m)" for m by (simp add: nano_key_def)
  then show ?thesis by (metis of_nat_eq_iff option.inject)
qed

lemma nano_key_nonempty [simp]: "nano_key m \<noteq> []"
proof
  assume "nano_key m = []"
  then have "int_to_string (int m) = []" by (simp add: nano_key_def)
  then show False by (simp add: int_to_string_def)
qed

lemma demo_engine_worker_simps [simp]: "w_queue demo_engine_worker = demo_queue" "w_catalog demo_engine_worker = engine_catalog"
  by (simp_all add: demo_engine_worker_def demo_worker_def)

lemma demo_queue_simps [simp]: "q_srv demo_queue = mem_redis" "q_parse demo_queue = get_job" "lua_decode demo_queue = get_job"
  "q_stringify demo_queue = put_job" "lua_encode demo_queue = put_job"
  by (simp_all add: demo_queue_def)

lemma queue_keys_differ: "kQueue demo_queue \<noteq> kItems demo_queue" "kDlq demo_queue \<noteq> kQueue demo_queue" "kDlqItems demo_queue \<noteq> kItems demo_queue"
  by (simp_all add: demo_queue_def)

text \<open>A job that was enqueued is the one that is seen.\<close>

lemma job_of_enqueued [simp]:
  "job_of \<lparr>j_job = Some (fst (put_engine_job job)), j_item = job_payload job, j_visibilityTimeoutMs = vt, j_attempt = a,
     j_deduplicationKey = Some k, j_errorMessage = err\<rparr> score = Some \<lparr>jr_job = job, jr_at = score, jr_key = k\<rparr>"
  by (simp add: job_of_def job_payload_def)

lemma job_of_key: "job_of j score = Some r \<Longrightarrow> j_deduplicationKey j = Some (jr_key r)"
  by (auto simp: job_of_def split: option.splits)

lemma job_of_score:
  "job_of j (map_option (\<lambda>_. t) score) = map_option (\<lambda>r. r\<lparr>jr_at := map_option (\<lambda>_. t) (jr_at r)\<rparr>) (job_of j score)"
  by (simp add: job_of_def option.map_comp comp_def split: option.split)

lemma enqueued_jobs:
  "worker_jobs demo_engine_worker (snd (sq_enqueue demo_queue now (nano_key n) [] (Some i) (fst (put_engine_job job)) (job_payload job) a (Some t) vt None s), m)
    = (worker_jobs demo_engine_worker (s, n'))(i \<mapsto> \<lparr>jr_job = job, jr_at = Some t, jr_key = nano_key n\<rparr>)"
  using queue_keys_differ
  by (auto simp: sq_enqueue_def enqueueItem_def worker_jobs_def serialized_def mem.zADD_view mem.hSET_view fun_eq_iff split: option.split)

lemma worker_enqueue_demo:
  "\<exists>vt. worker_enqueue demo_engine_worker now k [] (Some i) (fst (put_engine_job job)) payload None (Some t) None s
     = sq_enqueue demo_queue now k [] (Some i) (fst (put_engine_job job)) payload None (Some t) vt None s"
proof -
  obtain vt where "vt \<noteq> 0" "map_option c_visibilityTimeoutMs (engine_catalog (fst (put_engine_job job))) = Some vt"
    using job_in_catalog by blast
  then show ?thesis by (intro exI [of _ vt]) (auto simp: worker_enqueue_def job_timeout_def Let_def)
qed

lemma acked_jobs:
  "worker_jobs demo_engine_worker (sq_ack demo_queue i None s, n) = (worker_jobs demo_engine_worker (s, n))(i := None)"
  using queue_keys_differ
  by (auto simp: sq_ack_def ackItem_def worker_jobs_def mem.zREM_view mem.hDEL_view mem.read_views fun_eq_iff Let_def split: option.split)

lemma acked_jobs_key:
  assumes "k \<noteq> []"
  shows "worker_jobs demo_engine_worker (sq_ack demo_queue i (Some k) s, n) =
    (if \<exists>j. worker_jobs demo_engine_worker (s, n) i = Some j \<and> jr_key j \<noteq> k then worker_jobs demo_engine_worker (s, n)
     else (worker_jobs demo_engine_worker (s, n))(i := None))"
proof -
  have removed: "worker_jobs demo_engine_worker (hDEL mem_redis (kItems demo_queue) i (zREM mem_redis (kQueue demo_queue) i s), n)
      = (worker_jobs demo_engine_worker (s, n))(i := None)"
    using queue_keys_differ by (auto simp: worker_jobs_def mem.zREM_view mem.hDEL_view fun_eq_iff split: option.split)
  show ?thesis
  proof (cases "v_hash (rview mem_redis s) (kItems demo_queue) i")
    case None
    then show ?thesis by (auto simp: sq_ack_def ackItem_def mem.read_views worker_jobs_def fun_eq_iff)
  next
    case (Some item)
    show ?thesis
    proof (cases "get_job item")
      case None
      then have "worker_jobs demo_engine_worker (s, n) i = None" by (simp add: worker_jobs_def Some)
      then show ?thesis using removed Some None by (simp add: sq_ack_def ackItem_def mem.read_views Let_def)
    next
      case p: (Some parsed)
      have w: "worker_jobs demo_engine_worker (s, n) i = job_of parsed (v_zset (rview mem_redis s) (kQueue demo_queue) i)"
        by (simp add: worker_jobs_def Some p)
      show ?thesis
      proof (cases "j_deduplicationKey parsed \<noteq> None \<and> j_deduplicationKey parsed \<noteq> Some k")
        case True
        then have "sq_ack demo_queue i (Some k) s = s" using assms Some p by (simp add: sq_ack_def ackItem_def mem.read_views)
        moreover have "jr_key r \<noteq> k" if "worker_jobs demo_engine_worker (s, n) i = Some r" for r
          using that True job_of_key by (fastforce simp: w)
        ultimately show ?thesis by (cases "worker_jobs demo_engine_worker (s, n) i") (auto simp: fun_eq_iff)
      next
        case False
        then have "sq_ack demo_queue i (Some k) s = hDEL mem_redis (kItems demo_queue) i (zREM mem_redis (kQueue demo_queue) i s)"
          using Some p by (auto simp: sq_ack_def ackItem_def mem.read_views Let_def)
        moreover have "jr_key r = k" if "worker_jobs demo_engine_worker (s, n) i = Some r" for r
          using that False job_of_key by (fastforce simp: w)
        ultimately show ?thesis using removed by auto
      qed
    qed
  qed
qed

lemma rescheduled_jobs:
  "worker_jobs demo_engine_worker (sq_reschedule demo_queue i t s, n) =
    (worker_jobs demo_engine_worker (s, n))(i := map_option (\<lambda>j. j\<lparr>jr_at := map_option (\<lambda>_. t) (jr_at j)\<rparr>) (worker_jobs demo_engine_worker (s, n) i))"
proof
  fix x
  have z: "v_zset (rview mem_redis (sq_reschedule demo_queue i t s)) (kQueue demo_queue) y =
      (if y = i then map_option (\<lambda>_. t) (v_zset (rview mem_redis s) (kQueue demo_queue) i) else v_zset (rview mem_redis s) (kQueue demo_queue) y)"
    for y by (auto simp: sq_reschedule_def mem.zADDXX_view mem.zADD_view split: option.split)
  have h: "v_hash (rview mem_redis (sq_reschedule demo_queue i t s)) = v_hash (rview mem_redis s)"
    by (auto simp: sq_reschedule_def mem.zADDXX_view mem.zADD_view split: option.split)
  show "worker_jobs demo_engine_worker (sq_reschedule demo_queue i t s, n) x = ((worker_jobs demo_engine_worker (s, n))
      (i := map_option (\<lambda>j. j\<lparr>jr_at := map_option (\<lambda>_. t) (jr_at j)\<rparr>) (worker_jobs demo_engine_worker (s, n) i))) x"
    by (auto simp: worker_jobs_def z h job_of_score split: option.split)
qed

lemma dead_jobs:
  "worker_jobs demo_engine_worker (snd (sq_moveToDeadLetterQueue demo_queue now i message s), n) = (worker_jobs demo_engine_worker (s, n))(i := None)"
  using queue_keys_differ
  by (auto simp: sq_moveToDeadLetterQueue_def moveToDeadLetterQueue_item_def worker_jobs_def mem.zREM_view mem.hDEL_view mem.zADD_view
      mem.hSET_view mem.read_views fun_eq_iff Let_def split: option.split)

interpretation redis_jobs: engine_worker "redis_worker_ops demo_engine_worker" "worker_jobs demo_engine_worker" used_keys
proof
  fix s :: "store \<times> nat" and now t :: time and i k message :: string and job :: engine_job and n :: int
  obtain r m where s: "s = (r, m)" by fastforce
  have used: "used_keys (r', Suc m) = insert (nano_key m) (used_keys s)" "nano_key m \<notin> used_keys s" for r' :: store
    by (auto simp: used_keys_def s lessThan_Suc)
  show "[] \<notin> used_keys s" unfolding used_keys_def by (auto dest: sym [of "[]"])
  obtain vt where "worker_enqueue demo_engine_worker now (nano_key m) [] (Some i) (fst (put_engine_job job)) (job_payload job) None (Some t) None r
      = sq_enqueue demo_queue now (nano_key m) [] (Some i) (fst (put_engine_job job)) (job_payload job) None (Some t) vt None r"
    using worker_enqueue_demo by blast
  then show "\<exists>k. k \<notin> used_keys s \<and> used_keys (w_enqueue (redis_worker_ops demo_engine_worker) now i job t s) = insert k (used_keys s)
      \<and> worker_jobs demo_engine_worker (w_enqueue (redis_worker_ops demo_engine_worker) now i job t s)
        = (worker_jobs demo_engine_worker s)(i \<mapsto> \<lparr>jr_job = job, jr_at = Some t, jr_key = k\<rparr>)"
    using used by (intro exI [of _ "nano_key m"]) (simp add: redis_worker_ops_def s enqueued_jobs)
  show "\<exists>k. k \<notin> used_keys s \<and> used_keys (w_retry (redis_worker_ops demo_engine_worker) now i job n t s) = insert k (used_keys s)
      \<and> worker_jobs demo_engine_worker (w_retry (redis_worker_ops demo_engine_worker) now i job n t s)
        = (worker_jobs demo_engine_worker s)(i \<mapsto> \<lparr>jr_job = job, jr_at = Some t, jr_key = k\<rparr>)"
    using used by (intro exI [of _ "nano_key m"]) (simp add: redis_worker_ops_def s enqueued_jobs)
  show "worker_jobs demo_engine_worker (w_ack (redis_worker_ops demo_engine_worker) i None s) = (worker_jobs demo_engine_worker s)(i := None)"
    by (simp add: redis_worker_ops_def s acked_jobs)
  show "worker_jobs demo_engine_worker (w_giveup (redis_worker_ops demo_engine_worker) now i message s) = (worker_jobs demo_engine_worker s)(i := None)"
    by (simp add: redis_worker_ops_def s dead_jobs)
  show "worker_jobs demo_engine_worker (w_reschedule (redis_worker_ops demo_engine_worker) i t s) = (worker_jobs demo_engine_worker s)
      (i := map_option (\<lambda>j. j\<lparr>jr_at := map_option (\<lambda>_. t) (jr_at j)\<rparr>) (worker_jobs demo_engine_worker s i))"
    by (simp add: redis_worker_ops_def s rescheduled_jobs)
  show "used_keys (w_ack (redis_worker_ops demo_engine_worker) i None s) = used_keys s"
    "used_keys (w_giveup (redis_worker_ops demo_engine_worker) now i message s) = used_keys s"
    "used_keys (w_reschedule (redis_worker_ops demo_engine_worker) i t s) = used_keys s"
    by (simp_all add: redis_worker_ops_def s used_keys_def)
  show "used_keys (w_ack (redis_worker_ops demo_engine_worker) i (Some k) s) = used_keys s"
    by (simp add: redis_worker_ops_def s used_keys_def)
  assume "k \<noteq> []"
  then show "worker_jobs demo_engine_worker (w_ack (redis_worker_ops demo_engine_worker) i (Some k) s) =
      (if \<exists>j. worker_jobs demo_engine_worker s i = Some j \<and> jr_key j \<noteq> k then worker_jobs demo_engine_worker s
       else (worker_jobs demo_engine_worker s)(i := None))"
    unfolding s by (simp add: redis_worker_ops_def acked_jobs_key)
qed

subsection \<open>The engine\<close>

definition run_queue_ops :: "('s, 'w) rq_deps \<Rightarrow> rq_options \<Rightarrow> int \<Rightarrow> rat \<Rightarrow> ('s, 'w) rq_state queue_ops" where
  "run_queue_ops d opts serverSeconds rnd =
     \<lparr>q_enqueue = (\<lambda>now env message workerQueue. enqueueMessage d opts now env message workerQueue False),
      q_ack = (\<lambda>now orgId messageId removeFromWorkerQueue. acknowledgeMessage d opts now orgId messageId False removeFromWorkerQueue),
      q_nack = (\<lambda>now orgId messageId retryAt. nackMessage d opts now serverSeconds rnd orgId messageId retryAt True False),
      q_release = (\<lambda>orgId messageId q. case releaseAllConcurrency d opts orgId messageId (rq_redis q) of
         Inl e \<Rightarrow> Inl e | Inr s \<Rightarrow> Inr (q\<lparr>rq_redis := s\<rparr>)),
      q_pop = (\<lambda>workerQueue q. case dequeueMessageFromWorkerQueue d opts workerQueue (rq_redis q) of (out, s) \<Rightarrow> (out, q\<lparr>rq_redis := s\<rparr>)),
      q_clear = (\<lambda>runId queue env q. q\<lparr>rq_redis := clearMessageFromConcurrencySets d opts runId queue env (rq_redis q)\<rparr>)\<rparr>"

definition demo_engine :: "(mem_tables, demo_state, store \<times> nat) engine_deps" where
  "demo_engine = \<lparr>e_db = mem_db, e_queue = run_queue_ops Run_Queue_Properties.demo_deps demo_opts 9 0,
     e_worker = redis_worker_ops demo_engine_worker,
     e_heartbeatTimeouts = \<lparr>ht_PENDING_EXECUTING = 60000, ht_PENDING_CANCEL = 60000, ht_EXECUTING = 60000,
       ht_EXECUTING_WITH_WAITPOINTS = 60000, ht_SUSPENDED = 60000\<rparr>,
     e_machines = [(small_1x, \<lparr>mp_name = small_1x, mp_cpu = 1/2, mp_memory = 1/2, mp_centsPerMs = 0\<rparr>)],
     e_defaultMachine = small_1x, e_retryWarmStartThresholdMs = None, e_fl = (\<lambda>q. q), e_pow = (\<lambda>b n. b ^ nat n),
     e_timeoutError = (\<lambda>_. ''timeout''), e_errorText = (\<lambda>_. ''error'')\<rparr>"

interpretation demo_engine: engine demo_engine mem_view "worker_jobs demo_engine_worker" used_keys
  using mem_engine.engine_db_axioms redis_jobs.engine_worker_axioms by (simp add: engine_def demo_engine_def)

end
