(* ===== verification/Engine_Properties.thy ===== *)
theory Engine_Properties
  imports Engine_Outcomes Engine_Instance Engine_Durations
begin

text \<open>
  The properties of the run engine, on every database, run queue and worker that satisfy the interface \<open>engine\<close>. The
  witnesses run the engine on the modelled run queue and job queue and on the reference database.
\<close>

subsection \<open>An engine with one run\<close>

definition demo_environment :: environment where
  "demo_environment = \<lparr>en_id = ''e1'', en_type = PRODUCTION, en_projectId = ''p1'', en_organizationId = ''o1''\<rparr>"

definition demo_run :: "run_status \<Rightarrow> task_run" where
  "demo_run status = \<lparr>tr_id = ''run1'', tr_status = status, tr_attemptNumber = Some 1, tr_maxAttempts = Some 3, tr_lockedById = Some ''task1'',
     tr_lockedAt = None, tr_lockedToVersionId = None, tr_lockedQueueId = None, tr_startedAt = None, tr_maxDurationInSeconds = None,
     tr_idempotencyKey = None, tr_oneTimeUseToken = None, tr_retryConfig = None, tr_machinePreset = None, tr_usageDurationMs = 0, tr_costInCents = 0,
     tr_taskIdentifier = ''mail'', tr_queue = ''emails'', tr_concurrencyKey = None, tr_workerQueue = ''us'', tr_queueTimestamp = Some 5,
     tr_createdAt = 1, tr_priorityMs = 0, tr_ttl = Some ''1h'', tr_delayUntil = None, tr_batchId = Some ''b1'', tr_completedAt = None,
     tr_error = None, tr_output = None, tr_parentTaskRunId = None, tr_organizationId = Some ''o1'', tr_environment = demo_environment\<rparr>"

definition demo_snapshot :: "exec_status \<Rightarrow> snapshot" where
  "demo_snapshot status = (snapshot_row ''run1'' RS_EXECUTING (Some 1) status None None demo_environment None None None [] None)\<lparr>sn_id := ''1''\<rparr>"

definition demo_waitpoints :: "waitpoint list" where
  "demo_waitpoints =
     [new_waitpoint WP_MANUAL ''w1'' ''n1'' None None ''e1'' ''p1'' None,
      (new_waitpoint WP_RUN ''w2'' ''n2'' None None ''e1'' ''p1'' None)\<lparr>wp_completedByTaskRunId := Some ''run1''\<rparr>,
      (new_waitpoint WP_BATCH ''w3'' ''n3'' None None ''e1'' ''p1'' None)\<lparr>wp_completedByBatchId := Some ''b1''\<rparr>]"

definition demo_tables :: "run_status \<Rightarrow> exec_status \<Rightarrow> mem_tables" where
  "demo_tables status executionStatus =
     \<lparr>mt_runs = [demo_run status], mt_snapshots = [demo_snapshot executionStatus], mt_waitpoints = demo_waitpoints, mt_blocks = [],
      mt_batches = [\<lparr>ba_id = ''b1'', ba_completed = False, ba_environmentId = ''e1'', ba_processingJobsCount = 1, ba_runCount = 1,
        ba_batchVersion = ''v1'', ba_successfulRunCount = None, ba_failedRunCount = None\<rparr>], mt_next = 2\<rparr>"

definition demo_system :: "run_status \<Rightarrow> exec_status \<Rightarrow> (mem_tables, demo_state, store \<times> nat) engine_state" where
  "demo_system status executionStatus = \<lparr>es_db = demo_tables status executionStatus, es_queue = demo_start, es_jobs = (empty_store, 0)\<rparr>"

definition demo_waiting_room :: "(mem_tables, demo_state, store \<times> nat) wait_state" where
  "demo_waiting_room = \<lparr>ws_engine = demo_system RS_EXECUTING ES_EXECUTING, ws_completer = (\<lambda>_. C_idle), ws_runner = (\<lambda>_. R_idle), ws_dead = {}\<rparr>"

text \<open>The run waits for a waitpoint, and a request completes the waitpoint.\<close>

definition demo_blocked :: "(mem_tables, demo_state, store \<times> nat) wait_state" where
  "demo_blocked = demo_waiting_room\<lparr>ws_engine := snd (blockRunWithWaitpoint demo_engine 5 ''run1'' [''w1''] ''o1'' None None None None None (ws_engine demo_waiting_room))\<rparr>"

definition demo_completed :: "(mem_tables, demo_state, store \<times> nat) wait_state" where
  "demo_completed = demo_blocked\<lparr>ws_engine := snd (completer_move demo_engine 9 ''w1'' None C_idle (ws_engine demo_blocked)),
     ws_completer := (ws_completer demo_blocked)(0 := fst (completer_move demo_engine 9 ''w1'' None C_idle (ws_engine demo_blocked)))\<rparr>"

lemma demo_rows: "rows_ok (mem_view (demo_tables status executionStatus))"
  by (auto simp: rows_ok_def mem_view_def demo_tables_def get_row_def demo_run_def demo_waitpoints_def new_waitpoint_def split: if_splits)

lemma demo_no_jobs: "worker_jobs demo_engine_worker (empty_store, n) = Map.empty"
  by (simp add: worker_jobs_def rview_def mem_redis_defs empty_store_def fun_eq_iff)

lemma demo_completed_reachable: "wait_reachable demo_engine mem_view (worker_jobs demo_engine_worker) used_keys demo_completed"
proof -
  let ?R = "wait_reachable demo_engine mem_view (worker_jobs demo_engine_worker) used_keys"
  have "?R demo_waiting_room"
    by (rule wr_start) (use demo_rows [of RS_EXECUTING ES_EXECUTING] in
      \<open>auto simp: demo_waiting_room_def demo_system_def rows_ok_def demo_no_jobs, simp add: demo_tables_def mem_view_def\<close>)
  then have "?R demo_blocked"
    unfolding demo_blocked_def by (rule wr_step) (rule wt_block [OF prod.collapse [symmetric]])
  moreover have "ws_completer demo_blocked 0 = C_idle" by (simp add: demo_blocked_def demo_waiting_room_def)
  ultimately show ?thesis
    unfolding demo_completed_def by (elim wr_step) (rule wt_start [OF _ prod.collapse [symmetric]])
qed

lemma demo_engine_db [simp]: "e_db demo_engine = mem_db"
  by (simp add: demo_engine_def)

lemma fresh_ids: "fresh_id [''1''] = ''2''" "fresh_id [] = ''0''"
  by code_simp+

definition demo_block :: run_block where
  "demo_block = \<lparr>bl_id = ''0'', bl_taskRunId = ''run1'', bl_waitpointId = ''w1'', bl_spanIdToComplete = None, bl_batchId = None, bl_batchIndex = None\<rparr>"

lemma demo_blocked_db:
  "es_db (ws_engine demo_blocked) = (demo_tables RS_EXECUTING ES_EXECUTING)\<lparr>mt_blocks := [demo_block],
     mt_snapshots := [(demo_snapshot ES_EXECUTING_WITH_WAITPOINTS)\<lparr>sn_id := ''2'', sn_previousSnapshotId := Some ''1''\<rparr>, demo_snapshot ES_EXECUTING]\<rparr>"
  by (simp add: demo_blocked_def demo_waiting_room_def demo_system_def blockRunWithWaitpoint_def getLatestExecutionSnapshot_def then_do_def insert_blocks_def
      block_exists_def mem_db_def get_row_def createExecutionSnapshot_def demo_tables_def demo_snapshot_def demo_waitpoints_def new_waitpoint_def snapshot_row_def
      demo_environment_def demo_block_def Let_def fresh_ids enqueue_job_def schedule_continue_def split: option.split)

lemma demo_completed_db:
  "es_db (ws_engine demo_completed) = (es_db (ws_engine demo_blocked))\<lparr>mt_waitpoints := (hd demo_waitpoints)\<lparr>wp_completed := True, wp_completedAt := Some 9\<rparr>
     # tl demo_waitpoints\<rparr>"
  by (simp add: demo_completed_def complete_pending_def demo_blocked_db on_db_def mem_db_def get_row_def put_row_def demo_tables_def demo_waitpoints_def
      new_waitpoint_def)

lemma demo_completed_ready: "ready (mem_view (es_db (ws_engine demo_completed))) ''run1''"
  by (auto simp: demo_completed_db demo_blocked_db ready_def waiting_def blocks_of_def done_wp_def waits_def latest_def mem_view_def demo_tables_def
      demo_block_def demo_snapshot_def snapshot_row_def get_row_def demo_waitpoints_def new_waitpoint_def)

lemma demo_engine_ok: "engine demo_engine mem_view (worker_jobs demo_engine_worker) used_keys"
  by (rule demo_engine.engine_axioms)

subsection \<open>Waitpoints\<close>




lemma demo_accepts: "queue_accepts demo_engine now (demo_run status) q"
proof -
  have "for_home demo_home demo_env (run_message (demo_run status) demo_environment)"
    by (simp add: for_home_def demo_home_def run_message_def demo_run_def demo_environment_def demo_env_def)
  from demo.enqueue_phase [OF this, of now "''us''" False q] obtain q' where
    q': "enqueueMessage Run_Queue_Properties.demo_deps demo_opts now demo_env (run_message (demo_run status) demo_environment) ''us'' False q = Inr q'"
    by blast
  have e: "tr_environment (demo_run status) = demo_environment" "tr_workerQueue (demo_run status) = ''us''" "en_type demo_environment \<noteq> DEVELOPMENT"
      "queue_env demo_environment = demo_env"
    by (simp_all add: demo_run_def demo_environment_def queue_env_def demo_env_def)
  have "q_enqueue (e_queue demo_engine) = (\<lambda>now env message workerQueue. enqueueMessage Run_Queue_Properties.demo_deps demo_opts now env message workerQueue False)"
    by (simp add: demo_engine_def run_queue_ops_def)
  then show ?thesis using e q' by (simp add: queue_accepts_def)
qed


text \<open>C20. The order in which a run gets its completed waitpoints survives from snapshot to snapshot: the order computed from the
  waitpoints of a snapshot, which are looked up and given their places, is the order that the snapshot stores, with
  repetitions.\<close>

theorem completed_waitpoints_keep_order:
  assumes "distinct (sn_completedWaitpoints x)" and "set (sn_completedWaitpointOrder x) \<subseteq> set (sn_completedWaitpoints x)"
  shows "waitpoint_order (enhanced_waitpoints x) = sn_completedWaitpointOrder x"
  using assms by (rule waitpoint_order_enhanced)

theorem completed_waitpoints_keep_order_witness:
  "waitpoint_order (enhanced_waitpoints ((demo_snapshot ES_EXECUTING)\<lparr>sn_completedWaitpoints := [''w1'', ''w2''], sn_completedWaitpointOrder := [''w2'', ''w1'', ''w2'']\<rparr>))
    = [''w2'', ''w1'', ''w2'']"
  using completed_waitpoints_keep_order [of "(demo_snapshot ES_EXECUTING)\<lparr>sn_completedWaitpoints := [''w1'', ''w2''],
    sn_completedWaitpointOrder := [''w2'', ''w1'', ''w2'']\<rparr>"] by simp

subsection \<open>Attempts\<close>

text \<open>C13. When the engine answers a worker that the run is finished, the run is closed: its row and its last snapshot have the same
  final status, the waitpoint that it completes is completed, every run that waits for it has its continue job, the job that
  looks whether its batch is complete is scheduled, and its heartbeat is gone.\<close>

theorem finished_run_is_closed:
  assumes "engine e tables jobs used" and "rows_ok (tables (es_db st))"
    and "completeRunAttempt e rnd now runId snapshotId compl wk rn st = (Inr (RUN_FINISHED, y), g)"
  shows "\<exists>status. run_closed (tables (es_db g)) (jobs (es_jobs g)) runId status"
  using assms(3) engine.succeeded_closes(2) [OF assms(1) _ assms(2)] engine.failed_attempt_closes [OF assms(1) _ assms(2)]
  by (fastforce simp: completeRunAttempt_def split: completion.splits)

lemma demo_queue_empty: "readMessage Run_Queue_Properties.demo_deps demo_opts org m empty_store = None"
  by (simp add: readMessage_def Run_Queue_Properties.demo_deps_def mem_redis_defs empty_store_def)

lemma demo_ack: "q_ack (e_queue demo_engine) now org m remove demo_start = Inr demo_start"
  by (simp add: demo_engine_def run_queue_ops_def acknowledgeMessage_def demo_start_def demo_queue_empty)

lemma demo_cents: "centsPerMs demo_engine None = Some 0"
  by (simp add: centsPerMs_def demo_engine_def nonempty_def machinePresetFromName_def)

lemmas demo_defs = demo_system_def demo_tables_def demo_run_def demo_snapshot_def demo_waitpoints_def new_waitpoint_def snapshot_row_def demo_environment_def

lemmas demo_eval = getLatestExecutionSnapshot_def find_run_def update_run_def update_usage_def calculateUpdatedUsage_def nested_snapshot_def
  on_queue_def associatedWaitpoint_def finish_run_def finalizeRun_def completeWaitpoint_def complete_pending_def on_db_def ack_job_def
  then_do_ok return_def demo_ack demo_cents mem_db_def get_row_def put_row_def select_rows_def Let_def run_org_def nonempty_def

lemma demo_completion:
  "\<exists>y g. completeRunAttempt demo_engine 0 9 ''run1'' ''1'' (Succeeded (Some ''ok'') None (Some 5)) None None (demo_system RS_EXECUTING ES_EXECUTING)
     = (Inr (RUN_FINISHED, y), g)"
  by (simp add: completeRunAttempt_def attemptSucceeded_def demo_eval demo_defs)

theorem finished_run_is_closed_witness:
  "\<exists>y g status. completeRunAttempt demo_engine 0 9 ''run1'' ''1'' (Succeeded (Some ''ok'') None (Some 5)) None None (demo_system RS_EXECUTING ES_EXECUTING)
     = (Inr (RUN_FINISHED, y), g) \<and> run_closed (mem_view (es_db g)) (worker_jobs demo_engine_worker (es_jobs g)) ''run1'' status"
proof -
  have "rows_ok (mem_view (es_db (demo_system RS_EXECUTING ES_EXECUTING)))" using demo_rows by (simp add: demo_system_def)
  from finished_run_is_closed [OF demo_engine_ok this] show ?thesis using demo_completion by blast
qed



text \<open>C15. The recursion of a failed attempt ends: two rounds are enough, whatever the run, the error and the state, and the result is
  never that the fuel ran out.\<close>

theorem attemptFailed_terminates:
  "attemptFailed_fuel (Suc (Suc n)) e rnd now fr wk rn runId snapshotId c st = attemptFailed e rnd now fr wk rn runId snapshotId c st
    \<and> fst (attemptFailed e rnd now fr wk rn runId snapshotId c st) \<noteq> Inl OutOfFuel"
  using attemptFailed_fuel_ok attemptFailed_fuel_enough by (metis fuel_ok_def)

text \<open>C16. Retries are bounded: a failed attempt is tried again, in the queue or at once, only with attempts left. Either the error
  allows a retry and the attempt's number is below the run's maximum and not above the global one, or the run was out of
  memory, a machine other than its own is configured for that case, and the number is below the maximum of its retry
  options.\<close>

theorem retries_are_bounded:
  assumes "engine e tables jobs used" and "rows_ok (tables (es_db st))"
    and "completeRunAttempt e rnd now r s (Failed f) wk rn st = (Inr (a, y), g)" and "a = RETRY_QUEUED \<or> a = RETRY_IMMEDIATELY"
  shows "\<exists>x run. latest (tables (es_db st)) r = Some x \<and> sn_id x = s \<and> t_runs (tables (es_db st)) r = Some run \<and>
    ((\<exists>maxA. tr_maxAttempts run = Some maxA \<and> shouldRetryError (taskRunErrorEnhancer (fc_error f))
        \<and> (\<forall>n. sn_attemptNumber x = Some n \<longrightarrow> n < maxA \<and> n \<le> MAX_TASK_RUN_ATTEMPTS))
      \<or> (isOOMRunError (fc_error f) \<and> (\<exists>opts mc. tr_retryConfig run = Some (ValidRetry opts mc) \<and> mc \<noteq> tr_machinePreset run
        \<and> with_default (sn_attemptNumber x) 1 < the (maxAttempts (merge_options defaultRetryOptions opts)))))"
  using engine.retried_bounded [OF assms(1) _ assms(2,4)] assms(3) by (simp add: completeRunAttempt_def)

lemma demo_retry:
  assumes "executionStatus \<noteq> ES_FINISHED"
  shows "\<exists>y g run'. completeRunAttempt demo_engine 0 9 ''run1'' ''1''
      (Failed \<lparr>fc_error = StringError ''boom'', fc_retry = Some \<lparr>rs_timestamp = 1000, rs_delay = 900\<rparr>, fc_durationMs = None\<rparr>) None None (demo_system status executionStatus)
     = (Inr (RETRY_IMMEDIATELY, y), g)
    \<and> latest (mem_view (es_db g)) ''run1'' = Some y \<and> sn_executionStatus y = ES_EXECUTING \<and> t_runs (mem_view (es_db g)) ''run1'' = Some run'
    \<and> tr_status run' = status \<and> tr_lockedById run' = Some ''task1'' \<and> tr_attemptNumber run' = Some 1 \<and> rows_ok (mem_view (es_db g))"
  using engine.short_delay_retried [OF demo_engine_ok, of "demo_system status executionStatus" "''run1''" "demo_snapshot executionStatus" "demo_run status" 3 1
      "StringError ''boom''" 900 0 9 1000 None None None] assms demo_rows [of status executionStatus]
  by (simp add: demo_defs mem_view_def latest_def get_row_def MAX_TASK_RUN_ATTEMPTS_def cancelled_message_def isOOMRunError_def isManualOutOfMemoryError_def
      shouldRetryError_def taskRunErrorEnhancer_def demo_engine_def centsPerMs_def nonempty_def machinePresetFromName_def)

theorem retries_are_bounded_witness:
  "\<exists>y g x run maxA. completeRunAttempt demo_engine 0 9 ''run1'' ''1''
      (Failed \<lparr>fc_error = StringError ''boom'', fc_retry = Some \<lparr>rs_timestamp = 1000, rs_delay = 900\<rparr>, fc_durationMs = None\<rparr>) None None (demo_system RS_EXECUTING ES_EXECUTING)
     = (Inr (RETRY_IMMEDIATELY, y), g)
    \<and> latest (mem_view (demo_tables RS_EXECUTING ES_EXECUTING)) ''run1'' = Some x \<and> t_runs (mem_view (demo_tables RS_EXECUTING ES_EXECUTING)) ''run1'' = Some run
    \<and> tr_maxAttempts run = Some maxA \<and> (\<forall>n. sn_attemptNumber x = Some n \<longrightarrow> n < maxA)"
proof -
  let ?st = "demo_system RS_EXECUTING ES_EXECUTING"
  have ok: "rows_ok (mem_view (es_db ?st))" "es_db ?st = demo_tables RS_EXECUTING ES_EXECUTING" using demo_rows by (simp_all add: demo_system_def)
  have noOOM: "\<not> isOOMRunError (StringError ''boom'')" by (simp add: isOOMRunError_def isManualOutOfMemoryError_def)
  obtain y g where 1: "completeRunAttempt demo_engine 0 9 ''run1'' ''1''
      (Failed \<lparr>fc_error = StringError ''boom'', fc_retry = Some \<lparr>rs_timestamp = 1000, rs_delay = 900\<rparr>, fc_durationMs = None\<rparr>) None None ?st
     = (Inr (RETRY_IMMEDIATELY, y), g)"
    using demo_retry [of ES_EXECUTING RS_EXECUTING] by blast
  from retries_are_bounded [OF demo_engine_ok ok(1) 1] noOOM show ?thesis using 1 by (auto simp: ok(2))
qed

text \<open>C17. A run that is being cancelled can be made to execute again: when its worker reports a failure that may be retried after a short
  delay, the engine answers that the attempt is to be retried at once, the pending cancellation is replaced by an executing
  snapshot, and the next attempt starts, with the row back from cancelled to executing.\<close>

theorem cancelled_run_executes_again:
  assumes "engine e tables jobs used" and "rows_ok (tables (es_db st))" and "latest (tables (es_db st)) r = Some x"
    and "sn_executionStatus x = ES_PENDING_CANCEL" and "t_runs (tables (es_db st)) r = Some run" and "tr_status run = RS_CANCELED"
    and "tr_maxAttempts run = Some maxA" and "0 < maxA" and "sn_attemptNumber x = Some n" and "tr_attemptNumber run = Some n"
    and "n < maxA" and "n < MAX_TASK_RUN_ATTEMPTS" and "nonempty (tr_lockedById run) \<noteq> None"
    and "cancelled_message error = None" and "\<not> isOOMRunError error" and "shouldRetryError (taskRunErrorEnhancer error)"
    and "\<forall>t. e_retryWarmStartThresholdMs e = Some t \<longrightarrow> delay < t"
    and "en_type (sn_environment x) = DEVELOPMENT \<or> centsPerMs e (tr_machinePreset run) \<noteq> None"
  shows "\<exists>y g run' z g'. completeRunAttempt e rnd now r (sn_id x)
      (Failed \<lparr>fc_error = error, fc_retry = Some \<lparr>rs_timestamp = retryAt, rs_delay = delay\<rparr>, fc_durationMs = d\<rparr>) wk rn st = (Inr (RETRY_IMMEDIATELY, y), g)
    \<and> sn_executionStatus y = ES_EXECUTING
    \<and> startRunAttempt e rnd' now' r (sn_id y) wk rn g = (Inr (run', z), g')
    \<and> t_runs (tables (es_db g')) r = Some run' \<and> tr_status run' = RS_EXECUTING"
proof -
  have "sn_executionStatus x \<noteq> ES_FINISHED" "maxA \<noteq> 0" "n \<le> MAX_TASK_RUN_ATTEMPTS" using assms(4,8,12) by simp_all
  from engine.short_delay_retried [OF assms(1-3) this(1) assms(5,7) this(2) assms(9,11) this(3) assms(14-18)]
  obtain y g run1 where 1: "completeRunAttempt e rnd now r (sn_id x)
      (Failed \<lparr>fc_error = error, fc_retry = Some \<lparr>rs_timestamp = retryAt, rs_delay = delay\<rparr>, fc_durationMs = d\<rparr>) wk rn st = (Inr (RETRY_IMMEDIATELY, y), g)"
    and y: "latest (tables (es_db g)) r = Some y" "sn_executionStatus y = ES_EXECUTING" "t_runs (tables (es_db g)) r = Some run1"
      "tr_lockedById run1 = tr_lockedById run" "tr_attemptNumber run1 = tr_attemptNumber run" "rows_ok (tables (es_db g))" by blast
  have "\<not> isFinishedOrPendingFinished (sn_executionStatus y)" using y(2) by (simp add: status_defs)
  from engine.attempt_starts [OF assms(1) y(6,1) this y(3)] show ?thesis using 1 y assms(10,12,13) by fastforce
qed

theorem cancelled_run_executes_again_witness:
  "\<exists>y g run' z g'. completeRunAttempt demo_engine 0 9 ''run1'' ''1''
      (Failed \<lparr>fc_error = StringError ''boom'', fc_retry = Some \<lparr>rs_timestamp = 1000, rs_delay = 900\<rparr>, fc_durationMs = None\<rparr>) None None
      (demo_system RS_CANCELED ES_PENDING_CANCEL) = (Inr (RETRY_IMMEDIATELY, y), g)
    \<and> sn_executionStatus y = ES_EXECUTING
    \<and> startRunAttempt demo_engine 0 1000 ''run1'' (sn_id y) None None g = (Inr (run', z), g')
    \<and> t_runs (mem_view (es_db g')) ''run1'' = Some run' \<and> tr_status run' = RS_EXECUTING"
  using cancelled_run_executes_again [OF demo_engine_ok, of "demo_system RS_CANCELED ES_PENDING_CANCEL" "''run1''" "demo_snapshot ES_PENDING_CANCEL"
      "demo_run RS_CANCELED" 3 1 "StringError ''boom''" 900 0 9 1000 None None None 0 1000] demo_rows [of RS_CANCELED ES_PENDING_CANCEL]
  by (simp add: demo_defs mem_view_def latest_def get_row_def MAX_TASK_RUN_ATTEMPTS_def cancelled_message_def isOOMRunError_def isManualOutOfMemoryError_def
      shouldRetryError_def taskRunErrorEnhancer_def demo_engine_def centsPerMs_def nonempty_def machinePresetFromName_def)

subsection \<open>Batches\<close>

text \<open>C18. The job that looks at a batch completes it exactly when all its items have been processed and all its runs have ended; then
  the waitpoint of the batch, when there is one, is completed and every run that waits for it has its continue job. Otherwise
  it changes nothing.\<close>

theorem batch_completes_with_its_runs:
  assumes "engine e tables jobs used" and "rows_ok (tables (es_db st))" and "tryCompleteBatch e now b st = (out, g)"
    and "t_batches (tables (es_db st)) b = Some batch" and "ba_id batch = b" and "\<not> ba_completed batch"
  shows "if batch_done (tables (es_db st)) batch
    then out = Inr () \<and> t_batches (tables (es_db g)) b = Some (batch\<lparr>ba_completed := True\<rparr>) \<and> t_blocks (tables (es_db g)) = t_blocks (tables (es_db st))
      \<and> ((\<exists>i w. t_waitpoints (tables (es_db st)) i = Some w \<and> wp_completedByBatchId w = Some b) \<longrightarrow>
        (\<exists>i w. t_waitpoints (tables (es_db g)) i = Some w \<and> wp_completedByBatchId w = Some b \<and> wp_completed w
          \<and> wakes (tables (es_db g)) (jobs (es_jobs g)) i))
    else g = st"
  using engine.batch_completes [OF assms(1,3,2,4-6)] by (simp only: split: if_split) blast

definition demo_batch :: batch_row where
  "demo_batch = \<lparr>ba_id = ''b1'', ba_completed = False, ba_environmentId = ''e1'', ba_processingJobsCount = 1, ba_runCount = 1,
     ba_batchVersion = ''v1'', ba_successfulRunCount = None, ba_failedRunCount = None\<rparr>"

lemma demo_batch_row: "t_batches (mem_view (demo_tables status executionStatus)) ''b1'' = Some demo_batch"
  by (simp add: mem_view_def demo_tables_def get_row_def demo_batch_def)

lemma demo_batch_done: "isFinalRunStatus status \<Longrightarrow> batch_done (mem_view (demo_tables status executionStatus)) demo_batch"
  by (auto simp: batch_done_def demo_batch_def processedRunCount_def mem_view_def demo_tables_def get_row_def demo_run_def split: if_splits)

theorem batch_completes_with_its_runs_witness:
  "t_batches (mem_view (es_db (snd (tryCompleteBatch demo_engine 9 ''b1'' (demo_system RS_COMPLETED_SUCCESSFULLY ES_FINISHED))))) ''b1''
    = Some (demo_batch\<lparr>ba_completed := True\<rparr>)"
proof -
  let ?st = "demo_system RS_COMPLETED_SUCCESSFULLY ES_FINISHED"
  have db: "es_db ?st = demo_tables RS_COMPLETED_SUCCESSFULLY ES_FINISHED" by (simp add: demo_system_def)
  have "batch_done (mem_view (es_db ?st)) demo_batch" unfolding db by (rule demo_batch_done) (simp add: status_defs)
  then show ?thesis
    using batch_completes_with_its_runs [OF demo_engine_ok _ prod.collapse [symmetric], where st = ?st and now = 9 and b = "''b1''" and batch = demo_batch] demo_rows demo_batch_row
    by (simp add: db demo_batch_def)
qed

text \<open>C19. Expiring a run ends it and wakes the runs that wait for it, but schedules nothing for its batch: the batches and the jobs that
  look at them stay as they were, also when the run was the last one of its batch to end.\<close>

theorem expired_run_leaves_batch_open:
  assumes "engine e tables jobs used" and "rows_ok (tables (es_db st))" and "expireRun e now r st = (Inr True, g)"
  shows "run_ended (tables (es_db g)) r RS_EXPIRED
    \<and> (\<exists>i w. t_waitpoints (tables (es_db g)) i = Some w \<and> wp_completedByTaskRunId w = Some r \<and> wp_completed w
        \<and> wakes (tables (es_db g)) (jobs (es_jobs g)) i)
    \<and> t_batches (tables (es_db g)) = t_batches (tables (es_db st))
    \<and> jobs (es_jobs g) (''tryCompleteBatch:'' @ b) = jobs (es_jobs st) (''tryCompleteBatch:'' @ b)"
  by (intro conjI engine.expired_run [OF assms(1,3,2)])

lemma demo_expire:
  "\<exists>g. expireRun demo_engine 9 ''run1'' (demo_system RS_PENDING ES_QUEUED) = (Inr True, g) \<and> batch_done (mem_view (es_db g)) demo_batch"
  by (simp add: expireRun_def demo_eval demo_defs isExecuting_def batch_done_def demo_batch_def processedRunCount_def mem_view_def affectedTaskRuns_def
      isFinalRunStatus_def finalStatuses_def)

theorem expired_run_leaves_batch_open_witness:
  "\<exists>g. expireRun demo_engine 9 ''run1'' (demo_system RS_PENDING ES_QUEUED) = (Inr True, g) \<and> batch_done (mem_view (es_db g)) demo_batch
    \<and> t_batches (mem_view (es_db g)) ''b1'' = Some demo_batch \<and> worker_jobs demo_engine_worker (es_jobs g) (''tryCompleteBatch:'' @ ''b1'') = None"
proof -
  obtain g where g: "expireRun demo_engine 9 ''run1'' (demo_system RS_PENDING ES_QUEUED) = (Inr True, g)" "batch_done (mem_view (es_db g)) demo_batch"
    using demo_expire by blast
  have st: "es_db (demo_system RS_PENDING ES_QUEUED) = demo_tables RS_PENDING ES_QUEUED" "es_jobs (demo_system RS_PENDING ES_QUEUED) = (empty_store, 0)"
    by (simp_all add: demo_system_def)
  from expired_run_leaves_batch_open [OF demo_engine_ok _ g(1), of "''b1''"] show ?thesis using g demo_rows demo_batch_row by (auto simp: st demo_no_jobs)
qed

end
