(* ===== verification/Engine_Trigger.thy ===== *)
theory Engine_Trigger
  imports Engine_Lifecycle
begin

text \<open>
  Triggering a run (\<open>trigger\<close> of \<open>engine/index.ts\<close>, for calls without a debounce key), blocking a run with a batch, and the
  handlers of the engine's jobs. Ids and keys that are generated are arguments; columns that the engine only stores for
  others (payload, tags, trace, metadata, schedule) are left out.
\<close>

record trigger_params =
  tp_runId :: string
  tp_environment :: environment
  tp_idempotencyKey :: "string option"
  tp_oneTimeUseToken :: "string option"
  tp_taskIdentifier :: string
  tp_lockedToVersionId :: "string option"
  tp_concurrencyKey :: "string option"
  tp_workerQueue :: string
  tp_queue :: string
  tp_lockedQueueId :: "string option"
  tp_delayUntil :: "time option"
  tp_maxAttempts :: "int option"
  tp_priorityMs :: "int option"
  tp_queueTimestamp :: "time option"
  tp_ttl :: "string option"
  tp_parentTaskRunId :: "string option"
  tp_batch :: "(string \<times> int option) option"
  tp_resumeParentOnCompletion :: bool
  tp_maxDurationInSeconds :: "int option"
  tp_machine :: "string option"
  tp_workerId :: "string option"
  tp_runnerId :: "string option"
  tp_createdAt :: "time option"

definition trigger_status :: "trigger_params \<Rightarrow> run_status" where
  "trigger_status p = (if tp_delayUntil p = None then RS_PENDING else RS_DELAYED)"

definition new_run :: "time \<Rightarrow> trigger_params \<Rightarrow> task_run" where
  "new_run now p =
     \<lparr>tr_id = tp_runId p, tr_status = trigger_status p, tr_attemptNumber = None, tr_maxAttempts = tp_maxAttempts p, tr_lockedById = None,
      tr_lockedAt = None, tr_lockedToVersionId = tp_lockedToVersionId p, tr_lockedQueueId = tp_lockedQueueId p, tr_startedAt = None,
      tr_maxDurationInSeconds = tp_maxDurationInSeconds p, tr_idempotencyKey = tp_idempotencyKey p, tr_oneTimeUseToken = tp_oneTimeUseToken p,
      tr_retryConfig = None, tr_machinePreset = tp_machine p, tr_usageDurationMs = 0, tr_costInCents = 0,
      tr_taskIdentifier = tp_taskIdentifier p, tr_queue = tp_queue p, tr_concurrencyKey = tp_concurrencyKey p, tr_workerQueue = tp_workerQueue p,
      tr_queueTimestamp = Some (case tp_queueTimestamp p of Some t \<Rightarrow> t | None \<Rightarrow> with_default (tp_delayUntil p) now),
      tr_createdAt = with_default (tp_createdAt p) now, tr_priorityMs = with_default (tp_priorityMs p) 0, tr_ttl = tp_ttl p,
      tr_delayUntil = tp_delayUntil p, tr_batchId = map_option fst (tp_batch p), tr_completedAt = None, tr_error = None, tr_output = None,
      tr_parentTaskRunId = tp_parentTaskRunId p, tr_organizationId = Some (en_organizationId (tp_environment p)), tr_environment = tp_environment p\<rparr>"

definition buildRunAssociatedWaitpoint :: "string \<Rightarrow> string \<Rightarrow> string \<Rightarrow> string \<Rightarrow> waitpoint" where
  "buildRunAssociatedWaitpoint newId nano environmentId projectId =
     \<lparr>wp_id = newId, wp_type = WP_RUN, wp_completed = False, wp_completedAt = None, wp_output = None, wp_idempotencyKey = nano,
      wp_userProvidedIdempotencyKey = False, wp_idempotencyKeyExpiresAt = None, wp_inactiveIdempotencyKey = None, wp_completedByTaskRunId = None,
      wp_completedByBatchId = None, wp_completedAfter = None, wp_environmentId = environmentId, wp_projectId = projectId\<rparr>"

text \<open>The unique keys of the table: the id, the one-time token, and the idempotency key of a task in an environment.\<close>

definition run_conflict :: "task_run \<Rightarrow> task_run \<Rightarrow> bool" where
  "run_conflict run r \<longleftrightarrow> tr_id r = tr_id run
     \<or> tr_oneTimeUseToken run \<noteq> None \<and> tr_oneTimeUseToken r = tr_oneTimeUseToken run
     \<or> tr_idempotencyKey run \<noteq> None \<and> tr_idempotencyKey r = tr_idempotencyKey run \<and> tr_taskIdentifier r = tr_taskIdentifier run
       \<and> en_id (tr_environment r) = en_id (tr_environment run)"

text \<open>\<open>taskRun.create\<close> with its first snapshot and its waitpoint; every violated key is reported as a duplicate idempotency key.\<close>

definition create_run :: "('d, 'q, 'j) engine_deps \<Rightarrow> time \<Rightarrow> string \<Rightarrow> string \<Rightarrow> trigger_params \<Rightarrow> ('d, 'q, 'j, task_run) engine_op" where
  "create_run e now waitpointId nano p st =
     (let run = new_run now p; env = tp_environment p
      in if run_select (e_db e) (run_conflict run) (es_db st) \<noteq> []
           \<or> wp_select (e_db e) (\<lambda>x. wp_id x = waitpointId \<or> wp_environmentId x = en_id env \<and> wp_idempotencyKey x = nano) (es_db st) \<noteq> []
         then (Inl DuplicateIdempotencyKey, st)
         else
           (Inr run, on_db (\<lambda>d.
              wp_put (e_db e) ((buildRunAssociatedWaitpoint waitpointId nano (en_id env) (en_projectId env))\<lparr>wp_completedByTaskRunId := Some (tr_id run)\<rparr>)
                (snd (snap_add (e_db e) (snapshot_row (tr_id run) (trigger_status p) None
                   (if tp_delayUntil p = None then ES_RUN_CREATED else ES_DELAYED) None None env None (tp_workerId p) (tp_runnerId p) [] None)
                  (run_put (e_db e) run d)))) st))"

text \<open>A new run is enqueued, or a job will enqueue it.\<close>

definition place_run :: "('d, 'q, 'j) engine_deps \<Rightarrow> time \<Rightarrow> trigger_params \<Rightarrow> task_run \<Rightarrow> ('d, 'q, 'j, task_run) engine_op" where
  "place_run e now p taskRun =
     (case tr_delayUntil taskRun of
        Some delayUntil \<Rightarrow> (\<lambda>st. (Inr taskRun, scheduleDelayedRunEnqueuing e now (tr_id taskRun) delayUntil st))
      | None \<Rightarrow>
          then_do (\<lambda>st. (Inr (), case nonempty (tr_ttl taskRun) of None \<Rightarrow> st | Some ttl \<Rightarrow> scheduleExpireRun e now (tr_id taskRun) ttl st)) (\<lambda>_.
          then_do (enqueueRun e now taskRun (tp_environment p) ES_QUEUED None None None [] (tp_workerId p) (tp_runnerId p)) (\<lambda>_.
            return taskRun)))"

definition trigger :: "('d, 'q, 'j) engine_deps \<Rightarrow> time \<Rightarrow> string \<Rightarrow> string \<Rightarrow> trigger_params \<Rightarrow> ('d, 'q, 'j, task_run) engine_op" where
  "trigger e now waitpointId nano p =
     then_do (create_run e now waitpointId nano p) (\<lambda>taskRun.
     then_do
       (case nonempty (tp_parentTaskRunId p) of
          Some parent \<Rightarrow>
            if tp_resumeParentOnCompletion p
            then then_do (blockRunWithWaitpoint e now parent [waitpointId] (en_organizationId (tp_environment p)) None None (tp_batch p)
              (tp_workerId p) (tp_runnerId p)) (\<lambda>_. return ())
            else return ()
        | None \<Rightarrow> return ()) (\<lambda>_.
     place_run e now p taskRun))"

text \<open>A batch that a run waits for; \<open>None\<close> when the batch already has its waitpoint.\<close>

definition blockRunWithCreatedBatch ::
    "('d, 'q, 'j) engine_deps \<Rightarrow> time \<Rightarrow> string \<Rightarrow> string \<Rightarrow> string \<Rightarrow> string \<Rightarrow> string \<Rightarrow> string \<Rightarrow> ('d, 'q, 'j, waitpoint option) engine_op" where
  "blockRunWithCreatedBatch e now newId runId batchId environmentId projectId organizationId st =
     (let w = (buildRunAssociatedWaitpoint newId batchId environmentId projectId)\<lparr>wp_type := WP_BATCH, wp_completedByBatchId := Some batchId\<rparr>
      in if wp_select (e_db e) (\<lambda>x. wp_id x = newId \<or> wp_environmentId x = environmentId \<and> wp_idempotencyKey x = batchId) (es_db st) \<noteq> []
         then (Inr None, st)
         else then_do (blockRunWithWaitpoint e now runId [newId] organizationId None None (Some (batchId, None)) None None)
           (\<lambda>_. return (Some w)) (on_db (wp_put (e_db e) w) st))"

subsection \<open>The handlers of the jobs\<close>

record job_config =
  jc_random :: rat
  jc_stallsAsOOM :: bool
  jc_message :: string
  jc_suspendedRetries :: "suspended_retries option"
  jc_maxCount :: nat
  jc_freshId :: string
  jc_worker :: "string \<Rightarrow> background_worker option"

definition run_job :: "('d, 'q, 'j) engine_deps \<Rightarrow> time \<Rightarrow> job_config \<Rightarrow> engine_job \<Rightarrow> ('d, 'q, 'j, unit) engine_op" where
  "run_job e now c job =
     (case job of
        FinishWaitpoint i err \<Rightarrow>
          then_do (completeWaitpoint e now i (map_option (\<lambda>x. \<lparr>wo_value = x, wo_type = None, wo_isError = True\<rparr>) (nonempty err))) (\<lambda>_. return ())
      | HeartbeatSnapshot r s attempt \<Rightarrow>
          handleStalledSnapshot e (jc_random c) now (jc_stallsAsOOM c) (jc_message c) (jc_suspendedRetries c) r s attempt
      | RepairSnapshot r s status \<Rightarrow> handleRepairSnapshot e now r s
      | ExpireRun r \<Rightarrow> then_do (expireRun e now r) (\<lambda>_. return ())
      | CancelRun r completedAt reason \<Rightarrow> then_do (cancelRun e now r None None completedAt reason False None) (\<lambda>_. return ())
      | QueueRunsPendingVersion w \<Rightarrow> enqueueRunsForBackgroundWorker e now (jc_maxCount c) (jc_freshId c) (jc_worker c w)
      | TryCompleteBatch b \<Rightarrow> tryCompleteBatch e now b
      | ContinueRunIfUnblocked r \<Rightarrow> then_do (continueRunIfUnblocked e now r) (\<lambda>_. return ())
      | EnqueueDelayedRun r \<Rightarrow> enqueueDelayedRun e now r)"

end
