(* ===== verification/Engine_Dequeue.thy ===== *)
theory Engine_Dequeue
  imports Engine_Attempts
begin

text \<open>
  Dequeueing a run (\<open>engine/systems/dequeueSystem.ts\<close>): a message is taken from a worker queue, and under the lock of the run
  the run is locked to a version of its task, or waits for a version, or goes back into the queue. The tables of
  workers, tasks, queues and deployments, which are only read, are a record of the queries. The rest of the answer to
  the worker (image, checkpoint, placement tags, billing) is left out.
\<close>

subsection \<open>Versions\<close>

record task_row =
  tk_id :: string
  tk_slug :: string
  tk_retryConfig :: "retry_json option"
  tk_machineConfig :: "machine_config option"
  tk_maxDurationInSeconds :: "int option"

record queue_row =
  tq_id :: string
  tq_name :: string

record worker_row =
  bk_id :: string
  bk_tasks :: "task_row list"
  bk_queues :: "queue_row list"

record deployment_row =
  dp_imageReference :: "string option"
  dp_managed :: bool
  dp_worker :: "worker_row option"

text \<open>A worker by its id with its deployment, the last worker and the promoted and the last managed deployment of an
  environment, whether an environment is archived, and whether a task was ever registered.\<close>

record deployments =
  dy_worker :: "string \<Rightarrow> (worker_row \<times> deployment_row option) option"
  dy_lastWorker :: "string \<Rightarrow> worker_row option"
  dy_promoted :: "string \<Rightarrow> deployment_row option"
  dy_lastManaged :: "string \<Rightarrow> deployment_row option"
  dy_archived :: "string \<Rightarrow> bool"
  dy_registered :: "string \<Rightarrow> string \<Rightarrow> string \<Rightarrow> bool"

definition getMostRecentWorker :: "deployments \<Rightarrow> string \<Rightarrow> (worker_row \<times> deployment_row option) option" where
  "getMostRecentWorker dy environmentId = map_option (\<lambda>w. (w, None)) (dy_lastWorker dy environmentId)"

definition getManagedWorkerFromCurrentlyPromotedDeployment :: "deployments \<Rightarrow> string \<Rightarrow> (worker_row \<times> deployment_row option) option" where
  "getManagedWorkerFromCurrentlyPromotedDeployment dy environmentId =
     (case dy_promoted dy environmentId of
        None \<Rightarrow> None
      | Some promotion \<Rightarrow>
          (case dp_worker promotion of
             None \<Rightarrow> None
           | Some w \<Rightarrow>
               if dp_managed promotion then Some (w, Some promotion)
               else case dy_lastManaged dy environmentId of
                      None \<Rightarrow> None
                    | Some deployment \<Rightarrow> map_option (\<lambda>w. (w, Some deployment)) (dp_worker deployment)))"

datatype version_result =
    NoRun
  | EnvironmentArchived
  | NoWorker
  | TaskNotInLatest
  | TaskNeverRegistered
  | QueueNotFound
  | WorkerMismatch
  | Version task_run worker_row task_row queue_row "deployment_row option"

definition find_worker :: "deployments \<Rightarrow> task_run \<Rightarrow> string option \<Rightarrow> (worker_row \<times> deployment_row option) option" where
  "find_worker dy run backgroundWorkerId =
     (let workerId = (case tr_lockedToVersionId run of None \<Rightarrow> backgroundWorkerId | Some v \<Rightarrow> Some v)
      in case nonempty workerId of
           Some w \<Rightarrow> dy_worker dy w
         | None \<Rightarrow>
             if en_type (tr_environment run) = DEVELOPMENT then getMostRecentWorker dy (en_id (tr_environment run))
             else getManagedWorkerFromCurrentlyPromotedDeployment dy (en_id (tr_environment run)))"

definition getRunWithBackgroundWorkerTasks :: "deployments \<Rightarrow> task_run option \<Rightarrow> string option \<Rightarrow> version_result" where
  "getRunWithBackgroundWorkerTasks dy row backgroundWorkerId =
     (case row of
        None \<Rightarrow> NoRun
      | Some run \<Rightarrow>
          if dy_archived dy (en_id (tr_environment run)) then EnvironmentArchived
          else
            (case find_worker dy run backgroundWorkerId of
               None \<Rightarrow> NoWorker
             | Some (worker, deployment) \<Rightarrow>
                 if nonempty backgroundWorkerId \<noteq> None \<and> backgroundWorkerId \<noteq> Some (bk_id worker) then WorkerMismatch
                 else
                   (case find (\<lambda>task. tk_slug task = tr_taskIdentifier run) (bk_tasks worker) of
                      None \<Rightarrow>
                        if dy_registered dy (tr_taskIdentifier run) (en_projectId (tr_environment run)) (en_id (tr_environment run))
                        then TaskNotInLatest else TaskNeverRegistered
                    | Some task \<Rightarrow>
                        (case find (\<lambda>q. case nonempty (tr_lockedQueueId run) of Some i \<Rightarrow> tq_id q = i | None \<Rightarrow> tq_name q = tr_queue run)
                             (bk_queues worker) of
                           None \<Rightarrow> QueueNotFound
                         | Some q \<Rightarrow> Version run worker task q deployment))))"

subsection \<open>Locking a run to a version\<close>

definition MAXIMUM_MAX_DURATION :: int where
  "MAXIMUM_MAX_DURATION = 2147483647"

definition getMaxDuration :: "int option \<Rightarrow> int option \<Rightarrow> int option" where
  "getMaxDuration maxDuration defaultMaxDuration =
     (case nonzero maxDuration of
        None \<Rightarrow> defaultMaxDuration
      | Some d \<Rightarrow> if d = MAXIMUM_MAX_DURATION then None else Some d)"

definition machine_string :: "machine_name \<Rightarrow> string" where
  "machine_string name =
     (case name of micro \<Rightarrow> ''micro'' | small_1x \<Rightarrow> ''small-1x'' | small_2x \<Rightarrow> ''small-2x'' | medium_1x \<Rightarrow> ''medium-1x''
        | medium_2x \<Rightarrow> ''medium-2x'' | large_1x \<Rightarrow> ''large-1x'' | large_2x \<Rightarrow> ''large-2x'')"

lemma parse_machine_string [simp]: "parse_machine (machine_string name) = Some name"
  by (cases name) (simp_all add: parse_machine_def machine_string_def)

definition retry_present :: "retry_json option \<Rightarrow> bool" where
  "retry_present config \<longleftrightarrow> config \<noteq> None \<and> config \<noteq> Some NullRetry"

text \<open>The maximum of the run, otherwise that of the retry configuration of its task.\<close>

definition run_max_attempts :: "task_run \<Rightarrow> task_row \<Rightarrow> int option" where
  "run_max_attempts run task =
     (case nonzero (tr_maxAttempts run) of
        Some n \<Rightarrow> Some n
      | None \<Rightarrow> (case tk_retryConfig task of Some (ValidRetry opts machine) \<Rightarrow> maxAttempts opts | _ \<Rightarrow> None))"

text \<open>The update of the row; a column that gets no value stays as it is.\<close>

definition locked_row ::
    "time \<Rightarrow> machine_preset option \<Rightarrow> worker_row \<Rightarrow> task_row \<Rightarrow> queue_row \<Rightarrow> task_run \<Rightarrow> task_run \<Rightarrow> task_run" where
  "locked_row now machine worker task q run r = r\<lparr>
     tr_lockedAt := Some now, tr_lockedById := Some (tk_id task), tr_lockedToVersionId := Some (bk_id worker), tr_lockedQueueId := Some (tq_id q),
     tr_retryConfig := (if \<not> retry_present (tr_retryConfig run) \<and> retry_present (tk_retryConfig task) then tk_retryConfig task else tr_retryConfig r),
     tr_status := RS_DEQUEUED, tr_startedAt := Some (with_default (tr_startedAt run) now),
     tr_machinePreset := (case machine of None \<Rightarrow> tr_machinePreset r | Some m \<Rightarrow> Some (machine_string (mp_name m))),
     tr_maxDurationInSeconds := (case getMaxDuration (tr_maxDurationInSeconds run) (tk_maxDurationInSeconds task) of
        None \<Rightarrow> tr_maxDurationInSeconds r | Some d \<Rightarrow> Some d),
     tr_maxAttempts := (case run_max_attempts run task of None \<Rightarrow> tr_maxAttempts r | Some n \<Rightarrow> Some n)\<rparr>"

subsection \<open>Dequeueing\<close>

definition pendingVersion :: "('d, 'q, 'j) engine_deps \<Rightarrow> time \<Rightarrow> string \<Rightarrow> string \<Rightarrow> ('d, 'q, 'j, unit) engine_op" where
  "pendingVersion e now orgId runId =
     then_do (update_run e runId (\<lambda>r. r\<lparr>tr_status := RS_PENDING_VERSION\<rparr>)) (\<lambda>run.
     then_do (createExecutionSnapshot e now (snapshot_row runId (tr_status run) (tr_attemptNumber run) ES_RUN_CREATED None None
         (tr_environment run) None None None [] None)) (\<lambda>_.
       on_queue (q_ack (e_queue e) now orgId runId False)))"

text \<open>The run that a worker gets: its snapshot and the number of the next attempt.\<close>

type_synonym dequeued_run = "(snapshot \<times> int) option"

definition lock_version ::
    "('d, 'q, 'j) engine_deps \<Rightarrow> time \<Rightarrow> string \<Rightarrow> string option \<Rightarrow> string option \<Rightarrow> snapshot \<Rightarrow> task_run \<Rightarrow> worker_row \<Rightarrow> task_row \<Rightarrow> queue_row \<Rightarrow>
     ('d, 'q, 'j, dequeued_run) engine_op" where
  "lock_version e now runId workerId runnerId snapshot run worker task q =
     then_do (update_run e runId (locked_row now (getMachinePreset (e_defaultMachine e) (e_machines e) (tk_machineConfig task) (tr_machinePreset run))
         worker task q run)) (\<lambda>lockedTaskRun.
     then_do (createExecutionSnapshot e now (snapshot_row runId (tr_status lockedTaskRun) (tr_attemptNumber lockedTaskRun) ES_PENDING_EXECUTING
         (Some (sn_id snapshot)) (sn_batchId snapshot) (sn_environment snapshot) (sn_checkpointId snapshot) workerId runnerId
         (enhanced_waitpoints snapshot) None)) (\<lambda>newSnapshot.
       return (Some (newSnapshot, with_default (tr_attemptNumber lockedTaskRun) 0 + 1))))"

definition dequeue_locked ::
    "('d, 'q, 'j) engine_deps \<Rightarrow> deployments \<Rightarrow> rat \<Rightarrow> time \<Rightarrow> string option \<Rightarrow> string option \<Rightarrow> string option \<Rightarrow> string \<Rightarrow> string \<Rightarrow>
     ('d, 'q, 'j, dequeued_run) engine_op" where
  "dequeue_locked e dy rnd now backgroundWorkerId workerId runnerId orgId runId =
     (let ack = then_do (on_queue (q_ack (e_queue e) now orgId runId False)) (\<lambda>_. return None);
          wait = then_do (pendingVersion e now orgId runId) (\<lambda>_. return None)
      in then_do (getLatestExecutionSnapshot e runId) (\<lambda>snapshot.
         if \<not> isDequeueableExecutionStatus (sn_executionStatus snapshot)
         then if sn_executionStatus snapshot = ES_PENDING_EXECUTING then ack
           else
             then_do (createExecutionSnapshot e now (snapshot_row (sn_runId snapshot) (sn_runStatus snapshot) None (sn_executionStatus snapshot)
                 (Some (sn_id snapshot)) None (sn_environment snapshot) (sn_checkpointId snapshot) workerId runnerId (enhanced_waitpoints snapshot)
                 (Some ''Tried to dequeue a run that is not in a valid state to be dequeued.''))) (\<lambda>_.
             then_do (systemFailure e rnd now runId (InternalError TASK_DEQUEUED_INVALID_STATE
                 (Some (''Task was in the '' @ exec_status_string (sn_executionStatus snapshot) @ '' state when it was dequeued for execution.'')) None)) (\<lambda>_.
               return None))
         else if sn_executionStatus snapshot = ES_QUEUED_EXECUTING
         then
           then_do (createExecutionSnapshot e now (snapshot_row runId (sn_runStatus snapshot) (sn_attemptNumber snapshot) ES_EXECUTING
               (Some (sn_id snapshot)) (sn_batchId snapshot) (sn_environment snapshot) None None None (enhanced_waitpoints snapshot) None)) (\<lambda>_.
             return None)
         else (\<lambda>st.
           case getRunWithBackgroundWorkerTasks dy (run_get (e_db e) runId (es_db st)) backgroundWorkerId of
             NoRun \<Rightarrow> ack st
           | EnvironmentArchived \<Rightarrow> ack st
           | WorkerMismatch \<Rightarrow> then_do (nack e now orgId runId None) (\<lambda>_. return None) st
           | Version run worker task q deployment \<Rightarrow>
               if en_type (tr_environment run) \<noteq> DEVELOPMENT
                 \<and> (case deployment of None \<Rightarrow> True | Some d \<Rightarrow> nonempty (dp_imageReference d) = None)
               then wait st
               else lock_version e now runId workerId runnerId snapshot run worker task q st
           | _ \<Rightarrow> wait st)))"

text \<open>When something throws, the run goes back into the queue.\<close>

definition dequeue_failed ::
    "('d, 'q, 'j) engine_deps \<Rightarrow> rat \<Rightarrow> time \<Rightarrow> string \<Rightarrow> string \<Rightarrow> ('d, 'q, 'j, dequeued_run) engine_op" where
  "dequeue_failed e rnd now orgId runId st =
     (case run_get (e_db e) runId (es_db st) of
        None \<Rightarrow> then_do (nack e now orgId runId None) (\<lambda>_. return None) st
      | Some run \<Rightarrow>
          then_do (tryNackAndRequeue e rnd now runId ((tr_environment run)\<lparr>en_organizationId := orgId\<rparr>) None max_retries_error
            None None None [] None) (\<lambda>_. return None) st)"

definition dequeueFromWorkerQueue ::
    "('d, 'q, 'j) engine_deps \<Rightarrow> deployments \<Rightarrow> rat \<Rightarrow> time \<Rightarrow> string \<Rightarrow> string option \<Rightarrow> string option \<Rightarrow> string option \<Rightarrow>
     ('d, 'q, 'j, dequeued_run) engine_op" where
  "dequeueFromWorkerQueue e dy rnd now workerQueue backgroundWorkerId workerId runnerId st =
     (case q_pop (e_queue e) workerQueue (es_queue st) of
        (Inl err, q) \<Rightarrow> (Inl (QueueFailed err), st\<lparr>es_queue := q\<rparr>)
      | (Inr None, q) \<Rightarrow> (Inr None, st\<lparr>es_queue := q\<rparr>)
      | (Inr (Some message), q) \<Rightarrow>
          (case dequeue_locked e dy rnd now backgroundWorkerId workerId runnerId (p_orgId (m_message message)) (m_messageId message) (st\<lparr>es_queue := q\<rparr>) of
             (Inr result, st) \<Rightarrow> (Inr result, st)
           | (Inl err, st) \<Rightarrow> dequeue_failed e rnd now (p_orgId (m_message message)) (m_messageId message) st))"

end
