(* ===== verification/Engine_Starting.thy ===== *)
theory Engine_Starting
  imports Engine_Outcomes Engine_Trigger Engine_Dequeue
begin

text \<open>
  The beginning of a run: a run that waits for the run it triggers is blocked by it, and a run that is handed to a worker can
  be started.
\<close>

lemma new_run_fields [simp]:
  "tr_id (new_run now p) = tp_runId p" "tr_delayUntil (new_run now p) = tp_delayUntil p" "tr_workerQueue (new_run now p) = tp_workerQueue p"
  by (simp_all add: new_run_def)

lemma version_task:
  assumes "getRunWithBackgroundWorkerTasks dy row bw = Version run worker task q d"
  shows "row = Some run" "task \<in> set (bk_tasks worker)" "tk_slug task = tr_taskIdentifier run" "q \<in> set (bk_queues worker)"
    "\<not> dy_archived dy (en_id (tr_environment run))"
  using assms by (auto simp: getRunWithBackgroundWorkerTasks_def find_Some_iff split: option.splits if_splits)

lemma locked_row_fields [simp]:
  "tr_id (locked_row now machine worker task q run r) = tr_id r" "tr_status (locked_row now machine worker task q run r) = RS_DEQUEUED"
  "tr_lockedById (locked_row now machine worker task q run r) = Some (tk_id task)"
  "tr_lockedToVersionId (locked_row now machine worker task q run r) = Some (bk_id worker)"
  "tr_lockedQueueId (locked_row now machine worker task q run r) = Some (tq_id q)"
  "tr_attemptNumber (locked_row now machine worker task q run r) = tr_attemptNumber r"
  "tr_taskIdentifier (locked_row now machine worker task q run r) = tr_taskIdentifier r"
  by (simp_all add: locked_row_def)

context engine
begin

subsection \<open>Triggering\<close>

text \<open>Blocking a run with one pending waitpoint that blocks nothing yet.\<close>

lemma block_single:
  assumes "blockRunWithWaitpoint e now r [w] org None spanId batch workerId runnerId st = (Inr y, g)"
    and "t_waitpoints (tb st) w = Some v" "\<not> wp_completed v" and "\<And>b. b \<in> t_blocks (tb st) \<Longrightarrow> bl_waitpointId b \<noteq> w"
  obtains b xs where "tb g = (tb st)\<lparr>t_blocks := insert b (t_blocks (tb st)), t_snapshots := xs\<rparr>" "bl_taskRunId b = r" "bl_waitpointId b = w"
    "waiting (tb g) r" "\<And>r'. r' \<noteq> r \<Longrightarrow> latest (tb g) r' = latest (tb st) r'" "es_queue g = es_queue st"
proof -
  obtain x where x: "latest (tb st) r = Some x" using assms(1) by (cases "latest (tb st) r") (auto simp: blockRunWithWaitpoint_def getLatest_latest then_do_def)
  have xr: "sn_runId x = r" using latest_row [OF x] by simp
  define bi where "bi = (case batch of None \<Rightarrow> None | Some (_, i) \<Rightarrow> i)"
  define b0 where "b0 = \<lparr>bl_id = [], bl_taskRunId = r, bl_waitpointId = w, bl_spanIdToComplete = spanId, bl_batchId = map_option fst batch, bl_batchIndex = bi\<rparr>"
  define d where "d = tw_add (e_db e) b0 (es_db st)"
  have "set (tw_select (e_db e) (\<lambda>b. bl_taskRunId b = r \<and> bl_waitpointId b = w \<and> bl_batchIndex b = bi) (es_db st)) = {}"
    unfolding tw_select using assms(4) by auto
  then have none: "tw_select (e_db e) (\<lambda>b. bl_taskRunId b = r \<and> bl_waitpointId b = w \<and> bl_batchIndex b = bi) (es_db st) = []" by simp
  have ins: "insert_blocks e r [w] spanId batch (es_db st) = (1, d)"
    using assms(2,3) none by (simp add: insert_blocks_def block_exists_def Let_def wp_get bi_def [symmetric] d_def b0_def)
  obtain i where i: "tables d = (tb st)\<lparr>t_blocks := insert (b0\<lparr>bl_id := i\<rparr>) (t_blocks (tb st))\<rparr>" using tw_add [of "es_db st" b0] d_def by auto
  define ns where "ns = (if sn_executionStatus x = ES_EXECUTING \<or> sn_executionStatus x = ES_EXECUTING_WITH_WAITPOINTS then ES_EXECUTING_WITH_WAITPOINTS else ES_SUSPENDED)"
  define row where "row = snapshot_row (sn_runId x) (sn_runStatus x) (sn_attemptNumber x) ns
    (Some (sn_id x)) (map_option fst batch) ((sn_environment x)\<lparr>en_organizationId := org\<rparr>) None workerId runnerId [] None"
  have c: "(if ns \<noteq> sn_executionStatus x then createExecutionSnapshot e now row else return x) (st\<lparr>es_db := d\<rparr>) = (Inr y, g)"
    using assms(1) by (auto simp: blockRunWithWaitpoint_def then_do_def getLatest_latest x ins ns_def row_def split: prod.splits sum.splits)
  have "\<exists>xs. tb g = (tables d)\<lparr>t_snapshots := xs\<rparr> \<and> waiting (tb g) r \<and> (\<forall>r'. r' \<noteq> r \<longrightarrow> latest (tb g) r' = latest (tables d) r') \<and> es_queue g = es_queue st"
  proof (cases "ns = sn_executionStatus x")
    case True
    then have g: "g = st\<lparr>es_db := d\<rparr>" using c by (simp add: return_def)
    have "waiting (tb g) r" using x True by (auto simp: g i waiting_def waits_def ns_def split: if_splits)
    then show ?thesis by (auto simp: g intro!: exI [of _ "t_snapshots (tables d)"])
  next
    case False
    then have "createExecutionSnapshot e now row (st\<lparr>es_db := d\<rparr>) = (Inr y, g)" using c by simp
    then obtain y' j where y: "y' = row\<lparr>sn_id := j\<rparr>" "tb g = (tables d)\<lparr>t_snapshots := y' # t_snapshots (tables d)\<rparr>" "es_queue g = es_queue st"
      by (rule createExecutionSnapshot_effect) auto
    have "sn_isValid y'" "sn_runId y' = r" "waits (sn_executionStatus y')"
      by (simp_all add: y(1) row_def snapshot_row_def xr waits_def ns_def)
    then show ?thesis using y(2,3) by (auto simp: latest_cons waiting_cons)
  qed
  then show thesis using that [where b = "b0\<lparr>bl_id := i\<rparr>"] by (auto simp: i b0_def)
qed

lemma create_run_effect:
  assumes "create_run e now w nano p st = (Inr run, g)" and ok: "rows_ok (tb st)"
  shows "run = new_run now p" "rows_ok (tb g)" "t_runs (tb g) = (t_runs (tb st))(tp_runId p \<mapsto> run)" "t_runs (tb st) (tp_runId p) = None"
    "\<exists>v. t_waitpoints (tb g) w = Some v \<and> \<not> wp_completed v \<and> wp_completedByTaskRunId v = Some (tp_runId p)"
    "t_blocks (tb g) = t_blocks (tb st)" "es_queue g = es_queue st" "es_jobs g = es_jobs st" "t_waitpoints (tb g) = (t_waitpoints (tb st))(w := t_waitpoints (tb g) w)"
    "\<And>r. r \<noteq> tp_runId p \<Longrightarrow> latest (tb g) r = latest (tb st) r" "t_waitpoints (tb st) w = None"
proof -
  define row where "row = snapshot_row (tp_runId p) (trigger_status p) None (if tp_delayUntil p = None then ES_RUN_CREATED else ES_DELAYED) None None
    (tp_environment p) None (tp_workerId p) (tp_runnerId p) [] None"
  define v where "v = (buildRunAssociatedWaitpoint w nano (en_id (tp_environment p)) (en_projectId (tp_environment p)))\<lparr>wp_completedByTaskRunId := Some (tp_runId p)\<rparr>"
  have r: "run = new_run now p" "run_select (e_db e) (run_conflict run) (es_db st) = []"
      "wp_select (e_db e) (\<lambda>x. wp_id x = w \<or> wp_environmentId x = en_id (tp_environment p) \<and> wp_idempotencyKey x = nano) (es_db st) = []"
      "g = on_db (\<lambda>d. wp_put (e_db e) v (snd (snap_add (e_db e) row (run_put (e_db e) run d)))) st"
    using assms(1) by (auto simp: create_run_def Let_def row_def v_def split: if_splits)
  show "run = new_run now p" by (rule r(1))
  have "set (wp_select (e_db e) (\<lambda>x. wp_id x = w \<or> wp_environmentId x = en_id (tp_environment p) \<and> wp_idempotencyKey x = nano) (es_db st)) = {}"
    by (simp add: r(3))
  then show new: "t_waitpoints (tb st) w = None" using ok unfolding wp_select by (cases "t_waitpoints (tb st) w") (auto simp: rows_ok_def)
  obtain i where i: "fst (snap_add (e_db e) row (run_put (e_db e) run (es_db st))) = row\<lparr>sn_id := i\<rparr>" using snap_add(1) by blast
  have wv: "wp_id v = w" by (simp add: v_def buildRunAssociatedWaitpoint_def)
  have tb: "tb g = (tb st)\<lparr>t_runs := (t_runs (tb st))(tp_runId p \<mapsto> run), t_snapshots := row\<lparr>sn_id := i\<rparr> # t_snapshots (tb st),
      t_waitpoints := (t_waitpoints (tb st))(w \<mapsto> v)\<rparr>"
    by (simp add: r(4) on_db_def wp_put snap_add(2) run_put i [unfolded r(1)] r(1) wv)
  show "t_runs (tb g) = (t_runs (tb st))(tp_runId p \<mapsto> run)" "t_blocks (tb g) = t_blocks (tb st)"
    "t_waitpoints (tb g) = (t_waitpoints (tb st))(w := t_waitpoints (tb g) w)" by (simp_all add: tb)
  show "es_queue g = es_queue st" "es_jobs g = es_jobs st" by (simp_all add: r(4) on_db_def)
  show "\<exists>v. t_waitpoints (tb g) w = Some v \<and> \<not> wp_completed v \<and> wp_completedByTaskRunId v = Some (tp_runId p)"
    by (simp add: tb) (simp add: v_def buildRunAssociatedWaitpoint_def)
  show "rows_ok (tb g)" using ok new by (auto simp: tb rows_ok_def wv r(1))
  show "latest (tb g) r = latest (tb st) r" if "r \<noteq> tp_runId p" for r
    using that by (simp add: tb latest_def row_def snapshot_row_def)
  show "t_runs (tb st) (tp_runId p) = None"
  proof (rule ccontr)
    assume "t_runs (tb st) (tp_runId p) \<noteq> None"
    then obtain r' where r': "t_runs (tb st) (tp_runId p) = Some r'" by blast
    then have "tr_id r' = tp_runId p" using ok by (simp add: rows_ok_def)
    then have "run_conflict run r'" by (simp add: run_conflict_def r(1))
    then show False using run_select [of "run_conflict run" "es_db st"] r(2) r' by auto
  qed
qed

lemma enqueueRun_queue:
  assumes "enqueueRun e now run env status previousSnapshotId batchId checkpointId ws wk rn st = (Inr y, g)"
  shows "q_enqueue (e_queue e) now (queue_env env) (run_message run env)
    (if en_type env = DEVELOPMENT then en_id env else tr_workerQueue run) (es_queue st) = Inr (es_queue g)"
proof -
  let ?row = "snapshot_row (tr_id run) (tr_status run) (tr_attemptNumber run) status previousSnapshotId batchId env checkpointId wk rn ws None"
  obtain r1 st1 where c: "createExecutionSnapshot e now ?row st = (r1, st1)" by fastforce
  then have "es_queue st1 = es_queue st" "\<exists>x. r1 = Inr x" by (auto elim: createExecutionSnapshot_effect)
  then show ?thesis using assms by (auto simp: enqueueRun_def then_do_def c on_queue_def return_def split: sum.splits)
qed

lemma place_run_effect:
  assumes "place_run e now p run st = (Inr run', g)"
  obtains (queued) x where "tr_delayUntil run = None" "sn_runId x = tr_id run" "sn_isValid x" "tb g = (tb st)\<lparr>t_snapshots := x # t_snapshots (tb st)\<rparr>"
      "q_enqueue (e_queue e) now (queue_env (tp_environment p)) (run_message run (tp_environment p))
        (if en_type (tp_environment p) = DEVELOPMENT then en_id (tp_environment p) else tr_workerQueue run) (es_queue st) = Inr (es_queue g)"
    | (delayed) t where "tr_delayUntil run = Some t" "es_db g = es_db st"
      "es_jobs g = w_enqueue (e_worker e) now (delayed_id (tr_id run)) (EnqueueDelayedRun (tr_id run)) t (es_jobs st)"
proof (cases "tr_delayUntil run")
  case None
  obtain st1 y where st1: "enqueueRun e now run (tp_environment p) ES_QUEUED None None None [] (tp_workerId p) (tp_runnerId p) st1 = (Inr y, g)"
      "es_db st1 = es_db st" "es_queue st1 = es_queue st"
    using assms by (auto simp: place_run_def None return_def scheduleExpireRun_def enqueue_job_def elim!: then_do_Inr split: option.splits)
  obtain x where x: "sn_runId x = tr_id run" "sn_isValid x" "tb g = (tb st1)\<lparr>t_snapshots := x # t_snapshots (tb st1)\<rparr>"
    by (rule enqueueRun_effect [OF st1(1)])
  show thesis using x enqueueRun_queue [OF st1(1)] unfolding st1(2,3) by (rule queued [OF None])
next
  case (Some t)
  then have "g = scheduleDelayedRunEnqueuing e now (tr_id run) t st" using assms by (auto simp: place_run_def)
  then show thesis by (intro delayed [OF Some]) (simp_all add: scheduleDelayedRunEnqueuing_def enqueue_job_def)
qed

text \<open>The new run, the run that waits for it, and where the new run goes.\<close>

lemma trigger_effect:
  assumes "trigger e now w nano p st = (Inr run, g)" and ok: "rows_ok (tb st)"
    and parent: "tp_parentTaskRunId p = Some parent" "parent \<noteq> []" "tp_resumeParentOnCompletion p" "parent \<noteq> tp_runId p"
  shows "t_runs (tb g) (tp_runId p) = Some (new_run now p)" "waiting (tb g) parent"
    "\<exists>b v. b \<in> blocks_of (tb g) parent \<and> bl_waitpointId b = w \<and> t_waitpoints (tb g) w = Some v \<and> \<not> wp_completed v
       \<and> wp_completedByTaskRunId v = Some (tp_runId p)"
    "tp_delayUntil p = None \<Longrightarrow> q_enqueue (e_queue e) now (queue_env (tp_environment p)) (run_message (new_run now p) (tp_environment p))
       (if en_type (tp_environment p) = DEVELOPMENT then en_id (tp_environment p) else tp_workerQueue p) (es_queue st) = Inr (es_queue g)"
    "tp_delayUntil p = Some t \<Longrightarrow> \<exists>j. es_jobs g = w_enqueue (e_worker e) now (delayed_id (tp_runId p)) (EnqueueDelayedRun (tp_runId p)) t j"
proof -
  let ?blk = "blockRunWithWaitpoint e now parent [w] (en_organizationId (tp_environment p)) None None (tp_batch p) (tp_workerId p) (tp_runnerId p)"
  have "trigger e now w nano p = then_do (create_run e now w nano p) (\<lambda>taskRun. then_do (then_do ?blk (\<lambda>_. return ())) (\<lambda>_. place_run e now p taskRun))"
    using parent(1-3) by (cases parent) (simp_all add: trigger_def nonempty_def)
  then obtain run0 st1 y st2 where c: "create_run e now w nano p st = (Inr run0, st1)" and b: "?blk st1 = (Inr y, st2)" and l: "place_run e now p run0 st2 = (Inr run, g)"
    using assms(1) by (auto elim!: then_do_Inr simp: return_def)
  note cr = create_run_effect [OF c ok]
  obtain v where v: "t_waitpoints (tb st1) w = Some v" "\<not> wp_completed v" "wp_completedByTaskRunId v = Some (tp_runId p)" using cr(5) by blast
  have unused: "bl_waitpointId b \<noteq> w" if "b \<in> t_blocks (tb st1)" for b using that ok cr(11) by (auto simp: cr(6) rows_ok_def)
  obtain b' xs where b': "tb st2 = (tb st1)\<lparr>t_blocks := insert b' (t_blocks (tb st1)), t_snapshots := xs\<rparr>" "bl_taskRunId b' = parent" "bl_waitpointId b' = w"
      "waiting (tb st2) parent" "es_queue st2 = es_queue st1"
    by (rule block_single [OF b v(1,2) unused])
  have other: "parent \<noteq> tr_id run0" using parent(4) by (simp add: cr(1))
  obtain ys where g: "tb g = (tb st2)\<lparr>t_snapshots := ys\<rparr>" "waiting (tb g) parent"
    using l
  proof (cases rule: place_run_effect)
    case (queued x)
    then show thesis using b'(4) other by (intro that [OF queued(4)]) (simp add: waiting_cons)
  next
    case (delayed t)
    then show thesis using b'(4) by (intro that [of "t_snapshots (tb st2)"]) simp_all
  qed
  show "t_runs (tb g) (tp_runId p) = Some (new_run now p)" by (simp add: g(1) b'(1) cr(3)) (simp add: cr(1))
  show "waiting (tb g) parent" by (rule g(2))
  show "\<exists>b v. b \<in> blocks_of (tb g) parent \<and> bl_waitpointId b = w \<and> t_waitpoints (tb g) w = Some v \<and> \<not> wp_completed v
       \<and> wp_completedByTaskRunId v = Some (tp_runId p)"
    using v b'(2,3) by (intro exI [of _ b'] exI [of _ v]) (simp add: g(1) b'(1) blocks_of_def)
  show "q_enqueue (e_queue e) now (queue_env (tp_environment p)) (run_message (new_run now p) (tp_environment p))
       (if en_type (tp_environment p) = DEVELOPMENT then en_id (tp_environment p) else tp_workerQueue p) (es_queue st) = Inr (es_queue g)" if "tp_delayUntil p = None"
    using l
    by (cases rule: place_run_effect) (use that in \<open>simp_all add: cr(1) b'(5) cr(7) split del: if_split cong: if_cong\<close>)
  show "\<exists>j. es_jobs g = w_enqueue (e_worker e) now (delayed_id (tp_runId p)) (EnqueueDelayedRun (tp_runId p)) t j" if "tp_delayUntil p = Some t"
    using l by (cases rule: place_run_effect) (use that in \<open>auto simp: cr(1)\<close>)
qed

subsection \<open>Dequeueing\<close>

lemma dequeue_failed_none: "dequeue_failed e rnd now org r st \<noteq> (Inr (Some z), g)"
  by (auto simp: dequeue_failed_def return_def elim!: then_do_Inr split: option.splits)

text \<open>A run is only handed to a worker after it was queued, locked to a version of its task.\<close>

lemma dequeue_locked_effect:
  assumes "dequeue_locked e dy rnd now bw wk rn org r st = (Inr (Some (y, n)), g)"
  obtains x run worker task q d where "latest (tb st) r = Some x" "sn_executionStatus x = ES_QUEUED"
    "getRunWithBackgroundWorkerTasks dy (t_runs (tb st) r) bw = Version run worker task q d"
    "lock_version e now r wk rn x run worker task q st = (Inr (Some (y, n)), g)"
proof -
  obtain x where x: "latest (tb st) r = Some x"
    using assms by (cases "latest (tb st) r") (auto simp: dequeue_locked_def Let_def then_do_def getLatest_latest)
  note u = assms [unfolded dequeue_locked_def Let_def then_do_def [of "getLatestExecutionSnapshot e r"] getLatest_latest x, simplified]
  have q: "sn_executionStatus x = ES_QUEUED"
    using u by (auto simp: isDequeueableExecutionStatus_def return_def elim!: then_do_Inr split: if_splits)
  then show thesis
    using u that [OF x q]
    by (auto simp: isDequeueableExecutionStatus_def return_def run_get elim!: then_do_Inr split: if_splits version_result.splits option.splits)
qed

lemma lock_version_effect:
  assumes "lock_version e now r wk rn x run worker task q st = (Inr (Some (y, n)), g)" and "rows_ok (tb st)" and "t_runs (tb st) r = Some run"
  shows "rows_ok (tb g)" "latest (tb g) r = Some y" "sn_executionStatus y = ES_PENDING_EXECUTING" "sn_runId y = r"
    "t_runs (tb g) r = Some (locked_row now (getMachinePreset (e_defaultMachine e) (e_machines e) (tk_machineConfig task) (tr_machinePreset run)) worker task q run run)"
    "n = with_default (tr_attemptNumber run) 0 + 1"
proof -
  let ?f = "locked_row now (getMachinePreset (e_defaultMachine e) (e_machines e) (tk_machineConfig task) (tr_machinePreset run)) worker task q run"
  obtain locked st1 where u: "update_run e r ?f st = (Inr locked, st1)"
    and c: "createExecutionSnapshot e now (snapshot_row r (tr_status locked) (tr_attemptNumber locked) ES_PENDING_EXECUTING (Some (sn_id x)) (sn_batchId x)
      (sn_environment x) (sn_checkpointId x) wk rn (enhanced_waitpoints x) None) st1 = (Inr y, g)"
    and n: "n = with_default (tr_attemptNumber locked) 0 + 1"
    using assms(1) by (auto simp: lock_version_def return_def elim!: then_do_Inr)
  note ue = update_run_effect [OF u assms(2) locked_row_fields(1)]
  have l: "locked = ?f run" using ue(5) assms(3) by simp
  from c obtain i where y: "y = (snapshot_row r (tr_status locked) (tr_attemptNumber locked) ES_PENDING_EXECUTING (Some (sn_id x)) (sn_batchId x)
      (sn_environment x) (sn_checkpointId x) wk rn (enhanced_waitpoints x) None)\<lparr>sn_id := i\<rparr>" "tb g = (tb st1)\<lparr>t_snapshots := y # t_snapshots (tb st1)\<rparr>"
    by (rule createExecutionSnapshot_effect) simp
  have v: "sn_isValid y" "sn_runId y = r" "sn_executionStatus y = ES_PENDING_EXECUTING" by (simp_all add: y(1) snapshot_row_def)
  show "sn_executionStatus y = ES_PENDING_EXECUTING" "sn_runId y = r" by (rule v)+
  show "rows_ok (tb g)" using ue(3) by (simp add: y(2) rows_ok_def)
  show "latest (tb g) r = Some y" using v by (simp add: y(2) latest_cons)
  show "t_runs (tb g) r = Some (?f run)" by (simp add: y(2) ue(1) l)
  show "n = with_default (tr_attemptNumber run) 0 + 1" by (simp add: n l)
qed

lemma lock_version_succeeds:
  assumes "t_runs (tb st) r = Some run"
  shows "\<exists>y n g. lock_version e now r wk rn x run worker task q st = (Inr (Some (y, n)), g)"
proof -
  let ?m = "getMachinePreset (e_defaultMachine e) (e_machines e) (tk_machineConfig task) (tr_machinePreset run)"
  obtain locked st1 where u: "update_run e r (locked_row now ?m worker task q run) st = (Inr locked, st1)"
    using assms by (simp add: update_run_def run_get)
  let ?row = "snapshot_row r (tr_status locked) (tr_attemptNumber locked) ES_PENDING_EXECUTING (Some (sn_id x)) (sn_batchId x)
      (sn_environment x) (sn_checkpointId x) wk rn (enhanced_waitpoints x) None"
  obtain y g where "createExecutionSnapshot e now ?row st1 = (Inr y, g)" by (metis createExecutionSnapshot_effect prod.collapse)
  then show ?thesis using u by (simp add: lock_version_def then_do_def return_def)
qed

lemma dequeue_effect:
  assumes "dequeueFromWorkerQueue e dy rnd now wq bw wk rn st = (Inr (Some (y, n)), g)" and ok: "rows_ok (tb st)"
  shows "\<exists>x run (worker :: worker_row) task. latest (tb st) (sn_runId y) = Some x \<and> sn_executionStatus x = ES_QUEUED
    \<and> latest (tb g) (sn_runId y) = Some y \<and> sn_executionStatus y = ES_PENDING_EXECUTING
    \<and> t_runs (tb g) (sn_runId y) = Some run \<and> tr_status run = RS_DEQUEUED \<and> n = with_default (tr_attemptNumber run) 0 + 1
    \<and> task \<in> set (bk_tasks worker) \<and> tk_slug task = tr_taskIdentifier run \<and> tr_lockedById run = Some (tk_id task)
    \<and> tr_lockedToVersionId run = Some (bk_id worker) \<and> rows_ok (tb g)"
proof -
  obtain m q where "q_pop (e_queue e) wq (es_queue st) = (Inr (Some m), q)" and m: "dequeue_locked e dy rnd now bw wk rn (p_orgId (m_message m)) (m_messageId m) (st\<lparr>es_queue := q\<rparr>) = (Inr (Some (y, n)), g)"
    using assms(1) by (auto simp: dequeueFromWorkerQueue_def dequeue_failed_none split: prod.splits sum.splits option.splits)
  from m obtain x run worker task tq d where d: "latest (tb (st\<lparr>es_queue := q\<rparr>)) (m_messageId m) = Some x" "sn_executionStatus x = ES_QUEUED"
    "getRunWithBackgroundWorkerTasks dy (t_runs (tb (st\<lparr>es_queue := q\<rparr>)) (m_messageId m)) bw = Version run worker task tq d"
    "lock_version e now (m_messageId m) wk rn x run worker task tq (st\<lparr>es_queue := q\<rparr>) = (Inr (Some (y, n)), g)"
    by (rule dequeue_locked_effect)
  have ok': "rows_ok (tb (st\<lparr>es_queue := q\<rparr>))" using ok by simp
  note l = lock_version_effect [OF d(4) ok' version_task(1) [OF d(3)]]
  show ?thesis
    by (rule exI [of _ x], rule exI [of _ "the (t_runs (tb g) (m_messageId m))"], rule exI [of _ worker], rule exI [of _ task], intro conjI, use d(1) in \<open>simp add: l(4)\<close>, rule d(2), use l in \<open>simp_all add: version_task [OF d(3)]\<close>)
qed

text \<open>The worker that gets a run can start it, as the attempt that it is told.\<close>

lemma dequeued_starts:
  assumes "dequeueFromWorkerQueue e dy rnd now wq bw wk rn st = (Inr (Some (y, n)), g)" and "rows_ok (tb st)" and "n \<le> MAX_TASK_RUN_ATTEMPTS"
    and "\<forall>run. t_runs (tb g) (sn_runId y) = Some run \<longrightarrow> tr_lockedById run \<noteq> Some []"
  shows "\<exists>run z h. startRunAttempt e rnd' now' (sn_runId y) (sn_id y) wk' rn' g = (Inr (run, z), h) \<and> tr_status run = RS_EXECUTING \<and> tr_attemptNumber run = Some n"
proof -
  obtain run and task :: task_row where d: "latest (tb g) (sn_runId y) = Some y" "sn_executionStatus y = ES_PENDING_EXECUTING" "t_runs (tb g) (sn_runId y) = Some run"
      "n = with_default (tr_attemptNumber run) 0 + 1" "tr_lockedById run = Some (tk_id task)" "rows_ok (tb g)"
    using dequeue_effect [OF assms(1,2)] by blast
  have "\<not> isFinishedOrPendingFinished (sn_executionStatus y)" by (simp add: d(2) isFinishedOrPendingFinished_def)
  moreover have "nonempty (tr_lockedById run) \<noteq> None" using assms(4) d(3,5) by (cases "tk_id task") (simp_all add: nonempty_def)
  moreover have "with_default (tr_attemptNumber run) 0 < MAX_TASK_RUN_ATTEMPTS" using assms(3) d(4) by simp
  ultimately show ?thesis using attempt_starts [OF d(6,1) _ d(3)] d(4) by metis
qed

end

end
