(* ===== verification/Engine_Start_Properties.thy ===== *)
theory Engine_Start_Properties
  imports Engine_Properties Engine_Starting
begin

text \<open>
  The properties of triggering and dequeueing runs, on every database, run queue and worker that satisfy the interface
  \<open>engine\<close>, with witnesses on the modelled run queue and the reference database.
\<close>

subsection \<open>Triggering\<close>

definition demo_trigger :: trigger_params where
  "demo_trigger = \<lparr>tp_runId = ''run2'', tp_environment = demo_environment, tp_idempotencyKey = None, tp_oneTimeUseToken = None,
     tp_taskIdentifier = ''mail'', tp_lockedToVersionId = None, tp_concurrencyKey = None, tp_workerQueue = ''us'', tp_queue = ''emails'',
     tp_lockedQueueId = None, tp_delayUntil = Some 100, tp_maxAttempts = None, tp_priorityMs = None, tp_queueTimestamp = None,
     tp_ttl = None, tp_parentTaskRunId = Some ''run1'', tp_batch = None, tp_resumeParentOnCompletion = True,
     tp_maxDurationInSeconds = None, tp_machine = None, tp_workerId = None, tp_runnerId = None, tp_createdAt = None\<rparr>"

definition demo_triggered :: "(mem_tables, demo_state, store \<times> nat) engine_state" where
  "demo_triggered = snd (trigger demo_engine 5 ''w9'' ''n9'' demo_trigger (demo_system RS_EXECUTING ES_EXECUTING))"

text \<open>C11. A run that triggers another one and waits for it is blocked by it: when \<open>trigger\<close> succeeds, the new run has its row, the
  parent waits, with a block on the pending waitpoint that the new run completes, and does not count as ready, and the
  new run is in the run queue, or, with a delay, in the job that enqueues it.\<close>

theorem triggered_run_blocks_its_parent:
  assumes "engine e tables jobs used" and "trigger e now w nano p st = (Inr run, g)" and "rows_ok (tables (es_db st))"
    and "tp_parentTaskRunId p = Some parent" and "parent \<noteq> []"
    and "tp_resumeParentOnCompletion p" and "parent \<noteq> tp_runId p"
  shows "t_runs (tables (es_db g)) (tp_runId p) = Some (new_run now p)
    \<and> waiting (tables (es_db g)) parent \<and> \<not> ready (tables (es_db g)) parent
    \<and> (\<exists>b v. b \<in> blocks_of (tables (es_db g)) parent \<and> bl_waitpointId b = w \<and> t_waitpoints (tables (es_db g)) w = Some v
        \<and> \<not> wp_completed v \<and> wp_completedByTaskRunId v = Some (tp_runId p))
    \<and> (case tp_delayUntil p of
         None \<Rightarrow> q_enqueue (e_queue e) now (queue_env (tp_environment p)) (run_message (new_run now p) (tp_environment p))
           (if en_type (tp_environment p) = DEVELOPMENT then en_id (tp_environment p) else tp_workerQueue p) (es_queue st) = Inr (es_queue g)
       | Some t \<Rightarrow> \<exists>j. es_jobs g = w_enqueue (e_worker e) now (delayed_id (tp_runId p)) (EnqueueDelayedRun (tp_runId p)) t j)"
proof -
  note t = engine.trigger_effect [OF assms]
  have "\<not> ready (tables (es_db g)) parent" using t(3) by (fastforce simp: ready_def done_wp_def)
  with t show ?thesis by (cases "tp_delayUntil p") (simp_all split del: if_split)
qed

lemma demo_trigger_succeeds: "\<exists>run. trigger demo_engine 5 ''w9'' ''n9'' demo_trigger (demo_system RS_EXECUTING ES_EXECUTING) = (Inr run, demo_triggered)"
  by (simp add: demo_triggered_def trigger_def create_run_def place_run_def then_do_def Let_def demo_trigger_def new_run_def run_conflict_def demo_system_def
      demo_tables_def demo_run_def mem_db_def on_db_def put_row_def get_row_def snapshot_row_def blockRunWithWaitpoint_def getLatestExecutionSnapshot_def
      insert_blocks_def block_exists_def createExecutionSnapshot_def demo_snapshot_def buildRunAssociatedWaitpoint_def demo_waitpoints_def new_waitpoint_def
      nonempty_def return_def fresh_ids select_rows_def)

theorem triggered_run_blocks_its_parent_witness:
  "\<exists>run. trigger demo_engine 5 ''w9'' ''n9'' demo_trigger (demo_system RS_EXECUTING ES_EXECUTING) = (Inr run, demo_triggered)
    \<and> waiting (mem_view (es_db demo_triggered)) ''run1'' \<and> \<not> ready (mem_view (es_db demo_triggered)) ''run1''"
proof -
  obtain run where run: "trigger demo_engine 5 ''w9'' ''n9'' demo_trigger (demo_system RS_EXECUTING ES_EXECUTING) = (Inr run, demo_triggered)"
    using demo_trigger_succeeds by blast
  have ok: "rows_ok (mem_view (es_db (demo_system RS_EXECUTING ES_EXECUTING)))" using demo_rows by (simp add: demo_system_def)
  show ?thesis
    using triggered_run_blocks_its_parent [OF demo_engine_ok run ok, of "''run1''"] run by (simp add: demo_trigger_def)
qed

subsection \<open>Dequeueing\<close>


definition demo_task_row :: task_row where
  "demo_task_row = \<lparr>tk_id = ''task1'', tk_slug = ''mail'', tk_retryConfig = None, tk_machineConfig = None, tk_maxDurationInSeconds = None\<rparr>"

definition demo_worker_row :: worker_row where
  "demo_worker_row = \<lparr>bk_id = ''v1'', bk_tasks = [demo_task_row], bk_queues = [\<lparr>tq_id = ''q1'', tq_name = ''emails''\<rparr>]\<rparr>"

definition demo_deployments :: deployments where
  "demo_deployments = \<lparr>dy_worker = (\<lambda>_. None), dy_lastWorker = (\<lambda>_. None),
     dy_promoted = (\<lambda>_. Some \<lparr>dp_imageReference = Some ''image'', dp_managed = True,
       dp_worker = Some demo_worker_row\<rparr>),
     dy_lastManaged = (\<lambda>_. None), dy_archived = (\<lambda>_. False), dy_registered = (\<lambda>_ _ _. False)\<rparr>"

text \<open>The worker queue holds the key of the message of the run.\<close>

definition demo_handed :: demo_state where
  "demo_handed = demo_start\<lparr>rq_redis := empty_store
     \<lparr>st_list := (st_list empty_store)(pk demo_opts (workerQueueKey ''us'') := [messageKey ''o1'' ''run1'']),
      st_str := (st_str empty_store)(pk demo_opts (messageKey ''o1'' ''run1'') := Some (put_payload
        (output_of (demo_message ''run1'') (queueKey demo_env ''emails'' None) ''us'')))\<rparr>\<rparr>"

lemma demo_pop:
  "\<exists>q. q_pop (e_queue demo_engine) ''us'' demo_handed = (Inr (Some \<lparr>m_messageId = ''run1'', m_messageScore = 5,
     m_message = output_of (demo_message ''run1'') (queueKey demo_env ''emails'' None) ''us''\<rparr>), q)"
proof -
  let ?p = "output_of (demo_message ''run1'') (queueKey demo_env ''emails'' None) ''us''"
  have "env_match [] (queueKey demo_env ''emails'' None) \<noteq> None" by code_simp
  then obtain x where x: "env_match [] (queueKey demo_env ''emails'' None) = Some x" by blast
  have p: "p_queue ?p = queueKey demo_env ''emails'' None" "p_runId ?p = ''run1''" "p_timestamp ?p = 5" by (simp_all add: output_of_def demo_message_def)
  obtain s where "dequeueMessageFromKey Run_Queue_Properties.demo_deps demo_opts (messageKey ''o1'' ''run1'')
      (snd (dequeueMessageFromWorkerQueueNonBlocking mem_redis (pk demo_opts (workerQueueKey ''us'')) (rq_redis demo_handed))) = Inr (Some ?p, s)"
    by (simp add: demo_handed_def dequeueMessageFromWorkerQueueNonBlocking_def dequeueMessageFromKey_def dequeueMessageFromKey_script_def
        Run_Queue_Properties.demo_deps_def mem_redis_defs get_queue_and_run_def p x Let_def)
  then show ?thesis
    by (simp add: demo_engine_def run_queue_ops_def dequeueMessageFromWorkerQueue_def dequeueMessageFromWorkerQueueNonBlocking_def demo_handed_def
        Run_Queue_Properties.demo_deps_def mem_redis_defs p)
qed

definition demo_waiting_for_worker :: "(mem_tables, demo_state, store \<times> nat) engine_state" where
  "demo_waiting_for_worker = (demo_system RS_PENDING ES_QUEUED)\<lparr>es_queue := demo_handed\<rparr>"

lemma demo_dequeues:
  "\<exists>y g run. dequeueFromWorkerQueue demo_engine demo_deployments 0 9 ''us'' None None None demo_waiting_for_worker = (Inr (Some (y, 2)), g)
     \<and> t_runs (mem_view (es_db g)) (sn_runId y) = Some run \<and> tr_lockedById run = Some ''task1''"
proof -
  obtain q where q: "q_pop (e_queue demo_engine) ''us'' (es_queue demo_waiting_for_worker) = (Inr (Some \<lparr>m_messageId = ''run1'', m_messageScore = 5,
     m_message = output_of (demo_message ''run1'') (queueKey demo_env ''emails'' None) ''us''\<rparr>), q)"
    using demo_pop by (auto simp: demo_waiting_for_worker_def)
  define st where "st = demo_waiting_for_worker\<lparr>es_queue := q\<rparr>"
  have run: "t_runs (mem_view (es_db st)) ''run1'' = Some (demo_run RS_PENDING)"
    by (simp add: st_def demo_waiting_for_worker_def demo_system_def mem_view_def demo_tables_def get_row_def demo_run_def)
  have ok: "rows_ok (mem_view (es_db st))" using demo_rows by (simp add: st_def demo_waiting_for_worker_def demo_system_def)
  have latest: "getLatestExecutionSnapshot demo_engine ''run1'' st = (Inr (demo_snapshot ES_QUEUED), st)"
    by (simp add: getLatestExecutionSnapshot_def st_def demo_waiting_for_worker_def demo_system_def mem_db_def demo_tables_def demo_snapshot_def snapshot_row_def)
  have get: "run_get mem_db ''run1'' (es_db st) = Some (demo_run RS_PENDING)"
    using run by (simp add: mem_db_def mem_view_def)
  have v: "getRunWithBackgroundWorkerTasks demo_deployments (Some (demo_run RS_PENDING)) None = Version (demo_run RS_PENDING) demo_worker_row demo_task_row
      \<lparr>tq_id = ''q1'', tq_name = ''emails''\<rparr> (dy_promoted demo_deployments ''e1'')"
    by (simp add: getRunWithBackgroundWorkerTasks_def find_worker_def demo_run_def demo_environment_def nonempty_def demo_deployments_def
        getManagedWorkerFromCurrentlyPromotedDeployment_def demo_worker_row_def demo_task_row_def)
  have locked: "dequeue_locked demo_engine demo_deployments 0 9 None None None org ''run1'' st
      = lock_version demo_engine 9 ''run1'' None None (demo_snapshot ES_QUEUED) (demo_run RS_PENDING) demo_worker_row demo_task_row \<lparr>tq_id = ''q1'', tq_name = ''emails''\<rparr> st" for org
    using latest get
    by (simp add: dequeue_locked_def Let_def then_do_ok v) (simp add: demo_snapshot_def snapshot_row_def isDequeueableExecutionStatus_def demo_deployments_def nonempty_def)
  obtain y n g where l: "lock_version demo_engine 9 ''run1'' None None (demo_snapshot ES_QUEUED) (demo_run RS_PENDING) demo_worker_row demo_task_row
      \<lparr>tq_id = ''q1'', tq_name = ''emails''\<rparr> st = (Inr (Some (y, n)), g)"
    using engine.lock_version_succeeds [OF demo_engine_ok run] by blast
  note e = engine.lock_version_effect [OF demo_engine_ok l ok run]
  have "n = 2" "tk_id demo_task_row = ''task1''" using e(6) by (simp_all add: demo_run_def demo_task_row_def)
  moreover have "dequeueFromWorkerQueue demo_engine demo_deployments 0 9 ''us'' None None None demo_waiting_for_worker = (Inr (Some (y, n)), g)"
    using locked l by (simp add: dequeueFromWorkerQueue_def q st_def)
  ultimately show ?thesis using e(4,5) by auto
qed


end
