(* ===== verification/Spec2Isabelle.thy ===== *)
theory Spec2Isabelle
  imports Run_Queue_Properties Redis_Worker_Properties Fair_Selection_Properties Fair_Queue_Properties Batch_Properties Engine_Properties Engine_Start_Properties
begin

text \<open>
  Verification of the run engine and its queues.

  \<^bold>\<open>The program.\<close> Trigger.dev runs background tasks. Its run engine keeps the runs in a database and everything that
  waits in Redis, in sorted sets, sets, lists and hashes that Lua scripts change atomically:

  \<^item> the \<^emph>\<open>run engine\<close> (\<open>internal-packages/run-engine/src/engine\<close>) takes runs through their attempts, suspends them on waitpoints and
    continues them, retries, cancels and expires them, and completes batches. Its systems hold a lock per run; a completed
    waitpoint only leaves a job for each run that it blocks;

  \<^item> the \<^emph>\<open>run queue\<close> (\<open>internal-packages/run-engine/src/run-queue\<close>) holds the runs of all environments in one queue per
    task queue, a master queue per shard, and sets that count the runs underway against concurrency limits. A
    pass over a shard asks the \<^emph>\<open>selection strategy\<close> for an order of the queues that is fair to the environments
    and moves the earliest runs to worker queues;
  \<^item> the \<^emph>\<open>job queue\<close> and the \<^emph>\<open>background worker\<close> (\<open>packages/redis-worker/src/queue.ts\<close>, \<open>worker.ts\<close>) hold the engine's own
    delayed jobs, with visibility timeouts, retries, a dead letter queue and cron schedules;
  \<^item> the \<^emph>\<open>fair queue\<close> (\<open>packages/redis-worker/src/fair-queue\<close>) is a multi-tenant queue with pluggable schedulers, in-flight
    tracking, concurrency groups, retry strategies and a dead letter queue;
  \<^item> the \<^emph>\<open>batch queue\<close> (\<open>internal-packages/run-engine/src/batch-queue\<close>) streams the items of a batch through a fair
    queue and tracks the completion of the batch;
  \<^item> the \<^emph>\<open>shard hash\<close> and the \<^emph>\<open>retry delays\<close> (\<open>packages/core\<close>) are shared by them.

  \<^bold>\<open>The library.\<close>

  \<^item> \<open>Prelude\<close>: the collections of simp rules, lists, options, strings, decimal texts of numbers, \<open>parseInt\<close>.
  \<^item> \<open>Redis_Interface\<close>: a server is a record of commands over any state; the locale \<open>redis_server\<close> states what each
    command answers and does to a view of the keyspace. \<open>mem_redis\<close>, the reference server, interprets it; every
    witness runs on it. A script is one definition over the commands, hence atomic, as in Redis.
  \<^item> \<open>Field_Codec\<close>, \<open>Payload_Codec\<close>: executable codecs of records, the instances of the JSON parameters.
  \<^item> \<open>Jump_Hash\<close> (\<open>jumpHash.ts\<close>) and \<open>Retries\<close> (\<open>utils/retries.ts\<close>).
  \<^item> Run queue: \<open>Run_Queue_Keys\<close> (\<open>keyProducer.ts\<close>), \<open>Run_Queue_Scripts\<close> (the Lua scripts of \<open>index.ts\<close>), \<open>Run_Queue\<close> (its
    operations, \<open>types.ts\<close> and \<open>workerQueueResolver.ts\<close>), \<open>Run_Queue_Refs\<close> and \<open>Run_Queue_Invariant\<close> (the abstract
    store, the invariant, the locale \<open>run_queue\<close>), \<open>Run_Queue_Steps\<close> and \<open>Run_Queue_Life\<close> (every operation keeps the
    invariant and refines the life cycle of a run), \<open>Run_Queue_Properties\<close>.
  \<^item> Selection strategy: \<open>Fair_Selection\<close> (\<open>fairQueueSelectionStrategy.ts\<close>), \<open>Fair_Selection_Properties\<close>.
  \<^item> Job queue and worker: \<open>Simple_Queue\<close> (\<open>queue.ts\<close>), \<open>Redis_Worker\<close> (\<open>worker.ts\<close>), their \<open>_Properties\<close>; the locale
    \<open>simple_queue\<close> is what the worker relies on.
  \<^item> Fair queue: \<open>Fair_Queue_Keys\<close> (\<open>keyProducer.ts\<close>), \<open>Fair_Queue_Retry\<close> (\<open>retry.ts\<close>), \<open>Fair_Queue_Managers\<close>
    (\<open>masterQueue.ts\<close>, \<open>concurrency.ts\<close>, \<open>visibility.ts\<close>, \<open>workerQueue.ts\<close>), \<open>Fair_Queue_Schedulers\<close> (\<open>schedulers/\<close>),
    \<open>Fair_Queue\<close> (\<open>index.ts\<close>); \<open>Fair_Queue_Store\<close> (the abstract store, locale \<open>fair_server\<close>), \<open>Fair_Queue_Invariant\<close>,
    \<open>Fair_Queue_Life\<close> (life cycle of a message), \<open>Fair_Queue_Steps\<close>, \<open>Fair_Queue_Operations\<close>, \<open>Fair_Queue_Reclaim\<close> and
    \<open>Fair_Queue_System\<close> (every operation is a sequence of abstract transitions, reachable states),
    \<open>Fair_Queue_Concurrency\<close> (limits), \<open>Fair_Queue_Delivery\<close> (a pass delivers), \<open>Fair_Queue_Properties\<close>. A scheduler
    is anything that obeys \<open>scheduler_laws\<close>; \<open>serving_scheduler\<close> adds that a due queue is offered, \<open>delivering\<close> puts
    it together with a queue. The round robin and the deficit round robin interpret them.
  \<^item> Batch queue: \<open>Batch_Tracker\<close> (\<open>completionTracker.ts\<close>, locale \<open>batch_server\<close>), \<open>Batch_Queue\<close> (\<open>index.ts\<close>), \<open>Batch_Frame\<close>
    (which keys each part touches), \<open>Batch_System\<close> (consumers interleaved at their calls), \<open>Batch_Invariant\<close>,
    \<open>Batch_Steps\<close>, \<open>Batch_Consumers\<close> (every step keeps the invariant), \<open>Batch_Handler\<close> and \<open>Batch_Properties\<close>.

  \<^item> Run engine: \<open>Engine_Errors\<close> (\<open>statuses.ts\<close>, \<open>errors.ts\<close>, \<open>machinePresets.ts\<close>, the errors of \<open>packages/core\<close>), \<open>Engine_Durations\<close>
    (\<open>isomorphic/duration.ts\<close>), \<open>Engine_Store\<close> (the rows; the locales \<open>engine_db\<close> and \<open>engine_worker\<close> state what the database client
    and the worker do), \<open>Engine_Snapshots\<close> (\<open>executionSnapshotSystem.ts\<close>, \<open>enqueueSystem.ts\<close>, the locale \<open>engine\<close>), \<open>Engine_Waitpoints\<close>
    (\<open>waitpointSystem.ts\<close>), \<open>Engine_Retrying\<close> (\<open>retrying.ts\<close>), \<open>Engine_Attempts\<close> (\<open>runAttemptSystem.ts\<close>), \<open>Engine_Lifecycle\<close> (checkpoints,
    delays, expiry, versions, batches, stalled snapshots), \<open>Engine_Trigger\<close> (\<open>trigger\<close> and the job handlers of \<open>index.ts\<close>), \<open>Engine_Dequeue\<close>
    (\<open>dequeueSystem.ts\<close>); \<open>Engine_Wakeup\<close>, \<open>Engine_Wakeup_Invariant\<close>, \<open>Engine_Wakeup_Steps\<close> and
    \<open>Engine_Wakeup_Life\<close> (interleaved requests and workers, no wake-up is lost), \<open>Engine_Attempts_Laws\<close>, \<open>Engine_Closing\<close> and
    \<open>Engine_Outcomes\<close> (how runs and batches end), \<open>Engine_Starting\<close> (how runs begin), \<open>Engine_Instance\<close> (the engine on the modelled run queue and job queue, which
    interpret \<open>engine\<close>), \<open>Engine_Properties\<close> and \<open>Engine_Start_Properties\<close>.

  The state of a component is its keyspace together with what the objects keep in memory (snapshots, cool-off
  states, cached descriptors), passed explicitly. Errors are values of a sum type, and each early return and
  exception of the source is a branch. Clocks, generated ids, random numbers, JSON, SHA-256, the rounding of
  doubles and callbacks are arguments, with named laws where the code relies on them.

  \<^bold>\<open>What is shown.\<close> Invariants of all reachable states of the run queue, the job queue, the fair queue and the batch
  queue, and of the waiting runs of the engine; refinement of the life cycles of runs and messages; limits are never exceeded; order and
  completeness of dequeues, claims, distributions and selections; delivery by a pass, return of timed-out
  messages, finalisation of complete batches, continuation of runs that wait for nothing any more; a run that triggers
  another and waits for it is blocked by it, a dequeued run can be started; runs that end are
  closed and stay closed; retries are bounded; round trips of keys, payloads and dead letters; termination and
  bounds of the loops and of the hash; what the error paths do. The findings are stated as lemmas where they
  are about modelled code.

  \<^bold>\<open>Fuel and bounds.\<close> \<open>jump_loop\<close> gets \<open>jump_fuel\<close>, one round per bucket, which suffices because the bucket grows;
  \<open>processQueueForWorkerQueue\<close> gets a number of rounds, and as many as the queue has messages suffice; the loops
  over at most 100 timed-out members and at most 1000 redriven messages have the limits of the source; a
  handler of the batch queue makes at most six calls; a failed attempt that cannot be queued again is failed once more, so
  two rounds of \<open>attemptFailed_fuel\<close> suffice.

  \<^bold>\<open>Not modelled.\<close> Of the run engine, triggers with a debounce key and the debounce system, the repair reports, and the lock itself: an operation under the lock of a run is one step. The database
  client is generated from its schema and is a parameter; transactions that fail half-way are not modelled. Further the web
  application, the command line interface, the SDK, the coordinator, the supervisor and the providers, the query language, and
  the packages for storage, telemetry and schedules: they are user interface, process management, generated code or wrappers
  of external services. Of the modelled components, the loops that repeat the passes, shutdown, tracing, events and metrics are
  left out, and so are failing Redis commands.
\<close>

end
